(* ===== verification/Prelude.thy ===== *)
theory Prelude
  imports Main "HOL-Library.Sublist" "HOL-Library.List_Lexorder" "HOL-Library.Char_ord"
begin

text \<open>
  Shared vocabulary of the development.

  \<^item> JavaScript list operations the sources use and HOL does not name: \<open>findLast\<close>,
    \<open>latest\<close> (\<open>values[values.length - 1]\<close>), insertion of a fresh key in a \<open>Map\<close>;
  \<^item> the effect type: an \<open>Effect.Effect<A, E>\<close> over a state \<open>'w\<close> is a function
    \<open>'w \<Rightarrow> ('e + 'a) \<times> 'w\<close>, an early \<open>return yield* new Failure\<close> is \<open>fail\<close>;
  \<^item> \<open>showNat\<close>, the decimal text of a non-negative integer inside a template literal,
    with the injectivity facts that record keys and request identities rest on.
\<close>

named_theorems eff_simps \<open>unfolding rules of the effect operations\<close>
named_theorems key_simps \<open>decoding rules of identity and record-key strings\<close>

section \<open>List operations\<close>

definition findLast :: "('a \<Rightarrow> bool) \<Rightarrow> 'a list \<Rightarrow> 'a option" where
  "findLast P xs = List.find P (rev xs)"

definition latest :: "'a list \<Rightarrow> 'a option" where
  "latest xs = (if xs = [] then None else Some (last xs))"

lemma findLast_Nil [simp]: "findLast P [] = None"
  by (simp add: findLast_def)

lemma findLast_snoc [simp]: "findLast P (xs @ [x]) = (if P x then Some x else findLast P xs)"
  by (simp add: findLast_def)

lemma findLast_None_iff: "findLast P xs = None \<longleftrightarrow> (\<forall>x\<in>set xs. \<not> P x)"
  by (auto simp: findLast_def find_None_iff)

lemma find_SomeD: "List.find P xs = Some x \<Longrightarrow> P x \<and> x \<in> set xs"
  by (induction xs) (auto split: if_splits)

lemma findLast_SomeD: "findLast P xs = Some x \<Longrightarrow> P x \<and> x \<in> set xs"
  by (auto simp: findLast_def dest: find_SomeD)

lemma latest_Nil [simp]: "latest [] = None"
  by (simp add: latest_def)

lemma latest_snoc [simp]: "latest (xs @ [x]) = Some x"
  by (simp add: latest_def)

lemma latest_singleton [simp]: "latest [x] = Some x"
  by (simp add: latest_def)

lemma latest_None_iff [simp]: "latest xs = None \<longleftrightarrow> xs = []"
  by (simp add: latest_def)

lemma latest_SomeD: "latest xs = Some x \<Longrightarrow> x \<in> set xs"
  by (auto simp: latest_def split: if_splits)

lemma latest_filter: "latest (filter P xs) = findLast P xs"
  by (induction xs rule: rev_induct) auto

lemma latest_append_nonempty: "ys \<noteq> [] \<Longrightarrow> latest (xs @ ys) = latest ys"
  by (simp add: latest_def)

lemma latest_map_filter_snoc [simp]:
  "latest (List.map_filter f (xs @ [x])) =
     (case f x of None \<Rightarrow> latest (List.map_filter f xs) | Some y \<Rightarrow> Some y)"
  by (simp add: map_filter_def split: option.split)

lemma map_filter_append [simp]: "List.map_filter f (xs @ ys) = List.map_filter f xs @ List.map_filter f ys"
  by (simp add: map_filter_def)

lemma map_filter_simps2 [simp]:
  "List.map_filter f [] = []"
  "List.map_filter f (x # xs) =
     (case f x of None \<Rightarrow> List.map_filter f xs | Some y \<Rightarrow> y # List.map_filter f xs)"
  by (simp_all add: map_filter_def split: option.split)

lemma set_map_filter_conv: "set (List.map_filter f xs) = {y. \<exists>x\<in>set xs. f x = Some y}"
  by (induction xs) (auto split: option.split)

lemma find_append:
  "List.find P (xs @ ys) = (case List.find P xs of Some x \<Rightarrow> Some x | None \<Rightarrow> List.find P ys)"
  by (induction xs) auto

lemma find_eq_None_iff: "List.find P xs = None \<longleftrightarrow> (\<forall>x\<in>set xs. \<not> P x)"
  by (auto simp: find_None_iff)

text \<open>Records are kept in append order, so sorting by position is the identity on a history.\<close>

lemma sort_key_id: "sorted (map f xs) \<Longrightarrow> sort_key f xs = xs"
  by (simp add: sorted_sort_id sort_key_id_if_sorted)

lemma sorted_map_filter_key: "sorted (map f xs) \<Longrightarrow> sorted (map f (filter P xs))"
  by (induction xs) auto

section \<open>Effects\<close>

type_synonym ('w, 'e, 'a) effect = "'w \<Rightarrow> ('e + 'a) \<times> 'w"

definition succeed :: "'a \<Rightarrow> ('w, 'e, 'a) effect" where
  "succeed x = (\<lambda>w. (Inr x, w))"

definition fail :: "'e \<Rightarrow> ('w, 'e, 'a) effect" where
  "fail e = (\<lambda>w. (Inl e, w))"

definition andThen :: "('w, 'e, 'a) effect \<Rightarrow> ('a \<Rightarrow> ('w, 'e, 'b) effect) \<Rightarrow> ('w, 'e, 'b) effect" where
  "andThen m f = (\<lambda>w. case m w of (Inl e, w') \<Rightarrow> (Inl e, w') | (Inr x, w') \<Rightarrow> f x w')"

definition mapError :: "('e \<Rightarrow> 'f) \<Rightarrow> ('w, 'e, 'a) effect \<Rightarrow> ('w, 'f, 'a) effect" where
  "mapError f m = (\<lambda>w. case m w of (Inl e, w') \<Rightarrow> (Inl (f e), w') | (Inr x, w') \<Rightarrow> (Inr x, w'))"

lemma succeed_apply [simp, eff_simps]: "succeed x w = (Inr x, w)"
  by (simp add: succeed_def)

lemma fail_apply [simp, eff_simps]: "fail e w = (Inl e, w)"
  by (simp add: fail_def)

lemma andThen_apply [eff_simps]:
  "andThen m f w = (case m w of (Inl e, w') \<Rightarrow> (Inl e, w') | (Inr x, w') \<Rightarrow> f x w')"
  by (simp add: andThen_def)

lemma andThen_InrE:
  assumes "andThen m f w = (Inr y, w'')"
  obtains x w' where "m w = (Inr x, w')" "f x w' = (Inr y, w'')"
  using assms by (auto simp: andThen_def split: prod.splits sum.splits)

lemma andThen_Inr: "m w = (Inr x, w') \<Longrightarrow> andThen m f w = f x w'"
  by (simp add: andThen_def)

lemma andThen_Inl: "m w = (Inl e, w') \<Longrightarrow> andThen m f w = (Inl e, w')"
  by (simp add: andThen_def)

text \<open>
  Partial-failure triples: from a state in \<open>P\<close> the effect returns a value and state in \<open>Q\<close>, or
  fails with an error and state in \<open>E\<close>. Effects are total functions, so a triple says what happens.
\<close>

definition triple :: "('w \<Rightarrow> bool) \<Rightarrow> ('w, 'e, 'a) effect \<Rightarrow> ('a \<Rightarrow> 'w \<Rightarrow> bool) \<Rightarrow> ('e \<Rightarrow> 'w \<Rightarrow> bool) \<Rightarrow> bool" where
  "triple P m Q E \<longleftrightarrow> (\<forall>w. P w \<longrightarrow> (case m w of (Inr x, w') \<Rightarrow> Q x w' | (Inl e, w') \<Rightarrow> E e w'))"

lemma tripleI:
  assumes "\<And>w x w'. P w \<Longrightarrow> m w = (Inr x, w') \<Longrightarrow> Q x w'" "\<And>w e w'. P w \<Longrightarrow> m w = (Inl e, w') \<Longrightarrow> E e w'"
  shows "triple P m Q E"
  using assms by (auto simp: triple_def split: prod.splits sum.splits)

lemma triple_Inr: "triple P m Q E \<Longrightarrow> P w \<Longrightarrow> m w = (Inr x, w') \<Longrightarrow> Q x w'"
  by (fastforce simp: triple_def)

lemma triple_Inl: "triple P m Q E \<Longrightarrow> P w \<Longrightarrow> m w = (Inl e, w') \<Longrightarrow> E e w'"
  by (fastforce simp: triple_def)

lemma triple_andThen:
  assumes "triple P m R E" "\<And>x. triple (R x) (f x) Q E"
  shows "triple P (andThen m f) Q E"
  using assms by (fastforce simp: triple_def andThen_def split: prod.splits sum.splits)

lemma triple_bind:
  assumes "triple P m R E'" "\<And>x. triple (R x) (f x) Q E" "\<And>e w. E' e w \<Longrightarrow> E e w"
  shows "triple P (andThen m f) Q E"
  using assms by (fastforce simp: triple_def andThen_def split: prod.splits sum.splits)

lemma triple_if: "(b \<Longrightarrow> triple P m Q E) \<Longrightarrow> (\<not> b \<Longrightarrow> triple P n Q E) \<Longrightarrow> triple P (if b then m else n) Q E"
  by simp

lemma triple_case_sum:
  "(\<And>l. triple P (f l) Q E) \<Longrightarrow> (\<And>r. triple P (g r) Q E) \<Longrightarrow> triple P (case x of Inl l \<Rightarrow> f l | Inr r \<Rightarrow> g r) Q E"
  by (cases x) auto

lemma triple_case_option:
  "(x = None \<Longrightarrow> triple P m Q E) \<Longrightarrow> (\<And>y. x = Some y \<Longrightarrow> triple P (f y) Q E) \<Longrightarrow>
   triple P (case x of None \<Rightarrow> m | Some y \<Rightarrow> f y) Q E"
  by (cases x) auto

lemma mapError_Inr: "mapError f m w = (Inr x, w') \<longleftrightarrow> m w = (Inr x, w')"
  by (auto simp: mapError_def split: prod.splits sum.splits)

lemma triple_mapError: "triple P m Q (\<lambda>e. E (f e)) \<Longrightarrow> triple P (mapError f m) Q E"
  by (auto simp: triple_def mapError_def split: prod.splits sum.splits)

lemma andThen_succeed: "andThen (succeed x) f = f x"
  by (rule ext) (simp add: andThen_def)

lemma triple_succeed: "(\<And>w. P w \<Longrightarrow> Q x w) \<Longrightarrow> triple P (succeed x) Q E"
  by (simp add: triple_def)

lemma triple_fail: "(\<And>w. P w \<Longrightarrow> E e w) \<Longrightarrow> triple P (fail e) Q E"
  by (simp add: triple_def)

lemma triple_pre: "triple P' m Q E \<Longrightarrow> (\<And>w. P w \<Longrightarrow> P' w) \<Longrightarrow> triple P m Q E"
  by (auto simp: triple_def)

lemma triple_conseq:
  "triple P' m Q' E' \<Longrightarrow> (\<And>w. P w \<Longrightarrow> P' w) \<Longrightarrow> (\<And>x w. Q' x w \<Longrightarrow> Q x w) \<Longrightarrow> (\<And>e w. E' e w \<Longrightarrow> E e w) \<Longrightarrow>
   triple P m Q E"
  by (fastforce simp: triple_def split: prod.splits sum.splits)

lemma triple_pure: "(C \<Longrightarrow> triple P m Q E) \<Longrightarrow> triple (\<lambda>w. C \<and> P w) m Q E"
  by (auto simp: triple_def)

lemma triple_ex: "(\<And>y. triple (P y) m Q E) \<Longrightarrow> triple (\<lambda>w. \<exists>y. P y w) m Q E"
  by (rule tripleI) (auto intro: triple_Inr triple_Inl)

section \<open>Decimal text\<close>

definition digitChar :: "nat \<Rightarrow> char" where
  "digitChar d = char_of (48 + d)"

fun showNat :: "nat \<Rightarrow> string" where
  "showNat n = (if n < 10 then [digitChar n] else showNat (n div 10) @ [digitChar (n mod 10)])"

declare showNat.simps [simp del]

definition digitVal :: "char \<Rightarrow> nat" where
  "digitVal c = of_char c - 48"

fun readNat :: "string \<Rightarrow> nat" where
  "readNat cs = fold (\<lambda>c n. 10 * n + digitVal c) cs 0"

lemma digitVal_digitChar: "d < 10 \<Longrightarrow> digitVal (digitChar d) = d"
  by (simp add: digitVal_def digitChar_def)

lemma readNat_snoc: "readNat (cs @ [c]) = 10 * readNat cs + digitVal c"
  by simp

lemma readNat_showNat: "readNat (showNat n) = n"
proof (induction n rule: showNat.induct)
  case (1 n)
  show ?case
  proof (cases "n < 10")
    case True
    then show ?thesis by (subst showNat.simps) (simp add: digitVal_digitChar)
  next
    case False
    with "1.IH" have "readNat (showNat (n div 10)) = n div 10" by simp
    with False show ?thesis
      by (subst showNat.simps) (simp only: if_False readNat_snoc digitVal_digitChar; simp)
  qed
qed

lemma showNat_inject [simp]: "showNat m = showNat n \<longleftrightarrow> m = n"
  by (metis readNat_showNat)

definition isDigit :: "char \<Rightarrow> bool" where
  "isDigit c \<longleftrightarrow> 48 \<le> (of_char c :: nat) \<and> (of_char c :: nat) \<le> 57"

lemma isDigit_digitChar: "d < 10 \<Longrightarrow> isDigit (digitChar d)"
  by (simp add: isDigit_def digitChar_def)

lemma showNat_digits: "c \<in> set (showNat n) \<Longrightarrow> isDigit c"
proof (induction n rule: showNat.induct)
  case (1 n)
  then show ?case
    by (cases "n < 10") (auto simp: showNat.simps [of n] isDigit_digitChar)
qed

lemma showNat_not_Nil [simp]: "showNat n \<noteq> []"
  by (subst showNat.simps) simp

lemma colon_not_isDigit [simp]: "\<not> isDigit CHR '':''"
  by (simp add: isDigit_def)

lemma colon_notin_showNat [simp]: "CHR '':'' \<notin> set (showNat n)"
  using showNat_digits colon_not_isDigit by blast

text \<open>
  Splitting at the first or last separator is unique once one side cannot hold it: the
  argument behind every identity that joins fields with a colon.
\<close>

lemma append_sep_inject_left:
  assumes "c \<notin> set xs" "c \<notin> set xs'" "xs @ c # ys = xs' @ c # ys'"
  shows "xs = xs' \<and> ys = ys'"
proof -
  have "takeWhile (\<lambda>d. d \<noteq> c) (xs @ c # ys) = xs" using assms(1)
    by (induction xs) auto
  moreover have "takeWhile (\<lambda>d. d \<noteq> c) (xs' @ c # ys') = xs'" using assms(2)
    by (induction xs') auto
  ultimately show ?thesis using assms(3) by auto
qed

lemma append_sep_inject_right:
  assumes "c \<notin> set ys" "c \<notin> set ys'" "xs @ c # ys = xs' @ c # ys'"
  shows "xs = xs' \<and> ys = ys'"
proof -
  from assms(3) have "rev (xs @ c # ys) = rev (xs' @ c # ys')" by simp
  then have "rev ys @ c # rev xs = rev ys' @ c # rev xs'" by simp
  with assms(1,2) have "rev ys = rev ys' \<and> rev xs = rev xs'"
    using append_sep_inject_left [of c "rev ys" "rev ys'" "rev xs" "rev xs'"] by simp
  then show ?thesis by simp
qed

end
