(* ===== verification/Contracts.thy ===== *)
theory Contracts
  imports Prelude
begin

text \<open>
  The shared contracts (\<^verbatim>\<open>packages/contracts/src\<close>) and the identities every protocol
  carries: commit identities and branch refs with their boundary checks
  (\<^verbatim>\<open>git-locator.ts\<close>), planned attempts, sealed evidence, accepted results, executor
  reports, and the outer Integrator's session and qualified candidate
  (\<^verbatim>\<open>integrator/events.ts\<close>).

  A branded string is a \<open>string\<close>; a branded positive integer is a \<open>nat\<close>. A schema's
  \<open>check\<close> is a bool-valued function, so that theorems name it where they rely on a decoded value.
  Record fields carry a short prefix because HOL field names are global.
\<close>

section \<open>Identities\<close>

type_synonym TaskId = string
type_synonym TaskRevision = string
type_synonym RunId = string
type_synonym AttemptId = string
type_synonym OperationId = string
type_synonym GitCommitSha = string
type_synonym BranchRef = string
type_synonym WorktreeLocator = string
type_synonym JournalPosition = nat
type_synonym JournalRecordKey = string

definition isHexLower :: "char \<Rightarrow> bool" where
  "isHexLower c \<longleftrightarrow> isDigit c \<or> (97 \<le> (of_char c :: nat) \<and> (of_char c :: nat) \<le> 102)"

definition validGitCommitSha :: "string \<Rightarrow> bool" where
  "validGitCommitSha s \<longleftrightarrow> length s = 40 \<and> list_all isHexLower s"

section \<open>Branch refs\<close>

definition startsWith :: "string \<Rightarrow> string \<Rightarrow> bool" where
  "startsWith s p \<longleftrightarrow> prefix p s"

definition endsWith :: "string \<Rightarrow> string \<Rightarrow> bool" where
  "endsWith s p \<longleftrightarrow> suffix p s"

fun strIncludes :: "string \<Rightarrow> string \<Rightarrow> bool" where
  "strIncludes [] p = (p = [])"
| "strIncludes (c # s) p = (prefix p (c # s) \<or> strIncludes s p)"

fun splitOn :: "char \<Rightarrow> string \<Rightarrow> string list" where
  "splitOn sep [] = [[]]"
| "splitOn sep (c # s) =
     (if c = sep then [] # splitOn sep s
      else (case splitOn sep s of [] \<Rightarrow> [[c]] | w # ws \<Rightarrow> (c # w) # ws))"

definition hasInvalidTaskBranchShape :: "string \<Rightarrow> bool" where
  "hasInvalidTaskBranchShape ref \<longleftrightarrow>
     strIncludes ref ''..'' \<or> strIncludes ref ''//'' \<or> strIncludes ref [CHR ''@'', CHR 0x7B] \<or>
     endsWith ref ''/'' \<or> endsWith ref ''.''"

definition isValidTaskBranchComponent :: "string \<Rightarrow> bool" where
  "isValidTaskBranchComponent component \<longleftrightarrow>
     \<not> startsWith component ''.'' \<and> \<not> endsWith component ''.lock''"

definition isForbiddenRefChar :: "char \<Rightarrow> bool" where
  "isForbiddenRefChar c \<longleftrightarrow>
     (of_char c :: nat) \<le> 32 \<or> (of_char c :: nat) = 127 \<or>
     c \<in> {CHR ''~'', CHR ''^'', CHR '':'', CHR ''?'', CHR ''*'', CHR ''['', CHR 0x5C}"

definition isValidTaskBranchRef :: "string \<Rightarrow> bool" where
  "isValidTaskBranchRef ref \<longleftrightarrow>
     (if \<not> startsWith ref ''refs/heads/'' \<or> ref = ''refs/heads/'' then False
      else if hasInvalidTaskBranchShape ref then False
      else if list_ex isForbiddenRefChar ref then False
      else list_all isValidTaskBranchComponent (splitOn CHR ''/'' ref))"

section \<open>Git and publication targets\<close>

record IntegrationTarget =
  it_repository :: string
  it_ref :: BranchRef

record RemotePublicationTarget =
  rt_branch :: BranchRef
  rt_endpoint :: string

section \<open>Planned attempts and accepted results\<close>

record PlannedTaskAttempt =
  pa_attemptId :: AttemptId
  pa_baseSha :: GitCommitSha
  pa_branch :: BranchRef
  pa_executor :: string
  pa_runId :: RunId
  pa_taskId :: TaskId
  pa_taskRevision :: TaskRevision
  pa_worktree :: WorktreeLocator

record EvidenceReference =
  ev_byteLength :: nat
  ev_digest :: string

definition evidenceReferenceEquals :: "EvidenceReference \<Rightarrow> EvidenceReference \<Rightarrow> bool" where
  "evidenceReferenceEquals l r \<longleftrightarrow> ev_byteLength l = ev_byteLength r \<and> ev_digest l = ev_digest r"

record AcceptedResult =
  ar_commit :: GitCommitSha
  ar_evidenceManifest :: EvidenceReference

definition acceptedResultEquivalence :: "AcceptedResult \<Rightarrow> AcceptedResult \<Rightarrow> bool" where
  "acceptedResultEquivalence l r \<longleftrightarrow>
     ar_commit l = ar_commit r \<and> evidenceReferenceEquals (ar_evidenceManifest l) (ar_evidenceManifest r)"

section \<open>Executor reports\<close>

record PlannedAttemptExecutorCorrelation =
  ec_attemptId :: AttemptId
  ec_runId :: RunId

datatype PlannedAttemptExecutorFailureCode =
  ProviderFailed | FailureEnvelopeInvalid | FailureHeadMismatch | GitUnavailable | LineageUnproven

datatype PlannedAttemptExecutorResult =
    Accepted AcceptedResult
  | Completed
  | Failed "PlannedAttemptExecutorFailureCode option" "GitCommitSha option"

datatype PlannedAttemptResultRejectionReason =
  ResultEnvelopeInvalid | CandidateHeadMismatch | CandidateLineageInvalid

datatype PlannedAttemptRejectedResultCustody = Stopped | Unresolved

datatype PlannedAttemptResultRecoveryCause =
  CorrectionExhausted | Deadline | WriterCustodyUnresolved

datatype PlannedAttemptExecutorReport =
    ExecutorWorkExecuting PlannedAttemptExecutorCorrelation
  | ExecutorWorkSafelySuspended PlannedAttemptExecutorCorrelation
  | ExecutorWorkResultRejected PlannedAttemptExecutorCorrelation
      PlannedAttemptResultRejectionReason PlannedAttemptResultRecoveryCause nat
      PlannedAttemptRejectedResultCustody
  | ExecutorWorkTerminal PlannedAttemptExecutorCorrelation PlannedAttemptExecutorResult

fun report_correlation :: "PlannedAttemptExecutorReport \<Rightarrow> PlannedAttemptExecutorCorrelation" where
  "report_correlation (ExecutorWorkExecuting c) = c"
| "report_correlation (ExecutorWorkSafelySuspended c) = c"
| "report_correlation (ExecutorWorkResultRejected c _ _ _ _) = c"
| "report_correlation (ExecutorWorkTerminal c _) = c"

section \<open>Integrator sessions and qualified candidates\<close>

record IntegratorSessionCorrelation =
  se_acceptedResult :: AcceptedResult
  se_candidateResource :: string
  se_expectedTargetHead :: GitCommitSha
  se_integrationTarget :: IntegrationTarget
  se_plannedAttempt :: PlannedTaskAttempt
  se_queuedAt :: JournalPosition
  se_sessionId :: string
  se_startedAt :: JournalPosition
  se_targetLineageObservedAt :: JournalPosition

record IntegratorRunCorrelation =
  ir_ordinal :: nat
  ir_session :: IntegratorSessionCorrelation

record IntegratorRunQualifiedCandidate =
  qc_candidateCommit :: GitCommitSha
  qc_candidateText :: string
  qc_directParents :: "GitCommitSha \<times> GitCommitSha"
  qc_qualifiedAt :: JournalPosition
  qc_run :: IntegratorRunCorrelation

definition validQualifiedCandidate :: "IntegratorRunQualifiedCandidate \<Rightarrow> bool" where
  "validQualifiedCandidate c \<longleftrightarrow>
     validGitCommitSha (qc_candidateCommit c) \<and>
     validGitCommitSha (fst (qc_directParents c)) \<and> validGitCommitSha (snd (qc_directParents c)) \<and>
     fst (qc_directParents c) = se_expectedTargetHead (ir_session (qc_run c)) \<and>
     snd (qc_directParents c) = ar_commit (se_acceptedResult (ir_session (qc_run c))) \<and>
     qc_qualifiedAt c > se_targetLineageObservedAt (ir_session (qc_run c))"

record IntegrationResponsibilityIdentity =
  ri_queuedAt :: JournalPosition
  ri_runId :: RunId

definition integrationResponsibilityIdentity ::
  "PlannedTaskAttempt \<Rightarrow> JournalPosition \<Rightarrow> IntegrationResponsibilityIdentity" where
  "integrationResponsibilityIdentity plannedAttempt queuedAt =
     \<lparr>ri_queuedAt = queuedAt, ri_runId = pa_runId plannedAttempt\<rparr>"

section \<open>Facts about boundary checks\<close>

lemma isHexLower_not_colon [simp]: "\<not> isHexLower CHR '':''"
  by (simp add: isHexLower_def)

lemma isHexLower_not_plus [simp]: "\<not> isHexLower CHR ''+''"
  by (simp add: isHexLower_def isDigit_def)

lemma validGitCommitSha_no_colon: "validGitCommitSha s \<Longrightarrow> CHR '':'' \<notin> set s"
  by (auto simp: validGitCommitSha_def list_all_iff dest: bspec [where x = "CHR '':''"])

lemma validGitCommitSha_length: "validGitCommitSha s \<Longrightarrow> length s = 40"
  by (simp add: validGitCommitSha_def)

lemma validGitCommitSha_hd: "validGitCommitSha s \<Longrightarrow> hd s \<noteq> CHR ''+''"
  by (cases s) (auto simp: validGitCommitSha_def)

lemma isValidTaskBranchRef_no_forbidden: "isValidTaskBranchRef r \<Longrightarrow> c \<in> set r \<Longrightarrow> \<not> isForbiddenRefChar c"
  by (auto simp: isValidTaskBranchRef_def list_ex_iff split: if_splits)

lemma isForbiddenRefChar_colon [simp]: "isForbiddenRefChar CHR '':''"
  by (simp add: isForbiddenRefChar_def)

lemma isValidTaskBranchRef_no_colon: "isValidTaskBranchRef r \<Longrightarrow> CHR '':'' \<notin> set r"
  using isValidTaskBranchRef_no_forbidden isForbiddenRefChar_colon by blast

lemma isValidTaskBranchRef_prefix: "isValidTaskBranchRef r \<Longrightarrow> prefix ''refs/heads/'' r"
  by (auto simp: isValidTaskBranchRef_def startsWith_def split: if_splits)

lemma splitOn_not_Nil [simp]: "splitOn sep s \<noteq> []"
  by (cases s) (auto split: list.split)

end
