(* ===== verification/Promotion_Events.thy ===== *)
theory Promotion_Events
  imports Contracts
begin

text \<open>
  Data of the bounded exact-head promotion protocol (\<^verbatim>\<open>target-promotion/events.ts\<close>,
  \<^verbatim>\<open>read-observation.ts\<close>): the correlation derived from a Git-qualified candidate, Git's
  read and compare-and-set answers, the journal vocabulary, and the classification of an answer.
  The \<open>version\<close> field of an event is the one literal 15 and is left out.
\<close>

type_synonym TargetPromotionRequestId = string

definition targetPromotionAttemptLimit :: nat where
  "targetPromotionAttemptLimit = 3"

definition targetPromotionRequestIdForCandidate :: "IntegratorRunQualifiedCandidate \<Rightarrow> TargetPromotionRequestId" where
  "targetPromotionRequestIdForCandidate candidate =
     ''target-promotion:'' @ se_sessionId (ir_session (qc_run candidate)) @ '':'' @
     showNat (ir_ordinal (qc_run candidate)) @ '':'' @ qc_candidateCommit candidate"

record TargetPromotionCorrelation =
  tp_qualifiedCandidate :: IntegratorRunQualifiedCandidate
  tp_requestId :: TargetPromotionRequestId

definition validTargetPromotionCorrelation :: "TargetPromotionCorrelation \<Rightarrow> bool" where
  "validTargetPromotionCorrelation c \<longleftrightarrow>
     validQualifiedCandidate (tp_qualifiedCandidate c) \<and>
     tp_requestId c = targetPromotionRequestIdForCandidate (tp_qualifiedCandidate c)"

definition targetPromotionCorrelationFor :: "IntegratorRunQualifiedCandidate \<Rightarrow> TargetPromotionCorrelation" where
  "targetPromotionCorrelationFor candidate =
     \<lparr>tp_qualifiedCandidate = candidate, tp_requestId = targetPromotionRequestIdForCandidate candidate\<rparr>"

definition targetPromotionCorrelationEquals :: "TargetPromotionCorrelation \<Rightarrow> TargetPromotionCorrelation \<Rightarrow> bool" where
  "targetPromotionCorrelationEquals left right \<longleftrightarrow>
     tp_requestId left = tp_requestId right \<and> tp_qualifiedCandidate left = tp_qualifiedCandidate right"

definition targetPromotionExpectedHeadOf :: "TargetPromotionCorrelation \<Rightarrow> GitCommitSha" where
  "targetPromotionExpectedHeadOf c = se_expectedTargetHead (ir_session (qc_run (tp_qualifiedCandidate c)))"

definition targetPromotionCandidateCommitOf :: "TargetPromotionCorrelation \<Rightarrow> GitCommitSha" where
  "targetPromotionCandidateCommitOf c = qc_candidateCommit (tp_qualifiedCandidate c)"

definition targetPromotionRunIdOf :: "TargetPromotionCorrelation \<Rightarrow> RunId" where
  "targetPromotionRunIdOf c = pa_runId (se_plannedAttempt (ir_session (qc_run (tp_qualifiedCandidate c))))"

section \<open>The Git boundary\<close>

record TargetPromotionGitRequest =
  gr_candidateCommit :: GitCommitSha
  gr_expectedTargetHead :: GitCommitSha
  gr_integrationTarget :: IntegrationTarget

definition targetPromotionGitRequestFor :: "TargetPromotionCorrelation \<Rightarrow> TargetPromotionGitRequest" where
  "targetPromotionGitRequestFor c =
     \<lparr>gr_candidateCommit = qc_candidateCommit (tp_qualifiedCandidate c),
      gr_expectedTargetHead = se_expectedTargetHead (ir_session (qc_run (tp_qualifiedCandidate c))),
      gr_integrationTarget = se_integrationTarget (ir_session (qc_run (tp_qualifiedCandidate c)))\<rparr>"

datatype TargetPromotionAttemptReason =
    Initial GitCommitSha
  | ReconciledExpectedHead GitCommitSha nat

datatype TargetPromotionGitReadObservation =
    CandidateAncestor (currentHeadSha: GitCommitSha)
  | CandidateCurrent (currentHeadSha: GitCommitSha)
  | CandidateNotInAncestry (currentHeadSha: GitCommitSha)

datatype TargetPromotionCompareAndSetResult =
    Applied GitCommitSha
  | RejectedExpectedHead GitCommitSha

record TargetPromotionGitReadFailure =
  rf_candidateCommit :: GitCommitSha
  rf_detail :: string
  rf_target :: IntegrationTarget

record TargetPromotionCompareAndSetFailure =
  cf_candidateCommit :: GitCommitSha
  cf_detail :: string
  cf_expectedHead :: GitCommitSha
  cf_target :: IntegrationTarget

datatype TargetPromotionSafetyRefusal =
    OccupiedWorktree WorktreeLocator
  | InventoryUnreadable string
  | TargetIdentityUnreadable string

datatype TargetPromotionReadError =
    GitReadFailure TargetPromotionGitReadFailure
  | ReadSafetyFailure TargetPromotionSafetyRefusal

text \<open>
  The compare-and-set runs under the coordinator's ownership capability, whose refusal is a
  third failure of that call.
\<close>

datatype TargetPromotionCasError =
    CompareAndSetFailure TargetPromotionCompareAndSetFailure
  | CasSafetyFailure TargetPromotionSafetyRefusal
  | CoordinatorOwnershipError string

text \<open>The Git authority is an argument of the protocol: effects over a repository state \<open>'g\<close>.\<close>

record 'g TargetPromotionGitService =
  git_compareAndSet :: "TargetPromotionGitRequest \<Rightarrow>
     ('g, TargetPromotionCasError, TargetPromotionCompareAndSetResult) effect"
  git_read :: "TargetPromotionGitRequest \<Rightarrow>
     ('g, TargetPromotionReadError, TargetPromotionGitReadObservation) effect"

section \<open>Journal vocabulary\<close>

datatype TargetPromotionSuccessObservation =
    CompareAndSetApplied GitCommitSha
  | ReconciledCandidateAncestor GitCommitSha
  | ReconciledCandidateCurrent GitCommitSha

datatype TargetPromotionStaleObservation =
    CompareAndSetRejected GitCommitSha
  | ReconciledCandidateNotInAncestry GitCommitSha

datatype TargetPromotionNonConvergenceObservation =
    ExpectedHeadStillObserved GitCommitSha
  | NonConvergentTargetReadFailed string

datatype TargetPromotionTerminalBasis = BeforeFirstAttempt | AfterAttempt nat

datatype TargetPromotionReconciliationDeferral =
    RetryAuthorityRequired GitCommitSha
  | TargetReadFailed string

datatype TargetPromotionBoundary = ReconciliationReadBoundary | CompareAndSetBoundary

datatype TargetPromotionJournalEvent =
    TargetPromotionSafetyRefused TargetPromotionBoundary TargetPromotionTerminalBasis
      (pe_correlation: TargetPromotionCorrelation) nat TargetPromotionSafetyRefusal
  | TargetPromotionIntended (pe_correlation: TargetPromotionCorrelation)
  | TargetPromotionAttemptIntended nat (pe_correlation: TargetPromotionCorrelation) TargetPromotionAttemptReason
  | TargetPromotionReconciliationDeferred nat (pe_correlation: TargetPromotionCorrelation)
      TargetPromotionReconciliationDeferral
  | TargetPromotionObservedSuccess TargetPromotionTerminalBasis (pe_correlation: TargetPromotionCorrelation)
      TargetPromotionSuccessObservation
  | TargetPromotionStale TargetPromotionTerminalBasis (pe_correlation: TargetPromotionCorrelation)
      TargetPromotionStaleObservation
  | TargetPromotionNonConvergence nat nat (pe_correlation: TargetPromotionCorrelation)
      TargetPromotionNonConvergenceObservation

definition targetPromotionReconciliationDeferralFieldIssue ::
  "nat \<Rightarrow> TargetPromotionCorrelation \<Rightarrow> TargetPromotionReconciliationDeferral \<Rightarrow> string option" where
  "targetPromotionReconciliationDeferralFieldIssue afterAttemptOrdinal correlation deferral =
     (if afterAttemptOrdinal \<ge> targetPromotionAttemptLimit
      then Some (''target promotion reconciliation cannot defer after final attempt '' @ showNat afterAttemptOrdinal)
      else case deferral of
        RetryAuthorityRequired observedHeadSha \<Rightarrow>
          if observedHeadSha \<noteq> targetPromotionExpectedHeadOf correlation
          then Some (''target promotion retry authority observed '' @ observedHeadSha @
                     '' instead of exact expected head '' @ targetPromotionExpectedHeadOf correlation)
          else None
      | TargetReadFailed _ \<Rightarrow> None)"

section \<open>Classification of Git's answers\<close>

fun successObservationForRead :: "TargetPromotionGitReadObservation \<Rightarrow> TargetPromotionSuccessObservation option" where
  "successObservationForRead (CandidateCurrent h) = Some (ReconciledCandidateCurrent h)"
| "successObservationForRead (CandidateAncestor h) = Some (ReconciledCandidateAncestor h)"
| "successObservationForRead (CandidateNotInAncestry h) = None"

definition readObservationContradiction ::
  "TargetPromotionGitRequest \<Rightarrow> TargetPromotionGitReadObservation \<Rightarrow> string option" where
  "readObservationContradiction request observation =
     (if is_CandidateCurrent observation \<and> currentHeadSha observation \<noteq> gr_candidateCommit request
      then Some ''Git classified a non-candidate head as the candidate current head''
      else if \<not> is_CandidateCurrent observation \<and> currentHeadSha observation = gr_candidateCommit request
      then Some ''Git classified the exact candidate current head as not current''
      else if is_CandidateAncestor observation \<and> currentHeadSha observation = gr_expectedTargetHead request
      then Some ''Git classified the candidate as an ancestor of its own expected first parent''
      else None)"

section \<open>Facts\<close>

lemma targetPromotionCorrelationEquals_iff [simp]:
  "targetPromotionCorrelationEquals l r \<longleftrightarrow> l = r"
  by (auto simp: targetPromotionCorrelationEquals_def)

lemma tp_requestId_For [simp]:
  "tp_requestId (targetPromotionCorrelationFor c) = targetPromotionRequestIdForCandidate c"
  by (simp add: targetPromotionCorrelationFor_def)

lemma tp_qualifiedCandidate_For [simp]:
  "tp_qualifiedCandidate (targetPromotionCorrelationFor c) = c"
  by (simp add: targetPromotionCorrelationFor_def)

lemma gitRequest_fields [simp]:
  "gr_candidateCommit (targetPromotionGitRequestFor c) = targetPromotionCandidateCommitOf c"
  "gr_expectedTargetHead (targetPromotionGitRequestFor c) = targetPromotionExpectedHeadOf c"
  by (simp_all add: targetPromotionGitRequestFor_def targetPromotionCandidateCommitOf_def
      targetPromotionExpectedHeadOf_def)

text \<open>
  The request identity reads back from the right: forty hexadecimal digits hold no colon, a
  decimal ordinal holds no colon, so what is left before them is the session identity, whatever
  characters it has.
\<close>

lemma promotionRequestId_components:
  assumes "CHR '':'' \<notin> set c" "CHR '':'' \<notin> set c'"
    and "''target-promotion:'' @ s @ '':'' @ showNat n @ '':'' @ c =
         ''target-promotion:'' @ s' @ '':'' @ showNat n' @ '':'' @ c'"
  shows "s = s' \<and> n = n' \<and> c = c'"
proof -
  from assms(3) have "(s @ '':'' @ showNat n) @ CHR '':'' # c = (s' @ '':'' @ showNat n') @ CHR '':'' # c'"
    by simp
  with assms(1,2) have 1: "s @ '':'' @ showNat n = s' @ '':'' @ showNat n' \<and> c = c'"
    by (rule append_sep_inject_right)
  then have "s @ CHR '':'' # showNat n = s' @ CHR '':'' # showNat n'" by simp
  then have "s = s' \<and> showNat n = showNat n'"
    by (rule append_sep_inject_right [OF colon_notin_showNat colon_notin_showNat])
  with 1 show ?thesis by simp
qed

end
