(* ===== verification/Publication_Events.thy ===== *)
theory Publication_Events
  imports Contracts
begin

text \<open>
  Data of the direct remote-publication protocol (\<^verbatim>\<open>direct-publication/events.ts\<close>): the
  request identity that binds session, candidate and pinned destination, the explicit non-force
  refspec, the Git boundary's answers, and the journal vocabulary. Constant fields of an event
  (\<open>version\<close>, \<open>initiatedBy\<close>, \<open>occurrenceClassification\<close>, \<open>direction\<close>) are single literals and
  are left out.
\<close>

type_synonym RemotePublicationRequestId = string
type_synonym RemotePublicationResumeRequestId = string
type_synonym RemotePublicationBatchGrantRequestId = string

record RemotePublicationResumeRequest =
  rr_requestId :: RemotePublicationResumeRequestId
  rr_responsibility :: IntegrationResponsibilityIdentity
  rr_runId :: RunId

record RemotePublicationBatchGrantRequest =
  bg_exhaustionAt :: JournalPosition
  bg_requestId :: RemotePublicationBatchGrantRequestId
  bg_responsibility :: IntegrationResponsibilityIdentity
  bg_runId :: RunId

datatype RemotePublicationAttemptAuthorization =
    InitialAttempt
  | ResumeRequest RemotePublicationResumeRequestId

definition remotePublicationRefspecFor :: "GitCommitSha \<Rightarrow> BranchRef \<Rightarrow> string" where
  "remotePublicationRefspecFor candidateCommit branch = candidateCommit @ '':'' @ branch"

definition remotePublicationAttemptLimit :: nat where
  "remotePublicationAttemptLimit = 3"

definition targetKey :: "RemotePublicationTarget \<Rightarrow> string" where
  "targetKey target = rt_endpoint target @ [CHR 0x00] @ rt_branch target"

definition remotePublicationAdmissionIdFor :: "RunId \<Rightarrow> RemotePublicationTarget \<Rightarrow> string" where
  "remotePublicationAdmissionIdFor runId target =
     ''remote-publication-admission:'' @ runId @ '':'' @ rt_endpoint target @ [CHR 0x00] @ rt_branch target"

datatype RemotePublicationAdmissionObservation =
    ExistingBranch GitCommitSha
  | AdmissionTargetMissing

definition remotePublicationRequestIdFor ::
  "IntegratorRunQualifiedCandidate \<Rightarrow> RemotePublicationTarget \<Rightarrow> RemotePublicationRequestId" where
  "remotePublicationRequestIdFor candidate target =
     ''direct-publication:'' @ se_sessionId (ir_session (qc_run candidate)) @ '':'' @
     showNat (ir_ordinal (qc_run candidate)) @ '':'' @ qc_candidateCommit candidate @ '':'' @ targetKey target"

record RemotePublicationCorrelation =
  pc_qualifiedCandidate :: IntegratorRunQualifiedCandidate
  pc_requestId :: RemotePublicationRequestId
  pc_target :: RemotePublicationTarget

definition validRemotePublicationCorrelation :: "RemotePublicationCorrelation \<Rightarrow> bool" where
  "validRemotePublicationCorrelation c \<longleftrightarrow>
     pc_requestId c = remotePublicationRequestIdFor (pc_qualifiedCandidate c) (pc_target c)"

definition remotePublicationCorrelationFor ::
  "IntegratorRunQualifiedCandidate \<Rightarrow> RemotePublicationTarget \<Rightarrow> RemotePublicationCorrelation" where
  "remotePublicationCorrelationFor candidate target =
     \<lparr>pc_qualifiedCandidate = candidate,
      pc_requestId = remotePublicationRequestIdFor candidate target,
      pc_target = target\<rparr>"

definition remotePublicationCorrelationEquals ::
  "RemotePublicationCorrelation \<Rightarrow> RemotePublicationCorrelation \<Rightarrow> bool" where
  "remotePublicationCorrelationEquals left right \<longleftrightarrow> left = right"

definition remotePublicationRunIdOf :: "RemotePublicationCorrelation \<Rightarrow> RunId" where
  "remotePublicationRunIdOf c = pa_runId (se_plannedAttempt (ir_session (qc_run (pc_qualifiedCandidate c))))"

definition publicationQueuedAtOf :: "RemotePublicationCorrelation \<Rightarrow> JournalPosition" where
  "publicationQueuedAtOf c = se_queuedAt (ir_session (qc_run (pc_qualifiedCandidate c)))"

record RemotePublicationGitRequest =
  pr_candidateCommit :: GitCommitSha
  pr_refspec :: string
  pr_requestId :: RemotePublicationRequestId
  pr_target :: RemotePublicationTarget

definition remotePublicationGitRequestFor :: "RemotePublicationCorrelation \<Rightarrow> RemotePublicationGitRequest" where
  "remotePublicationGitRequestFor c =
     \<lparr>pr_candidateCommit = qc_candidateCommit (pc_qualifiedCandidate c),
      pr_refspec = remotePublicationRefspecFor (qc_candidateCommit (pc_qualifiedCandidate c)) (rt_branch (pc_target c)),
      pr_requestId = pc_requestId c,
      pr_target = pc_target c\<rparr>"

section \<open>The Git boundary\<close>

datatype RemotePublicationGitObservation =
    RemoteCandidateAncestor GitCommitSha
  | RemoteCandidateCurrent GitCommitSha
  | CompatibleCompetingHead GitCommitSha GitCommitSha
  | IncompatibleLineage GitCommitSha
  | RemoteAncestorOfCandidate GitCommitSha
  | TargetMissing

datatype RemotePublicationDenialCause = DenialAuthentication | DenialPolicy | DenialOther

datatype RemotePublicationPushResult =
    PushResultApplied GitCommitSha
  | RejectedDefinite RemotePublicationDenialCause
  | RejectedNonFastForward
  | PushThrottled
  | PushResultUpToDate GitCommitSha

datatype RemotePublicationObservationFailureReason =
    AncestryUnavailable | ObservationEndpointMappingChanged | ObservationResponseDeadline
  | ObservationSenderStopUnproven | TargetUnreadable

datatype RemotePublicationPushFailureReason =
    EndpointMappingChanged | ResponseDeadline | SenderStopUnproven | TransportUnavailable

text \<open>
  A push that the coordinator does not own fails with an ownership error, which the engine does
  not catch: it is the left alternative of \<open>pg_push\<close>'s error.
\<close>

datatype RemotePublicationPushError =
    PushFailure RemotePublicationPushFailureReason
  | PushOwnershipError string

record 'g RemotePublicationGitService =
  pg_admit :: "RemotePublicationTarget \<Rightarrow>
     ('g, RemotePublicationObservationFailureReason, RemotePublicationAdmissionObservation) effect"
  pg_observe :: "RemotePublicationGitRequest \<Rightarrow>
     ('g, RemotePublicationObservationFailureReason, RemotePublicationGitObservation) effect"
  pg_prepareSenderCustody :: "RemotePublicationGitRequest \<Rightarrow> nat \<Rightarrow>
     ('g, RemotePublicationPushFailureReason, unit) effect"
  pg_reconcileSenderCustody :: "RemotePublicationGitRequest \<Rightarrow> nat \<Rightarrow>
     ('g, RemotePublicationPushFailureReason, unit) effect"
  pg_push :: "RemotePublicationGitRequest \<Rightarrow> nat \<Rightarrow>
     ('g, RemotePublicationPushError, RemotePublicationPushResult) effect"

section \<open>Journal vocabulary\<close>

datatype RemotePublicationProofBasis =
    PushApplied (proof_attemptOrdinal: nat) (proof_remoteHead: GitCommitSha)
  | PushUpToDate (proof_attemptOrdinal: nat) (proof_remoteHead: GitCommitSha)
  | ProofCandidateAncestor (proof_attemptOrdinal: nat) (proof_remoteHead: GitCommitSha)
  | ProofCandidateCurrent (proof_attemptOrdinal: nat) (proof_remoteHead: GitCommitSha)

datatype RemotePublicationRetainedCause =
    AttemptsExhausted
  | AuthenticationDenied
  | RetainedCompatibleCompetingHead GitCommitSha GitCommitSha
  | RetainedIncompatibleLineage GitCommitSha
  | ObservationUnavailable RemotePublicationObservationFailureReason
  | PolicyDenied
  | PushCustodyUnproven
  | PushEndpointMappingChanged
  | RemoteDenied
  | RetainedTargetMissing
  | RetainedThrottled

datatype RemotePublicationJournalEvent =
    RemotePublicationAdmissionReadIntended string RunId RemotePublicationTarget
  | RemotePublicationAdmissionObserved string RemotePublicationAdmissionObservation RunId RemotePublicationTarget
  | RemotePublicationIntended RemotePublicationCorrelation
  | RemotePublicationAttemptIntended nat "JournalPosition option" RemotePublicationCorrelation string
  | RemotePublicationAttemptRejectedNonFastForward nat RemotePublicationCorrelation
  | RemotePublicationSucceeded RemotePublicationCorrelation RemotePublicationProofBasis
  | RemotePublicationRetained "JournalPosition option" RemotePublicationRetainedCause
      RemotePublicationCorrelation RemotePublicationAttemptAuthorization
  | RemotePublicationResumeRequested RemotePublicationCorrelation RemotePublicationResumeRequest
  | RemotePublicationBatchGrantApplied RemotePublicationBatchGrantRequest

fun publication_correlation :: "RemotePublicationJournalEvent \<Rightarrow> RemotePublicationCorrelation option" where
  "publication_correlation (RemotePublicationIntended c) = Some c"
| "publication_correlation (RemotePublicationAttemptIntended _ _ c _) = Some c"
| "publication_correlation (RemotePublicationAttemptRejectedNonFastForward _ c) = Some c"
| "publication_correlation (RemotePublicationSucceeded c _) = Some c"
| "publication_correlation (RemotePublicationRetained _ _ c _) = Some c"
| "publication_correlation (RemotePublicationResumeRequested c _) = Some c"
| "publication_correlation _ = None"

section \<open>Facts\<close>

lemma remotePublicationCorrelationFor_fields [simp]:
  "pc_qualifiedCandidate (remotePublicationCorrelationFor c t) = c"
  "pc_target (remotePublicationCorrelationFor c t) = t"
  "pc_requestId (remotePublicationCorrelationFor c t) = remotePublicationRequestIdFor c t"
  by (simp_all add: remotePublicationCorrelationFor_def)

lemma remotePublicationCorrelationEquals_refl [simp]: "remotePublicationCorrelationEquals c c"
  by (simp add: remotePublicationCorrelationEquals_def)

end
