(* ===== verification/Task_Claims.thy ===== *)
theory Task_Claims
  imports Contracts
begin

text \<open>
  Task claims (\<^verbatim>\<open>authorities/task-tracker/claim-mutation.ts\<close>): the tracker's record that one owner and token own a task, the
  service that reads and changes it, its in-memory adapter, and the three protocols on that service
  (\<^verbatim>\<open>workflow/protocols/task-claim-acquisition\<close>, \<^verbatim>\<open>task-claim-observation\<close>, \<^verbatim>\<open>task-claim-release\<close>). A request may change the tracker and
  still report a failure, so each protocol believes only what it reads. The tracker's state is arbitrary: other actors'
  changes are part of what a call does to it.
\<close>

section \<open>Claims\<close>

type_synonym ClaimOwner = string
type_synonym ClaimToken = string

record TaskClaimAcquisition =
  aq_operationId :: OperationId
  aq_owner :: ClaimOwner
  aq_taskId :: TaskId
  aq_token :: ClaimToken

record ActiveTaskClaim =
  ac_operationId :: OperationId
  ac_owner :: ClaimOwner
  ac_taskId :: TaskId
  ac_token :: ClaimToken

record TaskClaimRelease =
  rl_claim :: ActiveTaskClaim
  rl_operationId :: OperationId

datatype TaskClaimObservation =
    ObservedClaim ActiveTaskClaim
  | UnclaimedTask TaskId

datatype TaskClaimRequestOutcome = DefinitelyNotApplied | UnknownOutcome

datatype TaskTrackerThrottleTimingEvidence = ResetAt nat | RetryAfter nat

datatype TaskTrackerMutationOperation =
  AcquireTaskClaim | ReleaseTaskClaim | ReplaceCompletionClaim | DeleteCompletionClaim | CompleteTask

datatype TaskClaimError =
    TaskClaimConflict TaskClaimAcquisition ActiveTaskClaim
  | TaskClaimOwnershipConflict ActiveTaskClaim TaskClaimObservation
  | TaskClaimRequestFailure TaskClaimAcquisition string TaskClaimRequestOutcome
  | TaskClaimReadFailure string TaskId
  | TaskClaimReleaseFailure TaskClaimRelease string
  | TaskTrackerMutationThrottled string TaskTrackerMutationOperation OperationId "TaskTrackerThrottleTimingEvidence option"
  | ClaimCoordinatorOwnershipError string
  | TaskClaimAcquisitionDidNotConverge TaskClaimAcquisition nat
  | TaskClaimObservationDidNotConverge nat string TaskId
  | TaskClaimReleaseDidNotConverge nat TaskClaimRelease

definition claimFrom :: "TaskClaimAcquisition \<Rightarrow> ActiveTaskClaim" where
  "claimFrom acquisition =
     \<lparr>ac_operationId = aq_operationId acquisition, ac_owner = aq_owner acquisition, ac_taskId = aq_taskId acquisition,
      ac_token = aq_token acquisition\<rparr>"

definition isExactTaskClaim :: "ActiveTaskClaim \<Rightarrow> ActiveTaskClaim \<Rightarrow> bool" where
  "isExactTaskClaim left right \<longleftrightarrow>
     ac_operationId left = ac_operationId right \<and> ac_owner left = ac_owner right \<and> ac_taskId left = ac_taskId right \<and>
     ac_token left = ac_token right"

record 'w TrackerMutationService =
  tm_acquireTaskClaim :: "TaskClaimAcquisition \<Rightarrow> ('w, TaskClaimError, ActiveTaskClaim) effect"
  tm_readTaskClaim :: "TaskId \<Rightarrow> ('w, TaskClaimError, TaskClaimObservation) effect"
  tm_readTaskClaimForAcquisition :: "(TaskId \<Rightarrow> OperationId \<times> nat \<Rightarrow> ('w, TaskClaimError, TaskClaimObservation) effect) option"
  tm_releaseTaskClaim :: "TaskClaimRelease \<Rightarrow> ('w, TaskClaimError, unit) effect"

section \<open>The in-memory adapter\<close>

definition controlledRead :: "TaskId \<Rightarrow> (TaskId \<Rightarrow> ActiveTaskClaim option, TaskClaimError, TaskClaimObservation) effect" where
  "controlledRead taskId = (\<lambda>claims. (Inr (case claims taskId of None \<Rightarrow> UnclaimedTask taskId | Some claim \<Rightarrow> ObservedClaim claim), claims))"

definition controlledAcquire :: "TaskClaimAcquisition \<Rightarrow> (TaskId \<Rightarrow> ActiveTaskClaim option, TaskClaimError, ActiveTaskClaim) effect" where
  "controlledAcquire acquisition =
     (\<lambda>claims. let attempted = claimFrom acquisition in
        case claims (aq_taskId acquisition) of
          None \<Rightarrow> (Inr attempted, claims(aq_taskId acquisition := Some attempted))
        | Some observed \<Rightarrow>
            if isExactTaskClaim observed attempted then (Inr observed, claims)
            else (Inl (TaskClaimConflict acquisition observed), claims))"

definition controlledRelease :: "TaskClaimRelease \<Rightarrow> (TaskId \<Rightarrow> ActiveTaskClaim option, TaskClaimError, unit) effect" where
  "controlledRelease release =
     (\<lambda>claims. let attempted = rl_claim release in
        case claims (ac_taskId attempted) of
          None \<Rightarrow> (Inl (TaskClaimOwnershipConflict attempted (UnclaimedTask (ac_taskId attempted))), claims)
        | Some observed \<Rightarrow>
            if isExactTaskClaim observed attempted then (Inr (), claims(ac_taskId attempted := None))
            else (Inl (TaskClaimOwnershipConflict attempted (ObservedClaim observed)), claims))"

definition controlledTrackerMutation :: "(TaskId \<Rightarrow> ActiveTaskClaim option) TrackerMutationService" where
  "controlledTrackerMutation =
     \<lparr>tm_acquireTaskClaim = controlledAcquire, tm_readTaskClaim = controlledRead, tm_readTaskClaimForAcquisition = None,
      tm_releaseTaskClaim = controlledRelease\<rparr>"

section \<open>Acquisition\<close>

definition maximumTaskClaimRequestCount :: nat where
  "maximumTaskClaimRequestCount = 3"

definition acceptObservedActiveClaim ::
  "ActiveTaskClaim \<Rightarrow> ActiveTaskClaim \<Rightarrow> TaskClaimAcquisition \<Rightarrow> ('w, TaskClaimError, ActiveTaskClaim) effect" where
  "acceptObservedActiveClaim observation attemptedClaim acquisition =
     (if isExactTaskClaim observation attemptedClaim then succeed observation
      else fail (TaskClaimConflict acquisition observation))"

definition readCurrentClaim ::
  "'w TrackerMutationService \<Rightarrow> TaskClaimAcquisition \<Rightarrow> nat \<Rightarrow> ('w, TaskClaimError, TaskClaimObservation) effect" where
  "readCurrentClaim tracker acquisition readOrdinal =
     (case tm_readTaskClaimForAcquisition tracker of
        None \<Rightarrow> tm_readTaskClaim tracker (aq_taskId acquisition)
      | Some observedRead \<Rightarrow> observedRead (aq_taskId acquisition) (aq_operationId acquisition, readOrdinal))"

text \<open>One pass; \<open>None\<close> asks for another observation.\<close>

definition acquisitionPass ::
  "'w TrackerMutationService \<Rightarrow> TaskClaimAcquisition \<Rightarrow> nat \<Rightarrow> ('w, TaskClaimError, ActiveTaskClaim option) effect" where
  "acquisitionPass tracker acquisition readOrdinal =
     andThen (readCurrentClaim tracker acquisition readOrdinal) (\<lambda>observation.
       case observation of
         ObservedClaim claim \<Rightarrow>
           andThen (acceptObservedActiveClaim claim (claimFrom acquisition) acquisition) (\<lambda>accepted. succeed (Some accepted))
       | UnclaimedTask _ \<Rightarrow>
           (\<lambda>w. case tm_acquireTaskClaim tracker acquisition w of
              (Inr _, w') \<Rightarrow> (Inr None, w')
            | (Inl (TaskClaimRequestFailure _ _ _), w') \<Rightarrow> (Inr None, w')
            | (Inl failure, w') \<Rightarrow> (Inl failure, w')))"

fun acquisitionPasses ::
  "'w TrackerMutationService \<Rightarrow> TaskClaimAcquisition \<Rightarrow> nat \<Rightarrow> nat \<Rightarrow> ('w, TaskClaimError, ActiveTaskClaim) effect" where
  "acquisitionPasses tracker acquisition readOrdinal 0 =
     andThen (readCurrentClaim tracker acquisition readOrdinal) (\<lambda>observation.
       case observation of
         ObservedClaim claim \<Rightarrow> acceptObservedActiveClaim claim (claimFrom acquisition) acquisition
       | UnclaimedTask _ \<Rightarrow> fail (TaskClaimAcquisitionDidNotConverge acquisition maximumTaskClaimRequestCount))"
| "acquisitionPasses tracker acquisition readOrdinal (Suc remaining) =
     andThen (acquisitionPass tracker acquisition readOrdinal) (\<lambda>accepted.
       case accepted of
         Some claim \<Rightarrow> succeed claim
       | None \<Rightarrow> acquisitionPasses tracker acquisition (readOrdinal + 1) remaining)"

definition runTaskClaimAcquisitionProtocol ::
  "'w TrackerMutationService \<Rightarrow> TaskClaimAcquisition \<Rightarrow> ('w, TaskClaimError, ActiveTaskClaim) effect" where
  "runTaskClaimAcquisitionProtocol tracker acquisition = acquisitionPasses tracker acquisition 1 maximumTaskClaimRequestCount"

section \<open>Observation\<close>

definition taskClaimObservationAttemptBound :: nat where
  "taskClaimObservationAttemptBound = 3"

fun retryRead :: "('w, TaskClaimError, 'a) effect \<Rightarrow> nat \<Rightarrow> ('w, TaskClaimError, 'a) effect" where
  "retryRead m 0 = m"
| "retryRead m (Suc recurs) = (\<lambda>w. case m w of (Inr x, w') \<Rightarrow> (Inr x, w') | (Inl _, w') \<Rightarrow> retryRead m recurs w')"

fun readFailureDetail :: "TaskClaimError \<Rightarrow> string" where
  "readFailureDetail (TaskClaimReadFailure detail _) = detail"
| "readFailureDetail _ = []"

definition observeTaskClaim :: "'w TrackerMutationService \<Rightarrow> TaskId \<Rightarrow> ('w, TaskClaimError, TaskClaimObservation) effect" where
  "observeTaskClaim tracker taskId =
     mapError (\<lambda>failure. TaskClaimObservationDidNotConverge taskClaimObservationAttemptBound (readFailureDetail failure) taskId)
       (retryRead (tm_readTaskClaim tracker taskId) (taskClaimObservationAttemptBound - 1))"

section \<open>Release\<close>

text \<open>The boundary's read takes the ordinal of the read within the protocol.\<close>

record 'w TaskClaimReleaseBoundary =
  rb_readTaskClaim :: "TaskId \<Rightarrow> nat \<Rightarrow> ('w, TaskClaimError, TaskClaimObservation) effect"
  rb_releaseTaskClaim :: "TaskClaimRelease \<Rightarrow> ('w, TaskClaimError, unit) effect"

definition taskClaimReleaseRequestBound :: nat where
  "taskClaimReleaseRequestBound = 3"

fun releaseAttempts ::
  "'w TaskClaimReleaseBoundary \<Rightarrow> TaskClaimRelease \<Rightarrow> nat \<Rightarrow> nat \<Rightarrow> ('w, TaskClaimError, TaskClaimRelease) effect" where
  "releaseAttempts tracker release attempts remaining =
     andThen (rb_readTaskClaim tracker (ac_taskId (rl_claim release)) (attempts + 1)) (\<lambda>observed.
       case observed of
         UnclaimedTask _ \<Rightarrow> succeed release
       | ObservedClaim claim \<Rightarrow>
           if \<not> isExactTaskClaim claim (rl_claim release)
           then fail (TaskClaimOwnershipConflict (rl_claim release) observed)
           else (case remaining of
               0 \<Rightarrow> fail (TaskClaimReleaseDidNotConverge attempts release)
             | Suc remaining' \<Rightarrow>
                 (\<lambda>w. case rb_releaseTaskClaim tracker release w of
                    (Inr _, w') \<Rightarrow> releaseAttempts tracker release (attempts + 1) remaining' w'
                  | (Inl (TaskClaimReleaseFailure _ _), w') \<Rightarrow> releaseAttempts tracker release (attempts + 1) remaining' w'
                  | (Inl failure, w') \<Rightarrow> (Inl failure, w'))))"

definition runTaskClaimReleaseProtocol ::
  "'w TaskClaimReleaseBoundary \<Rightarrow> TaskClaimRelease \<Rightarrow> ('w, TaskClaimError, TaskClaimRelease) effect" where
  "runTaskClaimReleaseProtocol tracker release = releaseAttempts tracker release 0 taskClaimReleaseRequestBound"

definition releaseBoundaryOf :: "'w TrackerMutationService \<Rightarrow> 'w TaskClaimReleaseBoundary" where
  "releaseBoundaryOf tracker =
     \<lparr>rb_readTaskClaim = (\<lambda>taskId _. tm_readTaskClaim tracker taskId), rb_releaseTaskClaim = tm_releaseTaskClaim tracker\<rparr>"

end
