(* ===== verification/Workflow_Events.thy ===== *)
theory Workflow_Events
  imports Promotion_Events Publication_Events Task_Claims
begin

text \<open>
  The journal's envelope and vocabulary: the workflow event union
  (\<^verbatim>\<open>workflow/registry/event.ts\<close>), one durable record (\<^verbatim>\<open>workflow-journal/store.ts\<close>),
  the stable record keys (\<^verbatim>\<open>record-key.ts\<close>) and the list forms of the history queries
  (\<^verbatim>\<open>record-evidence.ts\<close>). Event families whose protocols are not modelled are one
  constructor, \<open>OtherWorkflowEvent\<close>, that carries the event's tag and its encoded payload.
\<close>

section \<open>Run lifecycle data\<close>

datatype TrackerTarget =
    FixtureTarget string
  | GithubIssue nat string string

datatype AttemptBasePolicy =
    QualifiedCurrentIntegrationHead string IntegrationTarget GitCommitSha
  | ExplicitFixedBase GitCommitSha

type_synonym TaskWorkCapacity = nat
type_synonym RunPolicyRevision = nat

definition maximumTaskWorkCapacityValue :: nat where
  "maximumTaskWorkCapacityValue = 8"

definition validTaskWorkCapacity :: "nat \<Rightarrow> bool" where
  "validTaskWorkCapacity c \<longleftrightarrow> 1 \<le> c \<and> c \<le> maximumTaskWorkCapacityValue"

datatype RunTerminationDisposition = RunCompleted | RunBlocked | RunCancelled

datatype RunGraphOutcome = AllTasksSucceeded | GraphBlocked | GraphUnsettled

record RunFinalityEvidence =
  fe_complete :: bool
  fe_coverageTarget :: TrackerTarget
  fe_coverageTaskIds :: "TaskId list"
  fe_contentIdentity :: string
  fe_graphOutcome :: RunGraphOutcome
  fe_operationId :: string
  fe_readShapeTaskIds :: "TaskId list"
  fe_requiredFactFamilies :: "string list"
  fe_rootTaskId :: TaskId
  fe_runId :: RunId
  fe_blockedTaskIds :: "TaskId list"
  fe_target :: TrackerTarget
  fe_terminalTaskIds :: "TaskId list"
  fe_observedAt :: JournalPosition

section \<open>Events and records\<close>

record WorkflowRunBeganFields =
  rb_attemptBasePolicy :: "AttemptBasePolicy option"
  rb_taskExecutionCapacity :: TaskWorkCapacity
  rb_remotePublicationTarget :: RemotePublicationTarget
  rb_target :: TrackerTarget

record TaskWorkCapacityChangedFields =
  cc_capacity :: TaskWorkCapacity
  cc_previousRevision :: RunPolicyRevision
  cc_revision :: RunPolicyRevision

datatype ControlDirectionSubject =
    RunSubject RunId
  | TaskSubject RunId TaskId

datatype ControlDirection = Pause | Unpause

text \<open>
  A tracker read's outcome: the focused claim facts as the code has them, any other fact family as its tag, the tasks it names and its
  encoded payload. The authority of a claim release is its encoded form.
\<close>

datatype TaskTrackerFacts =
    FocusedTaskClaimFacts TaskId TaskClaimObservation
  | FocusedTaskClaimFactsUnreadable TaskId
  | OtherTaskTrackerFacts string "TaskId list" string

record TaskClaimAcquisitionOperation =
  ao_acquisition :: TaskClaimAcquisition
  ao_authority :: string
  ao_predecessorOperationIds :: "OperationId list"

text \<open>Of the tracker reads, the claim read as the code has it; any other by its tag, operation, tasks and encoded payload.\<close>

datatype TaskTrackerReadOperation =
    ReadTaskClaim (to_operationId: OperationId) "OperationId list" TrackerTarget TaskId
  | OtherTaskTrackerRead string (to_operationId: OperationId) "TaskId list" string

record TaskClaimReleaseOperation =
  ro_authority :: string
  ro_predecessorOperationIds :: "OperationId list"
  ro_release :: TaskClaimRelease

datatype WorkflowJournalEvent =
    WorkflowRunBegan WorkflowRunBeganFields
  | TaskWorkCapacityChanged TaskWorkCapacityChangedFields
  | WorkflowRunTerminated RunTerminationDisposition RunFinalityEvidence
  | TargetPromotionEvent TargetPromotionJournalEvent
  | RemotePublicationEvent RemotePublicationJournalEvent
  | ControlDirectionApplied ControlDirection nat ControlDirectionSubject
  | TaskTrackerReadIntentRecorded TaskTrackerReadOperation
  | TaskClaimAcquisitionIntended TaskClaimAcquisitionOperation
  | TaskClaimAcquired ActiveTaskClaim
  | TaskClaimAcquisitionRejected ActiveTaskClaim OperationId
  | TaskClaimReleaseIntended TaskClaimReleaseOperation
  | TaskClaimReleased TaskClaimRelease
  | TaskClaimReacquisitionDirected string RunId TaskId
  | TaskTrackerFactsObserved OperationId TaskTrackerFacts
  | OtherWorkflowEvent string string

record JournalRecord =
  jr_event :: WorkflowJournalEvent
  jr_key :: JournalRecordKey
  jr_position :: JournalPosition
  jr_runId :: RunId

fun isAppendableWorkflowJournalEvent :: "WorkflowJournalEvent \<Rightarrow> bool" where
  "isAppendableWorkflowJournalEvent (WorkflowRunBegan _) = False"
| "isAppendableWorkflowJournalEvent (WorkflowRunTerminated _ _) = False"
| "isAppendableWorkflowJournalEvent _ = True"

section \<open>Record keys\<close>

definition workflowRunBeganRecordKey :: JournalRecordKey where
  "workflowRunBeganRecordKey = ''run:began''"

definition workflowRunTerminatedRecordKey :: JournalRecordKey where
  "workflowRunTerminatedRecordKey = ''run:terminated''"

definition taskWorkCapacityPolicyRecordKey :: "RunPolicyRevision \<Rightarrow> JournalRecordKey" where
  "taskWorkCapacityPolicyRecordKey revision = ''run-policy:'' @ showNat revision @ '':task-work-capacity''"

definition controlDirectionAppliedRecordKey :: "nat \<Rightarrow> JournalRecordKey" where
  "controlDirectionAppliedRecordKey ordinal = ''control-direction:'' @ showNat ordinal @ '':applied''"

definition intentRecordKey :: "OperationId \<Rightarrow> JournalRecordKey" where
  "intentRecordKey operationId = ''operation:'' @ operationId @ '':intent''"

definition outcomeRecordKey :: "OperationId \<Rightarrow> JournalRecordKey" where
  "outcomeRecordKey operationId = ''operation:'' @ operationId @ '':outcome''"

definition taskClaimReacquisitionDirectedRecordKey :: "string \<Rightarrow> JournalRecordKey" where
  "taskClaimReacquisitionDirectedRecordKey requestId = ''task-claim-reacquisition:'' @ requestId @ '':directed''"

definition remotePublicationRecordKeyPrefix :: "RemotePublicationRequestId \<Rightarrow> string" where
  "remotePublicationRecordKeyPrefix requestId = ''remote-publication:'' @ requestId"

definition remotePublicationAdmissionReadIntendedRecordKey :: "string \<Rightarrow> JournalRecordKey" where
  "remotePublicationAdmissionReadIntendedRecordKey admissionId =
     ''remote-publication-admission:'' @ admissionId @ '':read:intended''"

definition remotePublicationAdmissionObservedRecordKey :: "string \<Rightarrow> JournalRecordKey" where
  "remotePublicationAdmissionObservedRecordKey admissionId =
     ''remote-publication-admission:'' @ admissionId @ '':observed''"

definition remotePublicationIntendedRecordKey :: "RemotePublicationRequestId \<Rightarrow> JournalRecordKey" where
  "remotePublicationIntendedRecordKey requestId = remotePublicationRecordKeyPrefix requestId @ '':intended''"

definition remotePublicationAttemptIntendedRecordKey :: "RemotePublicationRequestId \<Rightarrow> nat \<Rightarrow> JournalRecordKey" where
  "remotePublicationAttemptIntendedRecordKey requestId attemptOrdinal =
     remotePublicationRecordKeyPrefix requestId @ '':attempt:'' @ showNat attemptOrdinal"

definition remotePublicationAttemptRejectedRecordKey :: "RemotePublicationRequestId \<Rightarrow> nat \<Rightarrow> JournalRecordKey" where
  "remotePublicationAttemptRejectedRecordKey requestId attemptOrdinal =
     remotePublicationRecordKeyPrefix requestId @ '':attempt:'' @ showNat attemptOrdinal @
     '':rejected-non-fast-forward''"

definition remotePublicationSucceededRecordKey :: "RemotePublicationRequestId \<Rightarrow> JournalRecordKey" where
  "remotePublicationSucceededRecordKey requestId = remotePublicationRecordKeyPrefix requestId @ '':succeeded''"

fun remotePublicationRetainedRecordKey ::
  "RemotePublicationRequestId \<Rightarrow> RemotePublicationAttemptAuthorization \<Rightarrow> JournalPosition option \<Rightarrow> JournalRecordKey" where
  "remotePublicationRetainedRecordKey requestId InitialAttempt (Some g) =
     ''remote-publication:'' @ requestId @ '':retained-after-batch-grant:'' @ showNat g @ '':initial''"
| "remotePublicationRetainedRecordKey requestId (ResumeRequest r) (Some g) =
     ''remote-publication:'' @ requestId @ '':retained-after-batch-grant:'' @ showNat g @ '':resume:'' @ r"
| "remotePublicationRetainedRecordKey requestId InitialAttempt None =
     ''remote-publication-retained:'' @ requestId"
| "remotePublicationRetainedRecordKey requestId (ResumeRequest r) None =
     ''remote-publication:'' @ requestId @ '':retained-after-resume:'' @ r"

definition remotePublicationResumeRequestedRecordKey :: "RemotePublicationResumeRequestId \<Rightarrow> JournalRecordKey" where
  "remotePublicationResumeRequestedRecordKey resumeRequestId = ''remote-publication-resume:'' @ resumeRequestId"

definition targetPromotionRecordKeyPrefix :: "TargetPromotionRequestId \<Rightarrow> string" where
  "targetPromotionRecordKeyPrefix requestId = ''target-promotion:'' @ requestId"

definition targetPromotionIntentRecordKey :: "TargetPromotionRequestId \<Rightarrow> JournalRecordKey" where
  "targetPromotionIntentRecordKey requestId = targetPromotionRecordKeyPrefix requestId @ '':intent''"

definition targetPromotionAttemptIntentRecordKey :: "TargetPromotionRequestId \<Rightarrow> nat \<Rightarrow> JournalRecordKey" where
  "targetPromotionAttemptIntentRecordKey requestId attemptOrdinal =
     targetPromotionRecordKeyPrefix requestId @ '':attempt:'' @ showNat attemptOrdinal"

definition targetPromotionReconciliationDeferredRecordKey ::
  "TargetPromotionRequestId \<Rightarrow> nat \<Rightarrow> JournalRecordKey" where
  "targetPromotionReconciliationDeferredRecordKey requestId attemptOrdinal =
     targetPromotionRecordKeyPrefix requestId @ '':attempt:'' @ showNat attemptOrdinal @ '':reconciliation-deferred''"

definition targetPromotionSafetyRefusedRecordKey :: "TargetPromotionRequestId \<Rightarrow> nat \<Rightarrow> JournalRecordKey" where
  "targetPromotionSafetyRefusedRecordKey requestId observationOrdinal =
     targetPromotionRecordKeyPrefix requestId @ '':safety-refused:'' @ showNat observationOrdinal"

definition targetPromotionObservedSuccessRecordKey :: "TargetPromotionRequestId \<Rightarrow> JournalRecordKey" where
  "targetPromotionObservedSuccessRecordKey requestId = targetPromotionRecordKeyPrefix requestId @ '':observed-success''"

definition targetPromotionStaleRecordKey :: "TargetPromotionRequestId \<Rightarrow> JournalRecordKey" where
  "targetPromotionStaleRecordKey requestId = targetPromotionRecordKeyPrefix requestId @ '':stale''"

definition targetPromotionNonConvergenceRecordKey :: "TargetPromotionRequestId \<Rightarrow> JournalRecordKey" where
  "targetPromotionNonConvergenceRecordKey requestId = targetPromotionRecordKeyPrefix requestId @ '':nonconvergence''"

section \<open>History queries\<close>

definition journalRecordByPosition :: "JournalRecord list \<Rightarrow> JournalPosition \<Rightarrow> JournalRecord option" where
  "journalRecordByPosition records position = List.find (\<lambda>r. jr_position r = position) records"

fun promotionEventOf :: "WorkflowJournalEvent \<Rightarrow> TargetPromotionJournalEvent option" where
  "promotionEventOf (TargetPromotionEvent e) = Some e"
| "promotionEventOf _ = None"

fun publicationEventOf :: "WorkflowJournalEvent \<Rightarrow> RemotePublicationJournalEvent option" where
  "publicationEventOf (RemotePublicationEvent e) = Some e"
| "publicationEventOf _ = None"

text \<open>
  \<open>journalRecordsForPromotionRequest\<close> keeps every record whose event has a correlation with that
  request identity; the publication family has a correlation of its own and is kept as well.
\<close>

definition journalRecordsForPromotionRequest ::
  "JournalRecord list \<Rightarrow> TargetPromotionRequestId \<Rightarrow> JournalRecord list" where
  "journalRecordsForPromotionRequest source requestId =
     filter (\<lambda>r. case jr_event r of
         TargetPromotionEvent e \<Rightarrow> tp_requestId (pe_correlation e) = requestId
       | RemotePublicationEvent e \<Rightarrow>
           (case publication_correlation e of Some c \<Rightarrow> pc_requestId c = requestId | None \<Rightarrow> False)
       | _ \<Rightarrow> False) source"

section \<open>Facts\<close>

lemma promotion_keys_distinct [key_simps]:
  "targetPromotionAttemptIntentRecordKey r m = targetPromotionAttemptIntentRecordKey r n \<longleftrightarrow> m = n"
  "targetPromotionSafetyRefusedRecordKey r m = targetPromotionSafetyRefusedRecordKey r n \<longleftrightarrow> m = n"
  by (simp_all add: targetPromotionAttemptIntentRecordKey_def targetPromotionSafetyRefusedRecordKey_def)

lemma promotionEventOf_Some [simp]: "promotionEventOf e = Some p \<longleftrightarrow> e = TargetPromotionEvent p"
  by (cases e) auto

lemma publicationEventOf_Some [simp]: "publicationEventOf e = Some p \<longleftrightarrow> e = RemotePublicationEvent p"
  by (cases e) auto

end
