(* ===== verification/Journal_Store.thy ===== *)
theory Journal_Store
  imports Workflow_Events "HOL-Library.AList"
begin

text \<open>
  The workflow journal's storage contract and its in-memory adapter:
  \<^verbatim>\<open>workflow-journal/adapters/memory-store.ts\<close>, \<^verbatim>\<open>memory-completion.ts\<close>,
  \<^verbatim>\<open>run-lifecycle.ts\<close>, \<^verbatim>\<open>partition-history.ts\<close>, \<^verbatim>\<open>completion.ts\<close> and the
  error vocabulary of \<^verbatim>\<open>store.ts\<close>.

  A JavaScript \<open>Map\<close> is an association list updated by \<open>AList.update\<close>, which keeps the position
  of an existing key and appends a new one, as \<open>new Map([...old, [k, v]])\<close> does. Three decisions
  are arguments, gathered in \<open>HistoryRules\<close>: the whole-history reducer
  (\<open>reduceWorkflowJournalHistory\<close>), the termination evidence check
  (\<open>terminationEvidenceIssues\<close> and \<open>terminationPreconditionIssues\<close>, first issue) and the UTF-8 size
  of one record's encoded texts. No theorem fixes what they answer.
\<close>

section \<open>Errors and metadata\<close>

datatype JournalPartition = Hot | Cold

datatype JournalStoreOperation =
    OpAppend | OpRead | OpBeginRun | OpTerminateRun | OpReadRunForRecovery | OpRetireTerminalRun
  | OpReadCompletion | OpAuditAll | OpMaintainArchive

datatype RunCompletionTiming = Known nat | LegacyBaseline nat

datatype RunCompletionPublication =
    NoRecordedPublication
  | RecordedPublication GitCommitSha RemotePublicationTarget RemotePublicationProofBasis JournalPosition

record RunCompletion =
  co_runId :: RunId
  co_target :: TrackerTarget
  co_disposition :: RunTerminationDisposition
  co_terminatedAt :: JournalPosition
  co_timing :: RunCompletionTiming
  co_publication :: RunCompletionPublication

datatype DeletionReason = Age | Budget | AgeAndBudget

record RunHistoryDeletion =
  de_reason :: DeletionReason
  de_observedAt :: nat

datatype JournalError =
    JournalPartitionContradiction RunId
  | JournalHistoryCorruption JournalStoreOperation string JournalPartition RunId
  | JournalDataCorruption JournalStoreOperation string
  | JournalHistoryDeleted RunCompletion RunHistoryDeletion
  | JournalStoreContradiction RunId JournalRecordKey JournalPosition
  | JournalHistoryNotTerminal RunId
  | WorkflowRunAlreadyBegan JournalPosition RunId
  | WorkflowRunIdentityAlreadyUsed JournalPosition RunId
  | WorkflowRunNotBegan RunId
  | WorkflowRunTargetMismatch TrackerTarget TrackerTarget RunId
  | WorkflowRunAlreadyTerminated RunId JournalPosition
  | WorkflowRunTerminationEvidenceInvalid string RunId

datatype RunCompletionInspection =
    NoCompletion RunId
  | CompletedRunAvailable RunCompletion
  | CompletedRunDeleted RunCompletion RunHistoryDeletion

record MemoryJournalState =
  ms_archiveBytes :: "(RunId \<times> nat) list"
  ms_deletions :: "(RunId \<times> RunHistoryDeletion) list"
  ms_completions :: "(RunId \<times> RunCompletion) list"
  ms_coldRecordsByRun :: "(RunId \<times> JournalRecord list) list"
  ms_hotRecordsByRun :: "(RunId \<times> JournalRecord list) list"

record HistoryRules =
  hr_reduce :: "RunId \<Rightarrow> JournalRecord list \<Rightarrow> string + JournalRecord list"
  hr_terminationIssue ::
    "JournalRecord list \<Rightarrow> RunId \<Rightarrow> RunTerminationDisposition \<Rightarrow> RunFinalityEvidence \<Rightarrow> JournalPosition \<Rightarrow> string option"
  hr_recordTextBytes :: "JournalRecord \<Rightarrow> nat"

definition savedMemoryArchiveBytes :: "HistoryRules \<Rightarrow> JournalRecord list \<Rightarrow> nat" where
  "savedMemoryArchiveBytes rules records = fold (\<lambda>r sum. sum + hr_recordTextBytes rules r + 16) records 0"

definition emptyMemoryJournalState :: MemoryJournalState where
  "emptyMemoryJournalState =
     \<lparr>ms_archiveBytes = [], ms_deletions = [], ms_completions = [],
      ms_coldRecordsByRun = [], ms_hotRecordsByRun = []\<rparr>"

section \<open>Partition history and completion metadata\<close>

definition isTerminatedEvent :: "WorkflowJournalEvent \<Rightarrow> bool" where
  "isTerminatedEvent e = (case e of WorkflowRunTerminated _ _ \<Rightarrow> True | _ \<Rightarrow> False)"

definition isBeganEvent :: "WorkflowJournalEvent \<Rightarrow> bool" where
  "isBeganEvent e = (case e of WorkflowRunBegan _ \<Rightarrow> True | _ \<Rightarrow> False)"

datatype JournalPartitionHistoryDecision =
    InvalidPartitionHistory string
  | ValidPartitionHistory bool "JournalRecord list"

definition decideJournalPartitionHistory ::
  "HistoryRules \<Rightarrow> JournalPartition \<Rightarrow> RunId \<Rightarrow> JournalRecord list \<Rightarrow> JournalPartitionHistoryDecision" where
  "decideJournalPartitionHistory rules part runId records =
     (case hr_reduce rules runId records of
        Inl detail \<Rightarrow> InvalidPartitionHistory detail
      | Inr exported \<Rightarrow>
          let isTerminal = (case latest exported of None \<Rightarrow> False | Some r \<Rightarrow> isTerminatedEvent (jr_event r))
          in if part = Cold \<and> \<not> isTerminal then InvalidPartitionHistory ''Cold history is not terminal''
             else ValidPartitionHistory isTerminal exported)"

fun recordedPublicationOf :: "JournalRecord option \<Rightarrow> RunCompletionPublication" where
  "recordedPublicationOf None = NoRecordedPublication"
| "recordedPublicationOf (Some r) =
     (case jr_event r of
        RemotePublicationEvent (RemotePublicationSucceeded c proof) \<Rightarrow>
          RecordedPublication (qc_candidateCommit (pc_qualifiedCandidate c)) (pc_target c) proof (jr_position r)
      | _ \<Rightarrow> NoRecordedPublication)"

definition isPublicationSucceededEvent :: "WorkflowJournalEvent \<Rightarrow> bool" where
  "isPublicationSucceededEvent e =
     (case e of RemotePublicationEvent (RemotePublicationSucceeded _ _) \<Rightarrow> True | _ \<Rightarrow> False)"

definition compactRunCompletion ::
  "RunId \<Rightarrow> JournalRecord list \<Rightarrow> RunCompletionTiming \<Rightarrow> RunCompletion option" where
  "compactRunCompletion runId records timing =
     (case records of
        [] \<Rightarrow> None
      | began # _ \<Rightarrow>
          (case (jr_event began, jr_event (last records)) of
             (WorkflowRunBegan b, WorkflowRunTerminated disposition _) \<Rightarrow>
               Some \<lparr>co_runId = runId, co_target = rb_target b, co_disposition = disposition,
                     co_terminatedAt = jr_position (last records), co_timing = timing,
                     co_publication = recordedPublicationOf
                       (findLast (\<lambda>r. isPublicationSucceededEvent (jr_event r)) records)\<rparr>
           | _ \<Rightarrow> None))"

definition orElse :: "'a option \<Rightarrow> 'a option \<Rightarrow> 'a option" where
  "orElse x y = (case x of Some v \<Rightarrow> Some v | None \<Rightarrow> y)"

definition runRecords :: "MemoryJournalState \<Rightarrow> RunId \<Rightarrow> JournalRecord list" where
  "runRecords state runId =
     (case orElse (map_of (ms_hotRecordsByRun state) runId) (map_of (ms_coldRecordsByRun state) runId) of
        Some rs \<Rightarrow> rs | None \<Rightarrow> [])"

definition inBothPartitions :: "MemoryJournalState \<Rightarrow> RunId \<Rightarrow> bool" where
  "inBothPartitions state runId \<longleftrightarrow>
     map_of (ms_coldRecordsByRun state) runId \<noteq> None \<and> map_of (ms_hotRecordsByRun state) runId \<noteq> None"

definition completionEndpoints :: "JournalRecord list \<Rightarrow> RunCompletion \<Rightarrow> JournalRecord list" where
  "completionEndpoints records receipt =
     List.map_filter id
       [(case records of [] \<Rightarrow> None | r # _ \<Rightarrow> Some r),
        (case co_publication receipt of
           RecordedPublication _ _ _ recordedAt \<Rightarrow>
             if 0 < recordedAt \<and> recordedAt \<le> length records then Some (records ! (recordedAt - 1)) else None
         | NoRecordedPublication \<Rightarrow> None),
        latest records]"

definition decideMemoryCompletion ::
  "HistoryRules \<Rightarrow> MemoryJournalState \<Rightarrow> RunId \<Rightarrow> JournalStoreOperation \<Rightarrow> JournalError + RunCompletionInspection" where
  "decideMemoryCompletion rules state runId operation =
     (let hot = map_of (ms_hotRecordsByRun state) runId;
          cold = map_of (ms_coldRecordsByRun state) runId;
          records = runRecords state runId;
          part = (if cold = None then Hot else Cold)
      in if cold \<noteq> None \<and> hot \<noteq> None then Inl (JournalPartitionContradiction runId)
         else case map_of (ms_completions state) runId of
           None \<Rightarrow>
             (case latest records of
                Some r \<Rightarrow>
                  if isTerminatedEvent (jr_event r)
                  then (case decideJournalPartitionHistory rules part runId records of
                          InvalidPartitionHistory detail \<Rightarrow>
                            Inl (JournalHistoryCorruption operation detail part runId)
                        | ValidPartitionHistory _ _ \<Rightarrow> Inr (NoCompletion runId))
                  else Inr (NoCompletion runId)
              | None \<Rightarrow> Inr (NoCompletion runId))
         | Some receipt \<Rightarrow>
             (case map_of (ms_deletions state) runId of
                Some deletion \<Rightarrow>
                  if hot \<noteq> None \<or> cold \<noteq> None
                  then Inl (JournalDataCorruption operation (''deleted history still has rows for '' @ runId))
                  else Inr (CompletedRunDeleted receipt deletion)
              | None \<Rightarrow>
                  if compactRunCompletion runId (completionEndpoints records receipt) (co_timing receipt) = Some receipt
                  then Inr (CompletedRunAvailable receipt)
                  else Inl (JournalDataCorruption operation (''completion/history contradiction for '' @ runId))))"

section \<open>Append\<close>

definition existingMemoryAppendTransition ::
  "MemoryJournalState \<Rightarrow> RunId \<Rightarrow> JournalRecordKey \<Rightarrow> WorkflowJournalEvent \<Rightarrow> JournalRecord list \<Rightarrow>
   JournalRecord list option \<Rightarrow> ((JournalError + JournalRecord) \<times> MemoryJournalState) option" where
  "existingMemoryAppendTransition current runId key event records cold =
     (case List.find (\<lambda>r. isTerminatedEvent (jr_event r)) records of
        Some terminated \<Rightarrow> Some (Inl (WorkflowRunAlreadyTerminated runId (jr_position terminated)), current)
      | None \<Rightarrow>
          if cold \<noteq> None
          then Some (Inl (JournalHistoryCorruption OpAppend ''cold partition contains nonterminal history'' Cold runId),
                     current)
          else (case List.find (\<lambda>r. jr_key r = key) records of
                  None \<Rightarrow> None
                | Some existing \<Rightarrow>
                    if jr_event existing = event then Some (Inr existing, current)
                    else Some (Inl (JournalStoreContradiction runId key (jr_position existing)), current)))"

definition memoryAppendTransition ::
  "HistoryRules \<Rightarrow> MemoryJournalState \<Rightarrow> RunId \<Rightarrow> JournalRecordKey \<Rightarrow> WorkflowJournalEvent \<Rightarrow>
   (JournalError + JournalRecord) \<times> MemoryJournalState" where
  "memoryAppendTransition rules current runId key event =
     (case decideMemoryCompletion rules current runId OpAppend of
        Inl e \<Rightarrow> (Inl e, current)
      | Inr (CompletedRunAvailable c) \<Rightarrow> (Inl (WorkflowRunAlreadyTerminated runId (co_terminatedAt c)), current)
      | Inr (CompletedRunDeleted c _) \<Rightarrow> (Inl (WorkflowRunAlreadyTerminated runId (co_terminatedAt c)), current)
      | Inr (NoCompletion _) \<Rightarrow>
          if inBothPartitions current runId then (Inl (JournalPartitionContradiction runId), current)
          else let records = runRecords current runId in
            (case existingMemoryAppendTransition current runId key event records
                    (map_of (ms_coldRecordsByRun current) runId) of
               Some result \<Rightarrow> result
             | None \<Rightarrow>
                 let record = \<lparr>jr_event = event, jr_key = key, jr_position = length records + 1, jr_runId = runId\<rparr>
                 in (Inr record,
                     current\<lparr>ms_hotRecordsByRun :=
                       AList.update runId (records @ [record]) (ms_hotRecordsByRun current)\<rparr>)))"

section \<open>Run beginning, termination and retirement\<close>

definition makeHistoricalWorkflowRunBeganRecord :: "RunId \<Rightarrow> WorkflowRunBeganFields \<Rightarrow> JournalRecord" where
  "makeHistoricalWorkflowRunBeganRecord runId beginning =
     \<lparr>jr_event = WorkflowRunBegan beginning, jr_key = workflowRunBeganRecordKey, jr_position = 1, jr_runId = runId\<rparr>"

definition makeWorkflowRunTerminatedRecord ::
  "RunId \<Rightarrow> JournalPosition \<Rightarrow> RunTerminationDisposition \<Rightarrow> RunFinalityEvidence \<Rightarrow> JournalRecord" where
  "makeWorkflowRunTerminatedRecord runId position disposition evidence =
     \<lparr>jr_event = WorkflowRunTerminated disposition evidence, jr_key = workflowRunTerminatedRecordKey,
      jr_position = position, jr_runId = runId\<rparr>"

definition decideWorkflowRunBeginning ::
  "JournalRecord list \<Rightarrow> RunId \<Rightarrow> WorkflowRunBeganFields \<Rightarrow> JournalError + JournalRecord" where
  "decideWorkflowRunBeginning records runId beginning =
     (case List.find (\<lambda>r. isBeganEvent (jr_event r)) records of
        Some began \<Rightarrow> Inl (WorkflowRunAlreadyBegan (jr_position began) runId)
      | None \<Rightarrow>
          (case records of
             [] \<Rightarrow> Inr (makeHistoricalWorkflowRunBeganRecord runId beginning)
           | first # _ \<Rightarrow> Inl (WorkflowRunIdentityAlreadyUsed (jr_position first) runId)))"

definition decideWorkflowRunTermination ::
  "HistoryRules \<Rightarrow> JournalRecord list \<Rightarrow> RunId \<Rightarrow> RunTerminationDisposition \<Rightarrow> RunFinalityEvidence \<Rightarrow>
   JournalError + JournalRecord" where
  "decideWorkflowRunTermination rules records runId disposition evidence =
     (if List.find (\<lambda>r. isBeganEvent (jr_event r)) records = None then Inl (WorkflowRunNotBegan runId)
      else case List.find (\<lambda>r. isTerminatedEvent (jr_event r)) records of
        Some terminated \<Rightarrow> Inl (WorkflowRunAlreadyTerminated runId (jr_position terminated))
      | None \<Rightarrow>
          let terminationPosition = length records + 1 in
          (case hr_terminationIssue rules records runId disposition evidence terminationPosition of
             Some detail \<Rightarrow> Inl (WorkflowRunTerminationEvidenceInvalid detail runId)
           | None \<Rightarrow> Inr (makeWorkflowRunTerminatedRecord runId terminationPosition disposition evidence)))"

definition readRecoverableRunBeginning ::
  "JournalRecord list \<Rightarrow> RunId \<Rightarrow> TrackerTarget \<Rightarrow> JournalError + JournalRecord" where
  "readRecoverableRunBeginning records runId target =
     (case List.find (\<lambda>r. isBeganEvent (jr_event r)) records of
        None \<Rightarrow> Inl (WorkflowRunNotBegan runId)
      | Some began \<Rightarrow>
          (case jr_event began of
             WorkflowRunBegan beginning \<Rightarrow>
               (case List.find (\<lambda>r. isTerminatedEvent (jr_event r)) records of
                  Some terminated \<Rightarrow> Inl (WorkflowRunAlreadyTerminated runId (jr_position terminated))
                | None \<Rightarrow>
                    if rb_target beginning \<noteq> target
                    then Inl (WorkflowRunTargetMismatch (rb_target beginning) target runId)
                    else Inr began)
           | _ \<Rightarrow> Inl (WorkflowRunNotBegan runId)))"

definition memoryBeginRun ::
  "HistoryRules \<Rightarrow> MemoryJournalState \<Rightarrow> RunId \<Rightarrow> WorkflowRunBeganFields \<Rightarrow>
   (JournalError + JournalRecord) \<times> MemoryJournalState" where
  "memoryBeginRun rules current runId beginning =
     (case decideMemoryCompletion rules current runId OpBeginRun of
        Inl e \<Rightarrow> (Inl e, current)
      | Inr (CompletedRunAvailable _) \<Rightarrow> (Inl (WorkflowRunAlreadyBegan 1 runId), current)
      | Inr (CompletedRunDeleted _ _) \<Rightarrow> (Inl (WorkflowRunAlreadyBegan 1 runId), current)
      | Inr (NoCompletion _) \<Rightarrow>
          if inBothPartitions current runId then (Inl (JournalPartitionContradiction runId), current)
          else (case decideWorkflowRunBeginning (runRecords current runId) runId beginning of
                  Inl e \<Rightarrow> (Inl e, current)
                | Inr record \<Rightarrow>
                    (Inr record,
                     current\<lparr>ms_hotRecordsByRun := AList.update runId [record] (ms_hotRecordsByRun current)\<rparr>)))"

definition memoryTerminationTransition ::
  "HistoryRules \<Rightarrow> MemoryJournalState \<Rightarrow> RunId \<Rightarrow> RunTerminationDisposition \<Rightarrow> RunFinalityEvidence \<Rightarrow>
   RunCompletionTiming \<Rightarrow> (JournalError + JournalRecord) \<times> MemoryJournalState" where
  "memoryTerminationTransition rules current runId disposition evidence timing =
     (case decideMemoryCompletion rules current runId OpTerminateRun of
        Inl e \<Rightarrow> (Inl e, current)
      | Inr (CompletedRunAvailable c) \<Rightarrow> (Inl (WorkflowRunAlreadyTerminated runId (co_terminatedAt c)), current)
      | Inr (CompletedRunDeleted c _) \<Rightarrow> (Inl (WorkflowRunAlreadyTerminated runId (co_terminatedAt c)), current)
      | Inr (NoCompletion _) \<Rightarrow>
          if inBothPartitions current runId then (Inl (JournalPartitionContradiction runId), current)
          else let records = runRecords current runId in
            (case decideWorkflowRunTermination rules records runId disposition evidence of
               Inl e \<Rightarrow> (Inl e, current)
             | Inr record \<Rightarrow>
                 if map_of (ms_coldRecordsByRun current) runId \<noteq> None
                 then (Inl (JournalHistoryCorruption OpTerminateRun
                         ''cold partition contains nonterminal history'' Cold runId), current)
                 else let full = records @ [record] in
                   (case decideJournalPartitionHistory rules Hot runId full of
                      InvalidPartitionHistory detail \<Rightarrow> (Inl (JournalDataCorruption OpTerminateRun detail), current)
                    | ValidPartitionHistory _ _ \<Rightarrow>
                        (case compactRunCompletion runId full timing of
                           None \<Rightarrow> (Inl (JournalDataCorruption OpTerminateRun ''missing terminal metadata''), current)
                         | Some completion \<Rightarrow>
                             (Inr record,
                              current\<lparr>ms_hotRecordsByRun := AList.update runId full (ms_hotRecordsByRun current),
                                      ms_completions := AList.update runId completion (ms_completions current)\<rparr>)))))"

datatype JournalTerminalHistoryRetirement = Retired RunId | AlreadyRetired RunId

definition memoryRetirementTransition ::
  "HistoryRules \<Rightarrow> MemoryJournalState \<Rightarrow> RunId \<Rightarrow>
   (JournalError + JournalTerminalHistoryRetirement) \<times> MemoryJournalState" where
  "memoryRetirementTransition rules current runId =
     (case (map_of (ms_coldRecordsByRun current) runId, map_of (ms_hotRecordsByRun current) runId) of
        (Some _, Some _) \<Rightarrow> (Inl (JournalPartitionContradiction runId), current)
      | (Some cold, None) \<Rightarrow>
          (case decideJournalPartitionHistory rules Cold runId cold of
             InvalidPartitionHistory detail \<Rightarrow>
               (Inl (JournalHistoryCorruption OpRetireTerminalRun detail Cold runId), current)
           | ValidPartitionHistory _ _ \<Rightarrow> (Inr (AlreadyRetired runId), current))
      | (None, None) \<Rightarrow> (Inl (WorkflowRunNotBegan runId), current)
      | (None, Some hot) \<Rightarrow>
          (case decideJournalPartitionHistory rules Hot runId hot of
             InvalidPartitionHistory detail \<Rightarrow>
               (Inl (JournalHistoryCorruption OpRetireTerminalRun detail Hot runId), current)
           | ValidPartitionHistory isTerminal _ \<Rightarrow>
               if \<not> isTerminal then (Inl (JournalHistoryNotTerminal runId), current)
               else (Inr (Retired runId),
                     current\<lparr>ms_coldRecordsByRun := AList.update runId hot (ms_coldRecordsByRun current),
                             ms_hotRecordsByRun := filter (\<lambda>p. fst p \<noteq> runId) (ms_hotRecordsByRun current),
                             ms_archiveBytes :=
                               AList.update runId (savedMemoryArchiveBytes rules hot) (ms_archiveBytes current)\<rparr>)))"

definition memoryRetireTerminalRun ::
  "HistoryRules \<Rightarrow> MemoryJournalState \<Rightarrow> RunId \<Rightarrow>
   (JournalError + JournalTerminalHistoryRetirement) \<times> MemoryJournalState" where
  "memoryRetireTerminalRun rules current runId =
     (case decideMemoryCompletion rules current runId OpRetireTerminalRun of
        Inl e \<Rightarrow> (Inl e, current)
      | Inr _ \<Rightarrow> memoryRetirementTransition rules current runId)"

section \<open>Reads\<close>

definition readColdHistory ::
  "HistoryRules \<Rightarrow> RunId \<Rightarrow> JournalRecord list \<Rightarrow> JournalStoreOperation \<Rightarrow> JournalError + JournalRecord list" where
  "readColdHistory rules runId records operation =
     (case decideJournalPartitionHistory rules Cold runId records of
        InvalidPartitionHistory detail \<Rightarrow> Inl (JournalHistoryCorruption operation detail Cold runId)
      | ValidPartitionHistory _ _ \<Rightarrow> Inr records)"

definition memoryRead :: "HistoryRules \<Rightarrow> MemoryJournalState \<Rightarrow> RunId \<Rightarrow> JournalError + JournalRecord list" where
  "memoryRead rules current runId =
     (case (if map_of (ms_deletions current) runId \<noteq> None
            then map_sum id Some (decideMemoryCompletion rules current runId OpRead) else Inr None) of
        Inl e \<Rightarrow> Inl e
      | Inr (Some (CompletedRunDeleted completion deletion)) \<Rightarrow> Inl (JournalHistoryDeleted completion deletion)
      | Inr _ \<Rightarrow>
          (case (map_of (ms_coldRecordsByRun current) runId, map_of (ms_hotRecordsByRun current) runId) of
             (Some _, Some _) \<Rightarrow> Inl (JournalPartitionContradiction runId)
           | (None, Some hot) \<Rightarrow> Inr hot
           | (None, None) \<Rightarrow> Inr []
           | (Some cold, None) \<Rightarrow> readColdHistory rules runId cold OpRead))"

definition memoryReadRunForRecovery ::
  "HistoryRules \<Rightarrow> MemoryJournalState \<Rightarrow> RunId \<Rightarrow> TrackerTarget \<Rightarrow> JournalError + JournalRecord" where
  "memoryReadRunForRecovery rules current runId target =
     (case decideMemoryCompletion rules current runId OpReadRunForRecovery of
        Inl e \<Rightarrow> Inl e
      | Inr (NoCompletion _) \<Rightarrow>
          (case (map_of (ms_coldRecordsByRun current) runId, map_of (ms_hotRecordsByRun current) runId) of
             (Some _, Some _) \<Rightarrow> Inl (JournalPartitionContradiction runId)
           | (None, Some hot) \<Rightarrow> readRecoverableRunBeginning hot runId target
           | (None, None) \<Rightarrow> readRecoverableRunBeginning [] runId target
           | (Some cold, None) \<Rightarrow>
               (case readColdHistory rules runId cold OpReadRunForRecovery of
                  Inl e \<Rightarrow> Inl e
                | Inr records \<Rightarrow> readRecoverableRunBeginning records runId target))
      | Inr (CompletedRunAvailable c) \<Rightarrow>
          (if co_target c \<noteq> target then Inl (WorkflowRunTargetMismatch (co_target c) target runId)
           else Inl (WorkflowRunAlreadyTerminated runId (co_terminatedAt c)))
      | Inr (CompletedRunDeleted c _) \<Rightarrow>
          (if co_target c \<noteq> target then Inl (WorkflowRunTargetMismatch (co_target c) target runId)
           else Inl (WorkflowRunAlreadyTerminated runId (co_terminatedAt c))))"


definition memoryReadCompletion ::
  "HistoryRules \<Rightarrow> MemoryJournalState \<Rightarrow> RunId \<Rightarrow> JournalError + RunCompletionInspection" where
  "memoryReadCompletion rules current runId = decideMemoryCompletion rules current runId OpReadCompletion"

record JournalScan =
  sc_issues :: "(JournalPartition \<times> RunId \<times> string) list"
  sc_runs :: "(RunId \<times> JournalRecord list) list"

definition memoryScanHot :: "HistoryRules \<Rightarrow> MemoryJournalState \<Rightarrow> JournalScan" where
  "memoryScanHot rules current =
     fold (\<lambda>(runId, records) scan.
        case decideJournalPartitionHistory rules Hot runId records of
          InvalidPartitionHistory detail \<Rightarrow> scan\<lparr>sc_issues := sc_issues scan @ [(Hot, runId, detail)]\<rparr>
        | ValidPartitionHistory _ _ \<Rightarrow> scan\<lparr>sc_runs := sc_runs scan @ [(runId, records)]\<rparr>)
      (ms_hotRecordsByRun current) \<lparr>sc_issues = [], sc_runs = []\<rparr>"

record JournalAudit =
  au_issues :: "(JournalPartition \<times> RunId \<times> string) list"
  au_runs :: "(JournalPartition \<times> RunId \<times> JournalRecord list) list"
  au_completions :: "RunCompletionInspection list"

definition partitionIssues ::
  "HistoryRules \<Rightarrow> JournalPartition \<Rightarrow> (RunId \<times> JournalRecord list) list \<Rightarrow> (JournalPartition \<times> RunId \<times> string) list" where
  "partitionIssues rules part rows =
     List.map_filter (\<lambda>(runId, records).
       case decideJournalPartitionHistory rules part runId records of
         InvalidPartitionHistory detail \<Rightarrow> Some (part, runId, detail)
       | ValidPartitionHistory _ _ \<Rightarrow> None) rows"

fun firstLeft :: "('e + 'a) list \<Rightarrow> 'e option" where
  "firstLeft [] = None"
| "firstLeft (Inl e # xs) = Some e"
| "firstLeft (Inr _ # xs) = firstLeft xs"

definition isCompletedRun :: "RunCompletionInspection \<Rightarrow> bool" where
  "isCompletedRun i = (case i of NoCompletion _ \<Rightarrow> False | _ \<Rightarrow> True)"

definition memoryAuditAll :: "HistoryRules \<Rightarrow> MemoryJournalState \<Rightarrow> JournalError + JournalAudit" where
  "memoryAuditAll rules current =
     (case List.find (\<lambda>runId. map_of (ms_coldRecordsByRun current) runId \<noteq> None)
             (map fst (ms_hotRecordsByRun current)) of
        Some runId \<Rightarrow> Inl (JournalPartitionContradiction runId)
      | None \<Rightarrow>
          (case firstLeft (map (\<lambda>p. memoryReadCompletion rules current (fst p)) (ms_completions current)) of
             Some e \<Rightarrow> Inl e
           | None \<Rightarrow>
               Inr \<lparr>au_issues = partitionIssues rules Hot (ms_hotRecordsByRun current) @
                                partitionIssues rules Cold (ms_coldRecordsByRun current),
                    au_runs = map (\<lambda>(r, rs). (Hot, r, rs)) (ms_hotRecordsByRun current) @
                              map (\<lambda>(r, rs). (Cold, r, rs)) (ms_coldRecordsByRun current),
                    au_completions = List.map_filter (\<lambda>p.
                      case decideMemoryCompletion rules current (fst p) OpAuditAll of
                        Inr i \<Rightarrow> if isCompletedRun i then Some i else None
                      | Inl _ \<Rightarrow> None) (ms_completions current)\<rparr>))"

section \<open>Adoption of seeded histories\<close>

definition adoptMemoryCompletions ::
  "HistoryRules \<Rightarrow> MemoryJournalState \<Rightarrow> nat \<Rightarrow> (RunId \<times> RunCompletion) list" where
  "adoptMemoryCompletions rules state baseline =
     fold (\<lambda>(runId, records) adopted.
        if map_of adopted runId \<noteq> None then adopted
        else case decideJournalPartitionHistory rules Hot runId records of
            InvalidPartitionHistory _ \<Rightarrow> adopted
          | ValidPartitionHistory isTerminal exported \<Rightarrow>
              if \<not> isTerminal then adopted
              else (case compactRunCompletion runId exported (LegacyBaseline baseline) of
                      None \<Rightarrow> adopted
                    | Some completion \<Rightarrow> AList.update runId completion adopted))
      (ms_hotRecordsByRun state @ ms_coldRecordsByRun state) (ms_completions state)"

definition memoryInitialState :: "HistoryRules \<Rightarrow> MemoryJournalState \<Rightarrow> nat \<Rightarrow> MemoryJournalState" where
  "memoryInitialState rules initial baseline =
     initial\<lparr>ms_completions := adoptMemoryCompletions rules initial baseline,
             ms_archiveBytes := map (\<lambda>(runId, rows). (runId, savedMemoryArchiveBytes rules rows)) (ms_coldRecordsByRun initial)\<rparr>"

end
