(* ===== verification/Archive_Retention.thy ===== *)
theory Archive_Retention
  imports Journal_Store "HOL-Library.Product_Lexorder"
begin

text \<open>
  Bounded deletion of archived run histories: the policy of
  \<^verbatim>\<open>workflow-journal/archive-retention.ts\<close> and the memory adapter's atomic unit
  (\<^verbatim>\<open>adapters/memory-archive-retention.ts\<close>). The pass is a loop that performs at most
  \<open>archivePassRunLimit\<close> units; its \<open>termination\<close> proof is that bound.
\<close>

section \<open>Policy\<close>

definition archiveByteBudget :: nat where
  "archiveByteBudget = 268435456"

definition archiveAgeMillis :: nat where
  "archiveAgeMillis = 30 * 24 * 60 * 60 * 1000"

definition archivePassRunLimit :: nat where
  "archivePassRunLimit = 32"

definition archivePassMillis :: nat where
  "archivePassMillis = 1000"

record ArchiveRetentionCandidate =
  rc_runId :: RunId
  rc_baseline :: nat
  rc_bytes :: nat

datatype RetentionDeferral = DeferredNone | DeferredBound | DeferredProtected | DeferredStorageFailure

record ArchiveRetentionObservation =
  ao_savedBytes :: nat
  ao_excessBytes :: nat
  ao_expiredBacklog :: nat
  ao_deletedRuns :: "RunId list"
  ao_deferred :: RetentionDeferral
  ao_failure :: "JournalError option"

record ArchiveSnapshot =
  as_expiredBacklog :: nat
  as_savedBytes :: nat
  as_candidates :: "ArchiveRetentionCandidate list"

fun retentionBaseline :: "RunCompletion \<Rightarrow> nat" where
  "retentionBaseline c = (case co_timing c of Known completedAt \<Rightarrow> completedAt | LegacyBaseline verifiedAt \<Rightarrow> verifiedAt)"

definition retentionOrderKey :: "ArchiveRetentionCandidate \<Rightarrow> nat \<times> RunId" where
  "retentionOrderKey c = (rc_baseline c, rc_runId c)"

definition retentionReason :: "ArchiveRetentionCandidate \<Rightarrow> nat \<Rightarrow> nat \<Rightarrow> DeletionReason option" where
  "retentionReason candidate now totalBytes =
     (let aged = rc_baseline candidate + archiveAgeMillis \<le> now;
          pressure = totalBytes > archiveByteBudget
      in if aged then (if pressure then Some AgeAndBudget else Some Age)
         else if pressure then Some Budget else None)"

section \<open>The pass\<close>

record 'w ArchiveOwner =
  ow_now :: "'w \<Rightarrow> nat \<times> 'w"
  ow_snapshot :: "nat \<Rightarrow> ('w, JournalError, ArchiveSnapshot) effect"
  ow_remove :: "ArchiveRetentionCandidate \<Rightarrow> nat \<Rightarrow> ('w, JournalError, unit) effect"

definition retentionSelected :: "ArchiveSnapshot \<Rightarrow> nat \<Rightarrow> ArchiveRetentionCandidate option" where
  "retentionSelected snapshot now =
     (let ordered = sort_key retentionOrderKey (as_candidates snapshot)
      in orElse (List.find (\<lambda>c. rc_baseline c + archiveAgeMillis \<le> now) ordered)
           (if as_savedBytes snapshot > archiveByteBudget
            then (case ordered of [] \<Rightarrow> None | c # _ \<Rightarrow> Some c) else None))"

definition retentionObservation ::
  "ArchiveSnapshot \<Rightarrow> RunId list \<Rightarrow> bool \<Rightarrow> JournalError option \<Rightarrow> ArchiveRetentionObservation" where
  "retentionObservation snapshot deletedRuns bounded failure =
     (let excessBytes = as_savedBytes snapshot - archiveByteBudget
      in \<lparr>ao_savedBytes = as_savedBytes snapshot, ao_excessBytes = excessBytes,
          ao_expiredBacklog = as_expiredBacklog snapshot, ao_deletedRuns = deletedRuns,
          ao_deferred = (if failure \<noteq> None then DeferredStorageFailure
                         else if bounded then DeferredBound
                         else if excessBytes > 0 then DeferredProtected else DeferredNone),
          ao_failure = failure\<rparr>)"

function archiveRetentionLoop ::
  "'w ArchiveOwner \<Rightarrow> nat \<Rightarrow> RunId list \<Rightarrow> ArchiveSnapshot \<Rightarrow> ('w, JournalError, ArchiveRetentionObservation) effect" where
  "archiveRetentionLoop owner now deletedRuns snapshot w =
     (case retentionSelected snapshot now of
        None \<Rightarrow> (Inr (retentionObservation snapshot deletedRuns False None), w)
      | Some selected \<Rightarrow>
          if length deletedRuns \<ge> archivePassRunLimit
          then (Inr (retentionObservation snapshot deletedRuns True None), w)
          else let (clock, w1) = ow_now owner w in
            if int clock - int now \<ge> int archivePassMillis
            then (Inr (retentionObservation snapshot deletedRuns True None), w1)
            else (case ow_remove owner selected now w1 of
                    (Inl failure, w2) \<Rightarrow>
                      (Inr (retentionObservation snapshot deletedRuns False (Some failure)), w2)
                  | (Inr _, w2) \<Rightarrow>
                      (case ow_snapshot owner now w2 of
                         (Inl e, w3) \<Rightarrow> (Inl e, w3)
                       | (Inr next, w3) \<Rightarrow>
                           archiveRetentionLoop owner now (deletedRuns @ [rc_runId selected]) next w3)))"
  by pat_completeness auto

termination
  by (relation "measure (\<lambda>(owner, now, deletedRuns, snapshot, w). archivePassRunLimit - length deletedRuns)") auto

declare archiveRetentionLoop.simps [simp del]

definition archiveRetentionPass ::
  "'w ArchiveOwner \<Rightarrow> ('w, JournalError, ArchiveRetentionObservation) effect" where
  "archiveRetentionPass owner w =
     (let (now, w1) = ow_now owner w in
      case ow_snapshot owner now w1 of
        (Inl e, w2) \<Rightarrow> (Inl e, w2)
      | (Inr snapshot, w2) \<Rightarrow> archiveRetentionLoop owner now [] snapshot w2)"

section \<open>The memory adapter's unit\<close>

definition memoryArchiveSnapshot :: "nat \<Rightarrow> MemoryJournalState \<Rightarrow> ArchiveSnapshot" where
  "memoryArchiveSnapshot now current =
     \<lparr>as_expiredBacklog = length (filter (\<lambda>p. case map_of (ms_completions current) (fst p) of
          None \<Rightarrow> False | Some c \<Rightarrow> retentionBaseline c + archiveAgeMillis \<le> now) (ms_archiveBytes current)),
      as_savedBytes = sum_list (map snd (ms_archiveBytes current)),
      as_candidates = List.map_filter (\<lambda>(runId, bytes). case map_of (ms_completions current) runId of
          None \<Rightarrow> None
        | Some c \<Rightarrow> Some \<lparr>rc_runId = runId, rc_baseline = retentionBaseline c, rc_bytes = bytes\<rparr>)
        (ms_archiveBytes current)\<rparr>"

definition memoryArchiveRemove ::
  "HistoryRules \<Rightarrow> MemoryJournalState \<Rightarrow> ArchiveRetentionCandidate \<Rightarrow> nat \<Rightarrow> (JournalError + unit) \<times> MemoryJournalState" where
  "memoryArchiveRemove rules current candidate now =
     (case decideMemoryCompletion rules current (rc_runId candidate) OpMaintainArchive of
        Inl e \<Rightarrow> (Inl e, current)
      | Inr (NoCompletion _) \<Rightarrow> (Inr (), current)
      | Inr (CompletedRunDeleted _ _) \<Rightarrow> (Inr (), current)
      | Inr (CompletedRunAvailable completion) \<Rightarrow>
          (case map_of (ms_coldRecordsByRun current) (rc_runId candidate) of
             None \<Rightarrow> (Inr (), current)
           | Some records \<Rightarrow>
               (case decideJournalPartitionHistory rules Cold (rc_runId candidate) records of
                  InvalidPartitionHistory detail \<Rightarrow>
                    (Inl (JournalHistoryCorruption OpMaintainArchive detail Cold (rc_runId candidate)), current)
                | ValidPartitionHistory _ _ \<Rightarrow>
                    (case retentionReason (candidate\<lparr>rc_baseline := retentionBaseline completion\<rparr>) now
                            (sum_list (map snd (ms_archiveBytes current))) of
                       None \<Rightarrow> (Inr (), current)
                     | Some reason \<Rightarrow>
                         (Inr (),
                          current\<lparr>ms_archiveBytes := filter (\<lambda>p. fst p \<noteq> rc_runId candidate) (ms_archiveBytes current),
                                  ms_deletions := AList.update (rc_runId candidate)
                                    \<lparr>de_reason = reason, de_observedAt = now\<rparr> (ms_deletions current),
                                  ms_coldRecordsByRun :=
                                    filter (\<lambda>p. fst p \<noteq> rc_runId candidate) (ms_coldRecordsByRun current)\<rparr>)))))"

definition memoryArchiveOwner ::
  "HistoryRules \<Rightarrow> (nat \<Rightarrow> nat) \<Rightarrow> (nat \<times> MemoryJournalState) ArchiveOwner" where
  "memoryArchiveOwner rules clock =
     \<lparr>ow_now = (\<lambda>(tick, s). (clock tick, (Suc tick, s))),
      ow_snapshot = (\<lambda>now (tick, s). (Inr (memoryArchiveSnapshot now s), (tick, s))),
      ow_remove = (\<lambda>candidate now (tick, s).
        let (r, s') = memoryArchiveRemove rules s candidate now in (r, (tick, s')))\<rparr>"

end
