(* ===== verification/Journal_Laws.thy ===== *)
theory Journal_Laws
  imports Archive_Retention
begin

text \<open>
  What the journal promises. A history is well formed when its positions are \<open>1..n\<close> in order, its
  keys are distinct and every record names the run. The theory shows that every store operation
  keeps this (an \<open>inductive\<close> step relation over all of them), states the in-run interface
  (\<^verbatim>\<open>workflow-journal/in-run-journal.ts\<close>) as the locale \<open>in_run_journal\<close> and interprets it on
  the memory adapter. The protocols are proved against the locale.
\<close>

section \<open>Well-formed histories\<close>

definition wellFormedHistory :: "RunId \<Rightarrow> JournalRecord list \<Rightarrow> bool" where
  "wellFormedHistory runId records \<longleftrightarrow>
     map jr_position records = [1..<Suc (length records)] \<and>
     distinct (map jr_key records) \<and> list_all (\<lambda>r. jr_runId r = runId) records"

lemma wellFormedHistory_Nil [simp]: "wellFormedHistory runId []"
  by (simp add: wellFormedHistory_def)

lemma wellFormedHistory_snoc:
  "wellFormedHistory runId (rs @ [r]) \<longleftrightarrow>
     wellFormedHistory runId rs \<and> jr_position r = Suc (length rs) \<and> jr_runId r = runId \<and> jr_key r \<notin> jr_key ` set rs"
  by (auto simp: wellFormedHistory_def)

lemma wellFormedHistory_sorted: "wellFormedHistory runId rs \<Longrightarrow> sorted (map jr_position rs)"
  by (simp add: wellFormedHistory_def del: upt_Suc)

lemma wellFormedHistory_strict: "wellFormedHistory runId rs \<Longrightarrow> sorted_wrt (<) (map jr_position rs)"
  by (simp add: wellFormedHistory_def sorted_wrt_upt del: upt_Suc)

lemma wellFormedHistory_position_le:
  assumes "wellFormedHistory runId rs" "r \<in> set rs"
  shows "0 < jr_position r \<and> jr_position r \<le> length rs"
proof -
  from assms have "jr_position r \<in> set [1..<Suc (length rs)]"
    by (metis wellFormedHistory_def image_eqI list.set_map)
  then show ?thesis by auto
qed

lemma wellFormedHistory_key_unique:
  assumes "wellFormedHistory runId rs" "r \<in> set rs" "s \<in> set rs" "jr_key r = jr_key s"
  shows "r = s"
  using assms by (auto simp: wellFormedHistory_def distinct_map dest: inj_onD)

text \<open>The store invariant: the partitions are disjoint, every row is non-empty and well formed, and
  a deletion mark stands only beside a completion receipt and no rows.\<close>

definition storeWellFormed :: "MemoryJournalState \<Rightarrow> bool" where
  "storeWellFormed s \<longleftrightarrow>
     (\<forall>runId rs. map_of (ms_hotRecordsByRun s) runId = Some rs \<longrightarrow>
        rs \<noteq> [] \<and> wellFormedHistory runId rs \<and>
        map_of (ms_coldRecordsByRun s) runId = None \<and> map_of (ms_deletions s) runId = None) \<and>
     (\<forall>runId rs. map_of (ms_coldRecordsByRun s) runId = Some rs \<longrightarrow>
        rs \<noteq> [] \<and> wellFormedHistory runId rs \<and> map_of (ms_deletions s) runId = None) \<and>
     (\<forall>runId d. map_of (ms_deletions s) runId = Some d \<longrightarrow> map_of (ms_completions s) runId \<noteq> None)"

lemma storeWellFormed_empty [simp]: "storeWellFormed emptyMemoryJournalState"
  by (simp add: storeWellFormed_def emptyMemoryJournalState_def)

lemma map_of_filter_fst: "map_of (filter (\<lambda>p. fst p \<noteq> k) xs) = (map_of xs)(k := None)"
  by (induction xs) (auto simp: fun_eq_iff)

lemmas map_simps = update_conv' map_of_filter_fst

section \<open>Append\<close>

lemma runRecords_hot: "map_of (ms_hotRecordsByRun s) runId = Some rs \<Longrightarrow> runRecords s runId = rs"
  by (simp add: runRecords_def orElse_def)

lemma decideMemoryCompletion_NoCompletion:
  "decideMemoryCompletion rules s runId op = Inr (NoCompletion x) \<Longrightarrow> x = runId"
  by (auto simp: decideMemoryCompletion_def Let_def split: if_splits option.splits
      JournalPartitionHistoryDecision.splits)

lemma isCompletedRun_cases: "isCompletedRun c \<or> (\<exists>x. c = NoCompletion x)"
  by (cases c) (simp_all add: isCompletedRun_def)

text \<open>The three outcomes of an append: refusal, an equal record already there, or one new record.\<close>

lemma memoryAppend_cases:
  assumes "memoryAppendTransition rules s runId key event = (result, s')"
  obtains
    (refused) e where "result = Inl e" "s' = s"
  | (existing) r where "result = Inr r" "s' = s" "map_of (ms_coldRecordsByRun s) runId = None"
      "r \<in> set (runRecords s runId)" "jr_key r = key" "jr_event r = event"
      "decideMemoryCompletion rules s runId OpAppend = Inr (NoCompletion runId)"
  | (extended) "result = Inr \<lparr>jr_event = event, jr_key = key, jr_position = length (runRecords s runId) + 1, jr_runId = runId\<rparr>"
      "s' = s\<lparr>ms_hotRecordsByRun := AList.update runId (runRecords s runId @
         [\<lparr>jr_event = event, jr_key = key, jr_position = length (runRecords s runId) + 1, jr_runId = runId\<rparr>])
         (ms_hotRecordsByRun s)\<rparr>"
      "map_of (ms_coldRecordsByRun s) runId = None" "key \<notin> jr_key ` set (runRecords s runId)"
      "\<forall>r\<in>set (runRecords s runId). \<not> isTerminatedEvent (jr_event r)"
      "decideMemoryCompletion rules s runId OpAppend = Inr (NoCompletion runId)"
proof -
  consider (left) e where "decideMemoryCompletion rules s runId OpAppend = Inl e"
    | (complete) c where "decideMemoryCompletion rules s runId OpAppend = Inr c" "isCompletedRun c"
    | (live) "decideMemoryCompletion rules s runId OpAppend = Inr (NoCompletion runId)"
    by (metis decideMemoryCompletion_NoCompletion isCompletedRun_cases sum.exhaust)
  then show thesis
  proof cases
    case left
    with assms refused show thesis by (auto simp: memoryAppendTransition_def)
  next
    case (complete c)
    with assms refused show thesis
      by (cases c) (auto simp: memoryAppendTransition_def isCompletedRun_def)
  next
    case live
    note base = assms [unfolded memoryAppendTransition_def live, simplified, unfolded Let_def]
    show thesis
    proof (cases "inBothPartitions s runId")
      case True
      with base refused show thesis by auto
    next
      case False
      note b1 = base [unfolded if_not_P [OF False]]
      show thesis
      proof (cases "existingMemoryAppendTransition s runId key event (runRecords s runId)
                      (map_of (ms_coldRecordsByRun s) runId)")
        case None
        then have "map_of (ms_coldRecordsByRun s) runId = None \<and> key \<notin> jr_key ` set (runRecords s runId) \<and>
            (\<forall>r\<in>set (runRecords s runId). \<not> isTerminatedEvent (jr_event r))"
          by (auto simp: existingMemoryAppendTransition_def find_eq_None_iff split: option.splits if_splits)
        with b1 None live extended show thesis by (simp only: option.case) auto
      next
        case (Some p)
        with b1 have p: "p = (result, s')" by simp
        from Some [unfolded p] refused existing live show thesis
          by (auto simp: existingMemoryAppendTransition_def split: option.splits if_splits dest!: find_SomeD)
      qed
    qed
  qed
qed


lemma decideMemoryCompletion_open:
  "decideMemoryCompletion rules s runId op = Inr (NoCompletion x) \<Longrightarrow>
     map_of (ms_completions s) runId = None \<and> \<not> inBothPartitions s runId"
  by (auto simp: decideMemoryCompletion_def inBothPartitions_def Let_def split: if_splits option.splits)

lemma storeWellFormed_live:
  assumes "storeWellFormed s" "decideMemoryCompletion rules s runId op = Inr (NoCompletion x)"
  shows "map_of (ms_completions s) runId = None" "map_of (ms_deletions s) runId = None"
  using assms decideMemoryCompletion_open [OF assms(2)] by (auto simp: storeWellFormed_def)

lemma storeWellFormed_runRecords:
  "storeWellFormed s \<Longrightarrow> wellFormedHistory runId (runRecords s runId)"
  by (auto simp: storeWellFormed_def runRecords_def orElse_def split: option.splits)

lemma storeWellFormed_runRecords_Nil:
  "storeWellFormed s \<Longrightarrow> runRecords s runId = [] \<Longrightarrow>
     map_of (ms_hotRecordsByRun s) runId = None \<and> map_of (ms_coldRecordsByRun s) runId = None"
  by (auto simp: storeWellFormed_def runRecords_def orElse_def split: option.splits)

text \<open>Writing one run's well-formed hot history, and possibly its receipt, keeps the invariant.\<close>

lemma storeWellFormed_update_hot:
  assumes "storeWellFormed s" "wellFormedHistory runId rs" "rs \<noteq> []"
    "map_of (ms_coldRecordsByRun s) runId = None" "map_of (ms_deletions s) runId = None"
  shows "storeWellFormed (s\<lparr>ms_hotRecordsByRun := AList.update runId rs (ms_hotRecordsByRun s)\<rparr>)"
    and "storeWellFormed (s\<lparr>ms_hotRecordsByRun := AList.update runId rs (ms_hotRecordsByRun s),
                            ms_completions := AList.update runId c (ms_completions s)\<rparr>)"
  using assms by (auto simp: storeWellFormed_def map_simps)

lemma storeWellFormed_append:
  assumes "storeWellFormed s" "memoryAppendTransition rules s runId key event = (result, s')"
  shows "storeWellFormed s'"
  using assms(2)
proof (cases rule: memoryAppend_cases)
  case extended
  show ?thesis
    unfolding extended(2)
    by (rule storeWellFormed_update_hot(1) [OF assms(1)])
      (use assms(1) extended(3,4) storeWellFormed_live [OF assms(1) extended(6)] in
        \<open>auto simp: wellFormedHistory_snoc storeWellFormed_runRecords\<close>)
qed (use assms(1) in simp_all)

section \<open>Beginning, termination, retirement, deletion\<close>

lemma memoryBeginRun_cases:
  assumes "memoryBeginRun rules s runId beginning = (result, s')"
  obtains
    (refused) e where "result = Inl e" "s' = s"
  | (began) "result = Inr (makeHistoricalWorkflowRunBeganRecord runId beginning)" "runRecords s runId = []"
      "s' = s\<lparr>ms_hotRecordsByRun :=
         AList.update runId [makeHistoricalWorkflowRunBeganRecord runId beginning] (ms_hotRecordsByRun s)\<rparr>"
      "decideMemoryCompletion rules s runId OpBeginRun = Inr (NoCompletion runId)"
proof (cases "decideMemoryCompletion rules s runId OpBeginRun")
  case (Inl e)
  with assms refused show thesis by (auto simp: memoryBeginRun_def)
next
  case (Inr c)
  show thesis
  proof (cases c)
    case (NoCompletion x)
    with Inr have x: "x = runId" by (simp add: decideMemoryCompletion_NoCompletion)
    note live = Inr [unfolded NoCompletion x]
    from assms live have "(\<exists>e. result = Inl e \<and> s' = s) \<or>
        (result = Inr (makeHistoricalWorkflowRunBeganRecord runId beginning) \<and> runRecords s runId = [] \<and>
         s' = s\<lparr>ms_hotRecordsByRun :=
           AList.update runId [makeHistoricalWorkflowRunBeganRecord runId beginning] (ms_hotRecordsByRun s)\<rparr>)"
      by (auto simp: memoryBeginRun_def decideWorkflowRunBeginning_def
          split: if_splits option.splits list.splits)
    with refused began live show thesis by metis
  qed (use Inr assms refused in \<open>auto simp: memoryBeginRun_def\<close>)
qed

lemma memoryTermination_cases:
  assumes "memoryTerminationTransition rules s runId disposition evidence timing = (result, s')"
  obtains
    (refused) e where "result = Inl e" "s' = s"
  | (terminated) closing completion where "result = Inr closing"
      "closing = makeWorkflowRunTerminatedRecord runId (Suc (length (runRecords s runId))) disposition evidence"
      "s' = s\<lparr>ms_hotRecordsByRun := AList.update runId (runRecords s runId @ [closing]) (ms_hotRecordsByRun s),
              ms_completions := AList.update runId completion (ms_completions s)\<rparr>"
      "compactRunCompletion runId (runRecords s runId @ [closing]) timing = Some completion"
      "map_of (ms_coldRecordsByRun s) runId = None"
      "\<exists>r\<in>set (runRecords s runId). isBeganEvent (jr_event r)"
      "\<forall>r\<in>set (runRecords s runId). \<not> isTerminatedEvent (jr_event r)"
      "decideMemoryCompletion rules s runId OpTerminateRun = Inr (NoCompletion runId)"
proof (cases "decideMemoryCompletion rules s runId OpTerminateRun")
  case (Inl e)
  with assms refused show thesis by (auto simp: memoryTerminationTransition_def)
next
  case (Inr c)
  show thesis
  proof (cases c)
    case (NoCompletion x)
    with Inr have x: "x = runId" by (simp add: decideMemoryCompletion_NoCompletion)
    note live = Inr [unfolded NoCompletion x]
    have b: "\<not> inBothPartitions s runId" using decideMemoryCompletion_open [OF live] by simp
    note base = assms [unfolded memoryTerminationTransition_def live, simplified, unfolded Let_def if_not_P [OF b]]
    show thesis
    proof (cases "decideWorkflowRunTermination rules (runRecords s runId) runId disposition evidence")
      case (Inl e)
      with base have "result = Inl e" "s' = s" by simp_all
      then show thesis by (rule refused)
    next
      case (Inr closing)
      then have r: "closing = makeWorkflowRunTerminatedRecord runId (Suc (length (runRecords s runId))) disposition evidence"
        and bg: "\<exists>r\<in>set (runRecords s runId). isBeganEvent (jr_event r)"
        and nt: "\<forall>r\<in>set (runRecords s runId). \<not> isTerminatedEvent (jr_event r)"
        by (auto simp: decideWorkflowRunTermination_def find_eq_None_iff Let_def split: if_splits option.splits)
      from base Inr have "(\<exists>e. result = Inl e \<and> s' = s) \<or>
          (\<exists>completion. result = Inr closing \<and>
            s' = s\<lparr>ms_hotRecordsByRun := AList.update runId (runRecords s runId @ [closing]) (ms_hotRecordsByRun s),
                   ms_completions := AList.update runId completion (ms_completions s)\<rparr> \<and>
            compactRunCompletion runId (runRecords s runId @ [closing]) timing = Some completion \<and>
            map_of (ms_coldRecordsByRun s) runId = None)"
        by (simp split: if_splits JournalPartitionHistoryDecision.splits option.splits) auto
      with refused terminated r bg nt live show thesis by metis
    qed
  qed (use Inr assms refused in \<open>auto simp: memoryTerminationTransition_def\<close>)
qed

lemma memoryRetire_cases:
  assumes "memoryRetireTerminalRun rules s runId = (result, s')"
  obtains
    (unchanged) "s' = s" "result \<noteq> Inr (Retired runId)"
  | (retired) hot where "result = Inr (Retired runId)" "map_of (ms_hotRecordsByRun s) runId = Some hot"
      "map_of (ms_coldRecordsByRun s) runId = None"
      "s' = s\<lparr>ms_coldRecordsByRun := AList.update runId hot (ms_coldRecordsByRun s),
              ms_hotRecordsByRun := filter (\<lambda>p. fst p \<noteq> runId) (ms_hotRecordsByRun s),
              ms_archiveBytes := AList.update runId (savedMemoryArchiveBytes rules hot) (ms_archiveBytes s)\<rparr>"
      "\<exists>exported. decideJournalPartitionHistory rules Hot runId hot = ValidPartitionHistory True exported"
proof (cases "decideMemoryCompletion rules s runId OpRetireTerminalRun")
  case (Inl e)
  with assms unchanged show thesis by (auto simp: memoryRetireTerminalRun_def)
next
  case (Inr c)
  with assms have base: "memoryRetirementTransition rules s runId = (result, s')"
    by (simp add: memoryRetireTerminalRun_def)
  show thesis
  proof (cases "map_of (ms_coldRecordsByRun s) runId")
    case None
    show thesis
    proof (cases "map_of (ms_hotRecordsByRun s) runId")
      case None
      with base unchanged \<open>map_of (ms_coldRecordsByRun s) runId = None\<close> show thesis
        by (auto simp: memoryRetirementTransition_def)
    next
      case (Some hot)
      show thesis
      proof (cases "decideJournalPartitionHistory rules Hot runId hot")
        case (InvalidPartitionHistory d)
        with base None Some have "s' = s" "result \<noteq> Inr (Retired runId)"
          by (auto simp: memoryRetirementTransition_def)
        then show thesis by (rule unchanged)
      next
        case (ValidPartitionHistory isTerminal exported)
        with base None Some unchanged show thesis
          by (cases isTerminal) (auto simp: memoryRetirementTransition_def intro: retired)
      qed
    qed
  next
    case (Some cold)
    with base unchanged show thesis
      by (auto simp: memoryRetirementTransition_def split: option.splits JournalPartitionHistoryDecision.splits)
  qed
qed

lemma memoryArchiveRemove_cases:
  assumes "memoryArchiveRemove rules s candidate now = (result, s')"
  obtains
    (unchanged) "s' = s"
  | (removed) records completion reason where "result = Inr ()"
      "map_of (ms_coldRecordsByRun s) (rc_runId candidate) = Some records"
      "map_of (ms_completions s) (rc_runId candidate) = Some completion"
      "s' = s\<lparr>ms_archiveBytes := filter (\<lambda>p. fst p \<noteq> rc_runId candidate) (ms_archiveBytes s),
              ms_deletions := AList.update (rc_runId candidate) \<lparr>de_reason = reason, de_observedAt = now\<rparr> (ms_deletions s),
              ms_coldRecordsByRun := filter (\<lambda>p. fst p \<noteq> rc_runId candidate) (ms_coldRecordsByRun s)\<rparr>"
      "retentionReason (candidate\<lparr>rc_baseline := retentionBaseline completion\<rparr>) now
         (sum_list (map snd (ms_archiveBytes s))) = Some reason"
proof (cases "decideMemoryCompletion rules s (rc_runId candidate) OpMaintainArchive")
  case (Inl e)
  with assms unchanged show thesis by (auto simp: memoryArchiveRemove_def)
next
  case (Inr c)
  show thesis
  proof (cases c)
    case (CompletedRunAvailable receipt)
    with Inr have "map_of (ms_completions s) (rc_runId candidate) = Some receipt"
      by (auto simp: decideMemoryCompletion_def Let_def split: if_splits option.splits
          JournalPartitionHistoryDecision.splits)
    with assms unchanged removed Inr CompletedRunAvailable show thesis
      by (auto simp: memoryArchiveRemove_def split: option.splits JournalPartitionHistoryDecision.splits)
  qed (use Inr assms unchanged in \<open>auto simp: memoryArchiveRemove_def\<close>)
qed


section \<open>All operations as one step relation\<close>

text \<open>
  One step is one atomic \<open>Ref.modify\<close> of the memory store. The type of \<open>append\<close> admits only
  appendable events, and no key maker of \<^verbatim>\<open>record-key.ts\<close> but the terminal one yields the
  terminal key; both are guards of the append step.
\<close>

inductive store_step :: "HistoryRules \<Rightarrow> MemoryJournalState \<Rightarrow> MemoryJournalState \<Rightarrow> bool" for rules where
  begin_step: "memoryBeginRun rules s runId beginning = (r, s') \<Longrightarrow> store_step rules s s'"
| append_step: "memoryAppendTransition rules s runId key event = (ra, s') \<Longrightarrow>
    isAppendableWorkflowJournalEvent event \<Longrightarrow> key \<noteq> workflowRunTerminatedRecordKey \<Longrightarrow> store_step rules s s'"
| terminate_step: "memoryTerminationTransition rules s runId disposition evidence timing = (rt, s') \<Longrightarrow> store_step rules s s'"
| retire_step: "memoryRetireTerminalRun rules s runId = (rr, s') \<Longrightarrow> store_step rules s s'"
| remove_step: "memoryArchiveRemove rules s candidate now = (rd, s') \<Longrightarrow> store_step rules s s'"

inductive store_reachable :: "HistoryRules \<Rightarrow> MemoryJournalState \<Rightarrow> bool" for rules where
  initial: "store_reachable rules emptyMemoryJournalState"
| step: "store_reachable rules s \<Longrightarrow> store_step rules s s' \<Longrightarrow> store_reachable rules s'"

text \<open>
  The full invariant adds what receipts and terminal records promise: a terminal record is the
  last one and has the terminal key, and a receipt is the compact form of the whole history.
\<close>

definition terminalLast :: "JournalRecord list \<Rightarrow> bool" where
  "terminalLast rs \<longleftrightarrow> (\<forall>r\<in>set (butlast rs). \<not> isTerminatedEvent (jr_event r)) \<and>
     (\<forall>r\<in>set rs. jr_key r = workflowRunTerminatedRecordKey \<longleftrightarrow> isTerminatedEvent (jr_event r))"

definition receiptsMatch :: "MemoryJournalState \<Rightarrow> bool" where
  "receiptsMatch s \<longleftrightarrow>
     (\<forall>runId c. map_of (ms_completions s) runId = Some c \<longrightarrow> map_of (ms_deletions s) runId = None \<longrightarrow>
        compactRunCompletion runId (runRecords s runId) (co_timing c) = Some c) \<and>
     (\<forall>runId r. r \<in> set (runRecords s runId) \<longrightarrow> isTerminatedEvent (jr_event r) \<longrightarrow> map_of (ms_completions s) runId \<noteq> None)"

definition storeInvariant :: "MemoryJournalState \<Rightarrow> bool" where
  "storeInvariant s \<longleftrightarrow> storeWellFormed s \<and> receiptsMatch s \<and> (\<forall>runId. terminalLast (runRecords s runId))"

lemma runRecords_update_hot [simp]:
  "runRecords (s\<lparr>ms_hotRecordsByRun := AList.update runId rs (ms_hotRecordsByRun s)\<rparr>) runId' =
     (if runId' = runId then rs else runRecords s runId')"
  "runRecords (s\<lparr>ms_hotRecordsByRun := AList.update runId rs (ms_hotRecordsByRun s), ms_completions := cs\<rparr>) runId' =
     (if runId' = runId then rs else runRecords s runId')"
  by (simp_all add: runRecords_def map_simps orElse_def)

lemma runRecords_retired [simp]:
  "map_of (ms_hotRecordsByRun s) runId = Some hot \<Longrightarrow> map_of (ms_coldRecordsByRun s) runId = None \<Longrightarrow>
   runRecords (s\<lparr>ms_coldRecordsByRun := AList.update runId hot (ms_coldRecordsByRun s),
                ms_hotRecordsByRun := filter (\<lambda>p. fst p \<noteq> runId) (ms_hotRecordsByRun s),
                ms_archiveBytes := b\<rparr>) runId' = runRecords s runId'"
  by (simp add: runRecords_def map_simps orElse_def)

lemma runRecords_removed [simp]:
  "map_of (ms_hotRecordsByRun s) runId = None \<Longrightarrow>
   runRecords (s\<lparr>ms_archiveBytes := b, ms_deletions := d,
                ms_coldRecordsByRun := filter (\<lambda>p. fst p \<noteq> runId) (ms_coldRecordsByRun s)\<rparr>) runId' =
     (if runId' = runId then [] else runRecords s runId')"
  by (simp add: runRecords_def map_simps orElse_def)

lemma isTerminated_began [simp]:
  "\<not> isTerminatedEvent (jr_event (makeHistoricalWorkflowRunBeganRecord runId b))"
  "jr_key (makeHistoricalWorkflowRunBeganRecord runId b) \<noteq> workflowRunTerminatedRecordKey"
  "jr_position (makeHistoricalWorkflowRunBeganRecord runId b) = 1"
  "jr_runId (makeHistoricalWorkflowRunBeganRecord runId b) = runId"
  by (simp_all add: makeHistoricalWorkflowRunBeganRecord_def isTerminatedEvent_def
      workflowRunBeganRecordKey_def workflowRunTerminatedRecordKey_def)

lemma isTerminated_terminated [simp]:
  "isTerminatedEvent (jr_event (makeWorkflowRunTerminatedRecord runId n d e))"
  "jr_key (makeWorkflowRunTerminatedRecord runId n d e) = workflowRunTerminatedRecordKey"
  "jr_position (makeWorkflowRunTerminatedRecord runId n d e) = n"
  "jr_runId (makeWorkflowRunTerminatedRecord runId n d e) = runId"
  by (simp_all add: makeWorkflowRunTerminatedRecord_def isTerminatedEvent_def)

lemma isAppendable_not_terminated:
  "isAppendableWorkflowJournalEvent e \<Longrightarrow> \<not> isTerminatedEvent e"
  by (cases e) (simp_all add: isTerminatedEvent_def)

lemma terminalLast_snoc:
  "terminalLast (rs @ [r]) \<longleftrightarrow> (\<forall>x\<in>set rs. \<not> isTerminatedEvent (jr_event x)) \<and>
     (\<forall>x\<in>set rs. jr_key x \<noteq> workflowRunTerminatedRecordKey) \<and>
     (jr_key r = workflowRunTerminatedRecordKey \<longleftrightarrow> isTerminatedEvent (jr_event r))"
  by (auto simp: terminalLast_def)

lemma terminalLast_Nil [simp]: "terminalLast []"
  by (simp add: terminalLast_def)

lemma terminalLast_not_terminated:
  "terminalLast rs \<Longrightarrow> \<forall>x\<in>set rs. \<not> isTerminatedEvent (jr_event x) \<Longrightarrow>
     \<forall>x\<in>set rs. jr_key x \<noteq> workflowRunTerminatedRecordKey"
  by (auto simp: terminalLast_def)

lemma compact_terminatedD:
  "compactRunCompletion runId rs timing = Some c \<Longrightarrow>
     rs \<noteq> [] \<and> isTerminatedEvent (jr_event (last rs)) \<and> isBeganEvent (jr_event (hd rs)) \<and> co_timing c = timing"
  by (auto simp: compactRunCompletion_def isTerminatedEvent_def isBeganEvent_def
      split: list.splits WorkflowJournalEvent.splits if_splits)


lemma storeInvariant_hot_extend:
  assumes inv: "storeInvariant s" and live: "map_of (ms_completions s) runId = None" "map_of (ms_deletions s) runId = None"
    and cold: "map_of (ms_coldRecordsByRun s) runId = None"
    and r: "jr_position r = Suc (length (runRecords s runId))" "jr_runId r = runId"
    and key: "jr_key r \<notin> jr_key ` set (runRecords s runId)"
    and ordinary: "jr_key r \<noteq> workflowRunTerminatedRecordKey" "\<not> isTerminatedEvent (jr_event r)"
  shows "storeInvariant (s\<lparr>ms_hotRecordsByRun :=
           AList.update runId (runRecords s runId @ [r]) (ms_hotRecordsByRun s)\<rparr>)" (is "storeInvariant ?s'")
proof -
  from inv have wf: "storeWellFormed s" and rm: "receiptsMatch s" and tl: "\<And>x. terminalLast (runRecords s x)"
    by (auto simp: storeInvariant_def)
  from rm live(1) have nt: "\<forall>x\<in>set (runRecords s runId). \<not> isTerminatedEvent (jr_event x)"
    unfolding receiptsMatch_def by metis
  have "storeWellFormed ?s'"
    by (rule storeWellFormed_update_hot(1) [OF wf])
      (use wf r key live cold in \<open>auto simp: wellFormedHistory_snoc storeWellFormed_runRecords\<close>)
  moreover have "receiptsMatch ?s'"
    using rm live ordinary nt by (auto simp: receiptsMatch_def)
  moreover have "terminalLast (runRecords ?s' x)" for x
    using tl ordinary nt terminalLast_not_terminated [OF tl nt] by (auto simp: terminalLast_snoc)
  ultimately show ?thesis by (simp add: storeInvariant_def)
qed

lemma storeInvariant_begin:
  assumes "storeInvariant s" "memoryBeginRun rules s runId beginning = (result, s')"
  shows "storeInvariant s'"
  using assms(2)
proof (cases rule: memoryBeginRun_cases)
  case began
  from assms(1) have wf: "storeWellFormed s" by (simp add: storeInvariant_def)
  have "storeInvariant (s\<lparr>ms_hotRecordsByRun := AList.update runId
          (runRecords s runId @ [makeHistoricalWorkflowRunBeganRecord runId beginning]) (ms_hotRecordsByRun s)\<rparr>)"
    by (rule storeInvariant_hot_extend [OF assms(1)])
      (use began(2) storeWellFormed_live [OF wf began(4)] storeWellFormed_runRecords_Nil [OF wf began(2)] in simp_all)
  with began(2,3) show ?thesis by simp
qed (use assms(1) in simp)

lemma storeInvariant_append:
  assumes "storeInvariant s" "memoryAppendTransition rules s runId key event = (result, s')"
    "isAppendableWorkflowJournalEvent event" "key \<noteq> workflowRunTerminatedRecordKey"
  shows "storeInvariant s'"
  using assms(2)
proof (cases rule: memoryAppend_cases)
  case extended
  from assms(1) have wf: "storeWellFormed s" by (simp add: storeInvariant_def)
  show ?thesis
    unfolding extended(2)
    by (rule storeInvariant_hot_extend [OF assms(1)])
      (use assms(3,4) extended(3,4) storeWellFormed_live [OF wf extended(6)] in
        \<open>auto simp: isAppendable_not_terminated\<close>)
qed (use assms(1) in simp_all)

lemma storeInvariant_terminate:
  assumes inv: "storeInvariant s"
    and op: "memoryTerminationTransition rules s runId disposition evidence timing = (result, s')"
  shows "storeInvariant s'"
  using op
proof (cases rule: memoryTermination_cases)
  case (terminated closing completion)
  from inv have wf: "storeWellFormed s" and rm: "receiptsMatch s" and tl: "\<And>x. terminalLast (runRecords s x)"
    by (auto simp: storeInvariant_def)
  note live = storeWellFormed_live [OF wf terminated(8)]
  have keys: "\<forall>x\<in>set (runRecords s runId). jr_key x \<noteq> workflowRunTerminatedRecordKey"
    by (rule terminalLast_not_terminated [OF tl terminated(7)])
  have "storeWellFormed s'"
    unfolding terminated(3)
    by (rule storeWellFormed_update_hot(2) [OF wf])
      (use wf terminated(2,5) live keys in \<open>auto simp: wellFormedHistory_snoc storeWellFormed_runRecords\<close>)
  moreover have "receiptsMatch s'"
    using rm terminated(4) compact_terminatedD [OF terminated(4)] live
    by (auto simp: receiptsMatch_def terminated(3) map_simps)
  moreover have "terminalLast (runRecords s' x)" for x
    using tl keys terminated(2,7) by (auto simp: terminated(3) terminalLast_snoc)
  ultimately show ?thesis by (simp add: storeInvariant_def)
qed (use inv in simp)

lemma storeInvariant_retire:
  assumes inv: "storeInvariant s" and op: "memoryRetireTerminalRun rules s runId = (result, s')"
  shows "storeInvariant s'"
  using op
proof (cases rule: memoryRetire_cases)
  case (retired hot)
  have "storeWellFormed s'" using inv retired(2,3)
    by (auto simp: storeInvariant_def storeWellFormed_def retired(4) map_simps)
  moreover have "runRecords s' x = runRecords s x" for x
    using retired(2,3) by (simp add: retired(4))
  ultimately show ?thesis using inv by (auto simp: storeInvariant_def receiptsMatch_def retired(4))
qed (use inv in simp)

lemma storeInvariant_remove:
  assumes inv: "storeInvariant s" and op: "memoryArchiveRemove rules s candidate now = (result, s')"
  shows "storeInvariant s'"
  using op
proof (cases rule: memoryArchiveRemove_cases)
  case (removed records completion reason)
  from inv removed(2) have hot: "map_of (ms_hotRecordsByRun s) (rc_runId candidate) = None"
    by (cases "map_of (ms_hotRecordsByRun s) (rc_runId candidate)") (auto simp: storeInvariant_def storeWellFormed_def)
  have "storeWellFormed s'" using inv removed(2,3) hot
    by (auto simp: storeInvariant_def storeWellFormed_def removed(4) map_simps)
  moreover have rr: "runRecords s' x = (if x = rc_runId candidate then [] else runRecords s x)" for x
    using hot by (simp add: removed(4))
  moreover have "receiptsMatch s'"
    using inv rr by (auto simp: storeInvariant_def receiptsMatch_def removed(4) map_simps)
  ultimately show ?thesis using inv by (auto simp: storeInvariant_def)
qed (use inv in simp)

lemma storeInvariant_empty: "storeInvariant emptyMemoryJournalState"
  by (simp add: storeInvariant_def) (simp add: receiptsMatch_def runRecords_def orElse_def emptyMemoryJournalState_def)

lemma store_step_invariant: "store_step rules s s' \<Longrightarrow> storeInvariant s \<Longrightarrow> storeInvariant s'"
  by (induction rule: store_step.induct)
    (erule (1) storeInvariant_begin storeInvariant_append storeInvariant_terminate storeInvariant_retire
      storeInvariant_remove; assumption)+

lemma store_reachable_invariant: "store_reachable rules s \<Longrightarrow> storeInvariant s"
  by (induction rule: store_reachable.induct) (auto intro: storeInvariant_empty store_step_invariant)


section \<open>Histories only grow, receipts never change\<close>

definition historyDeleted :: "MemoryJournalState \<Rightarrow> RunId \<Rightarrow> bool" where
  "historyDeleted s runId \<longleftrightarrow> runRecords s runId = [] \<and> map_of (ms_deletions s) runId \<noteq> None"

lemma decideMemoryCompletion_receipt:
  "map_of (ms_completions s) runId \<noteq> None \<Longrightarrow> decideMemoryCompletion rules s runId op \<noteq> Inr (NoCompletion x)"
  by (auto dest: decideMemoryCompletion_open)

lemma storeWellFormed_deleted:
  assumes "storeWellFormed s" "map_of (ms_deletions s) runId = Some d"
  shows "map_of (ms_hotRecordsByRun s) runId = None \<and> map_of (ms_coldRecordsByRun s) runId = None"
  using assms
  by (cases "map_of (ms_hotRecordsByRun s) runId"; cases "map_of (ms_coldRecordsByRun s) runId")
    (auto simp: storeWellFormed_def)

lemma store_step_history:
  assumes "store_step rules s s'" "storeInvariant s"
  shows "(prefix (runRecords s runId) (runRecords s' runId) \<and>
          map_of (ms_deletions s') runId = map_of (ms_deletions s) runId) \<or> historyDeleted s' runId"
  using assms
proof (cases rule: store_step.cases)
  case (begin_step runId' beginning r)
  from begin_step(1) show ?thesis
    by (cases rule: memoryBeginRun_cases) auto
next
  case (append_step runId' key event ra)
  from append_step(1) show ?thesis
    by (cases rule: memoryAppend_cases) auto
next
  case (terminate_step runId' disposition evidence timing rt)
  from terminate_step show ?thesis
    by (cases rule: memoryTermination_cases) auto
next
  case (retire_step runId' rr)
  from retire_step show ?thesis
    by (cases rule: memoryRetire_cases) auto
next
  case (remove_step candidate now rd)
  from remove_step show ?thesis
  proof (cases rule: memoryArchiveRemove_cases)
    case (removed records completion reason)
    with assms(2) have "map_of (ms_hotRecordsByRun s) (rc_runId candidate) = None"
      by (cases "map_of (ms_hotRecordsByRun s) (rc_runId candidate)") (auto simp: storeInvariant_def storeWellFormed_def)
    then show ?thesis by (auto simp: historyDeleted_def removed(4) map_simps)
  qed auto
qed

lemma store_step_receipt:
  assumes "store_step rules s s'" "map_of (ms_completions s) runId = Some c"
  shows "map_of (ms_completions s') runId = Some c \<and>
         (runRecords s' runId = runRecords s runId \<or> map_of (ms_deletions s') runId \<noteq> None)"
  using assms
proof (cases rule: store_step.cases)
  case (begin_step runId' beginning r)
  from begin_step(1) show ?thesis
    by (cases rule: memoryBeginRun_cases)
      (use assms(2) decideMemoryCompletion_receipt [of s runId] in auto)
next
  case (append_step runId' key event ra)
  from append_step(1) show ?thesis
    by (cases rule: memoryAppend_cases)
      (use assms(2) decideMemoryCompletion_receipt [of s runId] in auto)
next
  case (terminate_step runId' disposition evidence timing rt)
  from terminate_step show ?thesis
    by (cases rule: memoryTermination_cases)
      (use assms(2) decideMemoryCompletion_receipt [of s runId] in \<open>auto simp: map_simps\<close>)
next
  case (retire_step runId' rr)
  from retire_step show ?thesis
    by (cases rule: memoryRetire_cases) (use assms(2) in auto)
next
  case (remove_step candidate now rd)
  from remove_step show ?thesis
    by (cases rule: memoryArchiveRemove_cases)
      (use assms(2) in \<open>auto simp: map_simps runRecords_def orElse_def\<close>)
qed

lemma historyDeleted_stable:
  assumes "store_step rules s s'" "storeInvariant s" "historyDeleted s runId"
  shows "historyDeleted s' runId"
proof -
  from assms(2,3) obtain c where c: "map_of (ms_completions s) runId = Some c"
    by (auto simp: historyDeleted_def storeInvariant_def storeWellFormed_def)
  have inv: "storeInvariant s'" by (rule store_step_invariant [OF assms(1,2)])
  from store_step_receipt [OF assms(1) c] store_step_history [OF assms(1,2), of runId] assms(3) inv
  have "map_of (ms_deletions s') runId \<noteq> None" by (auto simp: historyDeleted_def)
  with inv show ?thesis
    by (auto simp: historyDeleted_def storeInvariant_def runRecords_def orElse_def dest: storeWellFormed_deleted)
qed

lemma store_steps_history:
  assumes "(store_step rules)\<^sup>*\<^sup>* s s'" "storeInvariant s"
  shows "storeInvariant s' \<and> (prefix (runRecords s runId) (runRecords s' runId) \<or> historyDeleted s' runId)"
  using assms(1)
proof (induction rule: rtranclp_induct)
  case base
  with assms(2) show ?case by simp
next
  case (step y z)
  then have "storeInvariant z" by (blast intro: store_step_invariant)
  with step show ?case
    using store_step_history [of rules y z runId] historyDeleted_stable [of rules y z runId]
    by (meson prefix_order.trans)
qed

lemma store_steps_receipt:
  assumes "(store_step rules)\<^sup>*\<^sup>* s s'" "map_of (ms_completions s) runId = Some c"
  shows "map_of (ms_completions s') runId = Some c"
  using assms by (induction rule: rtranclp_induct) (use store_step_receipt in blast)+

section \<open>Receipts verified from three endpoints\<close>

lemma findLast_publication_position:
  assumes "wellFormedHistory runId rs" "findLast P rs = Some p"
  shows "0 < jr_position p \<and> jr_position p \<le> length rs \<and> rs ! (jr_position p - 1) = p"
proof -
  from assms(2) have "p \<in> set rs" by (auto dest: findLast_SomeD)
  then obtain i where i: "i < length rs" "rs ! i = p" by (auto simp: in_set_conv_nth)
  from assms(1) i have "jr_position p = [1..<Suc (length rs)] ! i"
    by (metis wellFormedHistory_def nth_map)
  with i have "jr_position p = Suc i" by (simp del: upt_Suc)
  with i show ?thesis by simp
qed

lemma completionEndpoints_equivalent:
  assumes wf: "wellFormedHistory runId rs" and c: "compactRunCompletion runId rs timing = Some c"
  shows "compactRunCompletion runId (completionEndpoints rs c) timing = Some c"
proof -
  from c obtain b rest bf d e where rs: "rs = b # rest" and ev: "jr_event b = WorkflowRunBegan bf"
    "jr_event (last rs) = WorkflowRunTerminated d e"
    and c': "c = \<lparr>co_runId = runId, co_target = rb_target bf, co_disposition = d,
                 co_terminatedAt = jr_position (last rs), co_timing = timing,
                 co_publication = recordedPublicationOf
                   (findLast (\<lambda>r. isPublicationSucceededEvent (jr_event r)) rs)\<rparr>"
    by (auto simp: compactRunCompletion_def split: list.splits WorkflowJournalEvent.splits if_splits)
  have notpub: "\<not> isPublicationSucceededEvent (jr_event b)" "\<not> isPublicationSucceededEvent (jr_event (last rs))"
    by (simp_all add: isPublicationSucceededEvent_def ev)
  have lst: "latest rs = Some (last rs)" using rs by (simp add: latest_def)
  show ?thesis
  proof (cases "findLast (\<lambda>r. isPublicationSucceededEvent (jr_event r)) rs")
    case None
    then have "completionEndpoints rs c = [b, last rs]"
      using lst by (simp add: completionEndpoints_def c' rs)
    with None notpub ev show ?thesis
      by (simp add: compactRunCompletion_def c' findLast_def)
  next
    case (Some p)
    then have pub: "isPublicationSucceededEvent (jr_event p)" by (auto dest: findLast_SomeD)
    then obtain pc pf where pe: "jr_event p = RemotePublicationEvent (RemotePublicationSucceeded pc pf)"
      by (auto simp: isPublicationSucceededEvent_def split: WorkflowJournalEvent.splits RemotePublicationJournalEvent.splits)
    note pos = findLast_publication_position [OF wf Some]
    have "completionEndpoints rs c = [b, p, last rs]"
      using lst pos by (simp add: completionEndpoints_def c' Some pe) (simp add: rs)
    with Some notpub ev pub show ?thesis
      by (simp add: compactRunCompletion_def c' findLast_def)
  qed
qed

lemma decideMemoryCompletion_available:
  assumes inv: "storeInvariant s" and c: "map_of (ms_completions s) runId = Some c"
    and nd: "map_of (ms_deletions s) runId = None"
  shows "decideMemoryCompletion rules s runId op = Inr (CompletedRunAvailable c)"
proof -
  from inv have wf: "storeWellFormed s" and rm: "receiptsMatch s" by (auto simp: storeInvariant_def)
  have "compactRunCompletion runId (completionEndpoints (runRecords s runId) c) (co_timing c) = Some c"
    by (rule completionEndpoints_equivalent [OF storeWellFormed_runRecords [OF wf]])
      (use rm c nd in \<open>auto simp: receiptsMatch_def\<close>)
  moreover have "\<not> (map_of (ms_coldRecordsByRun s) runId \<noteq> None \<and> map_of (ms_hotRecordsByRun s) runId \<noteq> None)"
    using wf by (auto simp: storeWellFormed_def)
  ultimately show ?thesis using c nd by (simp add: decideMemoryCompletion_def Let_def)
qed

lemma decideMemoryCompletion_deleted:
  assumes inv: "storeInvariant s" and d: "map_of (ms_deletions s) runId = Some d"
  obtains c where "map_of (ms_completions s) runId = Some c"
    "decideMemoryCompletion rules s runId op = Inr (CompletedRunDeleted c d)"
proof -
  from inv have wf: "storeWellFormed s" by (simp add: storeInvariant_def)
  with d obtain c where c: "map_of (ms_completions s) runId = Some c" by (auto simp: storeWellFormed_def)
  have "map_of (ms_hotRecordsByRun s) runId = None \<and> map_of (ms_coldRecordsByRun s) runId = None"
    by (rule storeWellFormed_deleted [OF wf d])
  with c d that show thesis by (simp add: decideMemoryCompletion_def Let_def)
qed


section \<open>The in-run interface\<close>

record 'j InRunJournalService =
  ij_append :: "RunId \<Rightarrow> JournalRecordKey \<Rightarrow> WorkflowJournalEvent \<Rightarrow> ('j, JournalError, JournalRecord) effect"
  ij_read :: "RunId \<Rightarrow> ('j, JournalError, JournalRecord list) effect"

definition memoryJournal :: "HistoryRules \<Rightarrow> MemoryJournalState InRunJournalService" where
  "memoryJournal rules =
     \<lparr>ij_append = (\<lambda>runId key event s. memoryAppendTransition rules s runId key event),
      ij_read = (\<lambda>runId s. (memoryRead rules s runId, s))\<rparr>"

definition nextRecord :: "RunId \<Rightarrow> JournalRecordKey \<Rightarrow> WorkflowJournalEvent \<Rightarrow> JournalRecord list \<Rightarrow> JournalRecord" where
  "nextRecord runId key event rs =
     \<lparr>jr_event = event, jr_key = key, jr_position = length rs + 1, jr_runId = runId\<rparr>"

lemma nextRecord_fields [simp]:
  "jr_event (nextRecord runId key event rs) = event" "jr_key (nextRecord runId key event rs) = key"
  "jr_position (nextRecord runId key event rs) = Suc (length rs)" "jr_runId (nextRecord runId key event rs) = runId"
  by (simp_all add: nextRecord_def)

locale in_run_journal =
  fixes journal :: "'j InRunJournalService" and valid :: "'j \<Rightarrow> bool"
  assumes read_unchanged: "ij_read journal runId j = (x, j') \<Longrightarrow> j' = j"
    and read_wellFormed: "valid j \<Longrightarrow> ij_read journal runId j = (Inr rs, j') \<Longrightarrow> wellFormedHistory runId rs"
    and append_refused: "ij_append journal runId key event j = (Inl e, j') \<Longrightarrow> j' = j"
    and append_valid: "valid j \<Longrightarrow> ij_append journal runId key event j = (x', j') \<Longrightarrow> valid j'"
    and append_accepted: "valid j \<Longrightarrow> ij_append journal runId key event j = (Inr r, j') \<Longrightarrow>
      \<exists>rs. ij_read journal runId j = (Inr rs, j) \<and>
        (j' = j \<and> r \<in> set rs \<and> jr_key r = key \<and> jr_event r = event \<or>
         key \<notin> jr_key ` set rs \<and> r = nextRecord runId key event rs \<and>
         ij_read journal runId j' = (Inr (rs @ [r]), j'))"
    and append_frame: "valid j \<Longrightarrow> ij_append journal runId key event j = (x', j') \<Longrightarrow> runId' \<noteq> runId \<Longrightarrow>
      fst (ij_read journal runId' j') = fst (ij_read journal runId' j)"
begin

lemma append_from_history:
  assumes "valid j" "ij_read journal runId j = (Inr rs, j)" "ij_append journal runId key event j = (Inr r, j')"
  obtains (existing) "j' = j" "r \<in> set rs" "jr_key r = key" "jr_event r = event"
  | (extended) "key \<notin> jr_key ` set rs" "r = nextRecord runId key event rs"
      "ij_read journal runId j' = (Inr (rs @ [nextRecord runId key event rs]), j')"
  using append_accepted [OF assms(1,3)] assms(2) by auto

text \<open>An accepted append is idempotent: its second execution returns the same record and changes nothing.\<close>

lemma append_durable:
  assumes "valid j" "ij_append journal runId key event j = (Inr r, j')"
  shows "\<exists>rs'. ij_read journal runId j' = (Inr rs', j') \<and> r \<in> set rs' \<and> jr_key r = key \<and> jr_event r = event"
  using append_accepted [OF assms] by auto

lemma append_read_prefix:
  assumes "valid j" "ij_read journal runId j = (Inr rs, j)" "ij_append journal runId key event j = (x, j')"
  shows "\<exists>rs'. ij_read journal runId j' = (Inr rs', j') \<and> prefix rs rs'"
proof (cases x)
  case (Inl e)
  with assms append_refused [of runId key event j e j'] show ?thesis by auto
next
  case (Inr r)
  with append_accepted [OF assms(1)] assms(2,3) show ?thesis by fastforce
qed

end

lemma memoryRead_live:
  assumes "storeWellFormed s" "decideMemoryCompletion rules s runId op = Inr (NoCompletion x)"
    "map_of (ms_coldRecordsByRun s) runId = None"
  shows "memoryRead rules s runId = Inr (runRecords s runId)"
  using assms(3) storeWellFormed_live [OF assms(1,2)]
  by (auto simp: memoryRead_def runRecords_def orElse_def split: option.splits)

lemma memoryRead_Inr:
  "storeWellFormed s \<Longrightarrow> memoryRead rules s runId = Inr rs \<Longrightarrow> rs = runRecords s runId"
  by (auto simp: memoryRead_def runRecords_def orElse_def readColdHistory_def
      split: option.splits if_splits sum.splits RunCompletionInspection.splits JournalPartitionHistoryDecision.splits)

lemma decideMemoryCompletion_cong:
  assumes "map_of (ms_completions s) runId = map_of (ms_completions s') runId"
    "map_of (ms_deletions s) runId = map_of (ms_deletions s') runId"
    "map_of (ms_coldRecordsByRun s) runId = map_of (ms_coldRecordsByRun s') runId"
    "map_of (ms_hotRecordsByRun s) runId = map_of (ms_hotRecordsByRun s') runId"
  shows "decideMemoryCompletion rules s runId op = decideMemoryCompletion rules s' runId op"
  by (simp only: decideMemoryCompletion_def runRecords_def assms)

lemma memoryRead_cong:
  assumes "decideMemoryCompletion rules s runId OpRead = decideMemoryCompletion rules s' runId OpRead"
    "map_of (ms_deletions s) runId = map_of (ms_deletions s') runId"
    "map_of (ms_coldRecordsByRun s) runId = map_of (ms_coldRecordsByRun s') runId"
    "map_of (ms_hotRecordsByRun s) runId = map_of (ms_hotRecordsByRun s') runId"
  shows "memoryRead rules s runId = memoryRead rules s' runId"
  by (simp only: memoryRead_def assms)

lemma memoryRead_frame:
  assumes "memoryAppendTransition rules s runId key event = (x, s')" "runId' \<noteq> runId"
  shows "memoryRead rules s' runId' = memoryRead rules s runId'"
  using assms(1)
proof (cases rule: memoryAppend_cases)
  case extended
  show ?thesis
    unfolding extended(2)
    by (rule memoryRead_cong, rule decideMemoryCompletion_cong) (simp_all add: map_simps assms(2))
qed simp_all

lemma memoryAppend_read:
  assumes wf: "storeWellFormed s" and ap: "memoryAppendTransition rules s runId key event = (Inr r, s')"
  shows "\<exists>rs. memoryRead rules s runId = Inr rs \<and>
        (s' = s \<and> r \<in> set rs \<and> jr_key r = key \<and> jr_event r = event \<or>
         key \<notin> jr_key ` set rs \<and> r = nextRecord runId key event rs \<and>
         memoryRead rules s' runId = Inr (rs @ [r]))"
  using ap
proof (cases rule: memoryAppend_cases)
  case (existing r')
  with memoryRead_live [OF wf existing(7,3)] show ?thesis by auto
next
  case extended
  have r: "r = nextRecord runId key event (runRecords s runId)" using extended(1) by (simp add: nextRecord_def)
  have "memoryRead rules s' runId = Inr (runRecords s runId @ [r])"
    using storeWellFormed_live [OF wf extended(6)] extended(1,3)
    by (auto simp: extended(2) memoryRead_def map_simps)
  with memoryRead_live [OF wf extended(6,3)] extended(4) r show ?thesis by blast
qed auto

lemma memoryAppend_refused: "memoryAppendTransition rules s runId key event = (Inl e, s') \<Longrightarrow> s' = s"
  by (auto elim: memoryAppend_cases)

interpretation memory: in_run_journal "memoryJournal rules" storeWellFormed for rules
  by unfold_locales
    (auto simp: memoryJournal_def dest: memoryRead_Inr memoryAppend_refused memoryAppend_read
      intro: storeWellFormed_append storeWellFormed_runRecords memoryRead_frame)

end
