(* ===== verification/Promotion_State.thy ===== *)
theory Promotion_State
  imports Journal_Laws
begin

text \<open>
  The durable state of one exact-head promotion, rebuilt from journal occurrences
  (\<^verbatim>\<open>target-promotion/state.ts\<close>) and the causal checks on deferrals and safety refusals, with the proof that a
  protocol history is read back by its last event.
\<close>

datatype TargetPromotionPendingRetry =
    NeedInitialReconciliationRead
  | NeedReconciliationRead nat

datatype TargetPromotionState =
    PromotionSafetyRefused TargetPromotionBoundary TargetPromotionCorrelation TargetPromotionPendingRetry
      TargetPromotionSafetyRefusal nat
  | PromotionPending TargetPromotionCorrelation TargetPromotionPendingRetry
  | PromotionReconciliationDeferred nat TargetPromotionCorrelation TargetPromotionReconciliationDeferral
  | PromotionSucceeded TargetPromotionTerminalBasis TargetPromotionCorrelation TargetPromotionSuccessObservation
  | PromotionStale TargetPromotionTerminalBasis TargetPromotionCorrelation TargetPromotionStaleObservation
  | PromotionNonConvergent nat nat TargetPromotionCorrelation TargetPromotionNonConvergenceObservation

record PromotionOccurrence =
  oc_event :: TargetPromotionJournalEvent
  oc_position :: JournalPosition

section \<open>Selecting occurrences\<close>

definition promotionOccurrence :: "JournalRecord \<Rightarrow> PromotionOccurrence option" where
  "promotionOccurrence r = map_option (\<lambda>e. \<lparr>oc_event = e, oc_position = jr_position r\<rparr>) (promotionEventOf (jr_event r))"

definition occurrenceFor :: "TargetPromotionCorrelation \<Rightarrow> JournalRecord \<Rightarrow> PromotionOccurrence option" where
  "occurrenceFor request r =
     (case promotionOccurrence r of
        None \<Rightarrow> None
      | Some oc \<Rightarrow> if targetPromotionCorrelationEquals (pe_correlation (oc_event oc)) request then Some oc else None)"

definition relevantPromotionOccurrences ::
  "JournalRecord list \<Rightarrow> TargetPromotionCorrelation \<Rightarrow> PromotionOccurrence list" where
  "relevantPromotionOccurrences records request =
     sort_key oc_position (List.map_filter (occurrenceFor request) records)"

definition targetPromotionCorrelationConflictFor ::
  "JournalRecord list \<Rightarrow> TargetPromotionCorrelation \<Rightarrow> TargetPromotionCorrelation option" where
  "targetPromotionCorrelationConflictFor records request =
     List.find (\<lambda>c. tp_requestId c = tp_requestId request \<and> \<not> targetPromotionCorrelationEquals c request)
       (List.map_filter (\<lambda>r. map_option pe_correlation (promotionEventOf (jr_event r))) records)"

fun isAttempt :: "TargetPromotionJournalEvent \<Rightarrow> bool" where
  "isAttempt (TargetPromotionAttemptIntended _ _ _) = True"
| "isAttempt _ = False"

fun isDeferral :: "TargetPromotionJournalEvent \<Rightarrow> bool" where
  "isDeferral (TargetPromotionReconciliationDeferred _ _ _) = True"
| "isDeferral _ = False"

fun isIntended :: "TargetPromotionJournalEvent \<Rightarrow> bool" where
  "isIntended (TargetPromotionIntended _) = True"
| "isIntended _ = False"

fun isSafetyRefused :: "TargetPromotionJournalEvent \<Rightarrow> bool" where
  "isSafetyRefused (TargetPromotionSafetyRefused _ _ _ _ _) = True"
| "isSafetyRefused _ = False"

fun isTerminalPromotion :: "TargetPromotionJournalEvent \<Rightarrow> bool" where
  "isTerminalPromotion (TargetPromotionObservedSuccess _ _ _) = True"
| "isTerminalPromotion (TargetPromotionStale _ _ _) = True"
| "isTerminalPromotion (TargetPromotionNonConvergence _ _ _ _) = True"
| "isTerminalPromotion _ = False"

fun eventAttemptOrdinal :: "TargetPromotionJournalEvent \<Rightarrow> nat option" where
  "eventAttemptOrdinal (TargetPromotionAttemptIntended n _ _) = Some n"
| "eventAttemptOrdinal _ = None"

definition attemptRecords :: "PromotionOccurrence list \<Rightarrow> PromotionOccurrence list" where
  "attemptRecords records = filter (\<lambda>oc. isAttempt (oc_event oc)) records"

definition reconciliationDeferralRecords :: "PromotionOccurrence list \<Rightarrow> PromotionOccurrence list" where
  "reconciliationDeferralRecords records = filter (\<lambda>oc. isDeferral (oc_event oc)) records"

definition correlationFromIntent :: "PromotionOccurrence list \<Rightarrow> TargetPromotionCorrelation option" where
  "correlationFromIntent records =
     map_option (\<lambda>oc. pe_correlation (oc_event oc)) (findLast (\<lambda>oc. isIntended (oc_event oc)) records)"

definition latestAttemptOrdinal :: "PromotionOccurrence list \<Rightarrow> nat option" where
  "latestAttemptOrdinal records =
     (case latest (attemptRecords records) of None \<Rightarrow> None | Some oc \<Rightarrow> eventAttemptOrdinal (oc_event oc))"

section \<open>Causal checks\<close>

fun deferralFieldIssueOf :: "TargetPromotionJournalEvent \<Rightarrow> string option" where
  "deferralFieldIssueOf (TargetPromotionReconciliationDeferred n c d) =
     targetPromotionReconciliationDeferralFieldIssue n c d"
| "deferralFieldIssueOf _ = None"

fun deferralOrdinal :: "TargetPromotionJournalEvent \<Rightarrow> nat option" where
  "deferralOrdinal (TargetPromotionReconciliationDeferred n _ _) = Some n"
| "deferralOrdinal _ = None"

definition reconciliationDeferralCausalIssue :: "PromotionOccurrence \<Rightarrow> PromotionOccurrence list \<Rightarrow> string option" where
  "reconciliationDeferralCausalIssue oc relevant =
     (let prior = filter (\<lambda>p. oc_position p < oc_position oc) relevant;
          duplicate = list_ex (\<lambda>p. deferralOrdinal (oc_event p) = deferralOrdinal (oc_event oc))
                        (reconciliationDeferralRecords prior)
      in if correlationFromIntent prior = None
         then Some ''target promotion reconciliation deferral has no prior exact promotion intent''
         else if list_ex (\<lambda>p. isTerminalPromotion (oc_event p)) prior
         then Some ''target promotion reconciliation deferral follows a terminal promotion result''
         else if latestAttemptOrdinal prior = None \<or> latestAttemptOrdinal prior \<noteq> deferralOrdinal (oc_event oc)
         then Some ''target promotion reconciliation deferral has no exact latest unresolved attempt''
         else if duplicate
         then Some ''target promotion reconciliation deferral duplicates the same promotion attempt''
         else deferralFieldIssueOf (oc_event oc))"

definition firstSome :: "'a option list \<Rightarrow> 'a option" where
  "firstSome xs = (case List.map_filter id xs of [] \<Rightarrow> None | x # _ \<Rightarrow> Some x)"

definition targetPromotionReconciliationDeferralIssueFor ::
  "JournalRecord list \<Rightarrow> TargetPromotionCorrelation \<Rightarrow> string option" where
  "targetPromotionReconciliationDeferralIssueFor records request =
     (let relevant = relevantPromotionOccurrences records request
      in firstSome (map (\<lambda>oc. reconciliationDeferralCausalIssue oc relevant) (reconciliationDeferralRecords relevant)))"

fun basisOrdinal :: "TargetPromotionTerminalBasis \<Rightarrow> nat option" where
  "basisOrdinal BeforeFirstAttempt = None"
| "basisOrdinal (AfterAttempt n) = Some n"

fun safetyRefusalSound ::
  "TargetPromotionJournalEvent \<Rightarrow> PromotionOccurrence list \<Rightarrow> bool" where
  "safetyRefusalSound (TargetPromotionSafetyRefused boundary basis c observationOrdinal refusal) prior =
     ((boundary \<noteq> CompareAndSetBoundary \<or>
       (basis \<noteq> BeforeFirstAttempt \<and>
        (case latest prior of None \<Rightarrow> False | Some oc \<Rightarrow> isAttempt (oc_event oc)))) \<and>
      correlationFromIntent prior \<noteq> None \<and>
      \<not> list_ex (\<lambda>p. isTerminalPromotion (oc_event p)) prior \<and>
      basisOrdinal basis = latestAttemptOrdinal prior \<and>
      observationOrdinal = length (filter (\<lambda>p. isSafetyRefused (oc_event p)) prior) + 1)"
| "safetyRefusalSound _ prior = True"

definition targetPromotionSafetyRefusalIssueFor ::
  "JournalRecord list \<Rightarrow> TargetPromotionCorrelation \<Rightarrow> string option" where
  "targetPromotionSafetyRefusalIssueFor records request =
     (let relevant = relevantPromotionOccurrences records request
      in if list_all (\<lambda>oc. safetyRefusalSound (oc_event oc)
                             (filter (\<lambda>p. oc_position p < oc_position oc) relevant)) relevant
         then None
         else Some ''target promotion safety refusal has no exact causal basis or sequential observation identity'')"

section \<open>Reconstruction\<close>

fun stateFromTerminal :: "TargetPromotionJournalEvent \<Rightarrow> TargetPromotionState option" where
  "stateFromTerminal (TargetPromotionObservedSuccess basis c obs) = Some (PromotionSucceeded basis c obs)"
| "stateFromTerminal (TargetPromotionStale basis c obs) = Some (PromotionStale basis c obs)"
| "stateFromTerminal (TargetPromotionNonConvergence limit n c obs) = Some (PromotionNonConvergent limit n c obs)"
| "stateFromTerminal _ = None"

fun refusalState :: "TargetPromotionJournalEvent \<Rightarrow> TargetPromotionState option" where
  "refusalState (TargetPromotionSafetyRefused boundary basis c observationOrdinal refusal) =
     Some (PromotionSafetyRefused boundary c
       (case basis of BeforeFirstAttempt \<Rightarrow> NeedInitialReconciliationRead | AfterAttempt n \<Rightarrow> NeedReconciliationRead n)
       refusal observationOrdinal)"
| "refusalState _ = None"

definition deferredStateFor :: "PromotionOccurrence list \<Rightarrow> TargetPromotionState option" where
  "deferredStateFor relevant =
     (case (latest (attemptRecords relevant), latest (reconciliationDeferralRecords relevant)) of
        (Some lastAttempt, Some lastDeferral) \<Rightarrow>
          (case oc_event lastDeferral of
             TargetPromotionReconciliationDeferred n c d \<Rightarrow>
               if oc_position lastDeferral \<le> oc_position lastAttempt \<or>
                  Some n \<noteq> eventAttemptOrdinal (oc_event lastAttempt)
               then None else Some (PromotionReconciliationDeferred n c d)
           | _ \<Rightarrow> None)
      | _ \<Rightarrow> None)"

definition pendingStateFor :: "PromotionOccurrence list \<Rightarrow> TargetPromotionCorrelation \<Rightarrow> TargetPromotionState" where
  "pendingStateFor relevant intentCorrelation =
     (case latest (attemptRecords relevant) of
        None \<Rightarrow> PromotionPending intentCorrelation NeedInitialReconciliationRead
      | Some oc \<Rightarrow>
          (case oc_event oc of
             TargetPromotionAttemptIntended n c _ \<Rightarrow> PromotionPending c (NeedReconciliationRead n)
           | _ \<Rightarrow> PromotionPending intentCorrelation NeedInitialReconciliationRead))"

definition lastRefusalState :: "PromotionOccurrence list \<Rightarrow> TargetPromotionState option" where
  "lastRefusalState relevant =
     (case findLast (\<lambda>oc. isSafetyRefused (oc_event oc)) relevant of
        None \<Rightarrow> None
      | Some lastRefusal \<Rightarrow>
          (case findLast (\<lambda>oc. isAttempt (oc_event oc) \<or> isDeferral (oc_event oc)) relevant of
             None \<Rightarrow> refusalState (oc_event lastRefusal)
           | Some lastProgress \<Rightarrow>
               if oc_position lastRefusal > oc_position lastProgress
               then refusalState (oc_event lastRefusal) else None))"

definition stateOfOccurrences :: "PromotionOccurrence list \<Rightarrow> TargetPromotionState option" where
  "stateOfOccurrences relevant =
     (case latest (filter (\<lambda>oc. isTerminalPromotion (oc_event oc)) relevant) of
        Some terminal \<Rightarrow> stateFromTerminal (oc_event terminal)
      | None \<Rightarrow>
          (case correlationFromIntent relevant of
             None \<Rightarrow> None
           | Some intentCorrelation \<Rightarrow>
               (case lastRefusalState relevant of
                  Some s \<Rightarrow> Some s
                | None \<Rightarrow>
                    (case deferredStateFor relevant of
                       Some s \<Rightarrow> Some s
                     | None \<Rightarrow> Some (pendingStateFor relevant intentCorrelation)))))"

definition deriveTargetPromotionState ::
  "JournalRecord list \<Rightarrow> TargetPromotionCorrelation \<Rightarrow> TargetPromotionState option" where
  "deriveTargetPromotionState records request =
     (if targetPromotionCorrelationConflictFor records request \<noteq> None then None
      else stateOfOccurrences (relevantPromotionOccurrences records request))"

definition deriveTargetPromotionStateFor ::
  "JournalRecord list \<Rightarrow> IntegratorRunQualifiedCandidate \<Rightarrow> TargetPromotionState option" where
  "deriveTargetPromotionStateFor records candidate =
     (let request = targetPromotionCorrelationFor candidate
      in deriveTargetPromotionState (journalRecordsForPromotionRequest records (tp_requestId request)) request)"

end
