(* ===== verification/Promotion_Decisions.thy ===== *)
theory Promotion_Decisions
  imports Promotion_State
begin

text \<open>
  The pure transition decisions of the promotion protocol
  (\<^verbatim>\<open>target-promotion/transition-decisions.ts\<close>): which durable state an authorization
  still matches, and what one Git answer means.
\<close>

datatype PromotionAuthority = ReadOnly | RetryAuthorized

datatype PromotionDurableBasis = DeferredRetryAuthority | DeferredTargetReadFailed | PendingAttempt | PendingInitial

record TargetPromotionReadBasis =
  ra_authority :: PromotionAuthority
  ra_correlation :: TargetPromotionCorrelation
  ra_durableBasis :: PromotionDurableBasis
  ra_previousAttemptOrdinal :: "nat option"

record TargetPromotionAttemptBasis =
  aa_attemptOrdinal :: nat
  aa_correlation :: TargetPromotionCorrelation
  aa_durableBasis :: PromotionDurableBasis
  aa_reason :: TargetPromotionAttemptReason

datatype TargetPromotionReadDecision =
    AttemptAuthorized nat PromotionDurableBasis TargetPromotionAttemptReason
  | NonConvergent nat TargetPromotionNonConvergenceObservation
  | PropagateFailure TargetPromotionGitReadFailure
  | ReconciliationDeferred nat TargetPromotionReconciliationDeferral
  | ReadResultContradiction string
  | ReadStale TargetPromotionTerminalBasis TargetPromotionStaleObservation
  | ReadSucceeded TargetPromotionTerminalBasis TargetPromotionSuccessObservation

datatype TargetPromotionSettlementDecision =
    SettlementResultContradiction string
  | SettlementStale TargetPromotionStaleObservation
  | SettlementSucceeded TargetPromotionSuccessObservation

section \<open>Does the durable state still match?\<close>

fun retryOf :: "TargetPromotionState option \<Rightarrow> TargetPromotionPendingRetry option" where
  "retryOf (Some (PromotionPending _ retry)) = Some retry"
| "retryOf (Some (PromotionSafetyRefused _ _ retry _ _)) = Some retry"
| "retryOf _ = None"

definition pendingInitialReadMatches :: "TargetPromotionState option \<Rightarrow> bool" where
  "pendingInitialReadMatches state \<longleftrightarrow> retryOf state = Some NeedInitialReconciliationRead"

definition pendingAttemptReadMatches ::
  "'m TargetPromotionReadBasis_scheme \<Rightarrow> TargetPromotionState option \<Rightarrow> bool" where
  "pendingAttemptReadMatches basis state \<longleftrightarrow>
     (case retryOf state of
        Some (NeedReconciliationRead n) \<Rightarrow> Some n = ra_previousAttemptOrdinal basis
      | _ \<Rightarrow> False)"

definition deferredReadMatches ::
  "'m TargetPromotionReadBasis_scheme \<Rightarrow> TargetPromotionState option \<Rightarrow> bool" where
  "deferredReadMatches basis state \<longleftrightarrow>
     (case state of
        Some (PromotionReconciliationDeferred n _ (TargetReadFailed _)) \<Rightarrow> Some n = ra_previousAttemptOrdinal basis
      | _ \<Rightarrow> False)"

definition targetPromotionReadBasisMatches ::
  "'m TargetPromotionReadBasis_scheme \<Rightarrow> TargetPromotionState option \<Rightarrow> bool" where
  "targetPromotionReadBasisMatches basis state =
     (if ra_durableBasis basis = PendingInitial then pendingInitialReadMatches state
      else if ra_durableBasis basis = PendingAttempt then pendingAttemptReadMatches basis state
      else deferredReadMatches basis state)"

definition pendingInitialAttemptMatches ::
  "'m TargetPromotionAttemptBasis_scheme \<Rightarrow> TargetPromotionState option \<Rightarrow> bool" where
  "pendingInitialAttemptMatches basis state \<longleftrightarrow>
     aa_attemptOrdinal basis = 1 \<and> retryOf state = Some NeedInitialReconciliationRead"

definition pendingAttemptMatches ::
  "'m TargetPromotionAttemptBasis_scheme \<Rightarrow> TargetPromotionState option \<Rightarrow> bool" where
  "pendingAttemptMatches basis state \<longleftrightarrow>
     (case retryOf state of
        Some (NeedReconciliationRead n) \<Rightarrow> int n = int (aa_attemptOrdinal basis) - 1
      | _ \<Rightarrow> False)"

definition isRetryAuthorityRequired :: "TargetPromotionReconciliationDeferral \<Rightarrow> bool" where
  "isRetryAuthorityRequired d = (case d of RetryAuthorityRequired _ \<Rightarrow> True | _ \<Rightarrow> False)"

definition deferredAttemptMatches ::
  "'m TargetPromotionAttemptBasis_scheme \<Rightarrow> TargetPromotionState option \<Rightarrow> bool \<Rightarrow> bool" where
  "deferredAttemptMatches basis state retryAuthority \<longleftrightarrow>
     (case state of
        Some (PromotionReconciliationDeferred n _ d) \<Rightarrow>
          int n = int (aa_attemptOrdinal basis) - 1 \<and> isRetryAuthorityRequired d = retryAuthority
      | _ \<Rightarrow> False)"

fun targetPromotionAttemptBasisMatches ::
  "'m TargetPromotionAttemptBasis_scheme \<Rightarrow> TargetPromotionState option \<Rightarrow> bool" where
  "targetPromotionAttemptBasisMatches basis state =
     (case aa_durableBasis basis of
        PendingInitial \<Rightarrow> pendingInitialAttemptMatches basis state
      | PendingAttempt \<Rightarrow> pendingAttemptMatches basis state
      | DeferredRetryAuthority \<Rightarrow> deferredAttemptMatches basis state True
      | DeferredTargetReadFailed \<Rightarrow> deferredAttemptMatches basis state False)"

section \<open>What does the answer mean?\<close>

definition decideFailedTargetPromotionRead ::
  "'m TargetPromotionReadBasis_scheme \<Rightarrow> TargetPromotionGitReadFailure \<Rightarrow> TargetPromotionReadDecision" where
  "decideFailedTargetPromotionRead basis failure =
     (case ra_previousAttemptOrdinal basis of
        None \<Rightarrow> PropagateFailure failure
      | Some previousAttemptOrdinal \<Rightarrow>
          if ra_authority basis = ReadOnly \<and> previousAttemptOrdinal \<noteq> targetPromotionAttemptLimit
          then ReconciliationDeferred previousAttemptOrdinal (TargetReadFailed (rf_detail failure))
          else if previousAttemptOrdinal = targetPromotionAttemptLimit
          then NonConvergent previousAttemptOrdinal (NonConvergentTargetReadFailed (rf_detail failure))
          else PropagateFailure failure)"

definition decideExpectedHeadRead ::
  "'m TargetPromotionReadBasis_scheme \<Rightarrow> GitCommitSha \<Rightarrow> TargetPromotionReadDecision" where
  "decideExpectedHeadRead basis observedHeadSha =
     (case ra_previousAttemptOrdinal basis of
        None \<Rightarrow> AttemptAuthorized 1 (ra_durableBasis basis) (Initial observedHeadSha)
      | Some previousAttemptOrdinal \<Rightarrow>
          if previousAttemptOrdinal = targetPromotionAttemptLimit
          then NonConvergent previousAttemptOrdinal (ExpectedHeadStillObserved observedHeadSha)
          else if ra_authority basis = ReadOnly
          then ReconciliationDeferred previousAttemptOrdinal (RetryAuthorityRequired observedHeadSha)
          else AttemptAuthorized (previousAttemptOrdinal + 1) (ra_durableBasis basis)
                 (ReconciledExpectedHead observedHeadSha previousAttemptOrdinal))"

definition terminalBasisFor :: "nat option \<Rightarrow> TargetPromotionTerminalBasis" where
  "terminalBasisFor previous = (case previous of None \<Rightarrow> BeforeFirstAttempt | Some n \<Rightarrow> AfterAttempt n)"

definition decideSuccessfulTargetPromotionRead ::
  "'m TargetPromotionReadBasis_scheme \<Rightarrow> TargetPromotionGitReadObservation \<Rightarrow> TargetPromotionReadDecision" where
  "decideSuccessfulTargetPromotionRead basis observation =
     (let request = targetPromotionGitRequestFor (ra_correlation basis) in
      case readObservationContradiction request observation of
        Some detail \<Rightarrow> ReadResultContradiction detail
      | None \<Rightarrow>
          (case successObservationForRead observation of
             Some success \<Rightarrow> ReadSucceeded (terminalBasisFor (ra_previousAttemptOrdinal basis)) success
           | None \<Rightarrow>
               if currentHeadSha observation = gr_expectedTargetHead request
               then decideExpectedHeadRead basis (currentHeadSha observation)
               else ReadStale (terminalBasisFor (ra_previousAttemptOrdinal basis))
                      (ReconciledCandidateNotInAncestry (currentHeadSha observation))))"

fun decideTargetPromotionSettlement ::
  "TargetPromotionCorrelation \<Rightarrow> TargetPromotionCompareAndSetResult \<Rightarrow> TargetPromotionSettlementDecision" where
  "decideTargetPromotionSettlement correlation (Applied newHeadSha) =
     (if newHeadSha = targetPromotionCandidateCommitOf correlation
      then SettlementSucceeded (CompareAndSetApplied newHeadSha)
      else SettlementResultContradiction
             (''Git reported '' @ newHeadSha @ '' after requesting '' @ targetPromotionCandidateCommitOf correlation))"
| "decideTargetPromotionSettlement correlation (RejectedExpectedHead observedHeadSha) =
     (if observedHeadSha = targetPromotionCandidateCommitOf correlation
      then SettlementSucceeded (ReconciledCandidateCurrent observedHeadSha)
      else if observedHeadSha = targetPromotionExpectedHeadOf correlation
      then SettlementResultContradiction ''Git rejected the compare-and-set while reporting the exact expected head''
      else SettlementStale (CompareAndSetRejected observedHeadSha))"

end
