(* ===== verification/Promotion_History.thy ===== *)
theory Promotion_History
  imports Promotion_Decisions
begin

text \<open>
  The histories the promotion protocol writes, as an \<open>inductive\<close> grammar over its events, and
  what reconstruction makes of them: the validators accept them, the reconstructed state is the
  state of the last event, attempts are numbered \<open>1, 2, 3\<close> without gaps.
\<close>

section \<open>Occurrences of a well-formed history\<close>

lemma occurrenceFor_Some [simp]:
  "occurrenceFor c r = Some oc \<longleftrightarrow>
     (\<exists>e. jr_event r = TargetPromotionEvent e \<and> pe_correlation e = c \<and> oc = \<lparr>oc_event = e, oc_position = jr_position r\<rparr>)"
  by (auto simp: occurrenceFor_def promotionOccurrence_def split: option.splits)

lemma map_filter_occurrence_sorted:
  "sorted (map jr_position rs) \<Longrightarrow> sorted (map oc_position (List.map_filter (occurrenceFor c) rs))"
proof (induction rs)
  case (Cons r rs)
  then show ?case
    by (auto simp: set_map_filter_conv split: option.splits)
qed simp

lemma relevant_wellFormed:
  "wellFormedHistory runId rs \<Longrightarrow> relevantPromotionOccurrences rs c = List.map_filter (occurrenceFor c) rs"
  unfolding relevantPromotionOccurrences_def
  by (rule sort_key_id) (rule map_filter_occurrence_sorted [OF wellFormedHistory_sorted])

lemma relevant_positions:
  "wellFormedHistory runId rs \<Longrightarrow> oc \<in> set (relevantPromotionOccurrences rs c) \<Longrightarrow> oc_position oc \<le> length rs"
  by (auto simp: relevant_wellFormed set_map_filter_conv dest: wellFormedHistory_position_le)

lemma relevant_snoc_own:
  assumes "wellFormedHistory runId (rs @ [r])" "jr_event r = TargetPromotionEvent e" "pe_correlation e = c"
  shows "relevantPromotionOccurrences (rs @ [r]) c =
           relevantPromotionOccurrences rs c @ [\<lparr>oc_event = e, oc_position = jr_position r\<rparr>]"
proof -
  from assms(1) have wf: "wellFormedHistory runId rs" by (simp add: wellFormedHistory_snoc)
  have "occurrenceFor c r = Some \<lparr>oc_event = e, oc_position = jr_position r\<rparr>" using assms(2,3) by simp
  then show ?thesis
    by (simp add: relevant_wellFormed [OF wf] relevant_wellFormed [OF assms(1)] del: occurrenceFor_Some)
qed

lemma relevant_snoc_other:
  assumes "wellFormedHistory runId (rs @ [r])" "occurrenceFor c r = None"
  shows "relevantPromotionOccurrences (rs @ [r]) c = relevantPromotionOccurrences rs c"
proof -
  from assms(1) have wf: "wellFormedHistory runId rs" by (simp add: wellFormedHistory_snoc)
  show ?thesis using assms(2) by (simp add: relevant_wellFormed [OF wf] relevant_wellFormed [OF assms(1)])
qed

definition promotionEvents :: "JournalRecord list \<Rightarrow> TargetPromotionCorrelation \<Rightarrow> TargetPromotionJournalEvent list" where
  "promotionEvents rs c = map oc_event (relevantPromotionOccurrences rs c)"

text \<open>Filtering a history by the request identity, as the protocol does, loses none of its own occurrences.\<close>

lemma map_filter_filter: 
  assumes "\<And>x y. f x = Some y \<Longrightarrow> P x"
  shows "List.map_filter f (filter P xs) = List.map_filter f xs"
proof (induction xs)
  case (Cons x xs)
  with assms show ?case by (cases "f x") auto
qed simp

lemma relevant_for_request [simp]:
  "relevantPromotionOccurrences (journalRecordsForPromotionRequest rs (tp_requestId c)) c =
   relevantPromotionOccurrences rs c"
  unfolding relevantPromotionOccurrences_def journalRecordsForPromotionRequest_def
  by (subst map_filter_filter) auto

lemma conflict_None_iff:
  "targetPromotionCorrelationConflictFor rs c = None \<longleftrightarrow>
     (\<forall>r\<in>set rs. \<forall>e. jr_event r = TargetPromotionEvent e \<longrightarrow>
        tp_requestId (pe_correlation e) = tp_requestId c \<longrightarrow> pe_correlation e = c)"
  unfolding targetPromotionCorrelationConflictFor_def find_eq_None_iff set_map_filter_conv by force

lemma conflict_for_request [simp]:
  "targetPromotionCorrelationConflictFor (journalRecordsForPromotionRequest rs (tp_requestId c)) c = None \<longleftrightarrow>
   targetPromotionCorrelationConflictFor rs c = None"
  by (auto simp: conflict_None_iff journalRecordsForPromotionRequest_def)

lemma derive_for_request:
  "deriveTargetPromotionState (journalRecordsForPromotionRequest rs (tp_requestId c)) c = deriveTargetPromotionState rs c"
  by (simp add: deriveTargetPromotionState_def)

lemma conflict_snoc:
  assumes "targetPromotionCorrelationConflictFor rs c = None"
    "\<And>e. jr_event r = TargetPromotionEvent e \<Longrightarrow> pe_correlation e = c"
  shows "targetPromotionCorrelationConflictFor (rs @ [r]) c = None"
  using assms by (auto simp: conflict_None_iff)

section \<open>The grammar\<close>

definition attemptCount :: "TargetPromotionJournalEvent list \<Rightarrow> nat" where
  "attemptCount es = length (filter isAttempt es)"

definition lastOrdinal :: "TargetPromotionJournalEvent list \<Rightarrow> nat option" where
  "lastOrdinal es = (if attemptCount es = 0 then None else Some (attemptCount es))"

definition attemptReasonFor :: "TargetPromotionCorrelation \<Rightarrow> nat \<Rightarrow> TargetPromotionAttemptReason" where
  "attemptReasonFor c n = (if n = 1 then Initial (targetPromotionExpectedHeadOf c)
     else ReconciledExpectedHead (targetPromotionExpectedHeadOf c) (n - 1))"

inductive promotion_history :: "TargetPromotionCorrelation \<Rightarrow> TargetPromotionJournalEvent list \<Rightarrow> bool" for c where
  empty: "promotion_history c []"
| intended: "promotion_history c [TargetPromotionIntended c]"
| attempt: "promotion_history c es \<Longrightarrow> es \<noteq> [] \<Longrightarrow> \<not> isTerminalPromotion (last es) \<Longrightarrow>
    n = attemptCount es + 1 \<Longrightarrow> n \<le> targetPromotionAttemptLimit \<Longrightarrow> reason = attemptReasonFor c n \<Longrightarrow>
    promotion_history c (es @ [TargetPromotionAttemptIntended n c reason])"
| deferred: "promotion_history c es \<Longrightarrow> es \<noteq> [] \<Longrightarrow> \<not> isTerminalPromotion (last es) \<Longrightarrow>
    lastOrdinal es = Some n \<Longrightarrow> \<forall>e\<in>set es. deferralOrdinal e \<noteq> Some n \<Longrightarrow>
    targetPromotionReconciliationDeferralFieldIssue n c d = None \<Longrightarrow>
    promotion_history c (es @ [TargetPromotionReconciliationDeferred n c d])"
| refused: "promotion_history c es \<Longrightarrow> es \<noteq> [] \<Longrightarrow> \<not> isTerminalPromotion (last es) \<Longrightarrow>
    basisOrdinal basis = lastOrdinal es \<Longrightarrow> k = length (filter isSafetyRefused es) + 1 \<Longrightarrow>
    (boundary = CompareAndSetBoundary \<Longrightarrow> isAttempt (last es)) \<Longrightarrow>
    promotion_history c (es @ [TargetPromotionSafetyRefused boundary basis c k refusal])"
| succeeded: "promotion_history c es \<Longrightarrow> es \<noteq> [] \<Longrightarrow> \<not> isTerminalPromotion (last es) \<Longrightarrow>
    basisOrdinal basis = lastOrdinal es \<Longrightarrow>
    promotion_history c (es @ [TargetPromotionObservedSuccess basis c obs])"
| stale: "promotion_history c es \<Longrightarrow> es \<noteq> [] \<Longrightarrow> \<not> isTerminalPromotion (last es) \<Longrightarrow>
    basisOrdinal basis = lastOrdinal es \<Longrightarrow>
    promotion_history c (es @ [TargetPromotionStale basis c sobs])"
| nonconvergent: "promotion_history c es \<Longrightarrow> es \<noteq> [] \<Longrightarrow> \<not> isTerminalPromotion (last es) \<Longrightarrow>
    attemptCount es = targetPromotionAttemptLimit \<Longrightarrow>
    promotion_history c (es @ [TargetPromotionNonConvergence targetPromotionAttemptLimit targetPromotionAttemptLimit c nobs])"

fun stateOfEvent :: "TargetPromotionJournalEvent \<Rightarrow> TargetPromotionState" where
  "stateOfEvent (TargetPromotionIntended c) = PromotionPending c NeedInitialReconciliationRead"
| "stateOfEvent (TargetPromotionAttemptIntended n c _) = PromotionPending c (NeedReconciliationRead n)"
| "stateOfEvent (TargetPromotionReconciliationDeferred n c d) = PromotionReconciliationDeferred n c d"
| "stateOfEvent (TargetPromotionSafetyRefused boundary basis c k refusal) =
     PromotionSafetyRefused boundary c
       (case basis of BeforeFirstAttempt \<Rightarrow> NeedInitialReconciliationRead | AfterAttempt n \<Rightarrow> NeedReconciliationRead n)
       refusal k"
| "stateOfEvent (TargetPromotionObservedSuccess basis c obs) = PromotionSucceeded basis c obs"
| "stateOfEvent (TargetPromotionStale basis c obs) = PromotionStale basis c obs"
| "stateOfEvent (TargetPromotionNonConvergence limit n c obs) = PromotionNonConvergent limit n c obs"

lemma attemptCount_snoc [simp]:
  "attemptCount [] = 0" "attemptCount (es @ [e]) = attemptCount es + (if isAttempt e then 1 else 0)"
  by (simp_all add: attemptCount_def)

lemma attemptCount_singleton [simp]: "attemptCount [e] = (if isAttempt e then 1 else 0)"
  by (simp add: attemptCount_def)

lemma promotion_history_correlation: "promotion_history c es \<Longrightarrow> e \<in> set es \<Longrightarrow> pe_correlation e = c"
  by (induction arbitrary: e rule: promotion_history.induct) auto

lemma promotion_history_limit: "promotion_history c es \<Longrightarrow> attemptCount es \<le> targetPromotionAttemptLimit"
  by (induction rule: promotion_history.induct) auto

lemma promotion_history_ordinals:
  "promotion_history c es \<Longrightarrow> List.map_filter eventAttemptOrdinal es = [1..<Suc (attemptCount es)]"
  by (induction rule: promotion_history.induct) auto

lemma promotion_history_intended: "promotion_history c es \<Longrightarrow> es \<noteq> [] \<Longrightarrow> hd es = TargetPromotionIntended c"
  by (induction rule: promotion_history.induct) auto

lemma promotion_history_not_terminal:
  "promotion_history c es \<Longrightarrow> es = [] \<or> \<not> isTerminalPromotion (last es) \<Longrightarrow> \<forall>e\<in>set es. \<not> isTerminalPromotion e"
  by (induction rule: promotion_history.induct) auto


section \<open>Reconstruction reads the last event\<close>

lemma isTerminal_stateFromTerminal:
  "isTerminalPromotion e \<Longrightarrow> stateFromTerminal e = Some (stateOfEvent e)"
  by (cases e) auto

lemma isSafetyRefused_refusalState: "isSafetyRefused e \<Longrightarrow> refusalState e = Some (stateOfEvent e)"
  by (cases e) auto

lemma state_snoc_terminal:
  "isTerminalPromotion (oc_event oc) \<Longrightarrow> stateOfOccurrences (ocs @ [oc]) = Some (stateOfEvent (oc_event oc))"
  by (simp add: stateOfOccurrences_def isTerminal_stateFromTerminal)

lemma filter_terminal_Nil: "\<forall>oc\<in>set ocs. \<not> isTerminalPromotion (oc_event oc) \<Longrightarrow>
    filter (\<lambda>oc. isTerminalPromotion (oc_event oc)) ocs = []"
  by simp

lemma state_snoc_live:
  assumes before: "\<forall>p\<in>set ocs. oc_position p < oc_position oc"
    and live: "\<forall>p\<in>set ocs. \<not> isTerminalPromotion (oc_event p)"
    and intent: "correlationFromIntent ocs = Some c"
  shows "isAttempt (oc_event oc) \<Longrightarrow> stateOfOccurrences (ocs @ [oc]) = Some (stateOfEvent (oc_event oc))"
    and "isSafetyRefused (oc_event oc) \<Longrightarrow> stateOfOccurrences (ocs @ [oc]) = Some (stateOfEvent (oc_event oc))"
    and "isDeferral (oc_event oc) \<Longrightarrow> latestAttemptOrdinal ocs = deferralOrdinal (oc_event oc) \<Longrightarrow>
           stateOfOccurrences (ocs @ [oc]) = Some (stateOfEvent (oc_event oc))"
proof -
  have earlier: "oc_position p < oc_position oc" if "findLast P ocs = Some p" for P p
    using that before by (auto dest: findLast_SomeD)
  have earlierAttempt: "oc_position p < oc_position oc" if "latest (filter P ocs) = Some p" for P p
    using that before by (auto dest: latest_SomeD)
  note nt = filter_terminal_Nil [OF live]
  {
    assume a: "isAttempt (oc_event oc)"
    then obtain n c' r where e: "oc_event oc = TargetPromotionAttemptIntended n c' r"
      by (cases "oc_event oc") auto
    have "lastRefusalState (ocs @ [oc]) = None"
      using a e by (auto simp: lastRefusalState_def split: option.splits dest: earlier)
    moreover have "deferredStateFor (ocs @ [oc]) = None"
      using e by (auto simp: deferredStateFor_def attemptRecords_def reconciliationDeferralRecords_def
          split: option.splits TargetPromotionJournalEvent.splits dest: earlierAttempt)
    ultimately show "stateOfOccurrences (ocs @ [oc]) = Some (stateOfEvent (oc_event oc))"
      using nt intent e
      by (auto simp: stateOfOccurrences_def correlationFromIntent_def pendingStateFor_def attemptRecords_def)
  next
    assume a: "isSafetyRefused (oc_event oc)"
    then obtain b bs c' k r where e: "oc_event oc = TargetPromotionSafetyRefused b bs c' k r"
      by (cases "oc_event oc") auto
    have "lastRefusalState (ocs @ [oc]) = Some (stateOfEvent (oc_event oc))"
      using e by (auto simp: lastRefusalState_def split: option.splits dest: earlier)
    then show "stateOfOccurrences (ocs @ [oc]) = Some (stateOfEvent (oc_event oc))"
      using nt intent e by (auto simp: stateOfOccurrences_def correlationFromIntent_def)
  next
    assume a: "isDeferral (oc_event oc)" and o: "latestAttemptOrdinal ocs = deferralOrdinal (oc_event oc)"
    then obtain n c' d where e: "oc_event oc = TargetPromotionReconciliationDeferred n c' d"
      by (cases "oc_event oc") auto
    have "lastRefusalState (ocs @ [oc]) = None"
      using a e by (auto simp: lastRefusalState_def split: option.splits dest: earlier)
    moreover have "deferredStateFor (ocs @ [oc]) = Some (stateOfEvent (oc_event oc))"
      using e o by (auto simp: deferredStateFor_def latestAttemptOrdinal_def attemptRecords_def
          reconciliationDeferralRecords_def split: option.splits dest: earlierAttempt)
    ultimately show "stateOfOccurrences (ocs @ [oc]) = Some (stateOfEvent (oc_event oc))"
      using nt intent e by (auto simp: stateOfOccurrences_def correlationFromIntent_def)
  }
qed

lemma latestAttemptOrdinal_conv:
  "latestAttemptOrdinal ocs = latest (List.map_filter eventAttemptOrdinal (map oc_event ocs))"
proof (induction ocs rule: rev_induct)
  case (snoc oc ocs)
  then show ?case
    by (cases "oc_event oc") (auto simp: latestAttemptOrdinal_def attemptRecords_def)
qed (simp add: latestAttemptOrdinal_def attemptRecords_def)

lemma promotion_history_latestAttempt:
  assumes "promotion_history c es" "map oc_event ocs = es"
  shows "latestAttemptOrdinal ocs = lastOrdinal es"
  using promotion_history_ordinals [OF assms(1)] assms(2)
  by (auto simp: latestAttemptOrdinal_conv lastOrdinal_def latest_def)

lemma promotion_history_intent:
  assumes "promotion_history c es" "map oc_event ocs = es" "es \<noteq> []"
  shows "correlationFromIntent ocs = Some c"
proof -
  from promotion_history_intended [OF assms(1,3)] assms(2,3)
  have "\<exists>p\<in>set ocs. isIntended (oc_event p)" by (cases ocs) auto
  then obtain p where p: "findLast (\<lambda>oc. isIntended (oc_event oc)) ocs = Some p"
    by (cases "findLast (\<lambda>oc. isIntended (oc_event oc)) ocs") (auto simp: findLast_None_iff)
  then have "p \<in> set ocs" by (auto dest: findLast_SomeD)
  with assms promotion_history_correlation [OF assms(1)] p show ?thesis
    by (auto simp: correlationFromIntent_def)
qed

text \<open>Positions that increase along the list: what a well-formed journal gives every correlation.\<close>

definition increasing :: "PromotionOccurrence list \<Rightarrow> bool" where
  "increasing ocs \<longleftrightarrow> sorted_wrt (<) (map oc_position ocs)"

lemma increasing_Nil [simp]: "increasing []"
  by (simp add: increasing_def)

lemma increasing_snoc [simp]:
  "increasing (ocs @ [oc]) \<longleftrightarrow> increasing ocs \<and> (\<forall>p\<in>set ocs. oc_position p < oc_position oc)"
  by (simp add: increasing_def sorted_wrt_append)

lemma promotion_history_live:
  assumes "promotion_history c es" "es \<noteq> []" "\<not> isTerminalPromotion (last es)" "map oc_event ocs = es"
  shows "\<forall>p\<in>set ocs. \<not> isTerminalPromotion (oc_event p)" "correlationFromIntent ocs = Some c"
    "latestAttemptOrdinal ocs = lastOrdinal es"
  using promotion_history_not_terminal [OF assms(1)] promotion_history_intent [OF assms(1,4,2)]
    promotion_history_latestAttempt [OF assms(1,4)] assms(3,4) by auto

lemma promotion_history_snoc_state:
  assumes h: "promotion_history c (es @ [e])" and m: "map oc_event ocs = es" and oc: "oc_event oc = e"
    and inc: "\<forall>p\<in>set ocs. oc_position p < oc_position oc"
  shows "stateOfOccurrences (ocs @ [oc]) = Some (stateOfEvent e)"
  using h
proof (cases rule: promotion_history.cases)
  case intended
  then have "ocs = []" "e = TargetPromotionIntended c" using m by auto
  with oc show ?thesis
    by (simp add: stateOfOccurrences_def correlationFromIntent_def lastRefusalState_def deferredStateFor_def
        pendingStateFor_def attemptRecords_def findLast_def latest_def)
next
  case (attempt es' n reason)
  then have "promotion_history c es" "es \<noteq> []" "\<not> isTerminalPromotion (last es)" "isAttempt e" by simp_all
  with state_snoc_live(1) [OF inc] promotion_history_live [OF _ _ _ m] oc show ?thesis by metis
next
  case (deferred es' n d)
  then have "promotion_history c es" "es \<noteq> []" "\<not> isTerminalPromotion (last es)" "isDeferral e"
    "lastOrdinal es = deferralOrdinal e" by simp_all
  with state_snoc_live(3) [OF inc] promotion_history_live [OF _ _ _ m] oc show ?thesis by metis
next
  case (refused es' basis k boundary refusal)
  then have "promotion_history c es" "es \<noteq> []" "\<not> isTerminalPromotion (last es)" "isSafetyRefused e" by simp_all
  with state_snoc_live(2) [OF inc] promotion_history_live [OF _ _ _ m] oc show ?thesis by metis
qed (use oc state_snoc_terminal [of oc ocs] in auto)

lemma promotion_history_state:
  assumes "promotion_history c es" "map oc_event ocs = es" "increasing ocs"
  shows "stateOfOccurrences ocs = map_option stateOfEvent (latest es)"
proof (cases ocs rule: rev_cases)
  case Nil
  with assms show ?thesis by (simp add: stateOfOccurrences_def correlationFromIntent_def)
next
  case (snoc ocs' oc)
  with assms have "promotion_history c (map oc_event ocs' @ [oc_event oc])" "es = map oc_event ocs' @ [oc_event oc]"
    by auto
  with snoc assms(3) promotion_history_snoc_state [of c "map oc_event ocs'" "oc_event oc" ocs' oc] show ?thesis
    by simp
qed

section \<open>The validators accept protocol histories\<close>

lemma filter_before_last:
  assumes "\<forall>p\<in>set ocs. oc_position p < oc_position oc"
  shows "filter (\<lambda>p. oc_position p < oc_position oc) (ocs @ [oc]) = ocs"
    and "q \<in> set ocs \<Longrightarrow> filter (\<lambda>p. oc_position p < oc_position q) (ocs @ [oc]) =
           filter (\<lambda>p. oc_position p < oc_position q) ocs"
  using assms by (auto simp: filter_id_conv)

definition deferralsSound :: "PromotionOccurrence list \<Rightarrow> bool" where
  "deferralsSound ocs \<longleftrightarrow> (\<forall>oc\<in>set ocs. isDeferral (oc_event oc) \<longrightarrow> reconciliationDeferralCausalIssue oc ocs = None)"

definition refusalsSound :: "PromotionOccurrence list \<Rightarrow> bool" where
  "refusalsSound ocs \<longleftrightarrow>
     (\<forall>oc\<in>set ocs. safetyRefusalSound (oc_event oc) (filter (\<lambda>p. oc_position p < oc_position oc) ocs))"

lemma firstSome_None_iff: "firstSome xs = None \<longleftrightarrow> (\<forall>x\<in>set xs. x = None)"
proof -
  have "firstSome xs = None \<longleftrightarrow> List.map_filter id xs = []"
    by (simp add: firstSome_def split: list.splits)
  also have "\<dots> \<longleftrightarrow> (\<forall>x\<in>set xs. x = None)"
    by (induction xs) (auto split: option.splits)
  finally show ?thesis .
qed

lemma deferralIssue_None_iff:
  "targetPromotionReconciliationDeferralIssueFor rs c = None \<longleftrightarrow> deferralsSound (relevantPromotionOccurrences rs c)"
  by (auto simp: targetPromotionReconciliationDeferralIssueFor_def Let_def firstSome_None_iff deferralsSound_def
      reconciliationDeferralRecords_def)

lemma refusalIssue_None_iff:
  "targetPromotionSafetyRefusalIssueFor rs c = None \<longleftrightarrow> refusalsSound (relevantPromotionOccurrences rs c)"
  by (auto simp: targetPromotionSafetyRefusalIssueFor_def Let_def refusalsSound_def list_all_iff)

lemma deferralsSound_snoc:
  assumes "\<forall>p\<in>set ocs. oc_position p < oc_position oc"
  shows "deferralsSound (ocs @ [oc]) \<longleftrightarrow> deferralsSound ocs \<and>
    (isDeferral (oc_event oc) \<longrightarrow> reconciliationDeferralCausalIssue oc (ocs @ [oc]) = None)"
  using filter_before_last(2) [OF assms]
  by (auto simp: deferralsSound_def reconciliationDeferralCausalIssue_def)

lemma refusalsSound_snoc:
  assumes "\<forall>p\<in>set ocs. oc_position p < oc_position oc"
  shows "refusalsSound (ocs @ [oc]) \<longleftrightarrow> refusalsSound ocs \<and> safetyRefusalSound (oc_event oc) ocs"
  using filter_before_last [OF assms] by (auto simp: refusalsSound_def)

lemma promotion_history_sound:
  "promotion_history c es \<Longrightarrow> map oc_event ocs = es \<Longrightarrow> increasing ocs \<Longrightarrow> deferralsSound ocs \<and> refusalsSound ocs"
proof (induction ocs arbitrary: es rule: rev_induct)
  case Nil
  then show ?case by (simp add: deferralsSound_def refusalsSound_def)
next
  case (snoc oc ocs)
  then have inc: "\<forall>p\<in>set ocs. oc_position p < oc_position oc" and m: "es = map oc_event ocs @ [oc_event oc]"
    by auto
  note split = deferralsSound_snoc [OF inc] refusalsSound_snoc [OF inc]
  from snoc.prems(1) [unfolded m] show ?case
  proof (cases rule: promotion_history.cases)
    case intended
    then show ?thesis using snoc.IH [OF promotion_history.empty] split by auto
  next
    case (deferred es' n d)
    then have h: "promotion_history c (map oc_event ocs)" and e: "oc_event oc = TargetPromotionReconciliationDeferred n c d"
      by simp_all
    note live = promotion_history_live [OF h _ _ refl]
    have "reconciliationDeferralCausalIssue oc (ocs @ [oc]) = None"
      unfolding reconciliationDeferralCausalIssue_def filter_before_last(1) [OF inc] Let_def
      using deferred live e by (auto simp: list_ex_iff reconciliationDeferralRecords_def)
    with snoc.IH [OF h refl] snoc.prems(3) split e show ?thesis by simp
  next
    case (refused es' basis k boundary refusal)
    then have h: "promotion_history c (map oc_event ocs)"
      and e: "oc_event oc = TargetPromotionSafetyRefused boundary basis c k refusal" by simp_all
    note live = promotion_history_live [OF h _ _ refl]
    have "basis \<noteq> BeforeFirstAttempt \<and> (case latest ocs of None \<Rightarrow> False | Some p \<Rightarrow> isAttempt (oc_event p))"
      if "boundary = CompareAndSetBoundary"
    proof -
      from refused that have "isAttempt (last (map oc_event ocs))" "ocs \<noteq> []" by auto
      moreover have "attemptCount (map oc_event ocs) \<noteq> 0" 
        using calculation by (auto simp: attemptCount_def last_map filter_empty_conv)
      ultimately show ?thesis using refused
        by (auto simp: latest_def last_map lastOrdinal_def)
    qed
    moreover have "length (filter isSafetyRefused (map oc_event ocs)) =
        length (filter (\<lambda>p. isSafetyRefused (oc_event p)) ocs)"
      by (simp add: filter_map comp_def)
    ultimately have "safetyRefusalSound (oc_event oc) ocs"
      using refused live e by (auto simp: list_ex_iff)
    with snoc.IH [OF h refl] snoc.prems(3) split e show ?thesis by simp
  qed (use snoc.IH snoc.prems(3) split in auto)
qed


section \<open>Protocol histories in a journal\<close>

lemma relevant_increasing:
  assumes "wellFormedHistory runId rs" shows "increasing (relevantPromotionOccurrences rs c)"
  using assms
proof (induction rs rule: rev_induct)
  case (snoc r rs)
  then have wf: "wellFormedHistory runId rs" and p: "jr_position r = Suc (length rs)"
    by (simp_all add: wellFormedHistory_snoc)
  from snoc.IH [OF wf] show ?case
  proof (cases "occurrenceFor c r")
    case None
    with snoc relevant_snoc_other [OF snoc.prems] wf show ?thesis by simp
  next
    case (Some oc)
    then obtain e where e: "jr_event r = TargetPromotionEvent e" "pe_correlation e = c" by auto
    show ?thesis
      using snoc.IH [OF wf] relevant_positions [OF wf] p
      by (auto simp: relevant_snoc_own [OF snoc.prems e] less_Suc_eq_le)
  qed
qed (simp add: relevantPromotionOccurrences_def)

text \<open>The key each event is appended under.\<close>

fun promotionKeyOf :: "TargetPromotionJournalEvent \<Rightarrow> JournalRecordKey" where
  "promotionKeyOf (TargetPromotionSafetyRefused _ _ c k _) = targetPromotionSafetyRefusedRecordKey (tp_requestId c) k"
| "promotionKeyOf (TargetPromotionIntended c) = targetPromotionIntentRecordKey (tp_requestId c)"
| "promotionKeyOf (TargetPromotionAttemptIntended n c _) = targetPromotionAttemptIntentRecordKey (tp_requestId c) n"
| "promotionKeyOf (TargetPromotionReconciliationDeferred n c _) =
     targetPromotionReconciliationDeferredRecordKey (tp_requestId c) n"
| "promotionKeyOf (TargetPromotionObservedSuccess _ c _) = targetPromotionObservedSuccessRecordKey (tp_requestId c)"
| "promotionKeyOf (TargetPromotionStale _ c _) = targetPromotionStaleRecordKey (tp_requestId c)"
| "promotionKeyOf (TargetPromotionNonConvergence _ _ c _) = targetPromotionNonConvergenceRecordKey (tp_requestId c)"

definition promotionProtocolHistory :: "JournalRecord list \<Rightarrow> TargetPromotionCorrelation \<Rightarrow> bool" where
  "promotionProtocolHistory rs c \<longleftrightarrow>
     targetPromotionCorrelationConflictFor rs c = None \<and> promotion_history c (promotionEvents rs c) \<and>
     (\<forall>r\<in>set rs. \<forall>e. jr_event r = TargetPromotionEvent e \<longrightarrow> pe_correlation e = c \<longrightarrow> jr_key r = promotionKeyOf e)"

lemma derive_protocolHistory:
  assumes "wellFormedHistory runId rs" "promotionProtocolHistory rs c"
  shows "deriveTargetPromotionState rs c = map_option stateOfEvent (latest (promotionEvents rs c))"
  using assms(2) promotion_history_state [OF _ refl relevant_increasing [OF assms(1)], of c c]
  by (simp add: deriveTargetPromotionState_def promotionProtocolHistory_def promotionEvents_def)

lemma promotionEvents_snoc:
  assumes "wellFormedHistory runId (rs @ [r])" "jr_event r = TargetPromotionEvent e" "pe_correlation e = c"
  shows "promotionEvents (rs @ [r]) c = promotionEvents rs c @ [e]"
  by (simp add: promotionEvents_def relevant_snoc_own [OF assms])

lemma protocolHistory_snoc:
  assumes "wellFormedHistory runId (rs @ [r])" "jr_event r = TargetPromotionEvent e" "pe_correlation e = c"
    "promotionProtocolHistory rs c" "promotion_history c (promotionEvents rs c @ [e])" "jr_key r = promotionKeyOf e"
  shows "promotionProtocolHistory (rs @ [r]) c"
  using assms conflict_snoc [of rs c r]
  by (simp add: promotionProtocolHistory_def promotionEvents_snoc)

lemma promotionEvents_mem:
  assumes "wellFormedHistory runId rs"
  shows "e \<in> set (promotionEvents rs c) \<longleftrightarrow>
    (\<exists>r\<in>set rs. jr_event r = TargetPromotionEvent e \<and> pe_correlation e = c)"
proof -
  have "e \<in> set (promotionEvents rs c) \<longleftrightarrow> (\<exists>r\<in>set rs. \<exists>oc. occurrenceFor c r = Some oc \<and> oc_event oc = e)"
    by (auto simp: promotionEvents_def relevant_wellFormed [OF assms] set_map_filter_conv simp del: occurrenceFor_Some)
  moreover have "(\<exists>oc. occurrenceFor c r = Some oc \<and> oc_event oc = e) \<longleftrightarrow>
      jr_event r = TargetPromotionEvent e \<and> pe_correlation e = c" for r
    by (cases "jr_event r") (auto simp: occurrenceFor_def promotionOccurrence_def)
  ultimately show ?thesis by simp
qed


section \<open>What the current state says about the history\<close>

lemma lastOrdinal_snoc:
  "lastOrdinal (es @ [e]) = (if isAttempt e then Some (Suc (attemptCount es)) else lastOrdinal es)"
  by (simp add: lastOrdinal_def)

lemma basisOrdinal_cases:
  "basisOrdinal b = None \<longleftrightarrow> b = BeforeFirstAttempt" "basisOrdinal b = Some n \<longleftrightarrow> b = AfterAttempt n"
  by (cases b; auto)+

definition lastEventSound :: "TargetPromotionCorrelation \<Rightarrow> TargetPromotionJournalEvent list \<Rightarrow> TargetPromotionJournalEvent \<Rightarrow> bool" where
  "lastEventSound c es e \<longleftrightarrow> pe_correlation e = c \<and>
     (case e of
        TargetPromotionIntended _ \<Rightarrow> lastOrdinal es = None
      | TargetPromotionAttemptIntended n _ r \<Rightarrow> lastOrdinal es = Some n \<and> r = attemptReasonFor c n
      | TargetPromotionReconciliationDeferred n _ d \<Rightarrow>
          lastOrdinal es = Some n \<and> targetPromotionReconciliationDeferralFieldIssue n c d = None
      | TargetPromotionSafetyRefused _ basis _ _ _ \<Rightarrow> basisOrdinal basis = lastOrdinal es
      | _ \<Rightarrow> True)"

lemma promotion_history_last:
  assumes "promotion_history c es" "es \<noteq> []"
  shows "lastEventSound c es (last es)"
  using assms(1)
proof (cases rule: promotion_history.cases)
  case empty
  with assms(2) show ?thesis by simp
qed (simp_all add: lastEventSound_def lastOrdinal_snoc, simp add: lastOrdinal_def)

lemma retry_history:
  assumes h: "promotion_history c es" and r: "retryOf (map_option stateOfEvent (latest es)) = Some retry"
  shows "es \<noteq> []" "\<not> isTerminalPromotion (last es)"
    "retry = NeedInitialReconciliationRead \<longleftrightarrow> lastOrdinal es = None"
    "retry = NeedReconciliationRead n \<longleftrightarrow> lastOrdinal es = Some n"
proof -
  from r show ne: "es \<noteq> []" by (cases es) auto
  with r have s: "retryOf (Some (stateOfEvent (last es))) = Some retry" by (simp add: latest_def)
  then show "\<not> isTerminalPromotion (last es)" by (cases "last es") auto
  from promotion_history_last [OF h ne] s
  have "lastOrdinal es = (case retry of NeedInitialReconciliationRead \<Rightarrow> None | NeedReconciliationRead m \<Rightarrow> Some m)"
    by (cases "last es") (auto simp: lastEventSound_def split: TargetPromotionTerminalBasis.splits)
  then show "retry = NeedInitialReconciliationRead \<longleftrightarrow> lastOrdinal es = None"
    "retry = NeedReconciliationRead n \<longleftrightarrow> lastOrdinal es = Some n"
    by (auto split: TargetPromotionPendingRetry.splits)
qed

lemma deferred_history:
  assumes h: "promotion_history c es" and s: "map_option stateOfEvent (latest es) = Some (PromotionReconciliationDeferred n c' d)"
  shows "es \<noteq> []" "\<not> isTerminalPromotion (last es)" "lastOrdinal es = Some n" "c' = c"
    "targetPromotionReconciliationDeferralFieldIssue n c d = None"
proof -
  from s show ne: "es \<noteq> []" by (cases es) auto
  with s have l: "stateOfEvent (last es) = PromotionReconciliationDeferred n c' d" by (simp add: latest_def)
  then have le: "last es = TargetPromotionReconciliationDeferred n c' d" by (cases "last es") auto
  then show "\<not> isTerminalPromotion (last es)" by simp
  from promotion_history_last [OF h ne] le
  show "lastOrdinal es = Some n" "c' = c" "targetPromotionReconciliationDeferralFieldIssue n c d = None"
    by (simp_all add: lastEventSound_def)
qed

lemma pending_attempt_history:
  assumes h: "promotion_history c es"
    and s: "map_option stateOfEvent (latest es) = Some (PromotionPending c' (NeedReconciliationRead n))"
  shows "es \<noteq> []" "last es = TargetPromotionAttemptIntended n c (attemptReasonFor c n)" "lastOrdinal es = Some n" "c' = c"
proof -
  from s show ne: "es \<noteq> []" by (cases es) auto
  with s have l: "stateOfEvent (last es) = PromotionPending c' (NeedReconciliationRead n)" by (simp add: latest_def)
  then obtain r where le: "last es = TargetPromotionAttemptIntended n c' r" by (cases "last es") auto
  from promotion_history_last [OF h ne] le
  show "last es = TargetPromotionAttemptIntended n c (attemptReasonFor c n)" "lastOrdinal es = Some n" "c' = c"
    by (simp_all add: lastEventSound_def)
qed

lemma state_correlation:
  assumes "promotion_history c es" "latest es = Some e" shows "pe_correlation e = c"
  using assms by (auto intro: promotion_history_correlation dest: latest_SomeD)

text \<open>Refusal ordinals run \<open>1, 2, \<dots>\<close>, so the next one is new.\<close>

fun refusalOrdinal :: "TargetPromotionJournalEvent \<Rightarrow> nat option" where
  "refusalOrdinal (TargetPromotionSafetyRefused _ _ _ k _) = Some k"
| "refusalOrdinal _ = None"

lemma promotion_history_refusals:
  "promotion_history c es \<Longrightarrow> List.map_filter refusalOrdinal es = [1..<Suc (length (filter isSafetyRefused es))]"
  by (induction rule: promotion_history.induct) auto

lemma refusal_ordinal_fresh:
  assumes "promotion_history c es" "e \<in> set es" "refusalOrdinal e = Some k"
  shows "k \<le> length (filter isSafetyRefused es)"
proof -
  from assms(2,3) have "k \<in> set (List.map_filter refusalOrdinal es)" by (auto simp: set_map_filter_conv)
  then show ?thesis by (auto simp: promotion_history_refusals [OF assms(1)])
qed

lemma attempt_ordinal_bound:
  assumes "promotion_history c es" "e \<in> set es" "eventAttemptOrdinal e = Some n"
  shows "n \<le> attemptCount es"
proof -
  from assms(2,3) have "n \<in> set (List.map_filter eventAttemptOrdinal es)" by (auto simp: set_map_filter_conv)
  then show ?thesis by (auto simp: promotion_history_ordinals [OF assms(1)])
qed


lemma deferral_ordinal_bound:
  "promotion_history c es \<Longrightarrow> e \<in> set es \<Longrightarrow> deferralOrdinal e = Some n \<Longrightarrow> n \<le> attemptCount es"
  by (induction arbitrary: e rule: promotion_history.induct) (auto simp: lastOrdinal_def split: if_splits intro: le_SucI)

lemma no_deferral_after_attempt:
  assumes h: "promotion_history c es" and ne: "es \<noteq> []" and a: "isAttempt (last es)" and o: "lastOrdinal es = Some n"
  shows "\<forall>e\<in>set es. deferralOrdinal e \<noteq> Some n"
  using h
proof (cases rule: promotion_history.cases)
  case (attempt es0 m reason)
  with o have "n = Suc (attemptCount es0)" by (simp add: lastOrdinal_snoc)
  then show ?thesis using deferral_ordinal_bound [OF attempt(2)] attempt(1) by fastforce
qed (use a ne in auto)

end
