(* ===== verification/Protocol_World.thy ===== *)
theory Protocol_World
  imports Promotion_History
begin

text \<open>
  The state a protocol runs over: the journal it appends to, the repository its Git service acts
  on, and a log of the mutations it has sent, each with the journal as it stood when the call
  was made. The log is the only part the program does not have; it lets a theorem say what was
  durable before a write. \<open>liftJournal\<close> lets a journal failure end the effect, \<open>callGit\<close> is
  \<open>Effect.result\<close>: a failure is a value.
\<close>

datatype SentMutation =
    SentCompareAndSet TargetPromotionCorrelation TargetPromotionGitRequest
  | SentPush RemotePublicationCorrelation RemotePublicationGitRequest nat

record ('j, 'g) World =
  w_journal :: 'j
  w_git :: 'g
  w_sent :: "('j \<times> SentMutation) list"

definition liftJournal ::
  "(JournalError \<Rightarrow> 'e) \<Rightarrow> ('j, JournalError, 'a) effect \<Rightarrow> (('j, 'g, 'm) World_scheme, 'e, 'a) effect" where
  "liftJournal wrap m w =
     (case m (w_journal w) of
        (Inl e, j) \<Rightarrow> (Inl (wrap e), w\<lparr>w_journal := j\<rparr>)
      | (Inr x, j) \<Rightarrow> (Inr x, w\<lparr>w_journal := j\<rparr>))"

definition callGit ::
  "('g, 'f, 'a) effect \<Rightarrow> (('j, 'g, 'm) World_scheme, 'e, 'f + 'a) effect" where
  "callGit m w = (case m (w_git w) of (x, g) \<Rightarrow> (Inr x, w\<lparr>w_git := g\<rparr>))"

definition logSent :: "SentMutation \<Rightarrow> (('j, 'g, 'm) World_scheme, 'e, unit) effect" where
  "logSent m w = (Inr (), w\<lparr>w_sent := w_sent w @ [(w_journal w, m)]\<rparr>)"

lemma callGit_Inr [simp]:
  "callGit m w = (x, w') \<longleftrightarrow> (\<exists>y g. m (w_git w) = (y, g) \<and> x = Inr y \<and> w' = w\<lparr>w_git := g\<rparr>)"
  by (auto simp: callGit_def split: prod.splits)

lemma logSent_Inr [simp]:
  "logSent m w = (x, w') \<longleftrightarrow> x = Inr () \<and> w' = w\<lparr>w_sent := w_sent w @ [(w_journal w, m)]\<rparr>"
  by (auto simp: logSent_def)

lemma liftJournal_Inr:
  "liftJournal wrap m w = (Inr x, w') \<longleftrightarrow> (\<exists>j. m (w_journal w) = (Inr x, j) \<and> w' = w\<lparr>w_journal := j\<rparr>)"
  by (auto simp: liftJournal_def split: prod.splits sum.splits)

lemma liftJournal_Inl:
  "liftJournal wrap m w = (Inl e, w') \<longleftrightarrow> (\<exists>e' j. m (w_journal w) = (Inl e', j) \<and> e = wrap e' \<and> w' = w\<lparr>w_journal := j\<rparr>)"
  by (auto simp: liftJournal_def split: prod.splits sum.splits)

end
