(* ===== verification/Promotion_Protocol.thy ===== *)
theory Promotion_Protocol
  imports Protocol_World
begin

text \<open>
  The promotion transitions: process-local single-use capabilities
  (\<^verbatim>\<open>target-promotion/capabilities.ts\<close>), the journal operations
  (\<^verbatim>\<open>transition-journal.ts\<close>, \<^verbatim>\<open>safety-observation.ts\<close>) and the steps of
  \<^verbatim>\<open>transitions.ts\<close>. A capability is an object whose identity is a number; the four
  \<open>WeakSet\<close>s are lists of the identities still available. \<open>readEvidence\<close> is the journal's \<open>read\<close>.
  \<open>Effect.die\<close> is the error \<open>PromotionDefect\<close>.
\<close>

section \<open>Capabilities\<close>

record TargetPromotionReadAuthorization = TargetPromotionReadBasis +
  ra_object :: nat

record TargetPromotionAttemptAuthorization = TargetPromotionAttemptBasis +
  aa_object :: nat

record TargetPromotionIntendedAttempt =
  ia_attemptOrdinal :: nat
  ia_correlation :: TargetPromotionCorrelation
  ia_reason :: TargetPromotionAttemptReason
  ia_object :: nat

record TargetPromotionSettlementClaim =
  oa_attemptOrdinal :: nat
  oa_correlation :: TargetPromotionCorrelation
  oa_result :: TargetPromotionCompareAndSetResult
  oa_object :: nat

record TargetPromotionCapabilities =
  tc_nextObject :: nat
  tc_availableReadAuthorizations :: "nat list"
  tc_availableAttemptAuthorizations :: "nat list"
  tc_availableIntendedAttempts :: "nat list"
  tc_availableObservedAttempts :: "nat list"

definition makeTargetPromotionCapabilities :: TargetPromotionCapabilities where
  "makeTargetPromotionCapabilities =
     \<lparr>tc_nextObject = 0, tc_availableReadAuthorizations = [], tc_availableAttemptAuthorizations = [],
      tc_availableIntendedAttempts = [], tc_availableObservedAttempts = []\<rparr>"

record ('j, 'g) PromotionWorld = "('j, 'g) World" +
  w_caps :: TargetPromotionCapabilities

datatype TargetPromotionError =
    TargetPromotionResultContradiction GitCommitSha string
  | TargetPromotionCorrelationContradiction string TargetPromotionRequestId
  | TargetPromotionHistoryContradiction string TargetPromotionRequestId
  | PromotionJournalError JournalError
  | PromotionGitReadError TargetPromotionGitReadFailure
  | PromotionDefect string

type_synonym ('j, 'g, 'a) promotion = "(('j, 'g) PromotionWorld, TargetPromotionError, 'a) effect"

definition mintReadAuthorization ::
  "TargetPromotionCorrelation \<Rightarrow> nat option \<Rightarrow> PromotionAuthority \<Rightarrow> PromotionDurableBasis \<Rightarrow>
   ('j, 'g, TargetPromotionReadAuthorization) promotion" where
  "mintReadAuthorization correlation previousAttemptOrdinal authority durableBasis w =
     (let caps = w_caps w; n = tc_nextObject caps in
      (Inr \<lparr>ra_authority = authority, ra_correlation = correlation, ra_durableBasis = durableBasis,
            ra_previousAttemptOrdinal = previousAttemptOrdinal, ra_object = n\<rparr>,
       w\<lparr>w_caps := caps\<lparr>tc_nextObject := Suc n,
                        tc_availableReadAuthorizations := n # tc_availableReadAuthorizations caps\<rparr>\<rparr>))"

definition mintAttemptAuthorization ::
  "TargetPromotionCorrelation \<Rightarrow> nat \<Rightarrow> TargetPromotionAttemptReason \<Rightarrow> PromotionDurableBasis \<Rightarrow>
   ('j, 'g, TargetPromotionAttemptAuthorization) promotion" where
  "mintAttemptAuthorization correlation attemptOrdinal reason durableBasis w =
     (let caps = w_caps w; n = tc_nextObject caps in
      (Inr \<lparr>aa_attemptOrdinal = attemptOrdinal, aa_correlation = correlation, aa_durableBasis = durableBasis,
            aa_reason = reason, aa_object = n\<rparr>,
       w\<lparr>w_caps := caps\<lparr>tc_nextObject := Suc n,
                        tc_availableAttemptAuthorizations := n # tc_availableAttemptAuthorizations caps\<rparr>\<rparr>))"

definition mintIntendedAttempt ::
  "TargetPromotionAttemptAuthorization \<Rightarrow> ('j, 'g, TargetPromotionIntendedAttempt) promotion" where
  "mintIntendedAttempt authorization w =
     (let caps = w_caps w; n = tc_nextObject caps in
      (Inr \<lparr>ia_attemptOrdinal = aa_attemptOrdinal authorization, ia_correlation = aa_correlation authorization,
            ia_reason = aa_reason authorization, ia_object = n\<rparr>,
       w\<lparr>w_caps := caps\<lparr>tc_nextObject := Suc n,
                        tc_availableIntendedAttempts := n # tc_availableIntendedAttempts caps\<rparr>\<rparr>))"

definition mintObservedAttempt ::
  "TargetPromotionIntendedAttempt \<Rightarrow> TargetPromotionCompareAndSetResult \<Rightarrow>
   ('j, 'g, TargetPromotionSettlementClaim) promotion" where
  "mintObservedAttempt intended result w =
     (let caps = w_caps w; n = tc_nextObject caps in
      (Inr \<lparr>oa_attemptOrdinal = ia_attemptOrdinal intended, oa_correlation = ia_correlation intended,
            oa_result = result, oa_object = n\<rparr>,
       w\<lparr>w_caps := caps\<lparr>tc_nextObject := Suc n,
                        tc_availableObservedAttempts := n # tc_availableObservedAttempts caps\<rparr>\<rparr>))"

text \<open>\<open>WeakSet.delete\<close>: whether the object was there, and the set without it.\<close>

definition consumeRead :: "nat \<Rightarrow> ('j, 'g, bool) promotion" where
  "consumeRead n w =
     (let caps = w_caps w in
      (Inr (n \<in> set (tc_availableReadAuthorizations caps)),
       w\<lparr>w_caps := caps\<lparr>tc_availableReadAuthorizations := removeAll n (tc_availableReadAuthorizations caps)\<rparr>\<rparr>))"

definition consumeAttempt :: "nat \<Rightarrow> ('j, 'g, bool) promotion" where
  "consumeAttempt n w =
     (let caps = w_caps w in
      (Inr (n \<in> set (tc_availableAttemptAuthorizations caps)),
       w\<lparr>w_caps := caps\<lparr>tc_availableAttemptAuthorizations := removeAll n (tc_availableAttemptAuthorizations caps)\<rparr>\<rparr>))"

definition consumeIntended :: "nat \<Rightarrow> ('j, 'g, bool) promotion" where
  "consumeIntended n w =
     (let caps = w_caps w in
      (Inr (n \<in> set (tc_availableIntendedAttempts caps)),
       w\<lparr>w_caps := caps\<lparr>tc_availableIntendedAttempts := removeAll n (tc_availableIntendedAttempts caps)\<rparr>\<rparr>))"

definition consumeObserved :: "nat \<Rightarrow> ('j, 'g, bool) promotion" where
  "consumeObserved n w =
     (let caps = w_caps w in
      (Inr (n \<in> set (tc_availableObservedAttempts caps)),
       w\<lparr>w_caps := caps\<lparr>tc_availableObservedAttempts := removeAll n (tc_availableObservedAttempts caps)\<rparr>\<rparr>))"

section \<open>Journal operations\<close>

definition appendTargetPromotionEvent ::
  "'j InRunJournalService \<Rightarrow> TargetPromotionCorrelation \<Rightarrow> JournalRecordKey \<Rightarrow> TargetPromotionJournalEvent \<Rightarrow>
   ('j, 'g, JournalRecord) promotion" where
  "appendTargetPromotionEvent journal correlation key event =
     liftJournal PromotionJournalError
       (ij_append journal (targetPromotionRunIdOf correlation) key (TargetPromotionEvent event))"

definition readEvidence :: "'j InRunJournalService \<Rightarrow> RunId \<Rightarrow> ('j, 'g, JournalRecord list) promotion" where
  "readEvidence journal runId = liftJournal PromotionJournalError (ij_read journal runId)"

definition appendTargetPromotionSuccess ::
  "'j InRunJournalService \<Rightarrow> TargetPromotionCorrelation \<Rightarrow> TargetPromotionTerminalBasis \<Rightarrow>
   TargetPromotionSuccessObservation \<Rightarrow> ('j, 'g, TargetPromotionState) promotion" where
  "appendTargetPromotionSuccess journal correlation basis observation =
     andThen (appendTargetPromotionEvent journal correlation
                (targetPromotionObservedSuccessRecordKey (tp_requestId correlation))
                (TargetPromotionObservedSuccess basis correlation observation))
       (\<lambda>_. succeed (PromotionSucceeded basis correlation observation))"

definition appendTargetPromotionStale ::
  "'j InRunJournalService \<Rightarrow> TargetPromotionCorrelation \<Rightarrow> TargetPromotionTerminalBasis \<Rightarrow>
   TargetPromotionStaleObservation \<Rightarrow> ('j, 'g, TargetPromotionState) promotion" where
  "appendTargetPromotionStale journal correlation basis observation =
     andThen (appendTargetPromotionEvent journal correlation
                (targetPromotionStaleRecordKey (tp_requestId correlation))
                (TargetPromotionStale basis correlation observation))
       (\<lambda>_. succeed (PromotionStale basis correlation observation))"

definition appendTargetPromotionNonConvergence ::
  "'j InRunJournalService \<Rightarrow> TargetPromotionCorrelation \<Rightarrow> nat \<Rightarrow> TargetPromotionNonConvergenceObservation \<Rightarrow>
   ('j, 'g, TargetPromotionState) promotion" where
  "appendTargetPromotionNonConvergence journal correlation attemptOrdinal lastObservation =
     andThen (appendTargetPromotionEvent journal correlation
                (targetPromotionNonConvergenceRecordKey (tp_requestId correlation))
                (TargetPromotionNonConvergence targetPromotionAttemptLimit attemptOrdinal correlation lastObservation))
       (\<lambda>_. succeed (PromotionNonConvergent targetPromotionAttemptLimit attemptOrdinal correlation lastObservation))"

definition appendTargetPromotionReconciliationDeferral ::
  "'j InRunJournalService \<Rightarrow> TargetPromotionCorrelation \<Rightarrow> nat \<Rightarrow> TargetPromotionReconciliationDeferral \<Rightarrow>
   ('j, 'g, TargetPromotionState) promotion" where
  "appendTargetPromotionReconciliationDeferral journal correlation afterAttemptOrdinal deferral =
     andThen (appendTargetPromotionEvent journal correlation
                (targetPromotionReconciliationDeferredRecordKey (tp_requestId correlation) afterAttemptOrdinal)
                (TargetPromotionReconciliationDeferred afterAttemptOrdinal correlation deferral))
       (\<lambda>_. succeed (PromotionReconciliationDeferred afterAttemptOrdinal correlation deferral))"

definition validateTargetPromotionState ::
  "JournalRecord list \<Rightarrow> TargetPromotionCorrelation \<Rightarrow> ('j, 'g, TargetPromotionState option) promotion" where
  "validateTargetPromotionState source correlation =
     (let records = journalRecordsForPromotionRequest source (tp_requestId correlation) in
      if targetPromotionCorrelationConflictFor records correlation \<noteq> None
      then fail (TargetPromotionCorrelationContradiction
             ''journal contains a different exact promotion correlation for this request id'' (tp_requestId correlation))
      else (case orElse (targetPromotionReconciliationDeferralIssueFor records correlation)
                   (targetPromotionSafetyRefusalIssueFor records correlation) of
              Some detail \<Rightarrow> fail (TargetPromotionHistoryContradiction detail (tp_requestId correlation))
            | None \<Rightarrow> succeed (deriveTargetPromotionState records correlation)))"

fun sameRefusal ::
  "TargetPromotionBoundary \<Rightarrow> TargetPromotionTerminalBasis \<Rightarrow> TargetPromotionSafetyRefusal \<Rightarrow>
   TargetPromotionJournalEvent \<Rightarrow> bool" where
  "sameRefusal boundary basis refusal (TargetPromotionSafetyRefused b bs c k r) =
     (b = boundary \<and> bs = basis \<and> r = refusal)"
| "sameRefusal boundary basis refusal _ = False"

definition safetyObservations :: "JournalRecord list \<Rightarrow> TargetPromotionJournalEvent list" where
  "safetyObservations records =
     filter isSafetyRefused (List.map_filter (\<lambda>r. promotionEventOf (jr_event r)) records)"

definition recordSafety ::
  "'j InRunJournalService \<Rightarrow> JournalRecord list \<Rightarrow> TargetPromotionBoundary \<Rightarrow> TargetPromotionCorrelation \<Rightarrow>
   TargetPromotionTerminalBasis \<Rightarrow> TargetPromotionSafetyRefusal \<Rightarrow> nat \<Rightarrow> ('j, 'g, TargetPromotionState) promotion" where
  "recordSafety journal records boundary correlation basis refusal observationOrdinal =
     andThen (appendTargetPromotionEvent journal correlation
                (targetPromotionSafetyRefusedRecordKey (tp_requestId correlation) observationOrdinal)
                (TargetPromotionSafetyRefused boundary basis correlation observationOrdinal refusal))
       (\<lambda>r. case deriveTargetPromotionState (records @ [r]) correlation of
              Some (PromotionSafetyRefused b c rt f k) \<Rightarrow> succeed (PromotionSafetyRefused b c rt f k)
            | _ \<Rightarrow> fail (PromotionDefect ''appended safety refusal did not reconstruct its exact promotion state''))"

definition appendTargetPromotionSafetyRefusal ::
  "'j InRunJournalService \<Rightarrow> JournalRecord list \<Rightarrow> TargetPromotionBoundary \<Rightarrow> TargetPromotionCorrelation \<Rightarrow>
   nat option \<Rightarrow> TargetPromotionSafetyRefusal \<Rightarrow> ('j, 'g, TargetPromotionState) promotion" where
  "appendTargetPromotionSafetyRefusal journal source boundary correlation afterAttemptOrdinal refusal =
     (let records = journalRecordsForPromotionRequest source (tp_requestId correlation);
          basis = terminalBasisFor afterAttemptOrdinal;
          observations = safetyObservations records;
          current = deriveTargetPromotionState records correlation
      in case (current, latest observations) of
           (Some (PromotionSafetyRefused b c r f k), Some lastObservation) \<Rightarrow>
             if sameRefusal boundary basis refusal lastObservation
             then succeed (PromotionSafetyRefused b c r f k)
             else recordSafety journal records boundary correlation basis refusal (length observations + 1)
         | _ \<Rightarrow> recordSafety journal records boundary correlation basis refusal (length observations + 1))"

section \<open>Transitions\<close>

datatype TargetPromotionProgress =
    ProgressState TargetPromotionState
  | ProgressRead TargetPromotionReadAuthorization
  | ProgressAttempt TargetPromotionAttemptAuthorization

datatype TargetPromotionAttemptBoundaryResult =
    ObservedAttempt TargetPromotionSettlementClaim
  | AmbiguousAttempt nat TargetPromotionCorrelation
  | RefusedAttempt TargetPromotionState

definition resultContradiction :: "TargetPromotionCorrelation \<Rightarrow> string \<Rightarrow> ('j, 'g, 'a) promotion" where
  "resultContradiction correlation detail =
     fail (TargetPromotionResultContradiction (targetPromotionCandidateCommitOf correlation) detail)"

definition readValidatedTargetPromotionState ::
  "'j InRunJournalService \<Rightarrow> TargetPromotionCorrelation \<Rightarrow> ('j, 'g, TargetPromotionState option) promotion" where
  "readValidatedTargetPromotionState journal correlation =
     andThen (readEvidence journal (targetPromotionRunIdOf correlation))
       (\<lambda>source. validateTargetPromotionState source correlation)"

definition authorizePendingProgress ::
  "TargetPromotionCorrelation \<Rightarrow> TargetPromotionPendingRetry \<Rightarrow> PromotionAuthority \<Rightarrow>
   ('j, 'g, TargetPromotionReadAuthorization option) promotion" where
  "authorizePendingProgress correlation retry authority =
     (case retry of
        NeedInitialReconciliationRead \<Rightarrow>
          if authority = ReadOnly then succeed None
          else andThen (mintReadAuthorization correlation None authority PendingInitial) (\<lambda>a. succeed (Some a))
      | NeedReconciliationRead n \<Rightarrow>
          andThen (mintReadAuthorization correlation (Some n) authority PendingAttempt) (\<lambda>a. succeed (Some a)))"

definition authorizeDeferredProgress ::
  "nat \<Rightarrow> TargetPromotionCorrelation \<Rightarrow> TargetPromotionReconciliationDeferral \<Rightarrow> PromotionAuthority \<Rightarrow>
   ('j, 'g, TargetPromotionProgress) promotion" where
  "authorizeDeferredProgress afterAttemptOrdinal correlation deferral authority =
     (if authority = ReadOnly
      then succeed (ProgressState (PromotionReconciliationDeferred afterAttemptOrdinal correlation deferral))
      else case deferral of
        TargetReadFailed _ \<Rightarrow>
          andThen (mintReadAuthorization correlation (Some afterAttemptOrdinal) authority DeferredTargetReadFailed)
            (\<lambda>a. succeed (ProgressRead a))
      | RetryAuthorityRequired observedHeadSha \<Rightarrow>
          andThen (mintAttemptAuthorization correlation (afterAttemptOrdinal + 1)
                     (ReconciledExpectedHead observedHeadSha afterAttemptOrdinal) DeferredRetryAuthority)
            (\<lambda>a. succeed (ProgressAttempt a)))"

definition recordTargetPromotionIntent ::
  "'j InRunJournalService \<Rightarrow> IntegratorRunQualifiedCandidate \<Rightarrow> ('j, 'g, TargetPromotionReadAuthorization) promotion" where
  "recordTargetPromotionIntent journal candidate =
     (let correlation = targetPromotionCorrelationFor candidate in
      andThen (readValidatedTargetPromotionState journal correlation) (\<lambda>state.
        if state \<noteq> None
        then resultContradiction correlation ''target promotion intent requires an absent exact promotion state''
        else andThen (appendTargetPromotionEvent journal correlation
                        (targetPromotionIntentRecordKey (tp_requestId correlation)) (TargetPromotionIntended correlation))
               (\<lambda>_. mintReadAuthorization correlation None RetryAuthorized PendingInitial)))"

text \<open>
  The selection both entry points make from an existing state; they differ in the failure of a
  pending state that authorizes no read.
\<close>

definition authorizeExistingState ::
  "PromotionAuthority \<Rightarrow> ('j, 'g, TargetPromotionProgress) promotion \<Rightarrow> TargetPromotionState \<Rightarrow>
   ('j, 'g, TargetPromotionProgress) promotion" where
  "authorizeExistingState authority unauthorized state =
     (let pending = (\<lambda>correlation retry.
            andThen (authorizePendingProgress correlation retry authority) (\<lambda>progress.
              case progress of Some a \<Rightarrow> succeed (ProgressRead a) | None \<Rightarrow> unauthorized))
      in case state of
           PromotionPending correlation retry \<Rightarrow> pending correlation retry
         | PromotionSafetyRefused _ correlation retry _ _ \<Rightarrow> pending correlation retry
         | PromotionReconciliationDeferred n correlation d \<Rightarrow> authorizeDeferredProgress n correlation d authority
         | _ \<Rightarrow> succeed (ProgressState state))"

definition authorizeTargetPromotionProgress ::
  "'j InRunJournalService \<Rightarrow> IntegratorRunQualifiedCandidate \<Rightarrow> PromotionAuthority \<Rightarrow>
   ('j, 'g, TargetPromotionProgress) promotion" where
  "authorizeTargetPromotionProgress journal candidate authority =
     (let correlation = targetPromotionCorrelationFor candidate
      in andThen (readValidatedTargetPromotionState journal correlation) (\<lambda>state.
        case state of
          None \<Rightarrow> resultContradiction correlation ''target promotion progress requires a durable promotion intent''
        | Some s \<Rightarrow> authorizeExistingState authority (resultContradiction correlation
            ''read-only reconciliation requires one exact unmatched compare-and-set intent'') s))"

definition authorizeOrRecordTargetPromotionProgress ::
  "'j InRunJournalService \<Rightarrow> IntegratorRunQualifiedCandidate \<Rightarrow> ('j, 'g, TargetPromotionProgress) promotion" where
  "authorizeOrRecordTargetPromotionProgress journal candidate =
     (let correlation = targetPromotionCorrelationFor candidate
      in andThen (readValidatedTargetPromotionState journal correlation) (\<lambda>state.
        case state of
          None \<Rightarrow>
            andThen (appendTargetPromotionEvent journal correlation
                       (targetPromotionIntentRecordKey (tp_requestId correlation)) (TargetPromotionIntended correlation))
              (\<lambda>_. andThen (mintReadAuthorization correlation None RetryAuthorized PendingInitial)
                     (\<lambda>a. succeed (ProgressRead a)))
        | Some s \<Rightarrow> authorizeExistingState RetryAuthorized
            (fail (PromotionDefect ''retry-authorized pending promotion did not authorize a read'')) s))"

definition finishReadDecision ::
  "'j InRunJournalService \<Rightarrow> TargetPromotionReadAuthorization \<Rightarrow> TargetPromotionReadDecision \<Rightarrow>
   ('j, 'g, TargetPromotionProgress) promotion" where
  "finishReadDecision journal authorization decision =
     (let correlation = ra_correlation authorization in
      case decision of
        AttemptAuthorized attemptOrdinal durableBasis reason \<Rightarrow>
          andThen (mintAttemptAuthorization correlation attemptOrdinal reason durableBasis)
            (\<lambda>a. succeed (ProgressAttempt a))
      | NonConvergent attemptOrdinal observation \<Rightarrow>
          andThen (appendTargetPromotionNonConvergence journal correlation attemptOrdinal observation)
            (\<lambda>s. succeed (ProgressState s))
      | PropagateFailure failure \<Rightarrow> fail (PromotionGitReadError failure)
      | ReconciliationDeferred afterAttemptOrdinal deferral \<Rightarrow>
          andThen (appendTargetPromotionReconciliationDeferral journal correlation afterAttemptOrdinal deferral)
            (\<lambda>s. succeed (ProgressState s))
      | ReadResultContradiction detail \<Rightarrow> resultContradiction correlation detail
      | ReadStale basis observation \<Rightarrow>
          andThen (appendTargetPromotionStale journal correlation basis observation) (\<lambda>s. succeed (ProgressState s))
      | ReadSucceeded basis observation \<Rightarrow>
          andThen (appendTargetPromotionSuccess journal correlation basis observation) (\<lambda>s. succeed (ProgressState s)))"

definition observeTargetPromotionRead ::
  "'j InRunJournalService \<Rightarrow> 'g TargetPromotionGitService \<Rightarrow> TargetPromotionReadAuthorization \<Rightarrow>
   ('j, 'g, TargetPromotionProgress) promotion" where
  "observeTargetPromotionRead journal git authorization =
     (let correlation = ra_correlation authorization in
      andThen (readValidatedTargetPromotionState journal correlation) (\<lambda>state.
        if \<not> targetPromotionReadBasisMatches authorization state
        then resultContradiction correlation ''promotion read authorization no longer matches the exact durable state''
        else andThen (consumeRead (ra_object authorization)) (\<lambda>available.
          if \<not> available
          then resultContradiction correlation
                 ''promotion read permission was already consumed or did not originate in this process''
          else andThen (callGit (git_read git (targetPromotionGitRequestFor correlation))) (\<lambda>readResult.
            case readResult of
              Inr observation \<Rightarrow>
                finishReadDecision journal authorization (decideSuccessfulTargetPromotionRead authorization observation)
            | Inl (ReadSafetyFailure refusal) \<Rightarrow>
                andThen (readEvidence journal (targetPromotionRunIdOf correlation)) (\<lambda>source.
                  andThen (appendTargetPromotionSafetyRefusal journal source ReconciliationReadBoundary correlation
                             (ra_previousAttemptOrdinal authorization) refusal) (\<lambda>s. succeed (ProgressState s)))
            | Inl (GitReadFailure failure) \<Rightarrow>
                finishReadDecision journal authorization (decideFailedTargetPromotionRead authorization failure)))))"

definition recordTargetPromotionAttemptIntent ::
  "'j InRunJournalService \<Rightarrow> TargetPromotionAttemptAuthorization \<Rightarrow> ('j, 'g, TargetPromotionIntendedAttempt) promotion" where
  "recordTargetPromotionAttemptIntent journal authorization =
     (let correlation = aa_correlation authorization in
      andThen (readValidatedTargetPromotionState journal correlation) (\<lambda>state.
        if \<not> targetPromotionAttemptBasisMatches authorization state
        then resultContradiction correlation ''promotion attempt authorization no longer matches the exact durable state''
        else andThen (consumeAttempt (aa_object authorization)) (\<lambda>available.
          if \<not> available
          then resultContradiction correlation
                 ''promotion attempt-intent permission was already consumed or did not originate in this process''
          else andThen (appendTargetPromotionEvent journal correlation
                 (targetPromotionAttemptIntentRecordKey (tp_requestId correlation) (aa_attemptOrdinal authorization))
                 (TargetPromotionAttemptIntended (aa_attemptOrdinal authorization) correlation (aa_reason authorization)))
                 (\<lambda>_. mintIntendedAttempt authorization))))"

definition pendingAttemptOrdinalMatches :: "TargetPromotionState option \<Rightarrow> nat \<Rightarrow> bool" where
  "pendingAttemptOrdinalMatches state attemptOrdinal =
     (case state of Some (PromotionPending _ (NeedReconciliationRead n)) \<Rightarrow> n = attemptOrdinal | _ \<Rightarrow> False)"

definition sendTargetPromotionAttempt ::
  "'j InRunJournalService \<Rightarrow> 'g TargetPromotionGitService \<Rightarrow> TargetPromotionIntendedAttempt \<Rightarrow>
   ('j, 'g, TargetPromotionAttemptBoundaryResult) promotion" where
  "sendTargetPromotionAttempt journal git attempt =
     (let correlation = ia_correlation attempt; request = targetPromotionGitRequestFor correlation in
      andThen (readValidatedTargetPromotionState journal correlation) (\<lambda>state.
        if \<not> pendingAttemptOrdinalMatches state (ia_attemptOrdinal attempt)
        then resultContradiction correlation ''promotion attempt intent no longer matches the exact durable state''
        else andThen (consumeIntended (ia_object attempt)) (\<lambda>available.
          if \<not> available
          then resultContradiction correlation
                 ''promotion attempt permission was already consumed or did not originate in this process''
          else andThen (logSent (SentCompareAndSet correlation request)) (\<lambda>_.
            andThen (callGit (git_compareAndSet git request)) (\<lambda>result.
              case result of
                Inl (CasSafetyFailure refusal) \<Rightarrow>
                  andThen (readEvidence journal (targetPromotionRunIdOf correlation)) (\<lambda>source.
                    andThen (appendTargetPromotionSafetyRefusal journal source CompareAndSetBoundary correlation
                               (Some (ia_attemptOrdinal attempt)) refusal) (\<lambda>s. succeed (RefusedAttempt s)))
              | Inl _ \<Rightarrow> succeed (AmbiguousAttempt (ia_attemptOrdinal attempt) correlation)
              | Inr success \<Rightarrow>
                  andThen (mintObservedAttempt attempt success) (\<lambda>oa. succeed (ObservedAttempt oa)))))))"

definition settleTargetPromotionAttempt ::
  "'j InRunJournalService \<Rightarrow> TargetPromotionSettlementClaim \<Rightarrow> ('j, 'g, TargetPromotionState) promotion" where
  "settleTargetPromotionAttempt journal attempt =
     (let correlation = oa_correlation attempt; basis = AfterAttempt (oa_attemptOrdinal attempt) in
      andThen (readValidatedTargetPromotionState journal correlation) (\<lambda>state.
        if \<not> pendingAttemptOrdinalMatches state (oa_attemptOrdinal attempt)
        then resultContradiction correlation ''observed promotion attempt no longer matches the exact durable state''
        else andThen (consumeObserved (oa_object attempt)) (\<lambda>available.
          if \<not> available
          then resultContradiction correlation
                 ''promotion result proof was already consumed or did not originate from the Git boundary''
          else (case decideTargetPromotionSettlement correlation (oa_result attempt) of
                  SettlementResultContradiction detail \<Rightarrow> resultContradiction correlation detail
                | SettlementStale observation \<Rightarrow> appendTargetPromotionStale journal correlation basis observation
                | SettlementSucceeded observation \<Rightarrow> appendTargetPromotionSuccess journal correlation basis observation))))"

text \<open>\<open>finishProgress\<close> of \<^verbatim>\<open>protocol-engine.ts\<close> in its three stages: the answer, the attempt, the read.\<close>

definition finishAttemptResult ::
  "'j InRunJournalService \<Rightarrow> TargetPromotionAttemptBoundaryResult \<Rightarrow> ('j, 'g, TargetPromotionState) promotion" where
  "finishAttemptResult journal result =
     (case result of
        RefusedAttempt s \<Rightarrow> succeed s
      | AmbiguousAttempt n c \<Rightarrow> succeed (PromotionPending c (NeedReconciliationRead n))
      | ObservedAttempt claim \<Rightarrow> settleTargetPromotionAttempt journal claim)"

definition finishAfterRead ::
  "'j InRunJournalService \<Rightarrow> 'g TargetPromotionGitService \<Rightarrow> TargetPromotionProgress \<Rightarrow>
   ('j, 'g, TargetPromotionState) promotion" where
  "finishAfterRead journal git afterRead =
     (case afterRead of
        ProgressAttempt authorization \<Rightarrow>
          andThen (recordTargetPromotionAttemptIntent journal authorization) (\<lambda>intended.
            andThen (sendTargetPromotionAttempt journal git intended) (finishAttemptResult journal))
      | ProgressState s \<Rightarrow> succeed s
      | ProgressRead _ \<Rightarrow> fail (PromotionDefect ''a read never yields another read authorization''))"

definition finishProgress ::
  "'j InRunJournalService \<Rightarrow> 'g TargetPromotionGitService \<Rightarrow> TargetPromotionProgress \<Rightarrow>
   ('j, 'g, TargetPromotionState) promotion" where
  "finishProgress journal git progress =
     andThen (case progress of
                ProgressRead authorization \<Rightarrow> observeTargetPromotionRead journal git authorization
              | _ \<Rightarrow> succeed progress) (finishAfterRead journal git)"

end
