(* ===== verification/Promotion_Correctness.thy ===== *)
theory Promotion_Correctness
  imports Promotion_Protocol
begin

text \<open>
  The promotion transitions keep the protocol grammar, return the state that the journal
  reconstructs, and send a compare-and-set only when its numbered intent is already durable.
  Everything is proved once against the \<open>in_run_journal\<close> laws.
\<close>

section \<open>Assertions\<close>

text \<open>
  \<open>promoAt journal valid c es S K w\<close>: the journal is valid and readable, the promotion's events in it
  are exactly \<open>es\<close>, a protocol history; \<open>S\<close> was sent so far and \<open>K\<close> are the live capabilities.
\<close>

definition promoAt ::
  "'j InRunJournalService \<Rightarrow> ('j \<Rightarrow> bool) \<Rightarrow> TargetPromotionCorrelation \<Rightarrow> TargetPromotionJournalEvent list \<Rightarrow>
   ('j \<times> SentMutation) list \<Rightarrow> TargetPromotionCapabilities \<Rightarrow> ('j, 'g) PromotionWorld \<Rightarrow> bool" where
  "promoAt journal valid c es S K w \<longleftrightarrow>
     valid (w_journal w) \<and>
     (\<exists>rs. ij_read journal (targetPromotionRunIdOf c) (w_journal w) = (Inr rs, w_journal w) \<and>
        promotionProtocolHistory rs c \<and> promotionEvents rs c = es) \<and>
     w_sent w = S \<and> w_caps w = K"

text \<open>A logged compare-and-set is justified when, at the call, the latest durable event was its intent.\<close>

definition casJustified ::
  "'j InRunJournalService \<Rightarrow> TargetPromotionCorrelation \<Rightarrow> nat \<Rightarrow> 'j \<times> SentMutation \<Rightarrow> bool" where
  "casJustified journal c n entry \<longleftrightarrow>
     snd entry = SentCompareAndSet c (targetPromotionGitRequestFor c) \<and>
     (\<exists>rs. ij_read journal (targetPromotionRunIdOf c) (fst entry) = (Inr rs, fst entry) \<and>
        latest (promotionEvents rs c) = Some (TargetPromotionAttemptIntended n c (attemptReasonFor c n)))"

text \<open>From events \<open>es\<close> and log \<open>S\<close> to \<open>es'\<close> and \<open>S'\<close>: at most one write, for a new attempt.\<close>

definition promoAdvance ::
  "'j InRunJournalService \<Rightarrow> TargetPromotionCorrelation \<Rightarrow> TargetPromotionJournalEvent list \<Rightarrow>
   ('j \<times> SentMutation) list \<Rightarrow> TargetPromotionJournalEvent list \<Rightarrow> ('j \<times> SentMutation) list \<Rightarrow> bool" where
  "promoAdvance journal c es S es' S' \<longleftrightarrow>
     prefix es es' \<and>
     (S' = S \<or> (\<exists>entry. S' = S @ [entry] \<and> casJustified journal c (Suc (attemptCount es)) entry \<and>
                  attemptCount es' = Suc (attemptCount es)))"

lemma promoAt_caps [simp]:
  "promoAt journal valid c es S K (w\<lparr>w_caps := K'\<rparr>) \<longleftrightarrow> K' = K \<and> promoAt journal valid c es S (w_caps w) w"
  by (auto simp: promoAt_def)

lemma promoAt_git [simp]: "promoAt journal valid c es S K (w\<lparr>w_git := g\<rparr>) = promoAt journal valid c es S K w"
  by (simp add: promoAt_def)

lemma triple_case_casError:
  "(\<And>r. triple P (g r) Q E) \<Longrightarrow> triple P m Q E \<Longrightarrow>
   triple P (case x of CompareAndSetFailure f \<Rightarrow> m | CasSafetyFailure r \<Rightarrow> g r | CoordinatorOwnershipError d \<Rightarrow> m) Q E"
  by (cases x) auto

lemma triple_case_settlement:
  "(\<And>d. triple P (f d) Q E) \<Longrightarrow> (\<And>x. triple P (g x) Q E) \<Longrightarrow> (\<And>x. triple P (h x) Q E) \<Longrightarrow>
   triple P (case s of SettlementResultContradiction d \<Rightarrow> f d | SettlementStale x \<Rightarrow> g x | SettlementSucceeded x \<Rightarrow> h x) Q E"
  by (cases s) auto

section \<open>Steps that do not touch the journal\<close>

lemma triple_mintRead:
  "triple (promoAt journal valid c es S K) (mintReadAuthorization correlation prev authority basis)
     (\<lambda>a w. \<exists>K'. promoAt journal valid c es S K' w \<and> ra_object a \<in> set (tc_availableReadAuthorizations K') \<and>
        ra_correlation a = correlation \<and> ra_previousAttemptOrdinal a = prev \<and> ra_authority a = authority \<and>
        ra_durableBasis a = basis) E"
  by (rule tripleI) (auto simp: mintReadAuthorization_def Let_def promoAt_def)

lemma triple_mintAttempt:
  "triple (promoAt journal valid c es S K) (mintAttemptAuthorization correlation n reason basis)
     (\<lambda>a w. \<exists>K'. promoAt journal valid c es S K' w \<and> aa_object a \<in> set (tc_availableAttemptAuthorizations K') \<and>
        aa_correlation a = correlation \<and> aa_attemptOrdinal a = n \<and> aa_reason a = reason \<and> aa_durableBasis a = basis) E"
  by (rule tripleI) (auto simp: mintAttemptAuthorization_def Let_def promoAt_def)

lemma triple_mintIntended:
  "triple (promoAt journal valid c es S K) (mintIntendedAttempt a)
     (\<lambda>i w. \<exists>K'. promoAt journal valid c es S K' w \<and> ia_object i \<in> set (tc_availableIntendedAttempts K') \<and>
        ia_correlation i = aa_correlation a \<and> ia_attemptOrdinal i = aa_attemptOrdinal a) E"
  by (rule tripleI) (auto simp: mintIntendedAttempt_def Let_def promoAt_def)

lemma triple_mintObserved:
  "triple (promoAt journal valid c es S K) (mintObservedAttempt i r)
     (\<lambda>a w. \<exists>K'. promoAt journal valid c es S K' w \<and> oa_object a \<in> set (tc_availableObservedAttempts K') \<and>
        oa_correlation a = ia_correlation i \<and> oa_attemptOrdinal a = ia_attemptOrdinal i \<and> oa_result a = r) E"
  by (rule tripleI) (auto simp: mintObservedAttempt_def Let_def promoAt_def)

lemma triple_consume:
  "triple (promoAt journal valid c es S K) (consumeRead n)
     (\<lambda>b w. (b \<longleftrightarrow> n \<in> set (tc_availableReadAuthorizations K)) \<and> (\<exists>K'. promoAt journal valid c es S K' w)) E"
  "triple (promoAt journal valid c es S K) (consumeAttempt n)
     (\<lambda>b w. (b \<longleftrightarrow> n \<in> set (tc_availableAttemptAuthorizations K)) \<and> (\<exists>K'. promoAt journal valid c es S K' w)) E"
  "triple (promoAt journal valid c es S K) (consumeIntended n)
     (\<lambda>b w. (b \<longleftrightarrow> n \<in> set (tc_availableIntendedAttempts K)) \<and> (\<exists>K'. promoAt journal valid c es S K' w)) E"
  "triple (promoAt journal valid c es S K) (consumeObserved n)
     (\<lambda>b w. (b \<longleftrightarrow> n \<in> set (tc_availableObservedAttempts K)) \<and> (\<exists>K'. promoAt journal valid c es S K' w)) E"
  by (rule tripleI; auto simp: consumeRead_def consumeAttempt_def consumeIntended_def consumeObserved_def
      Let_def promoAt_def)+

lemma triple_callGit:
  "triple (promoAt journal valid c es S K) (callGit m) (\<lambda>_. promoAt journal valid c es S K) E"
  by (rule tripleI) auto

lemma triple_resultContradiction:
  "(\<And>e w. P w \<Longrightarrow> E e w) \<Longrightarrow> triple P (resultContradiction correlation detail) Q E"
  unfolding resultContradiction_def by (rule triple_fail) simp


section \<open>Reading and appending\<close>

lemma validate_protocolHistory:
  assumes "wellFormedHistory runId rs" "promotionProtocolHistory rs c"
  shows "validateTargetPromotionState rs c w = (Inr (map_option stateOfEvent (latest (promotionEvents rs c))), w)"
proof -
  have h: "promotion_history c (promotionEvents rs c)" and cf: "targetPromotionCorrelationConflictFor rs c = None"
    using assms(2) by (auto simp: promotionProtocolHistory_def)
  have "deferralsSound (relevantPromotionOccurrences rs c) \<and> refusalsSound (relevantPromotionOccurrences rs c)"
    using h by (rule promotion_history_sound) (simp_all add: promotionEvents_def relevant_increasing [OF assms(1)])
  then have "targetPromotionReconciliationDeferralIssueFor (journalRecordsForPromotionRequest rs (tp_requestId c)) c = None"
    "targetPromotionSafetyRefusalIssueFor (journalRecordsForPromotionRequest rs (tp_requestId c)) c = None"
    by (simp_all add: deferralIssue_None_iff refusalIssue_None_iff)
  with cf derive_protocolHistory [OF assms] show ?thesis
    by (simp add: validateTargetPromotionState_def Let_def orElse_def derive_for_request)
qed

lemma safetyObservations_protocolHistory:
  assumes "wellFormedHistory runId rs" "promotionProtocolHistory rs c"
  shows "safetyObservations (journalRecordsForPromotionRequest rs (tp_requestId c)) =
         filter isSafetyRefused (promotionEvents rs c)"
proof -
  have cf: "targetPromotionCorrelationConflictFor rs c = None"
    using assms(2) by (auto simp: promotionProtocolHistory_def)
  have "List.map_filter (\<lambda>r. promotionEventOf (jr_event r)) (journalRecordsForPromotionRequest xs (tp_requestId c)) =
        map oc_event (List.map_filter (occurrenceFor c) xs)" if "set xs \<subseteq> set rs" for xs
    using that
  proof (induction xs)
    case (Cons x xs)
    with cf show ?case
      by (cases "jr_event x")
        (auto simp: journalRecordsForPromotionRequest_def occurrenceFor_def promotionOccurrence_def conflict_None_iff
          split: option.splits)
  qed (simp add: journalRecordsForPromotionRequest_def)
  then show ?thesis
    by (simp add: safetyObservations_def promotionEvents_def relevant_wellFormed [OF assms(1)])
qed

lemma derive_filtered_snoc:
  assumes "jr_event r = TargetPromotionEvent e" "pe_correlation e = c"
  shows "deriveTargetPromotionState (journalRecordsForPromotionRequest rs (tp_requestId c) @ [r]) c =
         deriveTargetPromotionState (rs @ [r]) c"
proof -
  have "journalRecordsForPromotionRequest rs (tp_requestId c) @ [r] =
        journalRecordsForPromotionRequest (rs @ [r]) (tp_requestId c)"
    using assms by (simp add: journalRecordsForPromotionRequest_def)
  then show ?thesis by (simp add: derive_for_request)
qed

context in_run_journal
begin

lemma promoAt_history:
  assumes "promoAt journal valid c es S K w"
  obtains rs where "ij_read journal (targetPromotionRunIdOf c) (w_journal w) = (Inr rs, w_journal w)"
    "wellFormedHistory (targetPromotionRunIdOf c) rs" "promotionProtocolHistory rs c" "promotionEvents rs c = es"
    "promotion_history c es"
  using assms read_wellFormed by (auto simp: promoAt_def promotionProtocolHistory_def)

lemma promoAt_promotion_history: "promoAt journal valid c es S K w \<Longrightarrow> promotion_history c es"
  by (erule promoAt_history)

lemma triple_readEvidence:
  "triple (promoAt journal valid c es S K) (readEvidence journal (targetPromotionRunIdOf c))
     (\<lambda>source w. promoAt journal valid c es S K w \<and>
        ij_read journal (targetPromotionRunIdOf c) (w_journal w) = (Inr source, w_journal w)) (\<lambda>_ _. False)"
  by (rule tripleI)
    (auto simp: readEvidence_def liftJournal_Inr liftJournal_Inl promoAt_def)

lemma validate_promoAt:
  assumes "promoAt journal valid c es S K w"
    "ij_read journal (targetPromotionRunIdOf c) (w_journal w) = (Inr source, w_journal w)"
  shows "validateTargetPromotionState source c w = (Inr (map_option stateOfEvent (latest es)), w)"
proof -
  from assms(1) obtain rs where "ij_read journal (targetPromotionRunIdOf c) (w_journal w) = (Inr rs, w_journal w)"
    "wellFormedHistory (targetPromotionRunIdOf c) rs" "promotionProtocolHistory rs c" "promotionEvents rs c = es"
    by (rule promoAt_history)
  with assms(2) validate_protocolHistory show ?thesis by auto
qed

lemma triple_readValidated:
  "triple (promoAt journal valid c es S K) (readValidatedTargetPromotionState journal c)
     (\<lambda>state w. state = map_option stateOfEvent (latest es) \<and> promoAt journal valid c es S K w) (\<lambda>_ _. False)"
  unfolding readValidatedTargetPromotionState_def
  by (rule triple_andThen [OF triple_readEvidence]; rule tripleI) (auto simp: validate_promoAt)

lemma promoAt_append:
  assumes at: "promoAt journal valid c es S K w" and e: "pe_correlation e = c" "key = promotionKeyOf e"
    and ap: "ij_append journal (targetPromotionRunIdOf c) key (TargetPromotionEvent e) (w_journal w) = (Inr r, j')"
    and rs: "ij_read journal (targetPromotionRunIdOf c) (w_journal w) = (Inr rs, w_journal w)"
    and grammar: "\<forall>e'\<in>set es. promotionKeyOf e' \<noteq> promotionKeyOf e \<Longrightarrow> promotion_history c (es @ [e])"
  shows "e \<in> set es \<and> j' = w_journal w \<or>
     promoAt journal valid c (es @ [e]) S K (w\<lparr>w_journal := j'\<rparr>) \<and> r = nextRecord (targetPromotionRunIdOf c) key (TargetPromotionEvent e) rs \<and>
     wellFormedHistory (targetPromotionRunIdOf c) (rs @ [r]) \<and> promotionProtocolHistory (rs @ [r]) c \<and>
     promotionEvents (rs @ [r]) c = es @ [e]"
proof -
  from at rs have v: "valid (w_journal w)" and pph: "promotionProtocolHistory rs c" and es: "promotionEvents rs c = es"
    and SK: "w_sent w = S" "w_caps w = K" by (auto simp: promoAt_def)
  have wf: "wellFormedHistory (targetPromotionRunIdOf c) rs" by (rule read_wellFormed [OF v rs])
  from v rs ap show ?thesis
  proof (cases rule: append_from_history)
    case existing
    with e es show ?thesis by (auto simp: promotionEvents_mem [OF wf, symmetric] intro!: disjI1)
      (use existing promotionEvents_mem [OF wf] in blast)
  next
    case extended
    have wf': "wellFormedHistory (targetPromotionRunIdOf c) (rs @ [r])"
      using wf extended by (simp add: wellFormedHistory_snoc)
    have keys: "\<forall>e'\<in>set es. promotionKeyOf e' \<noteq> promotionKeyOf e"
    proof
      fix e' assume "e' \<in> set es"
      then obtain r' where "r' \<in> set rs" "jr_event r' = TargetPromotionEvent e'" "pe_correlation e' = c"
        using es promotionEvents_mem [OF wf] by blast
      with pph have "promotionKeyOf e' \<in> jr_key ` set rs" by (force simp: promotionProtocolHistory_def)
      with extended(1) e show "promotionKeyOf e' \<noteq> promotionKeyOf e" by auto
    qed
    have re: "jr_event r = TargetPromotionEvent e" "jr_key r = promotionKeyOf e" using extended(2) e by simp_all
    have pph': "promotionProtocolHistory (rs @ [r]) c"
      by (rule protocolHistory_snoc [OF wf' re(1) e(1) pph _ re(2)]) (use grammar [OF keys] es in simp)
    have es': "promotionEvents (rs @ [r]) c = es @ [e]"
      using promotionEvents_snoc [OF wf' re(1) e(1)] es by simp
    have "promoAt journal valid c (es @ [e]) S K (w\<lparr>w_journal := j'\<rparr>)"
      using append_valid [OF v ap] extended(2,3) pph' es' SK by (simp add: promoAt_def)
    with wf' pph' es' extended(2) show ?thesis by blast
  qed
qed

lemma triple_append:
  assumes "pe_correlation e = c" "key = promotionKeyOf e"
    and "promotion_history c es \<Longrightarrow> \<forall>e'\<in>set es. promotionKeyOf e' \<noteq> promotionKeyOf e \<Longrightarrow> promotion_history c (es @ [e])"
  shows "triple (promoAt journal valid c es S K) (appendTargetPromotionEvent journal c key e)
     (\<lambda>_ w. e \<in> set es \<and> promoAt journal valid c es S K w \<or> promoAt journal valid c (es @ [e]) S K w)
     (\<lambda>_. promoAt journal valid c es S K)"
proof (rule tripleI)
  fix w r w'
  assume at: "promoAt journal valid c es S K w"
    and m: "appendTargetPromotionEvent journal c key e w = (Inr r, w')"
  from m obtain j' where j': "w' = w\<lparr>w_journal := j'\<rparr>"
    "ij_append journal (targetPromotionRunIdOf c) key (TargetPromotionEvent e) (w_journal w) = (Inr r, j')"
    by (auto simp: appendTargetPromotionEvent_def liftJournal_Inr)
  from at obtain rs where rs: "ij_read journal (targetPromotionRunIdOf c) (w_journal w) = (Inr rs, w_journal w)"
    by (rule promoAt_history)
  from promoAt_append [OF at assms(1,2) j'(2) rs assms(3) [OF promoAt_promotion_history [OF at]]] at j'(1)
  show "e \<in> set es \<and> promoAt journal valid c es S K w' \<or> promoAt journal valid c (es @ [e]) S K w'" by auto
next
  fix w err w'
  assume "promoAt journal valid c es S K w" "appendTargetPromotionEvent journal c key e w = (Inl err, w')"
  then show "promoAt journal valid c es S K w'"
    by (auto simp: appendTargetPromotionEvent_def liftJournal_Inl dest: append_refused)
qed

end

section \<open>What a step may return\<close>

text \<open>
  A returned state is the reconstructed one, with one exception: when a deferral for the same
  attempt is already durable and was followed by a safety refusal, the read-only step returns that
  deferral again.
\<close>

definition returnedState ::
  "TargetPromotionCorrelation \<Rightarrow> TargetPromotionJournalEvent list \<Rightarrow> TargetPromotionState \<Rightarrow> bool" where
  "returnedState c es s \<longleftrightarrow>
     map_option stateOfEvent (latest es) = Some s \<or>
     (\<exists>n d. s = PromotionReconciliationDeferred n c d \<and> TargetPromotionReconciliationDeferred n c d \<in> set es \<and>
        es \<noteq> [] \<and> isSafetyRefused (last es) \<and> lastOrdinal es = Some n)"

definition readAuthorizationOk ::
  "TargetPromotionCorrelation \<Rightarrow> TargetPromotionCapabilities \<Rightarrow> TargetPromotionReadAuthorization \<Rightarrow> bool" where
  "readAuthorizationOk c K a \<longleftrightarrow>
     ra_correlation a = c \<and> ra_object a \<in> set (tc_availableReadAuthorizations K) \<and>
     (case ra_durableBasis a of
        PendingInitial \<Rightarrow> ra_previousAttemptOrdinal a = None
      | PendingAttempt \<Rightarrow> True
      | DeferredTargetReadFailed \<Rightarrow> ra_authority a = RetryAuthorized
      | DeferredRetryAuthority \<Rightarrow> False)"

definition attemptAuthorizationOk ::
  "TargetPromotionCorrelation \<Rightarrow> TargetPromotionJournalEvent list \<Rightarrow> TargetPromotionCapabilities \<Rightarrow>
   TargetPromotionAttemptAuthorization \<Rightarrow> bool" where
  "attemptAuthorizationOk c es K a \<longleftrightarrow>
     aa_correlation a = c \<and> aa_object a \<in> set (tc_availableAttemptAuthorizations K) \<and>
     aa_attemptOrdinal a = Suc (attemptCount es) \<and> aa_attemptOrdinal a \<le> targetPromotionAttemptLimit \<and>
     aa_reason a = attemptReasonFor c (aa_attemptOrdinal a) \<and> es \<noteq> [] \<and> \<not> isTerminalPromotion (last es)"

definition is_ProgressRead :: "TargetPromotionProgress \<Rightarrow> bool" where
  "is_ProgressRead p = (case p of ProgressRead _ \<Rightarrow> True | _ \<Rightarrow> False)"

lemma is_ProgressRead_simps [simp]:
  "is_ProgressRead (ProgressRead a)" "\<not> is_ProgressRead (ProgressState s)" "\<not> is_ProgressRead (ProgressAttempt b)"
  by (simp_all add: is_ProgressRead_def)

fun progressOk ::
  "TargetPromotionCorrelation \<Rightarrow> TargetPromotionJournalEvent list \<Rightarrow> TargetPromotionCapabilities \<Rightarrow>
   TargetPromotionProgress \<Rightarrow> bool" where
  "progressOk c es K (ProgressState s) = returnedState c es s"
| "progressOk c es K (ProgressRead a) = readAuthorizationOk c K a"
| "progressOk c es K (ProgressAttempt a) = attemptAuthorizationOk c es K a"

lemma readBasis_history:
  assumes h: "promotion_history c es" and ok: "readAuthorizationOk c K a"
    and m: "targetPromotionReadBasisMatches a (map_option stateOfEvent (latest es))"
  shows "es \<noteq> []" "\<not> isTerminalPromotion (last es)" "ra_previousAttemptOrdinal a = lastOrdinal es"
    "ra_authority a = ReadOnly \<Longrightarrow> isAttempt (last es) \<or> isSafetyRefused (last es) \<or> isIntended (last es)"
proof -
  let ?st = "map_option stateOfEvent (latest es)"
  have pending: "es \<noteq> [] \<and> \<not> isTerminalPromotion (last es) \<and> ra_previousAttemptOrdinal a = lastOrdinal es \<and>
      (isAttempt (last es) \<or> isSafetyRefused (last es) \<or> isIntended (last es))"
    if "ra_durableBasis a \<in> {PendingInitial, PendingAttempt}"
  proof -
    from that m obtain retry where r: "retryOf ?st = Some retry"
      and p: "ra_durableBasis a = PendingInitial \<Longrightarrow> retry = NeedInitialReconciliationRead"
        "ra_durableBasis a = PendingAttempt \<Longrightarrow> \<exists>n. retry = NeedReconciliationRead n \<and> ra_previousAttemptOrdinal a = Some n"
      by (auto simp: targetPromotionReadBasisMatches_def pendingInitialReadMatches_def pendingAttemptReadMatches_def
          split: option.splits TargetPromotionPendingRetry.splits)
    note rh = retry_history [OF h r]
    have "isAttempt (last es) \<or> isSafetyRefused (last es) \<or> isIntended (last es)"
      using r rh(1) by (cases "last es") (auto simp: latest_def)
    with rh that p ok show ?thesis by (auto simp: readAuthorizationOk_def)
  qed
  show "es \<noteq> []" "\<not> isTerminalPromotion (last es)" "ra_previousAttemptOrdinal a = lastOrdinal es"
  proof (atomize (full), cases "ra_durableBasis a = DeferredTargetReadFailed")
    case True
    with m obtain n c' d where "?st = Some (PromotionReconciliationDeferred n c' (TargetReadFailed d))"
      "ra_previousAttemptOrdinal a = Some n"
      by (auto simp: targetPromotionReadBasisMatches_def deferredReadMatches_def
          split: option.splits TargetPromotionState.splits TargetPromotionReconciliationDeferral.splits)
    with deferred_history [OF h this(1)]
    show "es \<noteq> [] \<and> \<not> isTerminalPromotion (last es) \<and> ra_previousAttemptOrdinal a = lastOrdinal es" by simp
  next
    case False
    with ok pending show "es \<noteq> [] \<and> \<not> isTerminalPromotion (last es) \<and> ra_previousAttemptOrdinal a = lastOrdinal es"
      by (cases "ra_durableBasis a") (auto simp: readAuthorizationOk_def)
  qed
  assume "ra_authority a = ReadOnly"
  with ok pending show "isAttempt (last es) \<or> isSafetyRefused (last es) \<or> isIntended (last es)"
    by (cases "ra_durableBasis a") (auto simp: readAuthorizationOk_def)
qed

definition boundaryOk :: "TargetPromotionCorrelation \<Rightarrow> TargetPromotionJournalEvent list \<Rightarrow> TargetPromotionCapabilities \<Rightarrow>
    nat \<Rightarrow> TargetPromotionAttemptBoundaryResult \<Rightarrow> bool" where
  "boundaryOk c es K n result =
     (case result of
        ObservedAttempt claim \<Rightarrow> oa_correlation claim = c \<and> oa_attemptOrdinal claim = n \<and>
          oa_object claim \<in> set (tc_availableObservedAttempts K) \<and> lastOrdinal es = Some n \<and> es \<noteq> [] \<and>
          \<not> isTerminalPromotion (last es)
      | AmbiguousAttempt m c' \<Rightarrow> m = n \<and> c' = c \<and> map_option stateOfEvent (latest es) = Some (PromotionPending c (NeedReconciliationRead n))
      | RefusedAttempt s \<Rightarrow> map_option stateOfEvent (latest es) = Some s)"

text \<open>What a read decision may be, given the history it was made from.\<close>

definition readDecisionOk ::
  "TargetPromotionCorrelation \<Rightarrow> TargetPromotionJournalEvent list \<Rightarrow> TargetPromotionReadDecision \<Rightarrow> bool" where
  "readDecisionOk c es decision =
     (case decision of
        AttemptAuthorized n _ reason \<Rightarrow>
          n = Suc (attemptCount es) \<and> reason = attemptReasonFor c n \<and> n \<le> targetPromotionAttemptLimit
      | NonConvergent n _ \<Rightarrow> n = targetPromotionAttemptLimit \<and> lastOrdinal es = Some targetPromotionAttemptLimit
      | ReconciliationDeferred n d \<Rightarrow>
          lastOrdinal es = Some n \<and> targetPromotionReconciliationDeferralFieldIssue n c d = None \<and>
          (isAttempt (last es) \<or> isSafetyRefused (last es))
      | ReadStale basis _ \<Rightarrow> basisOrdinal basis = lastOrdinal es
      | ReadSucceeded basis _ \<Rightarrow> basisOrdinal basis = lastOrdinal es
      | _ \<Rightarrow> True)"

lemma basisOrdinal_terminalBasisFor [simp]: "basisOrdinal (terminalBasisFor p) = p"
  by (cases p) (simp_all add: terminalBasisFor_def)

lemma readDecisionOk_decisions:
  assumes h: "promotion_history c es" and ok: "readAuthorizationOk c K a"
    and m: "targetPromotionReadBasisMatches a (map_option stateOfEvent (latest es))"
  shows "readDecisionOk c es (decideSuccessfulTargetPromotionRead a observation)"
    and "readDecisionOk c es (decideFailedTargetPromotionRead a failure)"
proof -
  have c: "ra_correlation a = c" using ok by (simp add: readAuthorizationOk_def)
  note hist = readBasis_history [OF h ok m]
  have deferrable: "isAttempt (last es) \<or> isSafetyRefused (last es)"
    if "ra_authority a = ReadOnly" "lastOrdinal es = Some n" for n
    using hist(4) [OF that(1)] promotion_history_last [OF h hist(1)] that(2)
    by (cases "last es") (auto simp: lastEventSound_def)
  note defs = readDecisionOk_def decideExpectedHeadRead_def targetPromotionReconciliationDeferralFieldIssue_def
    attemptReasonFor_def lastOrdinal_def
  show "readDecisionOk c es (decideSuccessfulTargetPromotionRead a observation)"
    using promotion_history_limit [OF h] hist(3) c deferrable
    by (auto simp: decideSuccessfulTargetPromotionRead_def Let_def defs targetPromotionAttemptLimit_def
        split: option.splits if_splits)
  show "readDecisionOk c es (decideFailedTargetPromotionRead a failure)"
    using promotion_history_limit [OF h] hist(3) c deferrable
    by (auto simp: decideFailedTargetPromotionRead_def defs targetPromotionAttemptLimit_def split: option.splits if_splits)
qed

lemma returnedState_latest [simp]: "returnedState c (es @ [e]) (stateOfEvent e)"
  by (simp add: returnedState_def)

definition sentAtMost ::
  "'j InRunJournalService \<Rightarrow> TargetPromotionCorrelation \<Rightarrow> nat \<Rightarrow> ('j \<times> SentMutation) list \<Rightarrow> ('j \<times> SentMutation) list \<Rightarrow> bool" where
  "sentAtMost journal c n S S' \<longleftrightarrow> S' = S \<or> (\<exists>entry. S' = S @ [entry] \<and> casJustified journal c n entry)"

lemma sentAtMost_one: "casJustified journal c n entry \<Longrightarrow> sentAtMost journal c n S (S @ [entry])"
  by (auto simp: sentAtMost_def)

text \<open>Some protocol history and log satisfying \<open>R\<close> hold in the world.\<close>

definition promoReached ::
  "'j InRunJournalService \<Rightarrow> ('j \<Rightarrow> bool) \<Rightarrow> TargetPromotionCorrelation \<Rightarrow>
   (TargetPromotionJournalEvent list \<Rightarrow> ('j \<times> SentMutation) list \<Rightarrow> bool) \<Rightarrow> ('j, 'g) PromotionWorld \<Rightarrow> bool" where
  "promoReached journal valid c R w \<longleftrightarrow> (\<exists>es' S' K'. promoAt journal valid c es' S' K' w \<and> R es' S')"

lemma promoReachedI: "promoAt journal valid c es S K w \<Longrightarrow> R es S \<Longrightarrow> promoReached journal valid c R w"
  by (auto simp: promoReached_def)

lemma promoReached_mono:
  "promoReached journal valid c R w \<Longrightarrow> (\<And>es S. R es S \<Longrightarrow> R' es S) \<Longrightarrow> promoReached journal valid c R' w"
  by (auto simp: promoReached_def)

lemma promoAdvance_attempt:
  "prefix (es @ [e]) es' \<Longrightarrow> attemptCount es' = Suc (attemptCount es) \<Longrightarrow>
   sentAtMost journal c (Suc (attemptCount es)) S S' \<Longrightarrow> promoAdvance journal c es S es' S'"
  by (auto simp: promoAdvance_def sentAtMost_def dest: append_prefixD)

lemma promoAdvance_prefix:
  "promoAdvance journal c es1 S es' S' \<Longrightarrow> prefix es es1 \<Longrightarrow> attemptCount es1 = attemptCount es \<Longrightarrow>
   promoAdvance journal c es S es' S'"
  by (auto simp: promoAdvance_def intro: prefix_order.trans)

lemma promoAdvance_refl [simp]: "promoAdvance journal c es S es S"
  by (simp add: promoAdvance_def)


section \<open>The transitions\<close>

context in_run_journal
begin

lemma triple_append_new:
  assumes "pe_correlation e = c" "key = promotionKeyOf e"
    and "promotion_history c es \<Longrightarrow> promotion_history c (es @ [e])" "promotion_history c es \<Longrightarrow> e \<notin> set es"
  shows "triple (promoAt journal valid c es S K) (appendTargetPromotionEvent journal c key e)
     (\<lambda>_. promoAt journal valid c (es @ [e]) S K) (\<lambda>_. promoAt journal valid c es S K)"
  by (rule triple_conseq [OF triple_append [OF assms(1,2)]])
    (use assms(3,4) in \<open>auto dest: promoAt_promotion_history\<close>)

lemma triple_appendTerminal:
  assumes live: "es \<noteq> []" "\<not> isTerminalPromotion (last es)"
  shows "basisOrdinal basis = lastOrdinal es \<Longrightarrow>
      triple (promoAt journal valid c es S K) (appendTargetPromotionSuccess journal c basis obs)
        (\<lambda>s w. s = PromotionSucceeded basis c obs \<and> promoAt journal valid c (es @ [TargetPromotionObservedSuccess basis c obs]) S K w)
        (\<lambda>_. promoAt journal valid c es S K)"
    and "basisOrdinal basis = lastOrdinal es \<Longrightarrow>
      triple (promoAt journal valid c es S K) (appendTargetPromotionStale journal c basis sobs)
        (\<lambda>s w. s = PromotionStale basis c sobs \<and> promoAt journal valid c (es @ [TargetPromotionStale basis c sobs]) S K w)
        (\<lambda>_. promoAt journal valid c es S K)"
    and "lastOrdinal es = Some targetPromotionAttemptLimit \<Longrightarrow>
      triple (promoAt journal valid c es S K)
        (appendTargetPromotionNonConvergence journal c targetPromotionAttemptLimit nobs)
        (\<lambda>s w. s = PromotionNonConvergent targetPromotionAttemptLimit targetPromotionAttemptLimit c nobs \<and>
           promoAt journal valid c
             (es @ [TargetPromotionNonConvergence targetPromotionAttemptLimit targetPromotionAttemptLimit c nobs]) S K w)
        (\<lambda>_. promoAt journal valid c es S K)"
proof -
  have fresh: "promotion_history c es \<Longrightarrow> e \<in> set es \<Longrightarrow> \<not> isTerminalPromotion e" for e
    using promotion_history_not_terminal [of c es] live by auto
  assume b: "basisOrdinal basis = lastOrdinal es"
  show "triple (promoAt journal valid c es S K) (appendTargetPromotionSuccess journal c basis obs)
        (\<lambda>s w. s = PromotionSucceeded basis c obs \<and> promoAt journal valid c (es @ [TargetPromotionObservedSuccess basis c obs]) S K w)
        (\<lambda>_. promoAt journal valid c es S K)"
    unfolding appendTargetPromotionSuccess_def
    by (rule triple_andThen [OF triple_append_new triple_succeed])
      (auto intro: promotion_history.succeeded [OF _ live b] dest: fresh)
  show "triple (promoAt journal valid c es S K) (appendTargetPromotionStale journal c basis sobs)
        (\<lambda>s w. s = PromotionStale basis c sobs \<and> promoAt journal valid c (es @ [TargetPromotionStale basis c sobs]) S K w)
        (\<lambda>_. promoAt journal valid c es S K)"
    unfolding appendTargetPromotionStale_def
    by (rule triple_andThen [OF triple_append_new triple_succeed])
      (auto intro: promotion_history.stale [OF _ live b] dest: fresh)
next
  have fresh: "promotion_history c es \<Longrightarrow> e \<in> set es \<Longrightarrow> \<not> isTerminalPromotion e" for e
    using promotion_history_not_terminal [of c es] live by auto
  assume "lastOrdinal es = Some targetPromotionAttemptLimit"
  then have n: "attemptCount es = targetPromotionAttemptLimit" by (simp add: lastOrdinal_def split: if_splits)
  show "triple (promoAt journal valid c es S K)
        (appendTargetPromotionNonConvergence journal c targetPromotionAttemptLimit nobs)
        (\<lambda>s w. s = PromotionNonConvergent targetPromotionAttemptLimit targetPromotionAttemptLimit c nobs \<and>
           promoAt journal valid c
             (es @ [TargetPromotionNonConvergence targetPromotionAttemptLimit targetPromotionAttemptLimit c nobs]) S K w)
        (\<lambda>_. promoAt journal valid c es S K)"
    unfolding appendTargetPromotionNonConvergence_def
    by (rule triple_andThen [OF triple_append_new triple_succeed])
      (auto intro: promotion_history.nonconvergent [OF _ live n] dest: fresh)
qed

lemma triple_appendDeferral:
  assumes live: "es \<noteq> []" "\<not> isTerminalPromotion (last es)" and o: "lastOrdinal es = Some n"
    and d: "targetPromotionReconciliationDeferralFieldIssue n c d = None"
    and l: "isAttempt (last es) \<or> isSafetyRefused (last es)"
  shows "triple (promoAt journal valid c es S K) (appendTargetPromotionReconciliationDeferral journal c n d)
     (\<lambda>s w. s = PromotionReconciliationDeferred n c d \<and> (\<exists>es'. promoAt journal valid c es' S K w \<and>
        (es' = es \<or> es' = es @ [TargetPromotionReconciliationDeferred n c d]) \<and> returnedState c es' s))
     (\<lambda>_. promoAt journal valid c es S K)"
  unfolding appendTargetPromotionReconciliationDeferral_def
proof (rule triple_andThen [OF triple_append triple_succeed])
  fix w and x :: JournalRecord
  assume a: "TargetPromotionReconciliationDeferred n c d \<in> set es \<and> promoAt journal valid c es S K w \<or>
    promoAt journal valid c (es @ [TargetPromotionReconciliationDeferred n c d]) S K w"
  have "isSafetyRefused (last es)" if "TargetPromotionReconciliationDeferred n c d \<in> set es" "promoAt journal valid c es S K w"
    using that l no_deferral_after_attempt [OF promoAt_promotion_history [OF that(2)] live(1) _ o] by fastforce
  with a live o show "PromotionReconciliationDeferred n c d = PromotionReconciliationDeferred n c d \<and>
    (\<exists>es'. promoAt journal valid c es' S K w \<and>
        (es' = es \<or> es' = es @ [TargetPromotionReconciliationDeferred n c d]) \<and>
        returnedState c es' (PromotionReconciliationDeferred n c d))"
    by (auto simp: returnedState_def)
next
  assume h: "promotion_history c es"
    and k: "\<forall>e'\<in>set es. promotionKeyOf e' \<noteq> promotionKeyOf (TargetPromotionReconciliationDeferred n c d)"
  have "\<forall>e\<in>set es. deferralOrdinal e \<noteq> Some n"
  proof
    fix e assume e: "e \<in> set es"
    show "deferralOrdinal e \<noteq> Some n"
      using k [rule_format, OF e] promotion_history_correlation [OF h e] by (cases e) auto
  qed
  then show "promotion_history c (es @ [TargetPromotionReconciliationDeferred n c d])"
    by (rule promotion_history.deferred [OF h live o _ d])
qed simp_all

lemma triple_append_record:
  assumes e: "pe_correlation e = c" "key = promotionKeyOf e"
    and g: "promotion_history c es \<Longrightarrow> promotion_history c (es @ [e])" and new: "promotion_history c es \<Longrightarrow> e \<notin> set es"
  shows "triple (\<lambda>w. promoAt journal valid c es S K w \<and>
            ij_read journal (targetPromotionRunIdOf c) (w_journal w) = (Inr source, w_journal w))
     (appendTargetPromotionEvent journal c key e)
     (\<lambda>r w. promoAt journal valid c (es @ [e]) S K w \<and>
        deriveTargetPromotionState (journalRecordsForPromotionRequest source (tp_requestId c) @ [r]) c = Some (stateOfEvent e))
     (\<lambda>_. promoAt journal valid c es S K)"
proof (rule tripleI)
  fix w r w'
  assume a: "promoAt journal valid c es S K w \<and>
            ij_read journal (targetPromotionRunIdOf c) (w_journal w) = (Inr source, w_journal w)"
    and m: "appendTargetPromotionEvent journal c key e w = (Inr r, w')"
  from m obtain j' where j': "w' = w\<lparr>w_journal := j'\<rparr>"
    "ij_append journal (targetPromotionRunIdOf c) key (TargetPromotionEvent e) (w_journal w) = (Inr r, j')"
    by (auto simp: appendTargetPromotionEvent_def liftJournal_Inr)
  have h: "promotion_history c es" using a promoAt_promotion_history by blast
  from promoAt_append [OF _ e j'(2) _ g [OF h]] a new [OF h]
  have r: "r = nextRecord (targetPromotionRunIdOf c) key (TargetPromotionEvent e) source"
    and wf: "wellFormedHistory (targetPromotionRunIdOf c) (source @ [r])" and pph: "promotionProtocolHistory (source @ [r]) c"
    and ev: "promotionEvents (source @ [r]) c = es @ [e]" and at: "promoAt journal valid c (es @ [e]) S K w'"
    by (auto simp: j'(1))
  have "deriveTargetPromotionState (journalRecordsForPromotionRequest source (tp_requestId c) @ [r]) c =
        deriveTargetPromotionState (source @ [r]) c"
    by (rule derive_filtered_snoc [OF _ e(1)]) (simp add: r)
  with derive_protocolHistory [OF wf pph] ev at
  show "promoAt journal valid c (es @ [e]) S K w' \<and>
        deriveTargetPromotionState (journalRecordsForPromotionRequest source (tp_requestId c) @ [r]) c = Some (stateOfEvent e)"
    by simp
next
  fix w err w'
  assume "promoAt journal valid c es S K w \<and>
            ij_read journal (targetPromotionRunIdOf c) (w_journal w) = (Inr source, w_journal w)"
    "appendTargetPromotionEvent journal c key e w = (Inl err, w')"
  then show "promoAt journal valid c es S K w'"
    by (auto simp: appendTargetPromotionEvent_def liftJournal_Inl dest: append_refused)
qed

lemma triple_recordSafety:
  assumes live: "es \<noteq> []" "\<not> isTerminalPromotion (last es)" and b: "basisOrdinal basis = lastOrdinal es"
    and cas: "boundary = CompareAndSetBoundary \<Longrightarrow> isAttempt (last es)"
    and k: "k = length (filter isSafetyRefused es) + 1"
  shows "triple (\<lambda>w. promoAt journal valid c es S K w \<and>
            ij_read journal (targetPromotionRunIdOf c) (w_journal w) = (Inr source, w_journal w))
     (recordSafety journal (journalRecordsForPromotionRequest source (tp_requestId c)) boundary c basis refusal k)
     (\<lambda>s w. promoAt journal valid c (es @ [TargetPromotionSafetyRefused boundary basis c k refusal]) S K w \<and>
        s = stateOfEvent (TargetPromotionSafetyRefused boundary basis c k refusal))
     (\<lambda>_. promoAt journal valid c es S K)"
proof -
  let ?e = "TargetPromotionSafetyRefused boundary basis c k refusal"
  have new: "?e \<notin> set es" if "promotion_history c es"
    using refusal_ordinal_fresh [OF that, of ?e k] k by auto
  show ?thesis
    unfolding recordSafety_def
    by (rule triple_andThen [OF triple_append_record [of ?e]])
      (auto intro: promotion_history.refused [OF _ live b k cas] tripleI dest: new)
qed

lemma triple_appendSafetyRefusal:
  assumes live: "es \<noteq> []" "\<not> isTerminalPromotion (last es)" and b: "previous = lastOrdinal es"
    and cas: "boundary = CompareAndSetBoundary \<Longrightarrow> isAttempt (last es)"
  shows "triple (\<lambda>w. promoAt journal valid c es S K w \<and>
            ij_read journal (targetPromotionRunIdOf c) (w_journal w) = (Inr source, w_journal w))
     (appendTargetPromotionSafetyRefusal journal source boundary c previous refusal)
     (\<lambda>s w. \<exists>es'. promoAt journal valid c es' S K w \<and> map_option stateOfEvent (latest es') = Some s \<and>
        (es' = es \<or> (\<exists>k. es' = es @ [TargetPromotionSafetyRefused boundary (terminalBasisFor previous) c k refusal])))
     (\<lambda>_. promoAt journal valid c es S K)"
    (is "triple ?P ?m ?Q ?E")
proof (rule tripleI)
  let ?k = "length (filter isSafetyRefused es) + 1"
  let ?rec = "recordSafety journal (journalRecordsForPromotionRequest source (tp_requestId c)) boundary c
                (terminalBasisFor previous) refusal ?k"
  have rec: "triple ?P ?rec ?Q ?E"
    by (rule triple_conseq [OF triple_recordSafety [OF live _ cas refl]]) (auto simp: b)
  have body: "?m w = ?rec w \<or> (\<exists>s. ?m w = (Inr s, w) \<and> map_option stateOfEvent (latest es) = Some s)"
    if a: "?P w" for w
  proof -
    from a obtain rs where rs: "ij_read journal (targetPromotionRunIdOf c) (w_journal w) = (Inr rs, w_journal w)"
      "wellFormedHistory (targetPromotionRunIdOf c) rs" "promotionProtocolHistory rs c" "promotionEvents rs c = es"
      using promoAt_history by blast
    with a have [simp]: "source = rs" by simp
    show ?thesis
      unfolding appendTargetPromotionSafetyRefusal_def Let_def
      by (auto simp: derive_for_request derive_protocolHistory [OF rs(2,3)] safetyObservations_protocolHistory [OF rs(2,3)]
          rs(4) split: option.splits TargetPromotionState.splits prod.splits)
  qed
  show "?Q s w'" if "?P w" "?m w = (Inr s, w')" for w s w'
    using body [OF that(1)] that triple_Inr [OF rec that(1), of s w'] by auto
  show "?E err w'" if "?P w" "?m w = (Inl err, w')" for w err w'
    using body [OF that(1)] that triple_Inl [OF rec that(1), of err w'] by auto
qed

text \<open>After a read: nothing sent, at most one event more, and a lawful next step.\<close>

lemma triple_finishReadDecision:
  assumes c: "ra_correlation a = c" and live: "es \<noteq> []" "\<not> isTerminalPromotion (last es)"
    and ok: "readDecisionOk c es decision"
  shows "triple (promoAt journal valid c es S K) (finishReadDecision journal a decision)
     (\<lambda>p w. \<exists>es' K'. promoAt journal valid c es' S K' w \<and> prefix es es' \<and> attemptCount es' = attemptCount es \<and>
        progressOk c es' K' p \<and> \<not> is_ProgressRead p)
     (\<lambda>_. promoAt journal valid c es S K)"
proof (cases decision)
  case (AttemptAuthorized n basis reason)
  show ?thesis
    unfolding finishReadDecision_def AttemptAuthorized Let_def TargetPromotionReadDecision.case c
    by (rule triple_andThen [OF triple_mintAttempt triple_succeed])
      (use ok live in \<open>auto simp: attemptAuthorizationOk_def AttemptAuthorized readDecisionOk_def intro!: exI [of _ es]\<close>)
next
  case (NonConvergent n obs)
  with ok have n: "n = targetPromotionAttemptLimit" and o: "lastOrdinal es = Some targetPromotionAttemptLimit"
    by (simp_all add: readDecisionOk_def)
  show ?thesis
    unfolding finishReadDecision_def NonConvergent Let_def TargetPromotionReadDecision.case c n
    by (rule triple_andThen [OF triple_appendTerminal(3) [OF live o] triple_succeed]) (auto simp: returnedState_def)
next
  case (ReconciliationDeferred n d)
  with ok have "lastOrdinal es = Some n" "targetPromotionReconciliationDeferralFieldIssue n c d = None"
    "isAttempt (last es) \<or> isSafetyRefused (last es)" by (simp_all add: readDecisionOk_def)
  note t = triple_appendDeferral [OF live this]
  show ?thesis
    unfolding finishReadDecision_def ReconciliationDeferred Let_def TargetPromotionReadDecision.case c
    by (rule triple_andThen [OF t triple_succeed]) fastforce
next
  case (ReadStale basis obs)
  with ok have b: "basisOrdinal basis = lastOrdinal es" by (simp add: readDecisionOk_def)
  show ?thesis
    unfolding finishReadDecision_def ReadStale Let_def TargetPromotionReadDecision.case c
    by (rule triple_andThen [OF triple_appendTerminal(2) [OF live b] triple_succeed]) (auto simp: returnedState_def)
next
  case (ReadSucceeded basis obs)
  with ok have b: "basisOrdinal basis = lastOrdinal es" by (simp add: readDecisionOk_def)
  show ?thesis
    unfolding finishReadDecision_def ReadSucceeded Let_def TargetPromotionReadDecision.case c
    by (rule triple_andThen [OF triple_appendTerminal(1) [OF live b] triple_succeed]) (auto simp: returnedState_def)
next
  case (PropagateFailure f)
  then show ?thesis by (auto simp: finishReadDecision_def intro: triple_fail)
next
  case (ReadResultContradiction d)
  then show ?thesis by (auto simp: finishReadDecision_def intro: triple_resultContradiction)
qed

lemma triple_observeRead:
  assumes ok: "readAuthorizationOk c K a"
  shows "triple (promoAt journal valid c es S K) (observeTargetPromotionRead journal git a)
     (\<lambda>p w. \<exists>es' K'. promoAt journal valid c es' S K' w \<and> prefix es es' \<and> attemptCount es' = attemptCount es \<and>
        progressOk c es' K' p \<and> \<not> is_ProgressRead p)
     (\<lambda>_ w. \<exists>K'. promoAt journal valid c es S K' w)"
    (is "triple _ _ ?Q ?E")
proof (rule triple_pre [of "\<lambda>w. promotion_history c es \<and> promoAt journal valid c es S K w"], rule triple_pure)
  assume h: "promotion_history c es"
  have c: "ra_correlation a = c" using ok by (simp add: readAuthorizationOk_def)
  have decided: "triple (promoAt journal valid c es S K') (finishReadDecision journal a decision) ?Q ?E"
    if "targetPromotionReadBasisMatches a (map_option stateOfEvent (latest es))"
      "decision \<in> {decideSuccessfulTargetPromotionRead a obs, decideFailedTargetPromotionRead a f}" for K' decision obs f
    by (rule triple_conseq [OF triple_finishReadDecision [OF c]])
      (use that readDecisionOk_decisions [OF h ok that(1)] readBasis_history [OF h ok that(1)] in auto)
  have refused: "triple (promoAt journal valid c es S K')
      (andThen (readEvidence journal (targetPromotionRunIdOf c)) (\<lambda>source.
         andThen (appendTargetPromotionSafetyRefusal journal source ReconciliationReadBoundary c
                    (ra_previousAttemptOrdinal a) refusal) (\<lambda>s. succeed (ProgressState s)))) ?Q ?E"
    if "targetPromotionReadBasisMatches a (map_option stateOfEvent (latest es))" for K' refusal
  proof (rule triple_bind [OF triple_readEvidence])
    fix source
    note hist = readBasis_history [OF h ok that]
    show "triple (\<lambda>w. promoAt journal valid c es S K' w \<and>
        ij_read journal (targetPromotionRunIdOf c) (w_journal w) = (Inr source, w_journal w))
      (andThen (appendTargetPromotionSafetyRefusal journal source ReconciliationReadBoundary c
         (ra_previousAttemptOrdinal a) refusal) (\<lambda>s. succeed (ProgressState s))) ?Q ?E"
      by (rule triple_bind [OF triple_appendSafetyRefusal [OF hist(1,2,3)] triple_succeed])
        (fastforce simp: returnedState_def)+
  qed simp
  show "triple (promoAt journal valid c es S K) (observeTargetPromotionRead journal git a) ?Q ?E"
    unfolding observeTargetPromotionRead_def Let_def c
  proof (rule triple_bind [OF triple_readValidated triple_pure], rule triple_if)
    fix state
    assume st: "state = map_option stateOfEvent (latest es)"
    show "triple (promoAt journal valid c es S K) (resultContradiction c d) ?Q ?E" for d
      by (rule triple_resultContradiction) auto
    assume "\<not> \<not> targetPromotionReadBasisMatches a state"
    then have m: "targetPromotionReadBasisMatches a (map_option stateOfEvent (latest es))" using st by simp
    show "triple (promoAt journal valid c es S K) (andThen (consumeRead (ra_object a)) (\<lambda>available.
          if \<not> available
          then resultContradiction c
                 ''promotion read permission was already consumed or did not originate in this process''
          else andThen (callGit (git_read git (targetPromotionGitRequestFor c))) (\<lambda>readResult.
            case readResult of
              Inr observation \<Rightarrow>
                finishReadDecision journal a (decideSuccessfulTargetPromotionRead a observation)
            | Inl (ReadSafetyFailure refusal) \<Rightarrow>
                andThen (readEvidence journal (targetPromotionRunIdOf c)) (\<lambda>source.
                  andThen (appendTargetPromotionSafetyRefusal journal source ReconciliationReadBoundary c
                             (ra_previousAttemptOrdinal a) refusal) (\<lambda>s. succeed (ProgressState s)))
            | Inl (GitReadFailure failure) \<Rightarrow>
                finishReadDecision journal a (decideFailedTargetPromotionRead a failure)))) ?Q ?E"
      by (rule triple_bind [OF triple_consume(1)], rule triple_pure, rule triple_ex, rule triple_if,
          rule triple_resultContradiction, blast, rule triple_bind [OF triple_callGit])
        (auto split: sum.split TargetPromotionReadError.split intro: decided [OF m] refused [OF m])
  qed simp
qed (auto dest: promoAt_promotion_history)

lemma triple_recordAttemptIntent:
  assumes ok: "attemptAuthorizationOk c es K a"
  defines "e \<equiv> TargetPromotionAttemptIntended (Suc (attemptCount es)) c (attemptReasonFor c (Suc (attemptCount es)))"
  shows "triple (promoAt journal valid c es S K) (recordTargetPromotionAttemptIntent journal a)
     (\<lambda>i w. \<exists>K'. promoAt journal valid c (es @ [e]) S K' w \<and> ia_object i \<in> set (tc_availableIntendedAttempts K') \<and>
        ia_correlation i = c \<and> ia_attemptOrdinal i = Suc (attemptCount es))
     (\<lambda>_ w. \<exists>K'. promoAt journal valid c es S K' w)"
    (is "triple _ _ ?Q ?E")
proof -
  have a: "aa_correlation a = c" "aa_attemptOrdinal a = Suc (attemptCount es)"
    "aa_reason a = attemptReasonFor c (Suc (attemptCount es))"
    and live: "es \<noteq> []" "\<not> isTerminalPromotion (last es)" "Suc (attemptCount es) \<le> targetPromotionAttemptLimit"
    using ok by (auto simp: attemptAuthorizationOk_def)
  have new: "promotion_history c es \<Longrightarrow> e \<notin> set es"
    using attempt_ordinal_bound [of c es e] by (auto simp: e_def)
  have grammar: "promotion_history c es \<Longrightarrow> promotion_history c (es @ [e])"
    unfolding e_def by (rule promotion_history.attempt) (use live in auto)
  have append: "triple (promoAt journal valid c es S K') (andThen (appendTargetPromotionEvent journal c
       (targetPromotionAttemptIntentRecordKey (tp_requestId c) (Suc (attemptCount es))) e) (\<lambda>_. mintIntendedAttempt a)) ?Q ?E"
    for K'
    by (rule triple_bind [OF triple_append_new [OF _ _ grammar new]])
      (use triple_mintIntended [of journal valid c _ _ _ a] in \<open>auto simp: e_def a\<close>)
  show ?thesis
    unfolding recordTargetPromotionAttemptIntent_def Let_def a e_def [symmetric]
    by (rule triple_bind [OF triple_readValidated triple_pure], rule triple_if,
        rule triple_resultContradiction, blast,
        rule triple_bind [OF triple_consume(2)], rule triple_pure, rule triple_ex, rule triple_if,
        rule triple_resultContradiction, blast)
      (auto intro: append)
qed

lemma triple_sendAttempt:
  assumes i: "ia_object i \<in> set (tc_availableIntendedAttempts K)" "ia_correlation i = c" "ia_attemptOrdinal i = n"
    and last: "es \<noteq> []" "last es = TargetPromotionAttemptIntended n c (attemptReasonFor c n)" "lastOrdinal es = Some n"
  shows "triple (promoAt journal valid c es S K) (sendTargetPromotionAttempt journal git i)
     (\<lambda>r w. \<exists>es' entry K'. promoAt journal valid c es' (S @ [entry]) K' w \<and> casJustified journal c n entry \<and>
        boundaryOk c es' K' n r \<and> prefix es es' \<and> attemptCount es' = attemptCount es)
     (\<lambda>_ w. \<exists>S' K'. promoAt journal valid c es S' K' w \<and> (S' = S \<or> (\<exists>entry. S' = S @ [entry] \<and> casJustified journal c n entry)))"
    (is "triple _ _ ?Q ?E")
proof -
  have logged: "triple (promoAt journal valid c es S K')
      (logSent (SentCompareAndSet c (targetPromotionGitRequestFor c)))
      (\<lambda>_ w. \<exists>entry. casJustified journal c n entry \<and> promoAt journal valid c es (S @ [entry]) K' w) ?E" for K'
    by (rule tripleI)
      (use last in \<open>auto simp: promoAt_def casJustified_def latest_def\<close>)
  have refused: "triple (promoAt journal valid c es (S @ [entry]) K')
      (andThen (readEvidence journal (targetPromotionRunIdOf c)) (\<lambda>source.
         andThen (appendTargetPromotionSafetyRefusal journal source CompareAndSetBoundary c (Some n) refusal)
           (\<lambda>s. succeed (RefusedAttempt s)))) ?Q ?E" if "casJustified journal c n entry" for K' entry refusal
  proof (rule triple_bind [OF triple_readEvidence])
    fix source
    show "triple (\<lambda>w. promoAt journal valid c es (S @ [entry]) K' w \<and>
        ij_read journal (targetPromotionRunIdOf c) (w_journal w) = (Inr source, w_journal w))
      (andThen (appendTargetPromotionSafetyRefusal journal source CompareAndSetBoundary c (Some n) refusal)
         (\<lambda>s. succeed (RefusedAttempt s))) ?Q ?E"
      by (rule triple_bind [OF triple_appendSafetyRefusal triple_succeed])
        (use last that in \<open>fastforce simp: boundaryOk_def\<close>)+
  qed simp
  have observed: "triple (promoAt journal valid c es (S @ [entry]) K')
      (andThen (mintObservedAttempt i success) (\<lambda>oa. succeed (ObservedAttempt oa))) ?Q ?E"
    if "casJustified journal c n entry" for K' entry success
    by (rule triple_andThen [OF triple_mintObserved triple_succeed]) (use i last that in \<open>fastforce simp: boundaryOk_def\<close>)
  have ambiguous: "triple (promoAt journal valid c es (S @ [entry]) K') (succeed (AmbiguousAttempt n c)) ?Q ?E"
    if "casJustified journal c n entry" for K' entry
    by (rule triple_succeed, rule exI [of _ es], rule exI [of _ entry], rule exI [of _ K'])
      (use last that in \<open>simp add: boundaryOk_def latest_def\<close>)
  show ?thesis
    unfolding sendTargetPromotionAttempt_def Let_def i
    by (rule triple_bind [OF triple_readValidated triple_pure], rule triple_if,
        rule triple_resultContradiction, blast,
        rule triple_bind [OF triple_consume(3)], rule triple_pure, rule triple_ex, rule triple_if,
        rule triple_resultContradiction, blast,
        rule triple_andThen [OF logged], rule triple_ex, rule triple_pure, rule triple_bind [OF triple_callGit])
      (rule triple_case_sum, rule triple_case_casError, (erule refused observed ambiguous)+, simp_all)
qed

lemma triple_settle:
  assumes a: "oa_correlation a = c" "oa_attemptOrdinal a = n" and live: "lastOrdinal es = Some n" "es \<noteq> []"
      "\<not> isTerminalPromotion (last es)"
  shows "triple (promoAt journal valid c es S K) (settleTargetPromotionAttempt journal a)
     (\<lambda>s w. \<exists>es' K'. promoAt journal valid c es' S K' w \<and> prefix es es' \<and> attemptCount es' = attemptCount es \<and>
        returnedState c es' s)
     (\<lambda>_ w. \<exists>K'. promoAt journal valid c es S K' w)"
    (is "triple _ _ ?Q ?E")
proof -
  have b: "basisOrdinal (AfterAttempt n) = lastOrdinal es" using live by simp
  have succ: "triple (promoAt journal valid c es S K') (appendTargetPromotionSuccess journal c (AfterAttempt n) obs) ?Q ?E" for K' obs
    by (rule triple_conseq [OF triple_appendTerminal(1) [OF live(2,3) b]]) (fastforce simp: returnedState_def)+
  have stale: "triple (promoAt journal valid c es S K') (appendTargetPromotionStale journal c (AfterAttempt n) obs) ?Q ?E" for K' obs
    by (rule triple_conseq [OF triple_appendTerminal(2) [OF live(2,3) b]]) (fastforce simp: returnedState_def)+
  have contra: "triple (promoAt journal valid c es S K') (resultContradiction c d) ?Q ?E" for K' d
    by (rule triple_resultContradiction) blast
  show ?thesis
    unfolding settleTargetPromotionAttempt_def Let_def a
    by (rule triple_bind [OF triple_readValidated triple_pure], rule triple_if, rule contra,
        rule triple_bind [OF triple_consume(4)], rule triple_pure, rule triple_ex, rule triple_if, rule contra,
        rule triple_case_settlement)
      ((rule contra stale succ)+, simp_all)
qed

text \<open>
  Attempt: the numbered intent is appended, then one compare-and-set is sent, then its answer is
  settled, refused or left ambiguous.
\<close>

lemma triple_finishAttemptResult:
  "triple (\<lambda>w. boundaryOk c es K n result \<and> promoAt journal valid c es S K w) (finishAttemptResult journal result)
     (\<lambda>s w. \<exists>es' K'. promoAt journal valid c es' S K' w \<and> prefix es es' \<and> attemptCount es' = attemptCount es \<and>
        returnedState c es' s)
     (\<lambda>_ w. \<exists>K'. promoAt journal valid c es S K' w)"
    (is "triple _ _ ?Q ?E")
proof (rule triple_pure, cases result)
  case (ObservedAttempt claim)
  assume "boundaryOk c es K n result"
  then show "triple (promoAt journal valid c es S K) (finishAttemptResult journal result) ?Q ?E"
    unfolding ObservedAttempt finishAttemptResult_def TargetPromotionAttemptBoundaryResult.case
    by (intro triple_settle) (auto simp: boundaryOk_def ObservedAttempt)
qed (auto simp: boundaryOk_def returnedState_def finishAttemptResult_def intro!: triple_succeed)

lemma triple_sendAndSettle:
  assumes i: "ia_object i \<in> set (tc_availableIntendedAttempts K)" "ia_correlation i = c" "ia_attemptOrdinal i = n"
    and last: "es \<noteq> []" "last es = TargetPromotionAttemptIntended n c (attemptReasonFor c n)" "lastOrdinal es = Some n"
  shows "triple (promoAt journal valid c es S K)
     (andThen (sendTargetPromotionAttempt journal git i) (finishAttemptResult journal))
     (\<lambda>s. promoReached journal valid c (\<lambda>es' S'. prefix es es' \<and> attemptCount es' = attemptCount es \<and>
        sentAtMost journal c n S S' \<and> returnedState c es' s))
     (\<lambda>_. promoReached journal valid c (\<lambda>es' S'. prefix es es' \<and> attemptCount es' = attemptCount es \<and>
        sentAtMost journal c n S S'))"
    (is "triple _ _ ?Q ?E")
proof (rule triple_bind [OF triple_sendAttempt [OF i last]])
  fix result
  have "triple (\<lambda>w. (casJustified journal c n entry \<and> prefix es es' \<and> attemptCount es' = attemptCount es) \<and>
        boundaryOk c es' K' n result \<and> promoAt journal valid c es' (S @ [entry]) K' w) (finishAttemptResult journal result) ?Q ?E"
    for es' entry K'
    by (rule triple_pure, rule triple_conseq [OF triple_finishAttemptResult])
      (auto elim!: promoReachedI intro: sentAtMost_one prefix_order.trans)
  then show "triple (\<lambda>w. \<exists>es' entry K'. promoAt journal valid c es' (S @ [entry]) K' w \<and> casJustified journal c n entry \<and>
        boundaryOk c es' K' n result \<and> prefix es es' \<and> attemptCount es' = attemptCount es)
      (finishAttemptResult journal result) ?Q ?E"
    by (intro triple_ex) (rule triple_pre, assumption, blast)
qed (auto elim!: promoReachedI simp: sentAtMost_def)

lemma triple_attempt:
  assumes ok: "attemptAuthorizationOk c es K a"
  shows "triple (promoAt journal valid c es S K)
     (andThen (recordTargetPromotionAttemptIntent journal a) (\<lambda>intended.
        andThen (sendTargetPromotionAttempt journal git intended) (finishAttemptResult journal)))
     (\<lambda>s. promoReached journal valid c (\<lambda>es' S'. promoAdvance journal c es S es' S' \<and> returnedState c es' s))
     (\<lambda>_. promoReached journal valid c (promoAdvance journal c es S))"
    (is "triple _ (andThen _ ?send) ?Q ?E")
proof (rule triple_bind [OF triple_recordAttemptIntent [OF ok]])
  let ?n = "Suc (attemptCount es)"
  let ?e = "TargetPromotionAttemptIntended ?n c (attemptReasonFor c ?n)"
  fix i
  have "triple (\<lambda>w. (ia_object i \<in> set (tc_availableIntendedAttempts K') \<and> ia_correlation i = c \<and> ia_attemptOrdinal i = ?n) \<and>
        promoAt journal valid c (es @ [?e]) S K' w) (?send i) ?Q ?E" for K'
    by (rule triple_pure, rule triple_conseq [OF triple_sendAndSettle [where n = ?n]])
      (auto simp: lastOrdinal_snoc elim!: promoReached_mono intro: promoAdvance_attempt)
  then show "triple (\<lambda>w. \<exists>K'. promoAt journal valid c (es @ [?e]) S K' w \<and>
        ia_object i \<in> set (tc_availableIntendedAttempts K') \<and> ia_correlation i = c \<and> ia_attemptOrdinal i = ?n) (?send i) ?Q ?E"
    by (intro triple_ex) (rule triple_pre, assumption, blast)
qed (auto elim!: promoReachedI)

lemma triple_finishAfterRead:
  assumes "\<not> is_ProgressRead p" "progressOk c es K p"
  shows "triple (promoAt journal valid c es S K) (finishAfterRead journal git p)
     (\<lambda>s. promoReached journal valid c (\<lambda>es' S'. promoAdvance journal c es S es' S' \<and> returnedState c es' s))
     (\<lambda>_. promoReached journal valid c (promoAdvance journal c es S))"
proof (cases p)
  case (ProgressAttempt a)
  with assms(2) have "attemptAuthorizationOk c es K a" by simp
  then show ?thesis unfolding ProgressAttempt finishAfterRead_def TargetPromotionProgress.case by (rule triple_attempt)
qed (use assms in \<open>auto simp: finishAfterRead_def intro!: triple_succeed elim!: promoReachedI\<close>)

lemma triple_finishProgress:
  assumes ok: "progressOk c es K progress"
  shows "triple (promoAt journal valid c es S K) (finishProgress journal git progress)
     (\<lambda>s. promoReached journal valid c (\<lambda>es' S'. promoAdvance journal c es S es' S' \<and> returnedState c es' s))
     (\<lambda>_. promoReached journal valid c (promoAdvance journal c es S))"
    (is "triple _ _ ?Q ?E")
  unfolding finishProgress_def
proof (rule triple_bind [where E' = ?E])
  let ?R = "\<lambda>p w. \<exists>es' K'. promoAt journal valid c es' S K' w \<and> prefix es es' \<and> attemptCount es' = attemptCount es \<and>
        progressOk c es' K' p \<and> \<not> is_ProgressRead p"
  show "triple (promoAt journal valid c es S K)
     (case progress of ProgressRead a \<Rightarrow> observeTargetPromotionRead journal git a | _ \<Rightarrow> succeed progress) ?R ?E"
  proof (cases progress)
    case (ProgressRead a)
    with ok have a: "readAuthorizationOk c K a" by simp
    show ?thesis
      unfolding ProgressRead TargetPromotionProgress.case
      by (rule triple_conseq [OF triple_observeRead [OF a]]) (auto elim!: promoReachedI)
  qed (use ok in \<open>auto intro!: triple_succeed exI [of _ es]\<close>)
next
  fix p
  have "triple (\<lambda>w. (prefix es es' \<and> attemptCount es' = attemptCount es \<and> progressOk c es' K' p \<and> \<not> is_ProgressRead p) \<and>
        promoAt journal valid c es' S K' w) (finishAfterRead journal git p) ?Q ?E" for es' K'
    by (rule triple_pure, rule triple_conseq [OF triple_finishAfterRead [of p c es' K']])
      (auto elim!: promoReached_mono intro: promoAdvance_prefix)
  then show "triple (\<lambda>w. \<exists>es' K'. promoAt journal valid c es' S K' w \<and> prefix es es' \<and> attemptCount es' = attemptCount es \<and>
        progressOk c es' K' p \<and> \<not> is_ProgressRead p) (finishAfterRead journal git p) ?Q ?E"
    by (intro triple_ex) (rule triple_pre, assumption, blast)
qed

text \<open>Selecting the next step from the current state.\<close>

lemma triple_authorizePending:
  assumes r: "retryOf (map_option stateOfEvent (latest es)) = Some retry"
  shows "triple (promoAt journal valid c es S K) (authorizePendingProgress c retry authority)
     (\<lambda>p w. \<exists>K'. promoAt journal valid c es S K' w \<and> (\<forall>a. p = Some a \<longrightarrow> readAuthorizationOk c K' a) \<and>
        (p = None \<longrightarrow> authority = ReadOnly)) E"
proof (cases retry)
  case NeedInitialReconciliationRead
  show ?thesis
    unfolding authorizePendingProgress_def NeedInitialReconciliationRead TargetPromotionPendingRetry.case
    by (rule triple_if, rule triple_succeed, blast, rule triple_andThen [OF triple_mintRead triple_succeed])
      (auto simp: readAuthorizationOk_def)
next
  case (NeedReconciliationRead n)
  show ?thesis
    unfolding authorizePendingProgress_def NeedReconciliationRead TargetPromotionPendingRetry.case
    by (rule triple_andThen [OF triple_mintRead triple_succeed]) (auto simp: readAuthorizationOk_def)
qed

lemma triple_authorizeDeferred:
  assumes h: "promotion_history c es"
    and s: "map_option stateOfEvent (latest es) = Some (PromotionReconciliationDeferred n c' d)"
  shows "triple (promoAt journal valid c es S K) (authorizeDeferredProgress n c' d authority)
     (\<lambda>p w. \<exists>K'. promoAt journal valid c es S K' w \<and> progressOk c es K' p) E"
proof -
  note dh = deferred_history [OF h s]
  have n: "attemptCount es = n" "n \<noteq> 0" using dh(3) by (auto simp: lastOrdinal_def split: if_splits)
  show ?thesis
  proof (cases authority)
    case ReadOnly
    then show ?thesis
      unfolding authorizeDeferredProgress_def
      by simp (rule triple_succeed, use s in \<open>auto simp: returnedState_def\<close>)
  next
    case RetryAuthorized
    show ?thesis
    proof (cases d)
      case (RetryAuthorityRequired head)
      with dh(5) n have r: "attemptReasonFor c (Suc n) = ReconciledExpectedHead head n" "Suc n \<le> targetPromotionAttemptLimit"
        by (auto simp: targetPromotionReconciliationDeferralFieldIssue_def attemptReasonFor_def split: if_splits)
      have "triple (promoAt journal valid c es S K)
          (andThen (mintAttemptAuthorization c (n + 1) (ReconciledExpectedHead head n) DeferredRetryAuthority)
             (\<lambda>a. succeed (ProgressAttempt a)))
          (\<lambda>p w. \<exists>K'. promoAt journal valid c es S K' w \<and> progressOk c es K' p) E"
        by (rule triple_andThen [OF triple_mintAttempt triple_succeed])
          (use r dh(1,2) n in \<open>auto simp: attemptAuthorizationOk_def\<close>)
      then show ?thesis using dh(4) by (simp add: authorizeDeferredProgress_def RetryAuthorized RetryAuthorityRequired)
    next
      case (TargetReadFailed t)
      have "triple (promoAt journal valid c es S K)
          (andThen (mintReadAuthorization c (Some n) RetryAuthorized DeferredTargetReadFailed)
             (\<lambda>a. succeed (ProgressRead a)))
          (\<lambda>p w. \<exists>K'. promoAt journal valid c es S K' w \<and> progressOk c es K' p) E"
        by (rule triple_andThen [OF triple_mintRead triple_succeed]) (auto simp: readAuthorizationOk_def)
      then show ?thesis using dh(4) by (simp add: authorizeDeferredProgress_def RetryAuthorized TargetReadFailed)
    qed
  qed
qed

text \<open>Both entry points: the retry-authorized run, and reconciliation under either authority.\<close>

lemma triple_authorizeExistingState:
  assumes h: "promotion_history c es" and s: "map_option stateOfEvent (latest es) = Some st"
    and un: "\<And>K. triple (promoAt journal valid c es S K) unauthorized
      (\<lambda>p w. \<exists>K'. promoAt journal valid c es S K' w \<and> progressOk c es K' p) E"
  shows "triple (promoAt journal valid c es S K) (authorizeExistingState authority unauthorized st)
     (\<lambda>p w. \<exists>K'. promoAt journal valid c es S K' w \<and> progressOk c es K' p) E"
    (is "triple _ _ ?Q _")
proof -
  obtain e where e: "latest es = Some e" "st = stateOfEvent e" using s by auto
  have c: "pe_correlation e = c" by (rule state_correlation [OF h e(1)])
  have pending: "triple (promoAt journal valid c es S K) (andThen (authorizePendingProgress c retry authority)
      (\<lambda>progress. case progress of Some a \<Rightarrow> succeed (ProgressRead a) | None \<Rightarrow> unauthorized)) ?Q E"
    if "retryOf (Some st) = Some retry" for retry
  proof -
    from that s have r: "retryOf (map_option stateOfEvent (latest es)) = Some retry" by auto
    show ?thesis
      by (rule triple_andThen [OF triple_authorizePending [OF r]], rule triple_ex, rule triple_case_option,
          rule triple_pre [OF un], erule conjunct1, rule triple_succeed, auto)
  qed
  have settled: "triple (promoAt journal valid c es S K) (succeed (ProgressState st)) ?Q E"
    by (rule triple_succeed) (use s in \<open>auto simp: returnedState_def\<close>)
  show ?thesis
  proof (cases st)
    case (PromotionReconciliationDeferred n c' d)
    show ?thesis unfolding PromotionReconciliationDeferred authorizeExistingState_def TargetPromotionState.case Let_def
      by (rule triple_authorizeDeferred [OF h]) (use s PromotionReconciliationDeferred in simp)
  next
    case (PromotionPending c' retry)
    then have "c' = c" using e c by (cases e) auto
    with pending PromotionPending show ?thesis by (simp add: authorizeExistingState_def)
  next
    case (PromotionSafetyRefused b c' retry f k)
    then have "c' = c" using e c by (cases e) auto
    with pending PromotionSafetyRefused show ?thesis by (simp add: authorizeExistingState_def)
  qed (use settled in \<open>simp_all add: authorizeExistingState_def\<close>)
qed

lemma triple_authorizeProgress:
  fixes candidate :: IntegratorRunQualifiedCandidate
  defines "c \<equiv> targetPromotionCorrelationFor candidate"
  shows "triple (promoAt journal valid c es S K) (authorizeTargetPromotionProgress journal candidate authority)
     (\<lambda>p w. \<exists>K'. promoAt journal valid c es S K' w \<and> progressOk c es K' p)
     (\<lambda>_ w. \<exists>K'. promoAt journal valid c es S K' w)"
    (is "triple ?P _ ?Q ?E")
proof (rule triple_pre [of "\<lambda>w. promotion_history c es \<and> ?P w"], rule triple_pure)
  assume h: "promotion_history c es"
  have contra: "triple (promoAt journal valid c es S K') (resultContradiction c d) ?Q ?E" for d K'
    by (rule triple_resultContradiction) blast
  show "triple ?P (authorizeTargetPromotionProgress journal candidate authority) ?Q ?E"
    unfolding authorizeTargetPromotionProgress_def Let_def c_def [symmetric]
    by (rule triple_bind [OF triple_readValidated triple_pure], rule triple_case_option, rule contra,
        rule triple_authorizeExistingState [OF h _ contra]) simp_all
qed (auto dest: promoAt_promotion_history)

lemma triple_authorizeOrRecord:
  fixes candidate :: IntegratorRunQualifiedCandidate
  defines "c \<equiv> targetPromotionCorrelationFor candidate"
  shows "triple (promoAt journal valid c es S K) (authorizeOrRecordTargetPromotionProgress journal candidate)
     (\<lambda>p w. \<exists>es' K'. promoAt journal valid c es' S K' w \<and> progressOk c es' K' p \<and> prefix es es' \<and>
        attemptCount es' = attemptCount es)
     (\<lambda>_ w. \<exists>K'. promoAt journal valid c es S K' w)"
    (is "triple ?P _ ?Q ?E")
proof (rule triple_pre [of "\<lambda>w. promotion_history c es \<and> ?P w"], rule triple_pure)
  assume h: "promotion_history c es"
  have recorded: "triple ?P (andThen (appendTargetPromotionEvent journal c
        (targetPromotionIntentRecordKey (tp_requestId c)) (TargetPromotionIntended c))
        (\<lambda>_. andThen (mintReadAuthorization c None RetryAuthorized PendingInitial) (\<lambda>a. succeed (ProgressRead a)))) ?Q ?E"
    if es: "es = []"
  proof (rule triple_bind [OF triple_append_new])
    show "triple (promoAt journal valid c (es @ [TargetPromotionIntended c]) S K)
      (andThen (mintReadAuthorization c None RetryAuthorized PendingInitial) (\<lambda>a. succeed (ProgressRead a))) ?Q ?E"
      by (rule triple_andThen [OF triple_mintRead triple_succeed]) (fastforce simp: readAuthorizationOk_def)
  qed (auto simp: es promotion_history.intended)
  have existing: "triple ?P (authorizeExistingState RetryAuthorized
      (fail (PromotionDefect ''retry-authorized pending promotion did not authorize a read'')) s) ?Q ?E"
    if "map_option stateOfEvent (latest es) = Some s" for s
    by (rule triple_conseq [OF triple_authorizeExistingState [OF h that, where E = ?E]])
      (auto intro!: triple_fail)
  show "triple ?P (authorizeOrRecordTargetPromotionProgress journal candidate) ?Q ?E"
    unfolding authorizeOrRecordTargetPromotionProgress_def Let_def c_def [symmetric]
    by (rule triple_bind [OF triple_readValidated triple_pure], rule triple_case_option, rule recorded, simp,
        rule existing) simp_all
qed (auto dest: promoAt_promotion_history)

end

end
