(* ===== verification/Publication_State.thy ===== *)
theory Publication_State
  imports Journal_Laws
begin

text \<open>
  The durable state of one direct remote publication, reduced from its journal events
  (\<^verbatim>\<open>direct-publication/state.ts\<close>). The reduction is the source's two parts: whole-history
  checks, then a loop that carries a phase and the resume identities seen so far. An
  optional \<open>attemptOrdinalsInBatch\<close> is always present in what the reducer and the engine make, so it is
  a list here; an absent \<open>batchGrantAt\<close> is \<open>None\<close>.
\<close>

section \<open>States and phases\<close>

datatype RemotePublicationState =
    PublicationAbsent
  | PublicationContradiction string
  | PublicationPending RemotePublicationAttemptAuthorization "nat list" "nat list" "JournalPosition option"
      RemotePublicationCorrelation
  | PublicationResumeReady "nat list" "nat list" "JournalPosition option" RemotePublicationCorrelation
      RemotePublicationResumeRequest
  | PublicationSucceeded RemotePublicationCorrelation RemotePublicationProofBasis
  | PublicationRetained RemotePublicationAttemptAuthorization "nat list" "JournalPosition option"
      RemotePublicationRetainedCause RemotePublicationCorrelation

datatype ReductionPhase =
    PhasePending "nat list" RemotePublicationAttemptAuthorization "JournalPosition option"
  | PhaseResumeReady RemotePublicationRetainedCause "nat list" "JournalPosition option" RemotePublicationResumeRequest
  | PhaseRetained RemotePublicationAttemptAuthorization "nat list" "JournalPosition option" RemotePublicationRetainedCause
  | PhaseSucceeded RemotePublicationProofBasis

fun attemptOrdinalOfProof :: "RemotePublicationProofBasis \<Rightarrow> nat" where
  "attemptOrdinalOfProof proof = proof_attemptOrdinal proof"

definition contiguousAttemptsIssue :: "nat list \<Rightarrow> string option" where
  "contiguousAttemptsIssue attempts =
     (if list_all (\<lambda>(index, ordinal). ordinal = index + 1) (List.enumerate 0 attempts) then None
      else Some ''publication attempt ordinals must begin at one and remain contiguous'')"

fun remotePublicationRetainedCauseIsResumable :: "RemotePublicationRetainedCause \<Rightarrow> bool" where
  "remotePublicationRetainedCauseIsResumable AttemptsExhausted = False"
| "remotePublicationRetainedCauseIsResumable RetainedThrottled = False"
| "remotePublicationRetainedCauseIsResumable _ = True"

fun retainedCauseTag :: "RemotePublicationRetainedCause \<Rightarrow> string" where
  "retainedCauseTag AttemptsExhausted = ''AttemptsExhausted''"
| "retainedCauseTag AuthenticationDenied = ''AuthenticationDenied''"
| "retainedCauseTag (RetainedCompatibleCompetingHead _ _) = ''CompatibleCompetingHead''"
| "retainedCauseTag (RetainedIncompatibleLineage _) = ''IncompatibleLineage''"
| "retainedCauseTag (ObservationUnavailable _) = ''ObservationUnavailable''"
| "retainedCauseTag PolicyDenied = ''PolicyDenied''"
| "retainedCauseTag PushCustodyUnproven = ''PushCustodyUnproven''"
| "retainedCauseTag PushEndpointMappingChanged = ''PushEndpointMappingChanged''"
| "retainedCauseTag RemoteDenied = ''RemoteDenied''"
| "retainedCauseTag RetainedTargetMissing = ''TargetMissing''"
| "retainedCauseTag RetainedThrottled = ''Throttled''"

definition resumeRequestMatchesCorrelation ::
  "RemotePublicationCorrelation \<Rightarrow> RemotePublicationResumeRequest \<Rightarrow> bool" where
  "resumeRequestMatchesCorrelation correlation request \<longleftrightarrow>
     rr_runId request = remotePublicationRunIdOf correlation \<and>
     ri_runId (rr_responsibility request) = rr_runId request \<and>
     ri_queuedAt (rr_responsibility request) = publicationQueuedAtOf correlation"

section \<open>Selecting events\<close>

fun isPublicationIntended :: "RemotePublicationJournalEvent \<Rightarrow> bool" where
  "isPublicationIntended (RemotePublicationIntended _) = True"
| "isPublicationIntended _ = False"

fun publicationAttemptOf :: "RemotePublicationJournalEvent \<Rightarrow> nat option" where
  "publicationAttemptOf (RemotePublicationAttemptIntended n _ _ _) = Some n"
| "publicationAttemptOf _ = None"

fun publicationBatchOf :: "RemotePublicationJournalEvent \<Rightarrow> JournalPosition option option" where
  "publicationBatchOf (RemotePublicationAttemptIntended _ g _ _) = Some g"
| "publicationBatchOf _ = None"

fun publicationRejectionOf :: "RemotePublicationJournalEvent \<Rightarrow> nat option" where
  "publicationRejectionOf (RemotePublicationAttemptRejectedNonFastForward n _) = Some n"
| "publicationRejectionOf _ = None"

fun isPublicationSucceeded :: "RemotePublicationJournalEvent \<Rightarrow> bool" where
  "isPublicationSucceeded (RemotePublicationSucceeded _ _) = True"
| "isPublicationSucceeded _ = False"

fun isPublicationRetained :: "RemotePublicationJournalEvent \<Rightarrow> bool" where
  "isPublicationRetained (RemotePublicationRetained _ _ _ _) = True"
| "isPublicationRetained _ = False"

fun refspecDerived :: "RemotePublicationJournalEvent \<Rightarrow> bool" where
  "refspecDerived (RemotePublicationAttemptIntended _ _ c refspec) =
     (refspec = remotePublicationRefspecFor (qc_candidateCommit (pc_qualifiedCandidate c)) (rt_branch (pc_target c)))"
| "refspecDerived _ = True"

definition publicationAttempts :: "RemotePublicationJournalEvent list \<Rightarrow> nat list" where
  "publicationAttempts events = List.map_filter publicationAttemptOf events"

definition batchAllowanceExceeded :: "RemotePublicationJournalEvent list \<Rightarrow> bool" where
  "batchAllowanceExceeded events =
     (let batches = List.map_filter publicationBatchOf events
      in list_ex (\<lambda>batch. count_list batches batch > remotePublicationAttemptLimit) batches)"

fun findIndex :: "('a \<Rightarrow> bool) \<Rightarrow> 'a list \<Rightarrow> nat option" where
  "findIndex P [] = None"
| "findIndex P (x # xs) = (if P x then Some 0 else map_option Suc (findIndex P xs))"

section \<open>One iteration of the reduction loop\<close>

fun phaseGrant :: "ReductionPhase \<Rightarrow> JournalPosition option" where
  "phaseGrant (PhasePending _ _ g) = g"
| "phaseGrant (PhaseResumeReady _ _ g _) = g"
| "phaseGrant (PhaseRetained _ _ g _) = g"
| "phaseGrant (PhaseSucceeded _) = None"

fun phaseBatch :: "ReductionPhase \<Rightarrow> nat list" where
  "phaseBatch (PhasePending b _ _) = b"
| "phaseBatch (PhaseResumeReady _ b _ _) = b"
| "phaseBatch (PhaseRetained _ b _ _) = b"
| "phaseBatch (PhaseSucceeded _) = []"

fun phaseAuthorization :: "ReductionPhase \<Rightarrow> RemotePublicationAttemptAuthorization" where
  "phaseAuthorization (PhasePending _ a _) = a"
| "phaseAuthorization (PhaseResumeReady _ _ _ request) = ResumeRequest (rr_requestId request)"
| "phaseAuthorization (PhaseRetained a _ _ _) = a"
| "phaseAuthorization (PhaseSucceeded _) = InitialAttempt"

definition attemptPhase :: "ReductionPhase \<Rightarrow> nat \<Rightarrow> JournalPosition option \<Rightarrow> string + ReductionPhase" where
  "attemptPhase phase attemptOrdinal nextBatchGrantAt =
     (let accepted = (\<lambda>p. Inr (PhasePending (phaseBatch p @ [attemptOrdinal]) (phaseAuthorization p) (phaseGrant p)))
      in case phase of
           PhaseRetained _ _ g _ \<Rightarrow>
             if nextBatchGrantAt = None \<or> nextBatchGrantAt = g
             then Inl ''publication attempt after retained outcome requires a new exact batch grant or resume receipt''
             else accepted (PhasePending [] InitialAttempt nextBatchGrantAt)
         | PhasePending batch authorization g \<Rightarrow>
             if batch = [] \<and> nextBatchGrantAt \<noteq> None then accepted (PhasePending batch authorization nextBatchGrantAt)
             else if nextBatchGrantAt \<noteq> g
             then Inl ''publication attempt cannot change its batch grant within an active batch''
             else accepted phase
         | _ \<Rightarrow>
             if nextBatchGrantAt \<noteq> phaseGrant phase
             then Inl ''publication attempt cannot change its batch grant within an active batch''
             else accepted phase)"

definition retainedPhase ::
  "ReductionPhase \<Rightarrow> JournalPosition option \<Rightarrow> RemotePublicationRetainedCause \<Rightarrow>
   RemotePublicationAttemptAuthorization \<Rightarrow> string + ReductionPhase" where
  "retainedPhase phase0 batchGrantAt cause authorization =
     (let phase = (case phase0 of
            PhaseRetained _ _ g _ \<Rightarrow>
              if batchGrantAt \<noteq> None \<and> batchGrantAt \<noteq> g then PhasePending [] InitialAttempt batchGrantAt else phase0
          | _ \<Rightarrow> phase0);
          matchesAuthorization = (case phase of
            PhasePending _ a g \<Rightarrow> batchGrantAt = g \<and> authorization = a
          | PhaseResumeReady _ _ g request \<Rightarrow> batchGrantAt = g \<and> authorization = ResumeRequest (rr_requestId request)
          | _ \<Rightarrow> False)
      in if \<not> matchesAuthorization
         then Inl ''publication retained outcome must identify its exact active authorization''
         else if cause = AttemptsExhausted \<and> length (phaseBatch phase) \<noteq> remotePublicationAttemptLimit
         then Inl ''publication exhaustion requires the exact accepted attempt limit''
         else Inr (PhaseRetained authorization (phaseBatch phase) (phaseGrant phase) cause))"

fun isReconciledProof :: "RemotePublicationProofBasis \<Rightarrow> bool" where
  "isReconciledProof (ProofCandidateCurrent _ _) = True"
| "isReconciledProof (ProofCandidateAncestor _ _) = True"
| "isReconciledProof _ = False"

fun isPushProof :: "RemotePublicationProofBasis \<Rightarrow> bool" where
  "isPushProof (PushApplied _ _) = True"
| "isPushProof (PushUpToDate _ _) = True"
| "isPushProof _ = False"

fun isCurrentHeadProof :: "RemotePublicationProofBasis \<Rightarrow> bool" where
  "isCurrentHeadProof (ProofCandidateAncestor _ _) = False"
| "isCurrentHeadProof _ = True"

definition succeededPhase ::
  "RemotePublicationCorrelation \<Rightarrow> RemotePublicationJournalEvent list \<Rightarrow> RemotePublicationJournalEvent list \<Rightarrow>
   ReductionPhase \<Rightarrow> RemotePublicationProofBasis \<Rightarrow> string + ReductionPhase" where
  "succeededPhase intent events prior phase proof =
     (let proofOrdinal = attemptOrdinalOfProof proof;
          resumeIssue = (case phase of
            PhaseResumeReady _ _ _ _ \<Rightarrow>
              if \<not> isReconciledProof proof
              then Some ''resume receipt can settle publication only through exact remote reconciliation''
              else if latest (publicationAttempts prior) \<noteq> Some proofOrdinal
              then Some ''resumed publication proof must identify the latest pre-receipt attempt'' else None
          | PhasePending _ _ _ \<Rightarrow> None
          | _ \<Rightarrow> Some ''publication proof has no active delivery phase'')
      in case resumeIssue of
           Some detail \<Rightarrow> Inl detail
         | None \<Rightarrow>
             if isPushProof proof \<and> proofOrdinal \<in> set (List.map_filter publicationRejectionOf events)
             then Inl ''one push attempt cannot both reject and succeed''
             else (case findIndex (\<lambda>e. publicationAttemptOf e = Some proofOrdinal) events of
                     None \<Rightarrow> Inl ''publication proof has no exact earlier attempt intent''
                   | Some intendedIndex \<Rightarrow>
                       if intendedIndex < 1 \<or> intendedIndex \<ge> length prior
                       then Inl ''publication proof has no exact earlier attempt intent''
                       else if isCurrentHeadProof proof \<and>
                               proof_remoteHead proof \<noteq> qc_candidateCommit (pc_qualifiedCandidate intent)
                       then Inl ''current-head publication proof does not identify the exact candidate''
                       else Inr (PhaseSucceeded proof)))"

definition rejectionIssue ::
  "RemotePublicationJournalEvent list \<Rightarrow> ReductionPhase \<Rightarrow> nat \<Rightarrow> string option" where
  "rejectionIssue prior phase attemptOrdinal =
     (if (case latest prior of None \<Rightarrow> True | Some previous \<Rightarrow> publicationAttemptOf previous \<noteq> Some attemptOrdinal) \<or>
         attemptOrdinal \<in> set (List.map_filter publicationRejectionOf prior)
      then Some ''publication rejection requires its exact unmatched preceding attempt intent''
      else (case phase of PhasePending _ _ _ \<Rightarrow> None | _ \<Rightarrow> Some ''publication rejection has no active attempt''))"

definition resumeReceiptIssue ::
  "RemotePublicationCorrelation \<Rightarrow> RemotePublicationResumeRequest \<Rightarrow> RemotePublicationResumeRequestId list \<Rightarrow> string option" where
  "resumeReceiptIssue correlation request seen =
     (if \<not> resumeRequestMatchesCorrelation correlation request
      then Some ''publication resume receipt does not identify the exact Run responsibility''
      else if rr_requestId request \<in> set seen
      then Some ''publication resume request identity is duplicated'' else None)"

definition resumePhase ::
  "RemotePublicationJournalEvent list \<Rightarrow> ReductionPhase \<Rightarrow> RemotePublicationResumeRequestId list \<Rightarrow>
   RemotePublicationCorrelation \<Rightarrow> RemotePublicationResumeRequest \<Rightarrow> string + ReductionPhase" where
  "resumePhase prior phase seen correlation request =
     (case phase of
        PhaseRetained _ batch g cause \<Rightarrow>
          if \<not> (case latest prior of None \<Rightarrow> False | Some previous \<Rightarrow> isPublicationRetained previous)
          then Inl ''publication resume receipt must immediately follow an exact retained outcome''
          else (case resumeReceiptIssue correlation request seen of
                  Some detail \<Rightarrow> Inl detail
                | None \<Rightarrow>
                    if \<not> remotePublicationRetainedCauseIsResumable cause
                    then Inl (''publication resume receipt cannot override retained cause '' @ retainedCauseTag cause)
                    else if length batch \<ge> remotePublicationAttemptLimit
                    then Inl ''publication resume receipt cannot override the exhausted attempt allowance''
                    else Inr (PhaseResumeReady cause batch g request))
      | _ \<Rightarrow> Inl ''publication resume receipt must immediately follow an exact retained outcome'')"

type_synonym Reduction = "ReductionPhase \<times> RemotePublicationResumeRequestId list"

fun publicationStep ::
  "RemotePublicationCorrelation \<Rightarrow> RemotePublicationJournalEvent list \<Rightarrow> RemotePublicationJournalEvent list \<Rightarrow>
   Reduction \<Rightarrow> RemotePublicationJournalEvent \<Rightarrow> string + Reduction" where
  "publicationStep intent events prior (PhaseSucceeded proof, seen) event =
     (case event of
        RemotePublicationResumeRequested c request \<Rightarrow>
          (case resumeReceiptIssue c request seen of
             Some detail \<Rightarrow> Inl detail
           | None \<Rightarrow> Inr (PhaseSucceeded proof, rr_requestId request # seen))
      | _ \<Rightarrow> Inl ''publication history contains an event after terminal proof'')"
| "publicationStep intent events prior (phase, seen) event =
     (case event of
        RemotePublicationIntended _ \<Rightarrow> Inl ''publication history has more than one outer intent''
      | RemotePublicationAttemptIntended n g _ _ \<Rightarrow> map_sum id (\<lambda>p. (p, seen)) (attemptPhase phase n g)
      | RemotePublicationAttemptRejectedNonFastForward n _ \<Rightarrow>
          (case rejectionIssue prior phase n of Some detail \<Rightarrow> Inl detail | None \<Rightarrow> Inr (phase, seen))
      | RemotePublicationRetained g cause _ authorization \<Rightarrow>
          map_sum id (\<lambda>p. (p, seen)) (retainedPhase phase g cause authorization)
      | RemotePublicationResumeRequested c request \<Rightarrow>
          map_sum id (\<lambda>p. (p, rr_requestId request # seen)) (resumePhase prior phase seen c request)
      | RemotePublicationSucceeded _ proof \<Rightarrow>
          map_sum id (\<lambda>p. (p, seen)) (succeededPhase intent events prior phase proof)
      | _ \<Rightarrow> Inr (phase, seen))"

fun reducePublication ::
  "RemotePublicationCorrelation \<Rightarrow> RemotePublicationJournalEvent list \<Rightarrow> RemotePublicationJournalEvent list \<Rightarrow>
   Reduction \<Rightarrow> RemotePublicationJournalEvent list \<Rightarrow> string + Reduction" where
  "reducePublication intent events prior reduction [] = Inr reduction"
| "reducePublication intent events prior reduction (event # rest) =
     (case publicationStep intent events prior reduction event of
        Inl detail \<Rightarrow> Inl detail
      | Inr reduction' \<Rightarrow> reducePublication intent events (prior @ [event]) reduction' rest)"

section \<open>The reducer\<close>

fun publicationStateOfPhase ::
  "RemotePublicationCorrelation \<Rightarrow> nat list \<Rightarrow> ReductionPhase \<Rightarrow> RemotePublicationState" where
  "publicationStateOfPhase c attempts (PhasePending b a g) = PublicationPending a attempts b g c"
| "publicationStateOfPhase c attempts (PhaseResumeReady _ b g request) = PublicationResumeReady attempts b g c request"
| "publicationStateOfPhase c attempts (PhaseRetained a b g cause) = PublicationRetained a b g cause c"
| "publicationStateOfPhase c attempts (PhaseSucceeded proof) = PublicationSucceeded c proof"

definition publicationHistoryIssue ::
  "RemotePublicationCorrelation \<Rightarrow> RemotePublicationJournalEvent list \<Rightarrow> string option" where
  "publicationHistoryIssue intent events =
     (if length (filter isPublicationIntended events) \<noteq> 1
      then Some ''publication history has more than one outer intent''
      else if list_ex (\<lambda>e. case publication_correlation e of
                 None \<Rightarrow> False | Some c \<Rightarrow> \<not> remotePublicationCorrelationEquals c intent) events
      then Some ''publication history mixes distinct request correlations''
      else if batchAllowanceExceeded events
      then Some ''publication history exceeds the accepted three-intent allowance for one batch''
      else if \<not> list_all refspecDerived events
      then Some ''publication attempt intent refspec must derive from the exact candidate and pinned branch''
      else (case contiguousAttemptsIssue (publicationAttempts events) of
              Some detail \<Rightarrow> Some detail
            | None \<Rightarrow>
                if length (filter isPublicationSucceeded events) > 1
                then Some ''publication history has more than one terminal proof'' else None))"

definition deriveRemotePublicationState :: "RemotePublicationJournalEvent list \<Rightarrow> RemotePublicationState" where
  "deriveRemotePublicationState events =
     (case events of
        [] \<Rightarrow> PublicationAbsent
      | RemotePublicationIntended intent # rest \<Rightarrow>
          (case publicationHistoryIssue intent events of
             Some detail \<Rightarrow> PublicationContradiction detail
           | None \<Rightarrow>
               (case reducePublication intent events [RemotePublicationIntended intent]
                       (PhasePending [] InitialAttempt None, []) rest of
                  Inl detail \<Rightarrow> PublicationContradiction detail
                | Inr (phase, _) \<Rightarrow> publicationStateOfPhase intent (publicationAttempts events) phase))
      | _ \<Rightarrow> PublicationContradiction ''publication history must begin with the outer intent'')"

fun remotePublicationAttemptsExhausted :: "RemotePublicationState \<Rightarrow> bool" where
  "remotePublicationAttemptsExhausted (PublicationPending _ _ inBatch _ _) = (length inBatch = remotePublicationAttemptLimit)"
| "remotePublicationAttemptsExhausted _ = False"

end
