(* ===== verification/Publication_History.thy ===== *)
theory Publication_History
  imports Publication_State
begin

text \<open>
  The histories the direct-publication protocol writes, as an \<open>inductive\<close> grammar indexed by the
  phase they end in, and the theorem that the reducer accepts exactly that reading: a protocol
  history is never a contradiction, and its reduced state is the state of its phase.
\<close>

section \<open>The grammar\<close>

fun publicationGrantOf :: "RemotePublicationJournalEvent \<Rightarrow> JournalPosition option" where
  "publicationGrantOf (RemotePublicationAttemptIntended _ g _ _) = g"
| "publicationGrantOf (RemotePublicationRetained g _ _ _) = g"
| "publicationGrantOf _ = None"

fun resumeIdOf :: "RemotePublicationJournalEvent \<Rightarrow> RemotePublicationResumeRequestId option" where
  "resumeIdOf (RemotePublicationResumeRequested _ request) = Some (rr_requestId request)"
| "resumeIdOf _ = None"

definition resumeIds :: "RemotePublicationJournalEvent list \<Rightarrow> RemotePublicationResumeRequestId set" where
  "resumeIds es = set (List.map_filter resumeIdOf es)"

definition grantIsNew :: "RemotePublicationJournalEvent list \<Rightarrow> JournalPosition \<Rightarrow> bool" where
  "grantIsNew es g' \<longleftrightarrow> (\<forall>e\<in>set es. \<forall>g. publicationGrantOf e = Some g \<longrightarrow> g < g')"

abbreviation attemptEvent :: "RemotePublicationCorrelation \<Rightarrow> nat \<Rightarrow> JournalPosition option \<Rightarrow> RemotePublicationJournalEvent" where
  "attemptEvent c n g \<equiv> RemotePublicationAttemptIntended n g c
     (remotePublicationRefspecFor (qc_candidateCommit (pc_qualifiedCandidate c)) (rt_branch (pc_target c)))"

definition proofSound :: "RemotePublicationCorrelation \<Rightarrow> RemotePublicationJournalEvent list \<Rightarrow> RemotePublicationProofBasis \<Rightarrow> bool" where
  "proofSound c es proof \<longleftrightarrow>
     proof_attemptOrdinal proof \<in> set (publicationAttempts es) \<and>
     (isPushProof proof \<longrightarrow> proof_attemptOrdinal proof \<notin> set (List.map_filter publicationRejectionOf es)) \<and>
     (isCurrentHeadProof proof \<longrightarrow> proof_remoteHead proof = qc_candidateCommit (pc_qualifiedCandidate c))"

inductive publication_history ::
  "RemotePublicationCorrelation \<Rightarrow> RemotePublicationJournalEvent list \<Rightarrow> ReductionPhase \<Rightarrow> bool" for c where
  intended: "publication_history c [RemotePublicationIntended c] (PhasePending [] InitialAttempt None)"
| attempt: "publication_history c es (PhasePending b a g) \<Longrightarrow> length b < remotePublicationAttemptLimit \<Longrightarrow>
    n = length (publicationAttempts es) + 1 \<Longrightarrow>
    publication_history c (es @ [attemptEvent c n g]) (PhasePending (b @ [n]) a g)"
| attempt_fresh_grant: "publication_history c es (PhasePending [] a None) \<Longrightarrow>
    n = length (publicationAttempts es) + 1 \<Longrightarrow> grantIsNew es g' \<Longrightarrow>
    publication_history c (es @ [attemptEvent c n (Some g')]) (PhasePending [n] a (Some g'))"
| attempt_granted: "publication_history c es (PhaseRetained a b g cause) \<Longrightarrow>
    n = length (publicationAttempts es) + 1 \<Longrightarrow> grantIsNew es g' \<Longrightarrow>
    publication_history c (es @ [attemptEvent c n (Some g')]) (PhasePending [n] InitialAttempt (Some g'))"
| attempt_resumed: "publication_history c es (PhaseResumeReady cause b g request) \<Longrightarrow> length b < remotePublicationAttemptLimit \<Longrightarrow>
    n = length (publicationAttempts es) + 1 \<Longrightarrow>
    publication_history c (es @ [attemptEvent c n g]) (PhasePending (b @ [n]) (ResumeRequest (rr_requestId request)) g)"
| rejected: "publication_history c es (PhasePending b a g) \<Longrightarrow> publicationAttemptOf (last es) = Some n \<Longrightarrow>
    publication_history c (es @ [RemotePublicationAttemptRejectedNonFastForward n c]) (PhasePending b a g)"
| retained: "publication_history c es (PhasePending b a g) \<Longrightarrow>
    (cause = AttemptsExhausted \<Longrightarrow> length b = remotePublicationAttemptLimit) \<Longrightarrow>
    publication_history c (es @ [RemotePublicationRetained g cause c a]) (PhaseRetained a b g cause)"
| retained_resumed: "publication_history c es (PhaseResumeReady cause0 b g request) \<Longrightarrow>
    (cause = AttemptsExhausted \<Longrightarrow> length b = remotePublicationAttemptLimit) \<Longrightarrow>
    publication_history c (es @ [RemotePublicationRetained g cause c (ResumeRequest (rr_requestId request))])
      (PhaseRetained (ResumeRequest (rr_requestId request)) b g cause)"
| retained_granted: "publication_history c es (PhaseRetained a b g cause0) \<Longrightarrow> grantIsNew es g' \<Longrightarrow> cause \<noteq> AttemptsExhausted \<Longrightarrow>
    publication_history c (es @ [RemotePublicationRetained (Some g') cause c InitialAttempt])
      (PhaseRetained InitialAttempt [] (Some g') cause)"
| resumed: "publication_history c es (PhaseRetained a b g cause) \<Longrightarrow> remotePublicationRetainedCauseIsResumable cause \<Longrightarrow>
    length b < remotePublicationAttemptLimit \<Longrightarrow> resumeRequestMatchesCorrelation c request \<Longrightarrow>
    rr_requestId request \<notin> resumeIds es \<Longrightarrow>
    publication_history c (es @ [RemotePublicationResumeRequested c request]) (PhaseResumeReady cause b g request)"
| succeeded: "publication_history c es (PhasePending b a g) \<Longrightarrow> proofSound c es proof \<Longrightarrow>
    publication_history c (es @ [RemotePublicationSucceeded c proof]) (PhaseSucceeded proof)"
| succeeded_resumed: "publication_history c es (PhaseResumeReady cause b g request) \<Longrightarrow> proofSound c es proof \<Longrightarrow>
    isReconciledProof proof \<Longrightarrow> latest (publicationAttempts es) = Some (proof_attemptOrdinal proof) \<Longrightarrow>
    publication_history c (es @ [RemotePublicationSucceeded c proof]) (PhaseSucceeded proof)"
| resumed_after_success: "publication_history c es (PhaseSucceeded proof) \<Longrightarrow> resumeRequestMatchesCorrelation c request \<Longrightarrow>
    rr_requestId request \<notin> resumeIds es \<Longrightarrow>
    publication_history c (es @ [RemotePublicationResumeRequested c request]) (PhaseSucceeded proof)"

inductive_cases publication_history_NilE [elim!]: "publication_history c [] ph"

section \<open>Shape of a protocol history\<close>

lemma publicationAttempts_snoc [simp]:
  "publicationAttempts (es @ [e]) = publicationAttempts es @ (case publicationAttemptOf e of None \<Rightarrow> [] | Some n \<Rightarrow> [n])"
  "publicationAttempts [] = []"
  "publicationAttempts (e # es) = (case publicationAttemptOf e of None \<Rightarrow> [] | Some n \<Rightarrow> [n]) @ publicationAttempts es"
  by (simp_all add: publicationAttempts_def split: option.split)

lemma resumeIds_snoc [simp]:
  "resumeIds [] = {}" "resumeIds (es @ [e]) = (case resumeIdOf e of None \<Rightarrow> {} | Some i \<Rightarrow> {i}) \<union> resumeIds es"
  "resumeIds (e # es) = (case resumeIdOf e of None \<Rightarrow> {} | Some i \<Rightarrow> {i}) \<union> resumeIds es"
  by (auto simp: resumeIds_def split: option.split)

lemma publication_history_head:
  "publication_history c es ph \<Longrightarrow> \<exists>rest. es = RemotePublicationIntended c # rest \<and>
     (\<forall>e\<in>set rest. \<not> isPublicationIntended e \<and> publication_correlation e = Some c \<and> refspecDerived e)"
  by (induction rule: publication_history.induct) auto

lemma publication_history_attempts:
  "publication_history c es ph \<Longrightarrow> publicationAttempts es = [1..<Suc (length (publicationAttempts es))]"
  by (induction rule: publication_history.induct) auto

lemma publication_history_attempts_set:
  "publication_history c es ph \<Longrightarrow> set (publicationAttempts es) = {1..length (publicationAttempts es)}"
  by (subst publication_history_attempts) (auto simp del: upt_Suc)

lemma publication_history_next_new:
  "publication_history c es ph \<Longrightarrow> Suc (length (publicationAttempts es)) \<notin> set (publicationAttempts es)"
  by (simp add: publication_history_attempts_set)

lemma publication_history_rejections:
  "publication_history c es ph \<Longrightarrow>
     set (List.map_filter publicationRejectionOf es) \<subseteq> set (publicationAttempts es) \<and>
     (\<forall>n. publicationAttemptOf (last es) = Some n \<longrightarrow> n \<notin> set (List.map_filter publicationRejectionOf es)) \<and> es \<noteq> []"
proof (induction rule: publication_history.induct)
  case (rejected es b a g n)
  then have "n \<in> set (publicationAttempts es)"
    by (cases es rule: rev_cases) (auto simp: publicationAttempts_def set_map_filter_conv)
  with rejected show ?case by auto
qed (auto dest: publication_history_next_new)

lemma publication_history_retained_last:
  "publication_history c es (PhaseRetained a b g cause) \<Longrightarrow> latest es = Some (RemotePublicationRetained g cause c a)"
  by (cases rule: publication_history.cases) auto

section \<open>Batches, grants and resume identities\<close>

definition attemptBatches :: "RemotePublicationJournalEvent list \<Rightarrow> JournalPosition option list" where
  "attemptBatches es = List.map_filter publicationBatchOf es"

lemma attemptBatches_snoc [simp]:
  "attemptBatches [] = []"
  "attemptBatches (es @ [e]) = attemptBatches es @ (case publicationBatchOf e of None \<Rightarrow> [] | Some g \<Rightarrow> [g])"
  "attemptBatches (e # es) = (case publicationBatchOf e of None \<Rightarrow> [] | Some g \<Rightarrow> [g]) @ attemptBatches es"
  by (simp_all add: attemptBatches_def split: option.split)

fun isSucceededPhase :: "ReductionPhase \<Rightarrow> bool" where
  "isSucceededPhase (PhaseSucceeded _) = True"
| "isSucceededPhase _ = False"

lemma attemptBatches_grant: "Some g \<in> set (attemptBatches es) \<Longrightarrow> \<exists>e\<in>set es. publicationGrantOf e = Some g"
proof (induction es)
  case (Cons e es)
  then show ?case by (cases e) auto
qed simp

lemma grantIsNew_batches: "grantIsNew es g \<Longrightarrow> count_list (attemptBatches es) (Some g) = 0"
  by (rule count_list_0_iff [THEN iffD2]) (use attemptBatches_grant in \<open>fastforce simp: grantIsNew_def\<close>)

text \<open>Grants only move forward: no event of the history cites a grant later than the phase's own.\<close>

lemma publication_history_grants:
  "publication_history c es ph \<Longrightarrow> \<not> isSucceededPhase ph \<Longrightarrow>
     (\<forall>e\<in>set es. \<forall>g. publicationGrantOf e = Some g \<longrightarrow> (\<exists>p. phaseGrant ph = Some p \<and> g \<le> p))"
  by (induction rule: publication_history.induct) (fastforce simp: grantIsNew_def)+

lemma publication_history_fresh:
  "publication_history c es (PhasePending [] a g) \<Longrightarrow> es = [RemotePublicationIntended c] \<and> a = InitialAttempt \<and> g = None"
  by (induction es "PhasePending [] a g" rule: publication_history.induct) auto

text \<open>A batch holds exactly the attempts that cite its grant, and never more than three.\<close>

lemma publication_history_batches:
  "publication_history c es ph \<Longrightarrow>
     (\<not> isSucceededPhase ph \<longrightarrow> count_list (attemptBatches es) (phaseGrant ph) = length (phaseBatch ph)) \<and>
     length (phaseBatch ph) \<le> remotePublicationAttemptLimit \<and>
     (\<forall>g. count_list (attemptBatches es) g \<le> remotePublicationAttemptLimit)"
proof (induction rule: publication_history.induct)
  case (attempt_fresh_grant es a n g')
  then show ?case using grantIsNew_batches [of es g'] by (auto simp: remotePublicationAttemptLimit_def)
next
  case (attempt_granted es a b g cause n g')
  then show ?case using grantIsNew_batches [of es g'] by (auto simp: remotePublicationAttemptLimit_def)
next
  case (retained_granted es a b g cause0 g' cause)
  then show ?case using grantIsNew_batches [of es g'] by auto
qed (auto simp: remotePublicationAttemptLimit_def)

text \<open>Every resume authorization in the history, the phase's own included, belongs to a recorded receipt.\<close>

lemma publication_history_resume_ids:
  "publication_history c es ph \<Longrightarrow>
     (\<forall>i. phaseAuthorization ph = ResumeRequest i \<longrightarrow> i \<in> resumeIds es) \<and>
     (\<forall>g cause i. RemotePublicationRetained g cause c (ResumeRequest i) \<in> set es \<longrightarrow> i \<in> resumeIds es)"
  by (induction rule: publication_history.induct) (auto split: option.splits)

text \<open>An active phase has not yet recorded a retained outcome under its own authorization and grant.\<close>

lemma publication_history_retained_new:
  "publication_history c es ph \<Longrightarrow> \<not> isSucceededPhase ph \<Longrightarrow> (\<forall>a b g cs. ph \<noteq> PhaseRetained a b g cs) \<Longrightarrow>
     RemotePublicationRetained (phaseGrant ph) cause c (phaseAuthorization ph) \<notin> set es"
proof (induction rule: publication_history.induct)
  case (attempt_fresh_grant es a n g')
  then show ?case by (auto simp: grantIsNew_def)
next
  case (attempt_granted es a b g cause n g')
  then show ?case by (auto simp: grantIsNew_def)
next
  case (resumed es a b g cause request)
  then show ?case using publication_history_resume_ids [OF resumed.hyps(1)] by auto
qed auto

section \<open>The reducer on protocol histories\<close>

lemma reducePublication_snoc:
  "reducePublication intent events prior st (xs @ [x]) =
     (case reducePublication intent events prior st xs of
        Inl d \<Rightarrow> Inl d | Inr st' \<Rightarrow> publicationStep intent events (prior @ xs) st' x)"
  by (induction xs arbitrary: prior st) (auto split: sum.split)

lemma findIndex_Some_less:
  "x \<in> set xs \<Longrightarrow> P x \<Longrightarrow> \<exists>i. findIndex P (xs @ ys) = Some i \<and> i < length xs"
  by (induction xs) auto

lemma findIndex_zero: "findIndex P (x # xs) = Some i \<Longrightarrow> \<not> P x \<Longrightarrow> 0 < i"
  by auto

lemma publication_history_findIndex:
  assumes "publication_history c es ph" "n \<in> set (publicationAttempts es)"
  shows "\<exists>i. findIndex (\<lambda>e. publicationAttemptOf e = Some n) (es @ ts) = Some i \<and> 1 \<le> i \<and> i < length es"
proof -
  from assms(2) obtain e where "e \<in> set es" "publicationAttemptOf e = Some n"
    by (auto simp: publicationAttempts_def set_map_filter_conv)
  then obtain i where i: "findIndex (\<lambda>e. publicationAttemptOf e = Some n) (es @ ts) = Some i" "i < length es"
    using findIndex_Some_less [of e es "\<lambda>e. publicationAttemptOf e = Some n" ts] by auto
  from publication_history_head [OF assms(1)] obtain rest where "es = RemotePublicationIntended c # rest" by blast
  with i(1) have "findIndex (\<lambda>e. publicationAttemptOf e = Some n) (RemotePublicationIntended c # rest @ ts) = Some i" by simp
  then have "0 < i" by (rule findIndex_zero) simp
  with i show ?thesis by (intro exI [of _ i]) simp
qed

lemma succeededPhase_sound:
  assumes h: "publication_history c es ph" and sound: "proofSound c es proof"
    and later: "List.map_filter publicationRejectionOf ts = []"
    and active: "(\<exists>b a g. ph = PhasePending b a g) \<or>
      (\<exists>cs b g request. ph = PhaseResumeReady cs b g request) \<and> isReconciledProof proof \<and>
      latest (publicationAttempts es) = Some (proof_attemptOrdinal proof)"
  shows "succeededPhase c (es @ ts) es ph proof = Inr (PhaseSucceeded proof)"
proof -
  obtain i where "findIndex (\<lambda>e. publicationAttemptOf e = Some (proof_attemptOrdinal proof)) (es @ ts) = Some i"
    "1 \<le> i" "i < length es"
    using publication_history_findIndex [OF h, of "proof_attemptOrdinal proof"] sound by (auto simp: proofSound_def)
  with sound later active show ?thesis
    by (auto simp: succeededPhase_def proofSound_def Let_def split: option.split)
qed

definition reducesTo ::
  "RemotePublicationCorrelation \<Rightarrow> RemotePublicationJournalEvent list \<Rightarrow> RemotePublicationJournalEvent list \<Rightarrow> ReductionPhase \<Rightarrow> bool" where
  "reducesTo c es ts ph \<longleftrightarrow>
     (\<exists>seen. reducePublication c (es @ ts) [RemotePublicationIntended c] (PhasePending [] InitialAttempt None, []) (tl es) =
        Inr (ph, seen) \<and> set seen = resumeIds es)"

text \<open>One more event: the loop over the shorter history, then one step.\<close>

lemma reducesTo_snoc:
  assumes h: "publication_history c es ph" and IH: "reducesTo c es (e # ts) ph"
    and step: "\<And>seen. set seen = resumeIds es \<Longrightarrow>
      \<exists>seen'. publicationStep c (es @ e # ts) es (ph, seen) e = Inr (ph', seen') \<and> set seen' = resumeIds (es @ [e])"
  shows "reducesTo c (es @ [e]) ts ph'"
proof -
  from publication_history_head [OF h] obtain rest where es: "es = RemotePublicationIntended c # rest" by blast
  from IH obtain seen where "reducePublication c (es @ e # ts) [RemotePublicationIntended c]
      (PhasePending [] InitialAttempt None, []) rest = Inr (ph, seen)" "set seen = resumeIds es"
    by (auto simp: reducesTo_def es)
  with step [of seen] show ?thesis by (auto simp: reducesTo_def es reducePublication_snoc)
qed

lemma publication_history_reduces:
  "publication_history c es ph \<Longrightarrow> (isSucceededPhase ph \<longrightarrow> List.map_filter publicationRejectionOf ts = []) \<Longrightarrow>
     reducesTo c es ts ph"
proof (induction arbitrary: ts rule: publication_history.induct)
  case intended
  show ?case by (simp add: reducesTo_def)
next
  case (attempt es b a g n)
  show ?case by (rule reducesTo_snoc [OF attempt.hyps(1) attempt.IH]) (auto simp: attemptPhase_def Let_def)
next
  case (attempt_fresh_grant es a n g')
  show ?case by (rule reducesTo_snoc [OF attempt_fresh_grant.hyps(1) attempt_fresh_grant.IH]) (auto simp: attemptPhase_def Let_def)
next
  case (attempt_granted es a b g cause n g')
  have "phaseGrant (PhaseRetained a b g cause) \<noteq> Some g'"
    using publication_history_retained_last [OF attempt_granted.hyps(1)] attempt_granted.hyps(3)
    by (auto simp: grantIsNew_def dest!: latest_SomeD)
  then show ?case
    by (intro reducesTo_snoc [OF attempt_granted.hyps(1) attempt_granted.IH]) (auto simp: attemptPhase_def Let_def)
next
  case (attempt_resumed es cause b g request n)
  show ?case by (rule reducesTo_snoc [OF attempt_resumed.hyps(1) attempt_resumed.IH]) (auto simp: attemptPhase_def Let_def)
next
  case (rejected es b a g n)
  from publication_history_rejections [OF rejected.hyps(1)] rejected.hyps(2)
  have "rejectionIssue es (PhasePending b a g) n = None" by (auto simp: rejectionIssue_def latest_def)
  then show ?case by (intro reducesTo_snoc [OF rejected.hyps(1) rejected.IH]) auto
next
  case (retained es b a g cause)
  then show ?case by (intro reducesTo_snoc [OF retained.hyps(1) retained.IH]) (auto simp: retainedPhase_def Let_def)
next
  case (retained_resumed es cause0 b g request cause)
  then show ?case
    by (intro reducesTo_snoc [OF retained_resumed.hyps(1) retained_resumed.IH]) (auto simp: retainedPhase_def Let_def)
next
  case (retained_granted es a b g cause0 g' cause)
  have "g \<noteq> Some g'"
    using publication_history_retained_last [OF retained_granted.hyps(1)] retained_granted.hyps(2)
    by (auto simp: grantIsNew_def dest!: latest_SomeD)
  with retained_granted.hyps show ?case
    by (intro reducesTo_snoc [OF retained_granted.hyps(1) retained_granted.IH]) (auto simp: retainedPhase_def Let_def)
next
  case (resumed es a b g cause request)
  with publication_history_retained_last [OF resumed.hyps(1)] show ?case
    by (intro reducesTo_snoc [OF resumed.hyps(1) resumed.IH]) (auto simp: resumePhase_def resumeReceiptIssue_def)
next
  case (succeeded es b a g pf)
  have "succeededPhase c (es @ RemotePublicationSucceeded c pf # ts) es (PhasePending b a g) pf = Inr (PhaseSucceeded pf)"
    using succeeded.prems by (intro succeededPhase_sound [OF succeeded.hyps]) auto
  then show ?case by (intro reducesTo_snoc [OF succeeded.hyps(1) succeeded.IH]) auto
next
  case (succeeded_resumed es cause b g request pf)
  have "succeededPhase c (es @ RemotePublicationSucceeded c pf # ts) es (PhaseResumeReady cause b g request) pf =
      Inr (PhaseSucceeded pf)"
    using succeeded_resumed.prems succeeded_resumed.hyps by (intro succeededPhase_sound [OF succeeded_resumed.hyps(1)]) auto
  then show ?case by (intro reducesTo_snoc [OF succeeded_resumed.hyps(1) succeeded_resumed.IH]) auto
next
  case (resumed_after_success es pf request)
  then show ?case
    by (intro reducesTo_snoc [OF resumed_after_success.hyps(1) resumed_after_success.IH]) (auto simp: resumeReceiptIssue_def)
qed

lemma publication_history_successes:
  "publication_history c es ph \<Longrightarrow> length (filter isPublicationSucceeded es) = (if isSucceededPhase ph then 1 else 0)"
  by (induction rule: publication_history.induct) auto

lemma contiguousAttempts_upt: "contiguousAttemptsIssue [1..<Suc n] = None"
  by (auto simp: contiguousAttemptsIssue_def list_all_iff in_set_enumerate_eq simp del: upt_Suc)

lemma publication_history_no_issue:
  assumes h: "publication_history c es ph"
  shows "publicationHistoryIssue c es = None"
proof -
  from publication_history_head [OF h] obtain rest where es: "es = RemotePublicationIntended c # rest"
    and rest: "\<forall>e\<in>set rest. \<not> isPublicationIntended e \<and> publication_correlation e = Some c \<and> refspecDerived e" by blast
  have "length (filter isPublicationIntended es) = 1" using rest by (simp add: es filter_False)
  moreover have "\<not> list_ex (\<lambda>e. case publication_correlation e of
      None \<Rightarrow> False | Some d \<Rightarrow> \<not> remotePublicationCorrelationEquals d c) es"
    using rest by (auto simp: es list_ex_iff)
  moreover have "\<not> batchAllowanceExceeded es"
    using publication_history_batches [OF h]
    by (auto simp: batchAllowanceExceeded_def list_ex_iff attemptBatches_def [symmetric] Let_def linorder_not_less [symmetric])
  moreover have "list_all refspecDerived es" using rest by (auto simp: es list_all_iff)
  moreover have "contiguousAttemptsIssue (publicationAttempts es) = None"
    by (subst publication_history_attempts [OF h]) (rule contiguousAttempts_upt)
  moreover have "\<not> length (filter isPublicationSucceeded es) > 1"
    using publication_history_successes [OF h] by simp
  ultimately show ?thesis by (simp add: publicationHistoryIssue_def)
qed

text \<open>The reduced state of a protocol history is the state of its phase.\<close>

lemma derive_publication_history:
  assumes h: "publication_history c es ph"
  shows "deriveRemotePublicationState es = publicationStateOfPhase c (publicationAttempts es) ph"
proof -
  from publication_history_head [OF h] obtain rest where es: "es = RemotePublicationIntended c # rest" by blast
  from publication_history_reduces [OF h, of "[]"] have "\<exists>seen. reducePublication c es [RemotePublicationIntended c]
      (PhasePending [] InitialAttempt None, []) rest = Inr (ph, seen)"
    by (auto simp: reducesTo_def es)
  with publication_history_no_issue [OF h] show ?thesis
    by (auto simp: deriveRemotePublicationState_def es)
qed

end
