(* ===== verification/Publication_Protocol.thy ===== *)
theory Publication_Protocol
  imports Publication_State Protocol_World
begin

text \<open>
  The direct-publication engine over the journal and Git (\<^verbatim>\<open>direct-publication/transition-journal.ts\<close>,
  \<^verbatim>\<open>protocol-engine.ts\<close>, \<^verbatim>\<open>admission.ts\<close>): evidence selection and validation, the appends,
  one run of the protocol in its two guarded phases, resumption of a retained outcome and admission of
  the pinned destination. The evidence reader is the journal's own read. A phase boundary
  (the exit authority of the delivery owner) and the test for settled integration finality are arguments.
\<close>

section \<open>Evidence\<close>

fun publicationTransitionOf :: "JournalRecord \<Rightarrow> (RemotePublicationJournalEvent \<times> RemotePublicationCorrelation) option" where
  "publicationTransitionOf r =
     (case publicationEventOf (jr_event r) of
        None \<Rightarrow> None
      | Some e \<Rightarrow> map_option (Pair e) (publication_correlation e))"

definition publicationRecordsFor ::
  "JournalRecord list \<Rightarrow> RemotePublicationCorrelation \<Rightarrow> JournalRecord list" where
  "publicationRecordsFor source correlation =
     sort_key jr_position (filter (\<lambda>r. case publicationTransitionOf r of
        None \<Rightarrow> False | Some (_, c) \<Rightarrow> pc_requestId c = pc_requestId correlation) source)"

text \<open>Six kinds are selected, put in one list, sorted by position, and kept when they carry the request identity.\<close>

definition remotePublicationEventsFor ::
  "JournalRecord list \<Rightarrow> RemotePublicationCorrelation \<Rightarrow> RemotePublicationJournalEvent list" where
  "remotePublicationEventsFor source correlation =
     List.map_filter (\<lambda>r. publicationEventOf (jr_event r)) (publicationRecordsFor source correlation)"

fun batchGrantOf :: "JournalRecord \<Rightarrow> RemotePublicationBatchGrantRequest option" where
  "batchGrantOf r =
     (case jr_event r of RemotePublicationEvent (RemotePublicationBatchGrantApplied request) \<Rightarrow> Some request | _ \<Rightarrow> None)"

fun retainedOf ::
  "JournalRecord \<Rightarrow> (JournalPosition option \<times> RemotePublicationRetainedCause \<times> RemotePublicationCorrelation) option" where
  "retainedOf r =
     (case jr_event r of RemotePublicationEvent (RemotePublicationRetained g cause c _) \<Rightarrow> Some (g, cause, c) | _ \<Rightarrow> None)"

fun attemptIntentOf :: "JournalRecord \<Rightarrow> (JournalPosition option \<times> RemotePublicationCorrelation) option" where
  "attemptIntentOf r =
     (case jr_event r of RemotePublicationEvent (RemotePublicationAttemptIntended _ g c _) \<Rightarrow> Some (g, c) | _ \<Rightarrow> None)"

fun isExhaustionCause :: "RemotePublicationRetainedCause \<Rightarrow> bool" where
  "isExhaustionCause AttemptsExhausted = True"
| "isExhaustionCause (RetainedCompatibleCompetingHead _ _) = True"
| "isExhaustionCause _ = False"

definition batchGrantReferencesExhaustion :: "JournalRecord list \<Rightarrow> JournalRecord \<Rightarrow> bool" where
  "batchGrantReferencesExhaustion source grant =
     (case batchGrantOf grant of
        None \<Rightarrow> False
      | Some request \<Rightarrow>
          (case journalRecordByPosition source (bg_exhaustionAt request) of
             None \<Rightarrow> False
           | Some exhaustion \<Rightarrow>
               (case retainedOf exhaustion of
                  None \<Rightarrow> False
                | Some (_, cause, c) \<Rightarrow>
                    jr_runId exhaustion = jr_runId grant \<and> jr_position exhaustion < jr_position grant \<and>
                    publicationQueuedAtOf c = ri_queuedAt (bg_responsibility request) \<and> isExhaustionCause cause)))"

definition remotePublicationBatchGrantIsForCorrelation ::
  "JournalRecord \<Rightarrow> RemotePublicationCorrelation \<Rightarrow> bool" where
  "remotePublicationBatchGrantIsForCorrelation r correlation =
     (case batchGrantOf r of
        None \<Rightarrow> False
      | Some request \<Rightarrow>
          jr_runId r = remotePublicationRunIdOf correlation \<and>
          bg_runId request = remotePublicationRunIdOf correlation \<and>
          ri_runId (bg_responsibility request) = bg_runId request \<and>
          ri_queuedAt (bg_responsibility request) = publicationQueuedAtOf correlation)"

definition remotePublicationBatchGrantsFor ::
  "JournalRecord list \<Rightarrow> RemotePublicationCorrelation \<Rightarrow> JournalRecord list" where
  "remotePublicationBatchGrantsFor source correlation =
     sort_key jr_position (filter (\<lambda>r. remotePublicationBatchGrantIsForCorrelation r correlation) source)"

definition lastRetainedFor :: "JournalRecord list \<Rightarrow> RemotePublicationCorrelation \<Rightarrow> JournalRecord option" where
  "lastRetainedFor source correlation =
     findLast (\<lambda>r. case retainedOf r of None \<Rightarrow> False | Some (_, _, c) \<Rightarrow> pc_requestId c = pc_requestId correlation) source"

definition remotePublicationBatchGrantForNextAttempt ::
  "JournalRecord list \<Rightarrow> RemotePublicationCorrelation \<Rightarrow> RemotePublicationState \<Rightarrow> JournalRecord option" where
  "remotePublicationBatchGrantForNextAttempt source correlation state =
     (let grants = remotePublicationBatchGrantsFor source correlation;
          active = (\<lambda>attemptOrdinals batchGrantAt newest. case batchGrantAt of
            Some at \<Rightarrow> List.find (\<lambda>r. jr_position r = at) grants
          | None \<Rightarrow> if attemptOrdinals = [] then Some newest else None)
      in case latest grants of
           None \<Rightarrow> None
         | Some newest \<Rightarrow>
             (case state of
                PublicationSucceeded _ _ \<Rightarrow> None
              | PublicationContradiction _ \<Rightarrow> None
              | PublicationPending _ (attempts :: nat list) _ g _ \<Rightarrow> active attempts g newest
              | PublicationResumeReady attempts _ g _ _ \<Rightarrow> active attempts g newest
              | PublicationAbsent \<Rightarrow> Some newest
              | PublicationRetained _ _ _ _ _ \<Rightarrow>
                  (case lastRetainedFor source correlation of
                     None \<Rightarrow> None
                   | Some lastRetained \<Rightarrow> if jr_position newest > jr_position lastRetained then Some newest else None)))"

section \<open>Validation\<close>

datatype RemotePublicationError =
    PublicationJournalError JournalError
  | RemotePublicationHistoryContradiction string RemotePublicationRequestId
  | RemotePublicationResumeRequestConflict RemotePublicationResumeRequestId
  | RemotePublicationResumeSubjectMismatch RemotePublicationResumeRequestId RunId
  | RemotePublicationAdmissionRejected string RemotePublicationTarget
  | PublicationObservationFailure RemotePublicationObservationFailureReason
  | PublicationOwnershipError string
  | PublicationInterrupted

text \<open>What a retained outcome or an attempt must cite: the latest grant before it, and one that rests on an exhaustion.\<close>

definition grantBefore :: "JournalRecord list \<Rightarrow> JournalPosition \<Rightarrow> JournalRecord option" where
  "grantBefore grants position = findLast (\<lambda>r. jr_position r < position) grants"

definition citedGrantIssue ::
  "JournalRecord list \<Rightarrow> JournalRecord list \<Rightarrow> string \<Rightarrow> JournalPosition option \<Rightarrow> JournalRecord \<Rightarrow> string option" where
  "citedGrantIssue source grants mismatch batchGrantAt r =
     (let currentGrant = grantBefore grants (jr_position r)
      in if batchGrantAt \<noteq> map_option jr_position currentGrant then Some mismatch
         else if (case currentGrant of None \<Rightarrow> False | Some grant \<Rightarrow> \<not> batchGrantReferencesExhaustion source grant)
         then Some ''publication batch grant must reference an earlier retained exhaustion occurrence'' else None)"

definition retainedGrantIssue ::
  "JournalRecord list \<Rightarrow> JournalRecord list \<Rightarrow> RemotePublicationCorrelation \<Rightarrow> JournalRecord \<Rightarrow> string option" where
  "retainedGrantIssue source grants correlation r =
     (case retainedOf r of
        None \<Rightarrow> None
      | Some (g, _, c) \<Rightarrow>
          if pc_requestId c \<noteq> pc_requestId correlation then None
          else citedGrantIssue source grants
            ''retained publication must reference the latest exact batch grant before its durable outcome'' g r)"

definition attemptGrantIssue ::
  "JournalRecord list \<Rightarrow> JournalRecord list \<Rightarrow> RemotePublicationCorrelation \<Rightarrow> JournalRecord \<Rightarrow> string option" where
  "attemptGrantIssue source grants correlation r =
     (case attemptIntentOf r of
        None \<Rightarrow> None
      | Some (g, c) \<Rightarrow>
          if pc_requestId c \<noteq> pc_requestId correlation then None
          else citedGrantIssue source grants
            ''publication attempt must reference the latest exact batch grant before its durable intent'' g r)"

text \<open>
  The loop over attempts, in position order, with its running count per grant; the count of a
  batch is raised after the two citation checks of that attempt.
\<close>

fun attemptsGrantIssue ::
  "JournalRecord list \<Rightarrow> JournalRecord list \<Rightarrow> RemotePublicationCorrelation \<Rightarrow> JournalPosition list \<Rightarrow> JournalRecord list \<Rightarrow>
   string option" where
  "attemptsGrantIssue source grants correlation counted [] = None"
| "attemptsGrantIssue source grants correlation counted (r # rs) =
     (case attemptGrantIssue source grants correlation r of
        Some detail \<Rightarrow> Some detail
      | None \<Rightarrow>
          (case grantBefore grants (jr_position r) of
             None \<Rightarrow> attemptsGrantIssue source grants correlation counted rs
           | Some grant \<Rightarrow>
               if count_list counted (jr_position grant) + 1 > remotePublicationAttemptLimit
               then Some ''publication candidate exceeds the three-intent allowance for one batch grant''
               else attemptsGrantIssue source grants correlation (jr_position grant # counted) rs))"

definition publicationAttemptRecordsFor ::
  "JournalRecord list \<Rightarrow> RemotePublicationCorrelation \<Rightarrow> JournalRecord list" where
  "publicationAttemptRecordsFor source correlation =
     sort_key jr_position (filter (\<lambda>r. case attemptIntentOf r of
        None \<Rightarrow> False | Some (_, c) \<Rightarrow> pc_requestId c = pc_requestId correlation) source)"

definition publicationEvidenceIssue :: "JournalRecord list \<Rightarrow> RemotePublicationCorrelation \<Rightarrow> string option" where
  "publicationEvidenceIssue source correlation =
     (let grants = remotePublicationBatchGrantsFor source correlation
      in case List.map_filter (retainedGrantIssue source grants correlation) source of
           detail # _ \<Rightarrow> Some detail
         | [] \<Rightarrow>
             (case attemptsGrantIssue source grants correlation [] (publicationAttemptRecordsFor source correlation) of
                Some detail \<Rightarrow> Some detail
              | None \<Rightarrow>
                  if list_ex (\<lambda>e. case publication_correlation e of
                       None \<Rightarrow> False | Some c \<Rightarrow> \<not> remotePublicationCorrelationEquals c correlation)
                     (remotePublicationEventsFor source correlation)
                  then Some ''journal contains a different exact publication correlation for this request id'' else None))"

definition validateRemotePublicationState ::
  "JournalRecord list \<Rightarrow> RemotePublicationCorrelation \<Rightarrow> RemotePublicationError + RemotePublicationState" where
  "validateRemotePublicationState source correlation =
     (case publicationEvidenceIssue source correlation of
        Some detail \<Rightarrow> Inl (RemotePublicationHistoryContradiction detail (pc_requestId correlation))
      | None \<Rightarrow>
          (case deriveRemotePublicationState (remotePublicationEventsFor source correlation) of
             PublicationContradiction detail \<Rightarrow>
               Inl (RemotePublicationHistoryContradiction detail (pc_requestId correlation))
           | state \<Rightarrow> Inr state))"

section \<open>Appends\<close>

type_synonym ('j, 'g, 'a) publication = "(('j, 'g) World, RemotePublicationError, 'a) effect"

definition readPublicationEvidence :: "'j InRunJournalService \<Rightarrow> RunId \<Rightarrow> ('j, 'g, JournalRecord list) publication" where
  "readPublicationEvidence journal runId = liftJournal PublicationJournalError (ij_read journal runId)"

definition appendRemotePublicationEvent ::
  "'j InRunJournalService \<Rightarrow> RemotePublicationCorrelation \<Rightarrow> JournalRecordKey \<Rightarrow> RemotePublicationJournalEvent \<Rightarrow>
   ('j, 'g, unit) publication" where
  "appendRemotePublicationEvent journal correlation key event =
     andThen (liftJournal PublicationJournalError
                (ij_append journal (remotePublicationRunIdOf correlation) key (RemotePublicationEvent event)))
       (\<lambda>_. succeed ())"

definition appendRemotePublicationIntent ::
  "'j InRunJournalService \<Rightarrow> RemotePublicationCorrelation \<Rightarrow> ('j, 'g, unit) publication" where
  "appendRemotePublicationIntent journal correlation =
     appendRemotePublicationEvent journal correlation
       (remotePublicationIntendedRecordKey (pc_requestId correlation)) (RemotePublicationIntended correlation)"

definition appendRemotePublicationAttemptIntent ::
  "'j InRunJournalService \<Rightarrow> RemotePublicationCorrelation \<Rightarrow> nat \<Rightarrow> JournalPosition option \<Rightarrow> ('j, 'g, unit) publication" where
  "appendRemotePublicationAttemptIntent journal correlation attemptOrdinal batchGrantAt =
     appendRemotePublicationEvent journal correlation
       (remotePublicationAttemptIntendedRecordKey (pc_requestId correlation) attemptOrdinal)
       (RemotePublicationAttemptIntended attemptOrdinal batchGrantAt correlation
          (remotePublicationRefspecFor (qc_candidateCommit (pc_qualifiedCandidate correlation)) (rt_branch (pc_target correlation))))"

definition appendRemotePublicationAttemptRejection ::
  "'j InRunJournalService \<Rightarrow> RemotePublicationCorrelation \<Rightarrow> nat \<Rightarrow> ('j, 'g, unit) publication" where
  "appendRemotePublicationAttemptRejection journal correlation attemptOrdinal =
     appendRemotePublicationEvent journal correlation
       (remotePublicationAttemptRejectedRecordKey (pc_requestId correlation) attemptOrdinal)
       (RemotePublicationAttemptRejectedNonFastForward attemptOrdinal correlation)"

definition appendRemotePublicationRetained ::
  "'j InRunJournalService \<Rightarrow> RemotePublicationCorrelation \<Rightarrow> RemotePublicationRetainedCause \<Rightarrow>
   RemotePublicationAttemptAuthorization \<Rightarrow> JournalPosition option \<Rightarrow> ('j, 'g, unit) publication" where
  "appendRemotePublicationRetained journal correlation cause authorization batchGrantAt =
     appendRemotePublicationEvent journal correlation
       (remotePublicationRetainedRecordKey (pc_requestId correlation) authorization batchGrantAt)
       (RemotePublicationRetained batchGrantAt cause correlation authorization)"

definition appendRemotePublicationResumeRequest ::
  "'j InRunJournalService \<Rightarrow> RemotePublicationCorrelation \<Rightarrow> RemotePublicationResumeRequest \<Rightarrow> ('j, 'g, unit) publication" where
  "appendRemotePublicationResumeRequest journal correlation request =
     appendRemotePublicationEvent journal correlation
       (remotePublicationResumeRequestedRecordKey (rr_requestId request)) (RemotePublicationResumeRequested correlation request)"

definition appendRemotePublicationSuccess ::
  "'j InRunJournalService \<Rightarrow> RemotePublicationCorrelation \<Rightarrow> RemotePublicationProofBasis \<Rightarrow> ('j, 'g, unit) publication" where
  "appendRemotePublicationSuccess journal correlation proof =
     appendRemotePublicationEvent journal correlation
       (remotePublicationSucceededRecordKey (pc_requestId correlation)) (RemotePublicationSucceeded correlation proof)"

section \<open>One run of the protocol\<close>

record PendingPublication =
  pp_authorization :: RemotePublicationAttemptAuthorization
  pp_attemptOrdinals :: "nat list"
  pp_attemptOrdinalsInBatch :: "nat list"
  pp_batchGrantAt :: "JournalPosition option"
  pp_correlation :: RemotePublicationCorrelation

definition pendingPublicationState :: "PendingPublication \<Rightarrow> RemotePublicationState" where
  "pendingPublicationState p =
     PublicationPending (pp_authorization p) (pp_attemptOrdinals p) (pp_attemptOrdinalsInBatch p) (pp_batchGrantAt p)
       (pp_correlation p)"

definition retainedPublicationState ::
  "PendingPublication \<Rightarrow> RemotePublicationRetainedCause \<Rightarrow> RemotePublicationCorrelation \<Rightarrow> RemotePublicationState" where
  "retainedPublicationState p cause correlation =
     PublicationRetained (pp_authorization p) (pp_attemptOrdinalsInBatch p) (pp_batchGrantAt p) cause correlation"

definition afterPublicationAttempt :: "PendingPublication \<Rightarrow> nat \<Rightarrow> RemotePublicationCorrelation \<Rightarrow> PendingPublication" where
  "afterPublicationAttempt p attemptOrdinal correlation =
     p\<lparr>pp_attemptOrdinals := pp_attemptOrdinals p @ [attemptOrdinal],
       pp_attemptOrdinalsInBatch := pp_attemptOrdinalsInBatch p @ [attemptOrdinal], pp_correlation := correlation\<rparr>"

text \<open>The pending state an activation starts from; only an absent publication needs an append first.\<close>

fun pendingAtActivation ::
  "JournalRecord list \<Rightarrow> RemotePublicationCorrelation \<Rightarrow> JournalPosition option \<Rightarrow> RemotePublicationState \<Rightarrow> PendingPublication" where
  "pendingAtActivation source correlation grantedBatchAt (PublicationRetained _ _ _ _ c) =
     \<lparr>pp_authorization = InitialAttempt,
      pp_attemptOrdinals = publicationAttempts (remotePublicationEventsFor source correlation),
      pp_attemptOrdinalsInBatch = [], pp_batchGrantAt = grantedBatchAt, pp_correlation = c\<rparr>"
| "pendingAtActivation source correlation grantedBatchAt (PublicationResumeReady attempts inBatch g c request) =
     \<lparr>pp_authorization = ResumeRequest (rr_requestId request), pp_attemptOrdinals = attempts,
      pp_attemptOrdinalsInBatch = inBatch, pp_batchGrantAt = g, pp_correlation = c\<rparr>"
| "pendingAtActivation source correlation grantedBatchAt (PublicationPending a attempts inBatch g c) =
     (if attempts = [] \<and> grantedBatchAt \<noteq> None
      then \<lparr>pp_authorization = a, pp_attemptOrdinals = attempts, pp_attemptOrdinalsInBatch = [],
            pp_batchGrantAt = grantedBatchAt, pp_correlation = c\<rparr>
      else \<lparr>pp_authorization = a, pp_attemptOrdinals = attempts, pp_attemptOrdinalsInBatch = inBatch,
            pp_batchGrantAt = g, pp_correlation = c\<rparr>)"
| "pendingAtActivation source correlation grantedBatchAt _ =
     \<lparr>pp_authorization = InitialAttempt, pp_attemptOrdinals = [], pp_attemptOrdinalsInBatch = [],
      pp_batchGrantAt = grantedBatchAt, pp_correlation = correlation\<rparr>"

fun pendingAttemptAtActivation :: "RemotePublicationState \<Rightarrow> nat option" where
  "pendingAttemptAtActivation (PublicationPending _ attempts _ _ _) = latest attempts"
| "pendingAttemptAtActivation (PublicationResumeReady attempts _ _ _ _) = latest attempts"
| "pendingAttemptAtActivation _ = None"

fun retainedCauseForPushFailure :: "RemotePublicationPushFailureReason \<Rightarrow> RemotePublicationRetainedCause" where
  "retainedCauseForPushFailure SenderStopUnproven = PushCustodyUnproven"
| "retainedCauseForPushFailure _ = PushEndpointMappingChanged"

fun retainedCauseForObservation :: "RemotePublicationGitObservation \<Rightarrow> RemotePublicationRetainedCause option" where
  "retainedCauseForObservation (CompatibleCompetingHead remoteHead mergeBase) =
     Some (RetainedCompatibleCompetingHead remoteHead mergeBase)"
| "retainedCauseForObservation (IncompatibleLineage remoteHead) = Some (RetainedIncompatibleLineage remoteHead)"
| "retainedCauseForObservation TargetMissing = Some RetainedTargetMissing"
| "retainedCauseForObservation _ = None"

fun proofForObservation :: "RemotePublicationGitObservation \<Rightarrow> nat \<Rightarrow> RemotePublicationProofBasis option" where
  "proofForObservation (RemoteCandidateCurrent remoteHead) n = Some (ProofCandidateCurrent n remoteHead)"
| "proofForObservation (RemoteCandidateAncestor remoteHead) n = Some (ProofCandidateAncestor n remoteHead)"
| "proofForObservation _ n = None"

fun retainedCauseForDenial :: "RemotePublicationDenialCause \<Rightarrow> RemotePublicationRetainedCause" where
  "retainedCauseForDenial DenialAuthentication = AuthenticationDenied"
| "retainedCauseForDenial DenialPolicy = PolicyDenied"
| "retainedCauseForDenial DenialOther = RemoteDenied"

datatype ObservationPhaseResult =
    SucceededOrRetained RemotePublicationState
  | ObservationRetained RemotePublicationRetainedCause
  | Observed RemotePublicationGitObservation

record ('j, 'g) RemotePublicationPhaseBoundary =
  pb_runObservation :: "('j, 'g, ObservationPhaseResult) publication \<Rightarrow> ('j, 'g, ObservationPhaseResult) publication"
  pb_runSender :: "('j, 'g, RemotePublicationState) publication \<Rightarrow> ('j, 'g, RemotePublicationState) publication"

definition retainPublication ::
  "'j InRunJournalService \<Rightarrow> RemotePublicationCorrelation \<Rightarrow> PendingPublication \<Rightarrow> RemotePublicationRetainedCause \<Rightarrow>
   ('j, 'g, RemotePublicationState) publication" where
  "retainPublication journal correlation pending cause =
     andThen (appendRemotePublicationRetained journal correlation cause (pp_authorization pending) (pp_batchGrantAt pending))
       (\<lambda>_. succeed (retainedPublicationState pending cause correlation))"

definition succeedPublication ::
  "'j InRunJournalService \<Rightarrow> RemotePublicationCorrelation \<Rightarrow> RemotePublicationProofBasis \<Rightarrow>
   ('j, 'g, RemotePublicationState) publication" where
  "succeedPublication journal correlation proof =
     andThen (appendRemotePublicationSuccess journal correlation proof) (\<lambda>_. succeed (PublicationSucceeded correlation proof))"

definition prepareAttemptIntent ::
  "'j InRunJournalService \<Rightarrow> 'g RemotePublicationGitService \<Rightarrow> RemotePublicationCorrelation \<Rightarrow> PendingPublication \<Rightarrow> nat \<Rightarrow>
   ('j, 'g, RemotePublicationState option) publication" where
  "prepareAttemptIntent journal git correlation pending attemptOrdinal =
     andThen (callGit (pg_prepareSenderCustody git (remotePublicationGitRequestFor correlation) attemptOrdinal)) (\<lambda>prepared.
       case prepared of
         Inl _ \<Rightarrow> andThen (retainPublication journal correlation pending PushCustodyUnproven) (\<lambda>state. succeed (Some state))
       | Inr _ \<Rightarrow>
           andThen (appendRemotePublicationAttemptIntent journal correlation attemptOrdinal (pp_batchGrantAt pending))
             (\<lambda>_. succeed None))"

definition observePublication ::
  "'j InRunJournalService \<Rightarrow> 'g RemotePublicationGitService \<Rightarrow> RemotePublicationCorrelation \<Rightarrow> PendingPublication \<Rightarrow> nat option \<Rightarrow>
   ('j, 'g, ObservationPhaseResult) publication" where
  "observePublication journal git correlation pending existingOrdinal =
     (let retain = (\<lambda>cause.
            andThen (appendRemotePublicationRetained journal correlation cause (pp_authorization pending) (pp_batchGrantAt pending))
              (\<lambda>_. succeed (ObservationRetained cause)))
      in andThen (callGit (pg_observe git (remotePublicationGitRequestFor correlation))) (\<lambda>observationResult.
        case observationResult of
          Inl reason \<Rightarrow> retain (ObservationUnavailable reason)
        | Inr observation \<Rightarrow>
            (case existingOrdinal of
               Some n \<Rightarrow>
                 (case proofForObservation observation n of
                    None \<Rightarrow> succeed (Observed observation)
                  | Some proof \<Rightarrow>
                      andThen (succeedPublication journal correlation proof) (\<lambda>state. succeed (SucceededOrRetained state)))
             | None \<Rightarrow>
                 (let n = length (pp_attemptOrdinals pending) + 1
                  in case proofForObservation observation n of
                       None \<Rightarrow> succeed (Observed observation)
                     | Some proof \<Rightarrow>
                         andThen (prepareAttemptIntent journal git correlation pending n) (\<lambda>preparation.
                           case preparation of
                             Some state \<Rightarrow> succeed (SucceededOrRetained state)
                           | None \<Rightarrow>
                               andThen (succeedPublication journal correlation proof)
                                 (\<lambda>state. succeed (SucceededOrRetained state)))))))"

definition observationPhase ::
  "'j InRunJournalService \<Rightarrow> 'g RemotePublicationGitService \<Rightarrow> RemotePublicationCorrelation \<Rightarrow> PendingPublication \<Rightarrow> nat option \<Rightarrow>
   ('j, 'g, ObservationPhaseResult) publication" where
  "observationPhase journal git correlation pending existingOrdinal =
     (case existingOrdinal of
        None \<Rightarrow> observePublication journal git correlation pending existingOrdinal
      | Some n \<Rightarrow>
          andThen (callGit (pg_reconcileSenderCustody git (remotePublicationGitRequestFor correlation) n)) (\<lambda>custody.
            case custody of
              Inl _ \<Rightarrow>
                andThen (appendRemotePublicationRetained journal correlation PushCustodyUnproven
                           (pp_authorization pending) (pp_batchGrantAt pending))
                  (\<lambda>_. succeed (ObservationRetained PushCustodyUnproven))
            | Inr _ \<Rightarrow> observePublication journal git correlation pending existingOrdinal))"

text \<open>What one push answer is recorded as; \<open>pending\<close> already counts the attempt.\<close>

definition settlePush ::
  "'j InRunJournalService \<Rightarrow> RemotePublicationCorrelation \<Rightarrow> PendingPublication \<Rightarrow> nat \<Rightarrow>
   RemotePublicationPushError + RemotePublicationPushResult \<Rightarrow> ('j, 'g, RemotePublicationState) publication" where
  "settlePush journal correlation pending attemptOrdinal pushResult =
     (case pushResult of
        Inl (PushOwnershipError detail) \<Rightarrow> fail (PublicationOwnershipError detail)
      | Inl (PushFailure reason) \<Rightarrow>
          if reason = ResponseDeadline \<or> reason = TransportUnavailable then succeed (pendingPublicationState pending)
          else retainPublication journal correlation pending (retainedCauseForPushFailure reason)
      | Inr (PushResultApplied remoteHead) \<Rightarrow> succeedPublication journal correlation (PushApplied attemptOrdinal remoteHead)
      | Inr (PushResultUpToDate remoteHead) \<Rightarrow> succeedPublication journal correlation (PushUpToDate attemptOrdinal remoteHead)
      | Inr RejectedNonFastForward \<Rightarrow>
          andThen (appendRemotePublicationAttemptRejection journal correlation attemptOrdinal)
            (\<lambda>_. succeed (pendingPublicationState pending))
      | Inr PushThrottled \<Rightarrow> retainPublication journal correlation pending RetainedThrottled
      | Inr (RejectedDefinite cause) \<Rightarrow> retainPublication journal correlation pending (retainedCauseForDenial cause))"

definition sendPublication ::
  "'j InRunJournalService \<Rightarrow> 'g RemotePublicationGitService \<Rightarrow> RemotePublicationCorrelation \<Rightarrow> PendingPublication \<Rightarrow>
   ('j, 'g, RemotePublicationState) publication" where
  "sendPublication journal git correlation pending =
     (let attemptOrdinal = length (pp_attemptOrdinals pending) + 1; request = remotePublicationGitRequestFor correlation in
      andThen (prepareAttemptIntent journal git correlation pending attemptOrdinal) (\<lambda>preparation.
        case preparation of
          Some state \<Rightarrow> succeed state
        | None \<Rightarrow>
            andThen (logSent (SentPush correlation request attemptOrdinal)) (\<lambda>_.
              andThen (callGit (pg_push git request attemptOrdinal))
                (settlePush journal correlation (afterPublicationAttempt pending attemptOrdinal correlation) attemptOrdinal))))"

definition senderPhase ::
  "'j InRunJournalService \<Rightarrow> 'g RemotePublicationGitService \<Rightarrow> RemotePublicationCorrelation \<Rightarrow> PendingPublication \<Rightarrow>
   RemotePublicationGitObservation \<Rightarrow> ('j, 'g, RemotePublicationState) publication" where
  "senderPhase journal git correlation pending observation =
     (case retainedCauseForObservation observation of
        Some cause \<Rightarrow> retainPublication journal correlation pending cause
      | None \<Rightarrow>
          if remotePublicationAttemptsExhausted (pendingPublicationState pending)
          then retainPublication journal correlation pending AttemptsExhausted
          else sendPublication journal git correlation pending)"

definition activatePublication ::
  "'j InRunJournalService \<Rightarrow> 'g RemotePublicationGitService \<Rightarrow> ('j, 'g) RemotePublicationPhaseBoundary \<Rightarrow>
   RemotePublicationCorrelation \<Rightarrow> PendingPublication \<Rightarrow> nat option \<Rightarrow> ('j, 'g, RemotePublicationState) publication" where
  "activatePublication journal git boundary correlation pending existingOrdinal =
     andThen (pb_runObservation boundary (observationPhase journal git correlation pending existingOrdinal)) (\<lambda>result.
       case result of
         SucceededOrRetained state \<Rightarrow> succeed state
       | ObservationRetained cause \<Rightarrow> succeed (retainedPublicationState pending cause correlation)
       | Observed observation \<Rightarrow> pb_runSender boundary (senderPhase journal git correlation pending observation))"

definition isPublicationRetainedState :: "RemotePublicationState \<Rightarrow> bool" where
  "isPublicationRetainedState state = (case state of PublicationRetained _ _ _ _ _ \<Rightarrow> True | _ \<Rightarrow> False)"

definition runRemotePublication ::
  "'j InRunJournalService \<Rightarrow> 'g RemotePublicationGitService \<Rightarrow> ('j, 'g) RemotePublicationPhaseBoundary \<Rightarrow>
   IntegratorRunQualifiedCandidate \<Rightarrow> RemotePublicationTarget \<Rightarrow> ('j, 'g, RemotePublicationState) publication" where
  "runRemotePublication journal git boundary candidate target =
     (let correlation = remotePublicationCorrelationFor candidate target in
      andThen (readPublicationEvidence journal (remotePublicationRunIdOf correlation)) (\<lambda>source.
        case validateRemotePublicationState source correlation of
          Inl e \<Rightarrow> fail e
        | Inr (PublicationSucceeded c proof) \<Rightarrow> succeed (PublicationSucceeded c proof)
        | Inr reconstructed \<Rightarrow>
            (let grantedBatchAt = map_option jr_position (remotePublicationBatchGrantForNextAttempt source correlation reconstructed);
                 pending = pendingAtActivation source correlation grantedBatchAt reconstructed
             in if isPublicationRetainedState reconstructed \<and> grantedBatchAt = None then succeed reconstructed
                else andThen (if reconstructed = PublicationAbsent then appendRemotePublicationIntent journal correlation
                              else succeed ())
                  (\<lambda>_. activatePublication journal git boundary correlation pending
                          (pendingAttemptAtActivation reconstructed)))))"

section \<open>Resumption\<close>

fun resumeReceiptOf :: "JournalRecord \<Rightarrow> (RemotePublicationCorrelation \<times> RemotePublicationResumeRequest) option" where
  "resumeReceiptOf r =
     (case jr_event r of RemotePublicationEvent (RemotePublicationResumeRequested c request) \<Rightarrow> Some (c, request) | _ \<Rightarrow> None)"

datatype RemotePublicationResumeDispatch =
    ContinueDirectPublication RemotePublicationState
  | PublicationStatus RemotePublicationState
  | ContinueFinality RemotePublicationState
  | ContinueRunFrontier RemotePublicationState

fun isCompatibleCompetingHead :: "RemotePublicationRetainedCause \<Rightarrow> bool" where
  "isCompatibleCompetingHead (RetainedCompatibleCompetingHead _ _) = True"
| "isCompatibleCompetingHead _ = False"

definition remotePublicationResumeDispatchOf :: "RemotePublicationState \<Rightarrow> RemotePublicationResumeDispatch" where
  "remotePublicationResumeDispatchOf state =
     (case state of
        PublicationRetained _ _ _ cause _ \<Rightarrow>
          if isCompatibleCompetingHead cause then ContinueRunFrontier state else PublicationStatus state
      | PublicationContradiction _ \<Rightarrow> PublicationStatus state
      | PublicationSucceeded _ _ \<Rightarrow> ContinueFinality state
      | _ \<Rightarrow> ContinueDirectPublication state)"

fun resumeOutcomeNeedsContinuation :: "RemotePublicationState \<Rightarrow> bool" where
  "resumeOutcomeNeedsContinuation (PublicationRetained _ _ _ cause _) = isCompatibleCompetingHead cause"
| "resumeOutcomeNeedsContinuation (PublicationContradiction _) = False"
| "resumeOutcomeNeedsContinuation _ = True"

text \<open>
  A redelivered resume request: what its recorded receipt still authorizes. \<open>Some\<close> is a run to
  continue, \<open>None\<close> a settled answer.
\<close>

definition receiptStillRuns ::
  "RemotePublicationState \<Rightarrow> RemotePublicationResumeRequest \<Rightarrow> RemotePublicationJournalEvent list \<Rightarrow> bool" where
  "receiptStillRuns recordedState request recordedEvents =
     (case recordedState of
        PublicationResumeReady _ _ _ _ recorded \<Rightarrow> rr_requestId recorded = rr_requestId request
      | PublicationPending authorization attempts _ _ _ \<Rightarrow>
          authorization = ResumeRequest (rr_requestId request) \<and>
          (case latest recordedEvents of
             None \<Rightarrow> False
           | Some e \<Rightarrow> publicationAttemptOf e \<noteq> None \<and> publicationAttemptOf e = latest attempts)
      | _ \<Rightarrow> False)"

definition resumeRemotePublicationOutcome ::
  "'j InRunJournalService \<Rightarrow> 'g RemotePublicationGitService \<Rightarrow> ('j, 'g) RemotePublicationPhaseBoundary \<Rightarrow>
   (JournalRecord list \<Rightarrow> IntegratorRunQualifiedCandidate \<Rightarrow> bool) \<Rightarrow> IntegratorRunQualifiedCandidate \<Rightarrow>
   RemotePublicationTarget \<Rightarrow> RemotePublicationResumeRequest \<Rightarrow> ('j, 'g, RemotePublicationState \<times> bool) publication" where
  "resumeRemotePublicationOutcome journal git boundary finalitySettled candidate target request =
     (let correlation = remotePublicationCorrelationFor candidate target;
          expectedRunId = remotePublicationRunIdOf correlation;
          expectedResponsibility = integrationResponsibilityIdentity (se_plannedAttempt (ir_session (qc_run candidate)))
            (se_queuedAt (ir_session (qc_run candidate)));
          activate = (\<lambda>c. andThen (runRemotePublication journal git boundary (pc_qualifiedCandidate c) (pc_target c))
            (\<lambda>state. succeed (state, True)))
      in if rr_runId request \<noteq> expectedRunId \<or> rr_responsibility request \<noteq> expectedResponsibility
         then fail (RemotePublicationResumeSubjectMismatch (rr_requestId request) expectedRunId)
         else andThen (readPublicationEvidence journal expectedRunId) (\<lambda>source.
           case List.find (\<lambda>r. case resumeReceiptOf r of
                  None \<Rightarrow> False | Some (_, q) \<Rightarrow> rr_requestId q = rr_requestId request) source of
             Some recordedReceipt \<Rightarrow>
               (case resumeReceiptOf recordedReceipt of
                  None \<Rightarrow> fail (RemotePublicationResumeRequestConflict (rr_requestId request))
                | Some (recordedCorrelation, recordedRequest) \<Rightarrow>
                    if recordedRequest \<noteq> request then fail (RemotePublicationResumeRequestConflict (rr_requestId request))
                    else let laterReceipt = List.find (\<lambda>r. jr_position r > jr_position recordedReceipt \<and>
                               (case resumeReceiptOf r of
                                  None \<Rightarrow> False | Some (_, q) \<Rightarrow> rr_responsibility q = rr_responsibility request)) source;
                             recordedSource = (case laterReceipt of
                               None \<Rightarrow> source
                             | Some later \<Rightarrow> filter (\<lambda>r. jr_position r < jr_position later) source)
                      in (case validateRemotePublicationState recordedSource recordedCorrelation of
                            Inl e \<Rightarrow> fail e
                          | Inr recordedState \<Rightarrow>
                              if laterReceipt \<noteq> None then succeed (recordedState, False)
                              else (case recordedState of
                                      PublicationSucceeded _ _ \<Rightarrow>
                                        succeed (recordedState,
                                          \<not> finalitySettled recordedSource (pc_qualifiedCandidate recordedCorrelation))
                                    | PublicationRetained authorization _ _ cause _ \<Rightarrow>
                                        succeed (recordedState, isCompatibleCompetingHead cause \<and>
                                          authorization = ResumeRequest (rr_requestId request))
                                    | _ \<Rightarrow>
                                        if receiptStillRuns recordedState request
                                             (remotePublicationEventsFor recordedSource recordedCorrelation)
                                        then activate recordedCorrelation else succeed (recordedState, False))))
           | None \<Rightarrow>
               (case validateRemotePublicationState source correlation of
                  Inl e \<Rightarrow> fail e
                | Inr state \<Rightarrow>
                    (case state of
                       PublicationSucceeded _ _ \<Rightarrow> succeed (state, \<not> finalitySettled source candidate)
                     | PublicationRetained _ inBatch _ cause _ \<Rightarrow>
                         if \<not> remotePublicationRetainedCauseIsResumable cause \<or> length inBatch \<ge> remotePublicationAttemptLimit
                         then succeed (state, False)
                         else andThen (appendRemotePublicationResumeRequest journal correlation request)
                                (\<lambda>_. activate correlation)
                     | _ \<Rightarrow> succeed (state, False)))))"

definition resumeRemotePublication ::
  "'j InRunJournalService \<Rightarrow> 'g RemotePublicationGitService \<Rightarrow> ('j, 'g) RemotePublicationPhaseBoundary \<Rightarrow>
   (JournalRecord list \<Rightarrow> IntegratorRunQualifiedCandidate \<Rightarrow> bool) \<Rightarrow> IntegratorRunQualifiedCandidate \<Rightarrow>
   RemotePublicationTarget \<Rightarrow> RemotePublicationResumeRequest \<Rightarrow> ('j, 'g, RemotePublicationState) publication" where
  "resumeRemotePublication journal git boundary finalitySettled candidate target request =
     andThen (resumeRemotePublicationOutcome journal git boundary finalitySettled candidate target request)
       (\<lambda>outcome. succeed (fst outcome))"

definition resumeRemotePublicationAndDispatch ::
  "'j InRunJournalService \<Rightarrow> 'g RemotePublicationGitService \<Rightarrow> ('j, 'g) RemotePublicationPhaseBoundary \<Rightarrow>
   (JournalRecord list \<Rightarrow> IntegratorRunQualifiedCandidate \<Rightarrow> bool) \<Rightarrow>
   (RemotePublicationResumeDispatch \<Rightarrow> ('j, 'g, unit) publication) \<Rightarrow> IntegratorRunQualifiedCandidate \<Rightarrow>
   RemotePublicationTarget \<Rightarrow> RemotePublicationResumeRequest \<Rightarrow> ('j, 'g, RemotePublicationState) publication" where
  "resumeRemotePublicationAndDispatch journal git boundary finalitySettled dispatch candidate target request =
     andThen (resumeRemotePublicationOutcome journal git boundary finalitySettled candidate target request) (\<lambda>(state, activated).
       andThen (if activated \<and> resumeOutcomeNeedsContinuation state
                then dispatch (remotePublicationResumeDispatchOf state) else succeed ())
         (\<lambda>_. succeed state))"

section \<open>Admission of the pinned destination\<close>

fun admissionObservationOf :: "JournalRecord \<Rightarrow> RemotePublicationAdmissionObservation option" where
  "admissionObservationOf r =
     (case jr_event r of
        RemotePublicationEvent (RemotePublicationAdmissionObserved _ observation _ _) \<Rightarrow> Some observation | _ \<Rightarrow> None)"

definition admitRemotePublicationTarget ::
  "'j InRunJournalService \<Rightarrow> 'g RemotePublicationGitService \<Rightarrow> RunId \<Rightarrow> RemotePublicationTarget \<Rightarrow>
   ('j, 'g, RemotePublicationAdmissionObservation) publication" where
  "admitRemotePublicationTarget journal git runId target =
     andThen (readPublicationEvidence journal runId) (\<lambda>records.
       case List.map_filter (\<lambda>r. case jr_event r of WorkflowRunBegan b \<Rightarrow> Some b | _ \<Rightarrow> None) records of
         [] \<Rightarrow> fail (RemotePublicationAdmissionRejected ''DestinationPinMissing'' target)
       | began # _ \<Rightarrow>
           if rb_remotePublicationTarget began \<noteq> target
           then fail (RemotePublicationAdmissionRejected ''DestinationPinMismatch'' target)
           else let admissionId = remotePublicationAdmissionIdFor runId target;
                    observedKey = remotePublicationAdmissionObservedRecordKey admissionId;
                    append = (\<lambda>key event. liftJournal PublicationJournalError
                      (ij_append journal runId key (RemotePublicationEvent event)))
             in andThen (case Option.bind (List.find (\<lambda>r. jr_key r = observedKey) records) admissionObservationOf of
                  Some observation \<Rightarrow> succeed observation
                | None \<Rightarrow>
                    andThen (append (remotePublicationAdmissionReadIntendedRecordKey admissionId)
                               (RemotePublicationAdmissionReadIntended admissionId runId target)) (\<lambda>_.
                      andThen (callGit (pg_admit git target)) (\<lambda>admitted. case admitted of
                        Inl reason \<Rightarrow> fail (PublicationObservationFailure reason)
                      | Inr current \<Rightarrow>
                          andThen (append observedKey (RemotePublicationAdmissionObserved admissionId current runId target))
                            (\<lambda>_. succeed current))))
                (\<lambda>observation. if observation = AdmissionTargetMissing
                   then fail (RemotePublicationAdmissionRejected ''TargetMissing'' target) else succeed observation))"

end
