(* ===== verification/Publication_Evidence.thy ===== *)
theory Publication_Evidence
  imports Publication_History Publication_Protocol
begin

text \<open>
  Journal evidence of one publication: what validation accepts in terms of the protocol grammar and
  of the batch grants that attempts and retained outcomes cite, and how one appended record extends it.
\<close>

section \<open>Selection on a well-formed history\<close>

lemma wellFormed_filter_sorted:
  "wellFormedHistory runId rs \<Longrightarrow> sort_key jr_position (filter P rs) = filter P rs"
  by (rule sort_key_id) (rule sorted_map_filter_key [OF wellFormedHistory_sorted])

definition publicationEvent :: "RemotePublicationCorrelation \<Rightarrow> JournalRecord \<Rightarrow> RemotePublicationJournalEvent option" where
  "publicationEvent c r =
     (case publicationTransitionOf r of
        None \<Rightarrow> None | Some (e, d) \<Rightarrow> if pc_requestId d = pc_requestId c then Some e else None)"

lemma publicationEvent_iff:
  "publicationEvent c r = Some e \<longleftrightarrow>
     (\<exists>d. jr_event r = RemotePublicationEvent e \<and> publication_correlation e = Some d \<and> pc_requestId d = pc_requestId c)"
  by (cases "jr_event r") (auto simp: publicationEvent_def split: option.splits)

lemma map_filter_of_filter:
  "(\<And>x. \<not> P x \<Longrightarrow> f x = None) \<Longrightarrow> (\<And>x. P x \<Longrightarrow> f x = g x) \<Longrightarrow> List.map_filter g (filter P xs) = List.map_filter f xs"
  by (induction xs) (auto split: option.split)

lemma eventsFor_wellFormed:
  assumes "wellFormedHistory runId rs"
  shows "remotePublicationEventsFor rs c = List.map_filter (publicationEvent c) rs"
  unfolding remotePublicationEventsFor_def publicationRecordsFor_def wellFormed_filter_sorted [OF assms]
proof (rule map_filter_of_filter)
  fix r
  let ?P = "case publicationTransitionOf r of None \<Rightarrow> False | Some (_, d) \<Rightarrow> pc_requestId d = pc_requestId c"
  show "publicationEvent c r = None" if "\<not> ?P" using that by (auto simp: publicationEvent_def split: option.splits)
  show "publicationEvent c r = publicationEventOf (jr_event r)" if "?P"
    using that by (auto simp: publicationEvent_def split: option.splits)
qed

lemma grantsFor_wellFormed:
  "wellFormedHistory runId rs \<Longrightarrow>
     remotePublicationBatchGrantsFor rs c = filter (\<lambda>r. remotePublicationBatchGrantIsForCorrelation r c) rs"
  by (simp add: remotePublicationBatchGrantsFor_def wellFormed_filter_sorted)

lemma attemptRecordsFor_wellFormed:
  "wellFormedHistory runId rs \<Longrightarrow>
     publicationAttemptRecordsFor rs c = filter (\<lambda>r. case attemptIntentOf r of
        None \<Rightarrow> False | Some (_, d) \<Rightarrow> pc_requestId d = pc_requestId c) rs"
  by (simp add: publicationAttemptRecordsFor_def wellFormed_filter_sorted)

section \<open>Citations\<close>

definition citationsOk :: "JournalRecord list \<Rightarrow> RemotePublicationCorrelation \<Rightarrow> bool" where
  "citationsOk rs c \<longleftrightarrow> (\<forall>r\<in>set rs.
     retainedGrantIssue rs (remotePublicationBatchGrantsFor rs c) c r = None \<and>
     attemptGrantIssue rs (remotePublicationBatchGrantsFor rs c) c r = None)"

definition grantsSound :: "JournalRecord list \<Rightarrow> RemotePublicationCorrelation \<Rightarrow> bool" where
  "grantsSound rs c \<longleftrightarrow> (\<forall>grant\<in>set (remotePublicationBatchGrantsFor rs c). batchGrantReferencesExhaustion rs grant)"

text \<open>The position of the newest batch grant of the responsibility.\<close>

definition currentGrant :: "JournalRecord list \<Rightarrow> RemotePublicationCorrelation \<Rightarrow> JournalPosition option" where
  "currentGrant rs c = map_option jr_position (latest (remotePublicationBatchGrantsFor rs c))"

text \<open>The counting loop never refuses when no grant is cited more than three times.\<close>

lemma attemptsGrantIssue_None:
  assumes "\<forall>r\<in>set rs. attemptGrantIssue source grants c r = None"
    and "\<forall>p. count_list counted p + count_list (List.map_filter (\<lambda>r. map_option jr_position (grantBefore grants (jr_position r))) rs) p
           \<le> remotePublicationAttemptLimit"
  shows "attemptsGrantIssue source grants c counted rs = None"
  using assms
proof (induction rs arbitrary: counted)
  case (Cons r rs)
  show ?case
  proof (cases "grantBefore grants (jr_position r)")
    case None
    with Cons.IH [of counted] Cons.prems show ?thesis by simp
  next
    case (Some grant)
    let ?cited = "List.map_filter (\<lambda>r. map_option jr_position (grantBefore grants (jr_position r))) rs"
    have count: "count_list counted p + (if jr_position grant = p then 1 else 0) + count_list ?cited p \<le> remotePublicationAttemptLimit" for p
      using Cons.prems(2) Some by (auto split: if_splits dest: spec [of _ p])
    have "count_list (jr_position grant # counted) p + count_list ?cited p \<le> remotePublicationAttemptLimit" for p
      using count [of p] by (cases "jr_position grant = p") simp_all
    moreover have "count_list counted (jr_position grant) + 1 \<le> remotePublicationAttemptLimit"
      using count [of "jr_position grant"] by simp
    ultimately show ?thesis using Some Cons.IH Cons.prems(1) by (simp add: not_less)
  qed
qed simp

lemma map_filter_Nil: "(\<And>x. x \<in> set xs \<Longrightarrow> f x = None) \<Longrightarrow> List.map_filter f xs = []"
  by (induction xs) auto

definition citedBatches :: "JournalRecord list \<Rightarrow> RemotePublicationCorrelation \<Rightarrow> JournalRecord list \<Rightarrow> JournalPosition list" where
  "citedBatches rs c attempts =
     List.map_filter (\<lambda>r. map_option jr_position (grantBefore (remotePublicationBatchGrantsFor rs c) (jr_position r))) attempts"

lemma count_map_filter_id: "count_list (List.map_filter id xs) x = count_list xs (Some x)"
  by (induction xs) (auto split: option.split)

lemma citedGrantIssue_None:
  "citedGrantIssue rs grants mismatch g r = None \<longleftrightarrow>
     g = map_option jr_position (grantBefore grants (jr_position r)) \<and>
     (\<forall>grant. grantBefore grants (jr_position r) = Some grant \<longrightarrow> batchGrantReferencesExhaustion rs grant)"
  by (auto simp: citedGrantIssue_def Let_def split: option.splits if_splits)

text \<open>The attempts of a validated history cite their batches, so the loop counts what the reducer counts.\<close>

lemma citedBatches_events:
  assumes "citationsOk rs c" "set qs \<subseteq> set rs"
  shows "citedBatches rs c (filter (\<lambda>r. case attemptIntentOf r of
           None \<Rightarrow> False | Some (_, d) \<Rightarrow> pc_requestId d = pc_requestId c) qs) =
         List.map_filter id (attemptBatches (List.map_filter (publicationEvent c) qs))"
  using assms(2)
proof (induction qs)
  case (Cons r qs)
  show ?case
  proof (cases "\<exists>n g d refspec. jr_event r = RemotePublicationEvent (RemotePublicationAttemptIntended n g d refspec) \<and>
      pc_requestId d = pc_requestId c")
    case True
    then obtain n g d refspec where r: "jr_event r = RemotePublicationEvent (RemotePublicationAttemptIntended n g d refspec)"
      "pc_requestId d = pc_requestId c" by blast
    moreover from Cons.prems assms(1) have "attemptGrantIssue rs (remotePublicationBatchGrantsFor rs c) c r = None"
      by (auto simp: citationsOk_def)
    ultimately have "g = map_option jr_position (grantBefore (remotePublicationBatchGrantsFor rs c) (jr_position r))"
      by (auto simp: attemptGrantIssue_def citedGrantIssue_None)
    moreover have "publicationEvent c r = Some (RemotePublicationAttemptIntended n g d refspec)"
      using r by (simp add: publicationEvent_iff)
    ultimately show ?thesis using Cons r by (auto simp: citedBatches_def split: option.split)
  next
    case False
    then have "\<not> (case attemptIntentOf r of None \<Rightarrow> False | Some (_, d) \<Rightarrow> pc_requestId d = pc_requestId c)"
      by (auto split: option.splits WorkflowJournalEvent.splits RemotePublicationJournalEvent.splits)
    moreover have "publicationEvent c r = None \<or> (\<exists>e. publicationEvent c r = Some e \<and> publicationBatchOf e = None)"
    proof (cases "publicationEvent c r")
      case (Some e)
      with False show ?thesis by (cases e) (auto simp: publicationEvent_iff)
    qed simp
    ultimately show ?thesis using Cons by (auto simp: citedBatches_def split: option.split)
  qed
qed (simp add: citedBatches_def)

lemma publicationEvidenceIssue_None:
  assumes wf: "wellFormedHistory runId rs" and cites: "citationsOk rs c"
    and corr: "\<forall>e\<in>set (remotePublicationEventsFor rs c). publication_correlation e = Some c"
    and counts: "\<forall>g. count_list (attemptBatches (remotePublicationEventsFor rs c)) g \<le> remotePublicationAttemptLimit"
  shows "publicationEvidenceIssue rs c = None"
proof -
  let ?grants = "remotePublicationBatchGrantsFor rs c"
  have "List.map_filter (retainedGrantIssue rs ?grants c) rs = []"
    using cites unfolding citationsOk_def by (intro map_filter_Nil) blast
  moreover have "attemptsGrantIssue rs ?grants c [] (publicationAttemptRecordsFor rs c) = None"
  proof (rule attemptsGrantIssue_None)
    show "\<forall>r\<in>set (publicationAttemptRecordsFor rs c). attemptGrantIssue rs ?grants c r = None"
      using cites by (auto simp: attemptRecordsFor_wellFormed [OF wf] citationsOk_def)
    show "\<forall>p. count_list [] p + count_list (List.map_filter
        (\<lambda>r. map_option jr_position (grantBefore ?grants (jr_position r))) (publicationAttemptRecordsFor rs c)) p
        \<le> remotePublicationAttemptLimit"
      using counts citedBatches_events [OF cites subset_refl]
      by (simp add: attemptRecordsFor_wellFormed [OF wf] citedBatches_def count_map_filter_id eventsFor_wellFormed [OF wf])
  qed
  moreover have "\<not> list_ex (\<lambda>e. case publication_correlation e of
      None \<Rightarrow> False | Some d \<Rightarrow> \<not> remotePublicationCorrelationEquals d c) (remotePublicationEventsFor rs c)"
    using corr by (auto simp: list_ex_iff)
  ultimately show ?thesis by (simp add: publicationEvidenceIssue_def)
qed

section \<open>Evidence of a protocol history\<close>

text \<open>
  \<open>pubEvidence rs c es ph\<close>: the publication's events in \<open>rs\<close> are \<open>es\<close>, a protocol history that ends in phase
  \<open>ph\<close> (\<open>None\<close> before the outer intent), and every citation of a batch grant is right.
\<close>

definition pubEvidence ::
  "JournalRecord list \<Rightarrow> RemotePublicationCorrelation \<Rightarrow> RemotePublicationJournalEvent list \<Rightarrow> ReductionPhase option \<Rightarrow> bool" where
  "pubEvidence rs c es ph \<longleftrightarrow>
     remotePublicationEventsFor rs c = es \<and> citationsOk rs c \<and> grantsSound rs c \<and>
     (case ph of None \<Rightarrow> es = [] | Some p \<Rightarrow> publication_history c es p)"

definition pubState ::
  "RemotePublicationCorrelation \<Rightarrow> RemotePublicationJournalEvent list \<Rightarrow> ReductionPhase option \<Rightarrow> RemotePublicationState" where
  "pubState c es ph = (case ph of None \<Rightarrow> PublicationAbsent | Some p \<Rightarrow> publicationStateOfPhase c (publicationAttempts es) p)"

lemma publicationStateOfPhase_not_contradiction: "publicationStateOfPhase c n p \<noteq> PublicationContradiction d"
  by (cases p) simp_all

lemma pubState_cases: "pubState c es ph \<noteq> PublicationContradiction d"
  by (simp add: pubState_def publicationStateOfPhase_not_contradiction split: option.split)

lemma pubEvidence_correlations:
  assumes "pubEvidence rs c es ph"
  shows "\<forall>e\<in>set es. publication_correlation e = Some c"
proof (cases ph)
  case (Some p)
  with assms have "publication_history c es p" by (simp add: pubEvidence_def)
  from publication_history_head [OF this] show ?thesis by auto
qed (use assms in \<open>simp add: pubEvidence_def\<close>)

lemma pubEvidence_counts:
  assumes "pubEvidence rs c es ph"
  shows "count_list (attemptBatches es) g \<le> remotePublicationAttemptLimit"
proof (cases ph)
  case (Some p)
  with assms have "publication_history c es p" by (simp add: pubEvidence_def)
  from publication_history_batches [OF this] show ?thesis by blast
qed (use assms in \<open>simp add: pubEvidence_def\<close>)

lemma derive_publication_Nil: "deriveRemotePublicationState [] = PublicationAbsent"
  by (simp add: deriveRemotePublicationState_def)

text \<open>Validation never refuses such evidence, and answers with the state of its phase.\<close>

lemma validate_pubEvidence:
  assumes wf: "wellFormedHistory runId rs" and ev: "pubEvidence rs c es ph"
  shows "validateRemotePublicationState rs c = Inr (pubState c es ph)"
proof -
  have es: "remotePublicationEventsFor rs c = es" using ev by (simp add: pubEvidence_def)
  have "publicationEvidenceIssue rs c = None"
    using pubEvidence_correlations [OF ev] pubEvidence_counts [OF ev] ev
    by (intro publicationEvidenceIssue_None [OF wf]) (simp_all add: pubEvidence_def)
  moreover have "deriveRemotePublicationState es = pubState c es ph"
    using ev by (cases ph) (auto simp: pubEvidence_def pubState_def derive_publication_history derive_publication_Nil)
  ultimately show ?thesis
    by (cases "pubState c es ph") (simp_all add: validateRemotePublicationState_def es pubState_cases)
qed

section \<open>Appending one record\<close>

lemma referencesExhaustion_snoc:
  "batchGrantReferencesExhaustion rs grant \<Longrightarrow> batchGrantReferencesExhaustion (rs @ [r]) grant"
  by (auto simp: batchGrantReferencesExhaustion_def journalRecordByPosition_def find_append split: option.splits)

lemma grantsFor_snoc:
  assumes "wellFormedHistory runId (rs @ [r])" "batchGrantOf r = None"
  shows "remotePublicationBatchGrantsFor (rs @ [r]) c = remotePublicationBatchGrantsFor rs c"
proof -
  from assms(1) have wf: "wellFormedHistory runId rs" by (simp add: wellFormedHistory_snoc)
  show ?thesis
    using assms(2) by (simp add: grantsFor_wellFormed [OF assms(1)] grantsFor_wellFormed [OF wf]
      remotePublicationBatchGrantIsForCorrelation_def del: batchGrantOf.simps)
qed

lemma citedGrantIssue_snoc:
  "citedGrantIssue rs grants mismatch g q = None \<Longrightarrow> citedGrantIssue (rs @ [r]) grants mismatch g q = None"
  by (auto simp: citedGrantIssue_None intro: referencesExhaustion_snoc)

lemma grantBefore_next:
  assumes wf: "wellFormedHistory runId (rs @ [r])"
  shows "grantBefore (remotePublicationBatchGrantsFor rs c) (jr_position r) = latest (remotePublicationBatchGrantsFor rs c)"
proof -
  from wf have wf': "wellFormedHistory runId rs" and pos: "jr_position r = Suc (length rs)" by (simp_all add: wellFormedHistory_snoc)
  have "\<forall>g\<in>set (remotePublicationBatchGrantsFor rs c). jr_position g < jr_position r"
    using wellFormedHistory_position_le [OF wf'] by (auto simp: grantsFor_wellFormed [OF wf'] pos less_Suc_eq_le)
  then have "filter (\<lambda>g. jr_position g < jr_position r) (remotePublicationBatchGrantsFor rs c) = remotePublicationBatchGrantsFor rs c"
    by (simp add: filter_id_conv)
  then show ?thesis by (simp add: grantBefore_def latest_filter [symmetric])
qed

fun citesGrant :: "RemotePublicationJournalEvent \<Rightarrow> bool" where
  "citesGrant (RemotePublicationAttemptIntended _ _ _ _) = True"
| "citesGrant (RemotePublicationRetained _ _ _ _) = True"
| "citesGrant _ = False"

lemma pubEvidence_snoc:
  assumes wf: "wellFormedHistory runId (rs @ [r])" and ev: "pubEvidence rs c es ph"
    and r: "jr_event r = RemotePublicationEvent e" "publication_correlation e = Some c"
    and cite: "citesGrant e \<Longrightarrow> publicationGrantOf e = currentGrant rs c"
    and h: "publication_history c (es @ [e]) ph'"
  shows "pubEvidence (rs @ [r]) c (es @ [e]) (Some ph') \<and> currentGrant (rs @ [r]) c = currentGrant rs c"
proof -
  from wf have wf': "wellFormedHistory runId rs" by (simp add: wellFormedHistory_snoc)
  have nb: "batchGrantOf r = None" using r by (cases e) auto
  note grants = grantsFor_snoc [OF wf nb, of c]
  have events: "remotePublicationEventsFor (rs @ [r]) c = es @ [e]"
  proof -
    have "publicationEvent c r = Some e" using r by (simp add: publicationEvent_iff)
    then show ?thesis
      using ev by (simp add: eventsFor_wellFormed [OF wf] eventsFor_wellFormed [OF wf'] pubEvidence_def)
  qed
  have sound: "grantsSound (rs @ [r]) c"
    using ev by (auto simp: pubEvidence_def grantsSound_def grants intro: referencesExhaustion_snoc)
  have own: "citedGrantIssue (rs @ [r]) (remotePublicationBatchGrantsFor rs c) m (publicationGrantOf e) r = None"
    if "citesGrant e" for m
    using cite [OF that] sound grantBefore_next [OF wf, of c]
    by (auto simp: citedGrantIssue_None currentGrant_def grantsSound_def grants dest: latest_SomeD)
  have "citationsOk (rs @ [r]) c"
    unfolding citationsOk_def grants
  proof
    fix q assume q: "q \<in> set (rs @ [r])"
    show "retainedGrantIssue (rs @ [r]) (remotePublicationBatchGrantsFor rs c) c q = None \<and>
          attemptGrantIssue (rs @ [r]) (remotePublicationBatchGrantsFor rs c) c q = None"
    proof (cases "q = r")
      case True
      then show ?thesis using own r by (cases e) (auto simp: retainedGrantIssue_def attemptGrantIssue_def)
    next
      case False
      with q ev have "retainedGrantIssue rs (remotePublicationBatchGrantsFor rs c) c q = None"
        "attemptGrantIssue rs (remotePublicationBatchGrantsFor rs c) c q = None"
        by (auto simp: pubEvidence_def citationsOk_def)
      then show ?thesis
        by (auto simp: retainedGrantIssue_def attemptGrantIssue_def simp del: retainedOf.simps attemptIntentOf.simps
            intro: citedGrantIssue_snoc split: option.splits if_splits)
    qed
  qed
  with events sound h show ?thesis by (simp add: pubEvidence_def currentGrant_def grants)
qed

end
