(* ===== verification/Publication_Correctness.thy ===== *)
theory Publication_Correctness
  imports Publication_Evidence
begin

text \<open>
  One run of the direct-publication engine keeps the protocol grammar, returns the state that
  re-reading the journal gives, and pushes at most once, after the numbered intent of that push
  is durable. Proved against the journal laws and the laws of an honest Git service.
\<close>

section \<open>The Git service's laws\<close>

text \<open>What the engine relies on: a head reported as the candidate is the candidate of the request.\<close>

locale publication_git =
  fixes git :: "'g RemotePublicationGitService"
  assumes observe_current: "pg_observe git request g = (Inr (RemoteCandidateCurrent h), g') \<Longrightarrow> h = pr_candidateCommit request"
    and push_applied: "pg_push git request n g = (Inr (PushResultApplied h), g') \<Longrightarrow> h = pr_candidateCommit request"
    and push_up_to_date: "pg_push git request n g = (Inr (PushResultUpToDate h), g') \<Longrightarrow> h = pr_candidateCommit request"

text \<open>A phase boundary runs its phase once, refuses it untouched, or drops its answer after it ran.\<close>

definition phaseRuns :: "(('w, 'e, 'a) effect \<Rightarrow> ('w, 'e, 'a) effect) \<Rightarrow> bool" where
  "phaseRuns run \<longleftrightarrow> (\<forall>m w. run m w = m w \<or> (\<exists>e. run m w = (Inl e, w) \<or> run m w = (Inl e, snd (m w))))"

lemma triple_phase:
  assumes run: "phaseRuns run" and m: "triple P m Q (\<lambda>_. E)"
    and refused: "\<And>w. P w \<Longrightarrow> E w" and dropped: "\<And>x w. Q x w \<Longrightarrow> E w"
  shows "triple P (run m) Q (\<lambda>_. E)"
  unfolding triple_def
proof (intro allI impI)
  fix w assume w: "P w"
  have all: "E (snd (m w))"
    using triple_Inr [OF m w] triple_Inl [OF m w] dropped by (cases "m w"; cases "fst (m w)") auto
  consider "run m w = m w" | e where "run m w = (Inl e, w)" | e where "run m w = (Inl e, snd (m w))"
    using run unfolding phaseRuns_def by blast
  then show "case run m w of (Inr x, w') \<Rightarrow> Q x w' | (Inl e, w') \<Rightarrow> E w'"
    by cases (use m w refused all in \<open>auto simp: triple_def\<close>)
qed

locale phase_boundary =
  fixes boundary :: "('j, 'g) RemotePublicationPhaseBoundary"
  assumes observation_runs: "phaseRuns (pb_runObservation boundary)"
    and sender_runs: "phaseRuns (pb_runSender boundary)"

locale publication_engine = in_run_journal journal valid + publication_git git + phase_boundary boundary
  for journal :: "'j InRunJournalService" and valid :: "'j \<Rightarrow> bool" and git :: "'g RemotePublicationGitService"
    and boundary :: "('j, 'g) RemotePublicationPhaseBoundary"

lemma case_live_publication:
  "\<forall>d p. st \<noteq> PublicationSucceeded d p \<Longrightarrow>
   (case st of PublicationSucceeded d p \<Rightarrow> A d p | reconstructed \<Rightarrow> B reconstructed) = B st"
  by (cases st) simp_all

section \<open>Assertions\<close>

definition pubAt ::
  "'j InRunJournalService \<Rightarrow> ('j \<Rightarrow> bool) \<Rightarrow> RemotePublicationCorrelation \<Rightarrow> JournalPosition option \<Rightarrow>
   RemotePublicationJournalEvent list \<Rightarrow> ReductionPhase option \<Rightarrow> ('j \<times> SentMutation) list \<Rightarrow> ('j, 'g) World \<Rightarrow> bool" where
  "pubAt journal valid c G es ph S w \<longleftrightarrow>
     valid (w_journal w) \<and>
     (\<exists>rs. ij_read journal (remotePublicationRunIdOf c) (w_journal w) = (Inr rs, w_journal w) \<and>
        pubEvidence rs c es ph \<and> currentGrant rs c = G) \<and>
     w_sent w = S"

definition pushJustified :: "'j InRunJournalService \<Rightarrow> RemotePublicationCorrelation \<Rightarrow> nat \<Rightarrow> 'j \<times> SentMutation \<Rightarrow> bool" where
  "pushJustified journal c n entry \<longleftrightarrow>
     snd entry = SentPush c (remotePublicationGitRequestFor c) n \<and>
     (\<exists>rs g. ij_read journal (remotePublicationRunIdOf c) (fst entry) = (Inr rs, fst entry) \<and>
        latest (remotePublicationEventsFor rs c) = Some (attemptEvent c n g))"

definition pubAdvance ::
  "'j InRunJournalService \<Rightarrow> RemotePublicationCorrelation \<Rightarrow> RemotePublicationJournalEvent list \<Rightarrow> ('j \<times> SentMutation) list \<Rightarrow>
   RemotePublicationJournalEvent list \<Rightarrow> ('j \<times> SentMutation) list \<Rightarrow> bool" where
  "pubAdvance journal c es S es' S' \<longleftrightarrow>
     prefix es es' \<and>
     (S' = S \<or> (\<exists>entry. S' = S @ [entry] \<and> pushJustified journal c (Suc (length (publicationAttempts es))) entry))"

definition pubFailed ::
  "'j InRunJournalService \<Rightarrow> ('j \<Rightarrow> bool) \<Rightarrow> RemotePublicationCorrelation \<Rightarrow> JournalPosition option \<Rightarrow>
   RemotePublicationJournalEvent list \<Rightarrow> ('j \<times> SentMutation) list \<Rightarrow> ('j, 'g) World \<Rightarrow> bool" where
  "pubFailed journal valid c G es S w \<longleftrightarrow>
     (\<exists>es' ph' S'. pubAt journal valid c G es' ph' S' w \<and> pubAdvance journal c es S es' S')"

definition pubDone ::
  "'j InRunJournalService \<Rightarrow> ('j \<Rightarrow> bool) \<Rightarrow> RemotePublicationCorrelation \<Rightarrow> JournalPosition option \<Rightarrow>
   RemotePublicationJournalEvent list \<Rightarrow> ('j \<times> SentMutation) list \<Rightarrow> RemotePublicationState \<Rightarrow> ('j, 'g) World \<Rightarrow> bool" where
  "pubDone journal valid c G es S st w \<longleftrightarrow>
     (\<exists>es' ph' S'. pubAt journal valid c G es' ph' S' w \<and> st = pubState c es' ph' \<and> pubAdvance journal c es S es' S')"

lemma pubAdvance_refl [simp]: "pubAdvance journal c es S es S"
  by (simp add: pubAdvance_def)

lemma pubAdvance_events: "prefix es es' \<Longrightarrow> pubAdvance journal c es S es' S"
  by (simp add: pubAdvance_def)

text \<open>Events without an attempt in between do not change which push is next.\<close>

lemma pubAdvance_trans:
  assumes "prefix es es1" "publicationAttempts es1 = publicationAttempts es" "pubAdvance journal c es1 S es' S'"
  shows "pubAdvance journal c es S es' S'"
  using assms by (auto simp: pubAdvance_def)

section \<open>Pending states that match the journal\<close>

definition pendingOk ::
  "RemotePublicationCorrelation \<Rightarrow> JournalPosition option \<Rightarrow> RemotePublicationJournalEvent list \<Rightarrow> PendingPublication \<Rightarrow> bool" where
  "pendingOk c G es pending \<longleftrightarrow>
     (let a = pp_authorization pending; b = pp_attemptOrdinalsInBatch pending; n = Suc (length (publicationAttempts es)) in
      pp_correlation pending = c \<and> pp_attemptOrdinals pending = publicationAttempts es \<and> pp_batchGrantAt pending = G \<and>
      length b \<le> remotePublicationAttemptLimit \<and>
      (length b < remotePublicationAttemptLimit \<longrightarrow>
         publication_history c (es @ [attemptEvent c n G]) (PhasePending (b @ [n]) a G)) \<and>
      (\<forall>cause. (cause = AttemptsExhausted \<longrightarrow> length b = remotePublicationAttemptLimit) \<longrightarrow>
         publication_history c (es @ [RemotePublicationRetained G cause c a]) (PhaseRetained a b G cause)) \<and>
      (\<forall>cause. RemotePublicationRetained G cause c a \<notin> set es) \<and>
      (\<forall>e\<in>set es. \<not> isPublicationSucceeded e))"

definition existingOk ::
  "RemotePublicationCorrelation \<Rightarrow> RemotePublicationJournalEvent list \<Rightarrow> PendingPublication \<Rightarrow> nat option \<Rightarrow> bool" where
  "existingOk c es pending existing \<longleftrightarrow>
     (case existing of
        None \<Rightarrow> length (pp_attemptOrdinalsInBatch pending) < remotePublicationAttemptLimit
      | Some n \<Rightarrow> \<forall>p. isReconciledProof p \<longrightarrow> proof_attemptOrdinal p = n \<longrightarrow>
          (isCurrentHeadProof p \<longrightarrow> proof_remoteHead p = qc_candidateCommit (pc_qualifiedCandidate c)) \<longrightarrow>
          publication_history c (es @ [RemotePublicationSucceeded c p]) (PhaseSucceeded p))"

lemma history_no_success:
  "publication_history c es ph \<Longrightarrow> \<not> isSucceededPhase ph \<Longrightarrow> e \<in> set es \<Longrightarrow> \<not> isPublicationSucceeded e"
  using publication_history_successes [of c es ph] by (auto simp: filter_empty_conv)

lemma pendingOk_pending:
  assumes h: "publication_history c es (PhasePending b a G)"
    and p: "pp_correlation p = c" "pp_attemptOrdinals p = publicationAttempts es" "pp_batchGrantAt p = G"
      "pp_authorization p = a" "pp_attemptOrdinalsInBatch p = b"
  shows "pendingOk c G es p"
  unfolding pendingOk_def Let_def p
  using publication_history_batches [OF h] publication_history_retained_new [OF h] history_no_success [OF h]
  by (auto intro: publication_history.attempt [OF h] publication_history.retained [OF h])

lemma pendingOk_resumed:
  assumes h: "publication_history c es (PhaseResumeReady cs b G request)"
    and p: "pp_correlation p = c" "pp_attemptOrdinals p = publicationAttempts es" "pp_batchGrantAt p = G"
      "pp_authorization p = ResumeRequest (rr_requestId request)" "pp_attemptOrdinalsInBatch p = b"
  shows "pendingOk c G es p"
  unfolding pendingOk_def Let_def p
  using publication_history_batches [OF h] publication_history_retained_new [OF h] history_no_success [OF h]
  by (auto intro: publication_history.attempt_resumed [OF h] publication_history.retained_resumed [OF h])

lemma pendingOk_granted:
  assumes h: "publication_history c es (PhaseRetained a0 b0 g0 cs)" and new: "grantIsNew es g"
    and p: "pp_correlation p = c" "pp_attemptOrdinals p = publicationAttempts es" "pp_batchGrantAt p = Some g"
      "pp_authorization p = InitialAttempt" "pp_attemptOrdinalsInBatch p = []"
  shows "pendingOk c (Some g) es p"
proof -
  have "RemotePublicationRetained (Some g) cause c a \<notin> set es" for cause a
    using new by (force simp: grantIsNew_def)
  with history_no_success [OF h] show ?thesis
    unfolding pendingOk_def Let_def p
    by (auto simp: remotePublicationAttemptLimit_def
        intro: publication_history.attempt_granted [OF h _ new] publication_history.retained_granted [OF h new])
qed

lemma attemptBatches_Nil: "publicationAttempts es = [] \<Longrightarrow> attemptBatches es = []"
proof (induction es)
  case (Cons e es)
  then show ?case by (cases e) auto
qed simp

lemma history_first_batch:
  "publication_history c es ph \<Longrightarrow> \<not> isSucceededPhase ph \<Longrightarrow> publicationAttempts es = [] \<Longrightarrow> phaseBatch ph = []"
  using publication_history_batches [of c es ph] attemptBatches_Nil [of es] by simp

lemma reconciledProof_sound:
  "isReconciledProof q \<Longrightarrow> proof_attemptOrdinal q \<in> set (publicationAttempts es) \<Longrightarrow>
   (isCurrentHeadProof q \<longrightarrow> proof_remoteHead q = qc_candidateCommit (pc_qualifiedCandidate c)) \<Longrightarrow> proofSound c es q"
  by (cases q) (auto simp: proofSound_def)

lemma existingOk_pending:
  assumes h: "publication_history c es (PhasePending b a g)" and p: "pp_attemptOrdinalsInBatch p = b"
  shows "existingOk c es p (latest (publicationAttempts es))"
proof (cases "latest (publicationAttempts es)")
  case None
  with history_first_batch [OF h] p show ?thesis by (simp add: existingOk_def remotePublicationAttemptLimit_def)
next
  case (Some n)
  then have "n \<in> set (publicationAttempts es)" by (rule latest_SomeD)
  with Some show ?thesis
    by (auto simp: existingOk_def intro!: publication_history.succeeded [OF h] reconciledProof_sound)
qed

lemma existingOk_resumed:
  assumes h: "publication_history c es (PhaseResumeReady cs b g request)" and p: "pp_attemptOrdinalsInBatch p = b"
  shows "existingOk c es p (latest (publicationAttempts es))"
proof (cases "latest (publicationAttempts es)")
  case None
  with history_first_batch [OF h] p show ?thesis by (simp add: existingOk_def remotePublicationAttemptLimit_def)
next
  case (Some n)
  then have "n \<in> set (publicationAttempts es)" by (rule latest_SomeD)
  with Some show ?thesis
    by (auto simp: existingOk_def intro!: publication_history.succeeded_resumed [OF h] reconciledProof_sound)
qed

section \<open>Appends\<close>

lemma triple_callGit_pub:
  "triple (pubAt journal valid c G es ph S) (callGit m)
     (\<lambda>x w. (\<exists>g g'. m g = (x, g')) \<and> pubAt journal valid c G es ph S w) E"
  by (rule tripleI) (auto simp: pubAt_def)

context in_run_journal
begin

lemma triple_appendPublication:
  assumes h: "publication_history c (es @ [e]) ph'" and new: "e \<notin> set es" and corr: "publication_correlation e = Some c"
    and cite: "citesGrant e \<Longrightarrow> publicationGrantOf e = G"
  shows "triple (pubAt journal valid c G es ph S) (appendRemotePublicationEvent journal c key e)
     (\<lambda>_. pubAt journal valid c G (es @ [e]) (Some ph') S) (\<lambda>_. pubAt journal valid c G es ph S)"
proof (rule tripleI)
  fix w x w'
  assume at: "pubAt journal valid c G es ph S w" and run: "appendRemotePublicationEvent journal c key e w = (Inr x, w')"
  from run obtain r j where app: "ij_append journal (remotePublicationRunIdOf c) key (RemotePublicationEvent e) (w_journal w) = (Inr r, j)"
    and w': "w' = w\<lparr>w_journal := j\<rparr>"
    by (auto simp: appendRemotePublicationEvent_def liftJournal_Inr elim!: andThen_InrE)
  from at obtain rs where rd: "ij_read journal (remotePublicationRunIdOf c) (w_journal w) = (Inr rs, w_journal w)"
    and ev: "pubEvidence rs c es ph" "currentGrant rs c = G" and v: "valid (w_journal w)" and S: "w_sent w = S"
    by (auto simp: pubAt_def)
  from v rd app show "pubAt journal valid c G (es @ [e]) (Some ph') S w'"
  proof (cases rule: append_from_history)
    case existing
    then have "publicationEvent c r = Some e" using corr by (simp add: publicationEvent_iff)
    with existing(2) have "e \<in> set (remotePublicationEventsFor rs c)"
      using eventsFor_wellFormed [OF read_wellFormed [OF v rd]] by (auto simp: set_map_filter_conv)
    with new ev show ?thesis by (simp add: pubEvidence_def)
  next
    case extended
    have v': "valid j" by (rule append_valid [OF v app])
    have "wellFormedHistory (remotePublicationRunIdOf c) (rs @ [nextRecord (remotePublicationRunIdOf c) key (RemotePublicationEvent e) rs])"
      by (rule read_wellFormed [OF v' extended(3)])
    from pubEvidence_snoc [OF this ev(1) _ corr _ h] cite ev(2)
    have "pubEvidence (rs @ [nextRecord (remotePublicationRunIdOf c) key (RemotePublicationEvent e) rs]) c (es @ [e]) (Some ph') \<and>
        currentGrant (rs @ [nextRecord (remotePublicationRunIdOf c) key (RemotePublicationEvent e) rs]) c = G" by simp
    with v' extended(3) S show ?thesis by (auto simp: pubAt_def w')
  qed
next
  fix w err w'
  assume at: "pubAt journal valid c G es ph S w" and run: "appendRemotePublicationEvent journal c key e w = (Inl err, w')"
  then have "w' = w"
    by (auto simp: appendRemotePublicationEvent_def andThen_def liftJournal_def dest!: append_refused split: prod.splits sum.splits)
  with at show "pubAt journal valid c G es ph S w'" by simp
qed

lemma triple_readEvidence:
  "triple (pubAt journal valid c G es ph S) (readPublicationEvidence journal (remotePublicationRunIdOf c))
     (\<lambda>rs w. (wellFormedHistory (remotePublicationRunIdOf c) rs \<and> pubEvidence rs c es ph \<and> currentGrant rs c = G) \<and>
        pubAt journal valid c G es ph S w) (\<lambda>_. pubAt journal valid c G es ph S)"
  by (rule tripleI) (auto simp: readPublicationEvidence_def liftJournal_Inr liftJournal_Inl pubAt_def dest: read_wellFormed)

end

section \<open>Outcomes\<close>

text \<open>Outcomes that leave the log of sent mutations at \<open>S\<close>.\<close>

definition pubEnds ::
  "'j InRunJournalService \<Rightarrow> ('j \<Rightarrow> bool) \<Rightarrow> RemotePublicationCorrelation \<Rightarrow> JournalPosition option \<Rightarrow>
   RemotePublicationJournalEvent list \<Rightarrow> ('j \<times> SentMutation) list \<Rightarrow> RemotePublicationState \<Rightarrow> ('j, 'g) World \<Rightarrow> bool" where
  "pubEnds journal valid c G es S st w \<longleftrightarrow>
     (\<exists>es' ph'. pubAt journal valid c G es' ph' S w \<and> st = pubState c es' ph' \<and> prefix es es')"

definition pubStops ::
  "'j InRunJournalService \<Rightarrow> ('j \<Rightarrow> bool) \<Rightarrow> RemotePublicationCorrelation \<Rightarrow> JournalPosition option \<Rightarrow>
   RemotePublicationJournalEvent list \<Rightarrow> ('j \<times> SentMutation) list \<Rightarrow> ('j, 'g) World \<Rightarrow> bool" where
  "pubStops journal valid c G es S w \<longleftrightarrow> (\<exists>es' ph'. pubAt journal valid c G es' ph' S w \<and> prefix es es')"

lemma pubStopsI: "pubAt journal valid c G es ph S w \<Longrightarrow> pubStops journal valid c G es S w"
  by (auto simp: pubStops_def)

lemma pubEnds_prefix: "pubEnds journal valid c G es1 S st w \<Longrightarrow> prefix es es1 \<Longrightarrow> pubEnds journal valid c G es S st w"
  unfolding pubEnds_def by (blast intro: prefix_order.order_trans)

lemma pubStops_prefix: "pubStops journal valid c G es1 S w \<Longrightarrow> prefix es es1 \<Longrightarrow> pubStops journal valid c G es S w"
  unfolding pubStops_def by (blast intro: prefix_order.order_trans)

lemma pubEnds_snoc: "pubEnds journal valid c G (es @ xs) S st w \<Longrightarrow> pubEnds journal valid c G es S st w"
  by (erule pubEnds_prefix) simp

lemma pubStops_snoc: "pubStops journal valid c G (es @ xs) S w \<Longrightarrow> pubStops journal valid c G es S w"
  by (erule pubStops_prefix) simp

lemma pubEnds_done: "pubEnds journal valid c G es S st w \<Longrightarrow> pubDone journal valid c G es S st w"
  unfolding pubEnds_def pubDone_def using pubAdvance_events by blast

lemma pubStops_failed: "pubStops journal valid c G es S w \<Longrightarrow> pubFailed journal valid c G es S w"
  unfolding pubStops_def pubFailed_def using pubAdvance_events by blast

lemma pubEnds_pushed:
  "pubEnds journal valid c G es1 (S @ [entry]) st w \<Longrightarrow> prefix es es1 \<Longrightarrow>
   pushJustified journal c (Suc (length (publicationAttempts es))) entry \<Longrightarrow> pubDone journal valid c G es S st w"
  unfolding pubEnds_def pubDone_def pubAdvance_def by (blast intro: prefix_order.order_trans)

lemma pubStops_pushed:
  "pubStops journal valid c G es1 (S @ [entry]) w \<Longrightarrow> prefix es es1 \<Longrightarrow>
   pushJustified journal c (Suc (length (publicationAttempts es))) entry \<Longrightarrow> pubFailed journal valid c G es S w"
  unfolding pubStops_def pubFailed_def pubAdvance_def by (blast intro: prefix_order.order_trans)

lemma pendingOk_retained:
  assumes "pendingOk c G es p" "cause = AttemptsExhausted \<longrightarrow> length (pp_attemptOrdinalsInBatch p) = remotePublicationAttemptLimit"
  shows "publication_history c (es @ [RemotePublicationRetained G cause c (pp_authorization p)])
      (PhaseRetained (pp_authorization p) (pp_attemptOrdinalsInBatch p) G cause)"
    "RemotePublicationRetained G cause c (pp_authorization p) \<notin> set es" "pp_batchGrantAt p = G"
  using assms by (auto simp: pendingOk_def Let_def)

lemma pendingOk_attempt:
  assumes "pendingOk c G es p" "length (pp_attemptOrdinalsInBatch p) < remotePublicationAttemptLimit"
    "n = Suc (length (publicationAttempts es))"
  shows "publication_history c (es @ [attemptEvent c n G]) (PhasePending (pp_attemptOrdinalsInBatch p @ [n]) (pp_authorization p) G)"
    "pp_batchGrantAt p = G" "length (pp_attemptOrdinals p) + 1 = n"
  using assms by (auto simp: pendingOk_def Let_def)

lemma attemptEvent_new:
  "publication_history c es ph \<Longrightarrow> attemptEvent c (Suc (length (publicationAttempts es))) g \<notin> set es"
  using publication_history_next_new [of c es ph]
  by (force simp: publicationAttempts_def set_map_filter_conv)

context in_run_journal
begin

lemma triple_appendRetained:
  assumes "pendingOk c G es p" "cause = AttemptsExhausted \<longrightarrow> length (pp_attemptOrdinalsInBatch p) = remotePublicationAttemptLimit"
  shows "triple (pubAt journal valid c G es ph S)
     (appendRemotePublicationRetained journal c cause (pp_authorization p) (pp_batchGrantAt p))
     (\<lambda>_. pubEnds journal valid c G es S (retainedPublicationState p cause c)) (\<lambda>_. pubStops journal valid c G es S)"
  unfolding appendRemotePublicationRetained_def pendingOk_retained(3) [OF assms]
  by (rule triple_conseq [OF triple_appendPublication [OF pendingOk_retained(1,2) [OF assms]]])
    (auto simp: pubEnds_def retainedPublicationState_def pubState_def pendingOk_retained(3) [OF assms] intro!: exI intro: pubStopsI)

lemma triple_retain:
  assumes "pendingOk c G es p" "cause = AttemptsExhausted \<longrightarrow> length (pp_attemptOrdinalsInBatch p) = remotePublicationAttemptLimit"
  shows "triple (pubAt journal valid c G es ph S) (retainPublication journal c p cause)
     (pubEnds journal valid c G es S) (\<lambda>_. pubStops journal valid c G es S)"
  unfolding retainPublication_def
  by (rule triple_andThen [OF triple_appendRetained [OF assms]], rule triple_succeed)

lemma triple_success:
  assumes "publication_history c (es @ [RemotePublicationSucceeded c p]) (PhaseSucceeded p)" "\<forall>e\<in>set es. \<not> isPublicationSucceeded e"
  shows "triple (pubAt journal valid c G es ph S) (succeedPublication journal c p)
     (pubEnds journal valid c G es S) (\<lambda>_. pubStops journal valid c G es S)"
proof -
  have "RemotePublicationSucceeded c p \<notin> set es" using assms(2) by force
  then have "triple (pubAt journal valid c G es ph S) (appendRemotePublicationSuccess journal c p)
     (\<lambda>_. pubEnds journal valid c G es S (PublicationSucceeded c p)) (\<lambda>_. pubStops journal valid c G es S)"
    unfolding appendRemotePublicationSuccess_def
    by (rule triple_conseq [OF triple_appendPublication [OF assms(1)]])
      (auto simp: pubEnds_def pubState_def intro!: exI intro: pubStopsI)
  then show ?thesis
    unfolding succeedPublication_def by (rule triple_andThen) (rule triple_succeed)
qed

text \<open>Sender custody first, then the durable intent; without custody the outcome is retained.\<close>

lemma triple_prepare:
  assumes ok: "pendingOk c G es p" and room: "length (pp_attemptOrdinalsInBatch p) < remotePublicationAttemptLimit"
    and n: "n = Suc (length (publicationAttempts es))" and h: "publication_history c es q"
  shows "triple (pubAt journal valid c G es ph S) (prepareAttemptIntent journal git c p n)
     (\<lambda>x w. case x of Some st \<Rightarrow> pubEnds journal valid c G es S st w
        | None \<Rightarrow> pubAt journal valid c G (es @ [attemptEvent c n G])
            (Some (PhasePending (pp_attemptOrdinalsInBatch p @ [n]) (pp_authorization p) G)) S w)
     (\<lambda>_. pubStops journal valid c G es S)"
    (is "triple _ _ ?Q ?E")
  unfolding prepareAttemptIntent_def
proof (rule triple_bind [OF triple_callGit_pub])
  fix custody :: "RemotePublicationPushFailureReason + unit"
  have refused: "triple (pubAt journal valid c G es ph S)
      (andThen (retainPublication journal c p PushCustodyUnproven) (\<lambda>state. succeed (Some state))) ?Q ?E"
    by (rule triple_andThen [OF triple_retain [OF ok]]) (auto intro: triple_succeed)
  have written: "triple (pubAt journal valid c G es ph S)
      (andThen (appendRemotePublicationAttemptIntent journal c n (pp_batchGrantAt p)) (\<lambda>_. succeed None)) ?Q ?E"
    unfolding appendRemotePublicationAttemptIntent_def pendingOk_attempt(2) [OF ok room n]
    by (rule triple_bind [OF triple_appendPublication [OF pendingOk_attempt(1) [OF ok room n]]], insert attemptEvent_new [OF h, of G] n)
      (auto intro: triple_succeed pubStopsI)
  show "triple (\<lambda>w. (\<exists>g g'. pg_prepareSenderCustody git (remotePublicationGitRequestFor c) n g = (custody, g')) \<and>
        pubAt journal valid c G es ph S w)
      (case custody of Inl x \<Rightarrow> andThen (retainPublication journal c p PushCustodyUnproven) (\<lambda>state. succeed (Some state))
       | Inr x \<Rightarrow> andThen (appendRemotePublicationAttemptIntent journal c n (pp_batchGrantAt p)) (\<lambda>_. succeed None)) ?Q ?E"
    by (rule triple_pure) (rule triple_case_sum [OF refused written])
qed auto

end

section \<open>The two phases\<close>

definition observedOk ::
  "'j InRunJournalService \<Rightarrow> ('j \<Rightarrow> bool) \<Rightarrow> RemotePublicationCorrelation \<Rightarrow> JournalPosition option \<Rightarrow>
   RemotePublicationJournalEvent list \<Rightarrow> ReductionPhase \<Rightarrow> ('j \<times> SentMutation) list \<Rightarrow> PendingPublication \<Rightarrow>
   ObservationPhaseResult \<Rightarrow> ('j, 'g) World \<Rightarrow> bool" where
  "observedOk journal valid c G es q S p result w \<longleftrightarrow>
     (case result of
        SucceededOrRetained st \<Rightarrow> pubEnds journal valid c G es S st w
      | ObservationRetained cause \<Rightarrow> pubEnds journal valid c G es S (retainedPublicationState p cause c) w
      | Observed _ \<Rightarrow> pubAt journal valid c G es (Some q) S w)"

lemma proofForObservation_reconciled:
  "proofForObservation ob n = Some p \<Longrightarrow> isReconciledProof p \<and> \<not> isPushProof p \<and> proof_attemptOrdinal p = n"
  by (cases ob) auto

lemma proofForObservation_head:
  assumes "proofForObservation ob n = Some p" "isCurrentHeadProof p" "\<And>h. ob = RemoteCandidateCurrent h \<Longrightarrow> h = commit"
  shows "proof_remoteHead p = commit"
  using assms by (cases ob) auto

lemma candidateCommit_request [simp]:
  "pr_candidateCommit (remotePublicationGitRequestFor c) = qc_candidateCommit (pc_qualifiedCandidate c)"
  by (simp add: remotePublicationGitRequestFor_def)

text \<open>A proof for the attempt that was just written settles the publication.\<close>

lemma history_success_after_attempt:
  assumes h: "publication_history c (es @ [attemptEvent c n G]) (PhasePending b a G)" and n: "n = Suc (length (publicationAttempts es))"
    and p: "proof_attemptOrdinal p = n" "isCurrentHeadProof p \<longrightarrow> proof_remoteHead p = qc_candidateCommit (pc_qualifiedCandidate c)"
  shows "publication_history c ((es @ [attemptEvent c n G]) @ [RemotePublicationSucceeded c p]) (PhaseSucceeded p)"
    "\<forall>e\<in>set (es @ [attemptEvent c n G]). \<not> isPublicationSucceeded e"
proof -
  from publication_history_rejections [OF h] have "n \<notin> set (List.map_filter publicationRejectionOf (es @ [attemptEvent c n G]))"
    by simp
  with p have "proofSound c (es @ [attemptEvent c n G]) p" by (simp add: proofSound_def)
  then show "publication_history c ((es @ [attemptEvent c n G]) @ [RemotePublicationSucceeded c p]) (PhaseSucceeded p)"
    by (rule publication_history.succeeded [OF h])
  show "\<forall>e\<in>set (es @ [attemptEvent c n G]). \<not> isPublicationSucceeded e"
    using history_no_success [OF h] by auto
qed

section \<open>The grant an activation runs under\<close>

text \<open>
  \<open>grantsSettled\<close>: the newest grant of the responsibility is the one the phase already cites. It holds in every
  history in which a grant answers the retained outcome of the publication itself; a retained or succeeded phase puts no
  condition on the grants.
\<close>

fun grantsSettled :: "JournalPosition option \<Rightarrow> ReductionPhase option \<Rightarrow> bool" where
  "grantsSettled G None \<longleftrightarrow> G = None"
| "grantsSettled G (Some (PhasePending _ _ g)) \<longleftrightarrow> g = G"
| "grantsSettled G (Some (PhaseResumeReady _ _ g _)) \<longleftrightarrow> g = G"
| "grantsSettled G (Some _) \<longleftrightarrow> True"

lemma sorted_filter_last:
  assumes "sorted (map f xs)" "findLast P xs = Some y" "x \<in> set xs" "P x"
  shows "f x \<le> f y"
  using assms
proof (induction xs rule: rev_induct)
  case (snoc z xs)
  then show ?case by (auto simp: sorted_append split: if_splits)
qed simp

lemma findLast_weaker:
  assumes "findLast Q xs = Some y" "P y" "\<And>x. P x \<Longrightarrow> Q x"
  shows "findLast P xs = Some y"
  using assms by (induction xs rule: rev_induct) (auto split: if_splits)

lemma latest_map_filter:
  "latest (List.map_filter f xs) = Option.bind (findLast (\<lambda>x. f x \<noteq> None) xs) f"
proof (induction xs rule: rev_induct)
  case (snoc x xs)
  then show ?case by (cases "f x") auto
qed (simp add: List.map_filter_def)

text \<open>A grant that came after the last retained outcome is newer than every grant the publication cites.\<close>

lemma retained_record_last:
  assumes wf: "wellFormedHistory runId rs" and ev: "pubEvidence rs c es (Some (PhaseRetained a b g cs))"
  obtains r where "lastRetainedFor rs c = Some r"
    "\<And>q e. q \<in> set rs \<Longrightarrow> publicationEvent c q = Some e \<Longrightarrow> jr_position q \<le> jr_position r"
proof -
  from ev have "publication_history c es (PhaseRetained a b g cs)" and es: "List.map_filter (publicationEvent c) rs = es"
    by (simp_all add: pubEvidence_def eventsFor_wellFormed [OF wf])
  then have "latest (List.map_filter (publicationEvent c) rs) = Some (RemotePublicationRetained g cs c a)"
    using publication_history_retained_last by blast
  then obtain r where r: "findLast (\<lambda>x. publicationEvent c x \<noteq> None) rs = Some r"
      "publicationEvent c r = Some (RemotePublicationRetained g cs c a)"
    by (auto simp: latest_map_filter bind_eq_Some_conv)
  have "lastRetainedFor rs c = Some r"
    unfolding lastRetainedFor_def
  proof (rule findLast_weaker [OF r(1)])
    show "case retainedOf r of None \<Rightarrow> False | Some (_, _, d) \<Rightarrow> pc_requestId d = pc_requestId c"
      using r(2) by (auto simp: publicationEvent_iff)
    show "publicationEvent c x \<noteq> None"
      if "case retainedOf x of None \<Rightarrow> False | Some (_, _, d) \<Rightarrow> pc_requestId d = pc_requestId c" for x
      using that by (auto simp: publicationEvent_def split: option.splits WorkflowJournalEvent.splits RemotePublicationJournalEvent.splits)
  qed
  moreover have "jr_position q \<le> jr_position r" if "q \<in> set rs" "publicationEvent c q = Some e" for q e
    using sorted_filter_last [OF wellFormedHistory_sorted [OF wf] r(1) that(1)] that(2) by simp
  ultimately show thesis by (rule that)
qed

lemma cited_before:
  assumes ok: "citationsOk rs c" and q: "q \<in> set rs" "publicationEvent c q = Some e" "publicationGrantOf e = Some g"
  shows "g < jr_position q \<and> g \<in> jr_position ` set (remotePublicationBatchGrantsFor rs c)"
proof -
  have cited: "Some g = map_option jr_position (grantBefore (remotePublicationBatchGrantsFor rs c) (jr_position q))"
    using ok q by (cases e) (auto simp: citationsOk_def publicationEvent_iff retainedGrantIssue_def attemptGrantIssue_def
        citedGrantIssue_None dest!: bspec)
  show ?thesis
    using cited [symmetric] by (auto simp: grantBefore_def dest!: findLast_SomeD)
qed

lemma grant_after_retained:
  assumes wf: "wellFormedHistory runId rs" and ev: "pubEvidence rs c es (Some (PhaseRetained a b g cs))"
    and grant: "remotePublicationBatchGrantForNextAttempt rs c (PublicationRetained a b g cs c) = Some newest"
  shows "currentGrant rs c = Some (jr_position newest) \<and> grantIsNew es (jr_position newest)"
proof -
  obtain r where r: "lastRetainedFor rs c = Some r"
    "\<And>q e. q \<in> set rs \<Longrightarrow> publicationEvent c q = Some e \<Longrightarrow> jr_position q \<le> jr_position r"
    using retained_record_last [OF wf ev] by metis
  from grant r(1) have newest: "latest (remotePublicationBatchGrantsFor rs c) = Some newest" "jr_position r < jr_position newest"
    by (auto simp: remotePublicationBatchGrantForNextAttempt_def Let_def split: option.splits if_splits)
  have "g' < jr_position newest" if "e \<in> set es" "publicationGrantOf e = Some g'" for e g'
  proof -
    from that(1) ev obtain q where "q \<in> set rs" "publicationEvent c q = Some e"
      by (auto simp: pubEvidence_def eventsFor_wellFormed [OF wf] set_map_filter_conv)
    with cited_before [of rs c q e g'] r(2) newest(2) that(2) ev show ?thesis by (fastforce simp: pubEvidence_def)
  qed
  with newest(1) show ?thesis by (auto simp: currentGrant_def grantIsNew_def)
qed

context publication_engine
begin

text \<open>The candidate is already on the remote: record the proof, under a new intent when there is no attempt yet.\<close>

lemma triple_observedProof:
  assumes ok: "pendingOk c G es p" and ex: "existingOk c es p None" and h: "publication_history c es q"
    and n: "n = Suc (length (publicationAttempts es))"
    and basis: "proof_attemptOrdinal basis = n" "isCurrentHeadProof basis \<longrightarrow> proof_remoteHead basis = qc_candidateCommit (pc_qualifiedCandidate c)"
  shows "triple (pubAt journal valid c G es (Some q) S)
     (andThen (prepareAttemptIntent journal git c p n) (\<lambda>preparation.
        case preparation of
          Some state \<Rightarrow> succeed (SucceededOrRetained state)
        | None \<Rightarrow> andThen (succeedPublication journal c basis) (\<lambda>state. succeed (SucceededOrRetained state))))
     (observedOk journal valid c G es q S p) (\<lambda>_. pubStops journal valid c G es S)"
proof -
  have room: "length (pp_attemptOrdinalsInBatch p) < remotePublicationAttemptLimit" using ex by (simp add: existingOk_def)
  note h' = pendingOk_attempt(1) [OF ok room n]
  note succ = history_success_after_attempt [OF h' n basis]
  have settled: "triple (pubAt journal valid c G (es @ [attemptEvent c n G])
        (Some (PhasePending (pp_attemptOrdinalsInBatch p @ [n]) (pp_authorization p) G)) S)
      (andThen (succeedPublication journal c basis) (\<lambda>state. succeed (SucceededOrRetained state)))
      (observedOk journal valid c G es q S p) (\<lambda>_. pubStops journal valid c G es S)"
    by (rule triple_bind [OF triple_success [OF succ]])
      (auto intro!: triple_succeed simp: observedOk_def dest: pubEnds_snoc pubStops_snoc)
  show ?thesis
  proof (rule triple_andThen [OF triple_prepare [OF ok room n h]])
    fix x :: "RemotePublicationState option"
    show "triple (\<lambda>w. case x of Some st \<Rightarrow> pubEnds journal valid c G es S st w
          | None \<Rightarrow> pubAt journal valid c G (es @ [attemptEvent c n G])
              (Some (PhasePending (pp_attemptOrdinalsInBatch p @ [n]) (pp_authorization p) G)) S w)
        (case x of Some state \<Rightarrow> succeed (SucceededOrRetained state)
         | None \<Rightarrow> andThen (succeedPublication journal c basis) (\<lambda>state. succeed (SucceededOrRetained state)))
        (observedOk journal valid c G es q S p) (\<lambda>_. pubStops journal valid c G es S)"
      using settled by (cases x) (auto intro!: triple_succeed simp: observedOk_def)
  qed
qed

lemma triple_observe:
  assumes ok: "pendingOk c G es p" and ex: "existingOk c es p existing" and h: "publication_history c es q"
  shows "triple (pubAt journal valid c G es (Some q) S) (observePublication journal git c p existing)
     (observedOk journal valid c G es q S p) (\<lambda>_. pubStops journal valid c G es S)"
    (is "triple ?P _ ?Q ?E")
  unfolding observePublication_def Let_def
proof (rule triple_bind [OF triple_callGit_pub], rule triple_pure, erule exE, erule exE)
  fix x g g'
  assume call: "pg_observe git (remotePublicationGitRequestFor c) g = (x, g')"
  have len: "length (pp_attemptOrdinals p) = length (publicationAttempts es)"
    using ok by (simp add: pendingOk_def Let_def)
  have retained: "triple ?P (andThen (appendRemotePublicationRetained journal c (ObservationUnavailable reason)
        (pp_authorization p) (pp_batchGrantAt p)) (\<lambda>_. succeed (ObservationRetained (ObservationUnavailable reason)))) ?Q ?E" for reason
    by (rule triple_andThen [OF triple_appendRetained [OF ok]]) (auto intro!: triple_succeed simp: observedOk_def)
  have passed: "triple ?P (succeed (Observed ob)) ?Q ?E" for ob
    by (rule triple_succeed) (simp add: observedOk_def)
  have head: "proof_remoteHead basis = qc_candidateCommit (pc_qualifiedCandidate c)"
    if "x = Inr ob" "proofForObservation ob n = Some basis" "isCurrentHeadProof basis" for ob n basis
    using proofForObservation_head [OF that(2,3)] observe_current call that(1) by fastforce
  have existing: "triple ?P (andThen (succeedPublication journal c basis) (\<lambda>state. succeed (SucceededOrRetained state))) ?Q ?E"
    if "existing = Some n" "x = Inr ob" "proofForObservation ob n = Some basis" for ob n basis
    using ex head [OF that(2,3)] proofForObservation_reconciled [OF that(3)] that(1) ok
    by (intro triple_andThen [OF triple_success]) (auto intro!: triple_succeed simp: observedOk_def existingOk_def pendingOk_def Let_def)
  show "triple ?P
      (case x of Inl reason \<Rightarrow> andThen (appendRemotePublicationRetained journal c (ObservationUnavailable reason)
           (pp_authorization p) (pp_batchGrantAt p)) (\<lambda>_. succeed (ObservationRetained (ObservationUnavailable reason)))
       | Inr ob \<Rightarrow> (case existing of
           Some n \<Rightarrow> (case proofForObservation ob n of None \<Rightarrow> succeed (Observed ob)
             | Some basis \<Rightarrow> andThen (succeedPublication journal c basis) (\<lambda>state. succeed (SucceededOrRetained state)))
         | None \<Rightarrow> (case proofForObservation ob (length (pp_attemptOrdinals p) + 1) of None \<Rightarrow> succeed (Observed ob)
             | Some basis \<Rightarrow> andThen (prepareAttemptIntent journal git c p (length (pp_attemptOrdinals p) + 1)) (\<lambda>preparation.
                 case preparation of Some state \<Rightarrow> succeed (SucceededOrRetained state)
                 | None \<Rightarrow> andThen (succeedPublication journal c basis) (\<lambda>state. succeed (SucceededOrRetained state))))))
      ?Q ?E"
    using retained passed existing head ex proofForObservation_reconciled
    by (auto simp: len split: sum.split option.split intro!: triple_observedProof [OF ok _ h])
qed (auto intro: pubStopsI)

lemma triple_observationPhase:
  assumes ok: "pendingOk c G es p" and ex: "existingOk c es p existing" and h: "publication_history c es q"
  shows "triple (pubAt journal valid c G es (Some q) S) (observationPhase journal git c p existing)
     (observedOk journal valid c G es q S p) (\<lambda>_. pubStops journal valid c G es S)"
    (is "triple ?P _ ?Q ?E")
proof (cases existing)
  case None
  with triple_observe [OF assms] show ?thesis by (simp add: observationPhase_def)
next
  case (Some n)
  have unproven: "triple ?P (andThen (appendRemotePublicationRetained journal c PushCustodyUnproven
        (pp_authorization p) (pp_batchGrantAt p)) (\<lambda>_. succeed (ObservationRetained PushCustodyUnproven))) ?Q ?E"
    by (rule triple_andThen [OF triple_appendRetained [OF ok]]) (auto intro!: triple_succeed simp: observedOk_def)
  show ?thesis
    unfolding observationPhase_def Some option.case
    by (rule triple_bind [OF triple_callGit_pub triple_pure], rule triple_case_sum [OF unproven])
      (use triple_observe [OF assms] Some in \<open>auto intro: pubStopsI\<close>)
qed

text \<open>What a push answer is recorded as, once its intent is the last event.\<close>

lemma triple_settlePush:
  assumes h: "publication_history c (es @ [attemptEvent c n G]) (PhasePending b a G)"
    and n: "n = Suc (length (publicationAttempts es))"
    and p: "pp_correlation p = c" "pp_attemptOrdinals p = publicationAttempts (es @ [attemptEvent c n G])" "pp_batchGrantAt p = G"
      "pp_authorization p = a" "pp_attemptOrdinalsInBatch p = b"
    and call: "pg_push git (remotePublicationGitRequestFor c) n g = (x, g')"
  shows "triple (pubAt journal valid c G (es @ [attemptEvent c n G]) (Some (PhasePending b a G)) S) (settlePush journal c p n x)
     (pubEnds journal valid c G (es @ [attemptEvent c n G]) S) (\<lambda>_. pubStops journal valid c G (es @ [attemptEvent c n G]) S)"
    (is "triple ?P _ (pubEnds _ _ _ _ ?es _) ?E")
proof -
  note ok = pendingOk_pending [OF h p]
  have pending: "pendingPublicationState p = pubState c ?es (Some (PhasePending b a G))"
    by (simp add: pendingPublicationState_def pubState_def p)
  have stay: "triple ?P (succeed (pendingPublicationState p)) (pubEnds journal valid c G ?es S) ?E"
    by (rule triple_succeed) (auto simp: pubEnds_def pending)
  have retain: "triple ?P (retainPublication journal c p cause) (pubEnds journal valid c G ?es S) ?E" if "cause \<noteq> AttemptsExhausted" for cause
    using that by (intro triple_retain [OF ok]) simp
  have reject: "triple ?P (andThen (appendRemotePublicationAttemptRejection journal c n) (\<lambda>_. succeed (pendingPublicationState p))) (pubEnds journal valid c G ?es S) ?E"
  proof -
    have h': "publication_history c (?es @ [RemotePublicationAttemptRejectedNonFastForward n c]) (PhasePending b a G)"
      by (rule publication_history.rejected [OF h]) simp
    have "RemotePublicationAttemptRejectedNonFastForward n c \<notin> set ?es"
      using publication_history_rejections [OF h] by (auto simp: set_map_filter_conv)
    then have "triple ?P (appendRemotePublicationAttemptRejection journal c n)
        (\<lambda>_. pubAt journal valid c G (?es @ [RemotePublicationAttemptRejectedNonFastForward n c]) (Some (PhasePending b a G)) S) ?E"
      unfolding appendRemotePublicationAttemptRejection_def
      by (intro triple_conseq [OF triple_appendPublication [OF h']]) (auto intro: pubStopsI)
    then show ?thesis
    proof (rule triple_andThen)
      show "triple (pubAt journal valid c G (?es @ [RemotePublicationAttemptRejectedNonFastForward n c]) (Some (PhasePending b a G)) S)
          (succeed (pendingPublicationState p)) (pubEnds journal valid c G ?es S) ?E"
        by (rule triple_succeed) (auto simp: pubEnds_def pending pubState_def publicationAttempts_def intro!: exI)
    qed
  qed
  have succ: "triple ?P (succeedPublication journal c q) (pubEnds journal valid c G ?es S) ?E"
    if "proof_attemptOrdinal q = n" "proof_remoteHead q = qc_candidateCommit (pc_qualifiedCandidate c)" for q
    using that by (intro triple_success history_success_after_attempt [OF h n]) auto
  have refused: "triple ?P (fail e) (pubEnds journal valid c G ?es S) ?E" for e by (rule triple_fail) (rule pubStopsI)
  show ?thesis
  proof (cases x)
    case (Inl e)
    then show ?thesis
      using stay retain refused by (cases e) (auto simp: settlePush_def retainedCauseForPushFailure.simps elim: retainedCauseForPushFailure.elims)
  next
    case (Inr r)
    then show ?thesis
    proof (cases r)
      case (PushResultApplied hd)
      with Inr call push_applied have "hd = qc_candidateCommit (pc_qualifiedCandidate c)" by fastforce
      with Inr PushResultApplied succ show ?thesis by (simp add: settlePush_def)
    next
      case (PushResultUpToDate hd)
      with Inr call push_up_to_date have "hd = qc_candidateCommit (pc_qualifiedCandidate c)" by fastforce
      with Inr PushResultUpToDate succ show ?thesis by (simp add: settlePush_def)
    next
      case (RejectedDefinite d)
      with Inr retain show ?thesis by (cases d) (simp_all add: settlePush_def)
    qed (use Inr retain reject in \<open>simp_all add: settlePush_def\<close>)
  qed
qed

text \<open>The push itself: custody, the durable numbered intent, and only then the call.\<close>

lemma pushJustified_after_attempt:
  assumes "pubAt journal valid c G (es @ [attemptEvent c n G]) ph S w"
  shows "pushJustified journal c n (w_journal w, SentPush c (remotePublicationGitRequestFor c) n)"
  using assms by (auto simp: pushJustified_def pubAt_def pubEvidence_def)

lemma triple_send:
  assumes ok: "pendingOk c G es p" and room: "length (pp_attemptOrdinalsInBatch p) < remotePublicationAttemptLimit"
    and h: "publication_history c es q"
  shows "triple (pubAt journal valid c G es ph S) (sendPublication journal git c p)
     (pubDone journal valid c G es S) (\<lambda>_. pubFailed journal valid c G es S)"
proof -
  let ?n = "Suc (length (publicationAttempts es))"
  let ?es = "es @ [attemptEvent c ?n G]"
  let ?p = "afterPublicationAttempt p ?n c"
  let ?ph = "PhasePending (pp_attemptOrdinalsInBatch p @ [?n]) (pp_authorization p) G"
  note att = pendingOk_attempt [OF ok room refl]
  have p': "pp_correlation ?p = c" "pp_attemptOrdinals ?p = publicationAttempts ?es" "pp_batchGrantAt ?p = G"
    "pp_authorization ?p = pp_authorization p" "pp_attemptOrdinalsInBatch ?p = pp_attemptOrdinalsInBatch p @ [?n]"
    using ok by (simp_all add: afterPublicationAttempt_def pendingOk_def Let_def)
  have settled: "triple (\<lambda>w. (\<exists>g g'. pg_push git (remotePublicationGitRequestFor c) ?n g = (x, g')) \<and>
        pubAt journal valid c G ?es (Some ?ph) (S @ [entry]) w)
      (settlePush journal c ?p ?n x) (pubDone journal valid c G es S) (\<lambda>_. pubFailed journal valid c G es S)"
    if just: "pushJustified journal c ?n entry" for x entry
  proof (rule triple_pure, erule exE, erule exE)
    fix g g' assume "pg_push git (remotePublicationGitRequestFor c) ?n g = (x, g')"
    from triple_settlePush [OF att(1) refl p' this]
    show "triple (pubAt journal valid c G ?es (Some ?ph) (S @ [entry])) (settlePush journal c ?p ?n x)
        (pubDone journal valid c G es S) (\<lambda>_. pubFailed journal valid c G es S)"
      by (rule triple_conseq) (auto intro: pubEnds_pushed [OF _ _ just] pubStops_pushed [OF _ _ just])
  qed
  have pushed: "triple (pubAt journal valid c G ?es (Some ?ph) S)
      (andThen (logSent (SentPush c (remotePublicationGitRequestFor c) ?n)) (\<lambda>_.
         andThen (callGit (pg_push git (remotePublicationGitRequestFor c) ?n)) (settlePush journal c ?p ?n)))
      (pubDone journal valid c G es S) (\<lambda>_. pubFailed journal valid c G es S)"
  proof (rule triple_andThen)
    show "triple (pubAt journal valid c G ?es (Some ?ph) S) (logSent (SentPush c (remotePublicationGitRequestFor c) ?n))
        (\<lambda>_ w. \<exists>entry. pushJustified journal c ?n entry \<and> pubAt journal valid c G ?es (Some ?ph) (S @ [entry]) w)
        (\<lambda>_. pubFailed journal valid c G es S)"
      by (rule tripleI) (use pushJustified_after_attempt in \<open>fastforce simp: pubAt_def\<close>)+
    show "triple (\<lambda>w. \<exists>entry. pushJustified journal c ?n entry \<and> pubAt journal valid c G ?es (Some ?ph) (S @ [entry]) w)
        (andThen (callGit (pg_push git (remotePublicationGitRequestFor c) ?n)) (settlePush journal c ?p ?n))
        (pubDone journal valid c G es S) (\<lambda>_. pubFailed journal valid c G es S)" for x
      by (rule triple_ex, rule triple_pure, rule triple_bind [OF triple_callGit_pub settled])
        (auto intro: pubStops_pushed pubStopsI)
  qed
  show ?thesis
    unfolding sendPublication_def Let_def att(3)
  proof (rule triple_bind [OF triple_prepare [OF ok room refl h]])
    fix x :: "RemotePublicationState option"
    show "triple (\<lambda>w. case x of Some st \<Rightarrow> pubEnds journal valid c G es S st w | None \<Rightarrow> pubAt journal valid c G ?es (Some ?ph) S w)
        (case x of Some state \<Rightarrow> succeed state
         | None \<Rightarrow> andThen (logSent (SentPush c (remotePublicationGitRequestFor c) ?n)) (\<lambda>_.
             andThen (callGit (pg_push git (remotePublicationGitRequestFor c) ?n)) (settlePush journal c ?p ?n)))
        (pubDone journal valid c G es S) (\<lambda>_. pubFailed journal valid c G es S)"
      using pushed by (cases x) (auto intro!: triple_succeed pubEnds_done)
  qed (rule pubStops_failed)
qed

lemma observation_cause_not_exhausted: "retainedCauseForObservation ob = Some cause \<Longrightarrow> cause \<noteq> AttemptsExhausted"
  by (cases ob) auto

lemma triple_senderPhase:
  assumes ok: "pendingOk c G es p" and h: "publication_history c es q"
  shows "triple (pubAt journal valid c G es (Some q) S) (senderPhase journal git c p ob)
     (pubDone journal valid c G es S) (\<lambda>_. pubFailed journal valid c G es S)"
proof -
  have retain: "triple (pubAt journal valid c G es (Some q) S) (retainPublication journal c p cause)
      (pubDone journal valid c G es S) (\<lambda>_. pubFailed journal valid c G es S)"
    if "cause = AttemptsExhausted \<longrightarrow> length (pp_attemptOrdinalsInBatch p) = remotePublicationAttemptLimit" for cause
    by (rule triple_conseq [OF triple_retain [OF ok that]]) (auto intro: pubEnds_done pubStops_failed)
  have full: "remotePublicationAttemptsExhausted (pendingPublicationState p) \<longleftrightarrow>
      length (pp_attemptOrdinalsInBatch p) = remotePublicationAttemptLimit"
    using ok by (auto simp: pendingPublicationState_def pendingOk_def Let_def)
  show ?thesis
  proof (cases "retainedCauseForObservation ob")
    case (Some cause)
    with retain [of cause] observation_cause_not_exhausted [OF Some] show ?thesis by (simp add: senderPhase_def)
  next
    case None
    show ?thesis
    proof (cases "remotePublicationAttemptsExhausted (pendingPublicationState p)")
      case True
      with None retain full show ?thesis by (simp add: senderPhase_def)
    next
      case False
      with full ok have "length (pp_attemptOrdinalsInBatch p) < remotePublicationAttemptLimit"
        by (auto simp: pendingOk_def Let_def)
      with None False triple_send [OF ok _ h] show ?thesis by (simp add: senderPhase_def)
    qed
  qed
qed

lemma pubEnds_stops: "pubEnds journal valid c G es S st w \<Longrightarrow> pubStops journal valid c G es S w"
  by (auto simp: pubEnds_def pubStops_def)

lemma pubDone_failed: "pubDone journal valid c G es S st w \<Longrightarrow> pubFailed journal valid c G es S w"
  by (auto simp: pubDone_def pubFailed_def)

lemma triple_activate:
  assumes ok: "pendingOk c G es p" and ex: "existingOk c es p existing" and h: "publication_history c es q"
  shows "triple (pubAt journal valid c G es (Some q) S) (activatePublication journal git boundary c p existing)
     (pubDone journal valid c G es S) (\<lambda>_. pubFailed journal valid c G es S)"
  unfolding activatePublication_def
proof (rule triple_andThen)
  show "triple (pubAt journal valid c G es (Some q) S) (pb_runObservation boundary (observationPhase journal git c p existing))
      (observedOk journal valid c G es q S p) (\<lambda>_. pubFailed journal valid c G es S)"
  proof (rule triple_phase [OF observation_runs])
    show "triple (pubAt journal valid c G es (Some q) S) (observationPhase journal git c p existing)
        (observedOk journal valid c G es q S p) (\<lambda>_. pubFailed journal valid c G es S)"
      by (rule triple_conseq [OF triple_observationPhase [OF assms]]) (auto intro: pubStops_failed)
    show "pubFailed journal valid c G es S w" if "pubAt journal valid c G es (Some q) S w" for w
      using that by (blast intro: pubStops_failed pubStopsI)
    show "pubFailed journal valid c G es S w" if "observedOk journal valid c G es q S p x w" for x w
      using that by (cases x) (auto simp: observedOk_def intro: pubStops_failed pubStopsI pubEnds_stops)
  qed
  fix x
  have sender: "triple (pubAt journal valid c G es (Some q) S) (pb_runSender boundary (senderPhase journal git c p ob))
      (pubDone journal valid c G es S) (\<lambda>_. pubFailed journal valid c G es S)" for ob
    by (rule triple_phase [OF sender_runs triple_senderPhase [OF ok h]]) (auto intro: pubStops_failed pubStopsI pubDone_failed)
  show "triple (observedOk journal valid c G es q S p x)
      (case x of SucceededOrRetained state \<Rightarrow> succeed state
       | ObservationRetained cause \<Rightarrow> succeed (retainedPublicationState p cause c)
       | Observed observation \<Rightarrow> pb_runSender boundary (senderPhase journal git c p observation))
      (pubDone journal valid c G es S) (\<lambda>_. pubFailed journal valid c G es S)"
  proof (cases x)
    case (Observed ob)
    with sender [of ob] show ?thesis by (simp add: observedOk_def [abs_def])
  qed (auto intro!: triple_succeed pubEnds_done simp: observedOk_def)
qed

text \<open>One run, from any phase whose grants are settled.\<close>

lemma pubState_succeeded: "pubState c es ph = PublicationSucceeded d p \<longleftrightarrow> ph = Some (PhaseSucceeded p) \<and> d = c"
  by (cases ph; cases "the ph") (auto simp: pubState_def)

lemma run_pending:
  assumes wf: "wellFormedHistory runId rs" and ev: "pubEvidence rs c es (Some (PhasePending b a G))" and G: "currentGrant rs c = G"
  shows "pendingAtActivation rs c (map_option jr_position (remotePublicationBatchGrantForNextAttempt rs c st))
      (PublicationPending a (publicationAttempts es) b G c) =
    \<lparr>pp_authorization = a, pp_attemptOrdinals = publicationAttempts es, pp_attemptOrdinalsInBatch = b, pp_batchGrantAt = G,
     pp_correlation = c\<rparr>"
proof -
  have h: "publication_history c es (PhasePending b a G)" using ev by (simp add: pubEvidence_def)
  have "remotePublicationBatchGrantForNextAttempt rs c st = None" if none: "publicationAttempts es = []"
  proof -
    from history_first_batch [OF h _ none] h have "publication_history c es (PhasePending [] a G)" by simp
    then have "currentGrant rs c = None" using publication_history_fresh G by blast
    then show ?thesis by (simp add: currentGrant_def remotePublicationBatchGrantForNextAttempt_def)
  qed
  then show ?thesis by auto
qed

lemma triple_runPhase:
  assumes wf: "wellFormedHistory (remotePublicationRunIdOf c) rs" and ev: "pubEvidence rs c es (Some ph)" and G: "currentGrant rs c = G"
    and settled: "grantsSettled G (Some ph)" and live: "\<not> isSucceededPhase ph"
    and st: "st = pubState c es (Some ph)"
    and granted: "granted = map_option jr_position (remotePublicationBatchGrantForNextAttempt rs c st)"
    and runs: "\<not> (isPublicationRetainedState st \<and> granted = None)"
  shows "triple (pubAt journal valid c G es (Some ph) S)
     (activatePublication journal git boundary c (pendingAtActivation rs c granted st) (pendingAttemptAtActivation st))
     (pubDone journal valid c G es S) (\<lambda>_. pubFailed journal valid c G es S)"
proof -
  have h: "publication_history c es ph" and events: "remotePublicationEventsFor rs c = es"
    using ev by (simp_all add: pubEvidence_def)
  show ?thesis
  proof (cases ph)
    case (PhasePending b a g)
    with settled have g: "g = G" by simp
    have pending: "pendingAtActivation rs c granted st =
      \<lparr>pp_authorization = a, pp_attemptOrdinals = publicationAttempts es, pp_attemptOrdinalsInBatch = b, pp_batchGrantAt = G,
       pp_correlation = c\<rparr>"
      using run_pending [OF wf _ G, of es b a st] ev by (simp add: granted st PhasePending g pubState_def)
    from h have h': "publication_history c es (PhasePending b a G)" by (simp add: PhasePending g)
    show ?thesis
      unfolding pending by (rule triple_activate [OF pendingOk_pending [OF h'] _ h])
        (use existingOk_pending [OF h'] in \<open>simp_all add: st PhasePending pubState_def\<close>)
  next
    case (PhaseResumeReady cs b g request)
    with settled h have h': "publication_history c es (PhaseResumeReady cs b G request)" and g: "g = G" by simp_all
    show ?thesis
      by (rule triple_activate [OF pendingOk_resumed [OF h'] _ h])
        (use existingOk_resumed [OF h'] in \<open>simp_all add: st PhaseResumeReady g pubState_def\<close>)
  next
    case (PhaseRetained a b g cs)
    with runs obtain newest where newest: "remotePublicationBatchGrantForNextAttempt rs c (PublicationRetained a b g cs c) = Some newest"
      by (auto simp: st granted pubState_def isPublicationRetainedState_def)
    from grant_after_retained [OF wf _ newest] ev PhaseRetained G
    have new: "G = Some (jr_position newest)" "grantIsNew es (jr_position newest)" by auto
    from h PhaseRetained have h': "publication_history c es (PhaseRetained a b g cs)" by simp
    show ?thesis
      unfolding new(1) by (rule triple_activate [OF pendingOk_granted [OF h' new(2)] _ h])
        (simp_all add: st PhaseRetained pubState_def granted newest events existingOk_def remotePublicationAttemptLimit_def)
  qed (use live in simp)
qed

lemma pubAdvance_intended: "pubAdvance journal c [RemotePublicationIntended c] S es' S' \<Longrightarrow> pubAdvance journal c [] S es' S'"
  by (erule pubAdvance_trans [rotated 2]) (simp_all add: publicationAttempts_def)

lemma triple_first:
  "triple (pubAt journal valid c None [] None S)
     (andThen (appendRemotePublicationIntent journal c)
        (\<lambda>_. activatePublication journal git boundary c (pendingAtActivation rs c None PublicationAbsent) None))
     (pubDone journal valid c None [] S) (\<lambda>_. pubFailed journal valid c None [] S)"
proof (rule triple_andThen)
  let ?es = "[RemotePublicationIntended c]"
  let ?p = "pendingAtActivation rs c None PublicationAbsent"
  have h: "publication_history c ?es (PhasePending [] InitialAttempt None)"
    by (rule publication_history.intended)
  show "triple (pubAt journal valid c None [] None S) (appendRemotePublicationIntent journal c)
      (\<lambda>_. pubAt journal valid c None ?es (Some (PhasePending [] InitialAttempt None)) S)
      (\<lambda>_. pubFailed journal valid c None [] S)"
    unfolding appendRemotePublicationIntent_def
    by (rule triple_conseq [OF triple_appendPublication [where es = "[]"]]) (use h in \<open>auto intro: pubStops_failed pubStopsI\<close>)
  have "triple (pubAt journal valid c None ?es (Some (PhasePending [] InitialAttempt None)) S)
      (activatePublication journal git boundary c ?p None)
      (pubDone journal valid c None ?es S) (\<lambda>_. pubFailed journal valid c None ?es S)"
    by (rule triple_activate [OF pendingOk_pending [OF h] _ h])
      (simp_all add: existingOk_def remotePublicationAttemptLimit_def publicationAttempts_def)
  then show "triple (pubAt journal valid c None ?es (Some (PhasePending [] InitialAttempt None)) S)
      (activatePublication journal git boundary c ?p None)
      (pubDone journal valid c None [] S) (\<lambda>_. pubFailed journal valid c None [] S)" for x :: unit
    by (rule triple_conseq) (unfold pubDone_def pubFailed_def, (metis pubAdvance_intended)+)
qed

lemma run_correct:
  assumes c: "c = remotePublicationCorrelationFor candidate target" and settled: "grantsSettled G ph"
  shows "triple (pubAt journal valid c G es ph S) (runRemotePublication journal git boundary candidate target)
     (pubDone journal valid c G es S) (\<lambda>_. pubFailed journal valid c G es S)"
  unfolding runRemotePublication_def Let_def c [symmetric]
proof (rule triple_bind [OF triple_readEvidence], rule triple_pure, elim conjE)
  fix rs
  assume wf: "wellFormedHistory (remotePublicationRunIdOf c) rs" and ev: "pubEvidence rs c es ph" and G: "currentGrant rs c = G"
  let ?granted = "\<lambda>st. map_option jr_position (remotePublicationBatchGrantForNextAttempt rs c st)"
  let ?run = "\<lambda>st. if isPublicationRetainedState st \<and> ?granted st = None then succeed st
      else andThen (if st = PublicationAbsent then appendRemotePublicationIntent journal c else succeed ())
        (\<lambda>_. activatePublication journal git boundary c (pendingAtActivation rs c (?granted st) st) (pendingAttemptAtActivation st))"
  have stay: "triple (pubAt journal valid c G es ph S) (succeed (pubState c es ph))
      (pubDone journal valid c G es S) (\<lambda>_. pubFailed journal valid c G es S)"
    by (rule triple_succeed) (auto simp: pubDone_def intro!: exI)
  have run: "triple (pubAt journal valid c G es ph S) (?run (pubState c es ph))
      (pubDone journal valid c G es S) (\<lambda>_. pubFailed journal valid c G es S)" if live: "\<forall>p. ph = Some p \<longrightarrow> \<not> isSucceededPhase p"
  proof (cases ph)
    case None
    then have es: "es = []" and G': "G = None" using ev settled by (simp_all add: pubEvidence_def)
    have "?granted PublicationAbsent = None" using G G' by (simp add: currentGrant_def remotePublicationBatchGrantForNextAttempt_def)
    with triple_first [of c S rs] show ?thesis
      by (simp add: None es G' pubState_def isPublicationRetainedState_def)
  next
    case (Some p)
    have st: "pubState c es (Some p) \<noteq> PublicationAbsent" by (cases p) (simp_all add: pubState_def)
    show ?thesis
    proof (cases "isPublicationRetainedState (pubState c es ph) \<and> ?granted (pubState c es ph) = None")
      case False
      with triple_runPhase [OF wf _ G _ _ refl refl, of es p S] ev settled st Some live
      show ?thesis by (auto simp: andThen_succeed)
    qed (use stay in simp)
  qed
  have valid: "validateRemotePublicationState rs c = Inr (pubState c es ph)" by (rule validate_pubEvidence [OF wf ev])
  show "triple (pubAt journal valid c G es ph S)
      (case validateRemotePublicationState rs c of Inl e \<Rightarrow> fail e
       | Inr (PublicationSucceeded c' p) \<Rightarrow> succeed (PublicationSucceeded c' p)
       | Inr reconstructed \<Rightarrow> ?run reconstructed)
      (pubDone journal valid c G es S) (\<lambda>_. pubFailed journal valid c G es S)"
  proof (cases "\<exists>p. ph = Some (PhaseSucceeded p)")
    case True
    with stay show ?thesis unfolding valid by (auto simp: pubState_def)
  next
    case False
    then have "\<forall>p. ph = Some p \<longrightarrow> \<not> isSucceededPhase p" by (metis isSucceededPhase.elims(2))
    note settled = run [OF this]
    have "\<forall>d p. pubState c es ph \<noteq> PublicationSucceeded d p" using False by (simp add: pubState_succeeded)
    from case_live_publication [OF this, where A = "\<lambda>d p. succeed (PublicationSucceeded d p)" and B = ?run] settled show ?thesis
      unfolding valid sum.case by (simp only:)
  qed
qed (blast intro: pubStops_failed pubStopsI)

end

end
