(* ===== verification/Promotion_Engine.thy ===== *)
theory Promotion_Engine
  imports Promotion_Correctness Publication_Correctness
begin

text \<open>
  The promotion engine's entry points (\<^verbatim>\<open>target-promotion/protocol-engine.ts\<close>): a candidate is promoted, or an
  earlier attempt reconciled, only with the exact durable proof that the candidate was published.
\<close>

section \<open>Model\<close>

record PublishedIntegratorRunQualifiedCandidate =
  pub_candidate :: IntegratorRunQualifiedCandidate
  pub_correlation :: RemotePublicationCorrelation
  pub_proof :: RemotePublicationProofBasis

definition validPublishedCandidate :: "PublishedIntegratorRunQualifiedCandidate \<Rightarrow> bool" where
  "validPublishedCandidate p \<longleftrightarrow>
     qc_candidateCommit (pc_qualifiedCandidate (pub_correlation p)) = qc_candidateCommit (pub_candidate p) \<and>
     remotePublicationCorrelationEquals (pub_correlation p)
       (remotePublicationCorrelationFor (pub_candidate p) (pc_target (pub_correlation p)))"

datatype PromotionEngineError =
    PromotionProtocolError TargetPromotionError
  | PromotionPublicationError RemotePublicationError

type_synonym ('j, 'g, 'a) promotionEngine = "(('j, 'g) PromotionWorld, PromotionEngineError, 'a) effect"

definition publicationCorrelationOf :: "PublishedIntegratorRunQualifiedCandidate \<Rightarrow> RemotePublicationCorrelation" where
  "publicationCorrelationOf p = remotePublicationCorrelationFor (pub_candidate p) (pc_target (pub_correlation p))"

definition authorizePublishedCandidate ::
  "'j InRunJournalService \<Rightarrow> PublishedIntegratorRunQualifiedCandidate \<Rightarrow>
   ('j, 'g, IntegratorRunQualifiedCandidate) promotionEngine" where
  "authorizePublishedCandidate journal published =
     (let correlation = publicationCorrelationOf published;
          contradiction = fail (PromotionProtocolError (TargetPromotionResultContradiction
            (qc_candidateCommit (pub_candidate published))
            ''target promotion requires the exact durable remote publication proof''))
      in andThen (mapError PromotionProtocolError (readEvidence journal (remotePublicationRunIdOf correlation))) (\<lambda>source.
           case validateRemotePublicationState source correlation of
             Inl e \<Rightarrow> fail (PromotionPublicationError e)
           | Inr (PublicationSucceeded _ basis) \<Rightarrow>
               if pub_proof published = basis then succeed (pub_candidate published) else contradiction
           | Inr _ \<Rightarrow> contradiction))"

definition reconcileTargetPromotionAttempt ::
  "'j InRunJournalService \<Rightarrow> 'g TargetPromotionGitService \<Rightarrow> PublishedIntegratorRunQualifiedCandidate \<Rightarrow>
   ('j, 'g, TargetPromotionState) promotionEngine" where
  "reconcileTargetPromotionAttempt journal git published =
     andThen (authorizePublishedCandidate journal published) (\<lambda>candidate.
       mapError PromotionProtocolError
         (andThen (authorizeTargetPromotionProgress journal candidate ReadOnly) (finishProgress journal git)))"

definition runTargetPromotion ::
  "'j InRunJournalService \<Rightarrow> 'g TargetPromotionGitService \<Rightarrow> PublishedIntegratorRunQualifiedCandidate \<Rightarrow>
   ('j, 'g, TargetPromotionState) promotionEngine" where
  "runTargetPromotion journal git published =
     andThen (authorizePublishedCandidate journal published) (\<lambda>candidate.
       mapError PromotionProtocolError
         (andThen (authorizeOrRecordTargetPromotionProgress journal candidate) (finishProgress journal git)))"

section \<open>Publication before promotion\<close>

text \<open>The journal holds the exact proof: validation reconstructs it from the history.\<close>

definition publicationProven ::
  "'j InRunJournalService \<Rightarrow> PublishedIntegratorRunQualifiedCandidate \<Rightarrow> ('j, 'g, 'm) World_scheme \<Rightarrow> bool" where
  "publicationProven journal published w \<longleftrightarrow>
     (\<exists>rs d. ij_read journal (remotePublicationRunIdOf (publicationCorrelationOf published)) (w_journal w) = (Inr rs, w_journal w) \<and>
        validateRemotePublicationState rs (publicationCorrelationOf published) = Inr (PublicationSucceeded d (pub_proof published)))"

context in_run_journal
begin

lemma authorizePublished_cases:
  assumes "authorizePublishedCandidate journal published w = (x, w')"
  shows "w' = w \<and> (case x of Inl _ \<Rightarrow> True | Inr candidate \<Rightarrow> candidate = pub_candidate published \<and> publicationProven journal published w)"
proof -
  let ?c = "publicationCorrelationOf published"
  have read: "readEvidence journal (remotePublicationRunIdOf ?c) w =
      ((case fst (ij_read journal (remotePublicationRunIdOf ?c) (w_journal w)) of Inl e \<Rightarrow> Inl (PromotionJournalError e) | Inr y \<Rightarrow> Inr y), w)"
    using read_unchanged by (auto simp: readEvidence_def liftJournal_def split: prod.splits sum.splits)
  obtain y j where rd: "ij_read journal (remotePublicationRunIdOf ?c) (w_journal w) = (y, j)" by (cases "ij_read journal (remotePublicationRunIdOf ?c) (w_journal w)")
  then have "j = w_journal w" by (rule read_unchanged)
  with assms rd show ?thesis
    by (cases y) (auto simp: authorizePublishedCandidate_def andThen_def mapError_def read Let_def publicationProven_def
        split: sum.splits RemotePublicationState.splits if_splits)
qed

text \<open>Without the proof nothing happens at all.\<close>

lemma unproven_inert:
  assumes "\<not> publicationProven journal published w" "andThen (authorizePublishedCandidate journal published) f w = (x, w')"
  shows "w' = w \<and> (\<exists>e. x = Inl e)"
  using assms authorizePublished_cases [of published w] by (fastforce simp: andThen_def split: prod.splits sum.splits)

end

section \<open>Reading only\<close>

definition readOnlyProgress :: "TargetPromotionProgress \<Rightarrow> bool" where
  "readOnlyProgress p =
     (case p of
        ProgressState _ \<Rightarrow> True
      | ProgressRead a \<Rightarrow> ra_authority a = ReadOnly \<and> ra_previousAttemptOrdinal a \<noteq> None
      | ProgressAttempt _ \<Rightarrow> False)"

lemma mintRead_fields:
  "mintReadAuthorization c previous authority basis w = (Inr a, w') \<Longrightarrow>
   ra_authority a = authority \<and> ra_previousAttemptOrdinal a = previous"
  by (auto simp: mintReadAuthorization_def Let_def)

lemma authorize_readOnly:
  assumes "authorizeTargetPromotionProgress journal candidate ReadOnly w = (Inr p, w')"
  shows "readOnlyProgress p"
  using assms
  by (auto simp: authorizeTargetPromotionProgress_def authorizeExistingState_def authorizePendingProgress_def authorizeDeferredProgress_def
      resultContradiction_def readOnlyProgress_def Let_def
      elim!: andThen_InrE dest!: mintRead_fields split: option.splits TargetPromotionState.splits TargetPromotionPendingRetry.splits)

lemma readOnly_decision:
  "ra_authority a = ReadOnly \<Longrightarrow> ra_previousAttemptOrdinal a = Some n \<Longrightarrow>
   decideSuccessfulTargetPromotionRead a obs \<noteq> AttemptAuthorized m basis reason \<and>
   decideFailedTargetPromotionRead a f \<noteq> AttemptAuthorized m basis reason"
  by (auto simp: decideSuccessfulTargetPromotionRead_def decideFailedTargetPromotionRead_def decideExpectedHeadRead_def Let_def
      split: option.splits)

lemma finishReadDecision_state:
  assumes "finishReadDecision journal a decision w = (Inr p, w')" "\<And>m basis reason. decision \<noteq> AttemptAuthorized m basis reason"
  shows "\<exists>s. p = ProgressState s"
  using assms by (cases decision) (auto simp: finishReadDecision_def Let_def resultContradiction_def elim!: andThen_InrE)

lemma observe_readOnly:
  assumes "observeTargetPromotionRead journal git a w = (Inr p, w')" "ra_authority a = ReadOnly" "ra_previousAttemptOrdinal a \<noteq> None"
  shows "\<exists>s. p = ProgressState s"
proof -
  obtain n where n: "ra_previousAttemptOrdinal a = Some n" using assms(3) by blast
  show ?thesis
    using assms(1)
    by (auto simp: observeTargetPromotionRead_def Let_def resultContradiction_def elim!: andThen_InrE
        dest!: finishReadDecision_state [OF _ conjunct1 [OF readOnly_decision [OF assms(2) n]]]
          finishReadDecision_state [OF _ conjunct2 [OF readOnly_decision [OF assms(2) n]]]
        split: if_splits sum.splits TargetPromotionReadError.splits)
qed

section \<open>The entry points\<close>

context in_run_journal
begin

lemma triple_runPromotion:
  fixes published :: PublishedIntegratorRunQualifiedCandidate
  defines "c \<equiv> targetPromotionCorrelationFor (pub_candidate published)"
  shows "triple (promoAt journal valid c es S K) (runTargetPromotion journal git published)
     (\<lambda>s. promoReached journal valid c (\<lambda>es' S'. promoAdvance journal c es S es' S' \<and> returnedState c es' s))
     (\<lambda>_. promoReached journal valid c (promoAdvance journal c es S))"
    (is "triple ?P _ ?Q ?E")
proof -
  have authorized: "triple ?P (authorizePublishedCandidate journal published)
      (\<lambda>candidate w. candidate = pub_candidate published \<and> ?P w) ?E"
    by (rule tripleI) (auto dest!: authorizePublished_cases intro: promoReachedI)
  have body: "triple ?P (andThen (authorizeOrRecordTargetPromotionProgress journal (pub_candidate published)) (finishProgress journal git)) ?Q (\<lambda>_. ?E undefined)"
  proof (rule triple_bind [OF triple_authorizeOrRecord [where candidate = "pub_candidate published", folded c_def]])
    fix p
    have "triple (\<lambda>w. (progressOk c es' K' p \<and> prefix es es' \<and> attemptCount es' = attemptCount es) \<and>
        promoAt journal valid c es' S K' w) (finishProgress journal git p) ?Q (\<lambda>_. ?E undefined)" for es' K'
      by (rule triple_pure, rule triple_conseq [OF triple_finishProgress [of c es' K' p]])
        (auto elim!: promoReached_mono intro: promoAdvance_prefix)
    then show "triple (\<lambda>w. \<exists>es' K'. promoAt journal valid c es' S K' w \<and> progressOk c es' K' p \<and> prefix es es' \<and>
        attemptCount es' = attemptCount es) (finishProgress journal git p) ?Q (\<lambda>_. ?E undefined)"
      by (intro triple_ex) (rule triple_pre, assumption, blast)
  qed (auto elim!: promoReachedI)
  show ?thesis
    unfolding runTargetPromotion_def
    by (rule triple_andThen [OF authorized], rule triple_pure, simp, rule triple_mapError, rule body)
qed

text \<open>Reconciliation answers or records, and sends nothing.\<close>

lemma triple_reconcile:
  fixes published :: PublishedIntegratorRunQualifiedCandidate
  defines "c \<equiv> targetPromotionCorrelationFor (pub_candidate published)"
  shows "triple (promoAt journal valid c es S K) (reconcileTargetPromotionAttempt journal git published)
     (\<lambda>s. promoReached journal valid c (\<lambda>es' S'. S' = S \<and> prefix es es' \<and> attemptCount es' = attemptCount es \<and> returnedState c es' s))
     (\<lambda>_. promoReached journal valid c (\<lambda>es' S'. S' = S \<and> es' = es))"
    (is "triple ?P _ ?Q ?E")
proof -
  have authorized: "triple ?P (authorizePublishedCandidate journal published)
      (\<lambda>candidate w. candidate = pub_candidate published \<and> ?P w) ?E"
    by (rule tripleI) (auto dest!: authorizePublished_cases intro: promoReachedI)
  have progress: "triple ?P (authorizeTargetPromotionProgress journal (pub_candidate published) ReadOnly)
      (\<lambda>p w. readOnlyProgress p \<and> (\<exists>K'. promoAt journal valid c es S K' w \<and> progressOk c es K' p)) (\<lambda>_. ?E undefined)"
  proof (rule tripleI)
    note t = triple_authorizeProgress [where candidate = "pub_candidate published", folded c_def]
    fix w assume at: "?P w"
    show "readOnlyProgress p \<and> (\<exists>K'. promoAt journal valid c es S K' w' \<and> progressOk c es K' p)"
      if "authorizeTargetPromotionProgress journal (pub_candidate published) ReadOnly w = (Inr p, w')" for p w'
      using triple_Inr [OF t at that] authorize_readOnly [OF that] by blast
    show "?E undefined w'"
      if "authorizeTargetPromotionProgress journal (pub_candidate published) ReadOnly w = (Inl e, w')" for e w'
      using triple_Inl [OF t at that] by (auto intro: promoReachedI)
  qed
  have finish: "triple (\<lambda>w. readOnlyProgress p \<and> (\<exists>K'. promoAt journal valid c es S K' w \<and> progressOk c es K' p))
      (finishProgress journal git p) ?Q (\<lambda>_. ?E undefined)" for p
  proof (rule triple_pure, rule triple_ex, rule triple_pre [OF triple_pure])
    fix K' assume ro: "readOnlyProgress p" and ok: "progressOk c es K' p"
    show "triple (promoAt journal valid c es S K') (finishProgress journal git p) ?Q (\<lambda>_. ?E undefined)"
    proof (cases p)
      case (ProgressState s)
      with ok have "returnedState c es s" by simp
      then show ?thesis
        unfolding finishProgress_def ProgressState TargetPromotionProgress.case andThen_succeed finishAfterRead_def
        by (intro triple_succeed) (auto elim!: promoReachedI)
    next
      case (ProgressRead a)
      with ro ok have a: "readAuthorizationOk c K' a" "ra_authority a = ReadOnly" "ra_previousAttemptOrdinal a \<noteq> None"
        by (simp_all add: readOnlyProgress_def)
      have read: "triple (promoAt journal valid c es S K') (observeTargetPromotionRead journal git a)
          (\<lambda>p w. \<exists>s. p = ProgressState s \<and> ?Q s w) (\<lambda>_. ?E undefined)"
      proof (rule tripleI)
        fix w q w' assume at: "promoAt journal valid c es S K' w" and run: "observeTargetPromotionRead journal git a w = (Inr q, w')"
        obtain s where s: "q = ProgressState s" using observe_readOnly [OF run a(2,3)] by blast
        from triple_Inr [OF triple_observeRead [OF a(1)] at run] show "\<exists>s. q = ProgressState s \<and> ?Q s w'"
          by (auto simp: s intro: promoReachedI)
      next
        fix w e w' assume "promoAt journal valid c es S K' w" "observeTargetPromotionRead journal git a w = (Inl e, w')"
        from triple_Inl [OF triple_observeRead [OF a(1)] this] show "?E undefined w'" by (auto intro: promoReachedI)
      qed
      show ?thesis
        unfolding finishProgress_def ProgressRead TargetPromotionProgress.case
        by (rule triple_andThen [OF read], rule triple_ex, rule triple_pure)
          (unfold finishAfterRead_def, simp only: TargetPromotionProgress.case, rule triple_succeed)
    qed (use ro in \<open>simp add: readOnlyProgress_def\<close>)
  qed auto
  show ?thesis
    unfolding reconcileTargetPromotionAttempt_def
    by (rule triple_andThen [OF authorized], rule triple_pure, simp, rule triple_mapError, rule triple_andThen [OF progress finish])
qed

end

end
