(* ===== verification/Git_Text.thy ===== *)
theory Git_Text
  imports Contracts "HOL-Library.Sublist"
begin

text \<open>
  The JavaScript text operations the Git adapters use on command output, over 8-bit code units:
  \<open>split\<close>, the line split \<open>/\r?\n/\<close>, \<open>trim().length === 0\<close>, \<open>toLowerCase\<close> and \<open>includes\<close>.
\<close>

definition newline :: char where
  "newline = char_of (10::nat)"

definition carriageReturn :: char where
  "carriageReturn = char_of (13::nat)"

definition tab :: char where
  "tab = char_of (9::nat)"

definition dropCarriageReturn :: "string \<Rightarrow> string" where
  "dropCarriageReturn s = (if s \<noteq> [] \<and> last s = carriageReturn then butlast s else s)"

definition splitLines :: "string \<Rightarrow> string list" where
  "splitLines s =
     (let segments = splitOn newline s in map dropCarriageReturn (butlast segments) @ [last segments])"

definition nonEmptyLines :: "string \<Rightarrow> string list" where
  "nonEmptyLines s = filter (\<lambda>line. line \<noteq> []) (splitLines s)"

definition isBlankChar :: "char \<Rightarrow> bool" where
  "isBlankChar c \<longleftrightarrow> (of_char c :: nat) \<in> {9, 10, 11, 12, 13, 32, 160}"

definition isBlank :: "string \<Rightarrow> bool" where
  "isBlank s \<longleftrightarrow> list_all isBlankChar s"

definition lowerChar :: "char \<Rightarrow> char" where
  "lowerChar c =
     (let n = (of_char c :: nat)
      in if 65 \<le> n \<and> n \<le> 90 \<or> 192 \<le> n \<and> n \<le> 222 \<and> n \<noteq> 215 then char_of (n + 32) else c)"

definition lowerCase :: "string \<Rightarrow> string" where
  "lowerCase s = map lowerChar s"

definition textContains :: "string \<Rightarrow> string \<Rightarrow> bool" where
  "textContains part s \<longleftrightarrow> sublist part s"

section \<open>Facts\<close>

lemma splitOn_absent: "c \<notin> set s \<Longrightarrow> splitOn c s = [s]"
  by (induction s) auto

lemma splitOn_sep: "c \<notin> set s \<Longrightarrow> splitOn c (s @ c # t) = s # splitOn c t"
  by (induction s) auto

text \<open>Joining the fields gives the text back, and no field holds the separator.\<close>

fun joinOn :: "char \<Rightarrow> string list \<Rightarrow> string" where
  "joinOn c [] = []"
| "joinOn c [s] = s"
| "joinOn c (s # ss) = s @ c # joinOn c ss"

lemma joinOn_Cons: "ss \<noteq> [] \<Longrightarrow> joinOn c (s # ss) = s @ c # joinOn c ss"
  by (cases ss) auto

lemma joinOn_splitOn: "joinOn c (splitOn c s) = s"
proof (induction s)
  case (Cons x s)
  show ?case
  proof (cases "splitOn c s")
    case (Cons y ys)
    with Cons.IH show ?thesis by (cases ys) (auto simp: joinOn_Cons)
  qed simp
qed simp

lemma splitOn_fields: "f \<in> set (splitOn c s) \<Longrightarrow> c \<notin> set f"
proof (induction s arbitrary: f)
  case (Cons x s)
  show ?case
  proof (cases "splitOn c s")
    case (Cons y ys)
    with Cons.prems Cons.IH [of y] Cons.IH [of f] show ?thesis by (auto split: if_splits)
  qed simp
qed simp

lemma separators_differ [simp]: "newline \<noteq> carriageReturn" "newline \<noteq> tab" "tab \<noteq> carriageReturn"
  "tab \<noteq> newline" "carriageReturn \<noteq> newline" "carriageReturn \<noteq> tab"
  by (simp_all add: newline_def carriageReturn_def tab_def)

lemma control_chars: "newline = CHR 0x0A" "carriageReturn = CHR 0x0D" "tab = CHR 0x09"
  by code_simp+

lemma splitLines_single:
  assumes "newline \<notin> set s"
  shows "splitLines s = [s]"
  by (simp add: splitLines_def splitOn_absent [OF assms])

lemma splitLines_line:
  assumes "newline \<notin> set s" "carriageReturn \<notin> set s"
  shows "splitLines (s @ [newline]) = [s, []]"
proof -
  have "s \<noteq> [] \<Longrightarrow> last s \<noteq> carriageReturn" using assms(2) last_in_set [of s] by metis
  then show ?thesis using assms(1) by (auto simp: splitLines_def splitOn_sep dropCarriageReturn_def)
qed

lemma nonEmptyLines_line:
  "newline \<notin> set s \<Longrightarrow> carriageReturn \<notin> set s \<Longrightarrow> s \<noteq> [] \<Longrightarrow> nonEmptyLines (s @ [newline]) = [s]"
  by (simp add: nonEmptyLines_def splitLines_line)

end
