(* ===== verification/Exit_Lifecycle.thy ===== *)
theory Exit_Lifecycle
  imports Contracts "HOL-Library.AList"
begin

text \<open>
  The application-exit lifecycle (\<^verbatim>\<open>coordination/application-exit/lifecycle.ts\<close>,
  \<^verbatim>\<open>lifecycle-decision.ts\<close>, \<^verbatim>\<open>workflow/protocols/integration-finality/cleanup-boundary-transition.ts\<close>):
  registration of forward-progress owners, the cutoff of the first exit request, the call state of an
  interruptible boundary, the entry test of an atomic boundary, and the pure decisions of the
  five-second drain. Every operation is one \<open>Ref.modify\<close> of the shared state, so the step relation
  below interleaves whole operations; the deferreds of the source are flags that are only ever set.
\<close>

section \<open>Boundary intents\<close>

datatype InterruptibleWorkflowBoundaryFamily = FamilyGit | FamilyTaskTracker

datatype CompletionClaimCleanupBoundaryCall =
    ReadBeforeOriginalClaimRelease nat
  | ReleaseOriginalClaim
  | ConfirmOriginalClaimReleased nat nat
  | ConfirmNoActiveClaimAfterMarkerAbsent nat nat
  | ReadBeforeDeletionAttempt nat nat
  | DeleteAttempt nat
  | ReadAfterDeletionAttemptsExhausted nat nat

text \<open>Claims and success observations are held by their canonical encodings; the source compares them field by field.\<close>

record CompletionClaimDeletionRequest =
  cd_operationId :: OperationId
  cd_claim :: string
  cd_successObservation :: string

record CleanupIntent =
  ci_call :: CompletionClaimCleanupBoundaryCall
  ci_replacementOperationId :: OperationId
  ci_request :: CompletionClaimDeletionRequest

datatype InterruptibleWorkflowBoundaryIntent =
    RemoteBaseline string string
  | AuthorityRequest InterruptibleWorkflowBoundaryFamily OperationId
  | PostPromotionFinalityReads OperationId OperationId OperationId
  | TaskClaimCleanup OperationId
  | CompletionClaimCleanup CleanupIntent

text \<open>\<open>JSON.stringify\<close> of two strings is injective: the pair itself stands for the identity.\<close>

definition sequenceIdFor :: "CleanupIntent \<Rightarrow> OperationId \<times> OperationId" where
  "sequenceIdFor i = (cd_operationId (ci_request i), ci_replacementOperationId i)"

definition completionClaimRequestLimit :: nat where
  "completionClaimRequestLimit = 3"

definition beginsCompletionMarkerDeletion :: "CompletionClaimCleanupBoundaryCall \<Rightarrow> bool" where
  "beginsCompletionMarkerDeletion next = (case next of ReadBeforeDeletionAttempt n _ \<Rightarrow> n = 1 | _ \<Rightarrow> False)"

definition followsMarkerRead :: "nat \<Rightarrow> CompletionClaimCleanupBoundaryCall \<Rightarrow> bool" where
  "followsMarkerRead attemptOrdinal next =
     (case next of
        ConfirmOriginalClaimReleased n _ \<Rightarrow> n = attemptOrdinal
      | ConfirmNoActiveClaimAfterMarkerAbsent n _ \<Rightarrow> attemptOrdinal > 1 \<and> n = attemptOrdinal
      | _ \<Rightarrow> False)"

definition followsMarkerAbsenceRead :: "nat \<Rightarrow> CompletionClaimCleanupBoundaryCall \<Rightarrow> bool" where
  "followsMarkerAbsenceRead attemptOrdinal next =
     (case next of ConfirmNoActiveClaimAfterMarkerAbsent n _ \<Rightarrow> n = attemptOrdinal | _ \<Rightarrow> False)"

definition followsMarkerDelete :: "nat \<Rightarrow> CompletionClaimCleanupBoundaryCall \<Rightarrow> bool" where
  "followsMarkerDelete attemptOrdinal next =
     (case next of
        ReadBeforeDeletionAttempt n _ \<Rightarrow> n = attemptOrdinal + 1
      | ReadAfterDeletionAttemptsExhausted n _ \<Rightarrow> n = attemptOrdinal \<and> attemptOrdinal = completionClaimRequestLimit
      | _ \<Rightarrow> False)"

fun matchCleanupCall :: "CompletionClaimCleanupBoundaryCall \<Rightarrow> CompletionClaimCleanupBoundaryCall \<Rightarrow> bool" where
  "matchCleanupCall (ConfirmNoActiveClaimAfterMarkerAbsent _ _) next = False"
| "matchCleanupCall (ConfirmOriginalClaimReleased n _) next = (next = DeleteAttempt n)"
| "matchCleanupCall (DeleteAttempt n) next = followsMarkerDelete n next"
| "matchCleanupCall (ReadAfterDeletionAttemptsExhausted n _) next = followsMarkerAbsenceRead n next"
| "matchCleanupCall (ReadBeforeDeletionAttempt n _) next = followsMarkerRead n next"
| "matchCleanupCall (ReadBeforeOriginalClaimRelease _) next = (next = ReleaseOriginalClaim)"
| "matchCleanupCall ReleaseOriginalClaim next = beginsCompletionMarkerDeletion next"

fun continuesCompletionClaimCleanup ::
  "InterruptibleWorkflowBoundaryIntent \<Rightarrow> InterruptibleWorkflowBoundaryIntent \<Rightarrow> bool" where
  "continuesCompletionClaimCleanup (CompletionClaimCleanup previous) (CompletionClaimCleanup next) =
     (sequenceIdFor previous = sequenceIdFor next \<and>
      ci_replacementOperationId previous = ci_replacementOperationId next \<and>
      cd_operationId (ci_request previous) = cd_operationId (ci_request next) \<and>
      cd_claim (ci_request previous) = cd_claim (ci_request next) \<and>
      cd_successObservation (ci_request previous) = cd_successObservation (ci_request next) \<and>
      matchCleanupCall (ci_call previous) (ci_call next))"
| "continuesCompletionClaimCleanup _ _ = False"

section \<open>State\<close>

datatype InterruptibleBoundaryOwnerSnapshot =
    NoBoundaryCall
  | AwaitingBoundaryResult InterruptibleWorkflowBoundaryIntent
  | BoundaryResultProduced InterruptibleWorkflowBoundaryIntent
  | BoundaryResultRecorded InterruptibleWorkflowBoundaryIntent
  | RecoverableAmbiguity InterruptibleWorkflowBoundaryIntent

datatype ForwardOwnerKind = AtomicBoundary | AuthorizedRunTerminationAppend | InterruptibleBoundary | RunActivation

datatype ApplicationExitOwnerSubject =
    NoRun
  | RunOwner RunId
  | TaskOwner RunId TaskId
  | ExecutorAttempt PlannedAttemptExecutorCorrelation

datatype ForwardOwnerPhase =
    Preparing
  | RegisteredInterruptible InterruptibleBoundaryOwnerSnapshot
  | Registered

record ForwardOwnerState =
  fo_subject :: ApplicationExitOwnerSubject
  fo_kind :: ForwardOwnerKind
  fo_phase :: ForwardOwnerPhase

datatype LifecyclePhase = Serving | Exiting int

record ApplicationExitLifecycleState =
  al_nextOwnerId :: nat
  al_owners :: "(nat \<times> ForwardOwnerState) list"
  al_phase :: LifecyclePhase
  al_exitRequested :: bool
  al_forwardOwnersReleased :: bool

definition initialLifecycle :: ApplicationExitLifecycleState where
  "initialLifecycle = \<lparr>al_nextOwnerId = 0, al_owners = [], al_phase = Serving, al_exitRequested = False,
     al_forwardOwnersReleased = False\<rparr>"

fun isExiting :: "LifecyclePhase \<Rightarrow> bool" where
  "isExiting Serving = False"
| "isExiting (Exiting _) = True"

definition ownerOf :: "ApplicationExitLifecycleState \<Rightarrow> nat \<Rightarrow> ForwardOwnerState option" where
  "ownerOf s ownerId = map_of (al_owners s) ownerId"

section \<open>Operations\<close>

definition removeOwner :: "nat \<Rightarrow> ApplicationExitLifecycleState \<Rightarrow> ApplicationExitLifecycleState" where
  "removeOwner ownerId s =
     (case ownerOf s ownerId of
        None \<Rightarrow> s
      | Some _ \<Rightarrow>
          (let owners = AList.delete ownerId (al_owners s);
               drained = isExiting (al_phase s) \<and> owners = []
           in s\<lparr>al_owners := owners, al_forwardOwnersReleased := al_forwardOwnersReleased s \<or> drained\<rparr>))"

definition interruptibleSnapshot :: "nat \<Rightarrow> ApplicationExitLifecycleState \<Rightarrow> InterruptibleBoundaryOwnerSnapshot" where
  "interruptibleSnapshot ownerId s =
     (case map_option fo_phase (ownerOf s ownerId) of Some (RegisteredInterruptible b) \<Rightarrow> b | _ \<Rightarrow> NoBoundaryCall)"

definition updateInterruptibleBoundary ::
  "nat \<Rightarrow> InterruptibleBoundaryOwnerSnapshot \<Rightarrow> ApplicationExitLifecycleState \<Rightarrow> ApplicationExitLifecycleState" where
  "updateInterruptibleBoundary ownerId update s =
     (case ownerOf s ownerId of
        None \<Rightarrow> s
      | Some owner \<Rightarrow>
          (case fo_phase owner of
             RegisteredInterruptible _ \<Rightarrow>
               s\<lparr>al_owners := AList.update ownerId (owner\<lparr>fo_phase := RegisteredInterruptible update\<rparr>) (al_owners s)\<rparr>
           | _ \<Rightarrow> s))"

fun boundaryAccepts :: "InterruptibleBoundaryOwnerSnapshot \<Rightarrow> InterruptibleWorkflowBoundaryIntent \<Rightarrow> bool" where
  "boundaryAccepts NoBoundaryCall intent = True"
| "boundaryAccepts (BoundaryResultRecorded recorded) intent = continuesCompletionClaimCleanup recorded intent"
| "boundaryAccepts _ intent = False"

text \<open>The admission of one interruptible call; \<open>False\<close> is \<open>Effect.interrupt\<close>.\<close>

definition admitInterruptibleCall ::
  "nat \<Rightarrow> InterruptibleWorkflowBoundaryIntent \<Rightarrow> ApplicationExitLifecycleState \<Rightarrow> bool \<times> ApplicationExitLifecycleState" where
  "admitInterruptibleCall ownerId intent s =
     (case ownerOf s ownerId of
        None \<Rightarrow> (False, s)
      | Some owner \<Rightarrow>
          (case fo_phase owner of
             RegisteredInterruptible b \<Rightarrow>
               if isExiting (al_phase s) \<or> \<not> boundaryAccepts b intent then (False, s)
               else (True, s\<lparr>al_owners := AList.update ownerId
                       (owner\<lparr>fo_phase := RegisteredInterruptible (AwaitingBoundaryResult intent)\<rparr>) (al_owners s)\<rparr>)
           | _ \<Rightarrow> (False, s)))"

text \<open>The entry test of an atomic section, and the test after it that drops a result the cutoff overtook.\<close>

definition mayEnterAtomicBoundary :: "nat \<Rightarrow> ApplicationExitLifecycleState \<Rightarrow> bool" where
  "mayEnterAtomicBoundary ownerId s \<longleftrightarrow>
     al_phase s = Serving \<and>
     (case ownerOf s ownerId of None \<Rightarrow> False | Some owner \<Rightarrow> fo_phase owner = Registered \<and> fo_kind owner = AtomicBoundary)"

text \<open>\<open>before\<close> and \<open>after\<close> are the lifecycle as the section's own fiber reads it; others move it in between.\<close>

definition runAtomicBoundary ::
  "'e \<Rightarrow> ApplicationExitLifecycleState \<Rightarrow> ApplicationExitLifecycleState \<Rightarrow> nat \<Rightarrow> ('w, 'e, 'a) effect \<Rightarrow> ('w, 'e, 'a) effect" where
  "runAtomicBoundary interrupt before after ownerId section =
     (if \<not> mayEnterAtomicBoundary ownerId before then fail interrupt
      else andThen section (\<lambda>result. if isExiting (al_phase after) then fail interrupt else succeed result))"

text \<open>\<open>None\<close> is \<open>ApplicationExiting\<close>.\<close>

definition prepareForwardOwner ::
  "ForwardOwnerKind \<Rightarrow> ApplicationExitOwnerSubject \<Rightarrow> ApplicationExitLifecycleState \<Rightarrow>
   nat option \<times> ApplicationExitLifecycleState" where
  "prepareForwardOwner kind subject s =
     (if isExiting (al_phase s) then (None, s)
      else (Some (al_nextOwnerId s),
            s\<lparr>al_nextOwnerId := al_nextOwnerId s + 1,
              al_owners := AList.update (al_nextOwnerId s) \<lparr>fo_subject = subject, fo_kind = kind, fo_phase = Preparing\<rparr>
                (al_owners s)\<rparr>))"

definition registerForwardOwner ::
  "nat \<Rightarrow> ForwardOwnerKind \<Rightarrow> ApplicationExitOwnerSubject \<Rightarrow> ApplicationExitLifecycleState \<Rightarrow>
   bool \<times> ApplicationExitLifecycleState" where
  "registerForwardOwner ownerId kind subject s =
     (if isExiting (al_phase s) \<or> map_option fo_phase (ownerOf s ownerId) \<noteq> Some Preparing then (False, s)
      else (True, s\<lparr>al_owners := AList.update ownerId
              \<lparr>fo_subject = subject, fo_kind = kind,
               fo_phase = (if kind = InterruptibleBoundary then RegisteredInterruptible NoBoundaryCall else Registered)\<rparr>
              (al_owners s)\<rparr>))"

text \<open>Preparation, registration, and the cancellation a failed registration runs.\<close>

definition acquireForwardOwner ::
  "ForwardOwnerKind \<Rightarrow> ApplicationExitOwnerSubject \<Rightarrow> ApplicationExitLifecycleState \<Rightarrow>
   nat option \<times> ApplicationExitLifecycleState" where
  "acquireForwardOwner kind subject s =
     (case prepareForwardOwner kind subject s of
        (None, s') \<Rightarrow> (None, s')
      | (Some ownerId, s') \<Rightarrow>
          (case registerForwardOwner ownerId kind subject s' of
             (True, s'') \<Rightarrow> (Some ownerId, s'')
           | (False, s'') \<Rightarrow> (None, removeOwner ownerId s'')))"

definition requestExit :: "int \<Rightarrow> ApplicationExitLifecycleState \<Rightarrow> (int \<times> bool) \<times> ApplicationExitLifecycleState" where
  "requestExit requestedAt s =
     (case al_phase s of
        Exiting cutoffAt \<Rightarrow> ((cutoffAt, False), s)
      | Serving \<Rightarrow>
          ((requestedAt, True),
           s\<lparr>al_phase := Exiting requestedAt, al_exitRequested := True,
             al_forwardOwnersReleased := al_forwardOwnersReleased s \<or> al_owners s = []\<rparr>))"

definition lifecycleSnapshot :: "ApplicationExitLifecycleState \<Rightarrow> bool \<times> nat \<times> nat" where
  "lifecycleSnapshot s =
     (isExiting (al_phase s),
      length (filter (\<lambda>(_, owner). fo_phase owner = Preparing) (al_owners s)),
      length (filter (\<lambda>(_, owner). fo_phase owner \<noteq> Preparing) (al_owners s)))"

section \<open>Drain decisions\<close>

definition applicationExitDrainLimitSeconds :: nat where
  "applicationExitDrainLimitSeconds = 5"

definition initialApplicationExitDrainTick :: nat where
  "initialApplicationExitDrainTick = 0"

definition finalApplicationExitDrainTick :: nat where
  "finalApplicationExitDrainTick = applicationExitDrainLimitSeconds"

definition penultimateDrainTickValue :: nat where
  "penultimateDrainTickValue = 4"

type_synonym ApplicationExitDiagnostic = string

datatype ApplicationExitResult =
    ExitFailed "ApplicationExitDiagnostic list"
  | ExitSucceeded
  | ExitTimedOut "ApplicationExitDiagnostic list"

fun requestedStatus :: "ApplicationExitResult \<Rightarrow> nat" where
  "requestedStatus ExitSucceeded = 0"
| "requestedStatus _ = 1"

datatype ForwardOwnerAdmission =
    NoForwardOwner
  | PreparingForwardOwner ForwardOwnerKind
  | RegisteredForwardOwner ForwardOwnerKind

fun closeForwardOwnerAdmission :: "ForwardOwnerAdmission \<Rightarrow> ForwardOwnerAdmission" where
  "closeForwardOwnerAdmission (PreparingForwardOwner _) = NoForwardOwner"
| "closeForwardOwnerAdmission owner = owner"

definition closeApplicationExitAdmission :: "ForwardOwnerAdmission list \<Rightarrow> bool \<times> ForwardOwnerAdmission list \<times> nat" where
  "closeApplicationExitAdmission owners = (True, map closeForwardOwnerAdmission owners, initialApplicationExitDrainTick)"

datatype InterruptibleBoundaryObservation = Ambiguous | KnownResult

datatype InterruptibleOwnerReleaseDecision =
    RecordKnownObservationAndRelease
  | ReleaseRecoverableAmbiguity
  | RetainOwnerForMissingIntent

definition decideInterruptibleOwnerRelease ::
  "bool \<Rightarrow> InterruptibleBoundaryObservation \<Rightarrow> InterruptibleOwnerReleaseDecision" where
  "decideInterruptibleOwnerRelease intentAcknowledged observation =
     (if \<not> intentAcknowledged then RetainOwnerForMissingIntent
      else if observation = KnownResult then RecordKnownObservationAndRelease else ReleaseRecoverableAmbiguity)"

datatype ExecutorPositionDecision =
    ReleasePosition string
  | RetainPosition string

text \<open>The correlation key is the encoded pair of its two fields, so comparing keys compares the correlations.\<close>

definition decideExecutorPosition ::
  "PlannedAttemptExecutorCorrelation \<Rightarrow> PlannedAttemptExecutorReport option \<Rightarrow> ExecutorPositionDecision" where
  "decideExecutorPosition expected report =
     (case report of
        None \<Rightarrow> RetainPosition ''NoEvidence''
      | Some r \<Rightarrow>
          if report_correlation r \<noteq> expected then RetainPosition ''ForeignCorrelation''
          else (case r of
                  ExecutorWorkExecuting _ \<Rightarrow> RetainPosition ''ExecutingIsUnsafe''
                | ExecutorWorkResultRejected _ _ _ _ custody \<Rightarrow>
                    if custody = Stopped then ReleasePosition ''RejectedResultWritersStopped''
                    else RetainPosition ''RejectedResultCustodyUnresolved''
                | ExecutorWorkSafelySuspended _ \<Rightarrow> ReleasePosition ''ExecutorWorkSafelySuspended''
                | ExecutorWorkTerminal _ _ \<Rightarrow> ReleasePosition ''ExecutorWorkTerminal''))"

datatype ApplicationExitExecutorAttemptEvidence =
    FastSuspensionCalled
  | NotStarted
  | AttemptExecuting
  | AttemptSafelySuspended
  | SuspensionCallFailed ApplicationExitDiagnostic
  | SuspensionIntentRecorded
  | AttemptTerminal

datatype ApplicationExitProducedWriteEvidence =
    WriteAcknowledged
  | WriteFailed ApplicationExitDiagnostic
  | WriteNone
  | WritePending

record ApplicationExitDrainSnapshot =
  ds_attempts :: "ApplicationExitExecutorAttemptEvidence list"
  ds_coordinatorLockHeld :: bool
  ds_fiberOpen :: bool
  ds_liveForwardOwnerCount :: nat
  ds_producedWrite :: ApplicationExitProducedWriteEvidence
  ds_reservationHeld :: bool
  ds_tick :: nat

definition applicationExitDiagnostics :: "ApplicationExitDrainSnapshot \<Rightarrow> ApplicationExitDiagnostic list" where
  "applicationExitDiagnostics s =
     concat (map (\<lambda>attempt. case attempt of SuspensionCallFailed d \<Rightarrow> [d] | _ \<Rightarrow> []) (ds_attempts s)) @
     (case ds_producedWrite s of WriteFailed d \<Rightarrow> [d] | _ \<Rightarrow> [])"

fun attemptHasUsefulQuickWork :: "ApplicationExitExecutorAttemptEvidence \<Rightarrow> bool" where
  "attemptHasUsefulQuickWork FastSuspensionCalled = True"
| "attemptHasUsefulQuickWork AttemptExecuting = True"
| "attemptHasUsefulQuickWork SuspensionIntentRecorded = True"
| "attemptHasUsefulQuickWork _ = False"

fun attemptIsSafe :: "ApplicationExitExecutorAttemptEvidence \<Rightarrow> bool" where
  "attemptIsSafe NotStarted = True"
| "attemptIsSafe AttemptSafelySuspended = True"
| "attemptIsSafe AttemptTerminal = True"
| "attemptIsSafe _ = False"

definition processLocalResourcesReleased :: "ApplicationExitDrainSnapshot \<Rightarrow> bool" where
  "processLocalResourcesReleased s \<longleftrightarrow> \<not> ds_reservationHeld s \<and> \<not> ds_fiberOpen s \<and> \<not> ds_coordinatorLockHeld s"

definition usefulQuickWorkRemains :: "ApplicationExitDrainSnapshot \<Rightarrow> bool" where
  "usefulQuickWorkRemains s \<longleftrightarrow>
     ds_liveForwardOwnerCount s > 0 \<or> list_ex attemptHasUsefulQuickWork (ds_attempts s) \<or>
     ds_producedWrite s = WritePending \<or> \<not> processLocalResourcesReleased s"

definition successBoundaryReached :: "ApplicationExitDrainSnapshot \<Rightarrow> bool" where
  "successBoundaryReached s \<longleftrightarrow>
     applicationExitDiagnostics s = [] \<and> ds_liveForwardOwnerCount s = 0 \<and> list_all attemptIsSafe (ds_attempts s) \<and>
     (ds_producedWrite s = WriteNone \<or> ds_producedWrite s = WriteAcknowledged) \<and> processLocalResourcesReleased s"

datatype ApplicationExitDrainDecision =
    ContinueDraining
  | DrainForceTimedOut ApplicationExitResult
  | ReportFailed ApplicationExitResult
  | ReportSucceeded ApplicationExitResult

definition decideApplicationExitDrain :: "ApplicationExitDrainSnapshot \<Rightarrow> ApplicationExitDrainDecision" where
  "decideApplicationExitDrain s =
     (let diagnostics = applicationExitDiagnostics s
      in if ds_tick s = finalApplicationExitDrainTick then DrainForceTimedOut (ExitTimedOut diagnostics)
         else if diagnostics \<noteq> [] \<and> \<not> usefulQuickWorkRemains s then ReportFailed (ExitFailed diagnostics)
         else if successBoundaryReached s then ReportSucceeded ExitSucceeded else ContinueDraining)"

datatype ApplicationExitTickDecision =
    AdvanceToTick nat
  | AlreadyTimedOut
  | TickForceTimedOut ApplicationExitResult nat

definition advanceApplicationExitTick :: "nat \<Rightarrow> ApplicationExitDiagnostic list \<Rightarrow> ApplicationExitTickDecision" where
  "advanceApplicationExitTick tick diagnostics =
     (if tick = finalApplicationExitDrainTick then AlreadyTimedOut
      else if tick = penultimateDrainTickValue then TickForceTimedOut (ExitTimedOut diagnostics) finalApplicationExitDrainTick
      else AdvanceToTick (tick + 1))"

datatype ApplicationProcessEndDecision = RequestForcedTermination nat | RequestGracefulTermination nat

definition decideApplicationProcessEnd :: "ApplicationExitResult \<Rightarrow> ApplicationProcessEndDecision" where
  "decideApplicationProcessEnd result =
     (case result of
        ExitFailed _ \<Rightarrow> RequestForcedTermination 1
      | ExitSucceeded \<Rightarrow> RequestGracefulTermination 0
      | ExitTimedOut _ \<Rightarrow> RequestForcedTermination 1)"

section \<open>Interleavings\<close>

text \<open>
  One step of any fiber. A boundary call moves through \<open>runInterruptibleBoundary\<close>: admitted, then either
  interrupted by the exit signal or answered, and an answer is recorded without interruption.
\<close>

inductive lifecycle_step :: "ApplicationExitLifecycleState \<Rightarrow> ApplicationExitLifecycleState \<Rightarrow> bool" where
  prepare: "prepareForwardOwner kind subject s = (x, s') \<Longrightarrow> lifecycle_step s s'"
| register: "ownerOf s ownerId = Some owner \<Longrightarrow>
    registerForwardOwner ownerId (fo_kind owner) (fo_subject owner) s = (b, s') \<Longrightarrow> lifecycle_step s s'"
| release: "lifecycle_step s (removeOwner ownerId s)"
| exit: "requestExit requestedAt s = (r, s') \<Longrightarrow> lifecycle_step s s'"
| call: "admitInterruptibleCall ownerId intent s = (b, s') \<Longrightarrow> lifecycle_step s s'"
| produced: "interruptibleSnapshot ownerId s = AwaitingBoundaryResult intent \<Longrightarrow>
    lifecycle_step s (updateInterruptibleBoundary ownerId (BoundaryResultProduced intent) s)"
| interrupted: "interruptibleSnapshot ownerId s = AwaitingBoundaryResult intent \<Longrightarrow> al_exitRequested s \<Longrightarrow>
    lifecycle_step s (updateInterruptibleBoundary ownerId (RecoverableAmbiguity intent) s)"
| recorded: "interruptibleSnapshot ownerId s = BoundaryResultProduced intent \<Longrightarrow>
    lifecycle_step s (updateInterruptibleBoundary ownerId (BoundaryResultRecorded intent) s)"

inductive_cases lifecycle_stepE: "lifecycle_step s s'"

end
