(* ===== verification/Exit_Properties.thy ===== *)
theory Exit_Properties
  imports Exit_Lifecycle
begin

text \<open>
  What the exit lifecycle guarantees under every interleaving: after the cutoff no owner is admitted and
  no boundary call starts, the drained signal is exact, a produced result is never dropped unrecorded,
  and the drain ends within five ticks.
\<close>

section \<open>State lemmas\<close>

lemma AList_update_empty [simp]: "AList.update k v xs \<noteq> []"
  by (induction xs) auto

lemma AList_delete_keys: "fst ` set (AList.delete k xs) = fst ` set xs - {k}"
  by (auto simp: AList.delete_eq)

lemma AList_update_known: "map_of xs k = Some w \<Longrightarrow> map fst (AList.update k v xs) = map fst xs"
  by (induction xs) (auto split: if_splits)

lemma owner_known: "ownerOf s ownerId = Some owner \<Longrightarrow> ownerId \<in> fst ` set (al_owners s)"
  unfolding ownerOf_def by (force dest: map_of_SomeD)

definition ownerIds :: "ApplicationExitLifecycleState \<Rightarrow> nat set" where
  "ownerIds s = fst ` set (al_owners s)"

lemma ownerIds_dom: "ownerIds s = {i. ownerOf s i \<noteq> None}"
  by (auto simp: ownerIds_def ownerOf_def dom_map_of_conv_image_fst [symmetric])

text \<open>The invariant of the shared state.\<close>

definition lifecycleInvariant :: "ApplicationExitLifecycleState \<Rightarrow> bool" where
  "lifecycleInvariant s \<longleftrightarrow>
     distinct (map fst (al_owners s)) \<and> (\<forall>i\<in>ownerIds s. i < al_nextOwnerId s) \<and>
     al_exitRequested s = isExiting (al_phase s) \<and>
     al_forwardOwnersReleased s = (isExiting (al_phase s) \<and> al_owners s = []) \<and>
     (\<forall>i intent. interruptibleSnapshot i s = RecoverableAmbiguity intent \<longrightarrow> isExiting (al_phase s)) \<and>
     (\<forall>i owner b. ownerOf s i = Some owner \<longrightarrow> fo_phase owner = RegisteredInterruptible b \<longrightarrow> fo_kind owner = InterruptibleBoundary)"

lemma ownerOf_update: "ownerOf (s\<lparr>al_owners := AList.update k v (al_owners s)\<rparr>) i = (if i = k then Some v else ownerOf s i)"
  by (simp add: ownerOf_def update_conv')

lemma ownerOf_delete: "ownerOf (s\<lparr>al_owners := AList.delete k (al_owners s)\<rparr>) i =
    (if i = k then None else ownerOf s i)"
  by (simp add: ownerOf_def delete_conv')

lemma ownerOf_fields [simp]:
  "ownerOf (s\<lparr>al_nextOwnerId := n\<rparr>) = ownerOf s" "ownerOf (s\<lparr>al_phase := p\<rparr>) = ownerOf s"
  "ownerOf (s\<lparr>al_exitRequested := b\<rparr>) = ownerOf s" "ownerOf (s\<lparr>al_forwardOwnersReleased := b\<rparr>) = ownerOf s"
  by (simp_all add: ownerOf_def fun_eq_iff)

lemma initialLifecycle_invariant: "lifecycleInvariant initialLifecycle"
  by (simp add: lifecycleInvariant_def initialLifecycle_def ownerIds_def interruptibleSnapshot_def ownerOf_def)

text \<open>A changed owner record keeps the invariant when its new phase is one its kind allows.\<close>

lemma invariant_update:
  assumes inv: "lifecycleInvariant s" and known: "ownerOf s k = Some owner"
    and kind: "\<And>b. fo_phase v = RegisteredInterruptible b \<Longrightarrow> fo_kind v = InterruptibleBoundary"
    and ambiguous: "\<And>intent. fo_phase v = RegisteredInterruptible (RecoverableAmbiguity intent) \<Longrightarrow> isExiting (al_phase s)"
  shows "lifecycleInvariant (s\<lparr>al_owners := AList.update k v (al_owners s)\<rparr>)"
proof -
  from known have keys: "map fst (AList.update k v (al_owners s)) = map fst (al_owners s)"
    unfolding ownerOf_def by (rule AList_update_known)
  then have "fst ` set (AList.update k v (al_owners s)) = fst ` set (al_owners s)"
    by (metis list.set_map)
  moreover from known have "al_owners s \<noteq> []" by (auto simp: ownerOf_def)
  ultimately show ?thesis
    using inv kind ambiguous unfolding lifecycleInvariant_def
    by (auto simp: keys ownerIds_def ownerOf_update interruptibleSnapshot_def split: ForwardOwnerPhase.splits)
qed

lemma prepare_invariant:
  assumes "lifecycleInvariant s" "prepareForwardOwner kind subject s = (x, s')"
  shows "lifecycleInvariant s'"
proof (cases "isExiting (al_phase s)")
  case False
  let ?new = "\<lparr>fo_subject = subject, fo_kind = kind, fo_phase = Preparing\<rparr>"
  have s': "s' = s\<lparr>al_nextOwnerId := Suc (al_nextOwnerId s), al_owners := AList.update (al_nextOwnerId s) ?new (al_owners s)\<rparr>"
    using assms(2) False by (simp add: prepareForwardOwner_def)
  have owners: "ownerOf s' i = (if i = al_nextOwnerId s then Some ?new else ownerOf s i)" for i
    by (simp add: s' ownerOf_def update_conv')
  have "ownerIds s' = insert (al_nextOwnerId s) (ownerIds s)"
    unfolding ownerIds_dom by (auto simp: owners)
  moreover have "al_phase s' = al_phase s" "al_exitRequested s' = al_exitRequested s" "al_owners s' \<noteq> []"
    "al_forwardOwnersReleased s' = al_forwardOwnersReleased s" "al_nextOwnerId s' = Suc (al_nextOwnerId s)"
    "distinct (map fst (al_owners s)) \<Longrightarrow> distinct (map fst (al_owners s'))"
    by (simp_all add: s' distinct_update)
  ultimately show ?thesis
    using assms(1) False unfolding lifecycleInvariant_def
    by (auto simp: owners interruptibleSnapshot_def less_Suc_eq split: if_splits)
qed (use assms in \<open>simp add: prepareForwardOwner_def\<close>)

lemma remove_invariant: "lifecycleInvariant s \<Longrightarrow> lifecycleInvariant (removeOwner k s)"
proof (cases "ownerOf s k")
  case (Some owner)
  assume inv: "lifecycleInvariant s"
  from Some have "al_owners s \<noteq> []" by (auto simp: ownerOf_def)
  with inv Some show ?thesis
    unfolding lifecycleInvariant_def
    by (auto simp: removeOwner_def Let_def ownerIds_def AList_delete_keys interruptibleSnapshot_def ownerOf_delete distinct_delete
        split: if_splits)
qed (simp add: removeOwner_def)

lemma exit_invariant: "lifecycleInvariant s \<Longrightarrow> requestExit t s = (r, s') \<Longrightarrow> lifecycleInvariant s'"
  by (cases "al_phase s") (auto simp: requestExit_def lifecycleInvariant_def ownerIds_dom interruptibleSnapshot_def)

lemma snapshot_owner:
  "interruptibleSnapshot k s = b \<Longrightarrow> b \<noteq> NoBoundaryCall \<Longrightarrow>
   \<exists>owner. ownerOf s k = Some owner \<and> fo_phase owner = RegisteredInterruptible b"
  by (auto simp: interruptibleSnapshot_def split: option.splits ForwardOwnerPhase.splits)

lemma update_boundary_invariant:
  assumes inv: "lifecycleInvariant s" and snap: "interruptibleSnapshot k s = b" "b \<noteq> NoBoundaryCall"
    and ambiguous: "\<And>intent. b' = RecoverableAmbiguity intent \<Longrightarrow> isExiting (al_phase s)"
  shows "lifecycleInvariant (updateInterruptibleBoundary k b' s)"
proof -
  obtain owner where owner: "ownerOf s k = Some owner" "fo_phase owner = RegisteredInterruptible b"
    using snapshot_owner [OF snap] by blast
  with inv have "fo_kind owner = InterruptibleBoundary" by (auto simp: lifecycleInvariant_def)
  with owner invariant_update [OF inv owner(1), of "owner\<lparr>fo_phase := RegisteredInterruptible b'\<rparr>"] ambiguous
  show ?thesis by (simp add: updateInterruptibleBoundary_def)
qed

lemma lifecycle_step_invariant:
  assumes step: "lifecycle_step s s'" and inv: "lifecycleInvariant s"
  shows "lifecycleInvariant s'"
  using step
proof cases
  case (register ownerId owner b)
  then show ?thesis
    using inv by (auto simp: registerForwardOwner_def split: if_splits intro!: invariant_update [OF inv])
next
  case (call ownerId intent b)
  have kinds: "fo_kind owner = InterruptibleBoundary"
    if "ownerOf s ownerId = Some owner" "fo_phase owner = RegisteredInterruptible c" for owner c
    using inv that by (simp add: lifecycleInvariant_def)
  from call inv show ?thesis
    by (auto simp: admitInterruptibleCall_def kinds
        split: option.splits ForwardOwnerPhase.splits if_splits intro!: invariant_update [OF inv])
next
  case (interrupted ownerId intent)
  moreover from inv interrupted(3) have "isExiting (al_phase s)" by (simp add: lifecycleInvariant_def)
  ultimately show ?thesis using update_boundary_invariant [OF inv] by simp
next
  case (prepare kind subject x)
  then show ?thesis by (blast intro: prepare_invariant [OF inv])
next
  case (release ownerId)
  then show ?thesis by (simp add: remove_invariant [OF inv])
next
  case (exit requestedAt r)
  then show ?thesis by (blast intro: exit_invariant [OF inv])
next
  case (produced ownerId intent)
  with update_boundary_invariant [OF inv produced(2), of "BoundaryResultProduced intent"] show ?thesis by simp
next
  case (recorded ownerId intent)
  with update_boundary_invariant [OF inv recorded(2), of "BoundaryResultRecorded intent"] show ?thesis by simp
qed

lemma lifecycle_reachable_invariant: "lifecycle_step\<^sup>*\<^sup>* initialLifecycle s \<Longrightarrow> lifecycleInvariant s"
  by (induction rule: rtranclp_induct) (auto intro: initialLifecycle_invariant lifecycle_step_invariant)

section \<open>After the cutoff\<close>

text \<open>What one step may do once the cutoff is closed: owners leave, calls settle, nothing starts.\<close>

definition draining :: "ApplicationExitLifecycleState \<Rightarrow> ApplicationExitLifecycleState \<Rightarrow> bool" where
  "draining s s' \<longleftrightarrow>
     al_phase s' = al_phase s \<and> al_nextOwnerId s' = al_nextOwnerId s \<and> ownerIds s' \<subseteq> ownerIds s \<and>
     (\<forall>i. map_option fo_phase (ownerOf s i) = Some Preparing \<longrightarrow>
        map_option fo_phase (ownerOf s' i) \<in> {None, Some Preparing}) \<and>
     (\<forall>i intent. interruptibleSnapshot i s' = AwaitingBoundaryResult intent \<longrightarrow>
        interruptibleSnapshot i s = AwaitingBoundaryResult intent)"

lemma draining_refl [simp]: "draining s s"
  by (auto simp: draining_def)

lemma draining_trans: "draining s t \<Longrightarrow> draining t u \<Longrightarrow> draining s u"
  unfolding draining_def ownerIds_dom by (auto 5 5)

lemma draining_remove: "draining s (removeOwner k s)"
  by (cases "ownerOf s k")
    (auto simp: draining_def removeOwner_def Let_def ownerIds_def AList_delete_keys ownerOf_delete interruptibleSnapshot_def
      split: if_splits)

lemma draining_update:
  assumes "interruptibleSnapshot k s = b" "b \<noteq> NoBoundaryCall" "\<And>intent. b' \<noteq> AwaitingBoundaryResult intent"
  shows "draining s (updateInterruptibleBoundary k b' s)"
proof -
  obtain owner where owner: "ownerOf s k = Some owner" "fo_phase owner = RegisteredInterruptible b"
    using snapshot_owner [OF assms(1,2)] by blast
  then have "updateInterruptibleBoundary k b' s =
      s\<lparr>al_owners := AList.update k (owner\<lparr>fo_phase := RegisteredInterruptible b'\<rparr>) (al_owners s)\<rparr>"
    by (simp add: updateInterruptibleBoundary_def)
  then show ?thesis
    using owner assms(3) by (auto simp: draining_def ownerIds_dom ownerOf_update interruptibleSnapshot_def split: if_splits)
qed

lemma exiting_step_draining:
  assumes "lifecycle_step s s'" and exiting: "isExiting (al_phase s)"
  shows "draining s s'"
  using assms(1)
proof cases
  case (exit requestedAt r)
  with exiting show ?thesis by (cases "al_phase s") (auto simp: requestExit_def)
next
  case (call ownerId intent b)
  with exiting show ?thesis by (auto simp: admitInterruptibleCall_def split: option.splits ForwardOwnerPhase.splits)
qed (use exiting draining_remove draining_update in \<open>auto simp: prepareForwardOwner_def registerForwardOwner_def\<close>)

lemma exiting_steps_draining:
  "lifecycle_step\<^sup>*\<^sup>* s s' \<Longrightarrow> isExiting (al_phase s) \<Longrightarrow> draining s s'"
proof (induction rule: rtranclp_induct)
  case (step t u)
  then have "isExiting (al_phase t)" by (simp add: draining_def)
  with step show ?case by (blast intro: draining_trans exiting_step_draining)
qed simp

section \<open>Draining\<close>

fun releaseOwners :: "nat list \<Rightarrow> ApplicationExitLifecycleState \<Rightarrow> ApplicationExitLifecycleState" where
  "releaseOwners [] s = s"
| "releaseOwners (k # ks) s = releaseOwners ks (removeOwner k s)"

lemma ownerIds_remove: "ownerIds (removeOwner k s) = ownerIds s - {k}"
  by (cases "ownerOf s k") (auto simp: removeOwner_def Let_def ownerIds_dom ownerOf_delete split: if_splits)

lemma ownerIds_releaseOwners: "ownerIds (releaseOwners ks s) = ownerIds s - set ks"
  by (induction ks arbitrary: s) (auto simp: ownerIds_remove)

lemma phase_remove: "al_phase (removeOwner k s) = al_phase s"
  by (auto simp: removeOwner_def Let_def split: option.splits)

lemma releaseOwners_steps: "lifecycle_step\<^sup>*\<^sup>* s (releaseOwners ks s)"
  by (induction ks arbitrary: s) (auto intro: lifecycle_step.release converse_rtranclp_into_rtranclp)

lemma releaseOwners_phase: "al_phase (releaseOwners ks s) = al_phase s"
  by (induction ks arbitrary: s) (auto simp: phase_remove)

section \<open>Cleanup calls\<close>

text \<open>The ordinals a call can carry (\<open>CompletionClaimRequestOrdinal\<close>), and how many calls its cleanup has left, itself included.\<close>

fun callOrdinal :: "CompletionClaimCleanupBoundaryCall \<Rightarrow> nat option" where
  "callOrdinal (ConfirmOriginalClaimReleased n _) = Some n"
| "callOrdinal (ConfirmNoActiveClaimAfterMarkerAbsent n _) = Some n"
| "callOrdinal (ReadBeforeDeletionAttempt n _) = Some n"
| "callOrdinal (DeleteAttempt n) = Some n"
| "callOrdinal (ReadAfterDeletionAttemptsExhausted n _) = Some n"
| "callOrdinal _ = None"

definition validCleanupCall :: "CompletionClaimCleanupBoundaryCall \<Rightarrow> bool" where
  "validCleanupCall call \<longleftrightarrow> (case callOrdinal call of None \<Rightarrow> True | Some n \<Rightarrow> 1 \<le> n \<and> n \<le> completionClaimRequestLimit)"

fun cleanupRank :: "CompletionClaimCleanupBoundaryCall \<Rightarrow> nat" where
  "cleanupRank (ReadBeforeOriginalClaimRelease _) = 13"
| "cleanupRank ReleaseOriginalClaim = 12"
| "cleanupRank (ReadBeforeDeletionAttempt n _) = 14 - 3 * n"
| "cleanupRank (ConfirmOriginalClaimReleased n _) = 13 - 3 * n"
| "cleanupRank (DeleteAttempt n) = 12 - 3 * n"
| "cleanupRank (ReadAfterDeletionAttemptsExhausted _ _) = 2"
| "cleanupRank (ConfirmNoActiveClaimAfterMarkerAbsent _ _) = 1"

lemma matchCleanupCall_rank:
  assumes "matchCleanupCall previous next" "validCleanupCall previous" "validCleanupCall next"
  shows "cleanupRank next < cleanupRank previous"
  using assms by (cases previous; cases "next") (auto simp: validCleanupCall_def completionClaimRequestLimit_def
      beginsCompletionMarkerDeletion_def followsMarkerRead_def followsMarkerAbsenceRead_def followsMarkerDelete_def)

lemma cleanup_chain_bounded:
  "successively matchCleanupCall (call # calls) \<Longrightarrow> list_all validCleanupCall (call # calls) \<Longrightarrow>
   length calls < cleanupRank call"
proof (induction calls arbitrary: call)
  case Nil
  then show ?case by (cases call) (auto simp: validCleanupCall_def completionClaimRequestLimit_def)
next
  case (Cons c calls)
  then have "length calls < cleanupRank c" by (intro Cons.IH) simp_all
  with Cons.prems matchCleanupCall_rank [of call c] show ?case by auto
qed

section \<open>Properties\<close>


definition demoOwner :: ApplicationExitLifecycleState where
  "demoOwner = snd (acquireForwardOwner InterruptibleBoundary NoRun initialLifecycle)"

definition demoCalling :: ApplicationExitLifecycleState where
  "demoCalling = snd (admitInterruptibleCall 0 (AuthorityRequest FamilyGit ''op'') demoOwner)"

definition demoExiting :: ApplicationExitLifecycleState where
  "demoExiting = snd (requestExit 7 demoCalling)"

lemmas demo_exit_defs = demoExiting_def demoCalling_def demoOwner_def initialLifecycle_def acquireForwardOwner_def
  prepareForwardOwner_def registerForwardOwner_def admitInterruptibleCall_def requestExit_def ownerOf_def

lemma demo_value:
  "demoExiting = \<lparr>al_nextOwnerId = 1, al_owners = [(0, \<lparr>fo_subject = NoRun, fo_kind = InterruptibleBoundary,
      fo_phase = RegisteredInterruptible (AwaitingBoundaryResult (AuthorityRequest FamilyGit ''op''))\<rparr>)],
     al_phase = Exiting 7, al_exitRequested = True, al_forwardOwnersReleased = False\<rparr>"
  by (simp add: demo_exit_defs)

lemma demo_reachable: "lifecycle_step\<^sup>*\<^sup>* initialLifecycle demoExiting"
proof -
  let ?p = "snd (prepareForwardOwner InterruptibleBoundary NoRun initialLifecycle)"
  have "lifecycle_step initialLifecycle ?p" by (rule lifecycle_step.prepare [OF prod.collapse [symmetric]])
  moreover have "lifecycle_step ?p demoOwner"
    by (rule lifecycle_step.register [where ownerId = 0 and b = True
          and owner = "\<lparr>fo_subject = NoRun, fo_kind = InterruptibleBoundary, fo_phase = Preparing\<rparr>"])
      (simp_all add: demo_exit_defs)
  moreover have "lifecycle_step demoOwner demoCalling"
    unfolding demoCalling_def by (rule lifecycle_step.call [OF prod.collapse [symmetric]])
  moreover have "lifecycle_step demoCalling demoExiting"
    unfolding demoExiting_def by (rule lifecycle_step.exit [OF prod.collapse [symmetric]])
  ultimately show ?thesis by (meson converse_rtranclp_into_rtranclp rtranclp.rtrancl_refl)
qed


text \<open>
  C30. The cutoff is final: whatever fibers do after the first exit request, the phase and its cutoff time stay, no owner is
  added, no preparation becomes a registration, no boundary call starts, every new preparation and registration is
  refused, and a later exit request joins the first one's cutoff.
\<close>

theorem exit_cutoff_final:
  assumes "lifecycle_step\<^sup>*\<^sup>* s s'" and "al_phase s = Exiting cutoff"
  shows "draining s s' \<and> al_phase s' = Exiting cutoff \<and> fst (acquireForwardOwner kind subject s') = None \<and>
    fst (admitInterruptibleCall ownerId intent s') = False \<and> \<not> mayEnterAtomicBoundary ownerId s' \<and>
    requestExit t s' = ((cutoff, False), s')"
proof -
  from assms have drain: "draining s s'" by (intro exiting_steps_draining) simp_all
  then have "al_phase s' = Exiting cutoff" using assms(2) by (simp add: draining_def)
  with drain show ?thesis
    by (auto simp: acquireForwardOwner_def prepareForwardOwner_def admitInterruptibleCall_def mayEnterAtomicBoundary_def
        requestExit_def split: option.split ForwardOwnerPhase.split)
qed

theorem exit_cutoff_final_witness:
  "al_phase demoExiting = Exiting 7 \<and> draining demoExiting (removeOwner 0 demoExiting) \<and>
   fst (acquireForwardOwner RunActivation NoRun (removeOwner 0 demoExiting)) = None"
proof -
  have phase: "al_phase demoExiting = Exiting 7" by (simp add: demo_value)
  have "lifecycle_step\<^sup>*\<^sup>* demoExiting (removeOwner 0 demoExiting)" by (blast intro: lifecycle_step.release)
  from exit_cutoff_final [OF this phase] phase show ?thesis by blast
qed

text \<open>
  Once exiting, releasing the owners that are still registered always reaches the drained signal, and no
  state before the last release has it: the drain can neither be missed nor reported early.
\<close>

lemma exit_drain_completes:
  assumes "lifecycle_step\<^sup>*\<^sup>* initialLifecycle s" and "isExiting (al_phase s)"
  shows "lifecycle_step\<^sup>*\<^sup>* s (releaseOwners (map fst (al_owners s)) s) \<and>
    al_forwardOwnersReleased (releaseOwners (map fst (al_owners s)) s) \<and>
    al_forwardOwnersReleased s = (ownerIds s = {})"
proof -
  let ?t = "releaseOwners (map fst (al_owners s)) s"
  have steps: "lifecycle_step\<^sup>*\<^sup>* s ?t" by (rule releaseOwners_steps)
  then have inv: "lifecycleInvariant ?t" using assms(1) by (blast intro: lifecycle_reachable_invariant rtranclp_trans)
  have "ownerIds ?t = {}" by (auto simp: ownerIds_releaseOwners) (auto simp: ownerIds_def)
  then have "al_owners ?t = []" by (simp add: ownerIds_def)
  with inv assms(2) have "al_forwardOwnersReleased ?t"
    by (simp add: lifecycleInvariant_def releaseOwners_phase ownerIds_def)
  moreover have "al_forwardOwnersReleased s = (ownerIds s = {})"
    using lifecycle_reachable_invariant [OF assms(1)] assms(2) by (simp add: lifecycleInvariant_def ownerIds_def)
  ultimately show ?thesis using steps by blast
qed

lemma exit_drain_completes_witness:
  "isExiting (al_phase demoExiting) \<and> al_forwardOwnersReleased (releaseOwners (map fst (al_owners demoExiting)) demoExiting) \<and>
   \<not> al_forwardOwnersReleased demoExiting"
proof -
  have "isExiting (al_phase demoExiting)" by (simp add: demo_value)
  with exit_drain_completes [OF demo_reachable] show ?thesis by (simp add: demo_value ownerIds_def)
qed

text \<open>
  The drain's decision: at the fifth tick it is always the forced timeout; before it, success is reported exactly when
  nothing failed and nothing is held, a failure only when a diagnostic exists and no quick work is left, and never both;
  five advances of the tick reach the timeout from the start.
\<close>

definition exitTick :: "ApplicationExitTickDecision \<Rightarrow> nat" where
  "exitTick d = (case d of AdvanceToTick t \<Rightarrow> t | AlreadyTimedOut \<Rightarrow> finalApplicationExitDrainTick | TickForceTimedOut _ t \<Rightarrow> t)"

theorem exit_drain_decision:
  "(ds_tick s = finalApplicationExitDrainTick \<longrightarrow>
      decideApplicationExitDrain s = DrainForceTimedOut (ExitTimedOut (applicationExitDiagnostics s))) \<and>
   (decideApplicationExitDrain s = ReportSucceeded ExitSucceeded \<longleftrightarrow>
      ds_tick s \<noteq> finalApplicationExitDrainTick \<and> successBoundaryReached s) \<and>
   (decideApplicationExitDrain s = ReportFailed r \<longleftrightarrow>
      ds_tick s \<noteq> finalApplicationExitDrainTick \<and> applicationExitDiagnostics s \<noteq> [] \<and> \<not> usefulQuickWorkRemains s \<and>
      r = ExitFailed (applicationExitDiagnostics s)) \<and>
   ((\<lambda>t. exitTick (advanceApplicationExitTick t diagnostics)) ^^ 5) initialApplicationExitDrainTick = finalApplicationExitDrainTick"
  by (auto simp: decideApplicationExitDrain_def Let_def successBoundaryReached_def eval_nat_numeral exitTick_def
      advanceApplicationExitTick_def finalApplicationExitDrainTick_def applicationExitDrainLimitSeconds_def
      penultimateDrainTickValue_def initialApplicationExitDrainTick_def)

definition demoSnapshot :: ApplicationExitDrainSnapshot where
  "demoSnapshot = \<lparr>ds_attempts = [SuspensionCallFailed ''stuck''], ds_coordinatorLockHeld = False, ds_fiberOpen = False,
     ds_liveForwardOwnerCount = 0, ds_producedWrite = WriteNone, ds_reservationHeld = False, ds_tick = 5\<rparr>"

theorem exit_drain_decision_witness:
  "decideApplicationExitDrain demoSnapshot = DrainForceTimedOut (ExitTimedOut [''stuck''])"
  using exit_drain_decision [of demoSnapshot]
  by (simp add: demoSnapshot_def finalApplicationExitDrainTick_def applicationExitDrainLimitSeconds_def applicationExitDiagnostics_def)

text \<open>
  One completion-claim cleanup crosses its interruptible boundary at most thirteen times: every sequence of calls in which
  each continues the one before it, with ordinals inside the three-attempt limit, is that short.
\<close>

lemma cleanup_calls_bounded:
  assumes "successively continuesCompletionClaimCleanup (map CompletionClaimCleanup intents)"
    and "list_all (\<lambda>i. validCleanupCall (ci_call i)) intents"
  shows "length intents \<le> 13"
proof (cases intents)
  case (Cons i rest)
  have "successively matchCleanupCall (map ci_call intents)"
    using assms(1) by (auto simp: successively_map elim!: successively_mono)
  with cleanup_chain_bounded [of "ci_call i" "map ci_call rest"] assms(2) Cons have "length rest < cleanupRank (ci_call i)"
    by (simp add: list_all_iff)
  moreover have "cleanupRank (ci_call i) \<le> 13" using assms(2) Cons
    by (cases "ci_call i") (auto simp: validCleanupCall_def)
  ultimately show ?thesis using Cons by simp
qed simp

definition demoCleanup :: "CompletionClaimCleanupBoundaryCall \<Rightarrow> CleanupIntent" where
  "demoCleanup call = \<lparr>ci_call = call, ci_replacementOperationId = ''r'', ci_request =
     \<lparr>cd_operationId = ''d'', cd_claim = ''c'', cd_successObservation = ''s''\<rparr>\<rparr>"

lemma cleanup_calls_bounded_witness:
  "length (map demoCleanup [ReadBeforeOriginalClaimRelease 1, ReleaseOriginalClaim, ReadBeforeDeletionAttempt 1 2,
     ConfirmOriginalClaimReleased 1 3, DeleteAttempt 1]) \<le> 13"
  by (rule cleanup_calls_bounded)
    (simp_all add: demoCleanup_def sequenceIdFor_def beginsCompletionMarkerDeletion_def followsMarkerRead_def validCleanupCall_def
      completionClaimRequestLimit_def)

end
