(* ===== verification/Journal_Properties.thy ===== *)
theory Journal_Properties
  imports Journal_Laws
begin

text \<open>
  What the run journal promises its callers: the properties of the memory store, each on every
  state the store can reach, with concrete runs that show the hypotheses can hold.
\<close>

section \<open>A concrete run\<close>

text \<open>
  Rules under which every history reduces to itself and no termination is refused, and one run
  taken through its whole life: begun, extended, terminated, retired and deleted for age.
\<close>

definition openRules :: HistoryRules where
  "openRules = \<lparr>hr_reduce = (\<lambda>_ rs. Inr rs), hr_terminationIssue = (\<lambda>_ _ _ _ _. None), hr_recordTextBytes = (\<lambda>_. 100)\<rparr>"

definition demoBeginning :: WorkflowRunBeganFields where
  "demoBeginning = \<lparr>rb_attemptBasePolicy = None, rb_taskExecutionCapacity = 2,
     rb_remotePublicationTarget = \<lparr>rt_branch = ''refs/heads/main'', rt_endpoint = ''git@example.org:r''\<rparr>,
     rb_target = FixtureTarget ''t''\<rparr>"

definition demoEvidence :: RunFinalityEvidence where
  "demoEvidence = \<lparr>fe_complete = True, fe_coverageTarget = FixtureTarget ''t'', fe_coverageTaskIds = [],
     fe_contentIdentity = ''c'', fe_graphOutcome = AllTasksSucceeded, fe_operationId = ''o'', fe_readShapeTaskIds = [],
     fe_requiredFactFamilies = [], fe_rootTaskId = ''root'', fe_runId = ''run'', fe_blockedTaskIds = [],
     fe_target = FixtureTarget ''t'', fe_terminalTaskIds = [], fe_observedAt = 2\<rparr>"

definition demoBegun :: MemoryJournalState where
  "demoBegun = snd (memoryBeginRun openRules emptyMemoryJournalState ''run'' demoBeginning)"

definition demoAppended :: MemoryJournalState where
  "demoAppended = snd (memoryAppendTransition openRules demoBegun ''run'' ''k'' (OtherWorkflowEvent ''E'' ''p''))"

definition demoTerminated :: MemoryJournalState where
  "demoTerminated = snd (memoryTerminationTransition openRules demoAppended ''run'' RunCompleted demoEvidence (Known 7))"

definition demoRetired :: MemoryJournalState where
  "demoRetired = snd (memoryRetireTerminalRun openRules demoTerminated ''run'')"

lemmas store_steps_by_result =
  store_step.begin_step [OF prod.collapse [symmetric]] store_step.append_step [OF prod.collapse [symmetric]]
  store_step.terminate_step [OF prod.collapse [symmetric]] store_step.retire_step [OF prod.collapse [symmetric]]
  store_step.remove_step [OF prod.collapse [symmetric]]

lemma demo_begun_step: "store_step openRules emptyMemoryJournalState demoBegun"
  unfolding demoBegun_def by (rule store_steps_by_result)

lemma demo_appended_step: "store_step openRules demoBegun demoAppended"
  unfolding demoAppended_def by (rule store_steps_by_result) (simp_all add: workflowRunTerminatedRecordKey_def)

lemma demo_terminated_step: "store_step openRules demoAppended demoTerminated"
  unfolding demoTerminated_def by (rule store_steps_by_result)

lemma demo_retired_step: "store_step openRules demoTerminated demoRetired"
  unfolding demoRetired_def by (rule store_steps_by_result)

lemmas demo_steps = demo_begun_step demo_appended_step demo_terminated_step demo_retired_step

lemma demo_begun_reachable: "store_reachable openRules demoBegun"
  by (rule store_reachable.step [OF store_reachable.initial demo_begun_step])

lemma demo_appended_reachable: "store_reachable openRules demoAppended"
  by (rule store_reachable.step [OF demo_begun_reachable demo_appended_step])

lemma demo_terminated_reachable: "store_reachable openRules demoTerminated"
  by (rule store_reachable.step [OF demo_appended_reachable demo_terminated_step])

lemma demo_retired_reachable: "store_reachable openRules demoRetired"
  by (rule store_reachable.step [OF demo_terminated_reachable demo_retired_step])

section \<open>Helpers\<close>

lemma reachable_wellFormed: "store_reachable rules s \<Longrightarrow> storeWellFormed s"
  using store_reachable_invariant by (auto simp: storeInvariant_def)

lemma reachable_not_both: "store_reachable rules s \<Longrightarrow> \<not> inBothPartitions s runId"
  using reachable_wellFormed by (fastforce simp: storeWellFormed_def inBothPartitions_def)

lemma reachable_live_records:
  assumes "store_reachable rules s" "map_of (ms_completions s) runId = None"
  shows "\<forall>r\<in>set (runRecords s runId). \<not> isTerminatedEvent (jr_event r)"
  using store_reachable_invariant [OF assms(1)] assms(2) unfolding storeInvariant_def receiptsMatch_def by fastforce

lemma reachable_live_decision:
  assumes "store_reachable rules s" "map_of (ms_completions s) runId = None"
  shows "decideMemoryCompletion rules s runId op = Inr (NoCompletion runId)"
  using reachable_not_both [OF assms(1), of runId] reachable_live_records [OF assms] assms(2)
  by (auto simp: decideMemoryCompletion_def inBothPartitions_def Let_def split: option.splits dest: latest_SomeD)

lemma reachable_receipt_decision:
  assumes "store_reachable rules s" "map_of (ms_completions s) runId = Some c"
  shows "decideMemoryCompletion rules s runId op = Inr (CompletedRunAvailable c) \<or>
         (\<exists>d. decideMemoryCompletion rules s runId op = Inr (CompletedRunDeleted c d))"
proof (cases "map_of (ms_deletions s) runId")
  case None
  with decideMemoryCompletion_available [OF store_reachable_invariant] assms show ?thesis by blast
next
  case (Some d)
  from decideMemoryCompletion_deleted [OF store_reachable_invariant [OF assms(1)] Some, of rules op] assms(2)
  show ?thesis by auto
qed

lemma reachable_append:
  assumes "store_reachable rules s" "map_of (ms_completions s) runId = None" "map_of (ms_coldRecordsByRun s) runId = None"
  shows "memoryAppendTransition rules s runId key event =
    (case List.find (\<lambda>r. jr_key r = key) (runRecords s runId) of
       Some existing \<Rightarrow>
         if jr_event existing = event then (Inr existing, s)
         else (Inl (JournalStoreContradiction runId key (jr_position existing)), s)
     | None \<Rightarrow>
         (Inr (nextRecord runId key event (runRecords s runId)),
          s\<lparr>ms_hotRecordsByRun := AList.update runId
              (runRecords s runId @ [nextRecord runId key event (runRecords s runId)]) (ms_hotRecordsByRun s)\<rparr>))"
proof -
  from reachable_live_records [OF assms(1,2)] have "List.find (\<lambda>r. isTerminatedEvent (jr_event r)) (runRecords s runId) = None"
    by (simp add: find_eq_None_iff)
  with reachable_live_decision [OF assms(1,2)] reachable_not_both [OF assms(1), of runId] assms(3) show ?thesis
    by (simp add: memoryAppendTransition_def existingMemoryAppendTransition_def nextRecord_def Let_def split: option.split)
qed

lemma find_key_unique:
  assumes "wellFormedHistory runId rs" "r \<in> set rs"
  shows "List.find (\<lambda>x. jr_key x = jr_key r) rs = Some r"
proof (cases "List.find (\<lambda>x. jr_key x = jr_key r) rs")
  case None
  with assms(2) show ?thesis by (auto simp: find_eq_None_iff)
next
  case (Some x)
  with find_SomeD [OF Some] wellFormedHistory_key_unique [OF assms(1) _ assms(2)] show ?thesis by simp
qed

lemma append_accepted_live:
  assumes "store_reachable rules s" "memoryAppendTransition rules s runId key event = (Inr r, s')"
  shows "map_of (ms_completions s) runId = None \<and> map_of (ms_coldRecordsByRun s) runId = None \<and>
    map_of (ms_completions s') runId = None \<and> map_of (ms_coldRecordsByRun s') runId = None \<and>
    r \<in> set (runRecords s' runId) \<and> jr_key r = key \<and> jr_event r = event \<and> prefix (runRecords s runId) (runRecords s' runId)"
  using assms(2)
  by (cases rule: memoryAppend_cases) (auto dest: decideMemoryCompletion_open)

section \<open>Properties\<close>

text \<open>
  C9. In every state the store can reach, a run's records are numbered 1, 2, 3, ... without a gap
  under pairwise different keys, a run is never in both partitions, only the last record can be
  the terminal one, and the completion receipt of a run whose rows are still stored is exactly the
  one that a full re-read of its rows gives.
\<close>

theorem reachable_store_sound:
  assumes "store_reachable rules s"
  shows "map jr_position (runRecords s runId) = [1..<Suc (length (runRecords s runId))] \<and>
    distinct (map jr_key (runRecords s runId)) \<and>
    \<not> inBothPartitions s runId \<and>
    (\<forall>r\<in>set (butlast (runRecords s runId)). \<not> isTerminatedEvent (jr_event r)) \<and>
    (\<forall>c. map_of (ms_completions s) runId = Some c \<longrightarrow> map_of (ms_deletions s) runId = None \<longrightarrow>
       compactRunCompletion runId (runRecords s runId) (co_timing c) = Some c)"
proof -
  note inv = store_reachable_invariant [OF assms]
  then have "wellFormedHistory runId (runRecords s runId)"
    by (auto simp: storeInvariant_def intro: storeWellFormed_runRecords)
  with inv reachable_not_both [OF assms] show ?thesis
    by (auto simp: storeInvariant_def terminalLast_def receiptsMatch_def wellFormedHistory_def simp del: upt_Suc)
qed

theorem reachable_store_sound_witness:
  "length (runRecords demoRetired ''run'') = 3 \<and>
   map jr_position (runRecords demoRetired ''run'') = [1..<Suc (length (runRecords demoRetired ''run''))] \<and>
   (\<exists>c. map_of (ms_completions demoRetired) ''run'' = Some c \<and>
        compactRunCompletion ''run'' (runRecords demoRetired ''run'') (co_timing c) = Some c)"
proof -
  have l: "length (runRecords demoRetired ''run'') = 3" by code_simp
  have d: "map_of (ms_deletions demoRetired) ''run'' = None" by code_simp
  have c: "map_of (ms_completions demoRetired) ''run'' =
      Some \<lparr>co_runId = ''run'', co_target = FixtureTarget ''t'', co_disposition = RunCompleted, co_terminatedAt = 3,
            co_timing = Known 7, co_publication = NoRecordedPublication\<rparr>" by code_simp
  show ?thesis
    using reachable_store_sound [OF demo_retired_reachable, of "''run''"] l c d by blast
qed

text \<open>
  C20. Journal histories are append-only. Along any sequence of operations the records a run had
  stay a prefix of the records it has, until, and only if, the run was completed and its archived
  rows are deleted; and its completion receipt, once written, is never changed or dropped.
\<close>

theorem histories_append_only:
  assumes "store_reachable rules s" "(store_step rules)\<^sup>*\<^sup>* s s'"
  shows "(prefix (runRecords s runId) (runRecords s' runId) \<or>
          (historyDeleted s' runId \<and> map_of (ms_completions s') runId \<noteq> None)) \<and>
         (map_of (ms_completions s) runId = Some c \<longrightarrow> map_of (ms_completions s') runId = Some c)"
proof -
  from store_steps_history [OF assms(2) store_reachable_invariant [OF assms(1)]]
  have inv: "storeInvariant s'" and h: "prefix (runRecords s runId) (runRecords s' runId) \<or> historyDeleted s' runId"
    by blast+
  have "map_of (ms_completions s') runId \<noteq> None" if "historyDeleted s' runId"
    using inv that by (auto simp: storeInvariant_def storeWellFormed_def historyDeleted_def)
  with h store_steps_receipt [OF assms(2)] show ?thesis by blast
qed

theorem histories_append_only_witness:
  "prefix (runRecords demoBegun ''run'') (runRecords demoRetired ''run'') \<and>
   length (runRecords demoBegun ''run'') = 1 \<and> length (runRecords demoRetired ''run'') = 3"
proof -
  have steps: "(store_step openRules)\<^sup>*\<^sup>* demoBegun demoRetired"
    using demo_appended_step demo_terminated_step demo_retired_step
    by (metis converse_rtranclp_into_rtranclp rtranclp.rtrancl_refl)
  have "\<not> historyDeleted demoRetired ''run''" by code_simp
  moreover have "length (runRecords demoBegun ''run'') = 1" by code_simp
  moreover have "length (runRecords demoRetired ''run'') = 3" by code_simp
  ultimately show ?thesis
    using histories_append_only [OF demo_begun_reachable steps, of "''run''"] by blast
qed

text \<open>
  C32. An accepted append is durable and idempotent: the record is read back after every earlier
  record of the run; the same append again returns the same record and changes nothing; and a
  different event under the same key is refused as a contradiction and changes nothing.
\<close>

theorem append_durable_idempotent:
  assumes "store_reachable rules s" "isAppendableWorkflowJournalEvent event" "key \<noteq> workflowRunTerminatedRecordKey"
    and "memoryAppendTransition rules s runId key event = (Inr r, s')"
  shows "(\<exists>rs rs'. memoryRead rules s runId = Inr rs \<and> memoryRead rules s' runId = Inr rs' \<and> prefix rs rs' \<and> r \<in> set rs') \<and>
    memoryAppendTransition rules s' runId key event = (Inr r, s') \<and>
    (\<forall>other. other \<noteq> event \<longrightarrow>
       memoryAppendTransition rules s' runId key other = (Inl (JournalStoreContradiction runId key (jr_position r)), s'))"
proof -
  have s': "store_reachable rules s'"
    by (rule store_reachable.step [OF assms(1) store_step.append_step [OF assms(4,2,3)]])
  note live = append_accepted_live [OF assms(1,4)]
  then have "List.find (\<lambda>x. jr_key x = key) (runRecords s' runId) = Some r"
    using find_key_unique [OF storeWellFormed_runRecords [OF reachable_wellFormed [OF s']]] by blast
  with live reachable_append [OF s'] have
    "memoryAppendTransition rules s' runId key event = (Inr r, s')"
    "\<forall>other. other \<noteq> event \<longrightarrow>
       memoryAppendTransition rules s' runId key other = (Inl (JournalStoreContradiction runId key (jr_position r)), s')"
    by auto
  moreover have "memoryRead rules s runId = Inr (runRecords s runId)" "memoryRead rules s' runId = Inr (runRecords s' runId)"
    using memoryRead_live [OF reachable_wellFormed reachable_live_decision] assms(1) s' live by blast+
  ultimately show ?thesis using live by blast
qed

theorem append_durable_idempotent_witness:
  "memoryAppendTransition openRules demoAppended ''run'' ''k'' (OtherWorkflowEvent ''E'' ''p'') =
     (Inr \<lparr>jr_event = OtherWorkflowEvent ''E'' ''p'', jr_key = ''k'', jr_position = 2, jr_runId = ''run''\<rparr>, demoAppended)"
proof -
  have "memoryAppendTransition openRules demoBegun ''run'' ''k'' (OtherWorkflowEvent ''E'' ''p'') =
     (Inr \<lparr>jr_event = OtherWorkflowEvent ''E'' ''p'', jr_key = ''k'', jr_position = 2, jr_runId = ''run''\<rparr>, demoAppended)"
    by code_simp
  from append_durable_idempotent [OF demo_begun_reachable _ _ this] show ?thesis
    by (simp add: workflowRunTerminatedRecordKey_def)
qed

text \<open>
  C33. A completed run is closed for good: in every reachable state that holds its receipt, an
  append, another beginning and another termination are all refused with the error that names the
  recorded end, and none of them changes the store; recovery refuses it too.
\<close>

theorem completed_run_closed:
  assumes "store_reachable rules s" "map_of (ms_completions s) runId = Some c"
  shows "memoryAppendTransition rules s runId key event = (Inl (WorkflowRunAlreadyTerminated runId (co_terminatedAt c)), s) \<and>
    memoryBeginRun rules s runId beginning = (Inl (WorkflowRunAlreadyBegan 1 runId), s) \<and>
    memoryTerminationTransition rules s runId disposition evidence timing =
      (Inl (WorkflowRunAlreadyTerminated runId (co_terminatedAt c)), s) \<and>
    memoryReadRunForRecovery rules s runId target =
      (if co_target c = target then Inl (WorkflowRunAlreadyTerminated runId (co_terminatedAt c))
       else Inl (WorkflowRunTargetMismatch (co_target c) target runId))"
  using reachable_receipt_decision [OF assms, of OpAppend] reachable_receipt_decision [OF assms, of OpBeginRun]
    reachable_receipt_decision [OF assms, of OpTerminateRun] reachable_receipt_decision [OF assms, of OpReadRunForRecovery]
  by (auto simp: memoryAppendTransition_def memoryBeginRun_def memoryTerminationTransition_def memoryReadRunForRecovery_def)

theorem completed_run_closed_witness:
  "memoryAppendTransition openRules demoRetired ''run'' ''late'' (OtherWorkflowEvent ''E'' ''q'') =
     (Inl (WorkflowRunAlreadyTerminated ''run'' 3), demoRetired)"
proof -
  have "map_of (ms_completions demoRetired) ''run'' =
      Some \<lparr>co_runId = ''run'', co_target = FixtureTarget ''t'', co_disposition = RunCompleted, co_terminatedAt = 3,
            co_timing = Known 7, co_publication = NoRecordedPublication\<rparr>" by code_simp
  from completed_run_closed [OF demo_retired_reachable this] show ?thesis by simp
qed

text \<open>
  Retiring a terminal run to the archive loses nothing: the same records are read back, its
  size is what the archive accounts for it, and retiring it again reports it as already retired
  without changing the store.
\<close>

lemma retirement_preserves_history:
  assumes "store_reachable rules s" "memoryRetireTerminalRun rules s runId = (Inr (Retired runId), s')"
  shows "memoryRead rules s' runId = memoryRead rules s runId \<and>
    memoryRead rules s' runId = Inr (runRecords s' runId) \<and>
    map_of (ms_archiveBytes s') runId = Some (savedMemoryArchiveBytes rules (runRecords s' runId)) \<and>
    map_of (ms_hotRecordsByRun s') runId = None \<and>
    memoryRetireTerminalRun rules s' runId = (Inr (AlreadyRetired runId), s')"
  using assms(2)
proof (cases rule: memoryRetire_cases)
  case unchanged
  then show ?thesis by simp
next
  case (retired hot)
  have wf: "storeWellFormed s" by (rule reachable_wellFormed [OF assms(1)])
  from retired(5) have cold: "\<exists>x. decideJournalPartitionHistory rules Cold runId hot = ValidPartitionHistory True x"
    by (auto simp: decideJournalPartitionHistory_def Let_def split: sum.splits if_splits)
  have nd: "map_of (ms_deletions s) runId = None" using wf retired(2) by (auto simp: storeWellFormed_def)
  have rr: "runRecords s' runId = hot" using retired by (simp add: runRecords_hot)
  have read: "memoryRead rules s runId = Inr hot" "memoryRead rules s' runId = Inr hot"
    using retired(2,3) cold nd by (auto simp: memoryRead_def retired(4) map_simps readColdHistory_def)
  have "store_reachable rules s'" by (rule store_reachable.step [OF assms(1) store_step.retire_step [OF assms(2)]])
  then have "\<exists>i. decideMemoryCompletion rules s' runId OpRetireTerminalRun = Inr i"
    by (cases "map_of (ms_completions s') runId")
      (auto dest: reachable_live_decision reachable_receipt_decision [where op = OpRetireTerminalRun])
  then have "memoryRetireTerminalRun rules s' runId = (Inr (AlreadyRetired runId), s')"
    using cold by (auto simp: memoryRetireTerminalRun_def memoryRetirementTransition_def retired(4) map_simps)
  with read rr retired(4) show ?thesis by (simp add: map_simps)
qed

lemma retirement_preserves_history_witness:
  "memoryRead openRules demoRetired ''run'' = memoryRead openRules demoTerminated ''run'' \<and>
   map_of (ms_archiveBytes demoRetired) ''run'' = Some 348"
proof -
  have r: "memoryRetireTerminalRun openRules demoTerminated ''run'' = (Inr (Retired ''run''), demoRetired)" by code_simp
  have b: "savedMemoryArchiveBytes openRules (runRecords demoRetired ''run'') = 348" by code_simp
  show ?thesis
    using retirement_preserves_history [OF demo_terminated_reachable r] b by simp
qed



text \<open>
  C35. A begun run stays recoverable for exactly the target it was begun with: after any further
  operations, as long as the run has no receipt and is not archived, recovery returns its
  beginning record for that target and a target mismatch for any other.
\<close>

theorem begun_run_recoverable:
  assumes "store_reachable rules s" "memoryBeginRun rules s runId beginning = (Inr r, s1)"
    and "(store_step rules)\<^sup>*\<^sup>* s1 s'"
    and "map_of (ms_completions s') runId = None" "map_of (ms_coldRecordsByRun s') runId = None"
  shows "memoryReadRunForRecovery rules s' runId target =
    (if rb_target beginning = target then Inr r
     else Inl (WorkflowRunTargetMismatch (rb_target beginning) target runId))"
proof -
  have s1: "store_reachable rules s1" by (rule store_reachable.step [OF assms(1) store_step.begin_step [OF assms(2)]])
  from assms(3) s1 have s': "store_reachable rules s'"
    by (induction rule: rtranclp_induct) (auto intro: store_reachable.step)
  from assms(2) have r: "r = makeHistoricalWorkflowRunBeganRecord runId beginning" "runRecords s1 runId = [r]"
    by (cases rule: memoryBeginRun_cases; simp)+
  from store_steps_history [OF assms(3) store_reachable_invariant [OF s1], of runId] assms(4)
  have "prefix [r] (runRecords s' runId)"
    by (auto simp: r(2) historyDeleted_def storeInvariant_def storeWellFormed_def)
  then obtain rest where rest: "runRecords s' runId = r # rest" by (auto simp: prefix_def)
  then have hot: "map_of (ms_hotRecordsByRun s') runId = Some (r # rest)"
    using assms(5) by (auto simp: runRecords_def orElse_def split: option.splits)
  have "List.find (\<lambda>r. isTerminatedEvent (jr_event r)) (r # rest) = None"
    using reachable_live_records [OF s' assms(4)] rest by (simp only: find_eq_None_iff)
  moreover have "jr_event r = WorkflowRunBegan beginning" by (simp add: r(1) makeHistoricalWorkflowRunBeganRecord_def)
  ultimately show ?thesis
    using reachable_live_decision [OF s' assms(4)] assms(5) hot
    by (simp add: memoryReadRunForRecovery_def readRecoverableRunBeginning_def isBeganEvent_def isTerminatedEvent_def)
qed

theorem begun_run_recoverable_witness:
  "memoryReadRunForRecovery openRules demoAppended ''run'' (FixtureTarget ''t'') =
     Inr (makeHistoricalWorkflowRunBeganRecord ''run'' demoBeginning)"
proof -
  have b: "memoryBeginRun openRules emptyMemoryJournalState ''run'' demoBeginning =
      (Inr (makeHistoricalWorkflowRunBeganRecord ''run'' demoBeginning), demoBegun)" by code_simp
  have c: "map_of (ms_completions demoAppended) ''run'' = None" "map_of (ms_coldRecordsByRun demoAppended) ''run'' = None"
    by code_simp+
  from begun_run_recoverable [OF store_reachable.initial b r_into_rtranclp [of "store_step openRules"] c] demo_appended_step
  have "memoryReadRunForRecovery openRules demoAppended ''run'' (FixtureTarget ''t'') =
    (if rb_target demoBeginning = FixtureTarget ''t'' then Inr (makeHistoricalWorkflowRunBeganRecord ''run'' demoBeginning)
     else Inl (WorkflowRunTargetMismatch (rb_target demoBeginning) (FixtureTarget ''t'') ''run''))" by blast
  then show ?thesis by (simp add: demoBeginning_def)
qed

end
