(* ===== verification/Control_Direction.thy ===== *)
theory Control_Direction
  imports Publication_Correctness Exit_Properties Journal_Properties
begin

text \<open>
  Operator directions (\<^verbatim>\<open>workflow/protocols/control-direction-application\<close>): one Pause or Unpause of a
  run or of a task is appended under the next ordinal. The delivery owner reads them back before each
  publication phase and refuses the phase while the run or the task is paused
  (\<open>publicationPhase\<close> in \<^verbatim>\<open>coordination/delivery/integration-delivery-action-adapter.ts\<close>), inside the
  atomic boundary of the exit lifecycle.
\<close>

section \<open>Model\<close>

record ApplyControlDirectionRequest =
  ac_direction :: ControlDirection
  ac_subject :: ControlDirectionSubject

fun controlDirectionRunId :: "ControlDirectionSubject \<Rightarrow> RunId" where
  "controlDirectionRunId (RunSubject runId) = runId"
| "controlDirectionRunId (TaskSubject runId _) = runId"

fun controlDirectionOf :: "JournalRecord \<Rightarrow> (ControlDirection \<times> nat \<times> ControlDirectionSubject) option" where
  "controlDirectionOf r = (case jr_event r of ControlDirectionApplied d n subject \<Rightarrow> Some (d, n, subject) | _ \<Rightarrow> None)"

definition controlDirections :: "JournalRecord list \<Rightarrow> (ControlDirection \<times> nat \<times> ControlDirectionSubject) list" where
  "controlDirections records = List.map_filter controlDirectionOf records"

text \<open>The request arrives decoded; applications are serialised by a semaphore of one permit.\<close>

definition applyControlDirection ::
  "'j InRunJournalService \<Rightarrow> ApplyControlDirectionRequest \<Rightarrow> ('j, JournalError, JournalRecord) effect" where
  "applyControlDirection journal request =
     (let runId = controlDirectionRunId (ac_subject request) in
      andThen (ij_read journal runId) (\<lambda>records.
        if List.find (\<lambda>r. isBeganEvent (jr_event r)) records = None then fail (WorkflowRunNotBegan runId)
        else let ordinal = length (controlDirections records) + 1
             in ij_append journal runId (controlDirectionAppliedRecordKey ordinal)
                  (ControlDirectionApplied (ac_direction request) ordinal (ac_subject request))))"

fun controlPausedStep :: "TaskId \<Rightarrow> bool \<times> bool \<Rightarrow> ControlDirection \<times> nat \<times> ControlDirectionSubject \<Rightarrow> bool \<times> bool" where
  "controlPausedStep task (runPaused, taskPaused) (direction, _, RunSubject _) = (direction = Pause, taskPaused)"
| "controlPausedStep task (runPaused, taskPaused) (direction, _, TaskSubject _ t) =
     (if t = task then (runPaused, direction = Pause) else (runPaused, taskPaused))"

definition controlPaused :: "JournalRecord list \<Rightarrow> TaskId \<Rightarrow> bool" where
  "controlPaused records task =
     (case foldl (controlPausedStep task) (False, False) (controlDirections records) of (r, t) \<Rightarrow> r \<or> t)"

text \<open>\<open>before\<close> and \<open>after\<close>: the lifecycle as the atomic boundary reads it around the phase.\<close>

definition publicationPhase ::
  "'j InRunJournalService \<Rightarrow> ApplicationExitLifecycleState \<Rightarrow> ApplicationExitLifecycleState \<Rightarrow> nat \<Rightarrow> RunId \<Rightarrow> TaskId \<Rightarrow>
   ('j, 'g, 'a) publication \<Rightarrow> ('j, 'g, 'a) publication" where
  "publicationPhase journal before after ownerId runId task phase =
     runAtomicBoundary PublicationInterrupted before after ownerId
       (andThen (readPublicationEvidence journal runId) (\<lambda>records.
          if controlPaused records task then fail PublicationInterrupted else phase))"

definition deliveryBoundary ::
  "'j InRunJournalService \<Rightarrow> ApplicationExitLifecycleState \<Rightarrow> ApplicationExitLifecycleState \<Rightarrow> nat \<Rightarrow> RunId \<Rightarrow> TaskId \<Rightarrow>
   ('j, 'g) RemotePublicationPhaseBoundary" where
  "deliveryBoundary journal before after ownerId runId task =
     \<lparr>pb_runObservation = publicationPhase journal before after ownerId runId task,
      pb_runSender = publicationPhase journal before after ownerId runId task\<rparr>"

section \<open>The delivery boundary is a phase boundary\<close>

lemma liftJournal_read:
  assumes "\<And>x j'. m j = (x, j') \<Longrightarrow> j' = j" "w_journal w = j"
  shows "liftJournal wrap m w = ((case fst (m j) of Inl e \<Rightarrow> Inl (wrap e) | Inr x \<Rightarrow> Inr x), w)"
  using assms by (auto simp: liftJournal_def split: prod.splits sum.splits)

lemma publicationPhase_runs:
  assumes unchanged: "\<And>j x j'. ij_read journal runId j = (x, j') \<Longrightarrow> j' = j"
  shows "phaseRuns (publicationPhase journal before after ownerId runId task)"
  unfolding phaseRuns_def
proof (intro allI)
  fix m w
  have read: "readPublicationEvidence journal runId w =
      ((case fst (ij_read journal runId (w_journal w)) of Inl e \<Rightarrow> Inl (PublicationJournalError e) | Inr x \<Rightarrow> Inr x), w)"
    unfolding readPublicationEvidence_def by (rule liftJournal_read [OF unchanged refl])
  show "publicationPhase journal before after ownerId runId task m w = m w \<or>
      (\<exists>e. publicationPhase journal before after ownerId runId task m w = (Inl e, w) \<or>
           publicationPhase journal before after ownerId runId task m w = (Inl e, snd (m w)))"
    by (cases "fst (ij_read journal runId (w_journal w))"; cases "m w"; cases "fst (m w)")
      (auto simp: publicationPhase_def runAtomicBoundary_def andThen_def read)
qed

interpretation memory_boundary: phase_boundary
  "deliveryBoundary (memoryJournal rules) before after ownerId runId task" for rules before after ownerId runId task
  by unfold_locales (simp_all add: deliveryBoundary_def publicationPhase_runs [OF memory.read_unchanged])

section \<open>Ordinals\<close>

definition controlOrdinalsOk :: "JournalRecord list \<Rightarrow> bool" where
  "controlOrdinalsOk records \<longleftrightarrow>
     map (\<lambda>(_, n, _). n) (controlDirections records) = [1..<Suc (length (controlDirections records))]"

lemma controlDirections_snoc [simp]:
  "controlDirections (rs @ [r]) = controlDirections rs @ (case controlDirectionOf r of None \<Rightarrow> [] | Some d \<Rightarrow> [d])"
  by (simp add: controlDirections_def split: option.split)

lemma controlOrdinals_le:
  assumes "controlOrdinalsOk rs" "r \<in> set rs" "jr_event r = ControlDirectionApplied d n subject"
  shows "n \<le> length (controlDirections rs)"
proof -
  have "(d, n, subject) \<in> set (controlDirections rs)"
    using assms(2,3) by (force simp: controlDirections_def set_map_filter_conv)
  then have "n \<in> set (map (\<lambda>(_, n, _). n) (controlDirections rs))" by force
  then show ?thesis using assms(1) unfolding controlOrdinalsOk_def by (simp del: upt_Suc)
qed

context in_run_journal
begin

text \<open>An accepted direction is one new record under the next ordinal; a refused one changes nothing.\<close>

lemma apply_direction_cases:
  assumes v: "valid j" and rd: "ij_read journal runId j = (Inr rs, j)" and ok: "controlOrdinalsOk rs"
    and runId: "runId = controlDirectionRunId (ac_subject request)"
  shows "case applyControlDirection journal request j of
      (Inl e, j') \<Rightarrow> j' = j
    | (Inr r, j') \<Rightarrow> valid j' \<and> (\<exists>b\<in>set rs. isBeganEvent (jr_event b)) \<and>
        jr_event r = ControlDirectionApplied (ac_direction request) (length (controlDirections rs) + 1) (ac_subject request) \<and>
        ij_read journal runId j' = (Inr (rs @ [r]), j') \<and> controlOrdinalsOk (rs @ [r])"
proof (cases "List.find (\<lambda>r. isBeganEvent (jr_event r)) rs")
  case None
  with rd show ?thesis by (simp add: applyControlDirection_def andThen_def runId Let_def)
next
  case (Some b)
  let ?n = "length (controlDirections rs) + 1"
  let ?event = "ControlDirectionApplied (ac_direction request) ?n (ac_subject request)"
  let ?key = "controlDirectionAppliedRecordKey ?n"
  have run: "applyControlDirection journal request j = ij_append journal runId ?key ?event j"
    using Some rd by (simp add: applyControlDirection_def andThen_def runId Let_def)
  show ?thesis
  proof (cases "ij_append journal runId ?key ?event j")
    case (Pair x j')
    show ?thesis
    proof (cases x)
      case (Inl e)
      with Pair append_refused run show ?thesis by fastforce
    next
      case (Inr r)
      with Pair have app: "ij_append journal runId ?key ?event j = (Inr r, j')" by simp
      from v rd app show ?thesis
      proof (cases rule: append_from_history)
        case existing
        with controlOrdinals_le [OF ok existing(2)] show ?thesis by simp
      next
        case extended
        have "controlOrdinalsOk (rs @ [r])" using ok by (simp add: controlOrdinalsOk_def extended(2))
        with extended append_valid [OF v app] find_SomeD [OF Some] show ?thesis unfolding run app by auto
      qed
    qed
  qed
qed

text \<open>While the run or the task is paused, a delivery boundary lets nothing through.\<close>

definition pausedAt :: "RunId \<Rightarrow> TaskId \<Rightarrow> 'g \<Rightarrow> ('j \<times> SentMutation) list \<Rightarrow> ('j, 'g) World \<Rightarrow> bool" where
  "pausedAt runId task g S w \<longleftrightarrow>
     valid (w_journal w) \<and> w_git w = g \<and> w_sent w = S \<and>
     (\<exists>rs. ij_read journal runId (w_journal w) = (Inr rs, w_journal w) \<and> controlPaused rs task)"

lemma triple_pausedPhase:
  "triple (pausedAt runId task g S) (publicationPhase journal before after ownerId runId task m) (\<lambda>_ _. False)
     (\<lambda>_. pausedAt runId task g S)"
  by (rule tripleI)
    (auto simp: publicationPhase_def runAtomicBoundary_def andThen_def readPublicationEvidence_def liftJournal_def pausedAt_def
      split: if_splits prod.splits sum.splits)

lemma triple_pausedAppend:
  "triple (pausedAt (remotePublicationRunIdOf c) task g S) (appendRemotePublicationEvent journal c key e)
     (\<lambda>_. pausedAt (remotePublicationRunIdOf c) task g S) (\<lambda>_. pausedAt (remotePublicationRunIdOf c) task g S)"
proof (rule tripleI)
  fix w x w'
  assume at: "pausedAt (remotePublicationRunIdOf c) task g S w" and run: "appendRemotePublicationEvent journal c key e w = (Inr x, w')"
  from run obtain r j where app: "ij_append journal (remotePublicationRunIdOf c) key (RemotePublicationEvent e) (w_journal w) = (Inr r, j)"
    and w': "w' = w\<lparr>w_journal := j\<rparr>"
    by (auto simp: appendRemotePublicationEvent_def liftJournal_Inr elim!: andThen_InrE)
  from at obtain rs where rd: "ij_read journal (remotePublicationRunIdOf c) (w_journal w) = (Inr rs, w_journal w)"
    and v: "valid (w_journal w)" and paused: "controlPaused rs task" by (auto simp: pausedAt_def)
  from v rd app show "pausedAt (remotePublicationRunIdOf c) task g S w'"
  proof (cases rule: append_from_history)
    case extended
    have "controlPaused (rs @ [nextRecord (remotePublicationRunIdOf c) key (RemotePublicationEvent e) rs]) task"
      using paused by (simp add: controlPaused_def)
    with extended(3) append_valid [OF v app] at show ?thesis by (auto simp: pausedAt_def w')
  qed (use at in \<open>simp add: w'\<close>)
next
  fix w err w'
  assume "pausedAt (remotePublicationRunIdOf c) task g S w" "appendRemotePublicationEvent journal c key e w = (Inl err, w')"
  moreover from this(2) have "w' = w"
    by (auto simp: appendRemotePublicationEvent_def andThen_def liftJournal_def dest!: append_refused split: prod.splits sum.splits)
  ultimately show "pausedAt (remotePublicationRunIdOf c) task g S w'" by simp
qed

lemma triple_pausedRun:
  assumes c: "c = remotePublicationCorrelationFor candidate target" and runId: "runId = remotePublicationRunIdOf c"
  shows "triple (pausedAt runId task g S)
     (runRemotePublication journal git (deliveryBoundary journal before after ownerId runId task) candidate target)
     (\<lambda>_. pausedAt runId task g S) (\<lambda>_. pausedAt runId task g S)"
proof -
  have stay: "triple (pausedAt runId task g S) (succeed x) (\<lambda>_. pausedAt runId task g S) (\<lambda>_. pausedAt runId task g S)"
    and failed: "triple (pausedAt runId task g S) (fail e) (\<lambda>_. pausedAt runId task g S) (\<lambda>_. pausedAt runId task g S)" for x e
    by (auto intro: triple_succeed triple_fail)
  have read: "triple (pausedAt runId task g S) (readPublicationEvidence journal runId)
      (\<lambda>_. pausedAt runId task g S) (\<lambda>_. pausedAt runId task g S)"
    by (rule tripleI) (auto simp: readPublicationEvidence_def liftJournal_Inr liftJournal_Inl pausedAt_def)
  have activate: "triple (pausedAt runId task g S)
      (activatePublication journal git (deliveryBoundary journal before after ownerId runId task) c p n)
      (\<lambda>_. pausedAt runId task g S) (\<lambda>_. pausedAt runId task g S)" for p n
    unfolding activatePublication_def deliveryBoundary_def RemotePublicationPhaseBoundary.simps
    by (rule triple_andThen [OF triple_pausedPhase]) (auto simp: triple_def)
  have first: "triple (pausedAt runId task g S) (if b then appendRemotePublicationIntent journal c else succeed ())
      (\<lambda>_. pausedAt runId task g S) (\<lambda>_. pausedAt runId task g S)" for b
    unfolding appendRemotePublicationIntent_def runId by (rule triple_if [OF triple_pausedAppend]) (auto intro: triple_succeed)
  show ?thesis
    unfolding runRemotePublication_def Let_def c [symmetric] runId [symmetric]
  proof (rule triple_andThen [OF read])
    fix rs
    show "triple (pausedAt runId task g S)
      (case validateRemotePublicationState rs c of Inl e \<Rightarrow> fail e
       | Inr (PublicationSucceeded c' p) \<Rightarrow> succeed (PublicationSucceeded c' p)
       | Inr st \<Rightarrow>
           if isPublicationRetainedState st \<and> map_option jr_position (remotePublicationBatchGrantForNextAttempt rs c st) = None
           then succeed st
           else andThen (if st = PublicationAbsent then appendRemotePublicationIntent journal c else succeed ())
             (\<lambda>_. activatePublication journal git (deliveryBoundary journal before after ownerId runId task) c
                (pendingAtActivation rs c (map_option jr_position (remotePublicationBatchGrantForNextAttempt rs c st)) st)
                (pendingAttemptAtActivation st)))
      (\<lambda>_. pausedAt runId task g S) (\<lambda>_. pausedAt runId task g S)"
      (is "triple _ (case _ of Inl e \<Rightarrow> fail e | Inr st \<Rightarrow> ?case st) _ _")
    proof -
      let ?run = "\<lambda>st. if isPublicationRetainedState st \<and> map_option jr_position (remotePublicationBatchGrantForNextAttempt rs c st) = None
           then succeed st
           else andThen (if st = PublicationAbsent then appendRemotePublicationIntent journal c else succeed ())
             (\<lambda>_. activatePublication journal git (deliveryBoundary journal before after ownerId runId task) c
                (pendingAtActivation rs c (map_option jr_position (remotePublicationBatchGrantForNextAttempt rs c st)) st)
                (pendingAttemptAtActivation st))"
      have run: "triple (pausedAt runId task g S) (?run st) (\<lambda>_. pausedAt runId task g S) (\<lambda>_. pausedAt runId task g S)" for st
        by (rule triple_if [OF stay triple_andThen [OF first activate]])
      have "triple (pausedAt runId task g S) (?case st) (\<lambda>_. pausedAt runId task g S) (\<lambda>_. pausedAt runId task g S)" for st
      proof (cases "\<exists>d p. st = PublicationSucceeded d p")
        case True
        with stay show ?thesis by auto
      next
        case False
        then have "\<forall>d p. st \<noteq> PublicationSucceeded d p" by simp
        from case_live_publication [OF this, where A = "\<lambda>d p. succeed (PublicationSucceeded d p)" and B = ?run] run [of st]
        show ?thesis by (simp only:)
      qed
      with failed show ?thesis by (cases "validateRemotePublicationState rs c") (simp_all only: sum.case)
    qed
  qed
qed

end

end
