(* ===== verification/Publication_Git.thy ===== *)
theory Publication_Git
  imports Git_Text Control_Direction
begin

text \<open>
  The Node Git authority of direct publication (\<^verbatim>\<open>authorities/git/direct-publication-parser.ts\<close>,
  \<^verbatim>\<open>direct-publication-command.ts\<close>, \<^verbatim>\<open>direct-publication.ts\<close>): parsers of command output,
  endpoint pinning and the admit, observe and push operations, over a bounded Git command and a
  monotonic clock that are arguments. Endpoint validity, which the source decides with the platform's URL
  parser, is an argument as well.
\<close>

section \<open>Commands\<close>

record GitCommandResult =
  gr_exitCode :: int
  gr_stderr :: string
  gr_stdout :: string

datatype GitCommandBoundedFailure =
    GitCommandInvocationFailure string
  | GitCommandInterrupted
  | GitCommandResponseDeadline
  | GitCommandSenderStopUnproven

datatype EndpointResolutionFailure =
    EndpointMappingUnstable
  | EndpointCommandFailure GitCommandBoundedFailure

text \<open>
  \<open>gc_run\<close> is \<open>runBoundedInRepository\<close>, absent in controlled fixtures; its last argument is the custody subject of a
  push. \<open>gc_prepare\<close> and \<open>gc_reconcile\<close> are the optional sender-custody members.
\<close>

record 'g GitCommandService =
  gc_now :: "'g \<Rightarrow> int \<times> 'g"
  gc_run :: "(string \<Rightarrow> string list \<Rightarrow> int \<Rightarrow> (string \<times> nat) option \<Rightarrow> ('g, GitCommandBoundedFailure, GitCommandResult) effect) option"
  gc_prepare :: "(string \<times> nat \<Rightarrow> ('g, string, unit) effect) option"
  gc_reconcile :: "(string \<times> nat \<Rightarrow> ('g, string, unit) effect) option"
  gc_validEndpoint :: "string \<Rightarrow> bool"

definition remoteObservationTimeout :: int where
  "remoteObservationTimeout = 30 * 10 ^ 9"

definition remotePushTimeout :: int where
  "remotePushTimeout = 120 * 10 ^ 9"

definition operationDeadline :: "'g GitCommandService \<Rightarrow> int \<Rightarrow> ('g, 'e, int) effect" where
  "operationDeadline commands budget = (\<lambda>g. case gc_now commands g of (startedAt, g') \<Rightarrow> (Inr (startedAt + budget), g'))"

definition remainingOperationTimeout :: "'g GitCommandService \<Rightarrow> int \<Rightarrow> ('g, GitCommandBoundedFailure, int) effect" where
  "remainingOperationTimeout commands deadline =
     (\<lambda>g. case gc_now commands g of (now, g') \<Rightarrow>
        if deadline - now \<le> 0 then (Inl GitCommandResponseDeadline, g') else (Inr (deadline - now), g'))"

definition runBounded ::
  "'g GitCommandService \<Rightarrow> string \<Rightarrow> string list \<Rightarrow> int \<Rightarrow> (string \<times> nat) option \<Rightarrow>
   ('g, GitCommandBoundedFailure, GitCommandResult) effect" where
  "runBounded commands repository args deadline subject =
     andThen (remainingOperationTimeout commands deadline) (\<lambda>timeout.
       case gc_run commands of
         None \<Rightarrow> fail GitCommandSenderStopUnproven
       | Some bounded \<Rightarrow> bounded repository args timeout subject)"

fun failureReasonForCommand ::
  "GitCommandBoundedFailure \<Rightarrow> RemotePublicationObservationFailureReason \<Rightarrow> RemotePublicationObservationFailureReason" where
  "failureReasonForCommand GitCommandResponseDeadline unavailable = ObservationResponseDeadline"
| "failureReasonForCommand GitCommandSenderStopUnproven unavailable = ObservationSenderStopUnproven"
| "failureReasonForCommand GitCommandInterrupted unavailable = ObservationSenderStopUnproven"
| "failureReasonForCommand (GitCommandInvocationFailure _) unavailable = unavailable"

fun pushFailureReasonForCommand :: "GitCommandBoundedFailure \<Rightarrow> RemotePublicationPushFailureReason" where
  "pushFailureReasonForCommand GitCommandResponseDeadline = ResponseDeadline"
| "pushFailureReasonForCommand GitCommandSenderStopUnproven = SenderStopUnproven"
| "pushFailureReasonForCommand GitCommandInterrupted = SenderStopUnproven"
| "pushFailureReasonForCommand (GitCommandInvocationFailure _) = TransportUnavailable"

fun observationFailure ::
  "EndpointResolutionFailure \<Rightarrow> RemotePublicationObservationFailureReason \<Rightarrow> RemotePublicationObservationFailureReason" where
  "observationFailure EndpointMappingUnstable fallback = ObservationEndpointMappingChanged"
| "observationFailure (EndpointCommandFailure failure) fallback = failureReasonForCommand failure fallback"

fun pushFailure :: "EndpointResolutionFailure \<Rightarrow> RemotePublicationPushFailureReason" where
  "pushFailure EndpointMappingUnstable = EndpointMappingChanged"
| "pushFailure (EndpointCommandFailure failure) = pushFailureReasonForCommand failure"

section \<open>Endpoint pinning\<close>

datatype RewriteKind = RewriteRead | RewritePush

record RewriteRule =
  rw_kind :: RewriteKind
  rw_prefix :: string
  rw_replacement :: string

definition nulChar :: char where
  "nulChar = char_of (0::nat)"

text \<open>One entry of \<open>git config --null --get-regexp\<close>: the key, a newline, the value.\<close>

definition parseRewriteEntry :: "string \<Rightarrow> RewriteRule option" where
  "parseRewriteEntry entry =
     (if newline \<notin> set entry \<or> hd entry = newline then None
      else let key = takeWhile (\<lambda>c. c \<noteq> newline) entry;
               value = tl (dropWhile (\<lambda>c. c \<noteq> newline) entry);
               lowerKey = lowerCase key;
               push = suffix ''.pushinsteadof'' lowerKey;
               ending = (if push then ''.pushinsteadof'' else ''.insteadof'');
               replacement = take (length key - length ending - 4) (drop 4 key)
           in if \<not> prefix ''url.'' lowerKey \<or> \<not> suffix ending lowerKey then None
              else if replacement = [] \<or> value = [] then None
              else Some \<lparr>rw_kind = (if push then RewritePush else RewriteRead), rw_prefix = value, rw_replacement = replacement\<rparr>)"

fun parseRewriteEntries :: "string list \<Rightarrow> RewriteRule list option" where
  "parseRewriteEntries [] = Some []"
| "parseRewriteEntries (entry # entries) =
     (if entry = [] then parseRewriteEntries entries
      else case parseRewriteEntry entry of
             None \<Rightarrow> None
           | Some rule \<Rightarrow> map_option (Cons rule) (parseRewriteEntries entries))"

definition parseRewriteRules :: "string \<Rightarrow> RewriteRule list option" where
  "parseRewriteRules stdout = (if stdout = [] then Some [] else parseRewriteEntries (splitOn nulChar stdout))"

definition rewrite :: "string \<Rightarrow> RewriteRule list \<Rightarrow> RewriteKind \<Rightarrow> string option" where
  "rewrite endpoint rules kind =
     (let candidates = filter (\<lambda>rule. rw_kind rule = kind \<and> prefix (rw_prefix rule) endpoint) rules
      in if candidates = [] then Some endpoint
         else let longest = fold max (map (\<lambda>rule. length (rw_prefix rule)) candidates) 0
              in case filter (\<lambda>rule. length (rw_prefix rule) = longest) candidates of
                   [match] \<Rightarrow> Some (rw_replacement match @ drop (length (rw_prefix match)) endpoint)
                 | _ \<Rightarrow> None)"

definition pinnedCommandPrefix :: "string \<Rightarrow> string list option" where
  "pinnedCommandPrefix endpoint =
     (if CHR ''='' \<in> set endpoint then None
      else Some [''-c'', ''url.'' @ endpoint @ ''.insteadOf='' @ endpoint,
                 ''-c'', ''url.'' @ endpoint @ ''.pushInsteadOf='' @ endpoint])"

definition gitConfigRewritePattern :: string where
  "gitConfigRewritePattern = ''^url'' @ [CHR 0x5C] @ ''..*'' @ [CHR 0x5C] @ ''.(insteadOf|pushInsteadOf)$''"

definition parseConfigRules ::
  "'g GitCommandService \<Rightarrow> string \<Rightarrow> int \<Rightarrow> ('g, EndpointResolutionFailure, RewriteRule list) effect" where
  "parseConfigRules commands repository timeout =
     (case gc_run commands of
        None \<Rightarrow> fail (EndpointCommandFailure GitCommandSenderStopUnproven)
      | Some bounded \<Rightarrow>
          andThen (mapError EndpointCommandFailure
                     (bounded repository [''config'', ''--null'', ''--get-regexp'', gitConfigRewritePattern] timeout None)) (\<lambda>result.
            if gr_exitCode result = 1 then succeed []
            else if gr_exitCode result \<noteq> 0 then fail EndpointMappingUnstable
            else case parseRewriteRules (gr_stdout result) of
                   None \<Rightarrow> fail EndpointMappingUnstable
                 | Some rules \<Rightarrow> succeed rules))"

text \<open>The test on the rules alone: both mappings are the endpoint itself, and it can be pinned.\<close>

definition pinnedPrefixFor :: "(string \<Rightarrow> bool) \<Rightarrow> string \<Rightarrow> RewriteRule list \<Rightarrow> string list option" where
  "pinnedPrefixFor validEndpoint endpoint rules =
     (let readEndpoint = rewrite endpoint rules RewriteRead;
          pushEndpoint = (if list_ex (\<lambda>rule. rw_kind rule = RewritePush) rules then rewrite endpoint rules RewritePush
                          else rewrite endpoint rules RewriteRead)
      in if readEndpoint = None \<or> pushEndpoint = None \<or> readEndpoint \<noteq> pushEndpoint then None
         else if \<not> validEndpoint (the readEndpoint) \<or> the readEndpoint \<noteq> endpoint then None
         else pinnedCommandPrefix endpoint)"

definition resolvePinnedEndpoint ::
  "'g GitCommandService \<Rightarrow> string \<Rightarrow> RemotePublicationTarget \<Rightarrow> int \<Rightarrow> ('g, EndpointResolutionFailure, string list) effect" where
  "resolvePinnedEndpoint commands repository target deadline =
     andThen (mapError EndpointCommandFailure (remainingOperationTimeout commands deadline)) (\<lambda>timeout.
       andThen (parseConfigRules commands repository timeout) (\<lambda>rules.
         case pinnedPrefixFor (gc_validEndpoint commands) (rt_endpoint target) rules of
           None \<Rightarrow> fail EndpointMappingUnstable
         | Some pinned \<Rightarrow> succeed pinned))"

section \<open>Parsers\<close>

definition noMatchingRemoteRefExitCode :: int where
  "noMatchingRemoteRefExitCode = 2"

definition reportsNoMatchingRef :: "GitCommandResult \<Rightarrow> bool" where
  "reportsNoMatchingRef result \<longleftrightarrow>
     gr_exitCode result = noMatchingRemoteRefExitCode \<and> isBlank (gr_stdout result) \<and> isBlank (gr_stderr result)"

definition parseAdvertisedHead ::
  "GitCommandResult \<Rightarrow> RemotePublicationTarget \<Rightarrow> RemotePublicationObservationFailureReason + GitCommitSha" where
  "parseAdvertisedHead result target =
     (if reportsNoMatchingRef result then Inl TargetUnreadable
      else if gr_exitCode result \<noteq> 0 then Inl TargetUnreadable
      else case nonEmptyLines (gr_stdout result) of
             [line] \<Rightarrow>
               (case splitOn tab line of
                  [sha, ref] \<Rightarrow>
                    if ref \<noteq> rt_branch target \<or> \<not> validGitCommitSha sha then Inl TargetUnreadable else Inr sha
                | _ \<Rightarrow> Inl TargetUnreadable)
           | _ \<Rightarrow> Inl TargetUnreadable)"

definition classifyAncestry ::
  "GitCommandResult \<Rightarrow> GitCommandResult \<Rightarrow> GitCommandResult \<Rightarrow> GitCommitSha \<Rightarrow> GitCommitSha \<Rightarrow>
   RemotePublicationObservationFailureReason + RemotePublicationGitObservation" where
  "classifyAncestry candidateToRemote remoteToCandidate mergeBase candidateCommit remoteHead =
     (if remoteHead = candidateCommit then Inr (RemoteCandidateCurrent remoteHead)
      else if gr_exitCode candidateToRemote = 0 then Inr (RemoteCandidateAncestor remoteHead)
      else if gr_exitCode candidateToRemote \<noteq> 1 then Inl AncestryUnavailable
      else if gr_exitCode remoteToCandidate = 0 then Inr (RemoteAncestorOfCandidate remoteHead)
      else if gr_exitCode remoteToCandidate \<noteq> 1 then Inl AncestryUnavailable
      else if gr_exitCode mergeBase = 0 then
        (case nonEmptyLines (gr_stdout mergeBase) of
           [mergeBaseSha] \<Rightarrow>
             if \<not> validGitCommitSha mergeBaseSha \<or> gr_stderr mergeBase \<noteq> [] then Inl AncestryUnavailable
             else Inr (CompatibleCompetingHead remoteHead mergeBaseSha)
         | _ \<Rightarrow> Inl AncestryUnavailable)
      else if gr_exitCode mergeBase = 1 \<and> isBlank (gr_stdout mergeBase) \<and> isBlank (gr_stderr mergeBase)
      then Inr (IncompatibleLineage remoteHead) else Inl AncestryUnavailable)"

definition isAuthenticationFailure :: "string \<Rightarrow> bool" where
  "isAuthenticationFailure value = list_ex (\<lambda>part. textContains part (lowerCase value))
     [''authentication failed'', ''permission denied'', ''could not read username'', ''access denied'', ''repository not found'']"

definition isThrottleFailure :: "string \<Rightarrow> bool" where
  "isThrottleFailure value = list_ex (\<lambda>part. textContains part (lowerCase value))
     [''rate limit'', ''too many requests'', ''temporarily unavailable'', ''try again later'', ''secondary rate'']"

record PushStatus =
  ps_flag :: char
  ps_refspec :: string
  ps_summary :: string

text \<open>\<open>/^([* =!+-])\t([^\t]+)\t(.*)$/\<close>: the dot does not match a carriage return, and lines have no newline.\<close>

definition parsePushStatus :: "string \<Rightarrow> PushStatus option" where
  "parsePushStatus line =
     (case line of
        flag # t # rest \<Rightarrow>
          (let refspec = takeWhile (\<lambda>c. c \<noteq> tab) rest; tail = dropWhile (\<lambda>c. c \<noteq> tab) rest
           in if flag \<in> set ''* =!+-'' \<and> t = tab \<and> refspec \<noteq> [] \<and> tail \<noteq> [] \<and>
                 carriageReturn \<notin> set (tl tail) \<and> newline \<notin> set (tl tail)
              then Some \<lparr>ps_flag = flag, ps_refspec = refspec, ps_summary = tl tail\<rparr> else None)
      | _ \<Rightarrow> None)"

fun parsePushStatuses :: "string list \<Rightarrow> PushStatus list option" where
  "parsePushStatuses [] = Some []"
| "parsePushStatuses (line # rest) =
     (if line = ''Done'' \<or> prefix ''To '' line then parsePushStatuses rest
      else case parsePushStatus line of
             None \<Rightarrow> None
           | Some status \<Rightarrow> map_option (Cons status) (parsePushStatuses rest))"

definition parsePushResult ::
  "GitCommandResult \<Rightarrow> GitCommitSha \<Rightarrow> RemotePublicationTarget \<Rightarrow>
   RemotePublicationPushFailureReason + RemotePublicationPushResult" where
  "parsePushResult result candidateCommit target =
     (let diagnostics = gr_stdout result @ [newline] @ gr_stderr result;
          expectedRefspec = candidateCommit @ '':'' @ rt_branch target;
          unmatched = (if isThrottleFailure diagnostics then Inr PushThrottled
                       else if isAuthenticationFailure diagnostics then Inr (RejectedDefinite DenialAuthentication)
                       else Inl TransportUnavailable)
      in case parsePushStatuses (nonEmptyLines (gr_stdout result)) of
           None \<Rightarrow> Inl TransportUnavailable
         | Some [status] \<Rightarrow>
             if ps_refspec status \<noteq> expectedRefspec then unmatched
             else if ps_flag status = CHR ''*'' \<or> ps_flag status = CHR '' '' then
               (if gr_exitCode result \<noteq> 0 then Inl TransportUnavailable else Inr (PushResultApplied candidateCommit))
             else if ps_flag status = CHR ''='' then
               (if gr_exitCode result \<noteq> 0 then Inl TransportUnavailable else Inr (PushResultUpToDate candidateCommit))
             else if ps_flag status \<noteq> CHR ''!'' then Inl TransportUnavailable
             else if textContains ''non-fast-forward'' (lowerCase (ps_summary status)) \<or>
                     textContains ''fetch first'' (lowerCase (ps_summary status)) then Inr RejectedNonFastForward
             else if isThrottleFailure (ps_summary status @ [newline] @ gr_stderr result) then Inr PushThrottled
             else if textContains ''[remote rejected]'' (lowerCase (ps_summary status)) then Inr (RejectedDefinite DenialPolicy)
             else if isAuthenticationFailure (ps_summary status @ [newline] @ gr_stderr result)
             then Inr (RejectedDefinite DenialAuthentication)
             else Inr (RejectedDefinite DenialOther)
         | Some _ \<Rightarrow> unmatched)"

section \<open>Operations\<close>

definition liftResult :: "'e + 'a \<Rightarrow> ('w, 'e, 'a) effect" where
  "liftResult r = (case r of Inl e \<Rightarrow> fail e | Inr x \<Rightarrow> succeed x)"

definition lsRemoteArgs :: "string list \<Rightarrow> RemotePublicationTarget \<Rightarrow> string list" where
  "lsRemoteArgs pinned target =
     pinned @ [''ls-remote'', ''--exit-code'', ''--refs'', ''--heads'', ''--'', rt_endpoint target, rt_branch target]"

definition runObserving ::
  "'g GitCommandService \<Rightarrow> string \<Rightarrow> string list \<Rightarrow> int \<Rightarrow> RemotePublicationObservationFailureReason \<Rightarrow>
   ('g, RemotePublicationObservationFailureReason, GitCommandResult) effect" where
  "runObserving commands repository args deadline unavailable =
     mapError (\<lambda>failure. failureReasonForCommand failure unavailable) (runBounded commands repository args deadline None)"

definition nodeAdmit ::
  "'g GitCommandService \<Rightarrow> string option \<Rightarrow> RemotePublicationTarget \<Rightarrow>
   ('g, RemotePublicationObservationFailureReason, RemotePublicationAdmissionObservation) effect" where
  "nodeAdmit commands configuredRepository target =
     (case configuredRepository of
        None \<Rightarrow> fail TargetUnreadable
      | Some repository \<Rightarrow>
          andThen (operationDeadline commands remoteObservationTimeout) (\<lambda>deadline.
          andThen (mapError (\<lambda>f. observationFailure f TargetUnreadable) (resolvePinnedEndpoint commands repository target deadline)) (\<lambda>pinned.
          andThen (runObserving commands repository (lsRemoteArgs pinned target) deadline TargetUnreadable) (\<lambda>advertised.
            if reportsNoMatchingRef advertised then succeed AdmissionTargetMissing
            else andThen (liftResult (parseAdvertisedHead advertised target)) (\<lambda>remoteHead.
                   succeed (ExistingBranch remoteHead))))))"

definition exitedOne :: GitCommandResult where
  "exitedOne = \<lparr>gr_exitCode = 1, gr_stderr = [], gr_stdout = []\<rparr>"

text \<open>The ancestry commands, each run only when the answer before it leaves the question unanswered.\<close>

definition observeAncestry ::
  "'g GitCommandService \<Rightarrow> string \<Rightarrow> RemotePublicationGitRequest \<Rightarrow> int \<Rightarrow> GitCommitSha \<Rightarrow>
   ('g, RemotePublicationObservationFailureReason, RemotePublicationGitObservation) effect" where
  "observeAncestry commands repository request deadline remoteHead =
     (let candidate = pr_candidateCommit request in
      andThen (runObserving commands repository [''merge-base'', ''--is-ancestor'', candidate, remoteHead] deadline AncestryUnavailable)
        (\<lambda>candidateToRemote.
          if gr_exitCode candidateToRemote \<noteq> 1
          then liftResult (classifyAncestry candidateToRemote exitedOne exitedOne candidate remoteHead)
          else andThen (runObserving commands repository [''merge-base'', ''--is-ancestor'', remoteHead, candidate] deadline AncestryUnavailable)
            (\<lambda>remoteToCandidate.
              if gr_exitCode remoteToCandidate = 0
              then liftResult (classifyAncestry candidateToRemote remoteToCandidate exitedOne candidate remoteHead)
              else if gr_exitCode remoteToCandidate \<noteq> 1
              then liftResult (classifyAncestry candidateToRemote remoteToCandidate exitedOne candidate remoteHead)
              else andThen (runObserving commands repository [''merge-base'', candidate, remoteHead] deadline AncestryUnavailable)
                (\<lambda>mergeBase. liftResult (classifyAncestry candidateToRemote remoteToCandidate mergeBase candidate remoteHead)))))"

definition nodeObserve ::
  "'g GitCommandService \<Rightarrow> string option \<Rightarrow> RemotePublicationGitRequest \<Rightarrow>
   ('g, RemotePublicationObservationFailureReason, RemotePublicationGitObservation) effect" where
  "nodeObserve commands configuredRepository request =
     (case configuredRepository of
        None \<Rightarrow> fail TargetUnreadable
      | Some repository \<Rightarrow>
          (let target = pr_target request in
           andThen (operationDeadline commands remoteObservationTimeout) (\<lambda>deadline.
           andThen (mapError (\<lambda>f. observationFailure f TargetUnreadable) (resolvePinnedEndpoint commands repository target deadline)) (\<lambda>pinned.
           andThen (runObserving commands repository (lsRemoteArgs pinned target) deadline TargetUnreadable) (\<lambda>advertised.
             if reportsNoMatchingRef advertised then succeed TargetMissing
             else andThen (liftResult (parseAdvertisedHead advertised target)) (\<lambda>remoteHead.
                    if remoteHead = pr_candidateCommit request then succeed (RemoteCandidateCurrent remoteHead)
                    else andThen (mapError (\<lambda>f. observationFailure f AncestryUnavailable)
                                    (resolvePinnedEndpoint commands repository target deadline)) (\<lambda>refreshedPrefix.
                           andThen (runObserving commands repository
                                      (refreshedPrefix @ [''fetch'', ''--no-write-fetch-head'', ''--no-tags'', ''--recurse-submodules=no'',
                                         ''--'', rt_endpoint target, remoteHead]) deadline AncestryUnavailable) (\<lambda>fetched.
                             if gr_exitCode fetched \<noteq> 0 then fail AncestryUnavailable
                             else observeAncestry commands repository request deadline remoteHead))))))))"

definition nodePush ::
  "'g GitCommandService \<Rightarrow> string option \<Rightarrow> RemotePublicationGitRequest \<Rightarrow> nat \<Rightarrow>
   ('g, RemotePublicationPushFailureReason, RemotePublicationPushResult) effect" where
  "nodePush commands configuredRepository request attemptOrdinal =
     (case configuredRepository of
        None \<Rightarrow> fail TransportUnavailable
      | Some repository \<Rightarrow>
          (let target = pr_target request in
           andThen (operationDeadline commands remotePushTimeout) (\<lambda>deadline.
           andThen (mapError pushFailure (resolvePinnedEndpoint commands repository target deadline)) (\<lambda>pinned.
           andThen (mapError pushFailureReasonForCommand
                      (runBounded commands repository
                        (pinned @ [''push'', ''--porcelain'', ''--no-follow-tags'', ''--recurse-submodules=no'', ''--'',
                           rt_endpoint target, pr_refspec request]) deadline (Some (pr_requestId request, attemptOrdinal)))) (\<lambda>result.
             liftResult (parsePushResult result (pr_candidateCommit request) target))))))"

definition nodeCustody ::
  "(string \<times> nat \<Rightarrow> ('g, string, unit) effect) option \<Rightarrow> RemotePublicationGitRequest \<Rightarrow> nat \<Rightarrow>
   ('g, RemotePublicationPushFailureReason, unit) effect" where
  "nodeCustody member request attemptOrdinal =
     (case member of
        None \<Rightarrow> fail SenderStopUnproven
      | Some run \<Rightarrow> mapError (\<lambda>_. SenderStopUnproven) (run (pr_requestId request, attemptOrdinal)))"

definition nodeGitDirectPublication :: "'g GitCommandService \<Rightarrow> string option \<Rightarrow> 'g RemotePublicationGitService" where
  "nodeGitDirectPublication commands configuredRepository =
     \<lparr>pg_admit = nodeAdmit commands configuredRepository,
      pg_observe = nodeObserve commands configuredRepository,
      pg_prepareSenderCustody = nodeCustody (gc_prepare commands),
      pg_reconcileSenderCustody = nodeCustody (gc_reconcile commands),
      pg_push = (\<lambda>request attemptOrdinal. mapError PushFailure (nodePush commands configuredRepository request attemptOrdinal))\<rparr>"

section \<open>The adapter keeps the engine's laws\<close>

lemma liftResult_apply: "liftResult r w = (r, w)"
  by (simp add: liftResult_def split: sum.split)

lemma parsePushResult_applied:
  "parsePushResult result candidate target = Inr (PushResultApplied h) \<Longrightarrow> h = candidate"
  "parsePushResult result candidate target = Inr (PushResultUpToDate h) \<Longrightarrow> h = candidate"
  by (auto simp: parsePushResult_def Let_def split: option.splits list.splits if_splits)

lemma classifyAncestry_current:
  "classifyAncestry a b m candidate head = Inr (RemoteCandidateCurrent h) \<Longrightarrow> h = candidate"
  by (auto simp: classifyAncestry_def split: list.splits if_splits)

lemma observeAncestry_current:
  "observeAncestry commands repository request deadline head g = (Inr (RemoteCandidateCurrent h), g') \<Longrightarrow>
   h = pr_candidateCommit request"
  by (auto simp: observeAncestry_def Let_def liftResult_apply elim!: andThen_InrE dest!: classifyAncestry_current split: if_splits)

lemma nodeObserve_current:
  assumes "nodeObserve commands repo request g = (Inr (RemoteCandidateCurrent h), g')"
  shows "h = pr_candidateCommit request"
  using assms
  by (auto simp: nodeObserve_def Let_def elim!: andThen_InrE dest!: observeAncestry_current split: option.splits if_splits)

lemma nodePush_head:
  "nodePush commands repo request n g = (Inr (PushResultApplied h), g') \<Longrightarrow> h = pr_candidateCommit request"
  "nodePush commands repo request n g = (Inr (PushResultUpToDate h), g') \<Longrightarrow> h = pr_candidateCommit request"
  by (auto simp: nodePush_def Let_def liftResult_apply elim!: andThen_InrE dest!: parsePushResult_applied split: option.splits)

interpretation node: publication_git "nodeGitDirectPublication commands repo" for commands repo
  by unfold_locales (auto simp: nodeGitDirectPublication_def mapError_Inr dest: nodeObserve_current nodePush_head)

text \<open>The engine of the running program: memory journal, Node Git authority, delivery boundary.\<close>

interpretation node_engine: publication_engine "memoryJournal rules" storeWellFormed "nodeGitDirectPublication commands repo"
  "deliveryBoundary (memoryJournal rules) before after ownerId runId task"
  for rules commands repo before after ownerId runId task
  by unfold_locales

end
