(* ===== verification/Protocol_Demo.thy ===== *)
theory Protocol_Demo
  imports Promotion_Engine Publication_Git
begin

text \<open>Concrete data on which the protocol properties are applied: one qualified candidate of the run of the store's demo.\<close>

definition demoSession :: IntegratorSessionCorrelation where
  "demoSession = \<lparr>se_acceptedResult = \<lparr>ar_commit = replicate 40 CHR ''c'', ar_evidenceManifest = \<lparr>ev_byteLength = 1, ev_digest = ''d''\<rparr>\<rparr>,
     se_candidateResource = ''res'', se_expectedTargetHead = replicate 40 CHR ''b'',
     se_integrationTarget = \<lparr>it_repository = ''repo'', it_ref = ''refs/heads/main''\<rparr>,
     se_plannedAttempt = \<lparr>pa_attemptId = ''att'', pa_baseSha = replicate 40 CHR ''b'', pa_branch = ''refs/heads/t'', pa_executor = ''x'',
       pa_runId = ''run'', pa_taskId = ''task'', pa_taskRevision = ''1'', pa_worktree = ''/w''\<rparr>,
     se_queuedAt = 1, se_sessionId = ''s'', se_startedAt = 1, se_targetLineageObservedAt = 1\<rparr>"

definition demoCandidate :: IntegratorRunQualifiedCandidate where
  "demoCandidate = \<lparr>qc_candidateCommit = replicate 40 CHR ''a'', qc_candidateText = ''t'',
     qc_directParents = (replicate 40 CHR ''b'', replicate 40 CHR ''c''), qc_qualifiedAt = 2,
     qc_run = \<lparr>ir_ordinal = 1, ir_session = demoSession\<rparr>\<rparr>"

definition demoTarget :: RemotePublicationTarget where
  "demoTarget = \<lparr>rt_branch = ''refs/heads/main'', rt_endpoint = ''git@example.org:r''\<rparr>"

definition demoPublication :: RemotePublicationCorrelation where
  "demoPublication = remotePublicationCorrelationFor demoCandidate demoTarget"

definition demoPromotion :: TargetPromotionCorrelation where
  "demoPromotion = targetPromotionCorrelationFor demoCandidate"

definition demoRecords :: "JournalRecord list" where
  "demoRecords = [\<lparr>jr_event = WorkflowRunBegan demoBeginning, jr_key = workflowRunBeganRecordKey, jr_position = 1, jr_runId = ''run''\<rparr>]"

lemma demo_runIds [simp]: "remotePublicationRunIdOf demoPublication = ''run''" "targetPromotionRunIdOf demoPromotion = ''run''"
  by (simp_all add: demoPublication_def demoPromotion_def remotePublicationRunIdOf_def targetPromotionRunIdOf_def
      targetPromotionCorrelationFor_def demoCandidate_def demoSession_def)

lemma demo_read: "memoryRead openRules demoBegun ''run'' = Inr demoRecords"
  by code_simp

lemma demo_wellFormed: "storeWellFormed demoBegun"
  by (rule reachable_wellFormed [OF demo_begun_reachable])

lemma demo_history: "wellFormedHistory ''run'' demoRecords"
  using demo_read demo_wellFormed memory.read_wellFormed [of demoBegun openRules "''run''" demoRecords demoBegun]
  by (simp add: memoryJournal_def)

definition demoWorld :: "(MemoryJournalState, unit) World" where
  "demoWorld = \<lparr>w_journal = demoBegun, w_git = (), w_sent = []\<rparr>"

definition demoPromotionWorld :: "(MemoryJournalState, unit) PromotionWorld" where
  "demoPromotionWorld = \<lparr>w_journal = demoBegun, w_git = (), w_sent = [], w_caps = makeTargetPromotionCapabilities\<rparr>"

definition demoCommands :: "unit GitCommandService" where
  "demoCommands = \<lparr>gc_now = (\<lambda>g. (0, g)), gc_run = None, gc_prepare = None, gc_reconcile = None, gc_validEndpoint = (\<lambda>_. True)\<rparr>"

definition demoPromotionGit :: "unit TargetPromotionGitService" where
  "demoPromotionGit = \<lparr>git_compareAndSet = (\<lambda>request g. (Inr (Applied (gr_candidateCommit request)), g)),
     git_read = (\<lambda>request g. (Inr (CandidateNotInAncestry (gr_expectedTargetHead request)), g))\<rparr>"

lemma demo_promotion_history: "promotionProtocolHistory demoRecords demoPromotion \<and> promotionEvents demoRecords demoPromotion = []"
proof -
  have "promotionEvents demoRecords demoPromotion = []" "targetPromotionCorrelationConflictFor demoRecords demoPromotion = None"
    by code_simp+
  then show ?thesis by (simp add: promotionProtocolHistory_def demoRecords_def promotion_history.empty)
qed

lemma demo_publication_evidence: "pubEvidence demoRecords demoPublication [] None \<and> currentGrant demoRecords demoPublication = None"
proof -
  have grants: "remotePublicationBatchGrantsFor demoRecords demoPublication = []"
    by (simp add: grantsFor_wellFormed [OF demo_history] remotePublicationBatchGrantIsForCorrelation_def) (simp add: demoRecords_def)
  have events: "remotePublicationEventsFor demoRecords demoPublication = []"
    unfolding eventsFor_wellFormed [OF demo_history] by (simp add: demoRecords_def publicationEvent_def List.map_filter_def)
  show ?thesis
    using grants events by (simp add: pubEvidence_def citationsOk_def grantsSound_def currentGrant_def retainedGrantIssue_def
        attemptGrantIssue_def) (simp add: demoRecords_def)
qed

end
