(* ===== verification/Promotion_Properties.thy ===== *)
theory Promotion_Properties
  imports Protocol_Demo
begin

text \<open>Properties of target promotion on the memory journal, with every Git authority.\<close>

text \<open>
  C7. Reconstruction: on a well-formed journal whose promotion events follow the protocol, the state derived by
  filtering, cross-checking and sorting the records is the state of the last promotion event, and the validators accept it.
\<close>

theorem promotion_reconstruction:
  assumes "wellFormedHistory runId rs" "promotionProtocolHistory rs c"
  shows "deriveTargetPromotionState rs c = map_option stateOfEvent (latest (promotionEvents rs c)) \<and>
    fst (validateTargetPromotionState rs c w) = Inr (map_option stateOfEvent (latest (promotionEvents rs c)))"
  using derive_protocolHistory [OF assms] validate_protocolHistory [OF assms, of w] by simp

theorem promotion_reconstruction_witness: "deriveTargetPromotionState demoRecords demoPromotion = None"
  using promotion_reconstruction [OF demo_history conjunct1 [OF demo_promotion_history], of demoPromotionWorld] demo_promotion_history by simp


definition demoPublished :: PublishedIntegratorRunQualifiedCandidate where
  "demoPublished = \<lparr>pub_candidate = demoCandidate, pub_correlation = demoPublication,
     pub_proof = PushApplied 1 (replicate 40 CHR ''a'')\<rparr>"


text \<open>
  C36. Reconciliation of an earlier attempt only reads: it never sends a compare-and-set and never adds an attempt; on
  failure the promotion's events are unchanged.
\<close>

theorem promotion_reconcile_read_only:
  assumes "storeWellFormed (w_journal w)"
    and "memoryRead rules (w_journal w) (targetPromotionRunIdOf c) = Inr rs" "promotionProtocolHistory rs c"
    and c: "c = targetPromotionCorrelationFor (pub_candidate published)"
    and run: "reconcileTargetPromotionAttempt (memoryJournal rules) git published w = (x, w')"
  shows "w_sent w' = w_sent w \<and>
    (\<exists>rs'. memoryRead rules (w_journal w') (targetPromotionRunIdOf c) = Inr rs' \<and> promotionProtocolHistory rs' c \<and>
      (case x of
         Inl _ \<Rightarrow> promotionEvents rs' c = promotionEvents rs c
       | Inr s \<Rightarrow> prefix (promotionEvents rs c) (promotionEvents rs' c) \<and>
           attemptCount (promotionEvents rs' c) = attemptCount (promotionEvents rs c) \<and> returnedState c (promotionEvents rs' c) s))"
proof -
  let ?J = "memoryJournal rules"
  have at: "promoAt ?J storeWellFormed c (promotionEvents rs c) (w_sent w) (w_caps w) w"
    using assms by (simp add: promoAt_def memoryJournal_def)
  note t = memory.triple_reconcile [where published = published, folded c]
  show ?thesis
    using triple_Inr [OF t at] triple_Inl [OF t at] run
    by (cases x) (fastforce simp: promoReached_def promoAt_def memoryJournal_def)+
qed

theorem promotion_reconcile_read_only_witness:
  "w_sent (snd (reconcileTargetPromotionAttempt (memoryJournal openRules) demoPromotionGit demoPublished demoPromotionWorld)) = []"
proof -
  have "storeWellFormed (w_journal demoPromotionWorld)" by (simp add: demoPromotionWorld_def demo_wellFormed)
  moreover have "memoryRead openRules (w_journal demoPromotionWorld) (targetPromotionRunIdOf demoPromotion) = Inr demoRecords"
    by (simp add: demoPromotionWorld_def demo_read)
  moreover have "demoPromotion = targetPromotionCorrelationFor (pub_candidate demoPublished)"
    by (simp add: demoPromotion_def demoPublished_def)
  ultimately have "w_sent (snd (reconcileTargetPromotionAttempt (memoryJournal openRules) demoPromotionGit demoPublished demoPromotionWorld)) =
      w_sent demoPromotionWorld"
    using promotion_reconcile_read_only [OF _ _ conjunct1 [OF demo_promotion_history] _ prod.collapse [symmetric]] by fastforce
  then show ?thesis by (simp add: demoPromotionWorld_def)
qed

text \<open>
  A candidate whose exact publication proof is not durable is never promoted: both entry points fail and leave the
  journal, the repository, the capabilities and the log of sent writes untouched.
\<close>

lemma unpublished_never_promoted:
  assumes "\<not> publicationProven (memoryJournal rules) published w"
  shows "(\<exists>e. runTargetPromotion (memoryJournal rules) git published w = (Inl e, w)) \<and>
    (\<exists>e. reconcileTargetPromotionAttempt (memoryJournal rules) git published w = (Inl e, w))"
  using memory.unproven_inert [OF assms]
  by (metis reconcileTargetPromotionAttempt_def runTargetPromotion_def surj_pair)

lemma unpublished_never_promoted_witness:
  "\<exists>e. runTargetPromotion (memoryJournal openRules) demoPromotionGit demoPublished demoPromotionWorld = (Inl e, demoPromotionWorld)"
proof -
  have "publicationCorrelationOf demoPublished = demoPublication"
    by (simp add: publicationCorrelationOf_def demoPublished_def demoPublication_def)
  moreover have "validateRemotePublicationState demoRecords demoPublication = Inr PublicationAbsent"
    using validate_pubEvidence [OF demo_history conjunct1 [OF demo_publication_evidence]] by (simp add: pubState_def)
  ultimately have "\<not> publicationProven (memoryJournal openRules) demoPublished demoPromotionWorld"
    by (simp add: publicationProven_def memoryJournal_def demoPromotionWorld_def demo_read)
  from unpublished_never_promoted [OF this] show ?thesis by blast
qed

text \<open>
  A promotion request identity is injective on what it names: two candidates with well-formed commits have the same
  identity exactly when session, run ordinal and candidate commit agree, whatever characters the session identity has.
\<close>

theorem promotion_request_identity:
  assumes "validGitCommitSha (qc_candidateCommit a)" "validGitCommitSha (qc_candidateCommit b)"
  shows "targetPromotionRequestIdForCandidate a = targetPromotionRequestIdForCandidate b \<longleftrightarrow>
    se_sessionId (ir_session (qc_run a)) = se_sessionId (ir_session (qc_run b)) \<and>
    ir_ordinal (qc_run a) = ir_ordinal (qc_run b) \<and> qc_candidateCommit a = qc_candidateCommit b"
proof
  assume "targetPromotionRequestIdForCandidate a = targetPromotionRequestIdForCandidate b"
  then have "(se_sessionId (ir_session (qc_run a)) @ CHR '':'' # showNat (ir_ordinal (qc_run a))) @ CHR '':'' # qc_candidateCommit a =
      (se_sessionId (ir_session (qc_run b)) @ CHR '':'' # showNat (ir_ordinal (qc_run b))) @ CHR '':'' # qc_candidateCommit b"
    by (simp add: targetPromotionRequestIdForCandidate_def)
  note split = append_sep_inject_right [OF validGitCommitSha_no_colon [OF assms(1)] validGitCommitSha_no_colon [OF assms(2)] this]
  from append_sep_inject_right [OF colon_notin_showNat colon_notin_showNat conjunct1 [OF split]] split
  show "se_sessionId (ir_session (qc_run a)) = se_sessionId (ir_session (qc_run b)) \<and>
      ir_ordinal (qc_run a) = ir_ordinal (qc_run b) \<and> qc_candidateCommit a = qc_candidateCommit b" by simp
qed (simp add: targetPromotionRequestIdForCandidate_def)

theorem promotion_request_identity_witness:
  "targetPromotionRequestIdForCandidate demoCandidate \<noteq>
   targetPromotionRequestIdForCandidate (demoCandidate\<lparr>qc_candidateCommit := replicate 40 CHR ''f''\<rparr>)"
proof -
  have "validGitCommitSha (replicate 40 CHR ''a'')" "validGitCommitSha (replicate 40 CHR ''f'')" by code_simp+
  then show ?thesis
    using promotion_request_identity [of demoCandidate "demoCandidate\<lparr>qc_candidateCommit := replicate 40 CHR ''f''\<rparr>"]
    by (simp add: demoCandidate_def replicate_eq_replicate)
qed

end
