(* ===== verification/Publication_Properties.thy ===== *)
theory Publication_Properties
  imports Protocol_Demo
begin

text \<open>Properties of direct publication: the reducer, one run of the engine, operator control, and the Git parsers.\<close>

section \<open>The reducer\<close>

text \<open>
  C8. The reducer refines the protocol grammar: every event sequence the protocol can produce reduces, without a contradiction, to the
  state of the phase the grammar ends in, with the ordinals of all its attempts.
\<close>

theorem publication_reducer_refines:
  assumes "publication_history c es ph"
  shows "deriveRemotePublicationState es = publicationStateOfPhase c (publicationAttempts es) ph"
  using assms by (rule derive_publication_history)

definition demoPublicationEvents :: "RemotePublicationJournalEvent list" where
  "demoPublicationEvents = [RemotePublicationIntended demoPublication, attemptEvent demoPublication 1 None]"

lemma demo_publication_history: "publication_history demoPublication demoPublicationEvents (PhasePending [1] InitialAttempt None)"
  using publication_history.attempt [OF publication_history.intended, of 1 demoPublication]
  by (simp add: demoPublicationEvents_def remotePublicationAttemptLimit_def publicationAttempts_def)

theorem publication_reducer_refines_witness:
  "deriveRemotePublicationState demoPublicationEvents = PublicationPending InitialAttempt [1] [1] None demoPublication"
  using publication_reducer_refines [OF demo_publication_history]
  by (simp add: demoPublicationEvents_def publicationAttempts_def)

lemma publication_history_distinct_rejections:
  "publication_history c es ph \<Longrightarrow> distinct (List.map_filter publicationRejectionOf es)"
  by (induction rule: publication_history.induct) (auto dest: publication_history_rejections)

text \<open>
  Attempts stay bounded: in every protocol history the attempt ordinals are contiguous from one, no batch grant (or the initial
  allowance) is cited by more than three attempts, and no attempt ordinal is rejected twice.
\<close>

lemma publication_attempts_bounded:
  assumes "publication_history c es ph"
  shows "publicationAttempts es = [1..<Suc (length (publicationAttempts es))] \<and>
    count_list (attemptBatches es) g \<le> remotePublicationAttemptLimit \<and>
    distinct (List.map_filter publicationRejectionOf es)"
  using publication_history_attempts [OF assms] publication_history_batches [OF assms]
    publication_history_distinct_rejections [OF assms]
  by blast

lemma publication_attempts_bounded_witness: "count_list (attemptBatches demoPublicationEvents) None \<le> 3"
  using publication_attempts_bounded [OF demo_publication_history, of None] by (simp add: remotePublicationAttemptLimit_def)

text \<open>How a reduction ends in success, for any list of events.\<close>

lemma reduce_after_success:
  "reducePublication intent events prior (PhaseSucceeded p, seen) rest = Inr (ph, seen') \<Longrightarrow>
   ph = PhaseSucceeded p \<and> (\<forall>e\<in>set rest. \<exists>c request. e = RemotePublicationResumeRequested c request)"
proof (induction rest arbitrary: prior seen)
  case (Cons e rest)
  then show ?case by (cases e) (auto split: option.splits)
qed simp

lemma step_to_success:
  assumes "publicationStep intent events prior (phase, seen) e = Inr (PhaseSucceeded p, seen')" "\<not> isSucceededPhase phase"
  shows "\<exists>c. e = RemotePublicationSucceeded c p \<and> succeededPhase intent events prior phase p = Inr (PhaseSucceeded p)"
  using assms
  by (cases phase; cases e)
    (auto simp: attemptPhase_def retainedPhase_def resumePhase_def succeededPhase_def Let_def
      split: option.splits if_splits sum.splits ReductionPhase.splits)

lemma reduce_to_success:
  "reducePublication intent events prior (phase, seen) rest = Inr (PhaseSucceeded p, seen') \<Longrightarrow> \<not> isSucceededPhase phase \<Longrightarrow>
   \<exists>pre c post ph. rest = pre @ RemotePublicationSucceeded c p # post \<and>
     succeededPhase intent events (prior @ pre) ph p = Inr (PhaseSucceeded p) \<and>
     (\<forall>e\<in>set post. \<exists>c request. e = RemotePublicationResumeRequested c request)"
proof (induction rest arbitrary: prior phase seen)
  case (Cons e rest)
  then obtain phase' seen1 where step: "publicationStep intent events prior (phase, seen) e = Inr (phase', seen1)"
    and rest: "reducePublication intent events (prior @ [e]) (phase', seen1) rest = Inr (PhaseSucceeded p, seen')"
    by (auto split: sum.splits)
  show ?case
  proof (cases "isSucceededPhase phase'")
    case True
    then obtain q where q: "phase' = PhaseSucceeded q" by (cases phase') auto
    with reduce_after_success rest have post: "q = p" "\<forall>e\<in>set rest. \<exists>c request. e = RemotePublicationResumeRequested c request" by blast+
    obtain c where "e = RemotePublicationSucceeded c p" "succeededPhase intent events prior phase p = Inr (PhaseSucceeded p)"
      using step_to_success [OF step [unfolded q post(1)] Cons.prems(2)] by blast
    with post(2) show ?thesis by (intro exI [of _ "[]"]) auto
  next
    case False
    from Cons.IH [OF rest False] obtain pre c post ph where "rest = pre @ RemotePublicationSucceeded c p # post"
      "succeededPhase intent events ((prior @ [e]) @ pre) ph p = Inr (PhaseSucceeded p)"
      "\<forall>e\<in>set post. \<exists>c request. e = RemotePublicationResumeRequested c request" by blast
    then show ?thesis by (intro exI [of _ "e # pre"]) auto
  qed
qed simp

lemma findIndex_Some: "findIndex P xs = Some i \<Longrightarrow> i < length xs \<and> P (xs ! i)"
  by (induction xs arbitrary: i) (auto split: if_splits)

lemma succeededPhase_justified:
  assumes "succeededPhase intent events prior ph p = Inr (PhaseSucceeded p)"
  shows "\<exists>i. 0 < i \<and> i < length prior \<and> i < length events \<and> publicationAttemptOf (events ! i) = Some (attemptOrdinalOfProof p) \<and>
    (isPushProof p \<longrightarrow> attemptOrdinalOfProof p \<notin> set (List.map_filter publicationRejectionOf events)) \<and>
    (isCurrentHeadProof p \<longrightarrow> proof_remoteHead p = qc_candidateCommit (pc_qualifiedCandidate intent))"
  using assms
  by (auto simp: succeededPhase_def Let_def not_less not_le split: option.splits if_splits ReductionPhase.splits dest!: findIndex_Some)

text \<open>
  C22. The reducer never believes a success it cannot justify, whatever events it is given: a history reduces to
  \<open>PublicationSucceeded c p\<close> only when it opens with the outer intent of \<open>c\<close>, holds the proof \<open>p\<close> followed by
  nothing but resume receipts, and before the proof an attempt intent with the proof's ordinal; a current-head proof names the
  exact candidate commit, and an attempt that was rejected is not the one a push proof cites.
\<close>

theorem publication_success_justified:
  assumes "deriveRemotePublicationState es = PublicationSucceeded c p"
  shows "\<exists>pre d post i. es = RemotePublicationIntended c # pre @ RemotePublicationSucceeded d p # post \<and>
    (\<forall>e\<in>set post. \<exists>c' request. e = RemotePublicationResumeRequested c' request) \<and>
    i < length pre \<and> publicationAttemptOf (pre ! i) = Some (attemptOrdinalOfProof p) \<and>
    (isCurrentHeadProof p \<longrightarrow> proof_remoteHead p = qc_candidateCommit (pc_qualifiedCandidate c)) \<and>
    (isPushProof p \<longrightarrow> attemptOrdinalOfProof p \<notin> set (List.map_filter publicationRejectionOf es))"
proof -
  obtain rest where es: "es = RemotePublicationIntended c # rest"
    and reduced: "\<exists>seen. reducePublication c es [RemotePublicationIntended c] (PhasePending [] InitialAttempt None, []) rest =
        Inr (PhaseSucceeded p, seen)"
  proof (cases es)
    case (Cons e rest)
    then show ?thesis
    proof (cases e)
      case (RemotePublicationIntended intent)
      have "\<exists>ph seen. reducePublication intent es [RemotePublicationIntended intent] (PhasePending [] InitialAttempt None, []) rest =
          Inr (ph, seen) \<and> publicationStateOfPhase intent (publicationAttempts es) ph = PublicationSucceeded c p"
        using assms unfolding Cons RemotePublicationIntended
        by (auto simp: deriveRemotePublicationState_def simp del: reducePublication.simps split: option.splits sum.splits prod.splits)
      then obtain ph seen where red: "reducePublication intent es [RemotePublicationIntended intent] (PhasePending [] InitialAttempt None, []) rest =
          Inr (ph, seen)" and "publicationStateOfPhase intent (publicationAttempts es) ph = PublicationSucceeded c p" by blast
      then have "ph = PhaseSucceeded p" "intent = c" by (cases ph; simp)+
      with red Cons RemotePublicationIntended that show ?thesis by blast
    qed (use assms Cons in \<open>simp_all add: deriveRemotePublicationState_def\<close>)
  qed (use assms in \<open>simp add: deriveRemotePublicationState_def\<close>)
  from reduced obtain seen where "reducePublication c es [RemotePublicationIntended c] (PhasePending [] InitialAttempt None, []) rest =
      Inr (PhaseSucceeded p, seen)" by blast
  from reduce_to_success [OF this] obtain pre d post ph where rest: "rest = pre @ RemotePublicationSucceeded d p # post"
    "succeededPhase c es ([RemotePublicationIntended c] @ pre) ph p = Inr (PhaseSucceeded p)"
    "\<forall>e\<in>set post. \<exists>c request. e = RemotePublicationResumeRequested c request" by auto
  from succeededPhase_justified [OF rest(2)] obtain i where i: "0 < i" "i < Suc (length pre)"
    "publicationAttemptOf (es ! i) = Some (attemptOrdinalOfProof p)"
    "isPushProof p \<longrightarrow> attemptOrdinalOfProof p \<notin> set (List.map_filter publicationRejectionOf es)"
    "isCurrentHeadProof p \<longrightarrow> proof_remoteHead p = qc_candidateCommit (pc_qualifiedCandidate c)" by auto
  have "i - 1 < length pre" using i(1,2) by arith
  then have "es ! i = pre ! (i - 1)" using i(1) by (simp add: es rest(1) nth_Cons' nth_append)
  with i rest es show ?thesis
    by (intro exI [of _ pre] exI [of _ d] exI [of _ post] exI [of _ "i - 1"]) auto
qed

theorem publication_success_justified_witness:
  "\<exists>i. i < length [attemptEvent demoPublication 1 None] \<and>
     publicationAttemptOf ([attemptEvent demoPublication 1 None] ! i) = Some 1 \<and>
     deriveRemotePublicationState (demoPublicationEvents @ [RemotePublicationSucceeded demoPublication
       (PushApplied 1 (qc_candidateCommit demoCandidate))]) =
     PublicationSucceeded demoPublication (PushApplied 1 (qc_candidateCommit demoCandidate))"
proof -
  let ?p = "PushApplied 1 (qc_candidateCommit demoCandidate)"
  have "proofSound demoPublication demoPublicationEvents ?p"
    by (simp add: proofSound_def demoPublicationEvents_def publicationAttempts_def demoPublication_def List.map_filter_def)
  from derive_publication_history [OF publication_history.succeeded [OF demo_publication_history this]]
  have d: "deriveRemotePublicationState (demoPublicationEvents @ [RemotePublicationSucceeded demoPublication ?p]) =
      PublicationSucceeded demoPublication ?p" by simp
  from publication_success_justified [OF d] obtain pre d' post i where
    "demoPublicationEvents @ [RemotePublicationSucceeded demoPublication ?p] =
       RemotePublicationIntended demoPublication # pre @ RemotePublicationSucceeded d' ?p # post"
    "\<forall>e\<in>set post. \<exists>c' request. e = RemotePublicationResumeRequested c' request"
    "i < length pre" "publicationAttemptOf (pre ! i) = Some (attemptOrdinalOfProof ?p)" by blast
  then show ?thesis using d by (auto simp: demoPublicationEvents_def Cons_eq_append_conv intro!: exI [of _ 0])
qed

section \<open>One run of the engine\<close>



section \<open>Operator control\<close>

text \<open>
  Applying a direction is exact: on a journal whose directions are numbered from one without gaps, a refused application
  leaves the store as it was, and an accepted one adds exactly one record, with the requested direction and subject and the next
  number, to a run that has begun.
\<close>

theorem control_direction_applied:
  assumes "storeWellFormed j" "memoryRead rules j runId = Inr rs" "controlOrdinalsOk rs"
    and "runId = controlDirectionRunId (ac_subject request)"
  shows "case applyControlDirection (memoryJournal rules) request j of
      (Inl e, j') \<Rightarrow> j' = j
    | (Inr r, j') \<Rightarrow> storeWellFormed j' \<and> (\<exists>b. b \<in> set rs \<and> isBeganEvent (jr_event b)) \<and>
        jr_event r = ControlDirectionApplied (ac_direction request) (length (controlDirections rs) + 1) (ac_subject request) \<and>
        memoryRead rules j' runId = Inr (rs @ [r]) \<and> controlOrdinalsOk (rs @ [r])"
  using memory.apply_direction_cases [of j rules runId rs request] assms
  by (auto simp: memoryJournal_def split: prod.splits sum.splits)

definition demoPause :: ApplyControlDirectionRequest where
  "demoPause = \<lparr>ac_direction = Pause, ac_subject = RunSubject ''run''\<rparr>"

definition demoPaused :: MemoryJournalState where
  "demoPaused = snd (applyControlDirection (memoryJournal openRules) demoPause demoBegun)"

lemma demo_pause_record:
  "fst (applyControlDirection (memoryJournal openRules) demoPause demoBegun) =
    Inr \<lparr>jr_event = ControlDirectionApplied Pause 1 (RunSubject ''run''), jr_key = controlDirectionAppliedRecordKey 1,
         jr_position = 2, jr_runId = ''run''\<rparr>"
  by code_simp

lemma demo_ordinals: "controlOrdinalsOk demoRecords"
  by (simp add: controlOrdinalsOk_def controlDirections_def demoRecords_def)

theorem control_direction_applied_witness:
  "\<exists>r. memoryRead openRules demoPaused ''run'' = Inr (demoRecords @ [r]) \<and> jr_event r = ControlDirectionApplied Pause 1 (RunSubject ''run'')"
proof -
  have "''run'' = controlDirectionRunId (ac_subject demoPause)" by (simp add: demoPause_def)
  from control_direction_applied [OF demo_wellFormed demo_read demo_ordinals this]
  show ?thesis using demo_pause_record
    by (cases "applyControlDirection (memoryJournal openRules) demoPause demoBegun") (auto simp: demoPaused_def)
qed

text \<open>
  C24. A paused run or task publishes nothing: whatever the journal's publication evidence, the commands and the exit
  lifecycle, a publication run under the delivery boundary of a paused subject calls no Git operation and
  sends no push, and the subject is still paused afterwards.
\<close>

theorem paused_publication_inert:
  assumes "storeWellFormed (w_journal w)" "memoryRead rules (w_journal w) runId = Inr rs" "controlPaused rs task"
    and "runId = remotePublicationRunIdOf (remotePublicationCorrelationFor candidate target)"
    and run: "runRemotePublication (memoryJournal rules) git
      (deliveryBoundary (memoryJournal rules) before after ownerId runId task) candidate target w = (x, w')"
  shows "w_git w' = w_git w \<and> w_sent w' = w_sent w \<and>
    (\<exists>rs'. memoryRead rules (w_journal w') runId = Inr rs' \<and> controlPaused rs' task)"
proof -
  have at: "memory.pausedAt rules runId task (w_git w) (w_sent w) w"
    unfolding memory.pausedAt_def using assms(1-3) by (simp add: memoryJournal_def)
  note t = memory.triple_pausedRun [OF refl assms(4), where rules = rules and task = task and g = "w_git w" and S = "w_sent w"
      and git = git and before = before and after = after and ownerId = ownerId]
  have "memory.pausedAt rules runId task (w_git w) (w_sent w) w'"
    using triple_Inr [OF t at] triple_Inl [OF t at] run by (cases x) auto
  then show ?thesis unfolding memory.pausedAt_def by (auto simp: memoryJournal_def)
qed

lemma demo_paused_read:
  "memoryRead openRules demoPaused ''run'' = Inr (demoRecords @ [\<lparr>jr_event = ControlDirectionApplied Pause 1 (RunSubject ''run''),
     jr_key = controlDirectionAppliedRecordKey 1, jr_position = 2, jr_runId = ''run''\<rparr>])"
  by code_simp

lemma demo_paused_wellFormed: "storeWellFormed demoPaused"
proof -
  have app: "applyControlDirection (memoryJournal openRules) demoPause demoBegun =
      (Inr \<lparr>jr_event = ControlDirectionApplied Pause 1 (RunSubject ''run''), jr_key = controlDirectionAppliedRecordKey 1,
         jr_position = 2, jr_runId = ''run''\<rparr>, demoPaused)"
    using demo_pause_record by (simp add: demoPaused_def prod_eq_iff)
  have "''run'' = controlDirectionRunId (ac_subject demoPause)" by (simp add: demoPause_def)
  with memory.apply_direction_cases [of demoBegun openRules "''run''" demoRecords demoPause] app demo_wellFormed demo_read demo_ordinals
  show ?thesis by (simp add: memoryJournal_def)
qed

theorem paused_publication_inert_witness:
  "w_sent (snd (runRemotePublication (memoryJournal openRules) (nodeGitDirectPublication demoCommands (Some ''/r''))
     (deliveryBoundary (memoryJournal openRules) initialLifecycle initialLifecycle 0 ''run'' ''task'') demoCandidate demoTarget
     (demoWorld\<lparr>w_journal := demoPaused\<rparr>))) = []"
proof -
  have "storeWellFormed (w_journal (demoWorld\<lparr>w_journal := demoPaused\<rparr>))" by (simp add: demo_paused_wellFormed)
  moreover note demo_paused_read
  moreover have "controlPaused (demoRecords @ [\<lparr>jr_event = ControlDirectionApplied Pause 1 (RunSubject ''run''),
     jr_key = controlDirectionAppliedRecordKey 1, jr_position = 2, jr_runId = ''run''\<rparr>]) ''task''"
    by (simp add: controlPaused_def controlDirections_def demoRecords_def List.map_filter_def)
  moreover have "''run'' = remotePublicationRunIdOf (remotePublicationCorrelationFor demoCandidate demoTarget)"
    by (simp add: demoPublication_def [symmetric])
  ultimately show ?thesis
    using paused_publication_inert [of "demoWorld\<lparr>w_journal := demoPaused\<rparr>", OF _ _ _ _ prod.collapse [symmetric]]
    by (fastforce simp: demoWorld_def)
qed

end
