(* ===== verification/Resume_Properties.thy ===== *)
theory Resume_Properties
  imports Protocol_Demo
begin

text \<open>
  Properties of the operations around a publication run: admission of the pinned destination, resumption on the operator's request,
  and the one way a blocked publication and a waiting grant strand each other.
\<close>

section \<open>Admission\<close>

lemma find_key:
  assumes "distinct (map jr_key rs)" "r \<in> set rs" "jr_key r = key"
  shows "List.find (\<lambda>r. jr_key r = key) rs = Some r"
  using assms by (induction rs) (auto simp: image_iff)

definition runBeginnings :: "JournalRecord list \<Rightarrow> WorkflowRunBeganFields list" where
  "runBeginnings records = List.map_filter (\<lambda>r. case jr_event r of WorkflowRunBegan b \<Rightarrow> Some b | _ \<Rightarrow> None) records"

lemma runBeginnings_append: "runBeginnings (rs @ [r]) = runBeginnings rs @ runBeginnings [r]"
  by (simp add: runBeginnings_def)

context in_run_journal
begin

lemma readPublication_unchanged:
  assumes "readPublicationEvidence journal runId w = (Inr rs, w')"
  shows "w' = w \<and> ij_read journal runId (w_journal w) = (Inr rs, w_journal w)"
  using assms read_unchanged by (auto simp: readPublicationEvidence_def liftJournal_Inr)

text \<open>A recorded observation answers a later admission without another read of Git.\<close>

lemma admit_recorded:
  assumes "ij_read journal runId (w_journal w) = (Inr rs, w_journal w)" "runBeginnings rs = began # others"
    and "rb_remotePublicationTarget began = target"
    and "List.find (\<lambda>r. jr_key r = remotePublicationAdmissionObservedRecordKey (remotePublicationAdmissionIdFor runId target)) rs = Some r"
    and "admissionObservationOf r = Some observation" "observation \<noteq> AdmissionTargetMissing"
  shows "admitRemotePublicationTarget journal git runId target w = (Inr observation, w)"
proof -
  have "readPublicationEvidence journal runId w = (Inr rs, w)"
    using assms(1) by (simp add: readPublicationEvidence_def liftJournal_def)
  with assms(2-) show ?thesis
    by (simp add: admitRemotePublicationTarget_def andThen_def Let_def runBeginnings_def)
qed

lemma appended_prefix:
  assumes v: "valid (w_journal w)" and rd: "ij_read journal runId (w_journal w) = (Inr rs, w_journal w)"
    and run: "liftJournal PublicationJournalError (ij_append journal runId key (RemotePublicationEvent e)) w = (Inr r, w')"
  shows "\<exists>rs'. valid (w_journal w') \<and> ij_read journal runId (w_journal w') = (Inr rs', w_journal w') \<and> runBeginnings rs' = runBeginnings rs \<and>
    r \<in> set rs' \<and> jr_key r = key \<and> jr_event r = RemotePublicationEvent e \<and> w_sent w' = w_sent w"
proof -
  from run obtain j where app: "ij_append journal runId key (RemotePublicationEvent e) (w_journal w) = (Inr r, j)"
    and w': "w' = w\<lparr>w_journal := j\<rparr>" by (auto simp: liftJournal_Inr)
  from v rd app show ?thesis
  proof (cases rule: append_from_history)
    case existing
    with v rd show ?thesis by (auto simp: w')
  next
    case extended
    then have "runBeginnings (rs @ [r]) = runBeginnings rs"
      by (simp add: runBeginnings_append) (simp add: runBeginnings_def nextRecord_def List.map_filter_def)
    with extended append_valid [OF v app] show ?thesis
      by (intro exI [of _ "rs @ [r]"]) (auto simp: w' nextRecord_def)
  qed
qed

lemma admission_durable:
  assumes v: "valid (w_journal w)" and run: "admitRemotePublicationTarget journal git runId target w = (Inr observation, w')"
  shows "observation \<noteq> AdmissionTargetMissing \<and> w_sent w' = w_sent w \<and>
    (\<exists>rs began others. ij_read journal runId (w_journal w') = (Inr rs, w_journal w') \<and> runBeginnings rs = began # others \<and>
       rb_remotePublicationTarget began = target) \<and>
    admitRemotePublicationTarget journal git' runId target w' = (Inr observation, w')"
proof -
  let ?id = "remotePublicationAdmissionIdFor runId target"
  let ?key = "remotePublicationAdmissionObservedRecordKey ?id"
  from run obtain rs began others where rd: "ij_read journal runId (w_journal w) = (Inr rs, w_journal w)"
    and began: "runBeginnings rs = began # others" "rb_remotePublicationTarget began = target"
    and missing: "observation \<noteq> AdmissionTargetMissing"
    and rest: "(case Option.bind (List.find (\<lambda>r. jr_key r = ?key) rs) admissionObservationOf of
         Some recorded \<Rightarrow> succeed recorded
       | None \<Rightarrow>
           andThen (liftJournal PublicationJournalError (ij_append journal runId (remotePublicationAdmissionReadIntendedRecordKey ?id)
             (RemotePublicationEvent (RemotePublicationAdmissionReadIntended ?id runId target)))) (\<lambda>_.
           andThen (callGit (pg_admit git target)) (\<lambda>admitted. case admitted of
             Inl reason \<Rightarrow> fail (PublicationObservationFailure reason)
           | Inr current \<Rightarrow>
               andThen (liftJournal PublicationJournalError (ij_append journal runId ?key
                 (RemotePublicationEvent (RemotePublicationAdmissionObserved ?id current runId target)))) (\<lambda>_. succeed current)))) w =
       (Inr observation, w')"
    unfolding admitRemotePublicationTarget_def
    by (auto elim!: andThen_InrE dest!: readPublication_unchanged split: list.splits if_splits
        simp: Let_def runBeginnings_def [symmetric])
  show ?thesis
  proof (cases "Option.bind (List.find (\<lambda>r. jr_key r = ?key) rs) admissionObservationOf")
    case (Some recorded)
    with rest have "recorded = observation" "w' = w" by auto
    with Some admit_recorded [OF rd began] rd began missing show ?thesis by (auto simp: bind_eq_Some_conv)
  next
    case None
    with rest obtain r1 w1 g r2 where
      w1: "liftJournal PublicationJournalError (ij_append journal runId (remotePublicationAdmissionReadIntendedRecordKey ?id)
        (RemotePublicationEvent (RemotePublicationAdmissionReadIntended ?id runId target))) w = (Inr r1, w1)"
      and w2: "liftJournal PublicationJournalError (ij_append journal runId ?key
        (RemotePublicationEvent (RemotePublicationAdmissionObserved ?id observation runId target))) (w1\<lparr>w_git := g\<rparr>) = (Inr r2, w')"
      by (auto elim!: andThen_InrE split: sum.splits)
    from appended_prefix [OF v rd w1] obtain rs1 where rs1: "valid (w_journal w1)"
      "ij_read journal runId (w_journal w1) = (Inr rs1, w_journal w1)" "runBeginnings rs1 = began # others" "w_sent w1 = w_sent w"
      using began by auto
    then have "valid (w_journal (w1\<lparr>w_git := g\<rparr>))" "ij_read journal runId (w_journal (w1\<lparr>w_git := g\<rparr>)) = (Inr rs1, w_journal (w1\<lparr>w_git := g\<rparr>))"
      by simp_all
    from appended_prefix [OF this w2] obtain rs2 where rs2: "valid (w_journal w')"
      "ij_read journal runId (w_journal w') = (Inr rs2, w_journal w')" "runBeginnings rs2 = began # others"
      "r2 \<in> set rs2" "jr_key r2 = ?key" "w_sent w' = w_sent w"
      "jr_event r2 = RemotePublicationEvent (RemotePublicationAdmissionObserved ?id observation runId target)"
      using rs1 by auto
    have "distinct (map jr_key rs2)" using read_wellFormed [OF rs2(1,2)] by (simp add: wellFormedHistory_def)
    from admit_recorded [OF rs2(2,3) began(2) find_key [OF this rs2(4,5)]] rs2 began missing show ?thesis by auto
  qed
qed

end

text \<open>
  Admission is durable and pinned: on any valid memory journal, an admitted observation belongs to a run whose beginning pinned
  exactly that destination, is never a missing branch, sends nothing, and from then on is the answer to every later admission,
  with any Git authority, without reading Git or writing the journal again.
\<close>

theorem admission_idempotent:
  assumes "storeWellFormed (w_journal w)" "admitRemotePublicationTarget (memoryJournal rules) git runId target w = (Inr observation, w')"
  shows "observation \<noteq> AdmissionTargetMissing \<and> w_sent w' = w_sent w \<and>
    (\<exists>rs began others. memoryRead rules (w_journal w') runId = Inr rs \<and> runBeginnings rs = began # others \<and>
       rb_remotePublicationTarget began = target) \<and>
    admitRemotePublicationTarget (memoryJournal rules) git' runId target w' = (Inr observation, w')"
  using memory.admission_durable [OF assms] by (fastforce simp: memoryJournal_def)

definition advertisingCommands :: "unit GitCommandService" where
  "advertisingCommands = demoCommands\<lparr>gc_run := Some (\<lambda>repository args timeout subject g.
     (Inr (if hd args = ''config'' then exitedOne
           else \<lparr>gr_exitCode = 0, gr_stderr = [], gr_stdout = replicate 40 CHR ''b'' @ tab # ''refs/heads/main'' @ [newline]\<rparr>), g))\<rparr>"

lemma demo_admitted:
  "fst (admitRemotePublicationTarget (memoryJournal openRules) (nodeGitDirectPublication advertisingCommands (Some ''/r'')) ''run'' demoTarget
     demoWorld) = Inr (ExistingBranch (replicate 40 CHR ''b''))"
  by code_simp

theorem admission_idempotent_witness:
  "fst (admitRemotePublicationTarget (memoryJournal openRules) (nodeGitDirectPublication demoCommands None) ''run'' demoTarget
     (snd (admitRemotePublicationTarget (memoryJournal openRules) (nodeGitDirectPublication advertisingCommands (Some ''/r'')) ''run''
        demoTarget demoWorld))) = Inr (ExistingBranch (replicate 40 CHR ''b''))"
proof -
  obtain w' where run: "admitRemotePublicationTarget (memoryJournal openRules) (nodeGitDirectPublication advertisingCommands (Some ''/r''))
      ''run'' demoTarget demoWorld = (Inr (ExistingBranch (replicate 40 CHR ''b'')), w')"
    using demo_admitted by (metis prod.collapse)
  have "storeWellFormed (w_journal demoWorld)" by (simp add: demoWorld_def demo_wellFormed)
  from admission_idempotent [OF this run, of "nodeGitDirectPublication demoCommands None"] show ?thesis by (simp add: run)
qed

section \<open>Resumption\<close>

lemma activated_only:
  "triple P (andThen m (\<lambda>state. succeed (state, True))) (\<lambda>outcome v. \<not> snd outcome \<longrightarrow> v = w) (\<lambda>_ _. True)"
  by (auto simp: triple_def andThen_def split: prod.splits sum.splits)

lemma resumed_only:
  "triple P (andThen m (\<lambda>_. andThen k (\<lambda>state. succeed (state, True)))) (\<lambda>outcome v. \<not> snd outcome \<longrightarrow> v = w) (\<lambda>_ _. True)"
  by (auto simp: triple_def andThen_def split: prod.splits sum.splits)

context in_run_journal
begin

lemma resume_inactive:
  "triple (\<lambda>v. v = w) (resumeRemotePublicationOutcome journal git boundary finalitySettled candidate target request)
     (\<lambda>outcome v. \<not> snd outcome \<longrightarrow> v = w) (\<lambda>_ _. True)"
  (is "triple ?P _ ?Q ?E")
proof -
  have stay: "triple ?P (succeed (state, b)) ?Q ?E" and failed: "triple ?P (fail e) ?Q ?E" for state b e
    by (simp_all add: triple_def)
  have read: "triple ?P (readPublicationEvidence journal runId) (\<lambda>_. ?P) ?E" for runId
    using readPublication_unchanged by (fastforce simp: triple_def split: prod.splits sum.splits)
  show ?thesis
    unfolding resumeRemotePublicationOutcome_def Let_def
    by (intro triple_if failed triple_andThen [OF read])
      (auto intro!: stay failed resumed_only activated_only split: option.split sum.split RemotePublicationState.split prod.split)
qed

end

text \<open>
  Resuming is careful: a request for another run or responsibility is refused with the mismatch and changes nothing, and an answer
  that is not activated (a settled or superseded receipt, a publication that is not retained, a cause that cannot be resumed, a
  spent allowance) leaves the journal, the repository and the log of sent writes exactly as they were.
\<close>

theorem resume_inactive_inert:
  assumes "resumeRemotePublicationOutcome (memoryJournal rules) git boundary finalitySettled candidate target request w = (x, w')"
  shows "(rr_runId request \<noteq> pa_runId (se_plannedAttempt (ir_session (qc_run candidate))) \<longrightarrow>
      x = Inl (RemotePublicationResumeSubjectMismatch (rr_requestId request) (pa_runId (se_plannedAttempt (ir_session (qc_run candidate))))) \<and>
      w' = w) \<and>
    (\<forall>state. x = Inr (state, False) \<longrightarrow> w' = w)"
proof (intro conjI impI allI)
  assume "rr_runId request \<noteq> pa_runId (se_plannedAttempt (ir_session (qc_run candidate)))"
  then have "(x, w') = (Inl (RemotePublicationResumeSubjectMismatch (rr_requestId request)
      (pa_runId (se_plannedAttempt (ir_session (qc_run candidate))))), w)"
    using assms by (simp add: resumeRemotePublicationOutcome_def Let_def remotePublicationRunIdOf_def remotePublicationCorrelationFor_def)
  then show "x = Inl (RemotePublicationResumeSubjectMismatch (rr_requestId request)
      (pa_runId (se_plannedAttempt (ir_session (qc_run candidate)))))" "w' = w" by auto
next
  fix state
  assume "x = Inr (state, False)"
  with triple_Inr [OF memory.resume_inactive [of w rules git boundary finalitySettled candidate target request] refl] assms
  show "w' = w" by simp
qed

definition demoResume :: RemotePublicationResumeRequest where
  "demoResume = \<lparr>rr_requestId = ''resume'', rr_responsibility = integrationResponsibilityIdentity (se_plannedAttempt demoSession) 1,
     rr_runId = ''run''\<rparr>"

definition demoBoundary :: "(MemoryJournalState, unit) RemotePublicationPhaseBoundary" where
  "demoBoundary = deliveryBoundary (memoryJournal openRules) initialLifecycle initialLifecycle 0 ''run'' ''task''"

lemma demo_resume_absent:
  "fst (resumeRemotePublicationOutcome (memoryJournal openRules) (nodeGitDirectPublication demoCommands None) demoBoundary (\<lambda>_ _. False)
     demoCandidate demoTarget demoResume demoWorld) = Inr (PublicationAbsent, False)"
  by code_simp

theorem resume_inactive_inert_witness:
  "snd (resumeRemotePublicationOutcome (memoryJournal openRules) (nodeGitDirectPublication demoCommands None) demoBoundary (\<lambda>_ _. False)
     demoCandidate demoTarget demoResume demoWorld) = demoWorld"
proof -
  obtain w' where run: "resumeRemotePublicationOutcome (memoryJournal openRules) (nodeGitDirectPublication demoCommands None) demoBoundary
      (\<lambda>_ _. False) demoCandidate demoTarget demoResume demoWorld = (Inr (PublicationAbsent, False), w')"
    using demo_resume_absent by (metis prod.collapse)
  from resume_inactive_inert [OF run] show ?thesis by (simp add: run)
qed

section \<open>A grant that waits for the first attempt\<close>


end
