(* ===== verification/Git_Properties.thy ===== *)
theory Git_Properties
  imports Protocol_Demo
begin

text \<open>Properties of the Node Git adapter: what its parsers accept, what its commands are, and what its observations mean.\<close>

section \<open>Push output\<close>

text \<open>
  A push counts as applied or as up to date exactly when Git exited with zero and reported one reference, with the refspec
  of the candidate and the pinned branch and the flag of a new, a fast-forwarded or an unchanged reference; a forced or a deleted
  reference never counts, and the head reported is the candidate.
\<close>

lemma push_result_exact:
  "(parsePushResult result candidate target = Inr (PushResultApplied h) \<longleftrightarrow>
     h = candidate \<and> gr_exitCode result = 0 \<and>
     (\<exists>status. parsePushStatuses (nonEmptyLines (gr_stdout result)) = Some [status] \<and>
        ps_refspec status = candidate @ '':'' @ rt_branch target \<and> ps_flag status \<in> {CHR ''*'', CHR '' ''})) \<and>
   (parsePushResult result candidate target = Inr (PushResultUpToDate h) \<longleftrightarrow>
     h = candidate \<and> gr_exitCode result = 0 \<and>
     (\<exists>status. parsePushStatuses (nonEmptyLines (gr_stdout result)) = Some [status] \<and>
        ps_refspec status = candidate @ '':'' @ rt_branch target \<and> ps_flag status = CHR ''=''))"
proof (cases "parsePushStatuses (nonEmptyLines (gr_stdout result))")
  case (Some statuses)
  show ?thesis
  proof (cases "\<exists>status. statuses = [status]")
    case True
    then obtain status where statuses: "parsePushStatuses (nonEmptyLines (gr_stdout result)) = Some [status]" using Some by blast
    show ?thesis
    proof (cases "ps_refspec status = candidate @ '':'' @ rt_branch target")
      case True
      with statuses show ?thesis
        by (cases "ps_flag status \<in> {CHR ''*'', CHR '' '', CHR ''=''}") (auto simp: parsePushResult_def Let_def)
    next
      case False
      with statuses show ?thesis by (simp add: parsePushResult_def Let_def)
    qed
  next
    case False
    with Some show ?thesis by (cases statuses) (auto simp: parsePushResult_def Let_def split: list.split)
  qed
qed (simp add: parsePushResult_def)

lemma splitLines_append:
  assumes "newline \<notin> set s" "carriageReturn \<notin> set s"
  shows "splitLines (s @ newline # t) = s # splitLines t"
proof -
  have "dropCarriageReturn s = s" using assms(2) last_in_set [of s] by (fastforce simp: dropCarriageReturn_def)
  moreover have "splitOn newline t \<noteq> []" by (induction t) (auto split: list.splits)
  ultimately show ?thesis using assms(1) by (simp add: splitLines_def splitOn_sep Let_def)
qed

lemma nonEmptyLines_append:
  "newline \<notin> set s \<Longrightarrow> carriageReturn \<notin> set s \<Longrightarrow> s \<noteq> [] \<Longrightarrow> nonEmptyLines (s @ newline # t) = s # nonEmptyLines t"
  by (simp add: nonEmptyLines_def splitLines_append)

lemma nonEmptyLines_Nil [simp]: "nonEmptyLines [] = []"
  by (simp add: nonEmptyLines_def splitLines_def)

text \<open>The porcelain report of one reference, between its header and its trailer.\<close>

definition porcelainStatus :: "PushStatus \<Rightarrow> string" where
  "porcelainStatus status = [ps_flag status, tab] @ ps_refspec status @ tab # ps_summary status"

definition porcelainReport :: "string \<Rightarrow> PushStatus \<Rightarrow> string" where
  "porcelainReport endpoint status =
     (''To '' @ endpoint) @ newline # porcelainStatus status @ newline # ''Done'' @ [newline]"

definition plainText :: "string \<Rightarrow> bool" where
  "plainText s \<longleftrightarrow> newline \<notin> set s \<and> carriageReturn \<notin> set s"

lemma parsePushStatus_porcelain:
  assumes "ps_flag status \<in> set ''* =!+-''" "ps_refspec status \<noteq> []" "tab \<notin> set (ps_refspec status)" "plainText (ps_summary status)"
  shows "parsePushStatus (porcelainStatus status) = Some status"
proof -
  have "takeWhile (\<lambda>c. c \<noteq> tab) (ps_refspec status @ tab # ps_summary status) = ps_refspec status"
    and "dropWhile (\<lambda>c. c \<noteq> tab) (ps_refspec status @ tab # ps_summary status) = tab # ps_summary status"
    using assms(3) by (auto simp: takeWhile_append dropWhile_append)
  then show ?thesis using assms by (simp add: parsePushStatus_def porcelainStatus_def Let_def plainText_def)
qed

lemma literals_plain: "plainText ''To ''" "plainText ''Done''"
  by (simp_all add: plainText_def control_chars)

lemma flag_plain: "c \<in> set ''* =!+-'' \<Longrightarrow> c \<noteq> newline \<and> c \<noteq> carriageReturn"
  by (auto simp: control_chars)

text \<open>
  The parser reads back what Git prints: a porcelain report of one reference, with its header and trailer, parses to exactly
  the flag, refspec and summary it was printed from.
\<close>

theorem push_report_roundtrip:
  assumes "ps_flag status \<in> set ''* =!+-''" "ps_refspec status \<noteq> []" "tab \<notin> set (ps_refspec status)"
    and "plainText (ps_refspec status)" "plainText (ps_summary status)" "plainText endpoint"
  shows "parsePushStatuses (nonEmptyLines (porcelainReport endpoint status)) = Some [status]"
proof -
  let ?line = "porcelainStatus status"
  have line: "plainText ?line" using assms flag_plain [OF assms(1)] by (simp add: porcelainStatus_def plainText_def) auto
  have head: "plainText (''To '' @ endpoint)" using assms(6) literals_plain(1) by (simp add: plainText_def)
  have lines: "nonEmptyLines (porcelainReport endpoint status) = [''To '' @ endpoint, ?line, ''Done'']"
    using line head literals_plain(2) nonEmptyLines_append [of "''To '' @ endpoint"] nonEmptyLines_append [of ?line]
      nonEmptyLines_append [of "''Done''" "[]"]
    unfolding porcelainReport_def plainText_def by (simp add: porcelainStatus_def)
  have "\<not> prefix ''To '' ?line" "?line \<noteq> ''Done''"
    by (simp_all add: porcelainStatus_def control_chars)
  then show ?thesis using parsePushStatus_porcelain [OF assms(1-3,5)] by (simp add: lines)
qed

theorem push_report_roundtrip_witness:
  "parsePushStatuses (nonEmptyLines (porcelainReport ''git@h:r''
     \<lparr>ps_flag = CHR '' '', ps_refspec = ''a:refs/heads/main'', ps_summary = ''1..2''\<rparr>)) =
   Some [\<lparr>ps_flag = CHR '' '', ps_refspec = ''a:refs/heads/main'', ps_summary = ''1..2''\<rparr>]"
  by (rule push_report_roundtrip) (simp_all add: plainText_def control_chars)

section \<open>The advertised head\<close>

lemma sha_plain: "validGitCommitSha sha \<Longrightarrow> plainText sha \<and> tab \<notin> set sha \<and> sha \<noteq> []"
  by (fastforce simp: validGitCommitSha_def plainText_def list_all_iff isHexLower_def isDigit_def control_chars)

text \<open>
  The advertised head is read exactly: an advertisement of the target's branch at a commit parses to that commit, and whatever
  parses to a commit was an exit with zero and a single line holding that well-formed commit and the target's branch.
\<close>

theorem advertised_head_roundtrip:
  assumes "plainText (rt_branch target)" "tab \<notin> set (rt_branch target)"
  shows "(validGitCommitSha sha \<longrightarrow>
      parseAdvertisedHead \<lparr>gr_exitCode = 0, gr_stderr = err, gr_stdout = sha @ tab # rt_branch target @ [newline]\<rparr> target = Inr sha) \<and>
    (parseAdvertisedHead result target = Inr sha \<longrightarrow>
      gr_exitCode result = 0 \<and> validGitCommitSha sha \<and> nonEmptyLines (gr_stdout result) = [sha @ tab # rt_branch target])"
proof (intro conjI impI)
  assume sha: "validGitCommitSha sha"
  let ?line = "sha @ tab # rt_branch target"
  have "nonEmptyLines (?line @ [newline]) = [?line]"
    using sha_plain [OF sha] assms by (intro nonEmptyLines_line) (auto simp: plainText_def)
  moreover have "splitOn tab ?line = [sha, rt_branch target]"
    using sha_plain [OF sha] assms(2) by (simp add: splitOn_sep splitOn_absent)
  ultimately show "parseAdvertisedHead \<lparr>gr_exitCode = 0, gr_stderr = err, gr_stdout = sha @ tab # rt_branch target @ [newline]\<rparr> target = Inr sha"
    using sha by (simp add: parseAdvertisedHead_def reportsNoMatchingRef_def noMatchingRemoteRefExitCode_def)
next
  assume parsed: "parseAdvertisedHead result target = Inr sha"
  then obtain line ref where "nonEmptyLines (gr_stdout result) = [line]" "splitOn tab line = [sha, ref]" "ref = rt_branch target"
    by (auto simp: parseAdvertisedHead_def split: list.splits if_splits)
  then show "nonEmptyLines (gr_stdout result) = [sha @ tab # rt_branch target]"
    using joinOn_splitOn [of tab line] by simp
qed (auto simp: parseAdvertisedHead_def split: list.splits if_splits)

theorem advertised_head_roundtrip_witness:
  "parseAdvertisedHead \<lparr>gr_exitCode = 0, gr_stderr = [], gr_stdout = replicate 40 CHR ''a'' @ tab # ''refs/heads/main'' @ [newline]\<rparr>
     \<lparr>rt_branch = ''refs/heads/main'', rt_endpoint = ''git@h:r''\<rparr> = Inr (replicate 40 CHR ''a'')"
  using advertised_head_roundtrip [of "\<lparr>rt_branch = ''refs/heads/main'', rt_endpoint = ''git@h:r''\<rparr>" "replicate 40 CHR ''a''" "[]"]
  by (simp add: plainText_def control_chars validGitCommitSha_def isHexLower_def list_all_iff)

section \<open>Endpoint pinning\<close>





definition plainCommands :: "unit GitCommandService" where
  "plainCommands = \<lparr>gc_now = (\<lambda>g. (0, g)), gc_run = Some (\<lambda>repository args timeout subject g. (Inr exitedOne, g)),
     gc_prepare = None, gc_reconcile = None, gc_validEndpoint = (\<lambda>_. True)\<rparr>"




section \<open>What a push runs\<close>

text \<open>Any command service, with the argument lists it was given recorded.\<close>

definition recordCommands :: "'g GitCommandService \<Rightarrow> ('g \<times> string list list) GitCommandService" where
  "recordCommands commands =
     \<lparr>gc_now = (\<lambda>(g, log). case gc_now commands g of (t, g') \<Rightarrow> (t, (g', log))),
      gc_run = map_option (\<lambda>bounded repository args timeout subject (g, log).
        case bounded repository args timeout subject g of (x, g') \<Rightarrow> (x, (g', log @ [args]))) (gc_run commands),
      gc_prepare = None, gc_reconcile = None, gc_validEndpoint = gc_validEndpoint commands\<rparr>"

definition pushArgs :: "string list \<Rightarrow> RemotePublicationTarget \<Rightarrow> string \<Rightarrow> string list" where
  "pushArgs pinned target refspec =
     pinned @ [''push'', ''--porcelain'', ''--no-follow-tags'', ''--recurse-submodules=no'', ''--'', rt_endpoint target, refspec]"

definition configArgs :: "string list" where
  "configArgs = [''config'', ''--null'', ''--get-regexp'', gitConfigRewritePattern]"

text \<open>The log grows only by the commands.\<close>

lemma record_run:
  assumes "gc_run (recordCommands commands) = Some bounded"
  shows "triple (\<lambda>w. snd w = log) (bounded repository args timeout subject) (\<lambda>_ w. snd w = log @ [args]) (\<lambda>_ w. snd w = log @ [args])"
  using assms by (auto simp: recordCommands_def triple_def split: prod.splits)

lemma triple_mapError_state: "triple P m Q (\<lambda>_. E) \<Longrightarrow> triple P (mapError f m) Q (\<lambda>_. E)"
  by (rule triple_mapError)

lemma record_remaining:
  "triple (\<lambda>w. snd w = log) (remainingOperationTimeout (recordCommands commands) deadline) (\<lambda>_ w. snd w = log) (\<lambda>_ w. snd w = log)"
  by (auto simp: remainingOperationTimeout_def recordCommands_def triple_def split: prod.splits if_splits)

lemma record_deadline:
  "triple (\<lambda>w. snd w = log) (operationDeadline (recordCommands commands) budget) (\<lambda>_ w. snd w = log) (\<lambda>_ w. snd w = log)"
  by (auto simp: operationDeadline_def recordCommands_def triple_def split: prod.splits)

lemma record_bounded:
  "triple (\<lambda>w. snd w = log) (runBounded (recordCommands commands) repository args deadline subject)
     (\<lambda>_ w. snd w = log @ [args]) (\<lambda>_ w. snd w \<in> {log, log @ [args]})"
  unfolding runBounded_def
proof (rule triple_bind [OF record_remaining])
  show "triple (\<lambda>w. snd w = log) (case gc_run (recordCommands commands) of None \<Rightarrow> fail GitCommandSenderStopUnproven
      | Some bounded \<Rightarrow> bounded repository args timeout subject) (\<lambda>_ w. snd w = log @ [args]) (\<lambda>_ w. snd w \<in> {log, log @ [args]})" for timeout
    by (rule triple_case_option, rule triple_fail, simp) (rule triple_conseq [OF record_run], auto)
qed simp

lemma record_config:
  "triple (\<lambda>w. snd w = log) (parseConfigRules (recordCommands commands) repository timeout)
     (\<lambda>_ w. snd w = log @ [configArgs]) (\<lambda>_ w. snd w \<in> {log, log @ [configArgs]})"
  unfolding parseConfigRules_def configArgs_def [symmetric]
proof (rule triple_case_option, goal_cases)
  case (2 bounded)
  show ?case
  proof (rule triple_bind [OF triple_mapError_state [OF record_run [OF 2]]])
    show "triple (\<lambda>w. snd w = log @ [configArgs]) (if gr_exitCode result = 1 then succeed [] else if gr_exitCode result \<noteq> 0
        then fail EndpointMappingUnstable else case parseRewriteRules (gr_stdout result) of
          None \<Rightarrow> fail EndpointMappingUnstable | Some rules \<Rightarrow> succeed rules)
      (\<lambda>_ w. snd w = log @ [configArgs]) (\<lambda>_ w. snd w \<in> {log, log @ [configArgs]})" for result
      by (auto simp: triple_def split: option.splits)
  qed simp
qed (rule triple_fail, simp)

lemma record_resolve:
  "triple (\<lambda>w. snd w = log) (resolvePinnedEndpoint (recordCommands commands) repository target deadline)
     (\<lambda>pinned w. pinnedCommandPrefix (rt_endpoint target) = Some pinned \<and> snd w = log @ [configArgs])
     (\<lambda>_ w. snd w \<in> {log, log @ [configArgs]})"
  unfolding resolvePinnedEndpoint_def
proof (rule triple_bind [OF triple_mapError_state [OF record_remaining]])
  show "triple (\<lambda>w. snd w = log) (andThen (parseConfigRules (recordCommands commands) repository timeout) (\<lambda>rules.
      case pinnedPrefixFor (gc_validEndpoint (recordCommands commands)) (rt_endpoint target) rules of
        None \<Rightarrow> fail EndpointMappingUnstable | Some pinned \<Rightarrow> succeed pinned))
    (\<lambda>pinned w. pinnedCommandPrefix (rt_endpoint target) = Some pinned \<and> snd w = log @ [configArgs])
    (\<lambda>_ w. snd w \<in> {log, log @ [configArgs]})" for timeout
    by (rule triple_andThen [OF record_config])
      (auto simp: triple_def pinnedPrefixFor_def Let_def split: option.splits if_splits)
qed simp

definition pushLog :: "RemotePublicationGitRequest \<Rightarrow> string list list \<Rightarrow> bool" where
  "pushLog request log \<longleftrightarrow>
     (\<exists>pinned. pinnedCommandPrefix (rt_endpoint (pr_target request)) = Some pinned \<and>
        log = [configArgs, pushArgs pinned (pr_target request) (pr_refspec request)])"

lemma record_push:
  "triple (\<lambda>w. snd w = []) (nodePush (recordCommands commands) repo request n)
     (\<lambda>_ w. pushLog request (snd w)) (\<lambda>_ w. snd w \<in> {[], [configArgs]} \<or> pushLog request (snd w))"
  (is "triple ?P _ ?Q ?E")
  unfolding nodePush_def
proof (rule triple_case_option, goal_cases)
  case (2 repository)
  have settle: "triple (\<lambda>w. pushLog request (snd w)) (liftResult (parsePushResult result (pr_candidateCommit request) (pr_target request))) ?Q ?E"
    for result by (auto simp: triple_def liftResult_apply split: sum.split)
  have run: "triple (\<lambda>w. pinnedCommandPrefix (rt_endpoint (pr_target request)) = Some pinned \<and> snd w = [configArgs])
      (mapError pushFailureReasonForCommand (runBounded (recordCommands commands) repository
        (pushArgs pinned (pr_target request) (pr_refspec request)) deadline subject)) (\<lambda>_ w. pushLog request (snd w)) ?E" for pinned deadline subject
    by (rule triple_pure, rule triple_mapError_state, rule triple_conseq [OF record_bounded]) (auto simp: pushLog_def)
  have pinned: "triple ?P (mapError pushFailure (resolvePinnedEndpoint (recordCommands commands) repository (pr_target request) deadline))
      (\<lambda>pinned w. pinnedCommandPrefix (rt_endpoint (pr_target request)) = Some pinned \<and> snd w = [configArgs]) ?E" for deadline
    by (rule triple_mapError_state, rule triple_conseq [OF record_resolve]) auto
  show ?case
    unfolding Let_def pushArgs_def [symmetric]
    by (rule triple_bind [OF record_deadline], rule triple_andThen [OF pinned], rule triple_andThen [OF run settle]) simp
qed (rule triple_fail, simp)

text \<open>
  C37. What a push can run: whatever the commands answer, one push runs at most the reading of the rewrite rules and then one
  \<open>git push\<close> of exactly the request's refspec to the target's endpoint, under that endpoint's pin; no option forces an update,
  and a refspec made from a correlation is the candidate's commit on the target's branch, with no plus sign in front.
\<close>

theorem push_command_exact:
  assumes "nodePush (recordCommands commands) repo (remotePublicationGitRequestFor c) n (g, []) = (x, (g', log))"
  shows "log = [] \<or> log = [configArgs] \<or>
    (\<exists>pinned. pinnedCommandPrefix (rt_endpoint (pc_target c)) = Some pinned \<and>
       log = [configArgs, pushArgs pinned (pc_target c) (qc_candidateCommit (pc_qualifiedCandidate c) @ '':'' @ rt_branch (pc_target c))])"
proof -
  have "log \<in> {[], [configArgs]} \<or> pushLog (remotePublicationGitRequestFor c) log"
    using triple_Inr [OF record_push] triple_Inl [OF record_push] assms by (cases x) fastforce+
  then show ?thesis by (auto simp: pushLog_def remotePublicationGitRequestFor_def remotePublicationRefspecFor_def)
qed

theorem push_command_exact_witness:
  "\<exists>pinned. pinnedCommandPrefix ''git@example.org:r'' = Some pinned \<and>
     snd (snd (nodePush (recordCommands plainCommands) (Some ''/r'') (remotePublicationGitRequestFor demoPublication) 1 ((), []))) =
     [configArgs, pushArgs pinned demoTarget (replicate 40 CHR ''a'' @ '':refs/heads/main'')]"
proof -
  have two: "length (snd (snd (nodePush (recordCommands plainCommands) (Some ''/r'') (remotePublicationGitRequestFor demoPublication) 1
      ((), [])))) = 2"
    by code_simp
  obtain x g' log where run: "nodePush (recordCommands plainCommands) (Some ''/r'') (remotePublicationGitRequestFor demoPublication) 1
      ((), []) = (x, (g', log))" by (metis surj_pair)
  have demo: "pc_target demoPublication = demoTarget" "rt_endpoint demoTarget = ''git@example.org:r''" "rt_branch demoTarget = ''refs/heads/main''"
    "qc_candidateCommit (pc_qualifiedCandidate demoPublication) = replicate 40 CHR ''a''"
    by (simp_all add: demoPublication_def remotePublicationCorrelationFor_def demoCandidate_def demoTarget_def)
  have "length log = 2" using two by (simp only: run snd_conv)
  with push_command_exact [OF run] obtain pinned where "pinnedCommandPrefix (rt_endpoint (pc_target demoPublication)) = Some pinned"
    "log = [configArgs, pushArgs pinned (pc_target demoPublication)
      (qc_candidateCommit (pc_qualifiedCandidate demoPublication) @ '':'' @ rt_branch (pc_target demoPublication))]" by fastforce
  then show ?thesis unfolding run demo by (intro exI [of _ pinned]) simp
qed

section \<open>What an observation means\<close>

text \<open>
  The documented behaviour of the two ancestry queries over a fixed commit graph: \<open>git merge-base --is-ancestor\<close> exits with zero for an
  ancestor and with one otherwise; \<open>git merge-base\<close> prints a common ancestor, or exits with one and prints nothing when
  there is none.
\<close>

definition ancestryHonest ::
  "'g GitCommandService \<Rightarrow> string \<Rightarrow> (GitCommitSha \<Rightarrow> GitCommitSha \<Rightarrow> bool) \<Rightarrow> (GitCommitSha \<Rightarrow> GitCommitSha \<Rightarrow> GitCommitSha option) \<Rightarrow> bool" where
  "ancestryHonest commands repository ancestor base \<longleftrightarrow>
     (\<exists>bounded. gc_run commands = Some bounded \<and>
        (\<forall>a b timeout g. bounded repository [''merge-base'', ''--is-ancestor'', a, b] timeout None g =
           (Inr \<lparr>gr_exitCode = (if ancestor a b then 0 else 1), gr_stderr = [], gr_stdout = []\<rparr>, g)) \<and>
        (\<forall>a b timeout g. bounded repository [''merge-base'', a, b] timeout None g =
           (Inr (case base a b of None \<Rightarrow> exitedOne | Some m \<Rightarrow> \<lparr>gr_exitCode = 0, gr_stderr = [], gr_stdout = m @ [newline]\<rparr>), g)) \<and>
        (\<forall>a b. case base a b of
           None \<Rightarrow> \<not> (\<exists>m. ancestor m a \<and> ancestor m b)
         | Some m \<Rightarrow> validGitCommitSha m \<and> ancestor m a \<and> ancestor m b))"

lemma runObserving_answer:
  assumes "gc_run commands = Some bounded" "\<And>timeout g. bounded repository args timeout None g = (Inr r, g)"
    and "runObserving commands repository args deadline unavailable g = (x, g')"
  shows "x = Inr r \<or> x = Inl ObservationResponseDeadline"
  using assms
  by (auto simp: runObserving_def mapError_def runBounded_def andThen_def remainingOperationTimeout_def
      split: prod.splits if_splits sum.splits)

text \<open>
  C23. An observation tells the truth about the commit graph: when Git answers ancestry queries as documented, the relation
  \<open>observeAncestry\<close> reports between the remote head and the candidate is the one the graph has (a competing head comes with
  a commit both descend from, and an incompatible one has no such commit), and the only failure is the deadline.
\<close>

theorem observation_true:
  assumes honest: "ancestryHonest commands repository ancestor base"
    and "observeAncestry commands repository request deadline remoteHead g = (x, g')"
    and "remoteHead \<noteq> pr_candidateCommit request"
  shows "case x of
      Inl reason \<Rightarrow> reason = ObservationResponseDeadline
    | Inr (RemoteCandidateAncestor h) \<Rightarrow> h = remoteHead \<and> ancestor (pr_candidateCommit request) remoteHead
    | Inr (RemoteAncestorOfCandidate h) \<Rightarrow>
        h = remoteHead \<and> ancestor remoteHead (pr_candidateCommit request) \<and> \<not> ancestor (pr_candidateCommit request) remoteHead
    | Inr (CompatibleCompetingHead h m) \<Rightarrow>
        h = remoteHead \<and> ancestor m (pr_candidateCommit request) \<and> ancestor m remoteHead \<and>
        \<not> ancestor (pr_candidateCommit request) remoteHead \<and> \<not> ancestor remoteHead (pr_candidateCommit request)
    | Inr (IncompatibleLineage h) \<Rightarrow>
        h = remoteHead \<and> \<not> (\<exists>m. ancestor m (pr_candidateCommit request) \<and> ancestor m remoteHead)
    | Inr _ \<Rightarrow> False"
proof -
  let ?c = "pr_candidateCommit request"
  let ?answer = "\<lambda>a b. \<lparr>gr_exitCode = (if ancestor a b then 0 else 1), gr_stderr = [], gr_stdout = []\<rparr>"
  let ?base = "case base ?c remoteHead of None \<Rightarrow> exitedOne | Some m \<Rightarrow> \<lparr>gr_exitCode = 0, gr_stderr = [], gr_stdout = m @ [newline]\<rparr>"
  from honest obtain bounded where run: "gc_run commands = Some bounded"
    and anc': "\<forall>a b timeout g. bounded repository [''merge-base'', ''--is-ancestor'', a, b] timeout None g = (Inr (?answer a b), g)"
    and mb': "\<forall>a b timeout g. bounded repository [''merge-base'', a, b] timeout None g =
      (Inr (case base a b of None \<Rightarrow> exitedOne | Some m \<Rightarrow> \<lparr>gr_exitCode = 0, gr_stderr = [], gr_stdout = m @ [newline]\<rparr>), g)"
    and sound': "\<forall>a b. case base a b of None \<Rightarrow> \<not> (\<exists>m. ancestor m a \<and> ancestor m b)
        | Some m \<Rightarrow> validGitCommitSha m \<and> ancestor m a \<and> ancestor m b"
    unfolding ancestryHonest_def by blast
  have anc: "bounded repository [''merge-base'', ''--is-ancestor'', a, b] timeout None g = (Inr (?answer a b), g)" for a b timeout g
    using anc' by blast
  have mb: "bounded repository [''merge-base'', ?c, remoteHead] timeout None g = (Inr ?base, g)" for timeout g using mb' by blast
  have sound: "case base ?c remoteHead of None \<Rightarrow> \<not> (\<exists>m. ancestor m ?c \<and> ancestor m remoteHead)
      | Some m \<Rightarrow> validGitCommitSha m \<and> ancestor m ?c \<and> ancestor m remoteHead" using sound' by blast
  note first = runObserving_answer [OF run anc [of ?c remoteHead]] and second = runObserving_answer [OF run anc [of remoteHead ?c]]
    and third = runObserving_answer [OF run mb]
  have lines: "validGitCommitSha m \<Longrightarrow> nonEmptyLines (m @ [newline]) = [m]" for m
    using sha_plain by (intro nonEmptyLines_line) (auto simp: plainText_def)
  have table: "classifyAncestry (?answer ?c remoteHead) (?answer remoteHead ?c) ?base ?c remoteHead = y \<Longrightarrow>
      \<not> ancestor ?c remoteHead \<Longrightarrow> \<not> ancestor remoteHead ?c \<Longrightarrow>
      (\<exists>m. y = Inr (CompatibleCompetingHead remoteHead m) \<and> ancestor m ?c \<and> ancestor m remoteHead) \<or>
      (y = Inr (IncompatibleLineage remoteHead) \<and> \<not> (\<exists>m. ancestor m ?c \<and> ancestor m remoteHead))" for y
    using sound lines assms(3) by (auto simp: classifyAncestry_def exitedOne_def isBlank_def split: option.splits)
  have "x = Inl ObservationResponseDeadline \<or>
      x = Inr (RemoteCandidateAncestor remoteHead) \<and> ancestor ?c remoteHead \<or>
      x = Inr (RemoteAncestorOfCandidate remoteHead) \<and> ancestor remoteHead ?c \<and> \<not> ancestor ?c remoteHead \<or>
      \<not> ancestor ?c remoteHead \<and> \<not> ancestor remoteHead ?c \<and>
      classifyAncestry (?answer ?c remoteHead) (?answer remoteHead ?c) ?base ?c remoteHead = x"
    using assms(2,3) unfolding observeAncestry_def Let_def
    by (auto simp: andThen_def liftResult_apply classifyAncestry_def split: prod.splits sum.splits if_splits
        dest!: first second third)
  with table show ?thesis by fastforce
qed

text \<open>A graph in which every commit descends from one root and from nothing else.\<close>

definition rootCommit :: GitCommitSha where
  "rootCommit = replicate 40 CHR ''0''"

definition starCommands :: "unit GitCommandService" where
  "starCommands = plainCommands\<lparr>gc_run := Some (\<lambda>repository args timeout subject g.
     (Inr (case args of
        [_, _, a, b] \<Rightarrow> \<lparr>gr_exitCode = (if a = b \<or> a = rootCommit then 0 else 1), gr_stderr = [], gr_stdout = []\<rparr>
      | [_, a, b] \<Rightarrow> \<lparr>gr_exitCode = 0, gr_stderr = [], gr_stdout = rootCommit @ [newline]\<rparr>
      | _ \<Rightarrow> exitedOne), g))\<rparr>"

lemma star_honest: "ancestryHonest starCommands ''/r'' (\<lambda>a b. a = b \<or> a = rootCommit) (\<lambda>a b. Some rootCommit)"
  unfolding ancestryHonest_def
  by (simp add: starCommands_def rootCommit_def validGitCommitSha_def isHexLower_def isDigit_def list_all_iff)

definition starRequest :: RemotePublicationGitRequest where
  "starRequest = remotePublicationGitRequestFor demoPublication"

lemma star_observed:
  "observeAncestry starCommands ''/r'' starRequest 1 (replicate 40 CHR ''f'') () =
    (Inr (CompatibleCompetingHead (replicate 40 CHR ''f'') rootCommit), ())"
  by code_simp

theorem observation_true_witness:
  "observeAncestry starCommands ''/r'' starRequest 1 (replicate 40 CHR ''f'') () =
     (Inr (CompatibleCompetingHead (replicate 40 CHR ''f'') rootCommit), ()) \<and>
   \<not> (pr_candidateCommit starRequest = replicate 40 CHR ''f'' \<or> pr_candidateCommit starRequest = rootCommit)"
proof -
  have "replicate 40 CHR ''f'' \<noteq> pr_candidateCommit starRequest" by code_simp
  from observation_true [OF star_honest star_observed this] star_observed show ?thesis by simp
qed

end
