(* ===== verification/Archive_Properties.thy ===== *)
theory Archive_Properties
  imports Journal_Properties
begin

text \<open>
  The bounded archive-maintenance pass on the memory store: what one unit removes, the accounting
  invariant it rests on, and what a whole pass leaves behind.
\<close>

section \<open>Accounting of archived bytes\<close>

text \<open>The archive accounts exactly the runs that have cold rows, each once.\<close>

definition archiveAccounted :: "MemoryJournalState \<Rightarrow> bool" where
  "archiveAccounted s \<longleftrightarrow> distinct (map fst (ms_archiveBytes s)) \<and>
     dom (map_of (ms_archiveBytes s)) = dom (map_of (ms_coldRecordsByRun s))"

lemma distinct_filter_fst: "distinct (map fst xs) \<Longrightarrow> distinct (map fst (filter P xs))"
  by (induction xs) auto

lemma archiveAccounted_empty: "archiveAccounted emptyMemoryJournalState"
  by (simp add: archiveAccounted_def emptyMemoryJournalState_def)

lemma store_step_accounted: "store_step rules s s' \<Longrightarrow> archiveAccounted s \<Longrightarrow> archiveAccounted s'"
proof (induction rule: store_step.induct)
  case (begin_step s runId beginning r s')
  then show ?case by (cases rule: memoryBeginRun_cases) (auto simp: archiveAccounted_def)
next
  case (append_step s runId key event ra s')
  from append_step(1,4) show ?case by (cases rule: memoryAppend_cases) (auto simp: archiveAccounted_def)
next
  case (terminate_step s runId disposition evidence timing rt s')
  then show ?case by (cases rule: memoryTermination_cases) (auto simp: archiveAccounted_def)
next
  case (retire_step s runId rr s')
  then show ?case
    by (cases rule: memoryRetire_cases) (auto simp: archiveAccounted_def map_simps distinct_update)
next
  case (remove_step s candidate now rd s')
  then show ?case
    by (cases rule: memoryArchiveRemove_cases) (auto simp: archiveAccounted_def map_simps distinct_filter_fst)
qed

lemma store_reachable_accounted: "store_reachable rules s \<Longrightarrow> archiveAccounted s"
  by (induction rule: store_reachable.induct) (auto intro: archiveAccounted_empty store_step_accounted)

section \<open>One unit\<close>

lemma retentionSelected_SomeD:
  "retentionSelected snapshot now = Some c \<Longrightarrow> c \<in> set (as_candidates snapshot) \<and>
     (rc_baseline c + archiveAgeMillis \<le> now \<or> as_savedBytes snapshot > archiveByteBudget)"
  by (auto simp: retentionSelected_def orElse_def Let_def split: option.splits if_splits list.splits dest: find_SomeD)
    (metis list.set_intros(1) set_sort)

lemma retentionSelected_NoneD:
  assumes "retentionSelected snapshot now = None"
  shows "\<forall>c\<in>set (as_candidates snapshot). now < rc_baseline c + archiveAgeMillis"
    and "as_savedBytes snapshot \<le> archiveByteBudget \<or> as_candidates snapshot = []"
  using assms
  by (auto simp: retentionSelected_def orElse_def Let_def find_eq_None_iff not_le
      split: option.splits if_splits list.splits)
   (metis list.size(3) length_0_conv length_sort not_le)

lemma retentionReason_Some:
  "rc_baseline c + archiveAgeMillis \<le> now \<or> totalBytes > archiveByteBudget \<Longrightarrow>
     \<exists>reason. retentionReason c now totalBytes = Some reason"
  by (auto simp: retentionReason_def Let_def)

lemma snapshot_candidate:
  assumes "archiveAccounted s" "c \<in> set (as_candidates (memoryArchiveSnapshot now s))"
  obtains completion records where "map_of (ms_completions s) (rc_runId c) = Some completion"
    "rc_baseline c = retentionBaseline completion" "map_of (ms_coldRecordsByRun s) (rc_runId c) = Some records"
proof -
  from assms(2) obtain bytes completion where b: "(rc_runId c, bytes) \<in> set (ms_archiveBytes s)"
    "map_of (ms_completions s) (rc_runId c) = Some completion" "rc_baseline c = retentionBaseline completion"
    by (auto simp: memoryArchiveSnapshot_def set_map_filter_conv split: option.splits)
  from b(1) have "rc_runId c \<in> dom (map_of (ms_archiveBytes s))" by (auto dest: weak_map_of_SomeI)
  then obtain records where "map_of (ms_coldRecordsByRun s) (rc_runId c) = Some records"
    using assms(1) by (auto simp: archiveAccounted_def)
  with b that show thesis by blast
qed

definition unitRemoves :: "RunId \<Rightarrow> MemoryJournalState \<Rightarrow> MemoryJournalState \<Rightarrow> bool" where
  "unitRemoves runId s s' \<longleftrightarrow>
     runRecords s runId \<noteq> [] \<and> historyDeleted s' runId \<and> ms_completions s' = ms_completions s \<and>
     (\<forall>other. other \<noteq> runId \<longrightarrow> runRecords s' other = runRecords s other)"

text \<open>A selected candidate is either removed, or its removal fails and changes nothing.\<close>

lemma remove_selected:
  assumes s: "store_reachable rules s" and sel: "retentionSelected (memoryArchiveSnapshot now s) now = Some c"
  shows "(\<exists>e. memoryArchiveRemove rules s c now = (Inl e, s)) \<or>
         (\<exists>s'. memoryArchiveRemove rules s c now = (Inr (), s') \<and> unitRemoves (rc_runId c) s s')"
proof -
  note c = retentionSelected_SomeD [OF sel]
  obtain completion records where cc: "map_of (ms_completions s) (rc_runId c) = Some completion"
    "rc_baseline c = retentionBaseline completion" "map_of (ms_coldRecordsByRun s) (rc_runId c) = Some records"
    using snapshot_candidate [OF store_reachable_accounted [OF s]] c by blast
  from reachable_wellFormed [OF s] cc(3) have cold: "map_of (ms_hotRecordsByRun s) (rc_runId c) = None"
    "map_of (ms_deletions s) (rc_runId c) = None" "records \<noteq> []"
    by (cases "map_of (ms_hotRecordsByRun s) (rc_runId c)"; auto simp: storeWellFormed_def)+
  have dec: "decideMemoryCompletion rules s (rc_runId c) OpMaintainArchive = Inr (CompletedRunAvailable completion)"
    by (rule decideMemoryCompletion_available [OF store_reachable_invariant [OF s] cc(1) cold(2)])
  have "c\<lparr>rc_baseline := retentionBaseline completion\<rparr> = c" using cc(2) [symmetric] by (simp del: retentionBaseline.simps)
  moreover have "as_savedBytes (memoryArchiveSnapshot now s) = sum_list (map snd (ms_archiveBytes s))"
    by (simp add: memoryArchiveSnapshot_def)
  ultimately obtain reason where reason: "retentionReason (c\<lparr>rc_baseline := retentionBaseline completion\<rparr>) now
      (sum_list (map snd (ms_archiveBytes s))) = Some reason"
    using c retentionReason_Some by metis
  show ?thesis
    using dec cc(3) reason cold
    by (cases "decideJournalPartitionHistory rules Cold (rc_runId c) records")
      (auto simp: memoryArchiveRemove_def unitRemoves_def historyDeleted_def map_simps,
       auto simp: runRecords_def orElse_def)
qed

section \<open>The pass\<close>

definition archiveWithinLimits :: "nat \<Rightarrow> MemoryJournalState \<Rightarrow> bool" where
  "archiveWithinLimits now s \<longleftrightarrow>
     sum_list (map snd (ms_archiveBytes s)) \<le> archiveByteBudget \<and>
     (\<forall>runId c. map_of (ms_coldRecordsByRun s) runId \<noteq> None \<longrightarrow> map_of (ms_completions s) runId = Some c \<longrightarrow>
        now < retentionBaseline c + archiveAgeMillis)"

lemma selected_None_within:
  assumes "archiveAccounted s" "retentionSelected (memoryArchiveSnapshot now s) now = None"
    and "as_savedBytes (memoryArchiveSnapshot now s) \<le> archiveByteBudget"
  shows "archiveWithinLimits now s"
  unfolding archiveWithinLimits_def
proof (intro conjI allI impI)
  show "sum_list (map snd (ms_archiveBytes s)) \<le> archiveByteBudget"
    using assms(3) by (simp add: memoryArchiveSnapshot_def)
next
  fix runId c
  assume cold: "map_of (ms_coldRecordsByRun s) runId \<noteq> None" and c: "map_of (ms_completions s) runId = Some c"
  from cold have "runId \<in> dom (map_of (ms_archiveBytes s))" using assms(1) by (simp add: archiveAccounted_def domIff)
  then obtain bytes where "(runId, bytes) \<in> set (ms_archiveBytes s)" by (auto dest: map_of_SomeD)
  with c have "\<lparr>rc_runId = runId, rc_baseline = retentionBaseline c, rc_bytes = bytes\<rparr> \<in>
      set (as_candidates (memoryArchiveSnapshot now s))"
    by (force simp: memoryArchiveSnapshot_def set_map_filter_conv)
  with retentionSelected_NoneD(1) [OF assms(2)] show "now < retentionBaseline c + archiveAgeMillis" by fastforce
qed

definition passEffect ::
  "nat \<Rightarrow> RunId list \<Rightarrow> MemoryJournalState \<Rightarrow> ArchiveRetentionObservation \<Rightarrow> MemoryJournalState \<Rightarrow> bool" where
  "passEffect now deleted s ob s' \<longleftrightarrow>
     (\<exists>new. ao_deletedRuns ob = deleted @ new \<and> length (deleted @ new) \<le> archivePassRunLimit \<and>
        (\<forall>r\<in>set new. runRecords s r \<noteq> [] \<and> historyDeleted s' r) \<and>
        (\<forall>r. r \<notin> set new \<longrightarrow> runRecords s' r = runRecords s r)) \<and>
     ms_completions s' = ms_completions s \<and>
     (ao_deferred ob = DeferredNone \<longrightarrow> archiveWithinLimits now s')"

lemma passEffect_stop:
  assumes "length deleted \<le> archivePassRunLimit" "bounded \<or> failure \<noteq> None"
  shows "passEffect now deleted s (retentionObservation snapshot deleted bounded failure) s"
  using assms by (auto simp: passEffect_def retentionObservation_def Let_def)

lemma passEffect_finished:
  assumes "length deleted \<le> archivePassRunLimit" "archiveAccounted s"
    "retentionSelected (memoryArchiveSnapshot now s) now = None"
  shows "passEffect now deleted s (retentionObservation (memoryArchiveSnapshot now s) deleted False None) s"
  using assms selected_None_within [OF assms(2,3)]
  by (auto simp: passEffect_def retentionObservation_def Let_def)

lemma passEffect_unit:
  assumes "unitRemoves runId s s1" "passEffect now (deleted @ [runId]) s1 ob s'" "(store_step rules)\<^sup>*\<^sup>* s1 s'" "storeInvariant s1"
  shows "passEffect now deleted s ob s'"
proof -
  from assms(2) obtain new where new: "ao_deletedRuns ob = deleted @ runId # new" "length (deleted @ runId # new) \<le> archivePassRunLimit"
    "\<forall>r\<in>set new. runRecords s1 r \<noteq> [] \<and> historyDeleted s' r" "\<forall>r. r \<notin> set new \<longrightarrow> runRecords s' r = runRecords s1 r"
    and rest: "ms_completions s' = ms_completions s1" "ao_deferred ob = DeferredNone \<longrightarrow> archiveWithinLimits now s'"
    by (auto simp: passEffect_def)
  have "historyDeleted s1 runId" using assms(1) by (simp add: unitRemoves_def)
  with assms(3,4) have "historyDeleted s' runId"
    by (induction rule: rtranclp_induct) (meson historyDeleted_stable store_steps_history)+
  moreover have "runId \<notin> set new" using new(3) \<open>historyDeleted s1 runId\<close> by (auto simp: historyDeleted_def)
  ultimately show ?thesis
    using new rest assms(1) unfolding passEffect_def unitRemoves_def
    by (intro conjI exI [of _ "runId # new"]) auto
qed

lemma memoryArchiveOwner_fields [simp]:
  "ow_now (memoryArchiveOwner rules clock) (tick, s) = (clock tick, (Suc tick, s))"
  "ow_snapshot (memoryArchiveOwner rules clock) now (tick, s) = (Inr (memoryArchiveSnapshot now s), (tick, s))"
  "ow_remove (memoryArchiveOwner rules clock) c now (tick, s) =
     (fst (memoryArchiveRemove rules s c now), (tick, snd (memoryArchiveRemove rules s c now)))"
  by (simp_all add: memoryArchiveOwner_def case_prod_beta Let_def)

definition passOutcome ::
  "HistoryRules \<Rightarrow> nat \<Rightarrow> RunId list \<Rightarrow> MemoryJournalState \<Rightarrow>
   (JournalError + ArchiveRetentionObservation) \<times> nat \<times> MemoryJournalState \<Rightarrow> bool" where
  "passOutcome rules now deleted s outcome \<longleftrightarrow>
     (\<exists>ob tick s'. outcome = (Inr ob, (tick, s')) \<and> (store_step rules)\<^sup>*\<^sup>* s s' \<and> passEffect now deleted s ob s')"

lemma passOutcome_here: "passEffect now deleted s ob s \<Longrightarrow> passOutcome rules now deleted s (Inr ob, (tick, s))"
  unfolding passOutcome_def by blast

lemma archiveRetentionLoop_memory:
  assumes "store_reachable rules s" "length deleted \<le> archivePassRunLimit"
  shows "passOutcome rules now deleted s
    (archiveRetentionLoop (memoryArchiveOwner rules clock) now deleted (memoryArchiveSnapshot now s) (tick, s))"
  using assms
proof (induction "archivePassRunLimit - length deleted" arbitrary: deleted s tick rule: less_induct)
  case less
  note unfold = archiveRetentionLoop.simps [of "memoryArchiveOwner rules clock" now deleted "memoryArchiveSnapshot now s" "(tick, s)"]
  show ?case
  proof (cases "retentionSelected (memoryArchiveSnapshot now s) now")
    case None
    with passEffect_finished [OF less.prems(2) store_reachable_accounted [OF less.prems(1)] None] show ?thesis
      by (simp add: unfold passOutcome_here)
  next
    case (Some c)
    show ?thesis
    proof (cases "length deleted \<ge> archivePassRunLimit \<or> int (clock tick) - int now \<ge> int archivePassMillis")
      case True
      then show ?thesis using Some less.prems(2) by (auto simp: unfold intro!: passOutcome_here passEffect_stop)
    next
      case False
      from remove_selected [OF less.prems(1) Some] show ?thesis
      proof (elim disjE exE conjE)
        fix e assume "memoryArchiveRemove rules s c now = (Inl e, s)"
        then show ?thesis using Some False less.prems(2) by (auto simp: unfold intro!: passOutcome_here passEffect_stop)
      next
        fix s1 assume rem: "memoryArchiveRemove rules s c now = (Inr (), s1)" and unit: "unitRemoves (rc_runId c) s s1"
        note step = store_step.remove_step [OF rem]
        note s1 = store_reachable.step [OF less.prems(1) step]
        have "passOutcome rules now (deleted @ [rc_runId c]) s1
          (archiveRetentionLoop (memoryArchiveOwner rules clock) now (deleted @ [rc_runId c])
             (memoryArchiveSnapshot now s1) (Suc tick, s1))"
          using False by (intro less.hyps s1) auto
        then have "passOutcome rules now deleted s
          (archiveRetentionLoop (memoryArchiveOwner rules clock) now (deleted @ [rc_runId c])
             (memoryArchiveSnapshot now s1) (Suc tick, s1))"
          unfolding passOutcome_def
          using passEffect_unit [OF unit _ _ store_reachable_invariant [OF s1]] step
          by (meson converse_rtranclp_into_rtranclp)
        then show ?thesis using Some False rem by (simp add: unfold)
      qed
    qed
  qed
qed

section \<open>Properties\<close>

text \<open>
  C31. One archive-maintenance pass always ends with an observation, whatever the clock answers. It
  removes at most thirty-two runs, each of which had stored rows and afterwards has a deletion
  mark instead; it changes the rows of no other run and no receipt at all; and when it reports
  nothing deferred, the archive is within its byte budget and holds no run past its age limit.
\<close>

theorem archive_pass_bounded:
  assumes "store_reachable rules s"
  shows "\<exists>ob tick' s'. archiveRetentionPass (memoryArchiveOwner rules clock) (tick, s) = (Inr ob, (tick', s')) \<and>
    store_reachable rules s' \<and>
    length (ao_deletedRuns ob) \<le> 32 \<and>
    (\<forall>r\<in>set (ao_deletedRuns ob). runRecords s r \<noteq> [] \<and> historyDeleted s' r) \<and>
    (\<forall>r. r \<notin> set (ao_deletedRuns ob) \<longrightarrow> runRecords s' r = runRecords s r) \<and>
    ms_completions s' = ms_completions s \<and>
    (ao_deferred ob = DeferredNone \<longrightarrow> archiveWithinLimits (clock tick) s')"
proof -
  from archiveRetentionLoop_memory [OF assms, of "[]" "clock tick" clock "Suc tick"]
  obtain ob tick' s' where run: "archiveRetentionPass (memoryArchiveOwner rules clock) (tick, s) = (Inr ob, (tick', s'))"
    and steps: "(store_step rules)\<^sup>*\<^sup>* s s'" and eff: "passEffect (clock tick) [] s ob s'"
    by (auto simp: passOutcome_def archiveRetentionPass_def)
  from steps assms have "store_reachable rules s'"
    by (induction rule: rtranclp_induct) (auto intro: store_reachable.step)
  with run eff show ?thesis by (auto simp: passEffect_def archivePassRunLimit_def)
qed

theorem archive_pass_bounded_witness:
  "\<exists>ob tick' s'. archiveRetentionPass (memoryArchiveOwner openRules (\<lambda>_. 3000000000)) (0, demoRetired) = (Inr ob, (tick', s')) \<and>
     ao_deletedRuns ob = [''run''] \<and> historyDeleted s' ''run'' \<and> runRecords demoRetired ''run'' \<noteq> []"
proof -
  let ?c = "\<lparr>co_runId = ''run'', co_target = FixtureTarget ''t'', co_disposition = RunCompleted, co_terminatedAt = 3,
            co_timing = Known 7, co_publication = NoRecordedPublication\<rparr>"
  have facts: "ms_archiveBytes demoRetired = [(''run'', 348)]" "ms_completions demoRetired = [(''run'', ?c)]"
    "map_of (ms_coldRecordsByRun demoRetired) ''run'' = Some (runRecords demoRetired ''run'')"
    "decideMemoryCompletion openRules demoRetired ''run'' OpMaintainArchive = Inr (CompletedRunAvailable ?c)"
    "decideJournalPartitionHistory openRules Cold ''run'' (runRecords demoRetired ''run'') =
       ValidPartitionHistory True (runRecords demoRetired ''run'')" by code_simp+
  have "ao_deletedRuns (projr (fst (archiveRetentionPass (memoryArchiveOwner openRules (\<lambda>_. 3000000000)) (0, demoRetired)))) =
      [''run'']"
    by (simp add: archiveRetentionPass_def archiveRetentionLoop.simps memoryArchiveSnapshot_def retentionSelected_def
        orElse_def archiveAgeMillis_def archiveByteBudget_def archivePassRunLimit_def archivePassMillis_def
        memoryArchiveRemove_def retentionReason_def retentionObservation_def facts)
  with archive_pass_bounded [OF demo_retired_reachable, of "\<lambda>_. 3000000000" 0] show ?thesis by fastforce
qed

end
