(* ===== verification/Task_Graph.thy ===== *)
theory Task_Graph
  imports Contracts "HOL-Library.Product_Lexorder" "HOL-Library.Monad_Syntax" "HOL-Library.AList"
begin

text \<open>
  The task graph (\<^verbatim>\<open>authorities/task-tracker/task.ts\<close> and \<^verbatim>\<open>graph.ts\<close>): the projection of a decoded tracker
  snapshot into a validated graph, its cycle detection, and the queries of \<^verbatim>\<open>TaskDagSnapshot\<close>.

  The graph container is a library the sources only call, so its operations are the record \<open>GraphLibrary\<close>, an argument of
  every definition that uses it; \<open>graphLibraryLaws\<close> states what its documentation promises and the code relies on. A thrown defect
  (\<^verbatim>\<open>Option.getOrThrow\<close>, \<^verbatim>\<open>HashMap.getUnsafe\<close>) is \<open>None\<close>, and so is a recursion or loop that outlives its fuel. A
  \<^verbatim>\<open>Map\<close> whose keys are listed is an association list, one that is only looked up is a map. The top of the
  cycle search's stack, the end of the source's array, is the head of the list.
\<close>

section \<open>Tracker tasks\<close>

type_synonym TrackerRevision = string

datatype TaskLifecycle = Open | CompletedSuccessfully | TerminalWithoutSuccess

fun lifecycleTag :: "TaskLifecycle \<Rightarrow> string" where
  "lifecycleTag Open = ''Open''"
| "lifecycleTag CompletedSuccessfully = ''CompletedSuccessfully''"
| "lifecycleTag TerminalWithoutSuccess = ''TerminalWithoutSuccess''"

definition isTaskOpen :: "TaskLifecycle \<Rightarrow> bool" where
  "isTaskOpen lifecycle \<longleftrightarrow> lifecycle = Open"

definition isDependencySatisfied :: "TaskLifecycle \<Rightarrow> bool" where
  "isDependencySatisfied lifecycle \<longleftrightarrow> lifecycle = CompletedSuccessfully"

record TrackerTaskDescriptor =
  td_title :: string
  td_issueNumber :: "nat option"

record TrackerTask =
  tt_descriptor :: "TrackerTaskDescriptor option"
  tt_id :: TaskId
  tt_lifecycle :: TaskLifecycle
  tt_parentTaskId :: "TaskId option"
  tt_prerequisiteIds :: "TaskId list"

record TrackerSnapshot =
  ts_revision :: TrackerRevision
  ts_rootTaskId :: "TaskId option"
  ts_tasks :: "TrackerTask list"

datatype ProjectionIssue =
    BoundaryDecodeFailed string
  | DuplicateTask TaskId
  | DuplicatePrerequisite TaskId TaskId
  | MissingPrerequisite TaskId TaskId
  | SelfPrerequisite TaskId
  | MissingParent TaskId TaskId
  | MissingRootTask TaskId
  | SelfParent TaskId
  | Cycle "TaskId list"
  | ContainmentCycle "TaskId list"

record TaskDagWire =
  tw_schemaVersion :: nat
  tw_revision :: TrackerRevision
  tw_tasks :: "TrackerTask list"

definition taskDagSchemaVersion :: nat where
  "taskDagSchemaVersion = 1"

section \<open>The graph library\<close>

record TaskGraphNode =
  gn_descriptor :: "TrackerTaskDescriptor option"
  gn_id :: TaskId
  gn_lifecycle :: TaskLifecycle

datatype TaskGraphEdge = Prerequisite | Grouping

record GraphEdge =
  ge_source :: nat
  ge_target :: nat
  ge_data :: TaskGraphEdge

record 'g GraphLibrary =
  gl_directed :: 'g
  gl_addNode :: "'g \<Rightarrow> TaskGraphNode \<Rightarrow> nat \<times> 'g"
  gl_addEdge :: "'g \<Rightarrow> nat \<Rightarrow> nat \<Rightarrow> TaskGraphEdge \<Rightarrow> 'g"
  gl_nodes :: "'g \<Rightarrow> (nat \<times> TaskGraphNode) list"
  gl_getNode :: "'g \<Rightarrow> nat \<Rightarrow> TaskGraphNode option"
  gl_edges :: "'g \<Rightarrow> GraphEdge list"
  gl_filterEdges :: "'g \<Rightarrow> (TaskGraphEdge \<Rightarrow> bool) \<Rightarrow> 'g"
  gl_bfs :: "'g \<Rightarrow> nat list \<Rightarrow> (nat \<times> TaskGraphNode) list"

definition graphEdgeRel :: "GraphEdge list \<Rightarrow> (nat \<times> nat) set" where
  "graphEdgeRel es = (\<lambda>e. (ge_source e, ge_target e)) ` set es"

definition graphLibraryLaws :: "'g GraphLibrary \<Rightarrow> bool" where
  "graphLibraryLaws G \<longleftrightarrow>
     gl_nodes G (gl_directed G) = [] \<and> gl_edges G (gl_directed G) = [] \<and>
     (\<forall>g n. fst (gl_addNode G g n) \<notin> fst ` set (gl_nodes G g) \<and>
            gl_nodes G (snd (gl_addNode G g n)) = gl_nodes G g @ [(fst (gl_addNode G g n), n)] \<and>
            gl_edges G (snd (gl_addNode G g n)) = gl_edges G g) \<and>
     (\<forall>g s t d. s \<in> fst ` set (gl_nodes G g) \<longrightarrow> t \<in> fst ` set (gl_nodes G g) \<longrightarrow>
            gl_nodes G (gl_addEdge G g s t d) = gl_nodes G g \<and>
            gl_edges G (gl_addEdge G g s t d) = gl_edges G g @ [\<lparr>ge_source = s, ge_target = t, ge_data = d\<rparr>]) \<and>
     (\<forall>g i. gl_getNode G g i = map_of (gl_nodes G g) i) \<and>
     (\<forall>g P. gl_nodes G (gl_filterEdges G g P) = gl_nodes G g \<and>
            gl_edges G (gl_filterEdges G g P) = filter (\<lambda>e. P (ge_data e)) (gl_edges G g)) \<and>
     (\<forall>g s. s \<in> fst ` set (gl_nodes G g) \<longrightarrow>
            graphEdgeRel (gl_edges G g) \<subseteq> fst ` set (gl_nodes G g) \<times> fst ` set (gl_nodes G g) \<longrightarrow>
            distinct (map fst (gl_bfs G g [s])) \<and> set (gl_bfs G g [s]) \<subseteq> set (gl_nodes G g) \<and>
            fst ` set (gl_bfs G g [s]) = (graphEdgeRel (gl_edges G g))\<^sup>* `` {s})"

section \<open>Records and their validation\<close>

definition sortedTaskIds :: "TaskId list \<Rightarrow> TaskId list" where
  "sortedTaskIds taskIds = sort taskIds"

definition parentTaskIdOrder :: "TaskId option \<Rightarrow> bool \<times> string" where
  "parentTaskIdOrder parent = (parent \<noteq> None, case parent of None \<Rightarrow> [] | Some p \<Rightarrow> p)"

definition compareTrackerTasks :: "TrackerTask \<Rightarrow> string \<times> (bool \<times> string) \<times> TaskId list" where
  "compareTrackerTasks task =
     (lifecycleTag (tt_lifecycle task), parentTaskIdOrder (tt_parentTaskId task), sortedTaskIds (tt_prerequisiteIds task))"

type_synonym TaskRecords = "(TaskId \<times> TrackerTask) list"

fun collectTaskRecords :: "TrackerTask list \<Rightarrow> TaskRecords \<Rightarrow> ProjectionIssue list \<Rightarrow> TaskRecords \<times> ProjectionIssue list" where
  "collectTaskRecords [] recordsById issues = (recordsById, issues)"
| "collectTaskRecords (task # tasks) recordsById issues =
     (if map_of recordsById (tt_id task) \<noteq> None
      then collectTaskRecords tasks recordsById (issues @ [DuplicateTask (tt_id task)])
      else collectTaskRecords tasks (recordsById @ [(tt_id task, task)]) issues)"

fun prerequisiteIssues :: "TaskId \<Rightarrow> TaskRecords \<Rightarrow> TaskId option \<Rightarrow> TaskId list \<Rightarrow> ProjectionIssue list" where
  "prerequisiteIssues taskId recordsById previous [] = []"
| "prerequisiteIssues taskId recordsById previous (p # ps) =
     (if previous = Some p then [DuplicatePrerequisite taskId p]
      else if p = taskId then [SelfPrerequisite taskId]
      else if map_of recordsById p = None then [MissingPrerequisite taskId p]
      else []) @ prerequisiteIssues taskId recordsById (Some p) ps"

definition validatePrerequisites :: "TrackerTask \<Rightarrow> TaskRecords \<Rightarrow> ProjectionIssue list" where
  "validatePrerequisites task recordsById =
     prerequisiteIssues (tt_id task) recordsById None (sortedTaskIds (tt_prerequisiteIds task))"

definition validateParent :: "TrackerTask \<Rightarrow> TaskRecords \<Rightarrow> ProjectionIssue list" where
  "validateParent task recordsById =
     (case tt_parentTaskId task of
        None \<Rightarrow> []
      | Some parent \<Rightarrow>
          if parent = tt_id task then [SelfParent (tt_id task)]
          else if map_of recordsById parent = None then [MissingParent (tt_id task) parent] else [])"

section \<open>The graph of a set of records\<close>

record 'g TaskGraphRepresentation =
  gr_graph :: 'g
  gr_nodeIndexByTaskId :: "(TaskId \<times> nat) list"

fun addTaskNodes ::
  "'g GraphLibrary \<Rightarrow> TaskRecords \<Rightarrow> TaskId list \<Rightarrow> 'g \<Rightarrow> (TaskId \<times> nat) list \<Rightarrow> ('g \<times> (TaskId \<times> nat) list) option" where
  "addTaskNodes G recordsById [] g indexes = Some (g, indexes)"
| "addTaskNodes G recordsById (taskId # taskIds) g indexes =
     do {
       task \<leftarrow> map_of recordsById taskId;
       let (index, g') = gl_addNode G g
         \<lparr>gn_descriptor = tt_descriptor task, gn_id = taskId, gn_lifecycle = tt_lifecycle task\<rparr>;
       addTaskNodes G recordsById taskIds g' (AList.update taskId index indexes)
     }"

fun addPrerequisiteEdges :: "'g GraphLibrary \<Rightarrow> (TaskId \<times> nat) list \<Rightarrow> nat \<Rightarrow> TaskId list \<Rightarrow> 'g \<Rightarrow> 'g" where
  "addPrerequisiteEdges G indexes taskIndex [] g = g"
| "addPrerequisiteEdges G indexes taskIndex (p # ps) g =
     addPrerequisiteEdges G indexes taskIndex ps
       (case map_of indexes p of None \<Rightarrow> g | Some i \<Rightarrow> gl_addEdge G g i taskIndex Prerequisite)"

fun addTaskEdges :: "'g GraphLibrary \<Rightarrow> TaskRecords \<Rightarrow> (TaskId \<times> nat) list \<Rightarrow> TaskId list \<Rightarrow> 'g \<Rightarrow> 'g option" where
  "addTaskEdges G recordsById indexes [] g = Some g"
| "addTaskEdges G recordsById indexes (taskId # taskIds) g =
     do {
       task \<leftarrow> map_of recordsById taskId;
       taskIndex \<leftarrow> map_of indexes taskId;
       let g' = addPrerequisiteEdges G indexes taskIndex (sortedTaskIds (tt_prerequisiteIds task)) g;
       let g'' = (case tt_parentTaskId task of
                    None \<Rightarrow> g'
                  | Some parent \<Rightarrow>
                      (case map_of indexes parent of None \<Rightarrow> g' | Some i \<Rightarrow> gl_addEdge G g' i taskIndex Grouping));
       addTaskEdges G recordsById indexes taskIds g''
     }"

definition taskGraphRepresentationFrom :: "'g GraphLibrary \<Rightarrow> TaskRecords \<Rightarrow> 'g TaskGraphRepresentation option" where
  "taskGraphRepresentationFrom G recordsById =
     do {
       let taskIds = sortedTaskIds (map fst recordsById);
       (g, indexes) \<leftarrow> addTaskNodes G recordsById taskIds (gl_directed G) [];
       g' \<leftarrow> addTaskEdges G recordsById indexes taskIds g;
       Some \<lparr>gr_graph = g', gr_nodeIndexByTaskId = indexes\<rparr>
     }"

definition graphForRelation :: "'g GraphLibrary \<Rightarrow> 'g \<Rightarrow> TaskGraphEdge \<Rightarrow> 'g" where
  "graphForRelation G g relation = gl_filterEdges G g (\<lambda>d. d = relation)"

definition taskNodeAt :: "'g GraphLibrary \<Rightarrow> 'g \<Rightarrow> nat \<Rightarrow> TaskGraphNode option" where
  "taskNodeAt G g nodeIndex = gl_getNode G g nodeIndex"

datatype Direction = Outgoing | Incoming

definition taskIdsForRelation :: "'g GraphLibrary \<Rightarrow> 'g \<Rightarrow> TaskGraphEdge \<Rightarrow> nat \<Rightarrow> Direction \<Rightarrow> TaskId list option" where
  "taskIdsForRelation G g relation nodeIndex direction =
     do {
       ids \<leftarrow> those (List.map_filter (\<lambda>e.
         if ge_data e \<noteq> relation then None
         else if direction = Outgoing \<and> ge_source e = nodeIndex then Some (map_option gn_id (taskNodeAt G g (ge_target e)))
         else if direction = Incoming \<and> ge_target e = nodeIndex then Some (map_option gn_id (taskNodeAt G g (ge_source e)))
         else None) (gl_edges G g));
       Some (sortedTaskIds ids)
     }"

section \<open>Cycle search\<close>

record CycleSearch =
  cs_nextIndex :: nat
  cs_indexes :: "TaskId \<rightharpoonup> nat"
  cs_lowLinks :: "TaskId \<rightharpoonup> nat"
  cs_stack :: "TaskId list"
  cs_onStack :: "TaskId set"
  cs_components :: "TaskId list list"

definition emptySearch :: CycleSearch where
  "emptySearch = \<lparr>cs_nextIndex = 0, cs_indexes = Map.empty, cs_lowLinks = Map.empty, cs_stack = [], cs_onStack = {},
     cs_components = []\<rparr>"

fun popComponent :: "TaskId \<Rightarrow> TaskId list \<Rightarrow> TaskId list \<Rightarrow> TaskId list \<times> TaskId list" where
  "popComponent root [] component = ([], component)"
| "popComponent root (member # stack) component =
     (if member = root then (stack, component @ [member]) else popComponent root stack (component @ [member]))"

definition recordComponent :: "TaskId \<Rightarrow> CycleSearch \<Rightarrow> CycleSearch" where
  "recordComponent root st =
     (let (stack, component) = popComponent root (cs_stack st) [] in
      st\<lparr>cs_stack := stack, cs_onStack := cs_onStack st - set component,
         cs_components := (if length component > 1 then cs_components st @ [sortedTaskIds component] else cs_components st)\<rparr>)"

definition enterTask :: "TaskId \<Rightarrow> CycleSearch \<Rightarrow> CycleSearch" where
  "enterTask taskId st =
     st\<lparr>cs_nextIndex := Suc (cs_nextIndex st), cs_indexes := (cs_indexes st)(taskId \<mapsto> cs_nextIndex st),
        cs_lowLinks := (cs_lowLinks st)(taskId \<mapsto> cs_nextIndex st), cs_stack := taskId # cs_stack st,
        cs_onStack := insert taskId (cs_onStack st)\<rparr>"

definition lowerLink :: "TaskId \<Rightarrow> nat option \<Rightarrow> CycleSearch \<Rightarrow> CycleSearch option" where
  "lowerLink taskId link st =
     do {
       own \<leftarrow> cs_lowLinks st taskId;
       other \<leftarrow> link;
       Some (st\<lparr>cs_lowLinks := (cs_lowLinks st)(taskId \<mapsto> min own other)\<rparr>)
     }"

definition leaveTask :: "TaskId \<Rightarrow> CycleSearch \<Rightarrow> CycleSearch option" where
  "leaveTask taskId st =
     do {
       low \<leftarrow> cs_lowLinks st taskId;
       index \<leftarrow> cs_indexes st taskId;
       Some (if low = index then recordComponent taskId st else st)
     }"

fun visit :: "nat \<Rightarrow> (TaskId \<Rightarrow> TaskId list option) \<Rightarrow> TaskId \<Rightarrow> CycleSearch \<Rightarrow> CycleSearch option"
and visitAdjacent :: "nat \<Rightarrow> (TaskId \<Rightarrow> TaskId list option) \<Rightarrow> TaskId \<Rightarrow> TaskId list \<Rightarrow> CycleSearch \<Rightarrow> CycleSearch option" where
  "visit 0 adjacent taskId st = None"
| "visit (Suc fuel) adjacent taskId st =
     do {
       ids \<leftarrow> adjacent taskId;
       st' \<leftarrow> visitAdjacent fuel adjacent taskId ids (enterTask taskId st);
       leaveTask taskId st'
     }"
| "visitAdjacent fuel adjacent taskId [] st = Some st"
| "visitAdjacent fuel adjacent taskId (a # as) st =
     do {
       st' \<leftarrow> (if cs_indexes st a = None
               then do { st1 \<leftarrow> visit fuel adjacent a st; lowerLink taskId (cs_lowLinks st1 a) st1 }
               else if a \<in> cs_onStack st then lowerLink taskId (cs_indexes st a) st
               else Some st);
       visitAdjacent fuel adjacent taskId as st'
     }"

fun visitAll :: "nat \<Rightarrow> (TaskId \<Rightarrow> TaskId list option) \<Rightarrow> TaskId list \<Rightarrow> CycleSearch \<Rightarrow> CycleSearch option" where
  "visitAll fuel adjacent [] st = Some st"
| "visitAll fuel adjacent (taskId # taskIds) st =
     do {
       st' \<leftarrow> (if cs_indexes st taskId = None then visit fuel adjacent taskId st else Some st);
       visitAll fuel adjacent taskIds st'
     }"

definition nodeIndexOf :: "'g GraphLibrary \<Rightarrow> 'g \<Rightarrow> (TaskId \<times> nat) list" where
  "nodeIndexOf G g = foldl (\<lambda>m (index, node). AList.update (gn_id node) index m) [] (gl_nodes G g)"

definition cycleTaskIds :: "'g GraphLibrary \<Rightarrow> 'g \<Rightarrow> TaskGraphEdge \<Rightarrow> TaskId list list option" where
  "cycleTaskIds G g relation =
     (let indexes = nodeIndexOf G g;
          adjacent = (\<lambda>taskId. do { index \<leftarrow> map_of indexes taskId; taskIdsForRelation G g relation index Incoming }) in
      map_option cs_components
        (visitAll (Suc (length indexes)) adjacent (sortedTaskIds (map fst indexes)) emptySearch))"

section \<open>Projection\<close>

record 'g TaskDagSnapshot =
  ds_revision :: TrackerRevision
  ds_rootTaskId :: "TaskId option"
  ds_graph :: 'g
  ds_nodeIndexByTaskId :: "(TaskId \<times> nat) list"

datatype 'g ProjectionResult = Invalid "ProjectionIssue list" | Valid "'g TaskDagSnapshot"

definition projectTasks :: "'g GraphLibrary \<Rightarrow> TrackerSnapshot \<Rightarrow> 'g ProjectionResult option" where
  "projectTasks G decoded =
     do {
       let records = sort_key (\<lambda>task. (tt_id task, compareTrackerTasks task)) (ts_tasks decoded);
       let (recordsById, duplicates) = collectTaskRecords records [] [];
       let local = concat (map (\<lambda>task. validatePrerequisites task recordsById @ validateParent task recordsById) records);
       let root = (case ts_rootTaskId decoded of
                     None \<Rightarrow> []
                   | Some taskId \<Rightarrow> if map_of recordsById taskId = None then [MissingRootTask taskId] else []);
       representation \<leftarrow> taskGraphRepresentationFrom G recordsById;
       cycles \<leftarrow> cycleTaskIds G (gr_graph representation) Prerequisite;
       containment \<leftarrow> cycleTaskIds G (gr_graph representation) Grouping;
       let issues = duplicates @ local @ root @ map Cycle cycles @ map ContainmentCycle containment;
       Some (if length issues > 0 then Invalid issues
             else Valid \<lparr>ds_revision = ts_revision decoded, ds_rootTaskId = ts_rootTaskId decoded,
                         ds_graph = gr_graph representation,
                         ds_nodeIndexByTaskId = gr_nodeIndexByTaskId representation\<rparr>)
     }"

definition projectDecodedSnapshot :: "'g GraphLibrary \<Rightarrow> string + TrackerSnapshot \<Rightarrow> 'g ProjectionResult option" where
  "projectDecodedSnapshot G decoded =
     (case decoded of
        Inl failure \<Rightarrow> Some (Invalid [BoundaryDecodeFailed failure])
      | Inr snapshot \<Rightarrow> projectTasks G snapshot)"

definition projectTaskDagWire :: "'g GraphLibrary \<Rightarrow> string + TaskDagWire \<Rightarrow> 'g ProjectionResult option" where
  "projectTaskDagWire G input =
     projectDecodedSnapshot G
       (map_sum id (\<lambda>wire. \<lparr>ts_revision = tw_revision wire, ts_rootTaskId = None, ts_tasks = tw_tasks wire\<rparr>) input)"

section \<open>Queries\<close>

definition taskIdsOf :: "'g GraphLibrary \<Rightarrow> 'g TaskDagSnapshot \<Rightarrow> TaskId list" where
  "taskIdsOf G s = map (\<lambda>(index, node). gn_id node) (gl_nodes G (ds_graph s))"

definition lifecycleOf :: "'g GraphLibrary \<Rightarrow> 'g TaskDagSnapshot \<Rightarrow> TaskId \<Rightarrow> TaskLifecycle option" where
  "lifecycleOf G s taskId =
     do {
       index \<leftarrow> map_of (ds_nodeIndexByTaskId s) taskId;
       map_option gn_lifecycle (gl_getNode G (ds_graph s) index)
     }"

text \<open>The answer of a query that lists related tasks is \<open>None\<close> when a lookup it makes throws.\<close>

definition relatedTaskIds ::
  "'g GraphLibrary \<Rightarrow> 'g TaskDagSnapshot \<Rightarrow> TaskGraphEdge \<Rightarrow> Direction \<Rightarrow> TaskId \<Rightarrow> TaskId list option" where
  "relatedTaskIds G s relation direction taskId =
     (case map_of (ds_nodeIndexByTaskId s) taskId of
        None \<Rightarrow> Some []
      | Some index \<Rightarrow> taskIdsForRelation G (ds_graph s) relation index direction)"

definition childrenOf :: "'g GraphLibrary \<Rightarrow> 'g TaskDagSnapshot \<Rightarrow> TaskId \<Rightarrow> TaskId list option" where
  "childrenOf G s = relatedTaskIds G s Grouping Outgoing"

definition prerequisitesOf :: "'g GraphLibrary \<Rightarrow> 'g TaskDagSnapshot \<Rightarrow> TaskId \<Rightarrow> TaskId list option" where
  "prerequisitesOf G s = relatedTaskIds G s Prerequisite Incoming"

definition dependantsOf :: "'g GraphLibrary \<Rightarrow> 'g TaskDagSnapshot \<Rightarrow> TaskId \<Rightarrow> TaskId list option" where
  "dependantsOf G s = relatedTaskIds G s Prerequisite Outgoing"

text \<open>
  \<open>parentTaskIdOf\<close> is \<open>Some None\<close> for an unknown task (the source's \<open>Option.none\<close>), \<open>Some (Some None)\<close> for a task
  without a parent (its \<open>null\<close>).
\<close>

definition parentTaskIdOf :: "'g GraphLibrary \<Rightarrow> 'g TaskDagSnapshot \<Rightarrow> TaskId \<Rightarrow> TaskId option option option" where
  "parentTaskIdOf G s taskId =
     (case map_of (ds_nodeIndexByTaskId s) taskId of
        None \<Rightarrow> Some None
      | Some index \<Rightarrow>
          do {
            parents \<leftarrow> taskIdsForRelation G (ds_graph s) Grouping index Incoming;
            Some (Some (case parents of [] \<Rightarrow> None | parent # _ \<Rightarrow> Some parent))
          })"

definition groupingSubtreeOf :: "'g GraphLibrary \<Rightarrow> 'g TaskDagSnapshot \<Rightarrow> TaskId \<Rightarrow> TaskId list" where
  "groupingSubtreeOf G s taskId =
     (case map_of (ds_nodeIndexByTaskId s) taskId of
        None \<Rightarrow> []
      | Some index \<Rightarrow> map (\<lambda>(index, node). gn_id node) (gl_bfs G (graphForRelation G (ds_graph s) Grouping) [index]))"

fun settleDependants ::
  "TaskId list \<Rightarrow> (TaskId \<rightharpoonup> int) \<Rightarrow> TaskId list \<Rightarrow> ((TaskId \<rightharpoonup> int) \<times> TaskId list) option" where
  "settleDependants [] remaining ready = Some (remaining, ready)"
| "settleDependants (d # ds) remaining ready =
     do {
       current \<leftarrow> remaining d;
       settleDependants ds (remaining(d \<mapsto> current - 1))
         (if current - 1 = 0 then sortedTaskIds (ready @ [d]) else ready)
     }"

fun topologicalLoop ::
  "nat \<Rightarrow> (TaskId \<Rightarrow> TaskId list option) \<Rightarrow> (TaskId \<rightharpoonup> int) \<Rightarrow> TaskId list \<Rightarrow> TaskId list \<Rightarrow> TaskId list option" where
  "topologicalLoop fuel dependants remaining [] order = Some order"
| "topologicalLoop 0 dependants remaining (taskId # ready) order = None"
| "topologicalLoop (Suc fuel) dependants remaining (taskId # ready) order =
     do {
       ds \<leftarrow> dependants taskId;
       (remaining', ready') \<leftarrow> settleDependants ds remaining ready;
       topologicalLoop fuel dependants remaining' ready' (order @ [taskId])
     }"

definition topologicalOrder :: "'g GraphLibrary \<Rightarrow> 'g TaskDagSnapshot \<Rightarrow> TaskId list option" where
  "topologicalOrder G s =
     do {
       let taskIds = taskIdsOf G s;
       counts \<leftarrow> those (map (\<lambda>taskId. do { ps \<leftarrow> prerequisitesOf G s taskId; Some (taskId, int (length ps)) }) taskIds);
       let remaining = map_of counts;
       topologicalLoop (length taskIds) (dependantsOf G s) remaining
         (filter (\<lambda>taskId. remaining taskId = Some 0) taskIds) []
     }"

definition isEligible :: "'g GraphLibrary \<Rightarrow> 'g TaskDagSnapshot \<Rightarrow> TaskId \<Rightarrow> bool option" where
  "isEligible G s taskId =
     (case lifecycleOf G s taskId of
        None \<Rightarrow> Some False
      | Some lifecycle \<Rightarrow>
          if \<not> isTaskOpen lifecycle then Some False
          else do {
            ps \<leftarrow> prerequisitesOf G s taskId;
            Some (list_all (\<lambda>p. case lifecycleOf G s p of None \<Rightarrow> False | Some l \<Rightarrow> isDependencySatisfied l) ps)
          })"

definition eligibleTaskIds :: "'g GraphLibrary \<Rightarrow> 'g TaskDagSnapshot \<Rightarrow> TaskId list option" where
  "eligibleTaskIds G s =
     do {
       flags \<leftarrow> those (map (isEligible G s) (taskIdsOf G s));
       Some (map fst (filter snd (zip (taskIdsOf G s) flags)))
     }"

definition taskValueOf :: "'g GraphLibrary \<Rightarrow> 'g TaskDagSnapshot \<Rightarrow> TaskId \<Rightarrow> TrackerTask option" where
  "taskValueOf G s taskId =
     do {
       index \<leftarrow> map_of (ds_nodeIndexByTaskId s) taskId;
       node \<leftarrow> taskNodeAt G (ds_graph s) index;
       parent \<leftarrow> parentTaskIdOf G s taskId;
       prerequisites \<leftarrow> prerequisitesOf G s taskId;
       Some \<lparr>tt_descriptor = gn_descriptor node, tt_id = taskId, tt_lifecycle = gn_lifecycle node,
             tt_parentTaskId = (case parent of None \<Rightarrow> None | Some p \<Rightarrow> p), tt_prerequisiteIds = prerequisites\<rparr>
     }"

definition eligibleTasks :: "'g GraphLibrary \<Rightarrow> 'g TaskDagSnapshot \<Rightarrow> TrackerTask list option" where
  "eligibleTasks G s = do { ids \<leftarrow> eligibleTaskIds G s; those (map (taskValueOf G s) ids) }"

definition toWire :: "'g GraphLibrary \<Rightarrow> 'g TaskDagSnapshot \<Rightarrow> TaskDagWire option" where
  "toWire G s =
     do {
       tasks \<leftarrow> those (map (taskValueOf G s) (taskIdsOf G s));
       Some \<lparr>tw_schemaVersion = taskDagSchemaVersion, tw_revision = ds_revision s, tw_tasks = tasks\<rparr>
     }"

end
