(* ===== verification/Cycle_Detection.thy ===== *)
theory Cycle_Detection
  imports Task_Graph
begin

text \<open>
  Correctness of the cycle search (\<^verbatim>\<open>cycleTaskIds\<close> in \<^verbatim>\<open>graph.ts\<close>), a recursive strongly-connected-components search
  that keeps the components with more than one member. The locale \<open>cycle_search\<close> states what the search
  needs of the adjacency it is given: it answers for every node, and only with nodes. Inside it, \<open>searchInv\<close> is the invariant
  between two calls, \<open>opened\<close> the one of the loop over the neighbours of a task, \<open>visited\<close> what one call of
  \<open>visit\<close> establishes; \<open>visitAll_correct\<close> says that a fuel of one more than the number of nodes suffices and that the components
  found are exactly the strongly connected sets of two or more tasks, each once and in order.
\<close>

locale cycle_search =
  fixes N :: "TaskId list" and adj :: "TaskId \<Rightarrow> TaskId list" and adjacent :: "TaskId \<Rightarrow> TaskId list option"
  assumes adjacent_node: "v \<in> set N \<Longrightarrow> adjacent v = Some (adj v)"
    and adj_nodes: "v \<in> set N \<Longrightarrow> set (adj v) \<subseteq> set N"
begin

definition adjRel :: "(TaskId \<times> TaskId) set" where
  "adjRel = {(v, w). v \<in> set N \<and> w \<in> set (adj v)}"

definition sccOf :: "TaskId \<Rightarrow> TaskId set" where
  "sccOf v = {w. (v, w) \<in> adjRel\<^sup>* \<and> (w, v) \<in> adjRel\<^sup>*}"

definition num :: "CycleSearch \<Rightarrow> TaskId \<Rightarrow> nat" where
  "num st u = the (cs_indexes st u)"

definition settled :: "CycleSearch \<Rightarrow> TaskId set" where
  "settled st = dom (cs_indexes st) - set (cs_stack st)"

definition componentsInv :: "TaskId set \<Rightarrow> TaskId list list \<Rightarrow> bool" where
  "componentsInv D cs \<longleftrightarrow>
     distinct cs \<and>
     (\<forall>c\<in>set cs. sorted c \<and> distinct c \<and> 1 < length c \<and> (\<exists>v\<in>D. set c = sccOf v)) \<and>
     (\<forall>v\<in>D. sccOf v \<noteq> {v} \<longrightarrow> sccOf v \<in> set ` set cs)"

definition searchInv :: "CycleSearch \<Rightarrow> bool" where
  "searchInv st \<longleftrightarrow>
     dom (cs_indexes st) \<subseteq> set N \<and> cs_onStack st = set (cs_stack st) \<and> set (cs_stack st) \<subseteq> dom (cs_indexes st) \<and>
     sorted_wrt (\<lambda>x y. num st y < num st x) (cs_stack st) \<and>
     (\<forall>u\<in>dom (cs_indexes st). num st u < cs_nextIndex st) \<and>
     (\<forall>u\<in>settled st. set (adj u) \<subseteq> settled st) \<and>
     componentsInv (settled st) (cs_components st)"

definition frame :: "TaskId set \<Rightarrow> CycleSearch \<Rightarrow> CycleSearch \<Rightarrow> bool" where
  "frame L st st' \<longleftrightarrow>
     cs_indexes st \<subseteq>\<^sub>m cs_indexes st' \<and> settled st \<subseteq> settled st' \<and>
     (\<forall>u\<in>dom (cs_indexes st) - L. cs_lowLinks st' u = cs_lowLinks st u)"

definition covered :: "CycleSearch \<Rightarrow> nat \<Rightarrow> TaskId set \<Rightarrow> bool" where
  "covered st l X \<longleftrightarrow> (\<forall>x\<in>X. x \<in> settled st \<or> (x \<in> set (cs_stack st) \<and> l \<le> num st x))"

definition pending :: "CycleSearch \<Rightarrow> TaskId \<Rightarrow> nat \<Rightarrow> TaskId list \<Rightarrow> bool" where
  "pending st root l T \<longleftrightarrow>
     (\<forall>y\<in>set T. (root, y) \<in> adjRel\<^sup>* \<and> covered st l (set (adj y)) \<and>
        (\<exists>u\<in>set (cs_stack st). (y, u) \<in> adjRel\<^sup>* \<and> l \<le> num st u \<and> num st u < num st y))"

definition linked :: "CycleSearch \<Rightarrow> TaskId \<Rightarrow> nat \<Rightarrow> bool" where
  "linked st v l \<longleftrightarrow>
     cs_lowLinks st v = Some l \<and> l \<le> num st v \<and> (\<exists>u\<in>set (cs_stack st). (v, u) \<in> adjRel\<^sup>* \<and> num st u = l)"

definition opened :: "TaskId \<Rightarrow> TaskId list \<Rightarrow> TaskId set \<Rightarrow> CycleSearch \<Rightarrow> bool" where
  "opened p base X st \<longleftrightarrow>
     searchInv st \<and> (\<exists>T l. cs_stack st = T @ p # base \<and> linked st p l \<and> pending st p l T \<and> covered st l X)"

definition visited :: "TaskId \<Rightarrow> CycleSearch \<Rightarrow> CycleSearch \<Rightarrow> bool" where
  "visited w st st' \<longleftrightarrow>
     searchInv st' \<and> frame {} st st' \<and> w \<in> dom (cs_indexes st') \<and>
     (\<exists>T l. cs_stack st' = T @ cs_stack st \<and> cs_lowLinks st' w = Some l \<and>
        (T = [] \<and> cs_nextIndex st \<le> l \<or> w \<in> set T \<and> linked st' w l \<and> pending st' w l T))"

subsection \<open>Frames\<close>

lemma frame_refl: "frame L st st"
  by (simp add: frame_def)

lemma frame_trans:
  assumes "frame L st st'" "frame L st' st''"
  shows "frame L st st''"
proof -
  have "dom (cs_indexes st) \<subseteq> dom (cs_indexes st')"
    using assms(1) by (simp add: frame_def map_le_implies_dom_le)
  then show ?thesis
    using assms unfolding frame_def by (metis DiffD1 DiffD2 DiffI map_le_trans subsetD subset_trans)
qed

lemma frame_weaken: "frame {} st st' \<Longrightarrow> frame L st st'"
  by (simp add: frame_def)

lemma frame_num: "frame L st st' \<Longrightarrow> u \<in> dom (cs_indexes st) \<Longrightarrow> num st' u = num st u"
  by (auto simp: frame_def num_def map_le_def dom_def)

lemma frame_dom: "frame L st st' \<Longrightarrow> dom (cs_indexes st) \<subseteq> dom (cs_indexes st')"
  by (simp add: frame_def map_le_implies_dom_le)

lemma covered_frame:
  assumes "covered st l X" "frame L st st'" "set (cs_stack st) \<subseteq> set (cs_stack st')" "l' \<le> l"
    "set (cs_stack st) \<subseteq> dom (cs_indexes st)"
  shows "covered st' l' X"
  using assms frame_num [OF assms(2)] unfolding covered_def frame_def by (metis le_trans subsetD)

lemma pending_frame:
  assumes "pending st r l T" "frame L st st'" "set (cs_stack st) \<subseteq> set (cs_stack st')" "l' \<le> l"
    "set (cs_stack st) \<subseteq> dom (cs_indexes st)" "set T \<subseteq> set (cs_stack st)"
  shows "pending st' r l' T"
  unfolding pending_def
proof (intro ballI conjI)
  fix y assume y: "y \<in> set T"
  show "(r, y) \<in> adjRel\<^sup>*" using assms(1) y by (simp add: pending_def)
  show "covered st' l' (set (adj y))"
    using assms(1) y covered_frame [OF _ assms(2-5)] by (simp add: pending_def)
  obtain u where "u \<in> set (cs_stack st)" "(y, u) \<in> adjRel\<^sup>*" "l \<le> num st u" "num st u < num st y"
    using assms(1) y by (auto simp: pending_def)
  then show "\<exists>u\<in>set (cs_stack st'). (y, u) \<in> adjRel\<^sup>* \<and> l' \<le> num st' u \<and> num st' u < num st' y"
    using assms frame_num [OF assms(2)] y by (metis le_trans subsetD)
qed

lemma linked_frame:
  assumes "linked st v l" "frame L st st'" "v \<in> dom (cs_indexes st) - L" "set (cs_stack st) \<subseteq> set (cs_stack st')"
    "set (cs_stack st) \<subseteq> dom (cs_indexes st)"
  shows "linked st' v l"
proof -
  obtain u where u: "u \<in> set (cs_stack st)" "(v, u) \<in> adjRel\<^sup>*" "num st u = l"
    using assms(1) by (auto simp: linked_def)
  have "num st' u = l" "num st' v = num st v"
    using u assms frame_num [OF assms(2)] by auto
  moreover have "cs_lowLinks st' v = Some l"
    using assms by (simp add: frame_def linked_def)
  ultimately show ?thesis
    using u assms(1,4) unfolding linked_def by auto
qed

lemma pending_root: "(r', r) \<in> adjRel\<^sup>* \<Longrightarrow> pending st r l T \<Longrightarrow> pending st r' l T"
  unfolding pending_def by (meson rtrancl_trans)

lemma pending_append: "pending st r l (T @ T') \<longleftrightarrow> pending st r l T \<and> pending st r l T'"
  by (auto simp: pending_def)

subsection \<open>The steps of one call\<close>

lemma lowLinks_irrelevant [simp]:
  "num (st\<lparr>cs_lowLinks := f\<rparr>) = num st"
  "settled (st\<lparr>cs_lowLinks := f\<rparr>) = settled st"
  "searchInv (st\<lparr>cs_lowLinks := f\<rparr>) = searchInv st"
  "covered (st\<lparr>cs_lowLinks := f\<rparr>) = covered st"
  "pending (st\<lparr>cs_lowLinks := f\<rparr>) = pending st"
  by (auto simp: num_def settled_def searchInv_def covered_def pending_def fun_eq_iff)

lemma searchInv_stack_dom: "searchInv st \<Longrightarrow> set (cs_stack st) \<subseteq> dom (cs_indexes st)"
  by (simp add: searchInv_def)

lemma enterTask_fields [simp]:
  "cs_nextIndex (enterTask w st) = Suc (cs_nextIndex st)"
  "cs_indexes (enterTask w st) = (cs_indexes st)(w \<mapsto> cs_nextIndex st)"
  "cs_lowLinks (enterTask w st) = (cs_lowLinks st)(w \<mapsto> cs_nextIndex st)"
  "cs_stack (enterTask w st) = w # cs_stack st"
  "cs_onStack (enterTask w st) = insert w (cs_onStack st)"
  "cs_components (enterTask w st) = cs_components st"
  by (simp_all add: enterTask_def)

lemma enter_opened:
  assumes inv: "searchInv st" and node: "w \<in> set N" and fresh: "cs_indexes st w = None"
  shows "opened w (cs_stack st) {} (enterTask w st)" "frame {} st (enterTask w st)"
    "num (enterTask w st) w = cs_nextIndex st" "dom (cs_indexes (enterTask w st)) = insert w (dom (cs_indexes st))"
proof -
  let ?st = "enterTask w st"
  have num: "num ?st u = (if u = w then cs_nextIndex st else num st u)" for u
    by (simp add: num_def)
  have notin: "w \<notin> dom (cs_indexes st)" "w \<notin> set (cs_stack st)"
    using inv fresh by (auto simp: searchInv_def)
  have settled: "settled ?st = settled st"
    using notin by (auto simp: settled_def)
  have below: "\<forall>x\<in>set (cs_stack st). num st x < cs_nextIndex st"
    using inv by (auto simp: searchInv_def)
  have "sorted_wrt (\<lambda>x y. num ?st y < num ?st x) (cs_stack st)"
    by (rule sorted_wrt_mono_rel [of _ "\<lambda>x y. num st y < num st x"])
      (use inv notin in \<open>auto simp: num searchInv_def\<close>)
  then have sorted: "sorted_wrt (\<lambda>x y. num ?st y < num ?st x) (cs_stack ?st)"
    using below notin by (auto simp: num)
  have "searchInv ?st"
    using inv node sorted unfolding searchInv_def settled
    by (auto simp: num less_Suc_eq)
  moreover have "linked ?st w (cs_nextIndex st)"
    by (simp add: linked_def num)
  ultimately show "opened w (cs_stack st) {} ?st"
    unfolding opened_def by (intro conjI exI [of _ "[]"] exI [of _ "cs_nextIndex st"]) (auto simp: pending_def covered_def)
  show "frame {} st ?st"
    using notin unfolding frame_def settled by (auto simp: map_le_def)
  show "num ?st w = cs_nextIndex st" by (simp add: num)
  show "dom (cs_indexes ?st) = insert w (dom (cs_indexes st))" by simp
qed

lemma lower_opened:
  assumes inv: "searchInv st" and stack: "cs_stack st = T @ p # base" and link: "linked st p l"
    and pend: "pending st p (min l m) T" and cov: "covered st (min l m) X"
    and reach: "m < l \<Longrightarrow> \<exists>u\<in>set (cs_stack st). (p, u) \<in> adjRel\<^sup>* \<and> num st u = m"
  shows "\<exists>st'. lowerLink p (Some m) st = Some st' \<and> opened p base X st' \<and> frame {p} st st' \<and>
    cs_indexes st' = cs_indexes st"
proof -
  let ?st = "st\<lparr>cs_lowLinks := (cs_lowLinks st)(p \<mapsto> min l m)\<rparr>"
  have "lowerLink p (Some m) st = Some ?st"
    using link by (simp add: lowerLink_def linked_def)
  moreover have "linked ?st p (min l m)"
    using link reach unfolding linked_def by (cases "m < l") (auto simp: min_def)
  then have "opened p base X ?st"
    using inv stack pend cov unfolding opened_def by (intro conjI exI [of _ T] exI [of _ "min l m"]) auto
  moreover have "frame {p} st ?st" by (simp add: frame_def)
  ultimately show ?thesis by auto
qed

lemma opened_child:
  assumes op: "opened p base X st" and child: "visited a st st1" and edge: "(p, a) \<in> adjRel" and fresh: "cs_indexes st a = None"
  shows "\<exists>st'. lowerLink p (cs_lowLinks st1 a) st1 = Some st' \<and> opened p base (insert a X) st' \<and> frame {p} st st'"
proof -
  from op obtain T l where inv: "searchInv st" and stack: "cs_stack st = T @ p # base" and link: "linked st p l"
    and pend: "pending st p l T" and cov: "covered st l X"
    unfolding opened_def by blast
  from child obtain T1 m where inv1: "searchInv st1" and fr: "frame {} st st1" and dom: "a \<in> dom (cs_indexes st1)"
    and stack1: "cs_stack st1 = T1 @ cs_stack st" and low: "cs_lowLinks st1 a = Some m"
    and alt: "T1 = [] \<and> cs_nextIndex st \<le> m \<or> a \<in> set T1 \<and> linked st1 a m \<and> pending st1 a m T1"
    unfolding visited_def by blast
  have sub: "set (cs_stack st) \<subseteq> set (cs_stack st1)" and sd: "set (cs_stack st) \<subseteq> dom (cs_indexes st)"
    using stack1 searchInv_stack_dom [OF inv] by auto
  have pdom: "p \<in> dom (cs_indexes st)" using sd stack by auto
  have link1: "linked st1 p l"
    using linked_frame [OF link fr _ sub sd] pdom by simp
  have pend1: "pending st1 p (min l m) T"
    using pending_frame [OF pend fr sub _ sd, of "min l m"] stack by auto
  have cov1: "covered st1 (min l m) X"
    using covered_frame [OF cov fr sub _ sd] by simp
  have reach: "(p, a) \<in> adjRel\<^sup>*" using edge by auto
  have "\<exists>st'. lowerLink p (Some m) st1 = Some st' \<and> opened p base (insert a X) st' \<and> frame {p} st1 st' \<and>
    cs_indexes st' = cs_indexes st1"
    using alt
  proof
    assume closed: "T1 = [] \<and> cs_nextIndex st \<le> m"
    have "num st p < cs_nextIndex st" using inv pdom by (auto simp: searchInv_def)
    moreover have "l \<le> num st p" using link by (simp add: linked_def)
    ultimately have "\<not> m < l" using closed by auto
    moreover have "a \<in> settled st1"
      using dom closed stack1 sd fresh by (auto simp: settled_def)
    then have "covered st1 (min l m) (insert a X)" using cov1 by (simp add: covered_def)
    ultimately show ?thesis
      using lower_opened [OF inv1 _ link1 pend1] closed stack1 stack by auto
  next
    assume left: "a \<in> set T1 \<and> linked st1 a m \<and> pending st1 a m T1"
    have "pending st1 a (min l m) T1"
      using pending_frame [OF _ frame_refl, of st1 a m T1] left searchInv_stack_dom [OF inv1] stack1 by auto
    then have pend2: "pending st1 p (min l m) (T1 @ T)"
      using pending_root [OF reach] pend1 by (simp add: pending_append)
    have "covered st1 (min l m) (insert a X)"
      using cov1 left stack1 by (auto simp: covered_def linked_def)
    moreover have "\<exists>u\<in>set (cs_stack st1). (p, u) \<in> adjRel\<^sup>* \<and> num st1 u = m"
      using left reach unfolding linked_def by (meson rtrancl_trans)
    ultimately show ?thesis
      using lower_opened [OF inv1 _ link1 pend2] stack1 stack by auto
  qed
  then show ?thesis
    using low frame_trans [OF frame_weaken [OF fr]] by auto
qed

lemma opened_onStack:
  assumes op: "opened p base X st" and edge: "(p, a) \<in> adjRel" and on: "a \<in> cs_onStack st"
  shows "\<exists>st'. lowerLink p (cs_indexes st a) st = Some st' \<and> opened p base (insert a X) st' \<and> frame {p} st st'"
proof -
  from op obtain T l where inv: "searchInv st" and stack: "cs_stack st = T @ p # base" and link: "linked st p l"
    and pend: "pending st p l T" and cov: "covered st l X"
    unfolding opened_def by blast
  have on': "a \<in> set (cs_stack st)" and sd: "set (cs_stack st) \<subseteq> dom (cs_indexes st)"
    using inv on by (auto simp: searchInv_def)
  then obtain m where m: "cs_indexes st a = Some m" by auto
  then have num: "num st a = m" by (simp add: num_def)
  have "pending st p (min l m) T"
    using pending_frame [OF pend frame_refl _ _ sd, of "min l m"] stack by auto
  moreover have "covered st (min l m) (insert a X)"
    using covered_frame [OF cov frame_refl _ _ sd] on' num by (auto simp: covered_def)
  moreover have "\<exists>u\<in>set (cs_stack st). (p, u) \<in> adjRel\<^sup>* \<and> num st u = m"
    using on' num edge by auto
  ultimately show ?thesis
    using lower_opened [OF inv stack link] m by auto
qed

lemma opened_settled:
  assumes "opened p base X st" "cs_indexes st a \<noteq> None" "a \<notin> cs_onStack st"
  shows "opened p base (insert a X) st"
  using assms unfolding opened_def covered_def by (auto simp: settled_def searchInv_def)

subsection \<open>Leaving a task\<close>

lemma popComponent_root: "root \<notin> set T \<Longrightarrow> popComponent root (T @ root # base) c = (base, c @ T @ [root])"
  by (induction T arbitrary: c) auto

lemma settled_closed:
  assumes "searchInv st" "(u, z) \<in> adjRel\<^sup>*" "u \<in> settled st"
  shows "z \<in> settled st"
  using assms(2,3) by (induction rule: rtrancl_induct) (use assms(1) in \<open>auto simp: searchInv_def adjRel_def\<close>)

lemma sccOf_eq: "w \<in> sccOf v \<Longrightarrow> sccOf w = sccOf v"
  unfolding sccOf_def by (auto intro: rtrancl_trans)

lemma sccOf_self: "v \<in> sccOf v"
  by (simp add: sccOf_def)

lemma pending_reaches_root:
  assumes inv: "searchInv st" and stack: "cs_stack st = T @ p # base" and pend: "pending st p (num st p) T"
    and y: "y \<in> insert p (set T)"
  shows "(y, p) \<in> adjRel\<^sup>*"
  using y
proof (induction "num st y" arbitrary: y rule: less_induct)
  case less
  show ?case
  proof (cases "y = p")
    case False
    then obtain u where u: "u \<in> set (cs_stack st)" "(y, u) \<in> adjRel\<^sup>*" "num st p \<le> num st u" "num st u < num st y"
      using less.prems pend by (auto simp: pending_def)
    moreover have "u \<notin> set base"
      using inv stack u(3) by (auto simp: searchInv_def sorted_wrt_append)
    ultimately have "(u, p) \<in> adjRel\<^sup>*"
      using less.hyps [of u] stack by auto
    then show ?thesis using u(2) by (rule rtrancl_trans [rotated])
  qed simp
qed

lemma descending_distinct: "sorted_wrt (\<lambda>x y. (f y :: nat) < f x) xs \<Longrightarrow> distinct xs"
  by (induction xs) auto

lemma stack_segments:
  assumes "searchInv st" "cs_stack st = T @ p # base"
  shows "\<forall>x\<in>set base. num st x < num st p" "distinct (T @ p # base)"
proof -
  have sorted: "sorted_wrt (\<lambda>x y. num st y < num st x) (T @ p # base)"
    using assms by (simp add: searchInv_def)
  then show "\<forall>x\<in>set base. num st x < num st p" by (simp add: sorted_wrt_append)
  show "distinct (T @ p # base)" using sorted by (rule descending_distinct)
qed

lemma covered_root:
  assumes "searchInv st" "cs_stack st = T @ p # base" "covered st (num st p) X"
  shows "X \<subseteq> settled st \<union> insert p (set T)"
  using assms(2,3) stack_segments(1) [OF assms(1,2)] unfolding covered_def by fastforce

lemma component_is_scc:
  assumes inv: "searchInv st" and stack: "cs_stack st = T @ p # base" and pend: "pending st p (num st p) T"
    and cov: "covered st (num st p) (set (adj p))"
  shows "sccOf p = insert p (set T)" "\<forall>y\<in>insert p (set T). set (adj y) \<subseteq> settled st \<union> insert p (set T)"
proof -
  let ?C = "insert p (set T)"
  show closed: "\<forall>y\<in>?C. set (adj y) \<subseteq> settled st \<union> ?C"
    using pend cov covered_root [OF inv stack] by (auto simp: pending_def)
  have forward: "z \<in> settled st \<union> ?C" if "(p, z) \<in> adjRel\<^sup>*" for z
    using that
  proof (induction rule: rtrancl_induct)
    case (step y z)
    then show ?case
      using closed settled_closed [OF inv r_into_rtrancl] by (auto simp: adjRel_def)
  qed simp
  have "p \<notin> settled st" using stack by (simp add: settled_def)
  then have "z \<in> ?C" if "z \<in> sccOf p" for z
    using that forward settled_closed [OF inv, of z p] by (auto simp: sccOf_def)
  moreover have "y \<in> sccOf p" if "y \<in> ?C" for y
    using that pend pending_reaches_root [OF inv stack pend that] by (auto simp: sccOf_def pending_def)
  ultimately show "sccOf p = ?C" by blast
qed

lemma componentsInv_extend:
  assumes inv: "componentsInv D cs" and scc: "sccOf p = set (T @ [p])" and fresh: "set (T @ [p]) \<inter> D = {}"
    and dist: "distinct (T @ [p])"
  shows "componentsInv (D \<union> set (T @ [p])) (if length (T @ [p]) > 1 then cs @ [sortedTaskIds (T @ [p])] else cs)"
proof -
  have each: "sccOf y = set (T @ [p])" if "y \<in> set (T @ [p])" for y
    using that sccOf_eq [of y p] scc by simp
  have old: "set c \<noteq> set (T @ [p])" if "c \<in> set cs" for c
  proof -
    obtain v where "v \<in> D" "set c = sccOf v" using inv \<open>c \<in> set cs\<close> by (auto simp: componentsInv_def)
    then show ?thesis using sccOf_self [of v] fresh by blast
  qed
  show ?thesis
  proof (cases "T = []")
    case True
    then show ?thesis using inv each unfolding componentsInv_def by auto
  next
    case False
    have new: "sorted (sortedTaskIds (T @ [p]))" "distinct (sortedTaskIds (T @ [p]))" "set (sortedTaskIds (T @ [p])) = sccOf p"
      "1 < length (sortedTaskIds (T @ [p]))" "sortedTaskIds (T @ [p]) \<notin> set cs"
      using dist scc False old [of "sortedTaskIds (T @ [p])"] by (auto simp: sortedTaskIds_def)
    have "\<exists>v\<in>D \<union> set (T @ [p]). set c = sccOf v" if "c \<in> set cs" for c
      using inv that unfolding componentsInv_def by blast
    moreover have "sccOf v \<in> set ` set (cs @ [sortedTaskIds (T @ [p])])" if "v \<in> D \<union> set (T @ [p])" "sccOf v \<noteq> {v}" for v
      using that inv each [of v] new(3) scc unfolding componentsInv_def by auto
    ultimately show ?thesis
      using inv new False unfolding componentsInv_def by auto
  qed
qed

lemma record_visited:
  assumes inv: "searchInv st" and stack: "cs_stack st = T @ p # base" and pend: "pending st p (num st p) T"
    and cov: "covered st (num st p) (set (adj p))"
  shows "searchInv (recordComponent p st)" "settled (recordComponent p st) = settled st \<union> set (T @ [p])"
    "cs_stack (recordComponent p st) = base" "cs_indexes (recordComponent p st) = cs_indexes st"
    "cs_lowLinks (recordComponent p st) = cs_lowLinks st" "cs_nextIndex (recordComponent p st) = cs_nextIndex st"
proof -
  let ?st = "recordComponent p st"
  have dist: "distinct (T @ p # base)" using stack_segments(2) [OF inv stack] .
  then have st: "?st = st\<lparr>cs_stack := base, cs_onStack := cs_onStack st - set (T @ [p]),
      cs_components := (if length (T @ [p]) > 1 then cs_components st @ [sortedTaskIds (T @ [p])] else cs_components st)\<rparr>"
    unfolding recordComponent_def stack by (simp add: popComponent_root)
  have on: "cs_onStack st = set (T @ p # base)" and sub: "set (T @ p # base) \<subseteq> dom (cs_indexes st)"
    using inv stack by (auto simp: searchInv_def)
  show settled: "settled ?st = settled st \<union> set (T @ [p])"
    using sub dist stack unfolding st settled_def by auto
  show fields: "cs_stack ?st = base" "cs_indexes ?st = cs_indexes st" "cs_lowLinks ?st = cs_lowLinks st"
    "cs_nextIndex ?st = cs_nextIndex st"
    by (simp_all add: st)
  have num: "num ?st = num st" by (simp add: num_def fields fun_eq_iff)
  note scc = component_is_scc [OF inv stack pend cov]
  have "componentsInv (settled st) (cs_components st)" "set (T @ [p]) \<inter> settled st = {}" "distinct (T @ [p])"
    using inv stack dist by (auto simp: searchInv_def settled_def)
  then have comps: "componentsInv (settled ?st) (cs_components ?st)"
    unfolding settled using componentsInv_extend scc(1) by (simp add: st)
  have "sorted_wrt (\<lambda>x y. num st y < num st x) base"
    using inv stack by (simp add: searchInv_def sorted_wrt_append)
  moreover have "\<forall>u\<in>settled ?st. set (adj u) \<subseteq> settled ?st"
    using inv scc(2) unfolding settled by (auto simp: searchInv_def)
  moreover have "cs_onStack ?st = set base"
    using on dist by (auto simp: st)
  ultimately show "searchInv ?st"
    using inv comps sub unfolding searchInv_def num fields by auto
qed

lemma leave_visited:
  assumes op: "opened p (cs_stack st0) (set (adj p)) st" and fresh: "cs_indexes st0 p = None"
    and fr: "frame {p} st0 st" and number: "num st p = cs_nextIndex st0"
  shows "\<exists>st'. leaveTask p st = Some st' \<and> visited p st0 st'"
proof -
  from op obtain T l where inv: "searchInv st" and stack: "cs_stack st = T @ p # cs_stack st0" and link: "linked st p l"
    and pend: "pending st p l T" and cov: "covered st l (set (adj p))"
    unfolding opened_def by blast
  have pdom: "p \<in> dom (cs_indexes st)"
    using searchInv_stack_dom [OF inv] stack by auto
  then have leave: "leaveTask p st = Some (if l = num st p then recordComponent p st else st)"
    using link by (auto simp: leaveTask_def linked_def num_def)
  have fr0: "frame {} st0 st" using fr fresh by (auto simp: frame_def dom_def)
  show ?thesis
  proof (cases "l = num st p")
    case True
    note rec = record_visited [OF inv stack pend [unfolded True] cov [unfolded True]]
    have "frame {} st0 (recordComponent p st)"
      using fr0 rec unfolding frame_def by auto
    moreover have "cs_lowLinks st p = Some (cs_nextIndex st0)"
      using link number True by (simp add: linked_def)
    ultimately have "visited p st0 (recordComponent p st)"
      using rec pdom unfolding visited_def by auto
    then show ?thesis using leave True by simp
  next
    case False
    then obtain u where "u \<in> set (cs_stack st)" "(p, u) \<in> adjRel\<^sup>*" "num st u = l" "l < num st p"
      using link unfolding linked_def by (metis le_neq_implies_less)
    then have "pending st p l (T @ [p])"
      using pend cov unfolding pending_append by (auto simp: pending_def)
    moreover have "cs_lowLinks st p = Some l" using link by (simp add: linked_def)
    ultimately have "visited p st0 st"
      unfolding visited_def using inv fr0 pdom stack link
      by (intro conjI exI [of _ "T @ [p]"] exI [of _ l]) auto
    then show ?thesis using leave False by simp
  qed
qed

subsection \<open>The whole search\<close>

lemma unvisited_enter:
  assumes "w \<in> set N" "cs_indexes st w = None" "card (set N - dom (cs_indexes st)) \<le> Suc n"
  shows "card (set N - dom (cs_indexes (enterTask w st))) \<le> n"
proof -
  have eq: "set N - dom (cs_indexes (enterTask w st)) = (set N - dom (cs_indexes st)) - {w}" by auto
  have "w \<in> set N - dom (cs_indexes st)" using assms by auto
  then have "card (set N - dom (cs_indexes (enterTask w st))) = card (set N - dom (cs_indexes st)) - 1"
    unfolding eq by (simp add: card_Diff_singleton)
  then show ?thesis using assms(3) by simp
qed

lemma unvisited_frame: "frame L st st' \<Longrightarrow> card (set N - dom (cs_indexes st)) \<le> n \<Longrightarrow> card (set N - dom (cs_indexes st')) \<le> n"
  using frame_dom [of L st st'] by (meson Diff_mono List.finite_set card_mono finite_Diff le_trans subset_refl)

lemma visitAdjacent_correct:
  assumes visit: "\<And>w st. searchInv st \<Longrightarrow> w \<in> set N \<Longrightarrow> cs_indexes st w = None \<Longrightarrow>
      card (set N - dom (cs_indexes st)) \<le> n \<Longrightarrow> \<exists>st'. visit n adjacent w st = Some st' \<and> visited w st st'"
    and node: "p \<in> set N"
  shows "opened p base X st \<Longrightarrow> set as \<subseteq> set (adj p) \<Longrightarrow> card (set N - dom (cs_indexes st)) \<le> n \<Longrightarrow>
     \<exists>st'. visitAdjacent n adjacent p as st = Some st' \<and> opened p base (X \<union> set as) st' \<and> frame {p} st st'"
proof (induction as arbitrary: X st)
  case Nil
  then show ?case by (simp add: frame_refl)
next
  case (Cons a as)
  let ?step = "if cs_indexes st a = None
      then do { st1 \<leftarrow> visit n adjacent a st; lowerLink p (cs_lowLinks st1 a) st1 }
      else if a \<in> cs_onStack st then lowerLink p (cs_indexes st a) st else Some st"
  have inv: "searchInv st" using Cons.prems(1) by (simp add: opened_def)
  have edge: "(p, a) \<in> adjRel" and a: "a \<in> set N"
    using Cons.prems(2) node adj_nodes [OF node] by (auto simp: adjRel_def)
  have "\<exists>st'. ?step = Some st' \<and> opened p base (insert a X) st' \<and> frame {p} st st'"
  proof (cases "cs_indexes st a = None")
    case True
    then obtain st1 where "visit n adjacent a st = Some st1" "visited a st st1"
      using visit [OF inv a] Cons.prems(3) by blast
    then show ?thesis using opened_child [OF Cons.prems(1) _ edge True] True by simp
  next
    case False
    then show ?thesis
      using opened_onStack [OF Cons.prems(1) edge] opened_settled [OF Cons.prems(1) False] frame_refl by auto
  qed
  then obtain st' where step: "?step = Some st'" "opened p base (insert a X) st'" "frame {p} st st'" by blast
  obtain st'' where "visitAdjacent n adjacent p as st' = Some st''" "opened p base (insert a X \<union> set as) st''" "frame {p} st' st''"
    using Cons.IH [OF step(2)] unvisited_frame [OF step(3)] Cons.prems(2,3) by auto
  then show ?case
    using step frame_trans [OF step(3)] by (auto simp: insert_commute)
qed

lemma visit_correct:
  "searchInv st \<Longrightarrow> w \<in> set N \<Longrightarrow> cs_indexes st w = None \<Longrightarrow> card (set N - dom (cs_indexes st)) \<le> n \<Longrightarrow>
     \<exists>st'. visit n adjacent w st = Some st' \<and> visited w st st'"
proof (induction n arbitrary: w st)
  case 0
  then have "w \<in> set N - dom (cs_indexes st)" "set N - dom (cs_indexes st) = {}" by auto
  then show ?case by blast
next
  case (Suc n)
  note enter = enter_opened [OF Suc.prems(1-3)]
  obtain st' where loop: "visitAdjacent n adjacent w (adj w) (enterTask w st) = Some st'"
    "opened w (cs_stack st) (set (adj w)) st'" "frame {w} (enterTask w st) st'"
    using visitAdjacent_correct [OF Suc.IH Suc.prems(2) enter(1) subset_refl unvisited_enter [OF Suc.prems(2-4)]]
    unfolding Un_empty_left by blast
  have "frame {w} st st'"
    using frame_trans [OF frame_weaken [OF enter(2)] loop(3)] .
  moreover have "num st' w = cs_nextIndex st"
    using frame_num [OF loop(3)] enter(3) by simp
  ultimately show ?case
    using leave_visited [OF loop(2) Suc.prems(3)] loop(1) adjacent_node [OF Suc.prems(2)] by auto
qed

lemma visitAll_invariant:
  assumes "searchInv st" "cs_stack st = []" "set ws \<subseteq> set N" "length N \<le> n"
  shows "\<exists>st'. visitAll n adjacent ws st = Some st' \<and> searchInv st' \<and> cs_stack st' = [] \<and>
     dom (cs_indexes st) \<union> set ws \<subseteq> dom (cs_indexes st')"
  using assms
proof (induction ws arbitrary: st)
  case (Cons w ws)
  have "\<exists>st1. (if cs_indexes st w = None then visit n adjacent w st else Some st) = Some st1 \<and> searchInv st1 \<and>
    cs_stack st1 = [] \<and> insert w (dom (cs_indexes st)) \<subseteq> dom (cs_indexes st1)"
  proof (cases "cs_indexes st w = None")
    case True
    have "card (set N - dom (cs_indexes st)) \<le> n"
      using Cons.prems(4) card_length [of N] card_mono [of "set N" "set N - dom (cs_indexes st)"] by auto
    then obtain st1 where st1: "visit n adjacent w st = Some st1" "visited w st st1"
      using visit_correct [OF Cons.prems(1) _ True] Cons.prems(3) by auto
    then obtain T l where inv: "searchInv st1" and fr: "frame {} st st1" and dom: "w \<in> dom (cs_indexes st1)"
      and T: "cs_stack st1 = T" "T = [] \<or> w \<in> set T \<and> pending st1 w l T"
      using Cons.prems(2) unfolding visited_def by auto
    have "T = []"
    proof (rule ccontr)
      assume "T \<noteq> []"
      then obtain y where y: "y \<in> set T" "\<forall>x\<in>set T. num st1 y \<le> num st1 x"
        by (metis (mono_tags) finite_set arg_min_if_finite(1) arg_min_least set_empty)
      then obtain u where "u \<in> set T" "num st1 u < num st1 y"
        using T \<open>T \<noteq> []\<close> unfolding pending_def by blast
      then show False using y(2) by (auto dest: bspec)
    qed
    then show ?thesis using st1(1) inv dom T(1) frame_dom [OF fr] True by auto
  next
    case False
    then show ?thesis using Cons.prems by auto
  qed
  then obtain st1 where st1: "(if cs_indexes st w = None then visit n adjacent w st else Some st) = Some st1"
    "searchInv st1" "cs_stack st1 = []" "insert w (dom (cs_indexes st)) \<subseteq> dom (cs_indexes st1)" by blast
  obtain st2 where "visitAll n adjacent ws st1 = Some st2" "searchInv st2" "cs_stack st2 = []"
    "dom (cs_indexes st1) \<union> set ws \<subseteq> dom (cs_indexes st2)"
    using Cons.IH [OF st1(2,3) _ Cons.prems(4)] Cons.prems(3) by (meson set_subset_Cons subset_trans)
  moreover from this have "dom (cs_indexes st) \<union> set (w # ws) \<subseteq> dom (cs_indexes st2)"
    using st1(4) by (metis Un_subset_iff insert_subset list.simps(15) subset_trans)
  ultimately show ?case using st1(1) by simp
qed simp

theorem visitAll_correct:
  assumes "length N \<le> n"
  obtains st where "visitAll n adjacent N emptySearch = Some st"
    "distinct (cs_components st)"
    "set (cs_components st) = {sorted_list_of_set (sccOf v) |v. v \<in> set N \<and> sccOf v \<noteq> {v}}"
proof -
  have "searchInv emptySearch" "cs_stack emptySearch = []"
    by (auto simp: emptySearch_def searchInv_def settled_def componentsInv_def)
  then obtain st where st: "visitAll n adjacent N emptySearch = Some st" "searchInv st" "cs_stack st = []"
    "set N \<subseteq> dom (cs_indexes st)"
    using visitAll_invariant [of emptySearch N n] assms by auto
  then have "settled st = set N" by (auto simp: settled_def searchInv_def)
  then have inv: "componentsInv (set N) (cs_components st)" using st(2) by (simp add: searchInv_def)
  have "c \<in> {sorted_list_of_set (sccOf v) |v. v \<in> set N \<and> sccOf v \<noteq> {v}}" if mem: "c \<in> set (cs_components st)" for c
  proof -
    obtain v where v: "v \<in> set N" "set c = sccOf v" and c: "sorted c" "distinct c" "1 < length c"
      using bspec [OF inv [unfolded componentsInv_def, THEN conjunct2, THEN conjunct1] mem] by blast
    have "c = sorted_list_of_set (sccOf v)"
      using v(2) c sorted_list_of_set.idem_if_sorted_distinct by metis
    moreover have "sccOf v \<noteq> {v}"
      using c(2,3) v(2) by (metis One_nat_def card.empty card_insert_disjoint distinct_card empty_iff finite.emptyI less_irrefl)
    ultimately show ?thesis using v by blast
  qed
  moreover have "sorted_list_of_set (sccOf v) \<in> set (cs_components st)" if mem: "v \<in> set N" "sccOf v \<noteq> {v}" for v
  proof -
    obtain c where c: "c \<in> set (cs_components st)" "set c = sccOf v"
      using inv [unfolded componentsInv_def, THEN conjunct2, THEN conjunct2] mem by (metis imageE)
    then have "sorted c" "distinct c" using inv by (auto simp: componentsInv_def)
    then have "sorted_list_of_set (sccOf v) = c"
      using c(2) sorted_list_of_set.idem_if_sorted_distinct by metis
    then show ?thesis using c(1) by simp
  qed
  ultimately have "set (cs_components st) = {sorted_list_of_set (sccOf v) |v. v \<in> set N \<and> sccOf v \<noteq> {v}}" by blast
  then show ?thesis using that st(1) inv by (auto simp: componentsInv_def)
qed

end

end
