(* ===== verification/Task_Graph_Laws.thy ===== *)
theory Task_Graph_Laws
  imports Cycle_Detection
begin

text \<open>
  What the projection of a tracker snapshot means. \<open>relationIds\<close> reads a relation off the task records;
  \<open>represents\<close> says that a graph of the library holds exactly these records, and \<open>representation_exists\<close> that
  \<open>taskGraphRepresentationFrom\<close> builds such a graph. The cycle search is interpreted on the relations of the records
  (\<open>task_relation\<close>), so that \<open>cycleTaskIds_represents\<close> gives what the search finds, and \<open>no_cycles_iff\<close> that it finds nothing
  exactly in an acyclic relation.
\<close>

section \<open>Relations of task records\<close>

fun relationIds :: "TaskRecords \<Rightarrow> TaskGraphEdge \<Rightarrow> TaskId \<Rightarrow> TaskId list" where
  "relationIds recs Prerequisite t =
     (case map_of recs t of None \<Rightarrow> [] | Some task \<Rightarrow> filter (\<lambda>p. p \<in> fst ` set recs) (sortedTaskIds (tt_prerequisiteIds task)))"
| "relationIds recs Grouping t =
     (case map_of recs t of
        None \<Rightarrow> []
      | Some task \<Rightarrow> (case tt_parentTaskId task of None \<Rightarrow> [] | Some p \<Rightarrow> if p \<in> fst ` set recs then [p] else []))"

definition relationPairs :: "TaskRecords \<Rightarrow> TaskGraphEdge \<Rightarrow> (TaskId \<times> TaskId) set" where
  "relationPairs recs r = {(t, p). p \<in> set (relationIds recs r t)}"

definition recordsAdjacent :: "TaskRecords \<Rightarrow> TaskGraphEdge \<Rightarrow> TaskId \<Rightarrow> TaskId list option" where
  "recordsAdjacent recs r t = map_option (\<lambda>_. relationIds recs r t) (map_of recs t)"

lemma sortedTaskIds_idem [simp]: "sortedTaskIds (sortedTaskIds xs) = sortedTaskIds xs"
  by (simp add: sortedTaskIds_def sorted_sort_id)

lemma set_sortedTaskIds [simp]: "set (sortedTaskIds xs) = set xs"
  by (simp add: sortedTaskIds_def)

lemma distinct_sortedTaskIds [simp]: "distinct (sortedTaskIds xs) = distinct xs"
  by (simp add: sortedTaskIds_def)

lemma sorted_sortedTaskIds [simp]: "sorted (sortedTaskIds xs)"
  by (simp add: sortedTaskIds_def)

lemma relationIds_subset: "set (relationIds recs r t) \<subseteq> fst ` set recs"
  by (cases r) (auto split: option.splits)

lemma relationIds_unknown: "t \<notin> fst ` set recs \<Longrightarrow> relationIds recs r t = []"
  by (cases r) (simp_all add: iffD2 [OF map_of_eq_None_iff])

lemma relationIds_known: "p \<in> set (relationIds recs r t) \<Longrightarrow> t \<in> fst ` set recs"
  using relationIds_unknown [of t recs r] by fastforce

lemma sorted_relationIds: "sorted (relationIds recs r t)"
  by (cases r) (auto simp: sortedTaskIds_def split: option.splits intro: sorted_wrt_filter)

declare relationIds.simps [simp del]

interpretation task_relation: cycle_search "sortedTaskIds (map fst recs)" "relationIds recs r" "recordsAdjacent recs r" for recs r
proof
  fix v assume "v \<in> set (sortedTaskIds (map fst recs))"
  then show "recordsAdjacent recs r v = Some (relationIds recs r v)"
    by (auto simp: recordsAdjacent_def sortedTaskIds_def dest: weak_map_of_SomeI)
  show "set (relationIds recs r v) \<subseteq> set (sortedTaskIds (map fst recs))"
    using relationIds_subset by (auto simp: sortedTaskIds_def)
qed

lemma task_relation_adjRel: "task_relation.adjRel recs r = relationPairs recs r"
  unfolding task_relation.adjRel_def relationPairs_def by (auto simp: sortedTaskIds_def dest: relationIds_known)

section \<open>The graph of the records\<close>

definition recordNode :: "TaskRecords \<Rightarrow> TaskId \<Rightarrow> TaskGraphNode" where
  "recordNode recs t =
     \<lparr>gn_descriptor = tt_descriptor (the (map_of recs t)), gn_id = t, gn_lifecycle = tt_lifecycle (the (map_of recs t))\<rparr>"

definition indexIn :: "(TaskId \<times> nat) list \<Rightarrow> TaskId \<Rightarrow> nat" where
  "indexIn indexes t = the (map_of indexes t)"

definition recordEdges :: "TaskRecords \<Rightarrow> (TaskId \<times> nat) list \<Rightarrow> TaskId \<Rightarrow> GraphEdge list" where
  "recordEdges recs indexes t =
     map (\<lambda>p. \<lparr>ge_source = indexIn indexes p, ge_target = indexIn indexes t, ge_data = Prerequisite\<rparr>) (relationIds recs Prerequisite t) @
     map (\<lambda>p. \<lparr>ge_source = indexIn indexes p, ge_target = indexIn indexes t, ge_data = Grouping\<rparr>) (relationIds recs Grouping t)"

definition represents :: "'g GraphLibrary \<Rightarrow> TaskRecords \<Rightarrow> 'g \<Rightarrow> (TaskId \<times> nat) list \<Rightarrow> bool" where
  "represents G recs g indexes \<longleftrightarrow>
     map fst indexes = sortedTaskIds (map fst recs) \<and> distinct (map fst indexes) \<and> distinct (map snd indexes) \<and>
     gl_nodes G g = map (\<lambda>(t, i). (i, recordNode recs t)) indexes \<and>
     gl_edges G g = concat (map (recordEdges recs indexes) (sortedTaskIds (map fst recs)))"

lemma law_directed: "graphLibraryLaws G \<Longrightarrow> gl_nodes G (gl_directed G) = [] \<and> gl_edges G (gl_directed G) = []"
  by (simp add: graphLibraryLaws_def)

lemma law_addNode:
  assumes "graphLibraryLaws G" "gl_addNode G g n = (i, g')"
  shows "i \<notin> fst ` set (gl_nodes G g)" "gl_nodes G g' = gl_nodes G g @ [(i, n)]" "gl_edges G g' = gl_edges G g"
  using assms(1) [unfolded graphLibraryLaws_def, THEN conjunct2, THEN conjunct2, THEN conjunct1, THEN spec, THEN spec, of g n] assms(2)
  by simp_all

lemma law_addEdge:
  assumes "graphLibraryLaws G" "s \<in> fst ` set (gl_nodes G g)" "t \<in> fst ` set (gl_nodes G g)"
  shows "gl_nodes G (gl_addEdge G g s t d) = gl_nodes G g"
    "gl_edges G (gl_addEdge G g s t d) = gl_edges G g @ [\<lparr>ge_source = s, ge_target = t, ge_data = d\<rparr>]"
  using assms(1) [unfolded graphLibraryLaws_def, THEN conjunct2, THEN conjunct2, THEN conjunct2, THEN conjunct1, rule_format, OF assms(2,3)]
  by simp_all

lemma law_getNode: "graphLibraryLaws G \<Longrightarrow> gl_getNode G g i = map_of (gl_nodes G g) i"
  by (simp add: graphLibraryLaws_def)

lemma law_filterEdges:
  assumes "graphLibraryLaws G"
  shows "gl_nodes G (gl_filterEdges G g P) = gl_nodes G g"
    "gl_edges G (gl_filterEdges G g P) = filter (\<lambda>e. P (ge_data e)) (gl_edges G g)"
  using assms by (simp_all add: graphLibraryLaws_def)

lemma law_bfs:
  assumes "graphLibraryLaws G" "s \<in> fst ` set (gl_nodes G g)"
    "graphEdgeRel (gl_edges G g) \<subseteq> fst ` set (gl_nodes G g) \<times> fst ` set (gl_nodes G g)"
  shows "distinct (map fst (gl_bfs G g [s]))" "set (gl_bfs G g [s]) \<subseteq> set (gl_nodes G g)"
    "fst ` set (gl_bfs G g [s]) = (graphEdgeRel (gl_edges G g))\<^sup>* `` {s}"
  using assms(1) [unfolded graphLibraryLaws_def, THEN conjunct2, THEN conjunct2, THEN conjunct2, THEN conjunct2, THEN conjunct2,
      THEN conjunct2, rule_format, OF assms(2,3)]
  by simp_all

lemma update_append_fresh: "k \<notin> fst ` set xs \<Longrightarrow> AList.update k v xs = xs @ [(k, v)]"
  by (induction xs) auto

lemma addTaskNodes_exists:
  assumes laws: "graphLibraryLaws G"
  shows "set taskIds \<subseteq> fst ` set recs \<Longrightarrow> distinct (map fst indexes @ taskIds) \<Longrightarrow> distinct (map snd indexes) \<Longrightarrow>
    gl_nodes G g = map (\<lambda>(t, i). (i, recordNode recs t)) indexes \<Longrightarrow> gl_edges G g = [] \<Longrightarrow>
    \<exists>g' indexes'. addTaskNodes G recs taskIds g indexes = Some (g', indexes') \<and>
      map fst indexes' = map fst indexes @ taskIds \<and> distinct (map snd indexes') \<and>
      gl_nodes G g' = map (\<lambda>(t, i). (i, recordNode recs t)) indexes' \<and> gl_edges G g' = []"
proof (induction taskIds arbitrary: g indexes)
  case (Cons t ts)
  obtain task where task: "map_of recs t = Some task"
    using Cons.prems(1) by (auto dest: weak_map_of_SomeI)
  then have node: "\<lparr>gn_descriptor = tt_descriptor task, gn_id = t, gn_lifecycle = tt_lifecycle task\<rparr> = recordNode recs t"
    by (simp add: recordNode_def)
  obtain i g1 where add: "gl_addNode G g (recordNode recs t) = (i, g1)" by (meson surj_pair)
  note law = law_addNode [OF laws add]
  have fresh: "i \<notin> snd ` set indexes"
    using law(1) unfolding Cons.prems(4) by force
  have update: "AList.update t i indexes = indexes @ [(t, i)]"
    using Cons.prems(2) by (intro update_append_fresh) auto
  show ?case
    using Cons.IH [of "indexes @ [(t, i)]" g1] Cons.prems task add fresh law(2,3) update
    by (simp add: node)
qed simp

lemma map_of_indexIn: "t \<in> fst ` set indexes \<Longrightarrow> map_of indexes t = Some (indexIn indexes t)"
  by (auto simp: indexIn_def dest!: weak_map_of_SomeI)

lemma indexIn_mem: "t \<in> fst ` set indexes \<Longrightarrow> indexIn indexes t \<in> snd ` set indexes"
  by (force dest!: map_of_indexIn map_of_SomeD)

lemma addPrerequisiteEdges_edges:
  assumes laws: "graphLibraryLaws G" and index: "i \<in> fst ` set (gl_nodes G g)" "snd ` set indexes \<subseteq> fst ` set (gl_nodes G g)"
  shows "gl_nodes G (addPrerequisiteEdges G indexes i ps g) = gl_nodes G g"
    "gl_edges G (addPrerequisiteEdges G indexes i ps g) = gl_edges G g @
       map (\<lambda>p. \<lparr>ge_source = indexIn indexes p, ge_target = i, ge_data = Prerequisite\<rparr>) (filter (\<lambda>p. p \<in> fst ` set indexes) ps)"
  using index
proof (induction ps arbitrary: g)
  case (Cons p ps)
  {
    case 1
    then show ?case
    proof (cases "p \<in> fst ` set indexes")
      case True
      then show ?thesis
        using Cons.IH(1) law_addEdge(1) [OF laws _ 1(1)] indexIn_mem [OF True] 1 by (simp add: map_of_indexIn subset_iff)
    next
      case False
      then show ?thesis using Cons.IH(1) 1 by (simp add: iffD2 [OF map_of_eq_None_iff])
    qed
  next
    case 2
    then show ?case
    proof (cases "p \<in> fst ` set indexes")
      case True
      then have "indexIn indexes p \<in> fst ` set (gl_nodes G g)" using indexIn_mem [OF True] 2(2) by blast
      note law = law_addEdge [OF laws this 2(1)]
      show ?thesis
        using Cons.IH(2) [of "gl_addEdge G g (indexIn indexes p) i Prerequisite"] True 2 law by (simp add: map_of_indexIn)
    next
      case False
      then show ?thesis using Cons.IH(2) 2 by (simp add: iffD2 [OF map_of_eq_None_iff])
    qed
  }
qed simp_all

lemma addTaskEdges_edges:
  assumes laws: "graphLibraryLaws G" and keys: "fst ` set indexes = fst ` set recs"
  shows "set taskIds \<subseteq> fst ` set recs \<Longrightarrow> snd ` set indexes \<subseteq> fst ` set (gl_nodes G g) \<Longrightarrow>
    \<exists>g'. addTaskEdges G recs indexes taskIds g = Some g' \<and> gl_nodes G g' = gl_nodes G g \<and>
      gl_edges G g' = gl_edges G g @ concat (map (recordEdges recs indexes) taskIds)"
proof (induction taskIds arbitrary: g)
  case (Cons t ts)
  obtain task where task: "map_of recs t = Some task"
    using Cons.prems(1) by (auto dest: weak_map_of_SomeI)
  have t: "map_of indexes t = Some (indexIn indexes t)" "indexIn indexes t \<in> fst ` set (gl_nodes G g)"
    using Cons.prems keys indexIn_mem [of t indexes] by (auto simp: map_of_indexIn)
  let ?g1 = "addPrerequisiteEdges G indexes (indexIn indexes t) (sortedTaskIds (tt_prerequisiteIds task)) g"
  note pre = addPrerequisiteEdges_edges [OF laws t(2) Cons.prems(2), of "sortedTaskIds (tt_prerequisiteIds task)"]
  define g2 where "g2 = (case tt_parentTaskId task of None \<Rightarrow> ?g1 | Some parent \<Rightarrow>
     (case map_of indexes parent of None \<Rightarrow> ?g1 | Some i \<Rightarrow> gl_addEdge G ?g1 i (indexIn indexes t) Grouping))"
  have "gl_nodes G g2 = gl_nodes G g \<and> gl_edges G g2 = gl_edges G g @ recordEdges recs indexes t"
  proof (cases "\<exists>parent. tt_parentTaskId task = Some parent \<and> parent \<in> fst ` set recs")
    case True
    then obtain parent where parent: "tt_parentTaskId task = Some parent" "parent \<in> fst ` set indexes" using keys by auto
    then have "indexIn indexes parent \<in> fst ` set (gl_nodes G ?g1)" "indexIn indexes t \<in> fst ` set (gl_nodes G ?g1)"
      using indexIn_mem [OF parent(2)] Cons.prems(2) t(2) pre(1) by auto
    note law = law_addEdge [OF laws this, of Grouping]
    show ?thesis
      using parent task law pre keys by (simp add: g2_def map_of_indexIn recordEdges_def relationIds.simps)
  next
    case False
    then show ?thesis
      using task pre keys by (auto simp: g2_def recordEdges_def relationIds.simps iffD2 [OF map_of_eq_None_iff] split: option.splits)
  qed
  moreover have "addTaskEdges G recs indexes (t # ts) g = addTaskEdges G recs indexes ts g2"
    by (simp add: task t(1) g2_def Let_def)
  ultimately show ?case
    using Cons.IH [of g2] Cons.prems by simp
qed simp

theorem representation_exists:
  assumes laws: "graphLibraryLaws G" and dist: "distinct (map fst recs)"
  obtains rep where "taskGraphRepresentationFrom G recs = Some rep" "represents G recs (gr_graph rep) (gr_nodeIndexByTaskId rep)"
proof -
  let ?ids = "sortedTaskIds (map fst recs)"
  have ids: "set ?ids = fst ` set recs" "distinct ?ids" using dist by (auto simp: sortedTaskIds_def)
  obtain g indexes where nodes: "addTaskNodes G recs ?ids (gl_directed G) [] = Some (g, indexes)"
    "map fst indexes = ?ids" "distinct (map snd indexes)" "gl_nodes G g = map (\<lambda>(t, i). (i, recordNode recs t)) indexes" "gl_edges G g = []"
    using addTaskNodes_exists [OF laws, of ?ids recs "[]" "gl_directed G"] ids law_directed [OF laws] by auto
  have keys: "fst ` set indexes = fst ` set recs" using nodes(2) ids(1) by (metis set_map)
  have "snd ` set indexes \<subseteq> fst ` set (gl_nodes G g)" unfolding nodes(4) by force
  then obtain g' where edges: "addTaskEdges G recs indexes ?ids g = Some g'" "gl_nodes G g' = gl_nodes G g"
    "gl_edges G g' = concat (map (recordEdges recs indexes) ?ids)"
    using addTaskEdges_edges [OF laws keys, of ?ids g] ids nodes(5) by auto
  show ?thesis
    by (rule that) (use nodes edges ids in \<open>auto simp: taskGraphRepresentationFrom_def represents_def\<close>)
qed

section \<open>Queries on a represented graph\<close>

lemma concat_map_single: "distinct xs \<Longrightarrow> x \<in> set xs \<Longrightarrow> \<forall>y\<in>set xs. y \<noteq> x \<longrightarrow> f y = [] \<Longrightarrow> concat (map f xs) = f x"
  by (induction xs) (auto simp: concat_eq_Nil_conv)

lemma concat_map_if: "concat (map (\<lambda>x. if P x then [f x] else []) xs) = map f (filter P xs)"
  by (induction xs) auto

lemma those_map_Some: "(\<And>x. x \<in> set xs \<Longrightarrow> f x = Some (g x)) \<Longrightarrow> those (map f xs) = Some (map g xs)"
  by (induction xs) auto

lemma map_filter_concat: "List.map_filter f (concat xss) = concat (map (List.map_filter f) xss)"
  by (induction xss) auto

lemma map_filter_map: "List.map_filter f (map g xs) = List.map_filter (f \<circ> g) xs"
  by (induction xs) (auto split: option.splits)

lemma map_filter_none: "(\<And>x. x \<in> set xs \<Longrightarrow> f x = None) \<Longrightarrow> List.map_filter f xs = []"
  by (induction xs) auto

lemma map_filter_all: "(\<And>x. x \<in> set xs \<Longrightarrow> f x = Some (g x)) \<Longrightarrow> List.map_filter f xs = map g xs"
  by (induction xs) auto

lemma represents_keys: "represents G recs g indexes \<Longrightarrow> fst ` set indexes = fst ` set recs"
  unfolding represents_def sortedTaskIds_def by (metis set_map set_sort)

lemma represents_index_inj:
  assumes "represents G recs g indexes" "t \<in> fst ` set recs" "u \<in> fst ` set recs"
  shows "indexIn indexes t = indexIn indexes u \<longleftrightarrow> t = u"
proof -
  have "(t, indexIn indexes t) \<in> set indexes" "(u, indexIn indexes u) \<in> set indexes"
    using assms represents_keys [OF assms(1)] by (auto intro!: map_of_SomeD map_of_indexIn)
  moreover have "distinct (map snd indexes)" using assms(1) by (simp add: represents_def)
  ultimately show ?thesis by (metis distinct_map inj_onD prod.inject snd_conv)
qed

lemma represents_node:
  assumes "graphLibraryLaws G" "represents G recs g indexes" "t \<in> fst ` set recs"
  shows "gl_getNode G g (indexIn indexes t) = Some (recordNode recs t)"
proof -
  have "(t, indexIn indexes t) \<in> set indexes"
    using assms represents_keys [OF assms(2)] by (auto intro!: map_of_SomeD map_of_indexIn)
  then have "(indexIn indexes t, recordNode recs t) \<in> set (gl_nodes G g)"
    using assms(2) by (force simp: represents_def)
  moreover have "distinct (map fst (gl_nodes G g))"
    using assms(2) by (simp add: represents_def case_prod_unfold comp_def)
  ultimately show ?thesis by (simp add: law_getNode [OF assms(1)])
qed

lemma recordNode_id [simp]: "gn_id (recordNode recs t) = t" "gn_lifecycle (recordNode recs t) = tt_lifecycle (the (map_of recs t))"
    "gn_descriptor (recordNode recs t) = tt_descriptor (the (map_of recs t))"
  by (simp_all add: recordNode_def)

lemma nodeIndexOf_represents:
  assumes "represents G recs g indexes"
  shows "nodeIndexOf G g = indexes"
proof -
  have "foldl (\<lambda>m (i, node). AList.update (gn_id node) i m) acc (map (\<lambda>(t, i). (i, recordNode recs t)) xs) = acc @ xs"
    if "distinct (map fst (acc @ xs))" for acc xs
    using that
  proof (induction xs arbitrary: acc)
    case (Cons x xs)
    moreover have "AList.update (fst x) (snd x) acc = acc @ [(fst x, snd x)]"
      using Cons.prems by (intro update_append_fresh) auto
    ultimately show ?case using Cons.IH [of "acc @ [x]"] by (cases x) auto
  qed simp
  from this [of "[]" indexes] have "distinct (map fst indexes) \<Longrightarrow> gl_nodes G g = map (\<lambda>(t, i). (i, recordNode recs t)) indexes \<Longrightarrow> ?thesis"
    by (simp add: nodeIndexOf_def)
  then show ?thesis using assms unfolding represents_def by blast
qed

lemma incoming_represents:
  assumes laws: "graphLibraryLaws G" and rep: "represents G recs g indexes" and t: "t \<in> fst ` set recs"
  shows "taskIdsForRelation G g r (indexIn indexes t) Incoming = Some (relationIds recs r t)"
proof -
  let ?f = "\<lambda>e. if ge_data e \<noteq> r then None
     else if Incoming = Outgoing \<and> ge_source e = indexIn indexes t then Some (map_option gn_id (taskNodeAt G g (ge_target e)))
     else if Incoming = Incoming \<and> ge_target e = indexIn indexes t then Some (map_option gn_id (taskNodeAt G g (ge_source e)))
     else None"
  have other: "List.map_filter ?f (recordEdges recs indexes u) = []" if "u \<in> fst ` set recs" "u \<noteq> t" for u
    using represents_index_inj [OF rep that(1) t] that(2)
    by (intro map_filter_none) (auto simp: recordEdges_def)
  have node: "p \<in> set (relationIds recs x t) \<Longrightarrow> taskNodeAt G g (indexIn indexes p) = Some (recordNode recs p)" for p x
    using represents_node [OF laws rep] relationIds_subset [of recs x t] unfolding taskNodeAt_def by blast
  have "List.map_filter (?f \<circ> (\<lambda>p. \<lparr>ge_source = indexIn indexes p, ge_target = indexIn indexes t, ge_data = x\<rparr>)) (relationIds recs x t) =
      (if x = r then map Some (relationIds recs r t) else [])" for x
    by (auto simp: node intro!: map_filter_none map_filter_all)
  then have own: "List.map_filter ?f (recordEdges recs indexes t) = map Some (relationIds recs r t)"
    unfolding recordEdges_def map_filter_append map_filter_map by (cases r) auto
  have "List.map_filter ?f (gl_edges G g) = map Some (relationIds recs r t)"
    using rep t other own unfolding represents_def map_filter_concat
    by (simp add: comp_def map_filter_concat) (subst concat_map_single [of _ t], auto simp: sortedTaskIds_def)
  then show ?thesis
    unfolding taskIdsForRelation_def
    by (simp add: those_map_Some [of _ Some id, simplified] sortedTaskIds_def sorted_relationIds sorted_sort_id)
qed

lemma map_filter_cong: "(\<And>x. x \<in> set xs \<Longrightarrow> f x = g x) \<Longrightarrow> List.map_filter f xs = List.map_filter g xs"
  by (induction xs) (auto split: option.splits)

lemma map_filter_eq: "distinct xs \<Longrightarrow> List.map_filter (\<lambda>p. if p = t then Some c else None) xs = (if t \<in> set xs then [c] else [])"
  by (induction xs) auto

lemma outgoing_represents:
  assumes laws: "graphLibraryLaws G" and rep: "represents G recs g indexes" and t: "t \<in> fst ` set recs"
    and dist: "\<And>u. distinct (relationIds recs r u)"
  shows "taskIdsForRelation G g r (indexIn indexes t) Outgoing =
    Some (filter (\<lambda>u. t \<in> set (relationIds recs r u)) (sortedTaskIds (map fst recs)))"
proof -
  let ?f = "\<lambda>e. if ge_data e \<noteq> r then None
     else if Outgoing = Outgoing \<and> ge_source e = indexIn indexes t then Some (map_option gn_id (taskNodeAt G g (ge_target e)))
     else if Outgoing = Incoming \<and> ge_target e = indexIn indexes t then Some (map_option gn_id (taskNodeAt G g (ge_source e)))
     else None"
  have seg: "List.map_filter ?f (recordEdges recs indexes u) = (if t \<in> set (relationIds recs r u) then [Some u] else [])"
    if u: "u \<in> fst ` set recs" for u
  proof -
    have same: "p \<in> set (relationIds recs x u) \<Longrightarrow> indexIn indexes p = indexIn indexes t \<longleftrightarrow> p = t" for p x
      using represents_index_inj [OF rep _ t] relationIds_subset [of recs x u] by blast
    have node: "taskNodeAt G g (indexIn indexes u) = Some (recordNode recs u)"
      using represents_node [OF laws rep u] by (simp add: taskNodeAt_def)
    have "List.map_filter (?f \<circ> (\<lambda>p. \<lparr>ge_source = indexIn indexes p, ge_target = indexIn indexes u, ge_data = x\<rparr>)) (relationIds recs x u) =
        (if x = r \<and> t \<in> set (relationIds recs r u) then [Some u] else [])" for x
    proof (cases "x = r")
      case True
      then have "List.map_filter (?f \<circ> (\<lambda>p. \<lparr>ge_source = indexIn indexes p, ge_target = indexIn indexes u, ge_data = x\<rparr>)) (relationIds recs x u) =
          List.map_filter (\<lambda>p. if p = t then Some (Some u) else None) (relationIds recs x u)"
        by (intro map_filter_cong) (auto simp: same node)
      then show ?thesis using True map_filter_eq [OF dist [of u], of t "Some u"] by simp
    qed (auto intro!: map_filter_none)
    then show ?thesis
      unfolding recordEdges_def map_filter_append map_filter_map by (cases r) auto
  qed
  have "List.map_filter ?f (gl_edges G g) = concat (map (\<lambda>u. if t \<in> set (relationIds recs r u) then [Some u] else []) (sortedTaskIds (map fst recs)))"
    using rep seg unfolding represents_def
    by (auto simp: map_filter_concat comp_def sortedTaskIds_def intro!: arg_cong [where f = concat])
  then show ?thesis
    unfolding taskIdsForRelation_def concat_map_if
    by (simp add: those_map_Some [of _ Some id, simplified] sortedTaskIds_def sorted_sort_id sorted_wrt_filter)
qed

section \<open>Cycles\<close>

definition stronglyConnected :: "TaskRecords \<Rightarrow> TaskGraphEdge \<Rightarrow> TaskId \<Rightarrow> TaskId set" where
  "stronglyConnected recs r t = {u. (t, u) \<in> (relationPairs recs r)\<^sup>* \<and> (u, t) \<in> (relationPairs recs r)\<^sup>*}"

lemma cycleTaskIds_represents:
  assumes laws: "graphLibraryLaws G" and rep: "represents G recs g indexes"
  obtains cs where "cycleTaskIds G g r = Some cs" "distinct cs"
    "set cs = {sorted_list_of_set (stronglyConnected recs r t) |t. t \<in> fst ` set recs \<and> stronglyConnected recs r t \<noteq> {t}}"
proof -
  have idx: "nodeIndexOf G g = indexes" using nodeIndexOf_represents [OF rep] .
  have keys: "fst ` set indexes = fst ` set recs" using represents_keys [OF rep] .
  have ids: "map fst indexes = sortedTaskIds (map fst recs)" using rep by (simp add: represents_def)
  have adj: "(\<lambda>t. do { i \<leftarrow> map_of indexes t; taskIdsForRelation G g r i Incoming }) = recordsAdjacent recs r"
  proof
    fix t
    show "do { i \<leftarrow> map_of indexes t; taskIdsForRelation G g r i Incoming } = recordsAdjacent recs r t"
    proof (cases "t \<in> fst ` set recs")
      case True
      then show ?thesis
        using incoming_represents [OF laws rep True] keys
        by (auto simp: map_of_indexIn recordsAdjacent_def dest: weak_map_of_SomeI)
    next
      case False
      then show ?thesis using keys by (simp add: recordsAdjacent_def iffD2 [OF map_of_eq_None_iff])
    qed
  qed
  have len: "length (sortedTaskIds (map fst recs)) \<le> Suc (length indexes)"
    using ids by (metis le_SucI length_map order_refl)
  obtain st where st: "visitAll (Suc (length indexes)) (recordsAdjacent recs r) (sortedTaskIds (map fst recs)) emptySearch = Some st"
    "distinct (cs_components st)"
    "set (cs_components st) = {sorted_list_of_set (task_relation.sccOf recs r v) |v. v \<in> set (sortedTaskIds (map fst recs)) \<and> task_relation.sccOf recs r v \<noteq> {v}}"
    by (rule task_relation.visitAll_correct [OF len])
  have scc: "task_relation.sccOf recs r v = stronglyConnected recs r v" for v
    by (simp add: task_relation.sccOf_def stronglyConnected_def task_relation_adjRel)
  have "set (cs_components st) = {sorted_list_of_set (stronglyConnected recs r t) |t. t \<in> fst ` set recs \<and> stronglyConnected recs r t \<noteq> {t}}"
    using st(3) unfolding scc by (simp add: sortedTaskIds_def)
  moreover have "cycleTaskIds G g r = Some (cs_components st)"
    by (simp add: cycleTaskIds_def idx adj ids st(1))
  ultimately show ?thesis using that st(2) by blast
qed

lemma acyclic_iff_components:
  "acyclic R \<longleftrightarrow> (\<forall>v. (v, v) \<notin> R) \<and> (\<forall>v w. (v, w) \<in> R\<^sup>* \<longrightarrow> (w, v) \<in> R\<^sup>* \<longrightarrow> w = v)"
proof
  assume "acyclic R"
  then show "(\<forall>v. (v, v) \<notin> R) \<and> (\<forall>v w. (v, w) \<in> R\<^sup>* \<longrightarrow> (w, v) \<in> R\<^sup>* \<longrightarrow> w = v)"
    using acyclic_impl_antisym_rtrancl [of R] by (auto simp: acyclic_def antisym_def)
next
  assume comps: "(\<forall>v. (v, v) \<notin> R) \<and> (\<forall>v w. (v, w) \<in> R\<^sup>* \<longrightarrow> (w, v) \<in> R\<^sup>* \<longrightarrow> w = v)"
  show "acyclic R"
  proof (rule acyclicI, intro allI notI)
    fix v assume "(v, v) \<in> R\<^sup>+"
    then obtain w where "(v, w) \<in> R" "(w, v) \<in> R\<^sup>*" by (meson tranclD)
    then show False using comps by blast
  qed
qed

lemma no_cycles_iff:
  assumes "set cs = {sorted_list_of_set (stronglyConnected recs r t) |t. t \<in> fst ` set recs \<and> stronglyConnected recs r t \<noteq> {t}}"
    and self: "\<forall>v. (v, v) \<notin> relationPairs recs r"
  shows "cs = [] \<longleftrightarrow> acyclic (relationPairs recs r)"
proof -
  have "stronglyConnected recs r t = {t}" if "t \<notin> fst ` set recs" for t
    using that relationIds_unknown [OF that, of r]
    by (auto simp: stronglyConnected_def relationPairs_def elim: converse_rtranclE)
  then have "cs = [] \<longleftrightarrow> (\<forall>t. stronglyConnected recs r t = {t})"
    using assms(1) by (auto simp: set_empty [symmetric] simp del: set_empty)
  also have "\<dots> \<longleftrightarrow> acyclic (relationPairs recs r)"
    unfolding acyclic_iff_components stronglyConnected_def using self by blast
  finally show ?thesis .
qed

end
