(* ===== verification/Task_Graph_Projection.thy ===== *)
theory Task_Graph_Projection
  imports Task_Graph_Laws
begin

text \<open>
  The snapshots \<open>projectTasks\<close> accepts and the queries of an accepted one. \<open>wellFormedSnapshot\<close> states, without reference to
  the checks of the code, what a task graph must satisfy; \<open>projectTasks_iff\<close> says that the projection always returns and accepts
  exactly these. The remaining lemmas give every query of an accepted snapshot as a function of its tasks, the topological order
  and the wire form among them.
\<close>

section \<open>Accepted snapshots\<close>

definition prerequisiteRel :: "TrackerSnapshot \<Rightarrow> (TaskId \<times> TaskId) set" where
  "prerequisiteRel snap = {(tt_id task, p) |task p. task \<in> set (ts_tasks snap) \<and> p \<in> set (tt_prerequisiteIds task)}"

definition parentRel :: "TrackerSnapshot \<Rightarrow> (TaskId \<times> TaskId) set" where
  "parentRel snap = {(tt_id task, p) |task p. task \<in> set (ts_tasks snap) \<and> tt_parentTaskId task = Some p}"

definition wellFormedSnapshot :: "TrackerSnapshot \<Rightarrow> bool" where
  "wellFormedSnapshot snap \<longleftrightarrow>
     distinct (map tt_id (ts_tasks snap)) \<and>
     (\<forall>task\<in>set (ts_tasks snap). distinct (tt_prerequisiteIds task)) \<and>
     snd ` (prerequisiteRel snap \<union> parentRel snap) \<union> set_option (ts_rootTaskId snap) \<subseteq> tt_id ` set (ts_tasks snap) \<and>
     acyclic (prerequisiteRel snap) \<and> acyclic (parentRel snap)"

definition recordsOf :: "TrackerSnapshot \<Rightarrow> TaskRecords" where
  "recordsOf snap = map (\<lambda>task. (tt_id task, task)) (sort_key tt_id (ts_tasks snap))"

lemma sort_key_refine:
  assumes "distinct (map f xs)"
  shows "sort_key (\<lambda>x. (f x, h x)) xs = sort_key f xs"
proof (rule map_sorted_distinct_set_unique [where f = f])
  have inj: "inj_on f (set xs)" using assms by (simp add: distinct_map)
  then show "inj_on f (set (sort_key (\<lambda>x. (f x, h x)) xs) \<union> set (sort_key f xs))" by simp
  have "sorted (map (\<lambda>x. (f x, h x)) (sort_key (\<lambda>x. (f x, h x)) xs))" by simp
  then show "sorted (map f (sort_key (\<lambda>x. (f x, h x)) xs))"
    by (auto simp: sorted_wrt_map less_eq_prod_def elim!: sorted_wrt_mono_rel [rotated])
  show "distinct (map f (sort_key (\<lambda>x. (f x, h x)) xs))" "distinct (map f (sort_key f xs))"
    using assms inj by (simp_all add: distinct_map)
qed simp_all

lemma collectTaskRecords_spec:
  "distinct (map fst recs) \<Longrightarrow> collectTaskRecords tasks recs issues = (recs', issues') \<Longrightarrow>
     distinct (map fst recs') \<and> fst ` set recs' = fst ` set recs \<union> tt_id ` set tasks \<and>
     (issues' = [] \<longleftrightarrow> issues = [] \<and> distinct (map fst recs @ map tt_id tasks)) \<and>
     (issues' = [] \<longrightarrow> recs' = recs @ map (\<lambda>task. (tt_id task, task)) tasks)"
proof (induction tasks arbitrary: recs issues)
  case (Cons task tasks)
  show ?case
  proof (cases "tt_id task \<in> fst ` set recs")
    case True
    then have "map_of recs (tt_id task) \<noteq> None" by (simp add: map_of_eq_None_iff)
    then show ?thesis
      using Cons.IH [OF Cons.prems(1), of "issues @ [DuplicateTask (tt_id task)]"] Cons.prems(2) True by auto
  next
    case False
    then have "map_of recs (tt_id task) = None" by (simp add: map_of_eq_None_iff)
    then show ?thesis
      using Cons.IH [of "recs @ [(tt_id task, task)]" issues] Cons.prems False by auto
  qed
qed auto

lemma prerequisiteIssues_None:
  "sorted (p # ps) \<Longrightarrow> prerequisiteIssues t recs (Some p) ps = [] \<longleftrightarrow>
     distinct (p # ps) \<and> t \<notin> set ps \<and> set ps \<subseteq> fst ` set recs"
proof (induction ps arbitrary: p)
  case (Cons q ps)
  then have IH: "prerequisiteIssues t recs (Some q) ps = [] \<longleftrightarrow> distinct (q # ps) \<and> t \<notin> set ps \<and> set ps \<subseteq> fst ` set recs"
    by simp
  have "p \<noteq> q \<Longrightarrow> p \<notin> set ps" using Cons.prems by fastforce
  then show ?case
    using IH by (auto simp: map_of_eq_None_iff)
qed simp

lemma validatePrerequisites_iff:
  "validatePrerequisites task recs = [] \<longleftrightarrow>
     distinct (tt_prerequisiteIds task) \<and> tt_id task \<notin> set (tt_prerequisiteIds task) \<and>
     set (tt_prerequisiteIds task) \<subseteq> fst ` set recs"
proof -
  have "prerequisiteIssues t recs None ps = [] \<longleftrightarrow> distinct ps \<and> t \<notin> set ps \<and> set ps \<subseteq> fst ` set recs" if "sorted ps" for t ps
  proof (cases ps)
    case (Cons p qs)
    then show ?thesis
      using prerequisiteIssues_None [of p qs t recs] that by (auto simp: map_of_eq_None_iff)
  qed simp
  from this [of "sortedTaskIds (tt_prerequisiteIds task)"] show ?thesis
    by (simp add: validatePrerequisites_def)
qed

lemma validateParent_iff:
  "validateParent task recs = [] \<longleftrightarrow> (\<forall>p. tt_parentTaskId task = Some p \<longrightarrow> p \<noteq> tt_id task \<and> p \<in> fst ` set recs)"
  by (auto simp: validateParent_def map_of_eq_None_iff split: option.splits)

lemma keys_recordsOf [simp]: "fst ` set (recordsOf snap) = tt_id ` set (ts_tasks snap)"
  by (auto simp: recordsOf_def image_iff)

lemma map_fst_recordsOf: "map fst (recordsOf snap) = map tt_id (sort_key tt_id (ts_tasks snap))"
  by (simp add: recordsOf_def comp_def)

lemma distinct_keys_recordsOf: "distinct (map fst (recordsOf snap)) = distinct (map tt_id (ts_tasks snap))"
  unfolding map_fst_recordsOf by (simp add: distinct_map)

lemma sortedTaskIds_recordsOf: "sortedTaskIds (map fst (recordsOf snap)) = map tt_id (sort_key tt_id (ts_tasks snap))"
  unfolding map_fst_recordsOf by (simp add: sortedTaskIds_def sorted_sort_id)

lemma map_of_recordsOf:
  assumes "distinct (map tt_id (ts_tasks snap))" "task \<in> set (ts_tasks snap)"
  shows "map_of (recordsOf snap) (tt_id task) = Some task"
proof (rule map_of_is_SomeI)
  show "distinct (map fst (recordsOf snap))" using assms(1) by (simp add: distinct_keys_recordsOf)
  show "(tt_id task, task) \<in> set (recordsOf snap)" using assms(2) by (simp add: recordsOf_def)
qed

lemma relationPairs_recordsOf:
  assumes dist: "distinct (map tt_id (ts_tasks snap))"
    and targets: "snd ` (prerequisiteRel snap \<union> parentRel snap) \<subseteq> tt_id ` set (ts_tasks snap)"
  shows "relationPairs (recordsOf snap) Prerequisite = prerequisiteRel snap" "relationPairs (recordsOf snap) Grouping = parentRel snap"
proof -
  have member: "(t, p) \<in> relationPairs (recordsOf snap) r \<longleftrightarrow>
      (\<exists>task\<in>set (ts_tasks snap). t = tt_id task \<and> p \<in> set (relationIds (recordsOf snap) r (tt_id task)))" for t p r
    using relationIds_known [of p "recordsOf snap" r t] by (auto simp: relationPairs_def)
  have pre: "p \<in> tt_id ` set (ts_tasks snap)" if "task \<in> set (ts_tasks snap)" "p \<in> set (tt_prerequisiteIds task)" for task p
    using targets that by (force simp: prerequisiteRel_def)
  have par: "p \<in> tt_id ` set (ts_tasks snap)" if "task \<in> set (ts_tasks snap)" "tt_parentTaskId task = Some p" for task p
    using targets that by (force simp: parentRel_def)
  have "p \<in> set (relationIds (recordsOf snap) Prerequisite (tt_id task)) \<longleftrightarrow> p \<in> set (tt_prerequisiteIds task)"
    if "task \<in> set (ts_tasks snap)" for task p
    using that pre [OF that] by (auto simp: relationIds.simps map_of_recordsOf [OF dist])
  then show "relationPairs (recordsOf snap) Prerequisite = prerequisiteRel snap"
    unfolding prerequisiteRel_def by (auto simp: member)
  have "p \<in> set (relationIds (recordsOf snap) Grouping (tt_id task)) \<longleftrightarrow> tt_parentTaskId task = Some p"
    if "task \<in> set (ts_tasks snap)" for task p
    using that par [OF that] by (auto simp: relationIds.simps map_of_recordsOf [OF dist] split: option.splits)
  then show "relationPairs (recordsOf snap) Grouping = parentRel snap"
    unfolding parentRel_def by (auto simp: member)
qed

lemma wellFormed_targets:
  assumes "snd ` (prerequisiteRel snap \<union> parentRel snap) \<subseteq> X" "task \<in> set (ts_tasks snap)"
  shows "set (tt_prerequisiteIds task) \<subseteq> X" "tt_parentTaskId task = Some p \<Longrightarrow> p \<in> X"
proof -
  have "(tt_id task, p) \<in> prerequisiteRel snap" if "p \<in> set (tt_prerequisiteIds task)" for p
    using that assms(2) by (auto simp: prerequisiteRel_def)
  then show "set (tt_prerequisiteIds task) \<subseteq> X" using assms(1) by force
  assume "tt_parentTaskId task = Some p"
  then have "(tt_id task, p) \<in> parentRel snap" using assms(2) by (auto simp: parentRel_def)
  then show "p \<in> X" using assms(1) by force
qed

lemma local_targets:
  assumes "\<forall>task\<in>set (ts_tasks snap). validatePrerequisites task (recordsOf snap) = [] \<and> validateParent task (recordsOf snap) = []"
  shows "snd ` (prerequisiteRel snap \<union> parentRel snap) \<subseteq> tt_id ` set (ts_tasks snap)"
    "\<forall>v. (v, v) \<notin> prerequisiteRel snap" "\<forall>v. (v, v) \<notin> parentRel snap"
    "\<forall>task\<in>set (ts_tasks snap). distinct (tt_prerequisiteIds task)"
proof -
  have pre: "p \<in> tt_id ` set (ts_tasks snap) \<and> p \<noteq> tt_id task" if "task \<in> set (ts_tasks snap)" "p \<in> set (tt_prerequisiteIds task)" for task p
    using bspec [OF assms that(1)] that(2) unfolding validatePrerequisites_iff keys_recordsOf by blast
  have par: "p \<in> tt_id ` set (ts_tasks snap) \<and> p \<noteq> tt_id task" if "task \<in> set (ts_tasks snap)" "tt_parentTaskId task = Some p" for task p
    using bspec [OF assms that(1)] that(2) unfolding validateParent_iff keys_recordsOf by blast
  show "snd ` (prerequisiteRel snap \<union> parentRel snap) \<subseteq> tt_id ` set (ts_tasks snap)"
    "\<forall>v. (v, v) \<notin> prerequisiteRel snap" "\<forall>v. (v, v) \<notin> parentRel snap"
    unfolding prerequisiteRel_def parentRel_def using pre par by fastforce+
  show "\<forall>task\<in>set (ts_tasks snap). distinct (tt_prerequisiteIds task)"
    using assms by (simp add: validatePrerequisites_iff)
qed

lemma wellFormed_local:
  "wellFormedSnapshot snap \<longleftrightarrow>
     distinct (map tt_id (ts_tasks snap)) \<and>
     (\<forall>task\<in>set (ts_tasks snap). validatePrerequisites task (recordsOf snap) = [] \<and> validateParent task (recordsOf snap) = []) \<and>
     set_option (ts_rootTaskId snap) \<subseteq> tt_id ` set (ts_tasks snap) \<and>
     acyclic (prerequisiteRel snap) \<and> acyclic (parentRel snap)" (is "_ \<longleftrightarrow> ?local")
proof
  assume wf: "wellFormedSnapshot snap"
  have "(v, v) \<notin> prerequisiteRel snap" "(v, v) \<notin> parentRel snap" for v
    using wf by (auto simp: wellFormedSnapshot_def acyclic_def)
  then have "tt_id task \<notin> set (tt_prerequisiteIds task)" "tt_parentTaskId task \<noteq> Some (tt_id task)" if "task \<in> set (ts_tasks snap)" for task
    using that by (auto simp: prerequisiteRel_def parentRel_def)
  moreover have targets: "snd ` (prerequisiteRel snap \<union> parentRel snap) \<subseteq> tt_id ` set (ts_tasks snap)"
    using wf by (simp add: wellFormedSnapshot_def)
  note wellFormed_targets [OF targets]
  ultimately show ?local
    using wf by (auto simp: wellFormedSnapshot_def validatePrerequisites_iff validateParent_iff)
next
  assume ?local
  then show "wellFormedSnapshot snap"
    unfolding wellFormedSnapshot_def using local_targets [of snap] by simp
qed

definition accepted :: "'g GraphLibrary \<Rightarrow> TrackerSnapshot \<Rightarrow> 'g TaskDagSnapshot \<Rightarrow> bool" where
  "accepted G snap s \<longleftrightarrow>
     wellFormedSnapshot snap \<and> ds_revision s = ts_revision snap \<and> ds_rootTaskId s = ts_rootTaskId snap \<and>
     represents G (recordsOf snap) (ds_graph s) (ds_nodeIndexByTaskId s)"

theorem projectTasks_iff:
  assumes laws: "graphLibraryLaws G"
  shows "(\<exists>issues. projectTasks G snap = Some (Invalid issues) \<and> issues \<noteq> [] \<and> \<not> wellFormedSnapshot snap) \<or>
    (\<exists>s. projectTasks G snap = Some (Valid s) \<and> accepted G snap s)"
proof -
  define records where "records = sort_key (\<lambda>task. (tt_id task, compareTrackerTasks task)) (ts_tasks snap)"
  obtain recs dups where collect: "collectTaskRecords records [] [] = (recs, dups)" by (meson surj_pair)
  have sets: "set records = set (ts_tasks snap)" "distinct (map tt_id records) = distinct (map tt_id (ts_tasks snap))"
    by (simp_all add: records_def distinct_map)
  note coll = collectTaskRecords_spec [OF _ collect, simplified, unfolded sets]
  obtain rep where rep: "taskGraphRepresentationFrom G recs = Some rep" "represents G recs (gr_graph rep) (gr_nodeIndexByTaskId rep)"
    using representation_exists [OF laws] coll by blast
  obtain pre where pre: "cycleTaskIds G (gr_graph rep) Prerequisite = Some pre"
    "set pre = {sorted_list_of_set (stronglyConnected recs Prerequisite t) |t. t \<in> fst ` set recs \<and> stronglyConnected recs Prerequisite t \<noteq> {t}}"
    by (rule cycleTaskIds_represents [OF laws rep(2)])
  obtain grp where grp: "cycleTaskIds G (gr_graph rep) Grouping = Some grp"
    "set grp = {sorted_list_of_set (stronglyConnected recs Grouping t) |t. t \<in> fst ` set recs \<and> stronglyConnected recs Grouping t \<noteq> {t}}"
    by (rule cycleTaskIds_represents [OF laws rep(2)])
  define issues where "issues = dups @
    concat (map (\<lambda>task. validatePrerequisites task recs @ validateParent task recs) records) @
    (case ts_rootTaskId snap of None \<Rightarrow> [] | Some t \<Rightarrow> if map_of recs t = None then [MissingRootTask t] else []) @
    map Cycle pre @ map ContainmentCycle grp"
  have result: "projectTasks G snap = Some (if length issues > 0 then Invalid issues
      else Valid \<lparr>ds_revision = ts_revision snap, ds_rootTaskId = ts_rootTaskId snap, ds_graph = gr_graph rep,
                  ds_nodeIndexByTaskId = gr_nodeIndexByTaskId rep\<rparr>)"
    unfolding projectTasks_def records_def [symmetric] by (simp add: collect rep pre grp issues_def Let_def)
  have same: "recs = recordsOf snap" if "distinct (map tt_id (ts_tasks snap))"
    using coll that by (simp add: recordsOf_def records_def sort_key_refine)
  have "issues = [] \<longleftrightarrow> wellFormedSnapshot snap"
  proof (cases "distinct (map tt_id (ts_tasks snap)) \<and> (\<forall>task\<in>set (ts_tasks snap).
      validatePrerequisites task (recordsOf snap) = [] \<and> validateParent task (recordsOf snap) = [])")
    case True
    note recs = same [OF conjunct1 [OF True]]
    note targets = local_targets [OF conjunct2 [OF True]]
    note rel = relationPairs_recordsOf [OF conjunct1 [OF True] targets(1)]
    have "pre = [] \<longleftrightarrow> acyclic (prerequisiteRel snap)" "grp = [] \<longleftrightarrow> acyclic (parentRel snap)"
      using no_cycles_iff [OF pre(2)] no_cycles_iff [OF grp(2)] targets(2,3) by (simp_all add: recs rel)
    moreover have "(case ts_rootTaskId snap of None \<Rightarrow> [] | Some t \<Rightarrow> if map_of recs t = None then [MissingRootTask t] else []) = [] \<longleftrightarrow>
        set_option (ts_rootTaskId snap) \<subseteq> tt_id ` set (ts_tasks snap)"
      using recs by (simp add: map_of_eq_None_iff split: option.splits)
    moreover have "dups = []" using coll True by simp
    ultimately show ?thesis
      using True unfolding wellFormed_local issues_def by (simp add: sets recs)
  next
    case False
    then show ?thesis
      using coll same unfolding wellFormed_local issues_def by (auto simp: sets)
  qed
  then show ?thesis
    using result same rep(2) by (auto simp: accepted_def wellFormedSnapshot_def)
qed

end
