(* ===== verification/Task_Graph_Queries.thy ===== *)
theory Task_Graph_Queries
  imports Task_Graph_Projection
begin

text \<open>
  The queries of an accepted snapshot as functions of its tasks: related tasks, eligibility, the wire form, the subtree of a
  grouping, and the topological order, whose loop keeps \<open>orderInv\<close>. In an accepted snapshot no query throws and no
  loop runs out of fuel.
\<close>

section \<open>Related tasks\<close>

definition sortedTasks :: "TrackerSnapshot \<Rightarrow> TrackerTask list" where
  "sortedTasks snap = sort_key tt_id (ts_tasks snap)"

definition canonicalTask :: "TrackerTask \<Rightarrow> TrackerTask" where
  "canonicalTask task = task\<lparr>tt_prerequisiteIds := sortedTaskIds (tt_prerequisiteIds task)\<rparr>"

lemma canonicalTask_fields [simp]:
  "tt_id (canonicalTask task) = tt_id task" "tt_lifecycle (canonicalTask task) = tt_lifecycle task"
  "tt_parentTaskId (canonicalTask task) = tt_parentTaskId task" "tt_descriptor (canonicalTask task) = tt_descriptor task"
  "tt_prerequisiteIds (canonicalTask task) = sortedTaskIds (tt_prerequisiteIds task)"
  by (simp_all add: canonicalTask_def)

lemma set_sortedTasks [simp]: "set (sortedTasks snap) = set (ts_tasks snap)"
  by (simp add: sortedTasks_def)

lemma accepted_facts:
  assumes "accepted G snap s"
  shows "distinct (map tt_id (ts_tasks snap))" "represents G (recordsOf snap) (ds_graph s) (ds_nodeIndexByTaskId s)"
    "\<forall>task\<in>set (ts_tasks snap). distinct (tt_prerequisiteIds task)"
    "snd ` (prerequisiteRel snap \<union> parentRel snap) \<subseteq> tt_id ` set (ts_tasks snap)"
    "acyclic (prerequisiteRel snap)" "acyclic (parentRel snap)"
    "fst ` set (ds_nodeIndexByTaskId s) = tt_id ` set (ts_tasks snap)" "distinct (map tt_id (sortedTasks snap))"
  using assms represents_keys [of G "recordsOf snap" "ds_graph s" "ds_nodeIndexByTaskId s"]
  by (simp_all add: accepted_def wellFormedSnapshot_def sortedTasks_def distinct_map)

lemma accepted_unique:
  assumes "accepted G snap s" "task \<in> set (ts_tasks snap)" "task' \<in> set (ts_tasks snap)" "tt_id task = tt_id task'"
  shows "task = task'"
  using accepted_facts(1) [OF assms(1)] assms(2-4) by (auto simp: distinct_map dest: inj_onD)

lemma relationIds_accepted:
  assumes acc: "accepted G snap s" and task: "task \<in> set (ts_tasks snap)"
  shows "relationIds (recordsOf snap) Prerequisite (tt_id task) = sortedTaskIds (tt_prerequisiteIds task)"
    "relationIds (recordsOf snap) Grouping (tt_id task) = (case tt_parentTaskId task of None \<Rightarrow> [] | Some p \<Rightarrow> [p])"
proof -
  note facts = accepted_facts [OF acc]
  note targets = wellFormed_targets [OF facts(4) task]
  show "relationIds (recordsOf snap) Prerequisite (tt_id task) = sortedTaskIds (tt_prerequisiteIds task)"
    using targets(1) by (auto simp: relationIds.simps map_of_recordsOf [OF facts(1) task] intro!: filter_True)
  show "relationIds (recordsOf snap) Grouping (tt_id task) = (case tt_parentTaskId task of None \<Rightarrow> [] | Some p \<Rightarrow> [p])"
    using targets(2) by (auto simp: relationIds.simps map_of_recordsOf [OF facts(1) task] split: option.splits)
qed

lemma distinct_relationIds_accepted:
  assumes acc: "accepted G snap s"
  shows "distinct (relationIds (recordsOf snap) r t)"
proof (cases "t \<in> tt_id ` set (ts_tasks snap)")
  case True
  then show ?thesis
    using relationIds_accepted [OF acc] accepted_facts(3) [OF acc] by (cases r) (auto split: option.splits)
qed (simp add: relationIds_unknown)

lemma taskIdsOf_accepted:
  assumes "accepted G snap s"
  shows "taskIdsOf G s = map tt_id (sortedTasks snap)"
proof -
  have "map gn_id (map snd (gl_nodes G (ds_graph s))) = map fst (ds_nodeIndexByTaskId s)"
    using accepted_facts(2) [OF assms] by (simp add: represents_def case_prod_unfold comp_def)
  also have "\<dots> = map tt_id (sortedTasks snap)"
    using accepted_facts(2) [OF assms] by (simp add: represents_def sortedTaskIds_recordsOf sortedTasks_def)
  finally show ?thesis by (simp add: taskIdsOf_def case_prod_unfold comp_def)
qed

lemma index_accepted:
  assumes acc: "accepted G snap s"
  shows "task \<in> set (ts_tasks snap) \<Longrightarrow> map_of (ds_nodeIndexByTaskId s) (tt_id task) = Some (indexIn (ds_nodeIndexByTaskId s) (tt_id task))"
    "t \<notin> tt_id ` set (ts_tasks snap) \<Longrightarrow> map_of (ds_nodeIndexByTaskId s) t = None"
  using accepted_facts(7) [OF acc] by (auto intro!: map_of_indexIn simp: map_of_eq_None_iff)

lemma node_accepted:
  assumes laws: "graphLibraryLaws G" and acc: "accepted G snap s" and task: "task \<in> set (ts_tasks snap)"
  shows "gl_getNode G (ds_graph s) (indexIn (ds_nodeIndexByTaskId s) (tt_id task)) =
    Some \<lparr>gn_descriptor = tt_descriptor task, gn_id = tt_id task, gn_lifecycle = tt_lifecycle task\<rparr>"
  using represents_node [OF laws accepted_facts(2) [OF acc], of "tt_id task"] task
  by (simp add: recordNode_def map_of_recordsOf [OF accepted_facts(1) [OF acc] task])

lemma lifecycleOf_accepted:
  assumes "graphLibraryLaws G" "accepted G snap s"
  shows "task \<in> set (ts_tasks snap) \<Longrightarrow> lifecycleOf G s (tt_id task) = Some (tt_lifecycle task)"
  by (simp add: lifecycleOf_def index_accepted [OF assms(2)] node_accepted [OF assms])

lemma prerequisitesOf_accepted:
  assumes "graphLibraryLaws G" "accepted G snap s"
  shows "task \<in> set (ts_tasks snap) \<Longrightarrow> prerequisitesOf G s (tt_id task) = Some (sortedTaskIds (tt_prerequisiteIds task))"
  using incoming_represents [OF assms(1) accepted_facts(2) [OF assms(2)], of "tt_id task" Prerequisite]
  by (simp add: prerequisitesOf_def relatedTaskIds_def index_accepted [OF assms(2)] relationIds_accepted [OF assms(2)])

lemma parentTaskIdOf_accepted:
  assumes "graphLibraryLaws G" "accepted G snap s"
  shows "task \<in> set (ts_tasks snap) \<Longrightarrow> parentTaskIdOf G s (tt_id task) = Some (Some (tt_parentTaskId task))"
  using incoming_represents [OF assms(1) accepted_facts(2) [OF assms(2)], of "tt_id task" Grouping]
  by (auto simp: parentTaskIdOf_def index_accepted [OF assms(2)] relationIds_accepted [OF assms(2)] split: option.splits)

lemma filter_related:
  assumes "accepted G snap s"
  shows "filter (\<lambda>u. t \<in> set (relationIds (recordsOf snap) r u)) (map tt_id (sortedTasks snap)) =
    map tt_id (filter (\<lambda>task. t \<in> set (relationIds (recordsOf snap) r (tt_id task))) (sortedTasks snap))"
  by (simp add: filter_map comp_def)

lemma outgoing_accepted:
  assumes laws: "graphLibraryLaws G" and acc: "accepted G snap s" and task: "task \<in> set (ts_tasks snap)"
  shows "relatedTaskIds G s r Outgoing (tt_id task) =
    Some (map tt_id (filter (\<lambda>u. tt_id task \<in> set (relationIds (recordsOf snap) r (tt_id u))) (sortedTasks snap)))"
  using outgoing_represents [OF laws accepted_facts(2) [OF acc], of "tt_id task" r] task
    distinct_relationIds_accepted [OF acc] filter_related [OF acc]
  by (simp add: relatedTaskIds_def index_accepted [OF acc] sortedTaskIds_recordsOf sortedTasks_def [symmetric])

lemma dependantsOf_accepted:
  assumes laws: "graphLibraryLaws G" and acc: "accepted G snap s" and task: "task \<in> set (ts_tasks snap)"
  shows "dependantsOf G s (tt_id task) = Some (map tt_id (filter (\<lambda>u. tt_id task \<in> set (tt_prerequisiteIds u)) (sortedTasks snap)))"
  unfolding dependantsOf_def outgoing_accepted [OF assms]
  by (auto simp: relationIds_accepted [OF acc] intro!: arg_cong [where f = "map tt_id"] filter_cong)

lemma childrenOf_accepted:
  assumes laws: "graphLibraryLaws G" and acc: "accepted G snap s" and task: "task \<in> set (ts_tasks snap)"
  shows "childrenOf G s (tt_id task) = Some (map tt_id (filter (\<lambda>u. tt_parentTaskId u = Some (tt_id task)) (sortedTasks snap)))"
  unfolding childrenOf_def outgoing_accepted [OF assms]
  by (auto simp: relationIds_accepted [OF acc] intro!: arg_cong [where f = "map tt_id"] filter_cong split: option.splits)

section \<open>Wire form and eligibility\<close>

lemma taskValueOf_accepted:
  assumes "graphLibraryLaws G" "accepted G snap s"
  shows "task \<in> set (ts_tasks snap) \<Longrightarrow> taskValueOf G s (tt_id task) = Some (canonicalTask task)"
  by (simp add: taskValueOf_def index_accepted [OF assms(2)] taskNodeAt_def node_accepted [OF assms]
      parentTaskIdOf_accepted [OF assms] prerequisitesOf_accepted [OF assms] canonicalTask_def)

lemma toWire_accepted:
  assumes "graphLibraryLaws G" "accepted G snap s"
  shows "toWire G s = Some \<lparr>tw_schemaVersion = 1, tw_revision = ts_revision snap, tw_tasks = map canonicalTask (sortedTasks snap)\<rparr>"
proof -
  have "those (map (taskValueOf G s) (taskIdsOf G s)) = Some (map canonicalTask (sortedTasks snap))"
    unfolding taskIdsOf_accepted [OF assms(2)] map_map
    by (rule those_map_Some) (simp add: taskValueOf_accepted [OF assms])
  then show ?thesis
    using assms(2) by (simp add: toWire_def accepted_def taskDagSchemaVersion_def)
qed

definition taskEligible :: "TrackerSnapshot \<Rightarrow> TrackerTask \<Rightarrow> bool" where
  "taskEligible snap task \<longleftrightarrow> tt_lifecycle task = Open \<and>
     (\<forall>u\<in>set (ts_tasks snap). tt_id u \<in> set (tt_prerequisiteIds task) \<longrightarrow> tt_lifecycle u = CompletedSuccessfully)"

lemma isEligible_accepted:
  assumes laws: "graphLibraryLaws G" and acc: "accepted G snap s" and task: "task \<in> set (ts_tasks snap)"
  shows "isEligible G s (tt_id task) = Some (taskEligible snap task)"
proof -
  have sat: "(case lifecycleOf G s p of None \<Rightarrow> False | Some l \<Rightarrow> isDependencySatisfied l) \<longleftrightarrow>
      (\<forall>u\<in>set (ts_tasks snap). tt_id u = p \<longrightarrow> tt_lifecycle u = CompletedSuccessfully)"
    if p: "p \<in> set (tt_prerequisiteIds task)" for p
  proof -
    obtain v where v: "v \<in> set (ts_tasks snap)" "p = tt_id v"
      using wellFormed_targets(1) [OF accepted_facts(4) [OF acc] task] p by auto
    then show ?thesis
      using accepted_unique [OF acc _ v(1)] by (auto simp: lifecycleOf_accepted [OF laws acc] isDependencySatisfied_def)
  qed
  then have "list_all (\<lambda>p. case lifecycleOf G s p of None \<Rightarrow> False | Some l \<Rightarrow> isDependencySatisfied l) (sortedTaskIds (tt_prerequisiteIds task)) \<longleftrightarrow>
      (\<forall>u\<in>set (ts_tasks snap). tt_id u \<in> set (tt_prerequisiteIds task) \<longrightarrow> tt_lifecycle u = CompletedSuccessfully)"
    unfolding list_all_iff by auto
  then show ?thesis
    by (simp add: isEligible_def lifecycleOf_accepted [OF laws acc task] prerequisitesOf_accepted [OF laws acc task]
        isTaskOpen_def taskEligible_def)
qed

lemma eligibleTaskIds_accepted:
  assumes laws: "graphLibraryLaws G" and acc: "accepted G snap s"
  shows "eligibleTaskIds G s = Some (map tt_id (filter (taskEligible snap) (sortedTasks snap)))"
proof -
  have "those (map (isEligible G s) (taskIdsOf G s)) = Some (map (taskEligible snap) (sortedTasks snap))"
    unfolding taskIdsOf_accepted [OF acc] map_map
    by (rule those_map_Some) (simp add: isEligible_accepted [OF assms])
  moreover have "map fst (filter snd (zip (map tt_id xs) (map P xs))) = map tt_id (filter P xs)" for xs P
    by (induction xs) auto
  ultimately show ?thesis
    by (simp add: eligibleTaskIds_def taskIdsOf_accepted [OF acc])
qed

lemma eligibleTasks_accepted:
  assumes "graphLibraryLaws G" "accepted G snap s"
  shows "eligibleTasks G s = Some (map canonicalTask (filter (taskEligible snap) (sortedTasks snap)))"
proof -
  have "those (map (taskValueOf G s) (map tt_id (filter (taskEligible snap) (sortedTasks snap)))) =
      Some (map canonicalTask (filter (taskEligible snap) (sortedTasks snap)))"
    unfolding map_map by (rule those_map_Some) (simp add: taskValueOf_accepted [OF assms])
  then show ?thesis by (simp add: eligibleTasks_def eligibleTaskIds_accepted [OF assms])
qed

section \<open>Wire round trip\<close>

lemma prerequisiteRel_UN: "prerequisiteRel snap = (\<Union>task\<in>set (ts_tasks snap). {tt_id task} \<times> set (tt_prerequisiteIds task))"
  by (auto simp: prerequisiteRel_def)

lemma parentRel_UN: "parentRel snap = (\<Union>task\<in>set (ts_tasks snap). {tt_id task} \<times> set_option (tt_parentTaskId task))"
  by (auto simp: parentRel_def)

lemma wellFormed_canonical:
  assumes "wellFormedSnapshot snap" "set ts = canonicalTask ` set (ts_tasks snap)" "distinct (map tt_id ts)"
  shows "wellFormedSnapshot \<lparr>ts_revision = rev', ts_rootTaskId = None, ts_tasks = ts\<rparr>"
proof -
  let ?wire = "\<lparr>ts_revision = rev', ts_rootTaskId = None, ts_tasks = ts\<rparr>"
  have "prerequisiteRel ?wire = prerequisiteRel snap" "parentRel ?wire = parentRel snap" "tt_id ` set ts = tt_id ` set (ts_tasks snap)"
    using assms(2) by (simp_all add: prerequisiteRel_UN parentRel_UN image_image)
  then show ?thesis
    using assms by (auto simp: wellFormedSnapshot_def)
qed

lemma sort_key_perm:
  assumes "distinct (map f xs)" "set ys = set xs" "distinct (map f ys)"
  shows "sort_key f ys = sort_key f xs"
  using assms by (intro map_sorted_distinct_set_unique [where f = f]) (auto simp: distinct_map)

lemma sortedTasks_canonical:
  assumes "distinct (map tt_id (ts_tasks snap))"
  shows "sort_key tt_id (map canonicalTask (sortedTasks snap)) = map canonicalTask (sortedTasks snap)"
    "map canonicalTask (map canonicalTask (sortedTasks snap)) = map canonicalTask (sortedTasks snap)"
proof -
  show "sort_key tt_id (map canonicalTask (sortedTasks snap)) = map canonicalTask (sortedTasks snap)"
    by (rule sort_key_id) (simp add: sortedTasks_def comp_def)
  show "map canonicalTask (map canonicalTask (sortedTasks snap)) = map canonicalTask (sortedTasks snap)"
    by (simp add: canonicalTask_def)
qed

section \<open>Topological order\<close>

lemma settleDependants_spec:
  assumes "distinct ds" "\<forall>d\<in>set ds. remaining d = Some (int (c d))"
  shows "\<exists>ready'. settleDependants ds remaining ready =
      Some (\<lambda>d. if d \<in> set ds then Some (int (c d) - 1) else remaining d, ready') \<and>
    set ready' = set ready \<union> {d \<in> set ds. c d = 1} \<and>
    (distinct ready \<longrightarrow> set ready \<inter> set ds = {} \<longrightarrow> distinct ready')"
  using assms
proof (induction ds arbitrary: remaining ready)
  case (Cons d ds)
  let ?ready = "if int (c d) - 1 = 0 then sortedTaskIds (ready @ [d]) else ready"
  have rest: "\<forall>x\<in>set ds. (remaining(d \<mapsto> int (c d) - 1)) x = Some (int (c x))"
    using Cons.prems by auto
  obtain ready' where ready': "settleDependants ds (remaining(d \<mapsto> int (c d) - 1)) ?ready =
      Some (\<lambda>x. if x \<in> set ds then Some (int (c x) - 1) else (remaining(d \<mapsto> int (c d) - 1)) x, ready')"
    "set ready' = set ?ready \<union> {x \<in> set ds. c x = 1}" "distinct ?ready \<longrightarrow> set ?ready \<inter> set ds = {} \<longrightarrow> distinct ready'"
    using Cons.IH [OF _ rest, of ?ready] Cons.prems(1) unfolding distinct.simps by blast
  have "(\<lambda>x. if x \<in> set ds then Some (int (c x) - 1) else (remaining(d \<mapsto> int (c d) - 1)) x) =
      (\<lambda>x. if x \<in> set (d # ds) then Some (int (c x) - 1) else remaining x)"
    using Cons.prems(1) by auto
  moreover have "int (c d) - 1 = 0 \<longleftrightarrow> c d = 1" by linarith
  ultimately show ?case
    using ready' Cons.prems by (auto split: if_splits)
qed auto

definition orderInv :: "TaskId list \<Rightarrow> (TaskId \<Rightarrow> TaskId set) \<Rightarrow> (TaskId \<rightharpoonup> int) \<Rightarrow> TaskId list \<Rightarrow> TaskId list \<Rightarrow> bool" where
  "orderInv ids pre remaining ready order \<longleftrightarrow>
     distinct (order @ ready) \<and> set order \<union> set ready \<subseteq> set ids \<and>
     (\<forall>t\<in>set ids. remaining t = Some (int (card (pre t - set order)))) \<and>
     (\<forall>t\<in>set ids. t \<in> set order \<union> set ready \<longleftrightarrow> pre t \<subseteq> set order) \<and>
     (\<forall>i<length order. pre (order ! i) \<subseteq> set (take i order))"

lemma orderInv_step:
  assumes inv: "orderInv ids pre remaining (t # ready) order"
    and fin: "\<And>u. u \<in> set ids \<Longrightarrow> finite (pre u)"
    and ds: "distinct ds" "set ds = {u \<in> set ids. t \<in> pre u}" and irrefl: "\<And>u. u \<in> set ids \<Longrightarrow> u \<notin> pre u"
  shows "\<exists>remaining' ready'. settleDependants ds remaining ready = Some (remaining', ready') \<and>
    orderInv ids pre remaining' ready' (order @ [t])"
proof -
  let ?c = "\<lambda>u. card (pre u - set order)"
  have dist: "distinct (order @ t # ready)" and sub: "set order \<union> set (t # ready) \<subseteq> set ids"
    and rem: "\<And>u. u \<in> set ids \<Longrightarrow> remaining u = Some (int (?c u))"
    and ready: "\<And>u. u \<in> set ids \<Longrightarrow> u \<in> set order \<union> set (t # ready) \<longleftrightarrow> pre u \<subseteq> set order"
    and earlier: "\<forall>i<length order. pre (order ! i) \<subseteq> set (take i order)"
    using inv unfolding orderInv_def by auto
  have new: "pre u - set (order @ [t]) = pre u - set order - {t}" for u by auto
  have mem: "t \<in> pre u - set order" if "u \<in> set ds" for u
    using that ds(2) dist by auto
  have dep: "?c u - 1 = card (pre u - set (order @ [t]))" "0 < ?c u" if "u \<in> set ds" for u
    using mem [OF that] fin [of u] that ds(2) unfolding new by (auto simp: card_gt_0_iff)
  have nondep: "pre u - set (order @ [t]) = pre u - set order" if "u \<in> set ids" "u \<notin> set ds" for u
    using that ds(2) by auto
  obtain ready' where settle: "settleDependants ds remaining ready =
      Some (\<lambda>d. if d \<in> set ds then Some (int (?c d) - 1) else remaining d, ready')"
    "set ready' = set ready \<union> {d \<in> set ds. ?c d = 1}"
    "distinct ready \<longrightarrow> set ready \<inter> set ds = {} \<longrightarrow> distinct ready'"
    using settleDependants_spec [OF ds(1), of remaining ?c ready] rem ds(2) by blast
  have closedDs: "u \<notin> set order" "u \<noteq> t" "u \<notin> set ready" if "u \<in> set ds" for u
    using ready [of u] mem [OF that] that ds(2) dist by auto
  have fresh: "distinct (order @ [t]) \<and> distinct ready' \<and> set (order @ [t]) \<inter> set ready' = {}"
    using dist settle(2,3) closedDs by auto
  have one: "?c u = 1 \<longleftrightarrow> pre u \<subseteq> set (order @ [t])" if "u \<in> set ds" for u
  proof -
    have "?c u = 1 \<longleftrightarrow> card (pre u - set (order @ [t])) = 0" using dep [OF that] by linarith
    also have "\<dots> \<longleftrightarrow> pre u \<subseteq> set (order @ [t])" using fin [of u] that ds(2) by (auto simp: card_eq_0_iff)
    finally show ?thesis .
  qed
  have member: "u \<in> set (order @ [t]) \<union> set ready' \<longleftrightarrow> pre u \<subseteq> set (order @ [t])" if "u \<in> set ids" for u
  proof (cases "u \<in> set ds")
    case True
    then show ?thesis using one [OF True] closedDs [OF True] settle(2) by auto
  next
    case False
    then show ?thesis using ready [OF that] nondep [OF that False] settle(2) by auto
  qed
  have remaining': "(if u \<in> set ds then Some (int (?c u) - 1) else remaining u) = Some (int (card (pre u - set (order @ [t]))))"
    if "u \<in> set ids" for u
    using dep [of u] nondep [OF that] rem [OF that] by auto
  have "pre t \<subseteq> set order" using ready [of t] sub by auto
  then have "\<forall>i<length (order @ [t]). pre ((order @ [t]) ! i) \<subseteq> set (take i (order @ [t]))"
    using earlier by (auto simp: nth_append less_Suc_eq)
  then show ?thesis
    using settle(1,2) sub ds(2) fresh member remaining' unfolding orderInv_def by auto
qed

lemma topologicalLoop_correct:
  assumes fin: "\<And>u. u \<in> set ids \<Longrightarrow> finite (pre u)" and irrefl: "\<And>u. u \<in> set ids \<Longrightarrow> u \<notin> pre u"
    and deps: "\<And>t. t \<in> set ids \<Longrightarrow> \<exists>ds. dependants t = Some ds \<and> distinct ds \<and> set ds = {u \<in> set ids. t \<in> pre u}"
  shows "orderInv ids pre remaining ready order \<Longrightarrow> length ids \<le> fuel + length order \<Longrightarrow>
    \<exists>order' remaining'. topologicalLoop fuel dependants remaining ready order = Some order' \<and> orderInv ids pre remaining' [] order'"
proof (induction fuel arbitrary: remaining ready order)
  case 0
  have "distinct (order @ ready)" using 0 unfolding orderInv_def by blast
  then have "length (order @ ready) = card (set (order @ ready))" by (rule distinct_card [symmetric])
  also have "\<dots> \<le> card (set ids)" using 0 unfolding orderInv_def by (intro card_mono) auto
  also have "\<dots> \<le> length order" using 0 card_length [of ids] by simp
  finally show ?case using 0 by auto
next
  case (Suc fuel)
  show ?case
  proof (cases ready)
    case Nil
    then show ?thesis using Suc.prems(1) by auto
  next
    case (Cons t ts)
    then have "t \<in> set ids" using Suc.prems(1) by (simp add: orderInv_def)
    then obtain ds where ds: "dependants t = Some ds" "distinct ds" "set ds = {u \<in> set ids. t \<in> pre u}" using deps by blast
    obtain remaining' ready' where step: "settleDependants ds remaining ts = Some (remaining', ready')"
      "orderInv ids pre remaining' ready' (order @ [t])"
      using orderInv_step [OF Suc.prems(1) [unfolded Cons] fin ds(2,3) irrefl] by blast
    then show ?thesis using Suc.IH [OF step(2)] Suc.prems(2) ds(1) Cons by simp
  qed
qed

lemma orderInv_complete:
  assumes inv: "orderInv ids pre remaining [] order" and wf: "wf {(p, t). t \<in> set ids \<and> p \<in> pre t}"
    and closed: "\<And>t. t \<in> set ids \<Longrightarrow> pre t \<subseteq> set ids"
  shows "set order = set ids"
proof (rule ccontr)
  assume "set order \<noteq> set ids"
  then obtain u where "u \<in> set ids - set order" using inv by (auto simp: orderInv_def)
  then obtain t where t: "t \<in> set ids - set order" "\<And>p. (p, t) \<in> {(p, t). t \<in> set ids \<and> p \<in> pre t} \<Longrightarrow> p \<notin> set ids - set order"
    by (rule wfE_min [OF wf]) blast
  then have "pre t \<subseteq> set order" using closed [of t] by fastforce
  then show False using inv t(1) by (auto simp: orderInv_def)
qed

theorem topologicalOrder_accepted:
  assumes laws: "graphLibraryLaws G" and acc: "accepted G snap s"
  shows "\<exists>order. topologicalOrder G s = Some order \<and> distinct order \<and> set order = tt_id ` set (ts_tasks snap) \<and>
    (\<forall>i<length order. \<forall>task\<in>set (ts_tasks snap). tt_id task = order ! i \<longrightarrow> set (tt_prerequisiteIds task) \<subseteq> set (take i order))"
proof -
  note facts = accepted_facts [OF acc]
  define ids where "ids = map tt_id (sortedTasks snap)"
  define pre where "pre t = {p. (t, p) \<in> prerequisiteRel snap}" for t
  have pre: "pre (tt_id task) = set (tt_prerequisiteIds task)" if "task \<in> set (ts_tasks snap)" for task
    using that accepted_unique [OF acc that] by (auto simp: pre_def prerequisiteRel_def)
  have ids: "set ids = tt_id ` set (ts_tasks snap)" "distinct ids" using facts(8) by (auto simp: ids_def)
  have irrefl: "u \<notin> pre u" for u using facts(5) by (auto simp: pre_def acyclic_def)
  have counts: "those (map (\<lambda>t. do { ps \<leftarrow> prerequisitesOf G s t; Some (t, int (length ps)) }) (taskIdsOf G s)) =
      Some (map (\<lambda>task. (tt_id task, int (card (pre (tt_id task))))) (sortedTasks snap))"
    unfolding taskIdsOf_accepted [OF acc] map_map
    by (rule those_map_Some) (use facts(3) in \<open>auto simp: prerequisitesOf_accepted [OF laws acc] pre distinct_card sortedTaskIds_def\<close>)
  define remaining where "remaining = map_of (map (\<lambda>task. (tt_id task, int (card (pre (tt_id task))))) (sortedTasks snap))"
  have rem: "remaining (tt_id task) = Some (int (card (pre (tt_id task))))" if "task \<in> set (ts_tasks snap)" for task
    unfolding remaining_def using that facts(8) by (intro map_of_is_SomeI) (auto simp: comp_def)
  have deps: "\<exists>ds. dependantsOf G s t = Some ds \<and> distinct ds \<and> set ds = {u \<in> set ids. t \<in> pre u}" if known: "t \<in> set ids" for t
  proof -
    obtain task where task: "task \<in> set (ts_tasks snap)" "t = tt_id task" using known ids by auto
    have "distinct (map tt_id (filter P (sortedTasks snap)))" for P
      using facts(8) by (simp add: distinct_map_filter)
    then show ?thesis
      using dependantsOf_accepted [OF laws acc task(1)] task ids(1) by (auto simp: pre)
  qed
  have fin: "finite (pre u)" if "u \<in> set ids" for u using that ids(1) by (auto simp: pre)
  have "orderInv ids pre remaining (filter (\<lambda>t. remaining t = Some 0) ids) []"
    using ids(2) rem fin unfolding orderInv_def ids(1) by (auto simp: card_eq_0_iff ids(1))
  then obtain order remaining' where loop: "topologicalLoop (length ids) (dependantsOf G s) remaining (filter (\<lambda>t. remaining t = Some 0) ids) [] = Some order"
    "orderInv ids pre remaining' [] order"
    using topologicalLoop_correct [OF fin irrefl deps, of remaining "filter (\<lambda>t. remaining t = Some 0) ids" "[]" "length ids"] by auto
  have result: "topologicalOrder G s = Some order"
    using loop(1) unfolding topologicalOrder_def Let_def counts
    by (simp add: taskIdsOf_accepted [OF acc] remaining_def ids_def)
  have "finite (prerequisiteRel snap)" by (simp add: prerequisiteRel_UN)
  then have "wf ((prerequisiteRel snap)\<inverse>)"
    using facts(5) by (simp add: finite_acyclic_wf acyclic_converse)
  then have "wf {(p, t). t \<in> set ids \<and> p \<in> pre t}"
    by (rule wf_subset) (auto simp: pre_def)
  moreover have "pre t \<subseteq> set ids" if "t \<in> set ids" for t
    using that wellFormed_targets(1) [OF facts(4)] pre unfolding ids(1) by (metis imageE)
  ultimately have "set order = set ids"
    by (rule orderInv_complete [OF loop(2)])
  moreover have "distinct order" and "\<forall>i<length order. pre (order ! i) \<subseteq> set (take i order)"
    using loop(2) unfolding orderInv_def by simp_all
  then have "\<forall>i<length order. \<forall>task\<in>set (ts_tasks snap). tt_id task = order ! i \<longrightarrow> set (tt_prerequisiteIds task) \<subseteq> set (take i order)"
    using pre by metis
  ultimately show ?thesis
    using result ids(1) \<open>distinct order\<close> by simp
qed

section \<open>Subtree of a grouping\<close>

lemma grouping_edges_accepted:
  assumes laws: "graphLibraryLaws G" and acc: "accepted G snap s"
  shows "graphEdgeRel (gl_edges G (graphForRelation G (ds_graph s) Grouping)) =
    (\<lambda>(t, p). (indexIn (ds_nodeIndexByTaskId s) p, indexIn (ds_nodeIndexByTaskId s) t)) ` parentRel snap"
proof -
  let ?idx = "indexIn (ds_nodeIndexByTaskId s)"
  have seg: "filter (\<lambda>e. ge_data e = Grouping) (recordEdges (recordsOf snap) (ds_nodeIndexByTaskId s) t) =
      map (\<lambda>p. \<lparr>ge_source = ?idx p, ge_target = ?idx t, ge_data = Grouping\<rparr>) (relationIds (recordsOf snap) Grouping t)" for t
    by (simp add: recordEdges_def filter_map comp_def)
  have "gl_edges G (graphForRelation G (ds_graph s) Grouping) = concat (map (\<lambda>t.
      map (\<lambda>p. \<lparr>ge_source = ?idx p, ge_target = ?idx t, ge_data = Grouping\<rparr>) (relationIds (recordsOf snap) Grouping t))
      (sortedTaskIds (map fst (recordsOf snap))))"
    using accepted_facts(2) [OF acc] unfolding represents_def
    by (simp add: graphForRelation_def law_filterEdges [OF laws] filter_concat comp_def seg)
  then have "graphEdgeRel (gl_edges G (graphForRelation G (ds_graph s) Grouping)) =
      (\<Union>t\<in>tt_id ` set (ts_tasks snap). (\<lambda>p. (?idx p, ?idx t)) ` set (relationIds (recordsOf snap) Grouping t))"
    unfolding graphEdgeRel_def by (simp add: image_UN image_image)
  also have "\<dots> = (\<lambda>(t, p). (?idx p, ?idx t)) ` relationPairs (recordsOf snap) Grouping"
    using relationIds_known [of _ "recordsOf snap" Grouping]
    unfolding relationPairs_def keys_recordsOf by (auto simp: image_iff split_beta; metis)
  finally show ?thesis
    using relationPairs_recordsOf(2) [OF accepted_facts(1,4) [OF acc]] by simp
qed

lemma rtrancl_image_inj:
  assumes inj: "inj_on f A" and sub: "R \<subseteq> A \<times> A" and t: "t \<in> A"
  shows "((\<lambda>(x, y). (f y, f x)) ` R)\<^sup>* `` {f t} = f ` {u. (u, t) \<in> R\<^sup>*}"
proof (intro equalityI subsetI)
  fix j assume "j \<in> ((\<lambda>(x, y). (f y, f x)) ` R)\<^sup>* `` {f t}"
  then have "(f t, j) \<in> ((\<lambda>(x, y). (f y, f x)) ` R)\<^sup>*" by simp
  then have "\<exists>u\<in>A. j = f u \<and> (u, t) \<in> R\<^sup>*"
  proof (induction rule: rtrancl_induct)
    case (step j k)
    then obtain u where u: "u \<in> A" "j = f u" "(u, t) \<in> R\<^sup>*" by blast
    from step(2) obtain x y where xy: "(x, y) \<in> R" "j = f y" "k = f x" by auto
    moreover have "y = u" using xy(1,2) u(1,2) sub inj by (auto dest: inj_onD)
    ultimately show ?case using u(3) sub by (auto intro: converse_rtrancl_into_rtrancl)
  qed (use t in auto)
  then show "j \<in> f ` {u. (u, t) \<in> R\<^sup>*}" by auto
next
  fix j assume "j \<in> f ` {u. (u, t) \<in> R\<^sup>*}"
  then obtain u where "j = f u" "(u, t) \<in> R\<^sup>*" by auto
  from this(2) have "(f t, f u) \<in> ((\<lambda>(x, y). (f y, f x)) ` R)\<^sup>*"
    by (induction rule: converse_rtrancl_induct) (auto intro: rtrancl_into_rtrancl)
  then show "j \<in> ((\<lambda>(x, y). (f y, f x)) ` R)\<^sup>* `` {f t}" using \<open>j = f u\<close> by simp
qed

lemma groupingSubtreeOf_accepted:
  assumes laws: "graphLibraryLaws G" and acc: "accepted G snap s" and t: "t \<in> tt_id ` set (ts_tasks snap)"
  shows "set (groupingSubtreeOf G s t) = {u. (u, t) \<in> (parentRel snap)\<^sup>*}" "distinct (groupingSubtreeOf G s t)"
proof -
  let ?idx = "indexIn (ds_nodeIndexByTaskId s)" and ?g = "graphForRelation G (ds_graph s) Grouping"
  define found where "found = gl_bfs G ?g [?idx t]"
  note rep = accepted_facts(2) [OF acc]
  have nodes: "gl_nodes G ?g = map (\<lambda>(t, i). (i, recordNode (recordsOf snap) t)) (ds_nodeIndexByTaskId s)"
    using rep by (simp add: graphForRelation_def law_filterEdges [OF laws] represents_def)
  have dom: "map_of (ds_nodeIndexByTaskId s) u = Some (?idx u)" if "u \<in> tt_id ` set (ts_tasks snap)" for u
    using that index_accepted(1) [OF acc] by auto
  have known: "?idx u \<in> fst ` set (gl_nodes G ?g)" if "u \<in> tt_id ` set (ts_tasks snap)" for u
    using map_of_SomeD [OF dom [OF that]] unfolding nodes by force
  have inj: "inj_on ?idx (tt_id ` set (ts_tasks snap))"
    using represents_index_inj [OF rep] by (auto simp: inj_on_def)
  have sub: "parentRel snap \<subseteq> tt_id ` set (ts_tasks snap) \<times> tt_id ` set (ts_tasks snap)"
    using accepted_facts(4) [OF acc] by (force simp: parentRel_def)
  have "graphEdgeRel (gl_edges G ?g) \<subseteq> fst ` set (gl_nodes G ?g) \<times> fst ` set (gl_nodes G ?g)"
    unfolding grouping_edges_accepted [OF laws acc] using sub known by auto
  note bfs = law_bfs [OF laws known [OF t] this, folded found_def]
  have idx: "fst ` set found = ?idx ` {u. (u, t) \<in> (parentRel snap)\<^sup>*}"
    unfolding bfs(3) grouping_edges_accepted [OF laws acc] by (rule rtrancl_image_inj [OF inj sub t])
  have node: "gn_id n \<in> tt_id ` set (ts_tasks snap) \<and> i = ?idx (gn_id n)" if found: "(i, n) \<in> set found" for i n
  proof -
    obtain u where "(u, i) \<in> set (ds_nodeIndexByTaskId s)" "n = recordNode (recordsOf snap) u"
      using subsetD [OF bfs(2) found] unfolding nodes by auto
    moreover have "distinct (map fst (ds_nodeIndexByTaskId s))" using rep unfolding represents_def by blast
    ultimately show ?thesis
      using accepted_facts(7) [OF acc] by (force simp: indexIn_def map_of_is_SomeI)
  qed
  have reach: "u \<in> tt_id ` set (ts_tasks snap)" if "(u, t) \<in> (parentRel snap)\<^sup>*" for u
    using that t sub by (auto elim: converse_rtranclE)
  have list: "groupingSubtreeOf G s t = map (\<lambda>(i, n). gn_id n) found"
    by (simp add: groupingSubtreeOf_def dom [OF t] found_def)
  show "set (groupingSubtreeOf G s t) = {u. (u, t) \<in> (parentRel snap)\<^sup>*}"
  proof (intro equalityI subsetI)
    fix u assume "u \<in> set (groupingSubtreeOf G s t)"
    then obtain i n where n: "(i, n) \<in> set found" "u = gn_id n" by (auto simp: list)
    from n(1) have "i \<in> fst ` set found" by force
    then obtain v where "(v, t) \<in> (parentRel snap)\<^sup>*" "?idx u = ?idx v" unfolding idx using node [OF n(1)] n(2) by auto
    then show "u \<in> {u. (u, t) \<in> (parentRel snap)\<^sup>*}" using node [OF n(1)] n(2) reach inj by (auto dest: inj_onD)
  next
    fix u assume u: "u \<in> {u. (u, t) \<in> (parentRel snap)\<^sup>*}"
    then obtain i n where n: "(i, n) \<in> set found" "i = ?idx u" using idx by force
    then have "gn_id n = u" using node [OF n(1)] u reach inj by (auto dest: inj_onD)
    then show "u \<in> set (groupingSubtreeOf G s t)" using n(1) by (force simp: list)
  qed
  have "map fst found = map ?idx (groupingSubtreeOf G s t)" using node by (auto simp: list)
  then show "distinct (groupingSubtreeOf G s t)" using bfs(1) by (metis distinct_map)
qed

end
