(* ===== verification/Run_Finality.thy ===== *)
theory Run_Finality
  imports Task_Graph_Queries Workflow_Events Git_Text
begin

text \<open>
  Finality of a run (\<^verbatim>\<open>coordination/frontier/run-finality.ts\<close>, the keys of \<^verbatim>\<open>task-tracker/target.ts\<close>): the
  classification of an accepted graph by its blockage fixpoint, the terminal disposition, and the evidence that a termination
  carries, with the schema check that \<open>RunFinalityEvidence.make\<close> runs (a failed check throws, here \<open>None\<close>). The blockage
  loop recurses on fuel; \<open>blockage_exact\<close> shows that one round more than there are tasks is enough and that it computes
  the tasks that depend, directly or not, on one that ended without success.
\<close>

section \<open>Disposition\<close>

definition runTerminationDispositionOf :: "RunGraphOutcome \<Rightarrow> bool \<Rightarrow> RunTerminationDisposition option" where
  "runTerminationDispositionOf outcome cancellationApplied =
     (if outcome = AllTasksSucceeded then Some RunCompleted
      else if cancellationApplied then Some RunCancelled
      else if outcome = GraphBlocked then Some RunBlocked
      else None)"

section \<open>Blockage\<close>

definition setFrom :: "'a list \<Rightarrow> 'a list" where
  "setFrom xs = foldl (\<lambda>acc x. if x \<in> set acc then acc else acc @ [x]) [] xs"

fun blockageRound :: "TrackerTask list \<Rightarrow> TaskId list \<Rightarrow> bool \<Rightarrow> TaskId list \<times> bool" where
  "blockageRound [] blocked changed = (blocked, changed)"
| "blockageRound (task # tasks) blocked changed =
     (if tt_id task \<notin> set blocked \<and> list_ex (\<lambda>p. p \<in> set blocked) (tt_prerequisiteIds task)
      then blockageRound tasks (blocked @ [tt_id task]) True
      else blockageRound tasks blocked changed)"

fun blockageLoop :: "nat \<Rightarrow> TrackerTask list \<Rightarrow> TaskId list \<Rightarrow> TaskId list option" where
  "blockageLoop 0 tasks blocked = None"
| "blockageLoop (Suc fuel) tasks blocked =
     (let (blocked', changed) = blockageRound tasks blocked False in
      if changed then blockageLoop fuel tasks blocked' else Some blocked')"

record RunGraphFacts =
  gf_graphOutcome :: RunGraphOutcome
  gf_terminalTaskIds :: "TaskId list"
  gf_blockedTaskIds :: "TaskId list"

definition runGraphTaskFactsOutcome :: "TrackerTask list \<Rightarrow> RunGraphFacts option" where
  "runGraphTaskFactsOutcome tasks =
     do {
       let terminalTaskIds = sort (map tt_id (filter (\<lambda>task. tt_lifecycle task = TerminalWithoutSuccess) tasks));
       blocked \<leftarrow> blockageLoop (Suc (length tasks)) tasks (setFrom terminalTaskIds);
       let allTasksSucceeded = list_all (\<lambda>task. tt_lifecycle task = CompletedSuccessfully) tasks;
       let allTasksSettledBySuccessOrBlockage =
         list_all (\<lambda>task. tt_lifecycle task = CompletedSuccessfully \<or> tt_id task \<in> set blocked) tasks;
       Some \<lparr>gf_graphOutcome =
               (if allTasksSucceeded then AllTasksSucceeded
                else if length terminalTaskIds > 0 \<and> allTasksSettledBySuccessOrBlockage then GraphBlocked
                else GraphUnsettled),
             gf_terminalTaskIds = terminalTaskIds,
             gf_blockedTaskIds = sort blocked\<rparr>
     }"

definition runGraphFactsOutcome :: "'g GraphLibrary \<Rightarrow> 'g TaskDagSnapshot \<Rightarrow> RunGraphFacts option" where
  "runGraphFactsOutcome G snapshot = do { wire \<leftarrow> toWire G snapshot; runGraphTaskFactsOutcome (tw_tasks wire) }"

section \<open>Identity keys\<close>

text \<open>\<open>jsonString\<close> is \<open>JSON.stringify\<close> of a string of 8-bit code units.\<close>

definition hexChar :: "nat \<Rightarrow> char" where
  "hexChar n = char_of (if n < 10 then 48 + n else 87 + n)"

definition jsonEscape :: "char \<Rightarrow> string" where
  "jsonEscape c =
     (let n = (of_char c :: nat) in
      if n = 34 \<or> n = 92 then [CHR 0x5C, c]
      else if n = 8 then [CHR 0x5C, CHR ''b'']
      else if n = 9 then [CHR 0x5C, CHR ''t'']
      else if n = 10 then [CHR 0x5C, CHR ''n'']
      else if n = 12 then [CHR 0x5C, CHR ''f'']
      else if n = 13 then [CHR 0x5C, CHR ''r'']
      else if n < 32 then [CHR 0x5C, CHR ''u'', CHR ''0'', CHR ''0'', hexChar (n div 16), hexChar (n mod 16)]
      else [c])"

definition jsonString :: "string \<Rightarrow> string" where
  "jsonString s = CHR 0x22 # concat (map jsonEscape s) @ [CHR 0x22]"

text \<open>The cache of \<open>taskTrackerTargetKey\<close> is keyed by object identity and holds the same text, so it does not show.\<close>

fun taskTrackerTargetKey :: "TrackerTarget \<Rightarrow> string" where
  "taskTrackerTargetKey (FixtureTarget name) = jsonString name"
| "taskTrackerTargetKey (GithubIssue issueNumber owner repository) =
     CHR 0x7B # jsonString ''_tag'' @ '':'' @ jsonString ''GithubIssue'' @ '','' @
     jsonString ''issueNumber'' @ '':'' @ showNat issueNumber @ '','' @
     jsonString ''owner'' @ '':'' @ jsonString owner @ '','' @
     jsonString ''repository'' @ '':'' @ jsonString repository @ [CHR 0x7D]"

definition exactTaskIdSetKey :: "TaskId list \<Rightarrow> string" where
  "exactTaskIdSetKey taskIds = joinOn (CHR 0x7C) (map (\<lambda>t. showNat (length t) @ CHR '':'' # t) (sort taskIds))"

definition exactStringSequenceKey :: "string list \<Rightarrow> string" where
  "exactStringSequenceKey values = joinOn (CHR 0x00) values"

section \<open>Evidence\<close>

definition requiredRunFinalityFactFamilies :: "string list" where
  "requiredRunFinalityFactFamilies =
     [''TaskIdentities'', ''TaskLifecycles'', ''TaskPrerequisites'', ''TaskGroupings'', ''TaskTargetMembership'']"

definition runFinalityEvidenceIssue :: "RunFinalityEvidence \<Rightarrow> string option" where
  "runFinalityEvidenceIssue evidence =
     map_option snd (List.find fst
       [(\<not> fe_complete evidence, ''finality evidence must be complete''),
        (taskTrackerTargetKey (fe_coverageTarget evidence) \<noteq> taskTrackerTargetKey (fe_target evidence),
         ''finality coverage must name the exact Run tracker target''),
        (exactStringSequenceKey (fe_requiredFactFamilies evidence) \<noteq> exactStringSequenceKey requiredRunFinalityFactFamilies,
         ''finality evidence must include every complete graph fact family in order''),
        (exactTaskIdSetKey (fe_readShapeTaskIds evidence) \<noteq> exactTaskIdSetKey (fe_coverageTaskIds evidence),
         ''finality evidence read shape must exactly match its coverage''),
        (length (fe_rootTaskId evidence) = 0, ''finality evidence must name the exact Run root''),
        (fe_graphOutcome evidence = GraphBlocked \<and>
         list_ex (\<lambda>n. n = 0) [length (fe_terminalTaskIds evidence), length (fe_blockedTaskIds evidence)],
         ''blocked finality evidence must name terminal and dependent unsuccessful tasks''),
        (fe_graphOutcome evidence = AllTasksSucceeded \<and>
         list_ex (\<lambda>n. n > 0) [length (fe_terminalTaskIds evidence), length (fe_blockedTaskIds evidence)],
         ''all-success finality evidence may not name unsuccessful tasks'')])"

text \<open>The field checks of the schema that can fail (uniqueness, a non-empty root) and the filter on the whole value.\<close>

definition validRunFinalityEvidence :: "RunFinalityEvidence \<Rightarrow> bool" where
  "validRunFinalityEvidence evidence \<longleftrightarrow>
     distinct (fe_coverageTaskIds evidence) \<and> distinct (fe_readShapeTaskIds evidence) \<and>
     distinct (fe_blockedTaskIds evidence) \<and> distinct (fe_terminalTaskIds evidence) \<and>
     fe_rootTaskId evidence \<noteq> [] \<and> runFinalityEvidenceIssue evidence = None"

record 'g RunFinalityInput =
  fi_runId :: RunId
  fi_target :: TrackerTarget
  fi_operationId :: string
  fi_observedAt :: JournalPosition
  fi_snapshot :: "'g TaskDagSnapshot"
  fi_readShapeTaskIds :: "TaskId list"
  fi_rootTaskId :: TaskId

definition makeRunFinalityEvidence :: "'g GraphLibrary \<Rightarrow> 'g RunFinalityInput \<Rightarrow> RunFinalityEvidence option" where
  "makeRunFinalityEvidence G input =
     do {
       facts \<leftarrow> runGraphFactsOutcome G (fi_snapshot input);
       let evidence =
         \<lparr>fe_complete = True, fe_coverageTarget = fi_target input, fe_coverageTaskIds = fi_readShapeTaskIds input,
          fe_contentIdentity = ds_revision (fi_snapshot input), fe_graphOutcome = gf_graphOutcome facts,
          fe_operationId = fi_operationId input, fe_readShapeTaskIds = fi_readShapeTaskIds input,
          fe_requiredFactFamilies = requiredRunFinalityFactFamilies, fe_rootTaskId = fi_rootTaskId input,
          fe_runId = fi_runId input, fe_blockedTaskIds = gf_blockedTaskIds facts, fe_target = fi_target input,
          fe_terminalTaskIds = gf_terminalTaskIds facts, fe_observedAt = fi_observedAt input\<rparr>;
       if validRunFinalityEvidence evidence then Some evidence else None
     }"

record RunFinalityExpectation =
  fx_runId :: RunId
  fx_target :: TrackerTarget
  fx_operationId :: string
  fx_observedAt :: JournalPosition
  fx_revision :: TrackerRevision
  fx_readShapeTaskIds :: "TaskId list"
  fx_rootTaskId :: TaskId

definition runFinalityEvidenceMatches :: "RunFinalityEvidence \<Rightarrow> RunFinalityExpectation \<Rightarrow> bool" where
  "runFinalityEvidenceMatches evidence expected =
     (let expectedTaskIds = exactTaskIdSetKey (fx_readShapeTaskIds expected) in
      list_all id
        [fe_runId evidence = fx_runId expected,
         taskTrackerTargetKey (fe_target evidence) = taskTrackerTargetKey (fx_target expected),
         fe_operationId evidence = fx_operationId expected,
         fe_observedAt evidence = fx_observedAt expected,
         fe_contentIdentity evidence = fx_revision expected,
         exactTaskIdSetKey (fe_coverageTaskIds evidence) = expectedTaskIds,
         exactTaskIdSetKey (fe_readShapeTaskIds evidence) = expectedTaskIds,
         fe_complete evidence,
         fe_rootTaskId evidence = fx_rootTaskId expected,
         exactStringSequenceKey (fe_requiredFactFamilies evidence) = exactStringSequenceKey requiredRunFinalityFactFamilies,
         exactTaskIdSetKey (fe_readShapeTaskIds evidence) = exactTaskIdSetKey (fe_coverageTaskIds evidence)])"

section \<open>The blockage fixpoint\<close>

definition dependsRel :: "TrackerTask list \<Rightarrow> (TaskId \<times> TaskId) set" where
  "dependsRel tasks = (\<Union>task\<in>set tasks. {tt_id task} \<times> set (tt_prerequisiteIds task))"

definition blockedBy :: "TrackerTask list \<Rightarrow> TaskId set \<Rightarrow> TaskId set" where
  "blockedBy tasks X = {t. \<exists>x\<in>X. (t, x) \<in> (dependsRel tasks)\<^sup>*}"

lemma blockedBy_superset: "X \<subseteq> blockedBy tasks X"
  by (auto simp: blockedBy_def)

lemma blockedBy_depends: "(t, p) \<in> dependsRel tasks \<Longrightarrow> p \<in> blockedBy tasks X \<Longrightarrow> t \<in> blockedBy tasks X"
  by (auto simp: blockedBy_def intro: converse_rtrancl_into_rtrancl)

lemma blockedBy_least:
  assumes "X \<subseteq> P" "\<And>t p. (t, p) \<in> dependsRel tasks \<Longrightarrow> p \<in> P \<Longrightarrow> t \<in> P"
  shows "blockedBy tasks X \<subseteq> P"
proof
  fix t assume "t \<in> blockedBy tasks X"
  then obtain x where "(t, x) \<in> (dependsRel tasks)\<^sup>*" "x \<in> P" using assms(1) by (auto simp: blockedBy_def)
  then show "t \<in> P" by (induction rule: converse_rtrancl_induct) (auto intro: assms(2))
qed

lemma set_setFrom [simp]: "set (setFrom xs) = set xs" and distinct_setFrom [simp]: "distinct (setFrom xs)"
proof -
  have "set (foldl (\<lambda>acc x. if x \<in> set acc then acc else acc @ [x]) acc xs) = set acc \<union> set xs \<and>
      (distinct acc \<longrightarrow> distinct (foldl (\<lambda>acc x. if x \<in> set acc then acc else acc @ [x]) acc xs))" for acc
    by (induction xs arbitrary: acc) auto
  from this [of "[]"] show "set (setFrom xs) = set xs" "distinct (setFrom xs)" by (simp_all add: setFrom_def)
qed

lemma blockageRound_spec:
  assumes "blockageRound tasks blocked changed = (blocked', changed')"
  shows "\<exists>new. blocked' = blocked @ new \<and> set new \<subseteq> tt_id ` set tasks \<and> (distinct blocked \<longrightarrow> distinct blocked') \<and>
    changed' = (changed \<or> new \<noteq> []) \<and>
    (new = [] \<longrightarrow> (\<forall>task\<in>set tasks. set (tt_prerequisiteIds task) \<inter> set blocked \<noteq> {} \<longrightarrow> tt_id task \<in> set blocked)) \<and>
    (\<forall>P. set blocked \<subseteq> P \<longrightarrow> (\<forall>task\<in>set tasks. set (tt_prerequisiteIds task) \<inter> P \<noteq> {} \<longrightarrow> tt_id task \<in> P) \<longrightarrow> set blocked' \<subseteq> P)"
  using assms
proof (induction tasks arbitrary: blocked changed)
  case (Cons task tasks)
  show ?case
  proof (cases "tt_id task \<notin> set blocked \<and> list_ex (\<lambda>p. p \<in> set blocked) (tt_prerequisiteIds task)")
    case True
    then have "blockageRound tasks (blocked @ [tt_id task]) True = (blocked', changed')" using Cons.prems by simp
    from Cons.IH [OF this] obtain new where new: "blocked' = (blocked @ [tt_id task]) @ new" "set new \<subseteq> tt_id ` set tasks"
      "distinct (blocked @ [tt_id task]) \<longrightarrow> distinct blocked'" "changed' = (True \<or> new \<noteq> [])"
      "\<forall>P. set (blocked @ [tt_id task]) \<subseteq> P \<longrightarrow> (\<forall>task\<in>set tasks. set (tt_prerequisiteIds task) \<inter> P \<noteq> {} \<longrightarrow> tt_id task \<in> P) \<longrightarrow> set blocked' \<subseteq> P"
      by blast
    have least: "set blocked' \<subseteq> P" if "set blocked \<subseteq> P" "\<forall>u\<in>set (task # tasks). set (tt_prerequisiteIds u) \<inter> P \<noteq> {} \<longrightarrow> tt_id u \<in> P" for P
    proof -
      have "tt_id task \<in> P" using that True by (auto simp: list_ex_iff)
      then show ?thesis using new(5) [THEN spec, of P] that by simp
    qed
    show ?thesis
    proof (intro exI [of _ "tt_id task # new"] conjI allI impI)
      fix P assume "set blocked \<subseteq> P" "\<forall>u\<in>set (task # tasks). set (tt_prerequisiteIds u) \<inter> P \<noteq> {} \<longrightarrow> tt_id u \<in> P"
      then show "set blocked' \<subseteq> P" by (rule least)
    qed (use new(1-4) True in auto)
  next
    case False
    then have "blockageRound tasks blocked changed = (blocked', changed')" using Cons.prems by auto
    from Cons.IH [OF this] obtain new where new: "blocked' = blocked @ new" "set new \<subseteq> tt_id ` set tasks"
      "distinct blocked \<longrightarrow> distinct blocked'" "changed' = (changed \<or> new \<noteq> [])"
      "new = [] \<longrightarrow> (\<forall>task\<in>set tasks. set (tt_prerequisiteIds task) \<inter> set blocked \<noteq> {} \<longrightarrow> tt_id task \<in> set blocked)"
      "\<forall>P. set blocked \<subseteq> P \<longrightarrow> (\<forall>task\<in>set tasks. set (tt_prerequisiteIds task) \<inter> P \<noteq> {} \<longrightarrow> tt_id task \<in> P) \<longrightarrow> set blocked' \<subseteq> P"
      by blast
    then show ?thesis using False by (intro exI [of _ new]) (auto simp: list_ex_iff)
  qed
qed auto

lemma blockageLoop_spec:
  assumes "distinct blocked" "card (tt_id ` set tasks - set blocked) < fuel"
  shows "\<exists>result. blockageLoop fuel tasks blocked = Some result \<and> distinct result \<and> set result = blockedBy tasks (set blocked)"
  using assms
proof (induction fuel arbitrary: blocked)
  case (Suc fuel)
  obtain blocked' changed where round: "blockageRound tasks blocked False = (blocked', changed)" by (meson surj_pair)
  from blockageRound_spec [OF round] obtain new where new: "blocked' = blocked @ new" "set new \<subseteq> tt_id ` set tasks"
    "distinct blocked'" "changed = (new \<noteq> [])"
    "new = [] \<longrightarrow> (\<forall>task\<in>set tasks. set (tt_prerequisiteIds task) \<inter> set blocked \<noteq> {} \<longrightarrow> tt_id task \<in> set blocked)"
    and least: "\<And>P. set blocked \<subseteq> P \<Longrightarrow> (\<forall>task\<in>set tasks. set (tt_prerequisiteIds task) \<inter> P \<noteq> {} \<longrightarrow> tt_id task \<in> P) \<Longrightarrow> set blocked' \<subseteq> P"
    using Suc.prems(1) by blast
  have closed: "\<forall>task\<in>set tasks. set (tt_prerequisiteIds task) \<inter> blockedBy tasks X \<noteq> {} \<longrightarrow> tt_id task \<in> blockedBy tasks X" for X
    using blockedBy_depends [of _ _ tasks X] by (force simp: dependsRel_def)
  have within: "set blocked' \<subseteq> blockedBy tasks (set blocked)"
    using least [OF blockedBy_superset closed] .
  show ?case
  proof (cases "new = []")
    case True
    have "blockedBy tasks (set blocked) \<subseteq> set blocked"
      using new(5) True by (intro blockedBy_least) (auto simp: dependsRel_def)
    then show ?thesis
      using round new True Suc.prems(1) blockedBy_superset [of "set blocked" tasks] by auto
  next
    case False
    then have "\<exists>x\<in>set new. x \<in> tt_id ` set tasks - set blocked"
      using new(1-3) by (cases new) auto
    then have "tt_id ` set tasks - set blocked' \<subset> tt_id ` set tasks - set blocked" using new(1) by auto
    then have "card (tt_id ` set tasks - set blocked') < card (tt_id ` set tasks - set blocked)"
      by (intro psubset_card_mono) auto
    then obtain result where result: "blockageLoop fuel tasks blocked' = Some result" "distinct result"
      "set result = blockedBy tasks (set blocked')"
      using Suc.IH [OF new(3)] Suc.prems(2) by auto
    have "blockedBy tasks (set blocked') = blockedBy tasks (set blocked)"
    proof
      show "blockedBy tasks (set blocked') \<subseteq> blockedBy tasks (set blocked)"
        using within by (rule blockedBy_least) (rule blockedBy_depends)
      show "blockedBy tasks (set blocked) \<subseteq> blockedBy tasks (set blocked')"
        using blockedBy_superset [of "set blocked'" tasks] new(1) by (intro blockedBy_least) (auto intro: blockedBy_depends)
    qed
    then show ?thesis using round new(4) False result by simp
  qed
qed simp

definition terminalIds :: "TrackerTask list \<Rightarrow> TaskId set" where
  "terminalIds tasks = {t. \<exists>task\<in>set tasks. t = tt_id task \<and> tt_lifecycle task = TerminalWithoutSuccess}"

lemma blockage_exact:
  assumes "distinct (map tt_id tasks)"
  obtains facts where "runGraphTaskFactsOutcome tasks = Some facts"
    "distinct (gf_terminalTaskIds facts)" "set (gf_terminalTaskIds facts) = terminalIds tasks"
    "distinct (gf_blockedTaskIds facts)" "set (gf_blockedTaskIds facts) = blockedBy tasks (terminalIds tasks)"
    "gf_graphOutcome facts =
       (if \<forall>task\<in>set tasks. tt_lifecycle task = CompletedSuccessfully then AllTasksSucceeded
        else if terminalIds tasks \<noteq> {} \<and>
          (\<forall>task\<in>set tasks. tt_lifecycle task = CompletedSuccessfully \<or> tt_id task \<in> blockedBy tasks (terminalIds tasks))
        then GraphBlocked else GraphUnsettled)"
proof -
  define terminal where "terminal = sort (map tt_id (filter (\<lambda>task. tt_lifecycle task = TerminalWithoutSuccess) tasks))"
  have set: "set terminal = terminalIds tasks" by (auto simp: terminal_def terminalIds_def)
  then have nonempty: "length terminal > 0 \<longleftrightarrow> terminalIds tasks \<noteq> {}" by auto
  have dist: "distinct terminal" using assms by (simp add: terminal_def distinct_map_filter)
  have "card (tt_id ` set tasks - set (setFrom terminal)) \<le> card (tt_id ` set tasks)" by (intro card_mono) auto
  also have "\<dots> \<le> length tasks" by (metis card_length length_map set_map)
  finally obtain blocked where blocked: "blockageLoop (Suc (length tasks)) tasks (setFrom terminal) = Some blocked" "distinct blocked"
    "set blocked = blockedBy tasks (terminalIds tasks)"
    using blockageLoop_spec [of "setFrom terminal" tasks "Suc (length tasks)"] set by auto
  have "runGraphTaskFactsOutcome tasks = Some \<lparr>gf_graphOutcome =
      (if \<forall>task\<in>set tasks. tt_lifecycle task = CompletedSuccessfully then AllTasksSucceeded
       else if terminalIds tasks \<noteq> {} \<and>
         (\<forall>task\<in>set tasks. tt_lifecycle task = CompletedSuccessfully \<or> tt_id task \<in> blockedBy tasks (terminalIds tasks))
       then GraphBlocked else GraphUnsettled), gf_terminalTaskIds = terminal, gf_blockedTaskIds = sort blocked\<rparr>"
    unfolding runGraphTaskFactsOutcome_def Let_def terminal_def [symmetric] nonempty blocked(1) by (simp add: list_all_iff blocked(3))
  then show ?thesis
    by (rule that) (use dist set blocked in simp_all)
qed

section \<open>Finality of an accepted graph\<close>

definition unsuccessfulIds :: "TrackerSnapshot \<Rightarrow> TaskId set" where
  "unsuccessfulIds snap = terminalIds (ts_tasks snap)"

definition blockedIds :: "TrackerSnapshot \<Rightarrow> TaskId set" where
  "blockedIds snap = {t. \<exists>x\<in>unsuccessfulIds snap. (t, x) \<in> (prerequisiteRel snap)\<^sup>*}"

lemma runGraphFactsOutcome_accepted:
  assumes "graphLibraryLaws G" "accepted G snap s"
  obtains facts where "runGraphFactsOutcome G s = Some facts"
    "distinct (gf_terminalTaskIds facts)" "set (gf_terminalTaskIds facts) = unsuccessfulIds snap"
    "distinct (gf_blockedTaskIds facts)" "set (gf_blockedTaskIds facts) = blockedIds snap"
    "gf_graphOutcome facts =
       (if \<forall>task\<in>set (ts_tasks snap). tt_lifecycle task = CompletedSuccessfully then AllTasksSucceeded
        else if unsuccessfulIds snap \<noteq> {} \<and>
          (\<forall>task\<in>set (ts_tasks snap). tt_lifecycle task = CompletedSuccessfully \<or> tt_id task \<in> blockedIds snap)
        then GraphBlocked else GraphUnsettled)"
proof -
  let ?tasks = "map canonicalTask (sortedTasks snap)"
  have dist: "distinct (map tt_id ?tasks)"
    using accepted_facts(8) [OF assms(2)] by (simp add: comp_def)
  have rel: "dependsRel ?tasks = prerequisiteRel snap" by (simp add: dependsRel_def prerequisiteRel_UN)
  have terminal: "terminalIds ?tasks = unsuccessfulIds snap" by (auto simp: terminalIds_def unsuccessfulIds_def)
  have blocked: "blockedBy ?tasks (unsuccessfulIds snap) = blockedIds snap" by (simp add: blockedBy_def blockedIds_def rel)
  obtain facts where facts: "runGraphTaskFactsOutcome ?tasks = Some facts"
    "distinct (gf_terminalTaskIds facts)" "set (gf_terminalTaskIds facts) = terminalIds ?tasks"
    "distinct (gf_blockedTaskIds facts)" "set (gf_blockedTaskIds facts) = blockedBy ?tasks (terminalIds ?tasks)"
    "gf_graphOutcome facts =
       (if \<forall>task\<in>set ?tasks. tt_lifecycle task = CompletedSuccessfully then AllTasksSucceeded
        else if terminalIds ?tasks \<noteq> {} \<and>
          (\<forall>task\<in>set ?tasks. tt_lifecycle task = CompletedSuccessfully \<or> tt_id task \<in> blockedBy ?tasks (terminalIds ?tasks))
        then GraphBlocked else GraphUnsettled)"
    by (rule blockage_exact [OF dist])
  show ?thesis
  proof (rule that)
    show "runGraphFactsOutcome G s = Some facts"
      using facts(1) by (simp add: runGraphFactsOutcome_def toWire_accepted [OF assms])
  qed (use facts(2-6) in \<open>simp_all add: terminal blocked\<close>)
qed

lemma blockedIds_depends: "(t, p) \<in> prerequisiteRel snap \<Longrightarrow> p \<in> blockedIds snap \<Longrightarrow> t \<in> blockedIds snap"
  by (auto simp: blockedIds_def intro: converse_rtrancl_into_rtrancl)

lemma unblocked_has_eligible:
  assumes acc: "accepted G snap s" and task: "task \<in> set (ts_tasks snap)" "tt_lifecycle task \<noteq> CompletedSuccessfully"
    "tt_id task \<notin> blockedIds snap"
  shows "\<exists>u\<in>set (ts_tasks snap). taskEligible snap u"
proof -
  let ?Q = "{tt_id u |u. u \<in> set (ts_tasks snap) \<and> tt_lifecycle u \<noteq> CompletedSuccessfully \<and> tt_id u \<notin> blockedIds snap}"
  have "finite (prerequisiteRel snap)" by (simp add: prerequisiteRel_UN)
  then have "wf ((prerequisiteRel snap)\<inverse>)"
    using accepted_facts(5) [OF acc] by (simp add: finite_acyclic_wf acyclic_converse)
  moreover have "tt_id task \<in> ?Q" using task by auto
  ultimately obtain t where t: "t \<in> ?Q" "\<And>p. (p, t) \<in> (prerequisiteRel snap)\<inverse> \<Longrightarrow> p \<notin> ?Q"
    by (rule wfE_min) blast
  then obtain u where u: "u \<in> set (ts_tasks snap)" "t = tt_id u" "tt_lifecycle u \<noteq> CompletedSuccessfully" "tt_id u \<notin> blockedIds snap"
    by auto
  have "tt_lifecycle u \<noteq> TerminalWithoutSuccess"
    using u by (auto simp: blockedIds_def unsuccessfulIds_def terminalIds_def)
  then have "tt_lifecycle u = Open" using u(3) by (cases "tt_lifecycle u") auto
  moreover have "tt_lifecycle v = CompletedSuccessfully" if v: "v \<in> set (ts_tasks snap)" "tt_id v \<in> set (tt_prerequisiteIds u)" for v
  proof (rule ccontr)
    assume "tt_lifecycle v \<noteq> CompletedSuccessfully"
    moreover have edge: "(tt_id u, tt_id v) \<in> prerequisiteRel snap" using u(1) v(2) by (auto simp: prerequisiteRel_def)
    ultimately have "tt_id v \<in> blockedIds snap" using t(2) [of "tt_id v"] u(2) v(1) by auto
    then show False using blockedIds_depends [OF edge] u(4) by simp
  qed
  ultimately show ?thesis using u(1) by (auto simp: taskEligible_def)
qed

lemma blocked_not_eligible:
  assumes acc: "accepted G snap s"
    and success: "\<And>u v. u \<in> set (ts_tasks snap) \<Longrightarrow> v \<in> set (ts_tasks snap) \<Longrightarrow> tt_lifecycle u = CompletedSuccessfully \<Longrightarrow>
      tt_id v \<in> set (tt_prerequisiteIds u) \<Longrightarrow> tt_lifecycle v = CompletedSuccessfully"
    and task: "task \<in> set (ts_tasks snap)" "tt_id task \<in> blockedIds snap"
  shows "\<not> taskEligible snap task"
proof
  assume eligible: "taskEligible snap task"
  obtain x where x: "x \<in> set (ts_tasks snap)" "tt_lifecycle x = TerminalWithoutSuccess" "(tt_id task, tt_id x) \<in> (prerequisiteRel snap)\<^sup>*"
    using task(2) by (auto simp: blockedIds_def unsuccessfulIds_def terminalIds_def)
  have good: "tt_lifecycle v = CompletedSuccessfully"
    if "(t, tt_id v) \<in> (prerequisiteRel snap)\<^sup>*" "v \<in> set (ts_tasks snap)"
      "\<forall>u\<in>set (ts_tasks snap). tt_id u = t \<longrightarrow> tt_lifecycle u = CompletedSuccessfully" for t v
    using that(1,3)
  proof (induction rule: converse_rtrancl_induct)
    case base
    then show ?case using that(2) by blast
  next
    case (step t p)
    then obtain u where u: "u \<in> set (ts_tasks snap)" "t = tt_id u" "p \<in> set (tt_prerequisiteIds u)" by (auto simp: prerequisiteRel_def)
    then show ?case using step success [OF u(1)] by blast
  qed
  have "tt_id task \<noteq> tt_id x"
    using eligible x(1,2) task(1) accepted_unique [OF acc task(1) x(1)] by (auto simp: taskEligible_def)
  then obtain p where p: "(tt_id task, p) \<in> prerequisiteRel snap" "(p, tt_id x) \<in> (prerequisiteRel snap)\<^sup>*"
    using x(3) by (meson converse_rtranclE)
  have "p \<in> set (tt_prerequisiteIds task)"
    using p(1) accepted_unique [OF acc task(1)] by (auto simp: prerequisiteRel_def)
  then have "tt_lifecycle x = CompletedSuccessfully"
    using good [OF p(2) x(1)] eligible by (auto simp: taskEligible_def)
  then show False using x(2) by simp
qed

end
