(* ===== verification/Finality_Keys.thy ===== *)
theory Finality_Keys
  imports Run_Finality "HOL-Library.Multiset"
begin

text \<open>
  The identity keys that finality evidence is compared by are exact: the text of a target determines the target, and the
  length-prefixed text of a task set determines the multiset of its members. The escape of one code unit is checked over all 256
  of them; decoding is then determined from left to right.
\<close>

section \<open>JSON strings\<close>

definition escapeLength :: "string \<Rightarrow> nat" where
  "escapeLength s = (if hd s \<noteq> CHR 0x5C then 1 else if s ! 1 = CHR ''u'' then 6 else 2)"

definition unescape :: "string \<Rightarrow> char" where
  "unescape s =
     (if length s = 1 then hd s
      else if length s = 6 then char_of ((if s ! 4 = CHR ''1'' then 16 else 0) + (if isDigit (s ! 5) then digitVal (s ! 5) else of_char (s ! 5) - 87) :: nat)
      else if s ! 1 = CHR ''b'' then char_of (8 :: nat)
      else if s ! 1 = CHR ''t'' then char_of (9 :: nat)
      else if s ! 1 = CHR ''n'' then char_of (10 :: nat)
      else if s ! 1 = CHR ''f'' then char_of (12 :: nat)
      else if s ! 1 = CHR ''r'' then char_of (13 :: nat)
      else s ! 1)"

definition escapeOk :: "char \<Rightarrow> bool" where
  "escapeOk c \<longleftrightarrow> jsonEscape c \<noteq> [] \<and> length (jsonEscape c) = escapeLength (jsonEscape c) \<and>
     unescape (jsonEscape c) = c \<and> hd (jsonEscape c) \<noteq> CHR 0x22"

lemma escapeOk_plain:
  assumes "32 \<le> (of_char c :: nat)" "of_char c \<noteq> (34 :: nat)" "of_char c \<noteq> (92 :: nat)"
  shows "escapeOk c"
proof -
  have "c \<noteq> CHR 0x22" "c \<noteq> CHR 0x5C" using assms(2,3) by auto
  then show ?thesis
    using assms by (simp add: escapeOk_def escapeLength_def unescape_def jsonEscape_def Let_def)
qed

lemma escapeOk_special: "list_all escapeOk
  [CHR 0x00, CHR 0x01, CHR 0x02, CHR 0x03, CHR 0x04, CHR 0x05, CHR 0x06, CHR 0x07, CHR 0x08, CHR 0x09, CHR 0x0A, CHR 0x0B,
   CHR 0x0C, CHR 0x0D, CHR 0x0E, CHR 0x0F, CHR 0x10, CHR 0x11, CHR 0x12, CHR 0x13, CHR 0x14, CHR 0x15, CHR 0x16, CHR 0x17,
   CHR 0x18, CHR 0x19, CHR 0x1A, CHR 0x1B, CHR 0x1C, CHR 0x1D, CHR 0x1E, CHR 0x1F, CHR 0x22, CHR 0x5C]"
  by code_simp

lemma escapeOk_all: "escapeOk c"
proof (cases "32 \<le> (of_char c :: nat) \<and> of_char c \<noteq> (34 :: nat) \<and> of_char c \<noteq> (92 :: nat)")
  case True
  then show ?thesis by (intro escapeOk_plain) auto
next
  case False
  then have "(of_char c :: nat) \<in> set ([0..<32] @ [34, 92])" by auto
  then have "char_of (of_char c :: nat) \<in> char_of ` set ([0..<32] @ [34, 92])" by (rule imageI)
  moreover have "map char_of ([0..<32] @ [34, 92 :: nat]) =
    [CHR 0x00, CHR 0x01, CHR 0x02, CHR 0x03, CHR 0x04, CHR 0x05, CHR 0x06, CHR 0x07, CHR 0x08, CHR 0x09, CHR 0x0A, CHR 0x0B,
     CHR 0x0C, CHR 0x0D, CHR 0x0E, CHR 0x0F, CHR 0x10, CHR 0x11, CHR 0x12, CHR 0x13, CHR 0x14, CHR 0x15, CHR 0x16, CHR 0x17,
     CHR 0x18, CHR 0x19, CHR 0x1A, CHR 0x1B, CHR 0x1C, CHR 0x1D, CHR 0x1E, CHR 0x1F, CHR 0x22, CHR 0x5C]"
    by code_simp
  ultimately show ?thesis
    using escapeOk_special unfolding list_all_iff by (metis char_of_char set_map)
qed

lemma escape_inject:
  assumes "jsonEscape c @ x = jsonEscape d @ y"
  shows "c = d \<and> x = y"
proof -
  have first: "escapeLength (jsonEscape e @ z) = length (jsonEscape e)" for e z
  proof -
    have "jsonEscape e \<noteq> []" and len: "length (jsonEscape e) = escapeLength (jsonEscape e)"
      using escapeOk_all [of e] by (simp_all add: escapeOk_def)
    then show ?thesis by (cases "jsonEscape e") (auto simp: escapeLength_def nth_append split: if_splits)
  qed
  have "length (jsonEscape c) = length (jsonEscape d)" using first [of c x] first [of d y] assms by simp
  then have "jsonEscape c = jsonEscape d" "x = y" using assms by simp_all
  moreover have "unescape (jsonEscape c) = c" "unescape (jsonEscape d) = d" using escapeOk_all by (simp_all add: escapeOk_def)
  ultimately show ?thesis by metis
qed

lemma jsonString_inject: "jsonString s @ x = jsonString t @ y \<longleftrightarrow> s = t \<and> x = y"
proof
  have quote: "jsonEscape c @ z \<noteq> CHR 0x22 # z'" for c z z'
    using escapeOk_all [of c] by (cases "jsonEscape c") (auto simp: escapeOk_def)
  have "concat (map jsonEscape s) @ CHR 0x22 # x = concat (map jsonEscape t) @ CHR 0x22 # y \<Longrightarrow> s = t \<and> x = y"
  proof (induction s arbitrary: t)
    case Nil
    then show ?case using quote by (cases t) (auto simp: quote [symmetric] dest: sym)
  next
    case (Cons c s)
    then obtain d t' where t: "t = d # t'" using quote by (cases t) auto
    then show ?case using Cons escape_inject [of c _ d] by fastforce
  qed
  then show "jsonString s @ x = jsonString t @ y \<Longrightarrow> s = t \<and> x = y" by (simp add: jsonString_def)
qed simp

lemma jsonString_eq: "jsonString s = jsonString t \<longleftrightarrow> s = t"
  using jsonString_inject [of s "[]" t "[]"] by simp

lemma taskTrackerTargetKey_inject: "taskTrackerTargetKey a = taskTrackerTargetKey b \<longleftrightarrow> a = b"
proof -
  have comma: "CHR '','' \<notin> set (showNat n)" for n
    using showNat_digits [of "CHR '',''" n] by (auto simp: isDigit_def)
  have number: "showNat n @ '','' @ x = showNat m @ '','' @ y \<longleftrightarrow> n = m \<and> x = y" for n m x y
    using append_sep_inject_left [OF comma comma, of n x m y] by auto
  have mixed: "jsonString s \<noteq> CHR 0x7B # x" for s x by (simp add: jsonString_def)
  show ?thesis
    by (cases a; cases b)
      (auto simp: jsonString_eq jsonString_inject number mixed mixed [symmetric] simp del: append.simps(2) dest: sym)
qed

section \<open>Task sets and fact families\<close>

definition taskIdEntry :: "TaskId \<Rightarrow> string" where
  "taskIdEntry t = showNat (length t) @ CHR '':'' # t"

lemma taskIdEntry_inject: "taskIdEntry t @ x = taskIdEntry u @ y \<longleftrightarrow> t = u \<and> x = y"
proof
  assume "taskIdEntry t @ x = taskIdEntry u @ y"
  then have "showNat (length t) @ CHR '':'' # (t @ x) = showNat (length u) @ CHR '':'' # (u @ y)" by (simp add: taskIdEntry_def)
  then have "showNat (length t) = showNat (length u) \<and> t @ x = u @ y"
    by (rule append_sep_inject_left [rotated 2]) simp_all
  then show "t = u \<and> x = y" by (auto simp: append_eq_append_conv)
qed simp

lemma taskIdEntry_nonempty [simp]: "taskIdEntry t \<noteq> []" "[] \<noteq> taskIdEntry t"
  by (simp_all add: taskIdEntry_def)

lemma joinOn_entries_inject:
  "joinOn c (map taskIdEntry xs) = joinOn c (map taskIdEntry ys) \<Longrightarrow> xs = ys"
proof (induction xs arbitrary: ys)
  case Nil
  then show ?case by (cases ys rule: remdups_adj.cases) auto
next
  case (Cons t ts)
  then obtain u us where ys: "ys = u # us" using Cons.prems by (cases ys; cases ts) auto
  have split: "joinOn c (map taskIdEntry (v # vs)) = taskIdEntry v @ (if vs = [] then [] else c # joinOn c (map taskIdEntry vs))" for v vs
    by (cases vs) auto
  have "t = u \<and> (if ts = [] then [] else c # joinOn c (map taskIdEntry ts)) = (if us = [] then [] else c # joinOn c (map taskIdEntry us))"
    using Cons.prems unfolding ys split taskIdEntry_inject .
  then show ?case using Cons.IH [of us] ys by (auto split: if_splits)
qed

lemma exactTaskIdSetKey_exact: "exactTaskIdSetKey xs = exactTaskIdSetKey ys \<longleftrightarrow> mset xs = mset ys"
proof
  assume "exactTaskIdSetKey xs = exactTaskIdSetKey ys"
  then have "sort xs = sort ys"
    unfolding exactTaskIdSetKey_def taskIdEntry_def [symmetric] by (rule joinOn_entries_inject)
  then show "mset xs = mset ys" by (metis mset_sort)
next
  assume "mset xs = mset ys"
  then have "sort xs = sort ys" by (metis mset_sort properties_for_sort sorted_sort)
  then show "exactTaskIdSetKey xs = exactTaskIdSetKey ys" by (simp add: exactTaskIdSetKey_def)
qed

lemma splitOn_joinOn: "xs \<noteq> [] \<Longrightarrow> \<forall>x\<in>set xs. c \<notin> set x \<Longrightarrow> splitOn c (joinOn c xs) = xs"
proof (induction xs)
  case (Cons x xs)
  then show ?case by (cases xs) (simp_all add: splitOn_absent splitOn_sep)
qed simp

lemma exactStringSequenceKey_inject:
  assumes "\<forall>x\<in>set xs \<union> set ys. CHR 0x00 \<notin> set x" "xs \<noteq> []" "ys \<noteq> []"
  shows "exactStringSequenceKey xs = exactStringSequenceKey ys \<longleftrightarrow> xs = ys"
  using assms splitOn_joinOn [of xs "CHR 0x00"] splitOn_joinOn [of ys "CHR 0x00"] unfolding exactStringSequenceKey_def by (metis UnCI)

lemma families_exact:
  assumes "set xs \<subseteq> set requiredRunFinalityFactFamilies"
  shows "exactStringSequenceKey xs = exactStringSequenceKey requiredRunFinalityFactFamilies \<longleftrightarrow> xs = requiredRunFinalityFactFamilies"
proof (cases "xs = []")
  case True
  then show ?thesis by (simp add: requiredRunFinalityFactFamilies_def exactStringSequenceKey_def)
next
  case False
  have "\<forall>x\<in>set requiredRunFinalityFactFamilies. CHR 0x00 \<notin> set x" by (simp add: requiredRunFinalityFactFamilies_def)
  then show ?thesis
    using assms False by (intro exactStringSequenceKey_inject) (auto simp: requiredRunFinalityFactFamilies_def)
qed

section \<open>Evidence\<close>

definition expectationOf :: "'g RunFinalityInput \<Rightarrow> RunFinalityExpectation" where
  "expectationOf input =
     \<lparr>fx_runId = fi_runId input, fx_target = fi_target input, fx_operationId = fi_operationId input,
      fx_observedAt = fi_observedAt input, fx_revision = ds_revision (fi_snapshot input),
      fx_readShapeTaskIds = fi_readShapeTaskIds input, fx_rootTaskId = fi_rootTaskId input\<rparr>"

lemma evidence_made:
  assumes laws: "graphLibraryLaws G" and acc: "accepted G snap (fi_snapshot input)"
    and shape: "distinct (fi_readShapeTaskIds input)" and root: "fi_rootTaskId input \<noteq> []"
  obtains evidence where "makeRunFinalityEvidence G input = Some evidence" "validRunFinalityEvidence evidence"
    "runFinalityEvidenceMatches evidence (expectationOf input)"
    "set (fe_terminalTaskIds evidence) = unsuccessfulIds snap" "set (fe_blockedTaskIds evidence) = blockedIds snap"
proof -
  obtain facts where facts: "runGraphFactsOutcome G (fi_snapshot input) = Some facts"
    "distinct (gf_terminalTaskIds facts)" "set (gf_terminalTaskIds facts) = unsuccessfulIds snap"
    "distinct (gf_blockedTaskIds facts)" "set (gf_blockedTaskIds facts) = blockedIds snap"
    "gf_graphOutcome facts =
       (if \<forall>task\<in>set (ts_tasks snap). tt_lifecycle task = CompletedSuccessfully then AllTasksSucceeded
        else if unsuccessfulIds snap \<noteq> {} \<and>
          (\<forall>task\<in>set (ts_tasks snap). tt_lifecycle task = CompletedSuccessfully \<or> tt_id task \<in> blockedIds snap)
        then GraphBlocked else GraphUnsettled)"
    by (rule runGraphFactsOutcome_accepted [OF laws acc])
  have sub: "unsuccessfulIds snap \<subseteq> blockedIds snap" by (auto simp: blockedIds_def)
  have blocked: "gf_graphOutcome facts = GraphBlocked \<Longrightarrow> gf_terminalTaskIds facts \<noteq> [] \<and> gf_blockedTaskIds facts \<noteq> []"
    using facts(3,5,6) sub by (auto split: if_splits)
  have success: "gf_graphOutcome facts = AllTasksSucceeded \<Longrightarrow> unsuccessfulIds snap = {}"
    using facts(6) by (force simp: unsuccessfulIds_def terminalIds_def split: if_splits)
  have empty: "gf_graphOutcome facts = AllTasksSucceeded \<Longrightarrow> gf_terminalTaskIds facts = [] \<and> gf_blockedTaskIds facts = []"
    using success facts(3,5) by (simp add: blockedIds_def)
  define evidence where "evidence =
    \<lparr>fe_complete = True, fe_coverageTarget = fi_target input, fe_coverageTaskIds = fi_readShapeTaskIds input,
     fe_contentIdentity = ds_revision (fi_snapshot input), fe_graphOutcome = gf_graphOutcome facts,
     fe_operationId = fi_operationId input, fe_readShapeTaskIds = fi_readShapeTaskIds input,
     fe_requiredFactFamilies = requiredRunFinalityFactFamilies, fe_rootTaskId = fi_rootTaskId input,
     fe_runId = fi_runId input, fe_blockedTaskIds = gf_blockedTaskIds facts, fe_target = fi_target input,
     fe_terminalTaskIds = gf_terminalTaskIds facts, fe_observedAt = fi_observedAt input\<rparr>"
  have valid: "validRunFinalityEvidence evidence"
    using blocked empty shape root facts(2,4)
    by (auto simp: evidence_def validRunFinalityEvidence_def runFinalityEvidenceIssue_def)
  show ?thesis
  proof (rule that)
    show "makeRunFinalityEvidence G input = Some evidence"
      using valid by (simp add: makeRunFinalityEvidence_def facts(1) evidence_def)
    show "runFinalityEvidenceMatches evidence (expectationOf input)"
      by (simp add: runFinalityEvidenceMatches_def expectationOf_def evidence_def)
  qed (use valid facts(3,5) in \<open>simp_all add: evidence_def\<close>)
qed

end
