(* ===== verification/Graph_Properties.thy ===== *)
theory Graph_Properties
  imports Finality_Keys
begin

text \<open>
  The properties of the task graph and of run finality, for any graph library with the documented behaviour
  (\<open>graphLibraryLaws\<close>), and the list-backed library \<open>listGraph\<close> on which every one of them is shown on concrete tasks.
\<close>

section \<open>A list-backed graph library\<close>

type_synonym ListGraph = "(nat \<times> TaskGraphNode) list \<times> GraphEdge list"

fun expandIndexes :: "nat \<Rightarrow> GraphEdge list \<Rightarrow> nat list \<Rightarrow> nat list" where
  "expandIndexes 0 edges seen = seen"
| "expandIndexes (Suc n) edges seen =
     (case List.find (\<lambda>e. ge_source e \<in> set seen \<and> ge_target e \<notin> set seen) edges of
        None \<Rightarrow> seen
      | Some e \<Rightarrow> expandIndexes n edges (seen @ [ge_target e]))"

definition listGraph :: "ListGraph GraphLibrary" where
  "listGraph =
     \<lparr>gl_directed = ([], []),
      gl_addNode = (\<lambda>(nodes, edges) node. let index = Suc (sum_list (map fst nodes)) in (index, (nodes @ [(index, node)], edges))),
      gl_addEdge = (\<lambda>(nodes, edges) s t d. (nodes, edges @ [\<lparr>ge_source = s, ge_target = t, ge_data = d\<rparr>])),
      gl_nodes = fst,
      gl_getNode = (\<lambda>(nodes, edges) i. map_of nodes i),
      gl_edges = snd,
      gl_filterEdges = (\<lambda>(nodes, edges) P. (nodes, filter (\<lambda>e. P (ge_data e)) edges)),
      gl_bfs = (\<lambda>(nodes, edges) starts.
        map (\<lambda>i. (i, the (map_of nodes i))) (expandIndexes (length edges) edges starts))\<rparr>"

lemma expandIndexes_spec:
  assumes "distinct seen" "card (ge_target ` set edges - set seen) \<le> n"
  shows "distinct (expandIndexes n edges seen) \<and> set (expandIndexes n edges seen) = (graphEdgeRel edges)\<^sup>* `` set seen"
  using assms
proof (induction n arbitrary: seen)
  case 0
  then have "ge_target ` set edges \<subseteq> set seen" by simp
  then have "graphEdgeRel edges `` set seen \<subseteq> set seen" by (auto simp: graphEdgeRel_def)
  then show ?case using 0 by (simp add: Image_closed_trancl)
next
  case (Suc n)
  show ?case
  proof (cases "List.find (\<lambda>e. ge_source e \<in> set seen \<and> ge_target e \<notin> set seen) edges")
    case None
    then have "graphEdgeRel edges `` set seen \<subseteq> set seen" by (auto simp: graphEdgeRel_def find_None_iff)
    then show ?thesis using Suc.prems(1) None by (simp add: Image_closed_trancl)
  next
    case (Some e)
    then have e: "e \<in> set edges" "ge_source e \<in> set seen" "ge_target e \<notin> set seen" by (auto dest: find_SomeD)
    then have "ge_target ` set edges - set (seen @ [ge_target e]) = (ge_target ` set edges - set seen) - {ge_target e}" by auto
    moreover have "ge_target e \<in> ge_target ` set edges - set seen" using e by auto
    ultimately have "card (ge_target ` set edges - set (seen @ [ge_target e])) \<le> n"
      using Suc.prems(2) by (simp add: card_Diff_singleton)
    moreover have "(graphEdgeRel edges)\<^sup>* `` set (seen @ [ge_target e]) = (graphEdgeRel edges)\<^sup>* `` set seen"
    proof -
      have "(ge_source e, ge_target e) \<in> graphEdgeRel edges" using e(1) by (auto simp: graphEdgeRel_def)
      then show ?thesis using e(2) by (auto intro: converse_rtrancl_into_rtrancl)
    qed
    ultimately show ?thesis using Suc.IH [of "seen @ [ge_target e]"] Suc.prems(1) e(3) Some by simp
  qed
qed

lemma rtrancl_within: "(s, t) \<in> R\<^sup>* \<Longrightarrow> R \<subseteq> A \<times> A \<Longrightarrow> s \<in> A \<Longrightarrow> t \<in> A"
  by (induction rule: rtrancl_induct) auto

lemma listGraph_laws: "graphLibraryLaws listGraph"
proof -
  have fresh: "Suc (sum_list (map fst nodes)) \<notin> fst ` set nodes" for nodes :: "(nat \<times> TaskGraphNode) list"
    using member_le_sum_list [of _ "map fst nodes"] by force
  have bfs: "distinct (map fst (gl_bfs listGraph g [s])) \<and> set (gl_bfs listGraph g [s]) \<subseteq> set (gl_nodes listGraph g) \<and>
      fst ` set (gl_bfs listGraph g [s]) = (graphEdgeRel (gl_edges listGraph g))\<^sup>* `` {s}"
    if known: "s \<in> fst ` set (gl_nodes listGraph g)"
      and closed: "graphEdgeRel (gl_edges listGraph g) \<subseteq> fst ` set (gl_nodes listGraph g) \<times> fst ` set (gl_nodes listGraph g)" for g s
  proof (cases g)
    case (Pair nodes edges)
    have within: "i \<in> fst ` set nodes" if "(s, i) \<in> (graphEdgeRel edges)\<^sup>*" for i
      using rtrancl_within [OF that] known closed by (simp add: listGraph_def Pair)
    have node: "(i, the (map_of nodes i)) \<in> set nodes" if known: "i \<in> fst ` set nodes" for i
    proof -
      obtain n where "map_of nodes i = Some n" using known by (cases "map_of nodes i") (auto simp: map_of_eq_None_iff)
      then show ?thesis by (simp add: map_of_SomeD)
    qed
    have "card (ge_target ` set edges - set [s]) \<le> card (ge_target ` set edges)" by (intro card_mono) auto
    also have "\<dots> \<le> length edges" using card_image_le [of "set edges" ge_target] card_length [of edges] by simp
    finally have found: "distinct (expandIndexes (length edges) edges [s])"
      "set (expandIndexes (length edges) edges [s]) = (graphEdgeRel edges)\<^sup>* `` {s}"
      using expandIndexes_spec [of "[s]" edges "length edges"] by simp_all
    have "gl_bfs listGraph g [s] = map (\<lambda>i. (i, the (map_of nodes i))) (expandIndexes (length edges) edges [s])"
      by (simp add: listGraph_def Pair)
    then show ?thesis
      using node within found by (auto simp: listGraph_def Pair comp_def image_image)
  qed
  show ?thesis
    unfolding graphLibraryLaws_def
  proof (intro conjI allI)
    fix g :: ListGraph and s
    show "s \<in> fst ` set (gl_nodes listGraph g) \<longrightarrow>
      graphEdgeRel (gl_edges listGraph g) \<subseteq> fst ` set (gl_nodes listGraph g) \<times> fst ` set (gl_nodes listGraph g) \<longrightarrow>
      distinct (map fst (gl_bfs listGraph g [s])) \<and> set (gl_bfs listGraph g [s]) \<subseteq> set (gl_nodes listGraph g) \<and>
      fst ` set (gl_bfs listGraph g [s]) = (graphEdgeRel (gl_edges listGraph g))\<^sup>* `` {s}"
      using bfs by blast
  qed (use fresh in \<open>auto simp: listGraph_def Let_def split: prod.splits\<close>)
qed

section \<open>Concrete tasks\<close>

definition demoTask :: "string \<Rightarrow> TaskLifecycle \<Rightarrow> string option \<Rightarrow> string list \<Rightarrow> TrackerTask" where
  "demoTask t lifecycle parent prerequisites =
     \<lparr>tt_descriptor = None, tt_id = t, tt_lifecycle = lifecycle, tt_parentTaskId = parent, tt_prerequisiteIds = prerequisites\<rparr>"

definition demoTasks :: "TrackerTask list" where
  "demoTasks = [demoTask ''d'' Open (Some ''r'') [''b'', ''a''], demoTask ''r'' Open None [],
     demoTask ''a'' CompletedSuccessfully (Some ''r'') [], demoTask ''b'' Open (Some ''r'') [''a'']]"

definition demoSnapshot :: TrackerSnapshot where
  "demoSnapshot = \<lparr>ts_revision = ''v1'', ts_rootTaskId = Some ''r'', ts_tasks = demoTasks\<rparr>"

definition cyclicRecords :: TaskRecords where
  "cyclicRecords = [(''a'', demoTask ''a'' Open None [''b'']), (''b'', demoTask ''b'' Open None [''a'']),
     (''c'', demoTask ''c'' Open None [''a''])]"

definition validProjection :: "'g ProjectionResult option \<Rightarrow> bool" where
  "validProjection result = (case result of Some (Valid s) \<Rightarrow> True | _ \<Rightarrow> False)"

definition demoDag :: "ListGraph TaskDagSnapshot" where
  "demoDag = (case projectTasks listGraph demoSnapshot of Some (Valid s) \<Rightarrow> s |
     _ \<Rightarrow> \<lparr>ds_revision = [], ds_rootTaskId = None, ds_graph = ([], []), ds_nodeIndexByTaskId = []\<rparr>)"

lemma demo_valid: "projectTasks listGraph demoSnapshot = Some (Valid demoDag)"
proof -
  have "validProjection (projectTasks listGraph demoSnapshot)" by code_simp
  then show ?thesis by (auto simp: validProjection_def demoDag_def split: option.splits ProjectionResult.splits)
qed

lemma valid_accepted:
  assumes "graphLibraryLaws G" "projectTasks G snap = Some (Valid s)"
  shows "accepted G snap s"
  using projectTasks_iff [OF assms(1), of snap] assms(2) by auto

section \<open>Cycle detection\<close>

text \<open>
  C5. Cycle detection is exact. On the graph of any task records the search always returns, and it reports, each once and in
  order of identity, exactly the sets of two or more tasks that reach each other through the chosen relation: no cycle is missed and no
  task outside a cycle is named.
\<close>

theorem cycle_search_exact:
  assumes "graphLibraryLaws G" "distinct (map fst recs)"
  shows "\<exists>rep cs. taskGraphRepresentationFrom G recs = Some rep \<and> cycleTaskIds G (gr_graph rep) r = Some cs \<and> distinct cs \<and>
    set cs = {sorted_list_of_set C |C t. t \<in> fst ` set recs \<and> C \<noteq> {t} \<and>
      C = {u. (t, u) \<in> (relationPairs recs r)\<^sup>* \<and> (u, t) \<in> (relationPairs recs r)\<^sup>*}}"
proof -
  obtain rep where rep: "taskGraphRepresentationFrom G recs = Some rep" "represents G recs (gr_graph rep) (gr_nodeIndexByTaskId rep)"
    using representation_exists [OF assms] by blast
  obtain cs where cs: "cycleTaskIds G (gr_graph rep) r = Some cs" "distinct cs"
    "set cs = {sorted_list_of_set (stronglyConnected recs r t) |t. t \<in> fst ` set recs \<and> stronglyConnected recs r t \<noteq> {t}}"
    by (rule cycleTaskIds_represents [OF assms(1) rep(2)])
  have "set cs = {sorted_list_of_set C |C t. t \<in> fst ` set recs \<and> C \<noteq> {t} \<and> C = stronglyConnected recs r t}"
    unfolding cs(3) by blast
  then show ?thesis using rep(1) cs(1,2) by (simp add: stronglyConnected_def)
qed

lemma cyclic_found:
  "(case taskGraphRepresentationFrom listGraph cyclicRecords of
      Some rep \<Rightarrow> cycleTaskIds listGraph (gr_graph rep) Prerequisite | None \<Rightarrow> None) = Some [[''a'', ''b'']]"
  by code_simp

theorem cycle_search_exact_witness:
  "graphLibraryLaws listGraph \<and> distinct (map fst cyclicRecords) \<and>
   (\<exists>C t. [''a'', ''b''] = sorted_list_of_set C \<and> t \<in> fst ` set cyclicRecords \<and>
      C = {u. (t, u) \<in> (relationPairs cyclicRecords Prerequisite)\<^sup>* \<and> (u, t) \<in> (relationPairs cyclicRecords Prerequisite)\<^sup>*})"
proof -
  have dist: "distinct (map fst cyclicRecords)" by (simp add: cyclicRecords_def)
  obtain rep cs where "taskGraphRepresentationFrom listGraph cyclicRecords = Some rep"
    "cycleTaskIds listGraph (gr_graph rep) Prerequisite = Some cs"
    and set: "set cs = {sorted_list_of_set C |C t. t \<in> fst ` set cyclicRecords \<and> C \<noteq> {t} \<and>
      C = {u. (t, u) \<in> (relationPairs cyclicRecords Prerequisite)\<^sup>* \<and> (u, t) \<in> (relationPairs cyclicRecords Prerequisite)\<^sup>*}}"
    using cycle_search_exact [OF listGraph_laws dist, of Prerequisite] by blast
  then have "cs = [[''a'', ''b'']]" using cyclic_found by simp
  then have "[''a'', ''b''] \<in> set cs" by simp
  then show ?thesis using set dist listGraph_laws by blast
qed

section \<open>Projection\<close>

text \<open>
  C6. Projection accepts exactly the well-formed snapshots. For every decoded tracker snapshot the projection returns, without a
  throw and without running out of fuel; it answers Valid exactly when task identities are unique, prerequisites are unique,
  every prerequisite, parent and root names a task of the snapshot, and neither relation has a cycle; otherwise it answers Invalid with at
  least one issue. A valid snapshot lists the tasks in order of identity and answers every task's lifecycle, prerequisites and parent
  as they were read.
\<close>

theorem projection_exact:
  assumes "graphLibraryLaws G"
  shows "\<exists>result. projectTasks G snap = Some result \<and>
    (case result of
       Invalid issues \<Rightarrow> issues \<noteq> [] \<and> \<not> wellFormedSnapshot snap
     | Valid s \<Rightarrow> wellFormedSnapshot snap \<and> taskIdsOf G s = map tt_id (sort_key tt_id (ts_tasks snap)) \<and>
         (\<forall>task\<in>set (ts_tasks snap).
            lifecycleOf G s (tt_id task) = Some (tt_lifecycle task) \<and>
            prerequisitesOf G s (tt_id task) = Some (sort (tt_prerequisiteIds task)) \<and>
            parentTaskIdOf G s (tt_id task) = Some (Some (tt_parentTaskId task))))"
proof -
  have "wellFormedSnapshot snap \<and> taskIdsOf G s = map tt_id (sort_key tt_id (ts_tasks snap)) \<and>
      (\<forall>task\<in>set (ts_tasks snap). lifecycleOf G s (tt_id task) = Some (tt_lifecycle task) \<and>
        prerequisitesOf G s (tt_id task) = Some (sort (tt_prerequisiteIds task)) \<and>
        parentTaskIdOf G s (tt_id task) = Some (Some (tt_parentTaskId task)))" if acc: "accepted G snap s" for s
    using acc taskIdsOf_accepted [OF acc] lifecycleOf_accepted [OF assms acc] prerequisitesOf_accepted [OF assms acc]
      parentTaskIdOf_accepted [OF assms acc]
    by (simp add: accepted_def sortedTasks_def sortedTaskIds_def)
  then show ?thesis using projectTasks_iff [OF assms, of snap] by force
qed

theorem projection_exact_witness:
  "graphLibraryLaws listGraph \<and> projectTasks listGraph demoSnapshot = Some (Valid demoDag) \<and> wellFormedSnapshot demoSnapshot \<and>
   taskIdsOf listGraph demoDag = [''a'', ''b'', ''d'', ''r'']"
proof -
  have order: "map tt_id (sort_key tt_id (ts_tasks demoSnapshot)) = [''a'', ''b'', ''d'', ''r'']" by code_simp
  from projection_exact [OF listGraph_laws, of demoSnapshot]
  show ?thesis using demo_valid listGraph_laws by (simp add: order)
qed

section \<open>Topological order\<close>

text \<open>
  C26. The topological order is total and respects prerequisites. For every valid snapshot the ordering loop ends, lists every task
  exactly once, and puts every prerequisite of a task before it.
\<close>

theorem topological_order_correct:
  assumes "graphLibraryLaws G" "projectTasks G snap = Some (Valid s)"
  shows "\<exists>order. topologicalOrder G s = Some order \<and> distinct order \<and> set order = tt_id ` set (ts_tasks snap) \<and>
    (\<forall>i<length order. \<forall>task\<in>set (ts_tasks snap). tt_id task = order ! i \<longrightarrow> set (tt_prerequisiteIds task) \<subseteq> set (take i order))"
  using topologicalOrder_accepted [OF assms(1) valid_accepted [OF assms]] .

theorem topological_order_correct_witness:
  "graphLibraryLaws listGraph \<and> projectTasks listGraph demoSnapshot = Some (Valid demoDag) \<and>
   (\<exists>order. topologicalOrder listGraph demoDag = Some order \<and> distinct order \<and> set order = {''a'', ''b'', ''d'', ''r''})"
proof -
  have "tt_id ` set (ts_tasks demoSnapshot) = {''a'', ''b'', ''d'', ''r''}"
    by (auto simp: demoSnapshot_def demoTasks_def demoTask_def)
  then show ?thesis
    using topological_order_correct [OF listGraph_laws demo_valid] demo_valid listGraph_laws by auto
qed

section \<open>Wire form\<close>

text \<open>
  C27. The wire form is canonical. The wire form of a valid snapshot projects to a valid snapshot again, with the same wire form, and
  every tracker snapshot with the same revision and the same tasks, in any order, gives that wire form too.
\<close>

theorem wire_roundtrip:
  assumes "graphLibraryLaws G" "projectTasks G snap = Some (Valid s)"
    "set tasks = set (ts_tasks snap)" "length tasks = length (ts_tasks snap)"
  shows "\<exists>wire s' s''. toWire G s = Some wire \<and>
    projectTaskDagWire G (Inr wire) = Some (Valid s') \<and> toWire G s' = Some wire \<and>
    projectTasks G (snap\<lparr>ts_tasks := tasks\<rparr>) = Some (Valid s'') \<and> toWire G s'' = Some wire"
proof -
  note acc = valid_accepted [OF assms(1,2)]
  note dist = accepted_facts(1) [OF acc]
  let ?wire = "\<lparr>tw_schemaVersion = 1, tw_revision = ts_revision snap, tw_tasks = map canonicalTask (sortedTasks snap)\<rparr>"
  let ?again = "\<lparr>ts_revision = ts_revision snap, ts_rootTaskId = None, ts_tasks = map canonicalTask (sortedTasks snap)\<rparr>"
  let ?perm = "snap\<lparr>ts_tasks := tasks\<rparr>"
  have wf: "wellFormedSnapshot snap" using acc by (simp add: accepted_def)
  have "wellFormedSnapshot ?again"
    using accepted_facts(8) [OF acc] by (intro wellFormed_canonical [OF wf]) (simp_all add: comp_def)
  then obtain s' where s': "projectTasks G ?again = Some (Valid s')" "accepted G ?again s'"
    using projectTasks_iff [OF assms(1), of ?again] by blast
  have "distinct tasks" using dist assms(3,4) by (metis card_distinct distinct_card distinct_map)
  then have dist': "distinct (map tt_id tasks)" using dist assms(3) by (simp add: distinct_map)
  then have "wellFormedSnapshot ?perm"
    using wf assms(3) by (simp add: wellFormedSnapshot_def prerequisiteRel_def parentRel_def)
  then obtain s'' where s'': "projectTasks G ?perm = Some (Valid s'')" "accepted G ?perm s''"
    using projectTasks_iff [OF assms(1), of ?perm] by blast
  have "sortedTasks ?again = map canonicalTask (sortedTasks snap)"
    using sortedTasks_canonical(1) [OF dist] by (simp add: sortedTasks_def)
  then have "toWire G s' = Some ?wire"
    using toWire_accepted [OF assms(1) s'(2)] sortedTasks_canonical(2) [OF dist] by simp
  moreover have "sortedTasks ?perm = sortedTasks snap"
    using sort_key_perm [OF dist assms(3) dist'] by (simp add: sortedTasks_def)
  then have "toWire G s'' = Some ?wire"
    using toWire_accepted [OF assms(1) s''(2)] by simp
  ultimately show ?thesis
    using toWire_accepted [OF assms(1) acc] s'(1) s''(1)
    by (simp add: projectTaskDagWire_def projectDecodedSnapshot_def)
qed

theorem wire_roundtrip_witness:
  "graphLibraryLaws listGraph \<and> projectTasks listGraph demoSnapshot = Some (Valid demoDag) \<and> rev demoTasks \<noteq> demoTasks \<and>
   (\<exists>wire s''. toWire listGraph demoDag = Some wire \<and>
      projectTasks listGraph (demoSnapshot\<lparr>ts_tasks := rev demoTasks\<rparr>) = Some (Valid s'') \<and> toWire listGraph s'' = Some wire)"
proof -
  have "set (rev demoTasks) = set (ts_tasks demoSnapshot)" "length (rev demoTasks) = length (ts_tasks demoSnapshot)"
    by (simp_all add: demoSnapshot_def)
  then show ?thesis
    using wire_roundtrip [OF listGraph_laws demo_valid, of "rev demoTasks"] demo_valid listGraph_laws
    by (auto simp: demoTasks_def demoTask_def)
qed

section \<open>Run finality\<close>

text \<open>
  C25. An unsettled run can progress. The blockage loop of a valid snapshot ends. When it leaves the graph Unsettled, some
  task is eligible to run; when the graph has succeeded, none is; and when it is Blocked, none is either, provided no task was recorded as
  successful over an unsuccessful prerequisite. A Blocked graph names at least one task that ended without success.
\<close>

theorem run_progress:
  assumes "graphLibraryLaws G" "projectTasks G snap = Some (Valid s)"
  shows "\<exists>facts ids. runGraphFactsOutcome G s = Some facts \<and> eligibleTaskIds G s = Some ids \<and>
    (gf_graphOutcome facts = GraphUnsettled \<longrightarrow> ids \<noteq> []) \<and>
    (gf_graphOutcome facts = AllTasksSucceeded \<longrightarrow> ids = []) \<and>
    (gf_graphOutcome facts = GraphBlocked \<longrightarrow> gf_terminalTaskIds facts \<noteq> []) \<and>
    (gf_graphOutcome facts = GraphBlocked \<longrightarrow>
      (\<forall>u\<in>set (ts_tasks snap). \<forall>v\<in>set (ts_tasks snap). tt_lifecycle u = CompletedSuccessfully \<longrightarrow>
         tt_id v \<in> set (tt_prerequisiteIds u) \<longrightarrow> tt_lifecycle v = CompletedSuccessfully) \<longrightarrow> ids = [])"
proof -
  note acc = valid_accepted [OF assms]
  obtain facts where facts: "runGraphFactsOutcome G s = Some facts"
    "distinct (gf_terminalTaskIds facts)" "set (gf_terminalTaskIds facts) = unsuccessfulIds snap"
    "distinct (gf_blockedTaskIds facts)" "set (gf_blockedTaskIds facts) = blockedIds snap"
    "gf_graphOutcome facts =
       (if \<forall>task\<in>set (ts_tasks snap). tt_lifecycle task = CompletedSuccessfully then AllTasksSucceeded
        else if unsuccessfulIds snap \<noteq> {} \<and>
          (\<forall>task\<in>set (ts_tasks snap). tt_lifecycle task = CompletedSuccessfully \<or> tt_id task \<in> blockedIds snap)
        then GraphBlocked else GraphUnsettled)"
    by (rule runGraphFactsOutcome_accepted [OF assms(1) acc])
  define ids where "ids = map tt_id (filter (taskEligible snap) (sortedTasks snap))"
  have elig: "eligibleTaskIds G s = Some ids"
    using eligibleTaskIds_accepted [OF assms(1) acc] by (simp add: ids_def)
  have none: "ids = [] \<longleftrightarrow> (\<forall>task\<in>set (ts_tasks snap). \<not> taskEligible snap task)"
    by (simp add: ids_def filter_empty_conv)
  have "ids \<noteq> []" if "gf_graphOutcome facts = GraphUnsettled"
  proof -
    have "\<exists>task\<in>set (ts_tasks snap). tt_lifecycle task \<noteq> CompletedSuccessfully \<and> tt_id task \<notin> blockedIds snap"
      using that facts(6) by (auto simp: blockedIds_def split: if_splits)
    then show ?thesis using unblocked_has_eligible [OF acc] none by blast
  qed
  moreover have "ids = []" if "gf_graphOutcome facts = AllTasksSucceeded"
    using that facts(6) unfolding none by (auto simp: taskEligible_def split: if_splits)
  moreover have "gf_terminalTaskIds facts \<noteq> []" if "gf_graphOutcome facts = GraphBlocked"
    using that facts(3,6) by (auto split: if_splits)
  moreover have "ids = []" if blocked: "gf_graphOutcome facts = GraphBlocked"
    and success: "\<forall>u\<in>set (ts_tasks snap). \<forall>v\<in>set (ts_tasks snap). tt_lifecycle u = CompletedSuccessfully \<longrightarrow>
      tt_id v \<in> set (tt_prerequisiteIds u) \<longrightarrow> tt_lifecycle v = CompletedSuccessfully"
  proof -
    have "\<not> taskEligible snap task" if task: "task \<in> set (ts_tasks snap)" for task
    proof (cases "tt_id task \<in> blockedIds snap")
      case True
      then show ?thesis using blocked_not_eligible [OF acc _ task] success by blast
    next
      case False
      then show ?thesis using blocked facts(6) task by (auto simp: taskEligible_def split: if_splits)
    qed
    then show ?thesis by (simp add: none)
  qed
  ultimately show ?thesis using facts(1) elig by blast
qed

lemma demo_unsettled:
  "map_option gf_graphOutcome (runGraphFactsOutcome listGraph demoDag) = Some GraphUnsettled"
  by code_simp

theorem run_progress_witness:
  "graphLibraryLaws listGraph \<and> projectTasks listGraph demoSnapshot = Some (Valid demoDag) \<and>
   (\<exists>facts ids. runGraphFactsOutcome listGraph demoDag = Some facts \<and> gf_graphOutcome facts = GraphUnsettled \<and>
      eligibleTaskIds listGraph demoDag = Some ids \<and> ids \<noteq> [])"
  using run_progress [OF listGraph_laws demo_valid] demo_unsettled demo_valid listGraph_laws by auto

text \<open>
  C29. Finality evidence is well typed and exact. For every valid snapshot, a duplicate-free read shape and a named root, building the
  evidence never throws: the value passes its own schema check, names exactly the unsuccessful and the blocked tasks, and is
  accepted at the termination boundary exactly for the same run, target, operation, position, revision and root and the same set of
  covered tasks.
\<close>

theorem finality_evidence_exact:
  assumes "graphLibraryLaws G" "projectTasks G snap = Some (Valid (fi_snapshot input))"
    "distinct (fi_readShapeTaskIds input)" "fi_rootTaskId input \<noteq> []"
  shows "\<exists>evidence. makeRunFinalityEvidence G input = Some evidence \<and> validRunFinalityEvidence evidence \<and>
    set (fe_terminalTaskIds evidence) = unsuccessfulIds snap \<and> set (fe_blockedTaskIds evidence) = blockedIds snap \<and>
    (\<forall>expected. runFinalityEvidenceMatches evidence expected \<longleftrightarrow>
       fx_runId expected = fi_runId input \<and> fx_target expected = fi_target input \<and>
       fx_operationId expected = fi_operationId input \<and> fx_observedAt expected = fi_observedAt input \<and>
       fx_revision expected = ts_revision snap \<and> fx_rootTaskId expected = fi_rootTaskId input \<and>
       mset (fx_readShapeTaskIds expected) = mset (fi_readShapeTaskIds input))"
proof -
  note acc = valid_accepted [OF assms(1,2)]
  obtain evidence where evidence: "makeRunFinalityEvidence G input = Some evidence" "validRunFinalityEvidence evidence"
    "runFinalityEvidenceMatches evidence (expectationOf input)"
    "set (fe_terminalTaskIds evidence) = unsuccessfulIds snap" "set (fe_blockedTaskIds evidence) = blockedIds snap"
    by (rule evidence_made [OF assms(1) acc assms(3,4)])
  have revision: "ds_revision (fi_snapshot input) = ts_revision snap" using acc by (simp add: accepted_def)
  have "runFinalityEvidenceMatches evidence expected \<longleftrightarrow>
       fx_runId expected = fi_runId input \<and> fx_target expected = fi_target input \<and>
       fx_operationId expected = fi_operationId input \<and> fx_observedAt expected = fi_observedAt input \<and>
       fx_revision expected = ts_revision snap \<and> fx_rootTaskId expected = fi_rootTaskId input \<and>
       mset (fx_readShapeTaskIds expected) = mset (fi_readShapeTaskIds input)" for expected
    using evidence(3)
    by (auto simp: runFinalityEvidenceMatches_def expectationOf_def taskTrackerTargetKey_inject exactTaskIdSetKey_exact revision)
  then show ?thesis using evidence by blast
qed

definition demoFinalityInput :: "ListGraph RunFinalityInput" where
  "demoFinalityInput =
     \<lparr>fi_runId = ''run-1'', fi_target = GithubIssue 7 ''octo'' ''repo'', fi_operationId = ''read-1'', fi_observedAt = 4,
      fi_snapshot = demoDag, fi_readShapeTaskIds = [''b'', ''a''], fi_rootTaskId = ''r''\<rparr>"

theorem finality_evidence_exact_witness:
  "graphLibraryLaws listGraph \<and> projectTasks listGraph demoSnapshot = Some (Valid (fi_snapshot demoFinalityInput)) \<and>
   (\<exists>evidence. makeRunFinalityEvidence listGraph demoFinalityInput = Some evidence \<and> validRunFinalityEvidence evidence \<and>
      runFinalityEvidenceMatches evidence
        \<lparr>fx_runId = ''run-1'', fx_target = GithubIssue 7 ''octo'' ''repo'', fx_operationId = ''read-1'', fx_observedAt = 4,
         fx_revision = ''v1'', fx_readShapeTaskIds = [''a'', ''b''], fx_rootTaskId = ''r''\<rparr> \<and>
      \<not> runFinalityEvidenceMatches evidence
        \<lparr>fx_runId = ''run-1'', fx_target = GithubIssue 7 ''octo'' ''repo'', fx_operationId = ''read-1'', fx_observedAt = 5,
         fx_revision = ''v1'', fx_readShapeTaskIds = [''a'', ''b''], fx_rootTaskId = ''r''\<rparr>)"
proof -
  have valid: "projectTasks listGraph demoSnapshot = Some (Valid (fi_snapshot demoFinalityInput))"
    using demo_valid by (simp add: demoFinalityInput_def)
  have shape: "distinct (fi_readShapeTaskIds demoFinalityInput)" "fi_rootTaskId demoFinalityInput \<noteq> []"
    by (simp_all add: demoFinalityInput_def)
  from finality_evidence_exact [OF listGraph_laws valid shape]
  show ?thesis
    using valid listGraph_laws by (auto simp: demoFinalityInput_def demoSnapshot_def add_mset_commute)
qed

end
