(* ===== verification/Request_Circuit.thy ===== *)
theory Request_Circuit
  imports Prelude
begin

text \<open>
  The request circuit (\<^verbatim>\<open>control/request-circuit.ts\<close>): one process-local state that admits or refuses request starts over a
  sliding window with a cooldown. \<open>admit\<close> is the function of its \<open>Ref.modify\<close>, a bigint is an \<open>int\<close>. The proof groups the
  admitted starts into bursts, one per cooldown: within a burst the window is respected, and bursts are a cooldown apart
  (\<open>burstInv\<close>).
\<close>

section \<open>The circuit\<close>

record RequestCircuitPolicy =
  rp_maxRequests :: nat
  rp_windowNanos :: int
  rp_cooldownNanos :: int

record RequestCircuitState =
  rq_openUntil :: "int option"
  rq_requests :: "int list"

definition emptyCircuit :: RequestCircuitState where
  "emptyCircuit = \<lparr>rq_openUntil = None, rq_requests = []\<rparr>"

definition admitRequest :: "RequestCircuitPolicy \<Rightarrow> int \<Rightarrow> RequestCircuitState \<Rightarrow> bool \<times> RequestCircuitState" where
  "admitRequest policy now current =
     (let recent = filter (\<lambda>startedAt. now - startedAt < rp_windowNanos policy) (rq_requests current) in
      if (case rq_openUntil current of None \<Rightarrow> False | Some openUntil \<Rightarrow> now < openUntil)
      then (False, current\<lparr>rq_requests := recent\<rparr>)
      else
        (let available = (if rq_openUntil current = None then recent else []) in
         if length available \<ge> rp_maxRequests policy
         then (False, \<lparr>rq_openUntil = Some (now + rp_cooldownNanos policy), rq_requests = recent\<rparr>)
         else (True, \<lparr>rq_openUntil = None, rq_requests = available @ [now]\<rparr>)))"

definition runRequest ::
  "RequestCircuitPolicy \<Rightarrow> ('o \<Rightarrow> 'f) \<Rightarrow> int \<Rightarrow> 'o \<Rightarrow> ('w, 'f, 'a) effect \<Rightarrow> (RequestCircuitState \<times> 'w, 'f, 'a) effect" where
  "runRequest policy onOpen now operation request =
     (\<lambda>(current, w).
        let (admitted, current') = admitRequest policy now current in
        if \<not> admitted then (Inl (onOpen operation), (current', w))
        else (let (result, w') = request w in (result, (current', w'))))"

definition githubRequestCircuitPolicy :: RequestCircuitPolicy where
  "githubRequestCircuitPolicy =
     \<lparr>rp_maxRequests = 120, rp_windowNanos = 60 * 1000000000, rp_cooldownNanos = 30 * 1000000000\<rparr>"

definition codexRequestCircuitPolicy :: RequestCircuitPolicy where
  "codexRequestCircuitPolicy =
     \<lparr>rp_maxRequests = 240, rp_windowNanos = 60 * 1000000000, rp_cooldownNanos = 30 * 1000000000\<rparr>"

text \<open>The starts that a sequence of clock readings, one per request, leads to.\<close>

fun admittedStarts :: "RequestCircuitPolicy \<Rightarrow> int list \<Rightarrow> RequestCircuitState \<Rightarrow> int list" where
  "admittedStarts policy [] current = []"
| "admittedStarts policy (now # readings) current =
     (let (admitted, current') = admitRequest policy now current in
      (if admitted then [now] else []) @ admittedStarts policy readings current')"

section \<open>Bursts\<close>

definition inWindow :: "int \<Rightarrow> int \<Rightarrow> int list \<Rightarrow> nat" where
  "inWindow lo hi xs = length (filter (\<lambda>x. lo \<le> x \<and> x < hi) xs)"

lemma inWindow_simps [simp]:
  "inWindow lo hi [] = 0" "inWindow lo hi (xs @ ys) = inWindow lo hi xs + inWindow lo hi ys"
  "inWindow lo hi [x] = (if lo \<le> x \<and> x < hi then 1 else 0)"
  by (simp_all add: inWindow_def)

lemma inWindow_mono: "lo' \<le> lo \<Longrightarrow> hi \<le> hi' \<Longrightarrow> inWindow lo hi xs \<le> inWindow lo' hi' xs"
  unfolding inWindow_def by (induction xs) auto

definition apart :: "int \<Rightarrow> int list \<Rightarrow> int list \<Rightarrow> bool" where
  "apart c xs ys \<longleftrightarrow> (\<forall>x\<in>set xs. \<forall>y\<in>set ys. x + c \<le> y)"

lemma bursts_in_window:
  assumes "sorted_wrt (apart c) bursts" "\<forall>xs\<in>set bursts. \<forall>a. inWindow a (a + w) xs \<le> m" "hi - lo \<le> w" "hi - lo \<le> int k * c"
  shows "inWindow lo hi (concat bursts) \<le> k * m"
  using assms
proof (induction bursts arbitrary: lo k)
  case (Cons xs bursts)
  show ?case
  proof (cases "\<exists>x\<in>set xs. lo \<le> x \<and> x < hi")
    case False
    then have "inWindow lo hi xs = 0" by (auto simp: inWindow_def filter_empty_conv)
    then show ?thesis using Cons.IH [of lo k] Cons.prems by simp
  next
    case True
    then obtain x where x: "x \<in> set xs" "lo \<le> x" "x < hi" by blast
    then obtain k' where k: "k = Suc k'" using Cons.prems(4) by (cases k) auto
    show ?thesis
    proof (cases "0 \<le> c")
      case True
      have late: "lo + c \<le> y" if "y \<in> set (concat bursts)" for y
        using that Cons.prems(1) x(1,2) by (force simp: apart_def)
      then have "inWindow lo hi (concat bursts) = inWindow (lo + c) hi (concat bursts)"
        using True unfolding inWindow_def by (intro arg_cong [where f = length] filter_cong) force+
      also have "\<dots> \<le> k' * m"
        using Cons.prems True k by (intro Cons.IH) (auto simp: algebra_simps)
      finally have "inWindow lo hi (concat bursts) \<le> k' * m" .
      moreover have "inWindow lo hi xs \<le> m"
      proof -
        have "inWindow lo hi xs \<le> inWindow lo (lo + w) xs" using Cons.prems(3) by (intro inWindow_mono) auto
        also have "\<dots> \<le> m" using Cons.prems(2) by simp
        finally show ?thesis .
      qed
      ultimately show ?thesis using k by simp
    next
      case False
      then have "int k * c \<le> 0" by (simp add: mult_nonneg_nonpos)
      then show ?thesis using Cons.prems(4) x(2,3) by linarith
    qed
  qed
qed simp

definition burstInv :: "RequestCircuitPolicy \<Rightarrow> int \<Rightarrow> RequestCircuitState \<Rightarrow> int list list \<Rightarrow> int list \<Rightarrow> bool" where
  "burstInv policy now st earlier current \<longleftrightarrow>
     (\<forall>x\<in>set (concat (earlier @ [current])). x \<le> now) \<and>
     (\<forall>xs\<in>set (earlier @ [current]). \<forall>a. inWindow a (a + rp_windowNanos policy) xs \<le> rp_maxRequests policy) \<and>
     sorted_wrt (apart (rp_cooldownNanos policy)) (earlier @ [current]) \<and> (current = [] \<longrightarrow> earlier = []) \<and>
     (case rq_openUntil st of
        None \<Rightarrow> rq_requests st = filter (\<lambda>x. now - x < rp_windowNanos policy) current
      | Some until \<Rightarrow> \<forall>x\<in>set (concat (earlier @ [current])). x + rp_cooldownNanos policy \<le> until)"

lemma burst_extended:
  assumes "\<forall>x\<in>set xs. x \<le> now" "length (filter (\<lambda>x. now - x < w) xs) < m" "inWindow a (a + w) xs \<le> m"
  shows "inWindow a (a + w) (xs @ [now]) \<le> m"
proof (cases "a \<le> now \<and> now < a + w")
  case True
  have "filter (\<lambda>x. a \<le> x \<and> x < a + w) xs = filter (\<lambda>x. a \<le> x \<and> x < a + w) (filter (\<lambda>x. now - x < w) xs)"
    using True by (auto simp: filter_eq_Cons_iff intro!: filter_cong)
  then have "inWindow a (a + w) xs \<le> length (filter (\<lambda>x. now - x < w) xs)"
    unfolding inWindow_def by (metis length_filter_le)
  then show ?thesis using assms(2) by simp
qed (use assms(3) in auto)

lemma burst_refused:
  assumes "burstInv policy now st earlier current" "now \<le> now'" "rq_openUntil st' = Some until"
    "\<forall>x\<in>set (concat (earlier @ [current])). x + rp_cooldownNanos policy \<le> until"
  shows "\<exists>earlier' current'. burstInv policy now' st' earlier' current' \<and>
    concat (earlier' @ [current']) = concat (earlier @ [current])"
proof -
  have "\<forall>x\<in>set (concat (earlier @ [current])). x \<le> now'"
    using assms(1,2) unfolding burstInv_def by (meson order_trans)
  then have "burstInv policy now' st' earlier current"
    using assms unfolding burstInv_def by (simp del: concat_append set_concat set_append)
  then show ?thesis by blast
qed

lemma burst_elapsed:
  assumes "burstInv policy now st earlier current" "now \<le> now'"
  shows "\<forall>x\<in>set (concat (earlier @ [current])). x + rp_cooldownNanos policy \<le> now' + rp_cooldownNanos policy"
  using assms unfolding burstInv_def by (meson add_right_mono order_trans)

lemma admit_burst:
  assumes inv: "burstInv policy now st earlier current" and later: "now \<le> now'" and w: "0 < rp_windowNanos policy"
    and admit: "admitRequest policy now' st = (admitted, st')"
  shows "\<exists>earlier' current'. burstInv policy now' st' earlier' current' \<and>
    concat (earlier' @ [current']) = concat (earlier @ [current]) @ (if admitted then [now'] else [])"
proof (cases "rq_openUntil st")
  note le = burst_elapsed [OF inv later, unfolded add_le_cancel_right]
  case None
  define recent where "recent = filter (\<lambda>x. now' - x < rp_windowNanos policy) current"
  have recent: "filter (\<lambda>x. now' - x < rp_windowNanos policy) (rq_requests st) = recent"
    using inv None later unfolding burstInv_def recent_def by (auto intro!: filter_cong)
  show ?thesis
  proof (cases "length recent \<ge> rp_maxRequests policy")
    case True
    then have "admitted = False" "rq_openUntil st' = Some (now' + rp_cooldownNanos policy)"
      using admit None recent by (auto simp: admitRequest_def Let_def)
    then show ?thesis using burst_refused [OF inv later _ burst_elapsed [OF inv later]] by simp
  next
    case False
    then have out: "admitted = True" "st' = \<lparr>rq_openUntil = None, rq_requests = recent @ [now']\<rparr>"
      using admit None recent by (simp_all add: admitRequest_def Let_def)
    have "burstInv policy now' st' earlier (current @ [now'])"
      unfolding burstInv_def
    proof (intro conjI)
      show "\<forall>x\<in>set (concat (earlier @ [current @ [now']])). x \<le> now'" using le by auto
      have "inWindow a (a + rp_windowNanos policy) (current @ [now']) \<le> rp_maxRequests policy" for a
        using le False inv by (intro burst_extended) (auto simp: recent_def burstInv_def)
      then show "\<forall>xs\<in>set (earlier @ [current @ [now']]). \<forall>a. inWindow a (a + rp_windowNanos policy) xs \<le> rp_maxRequests policy"
        using inv unfolding burstInv_def by auto
      have "x + rp_cooldownNanos policy \<le> now'" if x: "xs \<in> set earlier" "x \<in> set xs" for xs x
      proof -
        obtain y where "y \<in> set current" using inv x(1) unfolding burstInv_def by (cases current) auto
        then have "x + rp_cooldownNanos policy \<le> y" "y \<le> now" using inv x unfolding burstInv_def by (auto simp: sorted_wrt_append apart_def)
        then show ?thesis using later by simp
      qed
      then show "sorted_wrt (apart (rp_cooldownNanos policy)) (earlier @ [current @ [now']])"
        using inv unfolding burstInv_def by (auto simp: sorted_wrt_append apart_def)
    qed (use out w in \<open>auto simp: recent_def\<close>)
    then show ?thesis using out by (intro exI [of _ earlier] exI [of _ "current @ [now']"]) auto
  qed
next
  note le = burst_elapsed [OF inv later, unfolded add_le_cancel_right]
  case (Some until)
  have bound: "\<forall>x\<in>set (concat (earlier @ [current])). x + rp_cooldownNanos policy \<le> until"
    using inv Some unfolding burstInv_def by simp
  consider "now' < until" | "until \<le> now'" "rp_maxRequests policy = 0" | "until \<le> now'" "0 < rp_maxRequests policy" by force
  then show ?thesis
  proof cases
    case 1
    then have "admitted = False" "rq_openUntil st' = Some until"
      using admit Some by (auto simp: admitRequest_def Let_def)
    then show ?thesis using burst_refused [OF inv later _ bound] by simp
  next
    case 2
    then have "admitted = False" "rq_openUntil st' = Some (now' + rp_cooldownNanos policy)"
      using admit Some by (auto simp: admitRequest_def Let_def)
    then show ?thesis using burst_refused [OF inv later _ burst_elapsed [OF inv later]] by simp
  next
    case 3
    then have out: "admitted = True" "st' = \<lparr>rq_openUntil = None, rq_requests = [now']\<rparr>"
      using admit Some by (auto simp: admitRequest_def Let_def)
    have "burstInv policy now' st' (earlier @ [current]) [now']"
      unfolding burstInv_def
    proof (intro conjI)
      show "\<forall>x\<in>set (concat ((earlier @ [current]) @ [[now']])). x \<le> now'" using le by auto
      have new: "apart (rp_cooldownNanos policy) xs [now']" if "xs \<in> set (earlier @ [current])" for xs
        unfolding apart_def using that bound 3(1) by (auto intro: order_trans [of _ until])
      show "sorted_wrt (apart (rp_cooldownNanos policy)) ((earlier @ [current]) @ [[now']])"
        using inv new by (simp add: burstInv_def sorted_wrt_append)
    qed (use inv out w 3 in \<open>auto simp: burstInv_def\<close>)
    then show ?thesis using out by (intro exI [of _ "earlier @ [current]"] exI [of _ "[now']"]) auto
  qed
qed

lemma admittedStarts_bursts:
  assumes "burstInv policy now st earlier current" "sorted (now # readings)" "0 < rp_windowNanos policy"
  shows "\<exists>now' st' earlier' current'. burstInv policy now' st' earlier' current' \<and>
    concat (earlier' @ [current']) = concat (earlier @ [current]) @ admittedStarts policy readings st"
  using assms
proof (induction readings arbitrary: now st earlier current)
  case (Cons now' readings)
  obtain admitted st' where admit: "admitRequest policy now' st = (admitted, st')" by (meson surj_pair)
  obtain earlier' current' where step: "burstInv policy now' st' earlier' current'"
    "concat (earlier' @ [current']) = concat (earlier @ [current]) @ (if admitted then [now'] else [])"
    using admit_burst [OF Cons.prems(1) _ Cons.prems(3) admit] Cons.prems(2) by auto
  then show ?case
    using Cons.IH [OF step(1)] Cons.prems(2,3) admit by (fastforce split: if_splits)
qed (fastforce)

lemma admittedStarts_bounded:
  assumes "sorted readings" "0 < rp_windowNanos policy" "rp_windowNanos policy \<le> int k * rp_cooldownNanos policy"
  shows "inWindow a (a + rp_windowNanos policy) (admittedStarts policy readings emptyCircuit) \<le> k * rp_maxRequests policy"
proof (cases readings)
  case (Cons first rest)
  have start: "burstInv policy first emptyCircuit [] []"
    by (simp add: burstInv_def emptyCircuit_def)
  obtain now st earlier current where bursts: "burstInv policy now st earlier current"
    "concat (earlier @ [current]) = admittedStarts policy readings emptyCircuit"
    using admittedStarts_bursts [OF start, of readings] assms(1,2) Cons by auto
  then show ?thesis
    using bursts_in_window [of "rp_cooldownNanos policy" "earlier @ [current]" "rp_windowNanos policy" "rp_maxRequests policy"
        "a + rp_windowNanos policy" a k] assms(3)
    unfolding burstInv_def by simp
qed simp

section \<open>Properties\<close>

text \<open>
  C40. Request starts are bounded. For any monotone clock and any requests, a circuit whose window is at most \<open>k\<close> cooldowns long
  admits at most \<open>k\<close> times its maximum in any interval of one window; and a refused request fails with the driver's failure and
  never runs the transport.
\<close>

theorem request_circuit_bounded:
  assumes "sorted readings" "0 < rp_windowNanos policy" "rp_windowNanos policy \<le> int k * rp_cooldownNanos policy"
  shows "length (filter (\<lambda>t. a \<le> t \<and> t < a + rp_windowNanos policy) (admittedStarts policy readings emptyCircuit)) \<le> k * rp_maxRequests policy \<and>
    (\<forall>now current w. \<not> fst (admitRequest policy now current) \<longrightarrow>
       runRequest policy onOpen now operation request (current, w) =
         (Inl (onOpen operation), (snd (admitRequest policy now current), w)))"
  using admittedStarts_bounded [OF assms, of a] by (auto simp: inWindow_def runRequest_def split: prod.splits)

theorem request_circuit_bounded_witness:
  "sorted [0, 1, 30 * 1000000000 + 1 :: int] \<and> 0 < rp_windowNanos githubRequestCircuitPolicy \<and>
   rp_windowNanos githubRequestCircuitPolicy \<le> int 2 * rp_cooldownNanos githubRequestCircuitPolicy \<and>
   length (filter (\<lambda>t. 0 \<le> t \<and> t < 0 + rp_windowNanos githubRequestCircuitPolicy)
     (admittedStarts githubRequestCircuitPolicy [0, 1, 30 * 1000000000 + 1] emptyCircuit))
     \<le> 2 * rp_maxRequests githubRequestCircuitPolicy"
proof -
  have side: "sorted [0, 1, 30 * 1000000000 + 1 :: int]" "0 < rp_windowNanos githubRequestCircuitPolicy"
    "rp_windowNanos githubRequestCircuitPolicy \<le> int 2 * rp_cooldownNanos githubRequestCircuitPolicy"
    by (simp_all add: githubRequestCircuitPolicy_def)
  show ?thesis
    using side request_circuit_bounded [OF side, of 0 id "()" "\<lambda>w. (Inl (), w)"] by blast
qed

text \<open>
  The factor \<open>k\<close> is reached with the production window and cooldown: a cooldown shorter than the window forgets the
  exhausted burst while it is still inside the window, so a maximum of one admits two starts within one window.
\<close>

lemma request_window_exceeded:
  "admittedStarts (githubRequestCircuitPolicy\<lparr>rp_maxRequests := 1\<rparr>) [0, 1, 30 * 1000000000 + 1] emptyCircuit = [0, 30 * 1000000000 + 1]"
  "(30 * 1000000000 + 1) - 0 < rp_windowNanos githubRequestCircuitPolicy"
  by (simp_all add: githubRequestCircuitPolicy_def emptyCircuit_def admitRequest_def)

end
