(* ===== verification/Target_Resource.thy ===== *)
theory Target_Resource
  imports Finality_Keys "HOL-Library.AList"
begin

text \<open>
  The process-local owner of integration targets (\<^verbatim>\<open>coordination/admission/integration-target-resource.ts\<close>). Its four shared cells
  (leases, accepted and active ownership, change counter) are one record. An operation is a first transition, with the answer or the
  defect it ends in, and the list of atomic actions it still has to perform; fibers interleave them in \<open>target_step\<close>. A semaphore of one
  permit is a number: it is taken while it is in \<open>tr_taken\<close>.
\<close>

section \<open>Shared state\<close>

record IntegrationTargetResourceResponsibility =
  rr_integrationTarget :: IntegrationTarget
  rr_plannedAttempt :: PlannedTaskAttempt
  rr_queuedAt :: JournalPosition

record IntegrationTargetResourceLease =
  tl_identity :: IntegrationResponsibilityIdentity
  tl_permit :: nat
  tl_target :: IntegrationTarget

record IntegrationTargetResourceLeases =
  ls_byTarget :: "(string \<times> IntegrationTargetResourceLease) list"
  ls_targetByResponsibility :: "(string \<times> string) list"

record IntegrationTargetResourceOwnership =
  ow_identity :: IntegrationResponsibilityIdentity
  ow_targetKey :: string

datatype IntegrationTargetResourceError =
    IntegrationTargetResourceUnavailable IntegrationResponsibilityIdentity IntegrationResponsibilityIdentity IntegrationTarget
  | IntegrationResponsibilityTargetMismatch IntegrationTarget IntegrationResponsibilityIdentity IntegrationTarget
  | ResourceDefect string

datatype IntegrationTargetResourceAcquisitionConflict =
    IdentityTargetMismatch IntegrationTarget
  | InvalidBinding
  | TargetUnavailable IntegrationTargetResourceLease

record TargetResources =
  tr_leases :: IntegrationTargetResourceLeases
  tr_accepted :: "(string \<times> IntegrationTargetResourceOwnership) list"
  tr_active :: "(string \<times> IntegrationTargetResourceOwnership) list"
  tr_changeRevision :: nat
  tr_nextPermit :: nat
  tr_taken :: "nat list"

record IntegrationTargetResourceSnapshot =
  sn_activeResponsibilities :: "IntegrationResponsibilityIdentity list"
  sn_heldResponsibilities :: "IntegrationResponsibilityIdentity list"

definition integrationResponsibilityIdentityKey :: "IntegrationResponsibilityIdentity \<Rightarrow> string" where
  "integrationResponsibilityIdentityKey identity =
     ''['' @ jsonString (ri_runId identity) @ '','' @ showNat (ri_queuedAt identity) @ '']''"

definition integrationTargetKey :: "IntegrationTarget \<Rightarrow> string" where
  "integrationTargetKey target = ''['' @ jsonString (it_repository target) @ '','' @ jsonString (it_ref target) @ '']''"

abbreviation resourceIdentity :: "IntegrationTargetResourceResponsibility \<Rightarrow> IntegrationResponsibilityIdentity" where
  "resourceIdentity r \<equiv> integrationResponsibilityIdentity (rr_plannedAttempt r) (rr_queuedAt r)"

abbreviation identityKeyOf :: "IntegrationTargetResourceResponsibility \<Rightarrow> string" where
  "identityKeyOf r \<equiv> integrationResponsibilityIdentityKey (resourceIdentity r)"

abbreviation targetKeyOf :: "IntegrationTargetResourceResponsibility \<Rightarrow> string" where
  "targetKeyOf r \<equiv> integrationTargetKey (rr_integrationTarget r)"

definition emptyLeases :: IntegrationTargetResourceLeases where
  "emptyLeases = \<lparr>ls_byTarget = [], ls_targetByResponsibility = []\<rparr>"

definition makeTargetResources :: TargetResources where
  "makeTargetResources =
     \<lparr>tr_leases = emptyLeases, tr_accepted = [], tr_active = [], tr_changeRevision = 0, tr_nextPermit = 0, tr_taken = []\<rparr>"

definition withoutKey :: "'k \<Rightarrow> ('k \<times> 'v) list \<Rightarrow> ('k \<times> 'v) list" where
  "withoutKey key entries = filter (\<lambda>(candidate, _). candidate \<noteq> key) entries"

section \<open>Operations\<close>

definition acquireTransition ::
  "IntegrationTargetResourceResponsibility \<Rightarrow> nat \<Rightarrow> IntegrationTargetResourceLeases \<Rightarrow>
   IntegrationTargetResourceAcquisitionConflict option \<times> IntegrationTargetResourceLeases" where
  "acquireTransition responsibility permit current =
     (let key = targetKeyOf responsibility;
          identityKey = identityKeyOf responsibility;
          existing = map_of (ls_byTarget current) key;
          claim =
            (case existing of
               Some lease \<Rightarrow>
                 if integrationResponsibilityIdentityKey (tl_identity lease) = identityKey then (None, current)
                 else (Some (TargetUnavailable lease), current)
             | None \<Rightarrow>
                 (None,
                  \<lparr>ls_byTarget =
                     AList.update key
                       \<lparr>tl_identity = resourceIdentity responsibility, tl_permit = permit, tl_target = rr_integrationTarget responsibility\<rparr>
                       (ls_byTarget current),
                   ls_targetByResponsibility = AList.update identityKey key (ls_targetByResponsibility current)\<rparr>))
      in case map_of (ls_targetByResponsibility current) identityKey of
           Some boundTargetKey \<Rightarrow>
             if boundTargetKey \<noteq> key
             then (case map_of (ls_byTarget current) boundTargetKey of
                     None \<Rightarrow> (Some InvalidBinding, current)
                   | Some boundLease \<Rightarrow> (Some (IdentityTargetMismatch (tl_target boundLease)), current))
             else claim
         | None \<Rightarrow> claim)"

definition acquireTarget ::
  "IntegrationTargetResourceResponsibility \<Rightarrow> (TargetResources, IntegrationTargetResourceError, unit) effect" where
  "acquireTarget responsibility s =
     (let identity = resourceIdentity responsibility;
          (conflict, leases) = acquireTransition responsibility (tr_nextPermit s) (tr_leases s);
          s' = s\<lparr>tr_leases := leases, tr_nextPermit := Suc (tr_nextPermit s)\<rparr>
      in case conflict of
           Some InvalidBinding \<Rightarrow> (Inl (ResourceDefect ''integration responsibility target binding was invalid''), s')
         | Some (IdentityTargetMismatch acquiredTarget) \<Rightarrow>
             (Inl (IntegrationResponsibilityTargetMismatch acquiredTarget identity (rr_integrationTarget responsibility)), s')
         | Some (TargetUnavailable lease) \<Rightarrow>
             (Inl (IntegrationTargetResourceUnavailable (tl_identity lease) identity (rr_integrationTarget responsibility)), s')
         | None \<Rightarrow> (Inr (), s'))"

text \<open>What an operation still has to do after its first access to the leases.\<close>

datatype TargetAction =
    RemoveAccepted string
  | SetAccepted string IntegrationTargetResourceOwnership
  | ClearAccepted
  | TakePermit nat
  | SetActive string IntegrationTargetResourceOwnership
  | RunEffect
  | RemoveActive string
  | GivePermit nat
  | ClearActive
  | PublishChange

definition exactLease :: "IntegrationTargetResourceLeases \<Rightarrow> IntegrationTargetResourceResponsibility \<Rightarrow> IntegrationTargetResourceLease option" where
  "exactLease current responsibility =
     (case map_of (ls_byTarget current) (targetKeyOf responsibility) of
        None \<Rightarrow> None
      | Some lease \<Rightarrow>
          if map_of (ls_targetByResponsibility current) (identityKeyOf responsibility) = Some (targetKeyOf responsibility) \<and>
             integrationResponsibilityIdentityKey (tl_identity lease) = identityKeyOf responsibility
          then Some lease else None)"

definition ownershipOf :: "IntegrationTargetResourceResponsibility \<Rightarrow> IntegrationTargetResourceOwnership" where
  "ownershipOf responsibility = \<lparr>ow_identity = resourceIdentity responsibility, ow_targetKey = targetKeyOf responsibility\<rparr>"

definition releaseTransition ::
  "IntegrationTargetResourceResponsibility \<Rightarrow> IntegrationTargetResourceLeases \<Rightarrow> bool \<times> IntegrationTargetResourceLeases" where
  "releaseTransition responsibility current =
     (case exactLease current responsibility of
        None \<Rightarrow> (False, current)
      | Some _ \<Rightarrow>
          (True, \<lparr>ls_byTarget = withoutKey (targetKeyOf responsibility) (ls_byTarget current),
                  ls_targetByResponsibility = withoutKey (identityKeyOf responsibility) (ls_targetByResponsibility current)\<rparr>))"

definition releaseTarget :: "IntegrationTargetResourceResponsibility \<Rightarrow> TargetResources \<Rightarrow> TargetAction list \<times> TargetResources" where
  "releaseTarget responsibility s =
     (let (released, leases) = releaseTransition responsibility (tr_leases s) in
      (if released then [RemoveAccepted (identityKeyOf responsibility), PublishChange] else [], s\<lparr>tr_leases := leases\<rparr>))"

definition publishAcceptedOwnership ::
  "IntegrationTargetResourceResponsibility \<Rightarrow> TargetResources \<Rightarrow> IntegrationTargetResourceError + TargetAction list" where
  "publishAcceptedOwnership responsibility s =
     (case exactLease (tr_leases s) responsibility of
        None \<Rightarrow> Inl (ResourceDefect ''accepted integration ownership requires its exact acquired responsibility'')
      | Some _ \<Rightarrow> Inr [SetAccepted (identityKeyOf responsibility) (ownershipOf responsibility), PublishChange])"

definition withPermit ::
  "IntegrationTargetResourceResponsibility \<Rightarrow> TargetResources \<Rightarrow> IntegrationTargetResourceError + TargetAction list" where
  "withPermit responsibility s =
     (case exactLease (tr_leases s) responsibility of
        None \<Rightarrow> Inl (ResourceDefect ''integration target permit requires its exact held responsibility'')
      | Some lease \<Rightarrow>
          Inr [TakePermit (tl_permit lease), SetActive (identityKeyOf responsibility) (ownershipOf responsibility), PublishChange,
               RunEffect, RemoveActive (identityKeyOf responsibility), PublishChange, GivePermit (tl_permit lease)])"

definition releaseAll :: "TargetResources \<Rightarrow> TargetAction list \<times> TargetResources" where
  "releaseAll s = ([ClearAccepted, ClearActive, PublishChange], s\<lparr>tr_leases := emptyLeases\<rparr>)"

text \<open>One action on the shared state; \<open>None\<close> while its semaphore has no permit left.\<close>

fun performAction :: "TargetAction \<Rightarrow> TargetResources \<Rightarrow> TargetResources option" where
  "performAction (RemoveAccepted key) s = Some (s\<lparr>tr_accepted := withoutKey key (tr_accepted s)\<rparr>)"
| "performAction (SetAccepted key ownership) s = Some (s\<lparr>tr_accepted := AList.update key ownership (tr_accepted s)\<rparr>)"
| "performAction ClearAccepted s = Some (s\<lparr>tr_accepted := []\<rparr>)"
| "performAction (TakePermit permit) s =
     (if permit \<in> set (tr_taken s) then None else Some (s\<lparr>tr_taken := permit # tr_taken s\<rparr>))"
| "performAction (SetActive key ownership) s = Some (s\<lparr>tr_active := AList.update key ownership (tr_active s)\<rparr>)"
| "performAction RunEffect s = Some s"
| "performAction (RemoveActive key) s = Some (s\<lparr>tr_active := withoutKey key (tr_active s)\<rparr>)"
| "performAction (GivePermit permit) s = Some (s\<lparr>tr_taken := removeAll permit (tr_taken s)\<rparr>)"
| "performAction ClearActive s = Some (s\<lparr>tr_active := []\<rparr>)"
| "performAction PublishChange s = Some (s\<lparr>tr_changeRevision := Suc (tr_changeRevision s)\<rparr>)"

text \<open>
  Interruption: while the permit is not taken the operation just stops; inside it the registered finalizers run, the removal from
  \<open>active\<close>, its publication and the return of the permit.
\<close>

fun isTakePermit :: "TargetAction \<Rightarrow> bool" where
  "isTakePermit (TakePermit _) = True"
| "isTakePermit _ = False"

fun isRemoveActive :: "TargetAction \<Rightarrow> bool" where
  "isRemoveActive (RemoveActive _) = True"
| "isRemoveActive _ = False"

definition finalizers :: "TargetAction list \<Rightarrow> TargetAction list" where
  "finalizers actions =
     (if list_ex isTakePermit actions then []
      else if list_ex isRemoveActive actions then dropWhile (\<lambda>a. \<not> isRemoveActive a) actions
      else if list_ex (\<lambda>a. case a of GivePermit _ \<Rightarrow> True | _ \<Rightarrow> False) actions then actions
      else [])"

section \<open>Observations\<close>

definition snapshotOf :: "TargetResources \<Rightarrow> IntegrationTargetResourceSnapshot" where
  "snapshotOf s =
     \<lparr>sn_activeResponsibilities =
        concat (map (\<lambda>(key, ownership).
          if map_option ow_targetKey (map_of (tr_accepted s) key) = Some (ow_targetKey ownership) then [ow_identity ownership] else [])
          (tr_active s)),
      sn_heldResponsibilities =
        concat (map (\<lambda>(key, lease).
          if map_option ow_targetKey (map_of (tr_accepted s) (integrationResponsibilityIdentityKey (tl_identity lease))) = Some key
          then [tl_identity lease] else [])
          (ls_byTarget (tr_leases s)))\<rparr>"

definition isHeld :: "IntegrationTargetResourceResponsibility \<Rightarrow> TargetResources \<Rightarrow> bool" where
  "isHeld responsibility s \<longleftrightarrow>
     map_option ow_targetKey (map_of (tr_accepted s) (identityKeyOf responsibility)) = Some (targetKeyOf responsibility) \<and>
     exactLease (tr_leases s) responsibility \<noteq> None"

definition isActive :: "IntegrationTargetResourceResponsibility \<Rightarrow> TargetResources \<Rightarrow> bool" where
  "isActive responsibility s \<longleftrightarrow>
     map_option ow_targetKey (map_of (tr_accepted s) (identityKeyOf responsibility)) = Some (targetKeyOf responsibility) \<and>
     map_option ow_targetKey (map_of (tr_active s) (identityKeyOf responsibility)) = Some (targetKeyOf responsibility) \<and>
     map_of (ls_targetByResponsibility (tr_leases s)) (identityKeyOf responsibility) = Some (targetKeyOf responsibility)"

definition integrationTargetResourceSnapshotIncludes ::
  "IntegrationResponsibilityIdentity list \<Rightarrow> IntegrationTargetResourceResponsibility \<Rightarrow> bool" where
  "integrationTargetResourceSnapshotIncludes identities responsibility =
     list_ex (\<lambda>identity. integrationResponsibilityIdentityKey identity = identityKeyOf responsibility) identities"

section \<open>Fibers\<close>

record TargetSystem =
  sy_resources :: TargetResources
  sy_fibers :: "nat \<Rightarrow> TargetAction list"

datatype TargetCall =
    CallAcquire IntegrationTargetResourceResponsibility
  | CallRelease IntegrationTargetResourceResponsibility
  | CallPublish IntegrationTargetResourceResponsibility
  | CallWithPermit IntegrationTargetResourceResponsibility
  | CallReleaseAll

definition initialTargetSystem :: TargetSystem where
  "initialTargetSystem = \<lparr>sy_resources = makeTargetResources, sy_fibers = \<lambda>_. []\<rparr>"

text \<open>\<open>allowed\<close> is the discipline of the callers; fibers are otherwise free to call, proceed and be interrupted in any order.\<close>

inductive target_step :: "(TargetSystem \<Rightarrow> TargetCall \<Rightarrow> bool) \<Rightarrow> TargetSystem \<Rightarrow> TargetSystem \<Rightarrow> bool" for allowed where
  acquire: "allowed sys (CallAcquire r) \<Longrightarrow> acquireTarget r (sy_resources sys) = (result, s') \<Longrightarrow>
    target_step allowed sys (sys\<lparr>sy_resources := s'\<rparr>)"
| release: "allowed sys (CallRelease r) \<Longrightarrow> sy_fibers sys f = [] \<Longrightarrow> releaseTarget r (sy_resources sys) = (actions, s') \<Longrightarrow>
    target_step allowed sys \<lparr>sy_resources = s', sy_fibers = (sy_fibers sys)(f := actions)\<rparr>"
| publish: "allowed sys (CallPublish r) \<Longrightarrow> sy_fibers sys f = [] \<Longrightarrow> publishAcceptedOwnership r (sy_resources sys) = Inr actions \<Longrightarrow>
    target_step allowed sys (sys\<lparr>sy_fibers := (sy_fibers sys)(f := actions)\<rparr>)"
| permit: "allowed sys (CallWithPermit r) \<Longrightarrow> sy_fibers sys f = [] \<Longrightarrow> withPermit r (sy_resources sys) = Inr actions \<Longrightarrow>
    target_step allowed sys (sys\<lparr>sy_fibers := (sy_fibers sys)(f := actions)\<rparr>)"
| release_all: "allowed sys CallReleaseAll \<Longrightarrow> sy_fibers sys f = [] \<Longrightarrow> releaseAll (sy_resources sys) = (actions, s') \<Longrightarrow>
    target_step allowed sys \<lparr>sy_resources = s', sy_fibers = (sy_fibers sys)(f := actions)\<rparr>"
| perform: "sy_fibers sys f = action # rest \<Longrightarrow> performAction action (sy_resources sys) = Some s' \<Longrightarrow>
    target_step allowed sys \<lparr>sy_resources = s', sy_fibers = (sy_fibers sys)(f := rest)\<rparr>"
| interrupt: "target_step allowed sys (sys\<lparr>sy_fibers := (sy_fibers sys)(f := finalizers (sy_fibers sys f))\<rparr>)"

inductive target_reachable :: "(TargetSystem \<Rightarrow> TargetCall \<Rightarrow> bool) \<Rightarrow> TargetSystem \<Rightarrow> bool" for allowed where
  initial: "target_reachable allowed initialTargetSystem"
| step: "target_reachable allowed sys \<Longrightarrow> target_step allowed sys sys' \<Longrightarrow> target_reachable allowed sys'"

end
