(* ===== verification/Target_Properties.thy ===== *)
theory Target_Properties
  imports Target_Resource
begin

text \<open>
  Exclusive ownership of integration targets: the two lease maps stay inverse to each other, permits are held by one fiber, and
  the properties of \<^verbatim>\<open>integration-target-resource.ts\<close> under every interleaving.
\<close>

section \<open>Keys\<close>

lemma identityKey_inject: "integrationResponsibilityIdentityKey a = integrationResponsibilityIdentityKey b \<longleftrightarrow> a = b"
  by (cases a; cases b) (auto simp: integrationResponsibilityIdentityKey_def jsonString_inject)

lemma integrationTargetKey_inject: "integrationTargetKey a = integrationTargetKey b \<longleftrightarrow> a = b"
  by (cases a; cases b) (auto simp: integrationTargetKey_def jsonString_inject jsonString_eq)

lemma map_of_withoutKey: "map_of (withoutKey k xs) = (map_of xs)(k := None)"
  by (induction xs) (auto simp: withoutKey_def fun_eq_iff)

lemma distinct_withoutKey: "distinct (map fst xs) \<Longrightarrow> distinct (map fst (withoutKey k xs))"
  by (induction xs) (auto simp: withoutKey_def)

section \<open>Leases\<close>

definition leasesOk :: "nat \<Rightarrow> IntegrationTargetResourceLeases \<Rightarrow> bool" where
  "leasesOk fresh ls \<longleftrightarrow>
     (\<forall>k l. map_of (ls_byTarget ls) k = Some l \<longrightarrow>
        integrationTargetKey (tl_target l) = k \<and> tl_permit l < fresh \<and>
        map_of (ls_targetByResponsibility ls) (integrationResponsibilityIdentityKey (tl_identity l)) = Some k) \<and>
     (\<forall>i k. map_of (ls_targetByResponsibility ls) i = Some k \<longrightarrow>
        (\<exists>l. map_of (ls_byTarget ls) k = Some l \<and> integrationResponsibilityIdentityKey (tl_identity l) = i)) \<and>
     (\<forall>k k' l l'. map_of (ls_byTarget ls) k = Some l \<longrightarrow> map_of (ls_byTarget ls) k' = Some l' \<longrightarrow> tl_permit l = tl_permit l' \<longrightarrow> k = k') \<and>
     distinct (map fst (ls_byTarget ls))"

lemma leasesOk_lease:
  assumes "leasesOk n ls" "map_of (ls_byTarget ls) k = Some l"
  shows "integrationTargetKey (tl_target l) = k" "tl_permit l < n"
    "map_of (ls_targetByResponsibility ls) (integrationResponsibilityIdentityKey (tl_identity l)) = Some k"
  using assms unfolding leasesOk_def by blast+

lemma leasesOk_bound:
  assumes "leasesOk n ls" "map_of (ls_targetByResponsibility ls) i = Some k"
  shows "\<exists>l. map_of (ls_byTarget ls) k = Some l \<and> integrationResponsibilityIdentityKey (tl_identity l) = i"
  using assms unfolding leasesOk_def by blast

lemma leasesOk_permit:
  "leasesOk n ls \<Longrightarrow> map_of (ls_byTarget ls) k = Some l \<Longrightarrow> map_of (ls_byTarget ls) k' = Some l' \<Longrightarrow> tl_permit l = tl_permit l' \<Longrightarrow> k = k'"
  unfolding leasesOk_def by blast

lemma leasesOk_empty [simp]: "leasesOk n emptyLeases"
  by (simp add: leasesOk_def emptyLeases_def)

lemma leasesOk_fresher: "leasesOk n ls \<Longrightarrow> leasesOk (Suc n) ls"
  unfolding leasesOk_def by (meson less_SucI)

lemma exactLease_iff:
  "exactLease ls r = Some l \<longleftrightarrow> map_of (ls_byTarget ls) (targetKeyOf r) = Some l \<and>
     map_of (ls_targetByResponsibility ls) (identityKeyOf r) = Some (targetKeyOf r) \<and> tl_identity l = resourceIdentity r"
  by (auto simp: exactLease_def identityKey_inject split: option.splits)

lemma exactLease_leased:
  "leasesOk n ls \<Longrightarrow> exactLease ls r = Some l \<longleftrightarrow> map_of (ls_byTarget ls) (targetKeyOf r) = Some l \<and> tl_identity l = resourceIdentity r"
  using leasesOk_lease(3) by (fastforce simp: exactLease_iff)

text \<open>The outcomes of an acquisition; an invalid binding is not one of them.\<close>

lemma acquire_cases:
  assumes ok: "leasesOk n ls" and run: "acquireTransition r n ls = (conflict, ls')"
  obtains
    (mismatch) l where "conflict = Some (IdentityTargetMismatch (tl_target l))" "ls' = ls" "tl_identity l = resourceIdentity r"
      "map_of (ls_byTarget ls) (integrationTargetKey (tl_target l)) = Some l" "tl_target l \<noteq> rr_integrationTarget r"
  | (unavailable) l where "conflict = Some (TargetUnavailable l)" "ls' = ls" "map_of (ls_byTarget ls) (targetKeyOf r) = Some l"
      "tl_identity l \<noteq> resourceIdentity r" "map_of (ls_targetByResponsibility ls) (identityKeyOf r) = None"
  | (held) "conflict = None" "ls' = ls" "exactLease ls r \<noteq> None"
  | (leased) "conflict = None" "map_of (ls_byTarget ls) (targetKeyOf r) = None" "map_of (ls_targetByResponsibility ls) (identityKeyOf r) = None"
      "ls' = \<lparr>ls_byTarget = AList.update (targetKeyOf r)
                  \<lparr>tl_identity = resourceIdentity r, tl_permit = n, tl_target = rr_integrationTarget r\<rparr> (ls_byTarget ls),
                ls_targetByResponsibility = AList.update (identityKeyOf r) (targetKeyOf r) (ls_targetByResponsibility ls)\<rparr>"
proof (cases "map_of (ls_targetByResponsibility ls) (identityKeyOf r)")
  case None
  show thesis
  proof (cases "map_of (ls_byTarget ls) (targetKeyOf r)")
    case free: None
    with run None leased show thesis by (auto simp: acquireTransition_def Let_def)
  next
    case (Some l)
    with leasesOk_lease(3) [OF ok Some] None have "tl_identity l \<noteq> resourceIdentity r" by auto
    with run None Some unavailable show thesis by (auto simp: acquireTransition_def Let_def identityKey_inject)
  qed
next
  case (Some k)
  obtain l where l: "map_of (ls_byTarget ls) k = Some l" "integrationResponsibilityIdentityKey (tl_identity l) = identityKeyOf r"
    using leasesOk_bound [OF ok Some] by blast
  then have identity: "tl_identity l = resourceIdentity r" and k: "k = integrationTargetKey (tl_target l)"
    using leasesOk_lease(1) [OF ok l(1)] by (simp_all add: identityKey_inject)
  show thesis
  proof (cases "k = targetKeyOf r")
    case True
    with Some l identity have "exactLease ls r \<noteq> None" by (simp add: exactLease_iff)
    moreover have "conflict = None" "ls' = ls" using run Some l True by (auto simp: acquireTransition_def Let_def)
    ultimately show thesis by (rule held [rotated 2])
  next
    case False
    with run Some l(1) have "conflict = Some (IdentityTargetMismatch (tl_target l))" "ls' = ls"
      by (auto simp: acquireTransition_def Let_def)
    moreover have "tl_target l \<noteq> rr_integrationTarget r" using k False by auto
    ultimately show thesis using identity l(1) k by (intro mismatch) auto
  qed
qed

lemma leasesOk_acquire:
  assumes "leasesOk n ls" "acquireTransition r n ls = (conflict, ls')"
  shows "leasesOk (Suc n) ls'"
  using assms
proof (cases rule: acquire_cases)
  case leased
  have bound: "i \<noteq> identityKeyOf r \<and> k \<noteq> targetKeyOf r" if "map_of (ls_targetByResponsibility ls) i = Some k" for i k
    using that leased(2,3) leasesOk_bound [OF assms(1) that] by auto
  have other: "tl_permit l < n" "integrationResponsibilityIdentityKey (tl_identity l) \<noteq> identityKeyOf r"
    if "map_of (ls_byTarget ls) k = Some l" for k l
    using leasesOk_lease(2,3) [OF assms(1) that] bound by blast+
  show ?thesis
    unfolding leasesOk_def
  proof (intro conjI)
    show "\<forall>k l. map_of (ls_byTarget ls') k = Some l \<longrightarrow>
        integrationTargetKey (tl_target l) = k \<and> tl_permit l < Suc n \<and>
        map_of (ls_targetByResponsibility ls') (integrationResponsibilityIdentityKey (tl_identity l)) = Some k"
      using leasesOk_lease [OF assms(1)] other by (auto simp: leased(4) update_conv less_SucI)
    show "\<forall>i k. map_of (ls_targetByResponsibility ls') i = Some k \<longrightarrow>
        (\<exists>l. map_of (ls_byTarget ls') k = Some l \<and> integrationResponsibilityIdentityKey (tl_identity l) = i)"
      using bound by (auto simp: leased(4) update_conv dest: leasesOk_bound [OF assms(1)])
    show "\<forall>k k' l l'. map_of (ls_byTarget ls') k = Some l \<longrightarrow> map_of (ls_byTarget ls') k' = Some l' \<longrightarrow> tl_permit l = tl_permit l' \<longrightarrow> k = k'"
      using leasesOk_permit [OF assms(1)] other(1) [THEN order.strict_implies_not_eq] by (simp add: leased(4) update_conv) metis
    show "distinct (map fst (ls_byTarget ls'))"
      using assms(1) by (simp add: leased(4) leasesOk_def distinct_update)
  qed
qed (use leasesOk_fresher assms(1) in auto)

lemma leasesOk_release:
  assumes ok: "leasesOk n ls" and run: "releaseTransition r ls = (released, ls')"
  shows "leasesOk n ls'"
proof (cases "exactLease ls r")
  case None
  with run ok show ?thesis by (simp add: releaseTransition_def)
next
  case (Some lease)
  note exact = Some [unfolded exactLease_iff]
  from run Some have ls': "ls' = \<lparr>ls_byTarget = withoutKey (targetKeyOf r) (ls_byTarget ls),
      ls_targetByResponsibility = withoutKey (identityKeyOf r) (ls_targetByResponsibility ls)\<rparr>"
    by (simp add: releaseTransition_def)
  have only: "i = identityKeyOf r \<longleftrightarrow> k = targetKeyOf r" if "map_of (ls_targetByResponsibility ls) i = Some k" for i k
    using that exact leasesOk_bound [OF ok that] by (metis option.inject)
  have lease: "integrationResponsibilityIdentityKey (tl_identity l) = identityKeyOf r \<longleftrightarrow> k = targetKeyOf r"
    if "map_of (ls_byTarget ls) k = Some l" for k l
    using only leasesOk_lease(3) [OF ok that] by blast
  show ?thesis
    unfolding leasesOk_def
  proof (intro conjI)
    show "\<forall>k l. map_of (ls_byTarget ls') k = Some l \<longrightarrow>
        integrationTargetKey (tl_target l) = k \<and> tl_permit l < n \<and>
        map_of (ls_targetByResponsibility ls') (integrationResponsibilityIdentityKey (tl_identity l)) = Some k"
      using leasesOk_lease [OF ok] lease by (auto simp: ls' map_of_withoutKey)
    show "\<forall>i k. map_of (ls_targetByResponsibility ls') i = Some k \<longrightarrow>
        (\<exists>l. map_of (ls_byTarget ls') k = Some l \<and> integrationResponsibilityIdentityKey (tl_identity l) = i)"
      using only by (auto simp: ls' map_of_withoutKey dest: leasesOk_bound [OF ok])
    show "\<forall>k k' l l'. map_of (ls_byTarget ls') k = Some l \<longrightarrow> map_of (ls_byTarget ls') k' = Some l' \<longrightarrow> tl_permit l = tl_permit l' \<longrightarrow> k = k'"
      using leasesOk_permit [OF ok] by (auto simp: ls' map_of_withoutKey split: if_splits)
    show "distinct (map fst (ls_byTarget ls'))"
      using ok by (simp add: ls' leasesOk_def distinct_withoutKey)
  qed
qed

section \<open>Permits\<close>

text \<open>A fiber is inside a permit from the moment it takes it until it gives it away.\<close>

definition permitActions :: "string \<Rightarrow> IntegrationTargetResourceOwnership \<Rightarrow> nat \<Rightarrow> TargetAction list" where
  "permitActions i ownership p =
     [TakePermit p, SetActive i ownership, PublishChange, RunEffect, RemoveActive i, PublishChange, GivePermit p]"

definition wantsPermit :: "TargetAction list \<Rightarrow> nat \<Rightarrow> bool" where
  "wantsPermit actions p \<longleftrightarrow> GivePermit p \<in> set actions"

definition insidePermit :: "TargetAction list \<Rightarrow> nat \<Rightarrow> bool" where
  "insidePermit actions p \<longleftrightarrow> GivePermit p \<in> set actions \<and> TakePermit p \<notin> set actions"

definition plainActions :: "TargetAction list \<Rightarrow> bool" where
  "plainActions actions \<longleftrightarrow> (\<forall>p i. GivePermit p \<notin> set actions \<and> TakePermit p \<notin> set actions \<and> RemoveActive i \<notin> set actions)"

definition fiberShape :: "TargetAction list \<Rightarrow> bool" where
  "fiberShape actions \<longleftrightarrow> plainActions actions \<or> (\<exists>i ownership p. suffix actions (permitActions i ownership p))"

lemma plainActions_simps [simp]: "plainActions []" "plainActions (a # rest) \<Longrightarrow> plainActions rest"
  by (auto simp: plainActions_def)

lemma plain_not_inside: "plainActions actions \<Longrightarrow> \<not> insidePermit actions p \<and> \<not> wantsPermit actions p"
  by (auto simp: plainActions_def insidePermit_def wantsPermit_def)

lemma inside_wants: "insidePermit actions p \<Longrightarrow> wantsPermit actions p"
  by (simp add: insidePermit_def wantsPermit_def)

lemma permitActions_suffix:
  "suffix actions (permitActions i ownership p) \<longleftrightarrow>
     actions = permitActions i ownership p \<or>
     actions = [SetActive i ownership, PublishChange, RunEffect, RemoveActive i, PublishChange, GivePermit p] \<or>
     actions = [PublishChange, RunEffect, RemoveActive i, PublishChange, GivePermit p] \<or>
     actions = [RunEffect, RemoveActive i, PublishChange, GivePermit p] \<or>
     actions = [RemoveActive i, PublishChange, GivePermit p] \<or> actions = [PublishChange, GivePermit p] \<or> actions = [GivePermit p] \<or>
     actions = []"
  by (auto simp: permitActions_def suffix_Cons)

lemma fiberShape_rest: "fiberShape (a # rest) \<Longrightarrow> fiberShape rest"
  by (auto simp: fiberShape_def dest: suffix_ConsD)

lemma finalizers_plain: "plainActions actions \<Longrightarrow> finalizers actions = []"
  by (auto simp: plainActions_def finalizers_def list_ex_iff elim!: isTakePermit.elims isRemoveActive.elims split: TargetAction.splits)

lemma finalizers_permit:
  assumes "suffix actions (permitActions i ownership p)"
  shows "suffix (finalizers actions) (permitActions i ownership p)" "insidePermit (finalizers actions) q \<longleftrightarrow> insidePermit actions q"
    "set (finalizers actions) \<subseteq> set actions"
  using assms unfolding permitActions_suffix
  by (auto simp: finalizers_def insidePermit_def permitActions_def)

lemma fiberShape_finalizers:
  assumes "fiberShape actions"
  shows "fiberShape (finalizers actions)" "insidePermit (finalizers actions) p \<longleftrightarrow> insidePermit actions p"
    "set (finalizers actions) \<subseteq> set actions"
  using assms unfolding fiberShape_def
  by (auto simp: finalizers_plain plain_not_inside insidePermit_def [of "[]"] dest: finalizers_permit)

definition permitsOk :: "TargetSystem \<Rightarrow> bool" where
  "permitsOk sys \<longleftrightarrow>
     (\<forall>f. fiberShape (sy_fibers sys f)) \<and>
     (\<forall>f p. insidePermit (sy_fibers sys f) p \<longrightarrow> p \<in> set (tr_taken (sy_resources sys))) \<and>
     (\<forall>f g p. insidePermit (sy_fibers sys f) p \<longrightarrow> insidePermit (sy_fibers sys g) p \<longrightarrow> f = g)"

lemma permitsOk_new:
  assumes "permitsOk sys" "fiberShape actions" "\<And>p. \<not> insidePermit actions p" "tr_taken s' = tr_taken (sy_resources sys)"
  shows "permitsOk \<lparr>sy_resources = s', sy_fibers = (sy_fibers sys)(f := actions)\<rparr>"
  using assms unfolding permitsOk_def by simp

lemma permitsOk_perform:
  assumes ok: "permitsOk sys" and f: "sy_fibers sys f = action # rest" and run: "performAction action (sy_resources sys) = Some s'"
  shows "permitsOk \<lparr>sy_resources = s', sy_fibers = (sy_fibers sys)(f := rest)\<rparr>"
proof -
  have shape: "fiberShape (action # rest)" "fiberShape rest"
    using ok f fiberShape_rest unfolding permitsOk_def by metis+
  consider (take) p where "action = TakePermit p" "insidePermit rest = (\<lambda>q. q = p)"
    | (give) p where "action = GivePermit p" "insidePermit (action # rest) = (\<lambda>q. q = p)" "rest = []"
    | (other) "insidePermit rest = insidePermit (action # rest)" "tr_taken s' = tr_taken (sy_resources sys)"
  proof -
    from shape(1) consider "plainActions (action # rest)" | i ownership p where "suffix (action # rest) (permitActions i ownership p)"
      unfolding fiberShape_def by blast
    then show thesis
    proof cases
      case 1
      then have "insidePermit rest = insidePermit (action # rest)" by (auto simp: fun_eq_iff plain_not_inside)
      moreover have "tr_taken s' = tr_taken (sy_resources sys)" using run 1 by (cases action) (auto simp: plainActions_def)
      ultimately show thesis by (rule other)
    next
      case 2
      from 2 [unfolded permitActions_suffix] run that show thesis
        by (auto simp: permitActions_def insidePermit_def fun_eq_iff)
    qed
  qed
  then show ?thesis
  proof cases
    case take
    then have "p \<notin> set (tr_taken (sy_resources sys))" and s': "s' = (sy_resources sys)\<lparr>tr_taken := p # tr_taken (sy_resources sys)\<rparr>"
      using run by (auto split: if_splits)
    then have "\<not> insidePermit (sy_fibers sys g) p" for g using ok unfolding permitsOk_def by blast
    then show ?thesis using ok shape(2) take s' unfolding permitsOk_def by auto
  next
    case give
    then have "\<not> insidePermit (sy_fibers sys g) p" if "g \<noteq> f" for g
      using ok f that unfolding permitsOk_def by metis
    then show ?thesis using ok run give unfolding permitsOk_def by (auto simp: fiberShape_def insidePermit_def [of "[]"])
  next
    case other
    then show ?thesis using ok shape(2) f unfolding permitsOk_def by (auto; metis)
  qed
qed

lemma permitsOk_interrupt:
  assumes "permitsOk sys"
  shows "permitsOk (sys\<lparr>sy_fibers := (sy_fibers sys)(f := finalizers (sy_fibers sys f))\<rparr>)"
  using assms fiberShape_finalizers unfolding permitsOk_def by auto

section \<open>Reachable systems\<close>

lemma performAction_leases:
  "performAction action s = Some s' \<Longrightarrow> tr_leases s' = tr_leases s \<and> tr_nextPermit s' = tr_nextPermit s"
  by (cases action) (auto split: if_splits)

lemma acquireTarget_state:
  assumes "acquireTarget r s = (result, s')"
  shows "\<exists>conflict. acquireTransition r (tr_nextPermit s) (tr_leases s) = (conflict, tr_leases s') \<and> (result = Inr () \<longleftrightarrow> conflict = None)"
    "tr_nextPermit s' = Suc (tr_nextPermit s)" "tr_taken s' = tr_taken s"
  using assms by (auto simp: acquireTarget_def Let_def
      split: prod.splits option.splits IntegrationTargetResourceAcquisitionConflict.splits)

lemma releaseTarget_state:
  assumes "releaseTarget r s = (actions, s')"
  shows "\<exists>released. releaseTransition r (tr_leases s) = (released, tr_leases s')" "tr_nextPermit s' = tr_nextPermit s"
    "tr_taken s' = tr_taken s" "plainActions actions"
  using assms by (auto simp: releaseTarget_def plainActions_def split: prod.splits if_splits)

lemma withPermit_actions:
  assumes "withPermit r s = Inr actions"
  obtains l where "exactLease (tr_leases s) r = Some l" "actions = permitActions (identityKeyOf r) (ownershipOf r) (tl_permit l)"
  using assms by (auto simp: withPermit_def permitActions_def split: option.splits)

lemma permitActions_shape: "fiberShape (permitActions i ownership p)" "\<not> insidePermit (permitActions i ownership p) q"
  by (auto simp: fiberShape_def permitActions_def insidePermit_def)

lemma plain_shape: "plainActions actions \<Longrightarrow> fiberShape actions"
  by (simp add: fiberShape_def)

lemma publish_plain: "publishAcceptedOwnership r s = Inr actions \<Longrightarrow> plainActions actions"
  by (auto simp: publishAcceptedOwnership_def plainActions_def split: option.splits)

lemma releaseAll_state: "releaseAll s = (actions, s') \<Longrightarrow> plainActions actions \<and> tr_leases s' = emptyLeases \<and>
     tr_nextPermit s' = tr_nextPermit s \<and> tr_taken s' = tr_taken s"
  by (auto simp: releaseAll_def plainActions_def)

definition resourcesOk :: "TargetSystem \<Rightarrow> bool" where
  "resourcesOk sys \<longleftrightarrow> leasesOk (tr_nextPermit (sy_resources sys)) (tr_leases (sy_resources sys)) \<and> permitsOk sys"

lemma sy_fibers_update: "sys\<lparr>sy_fibers := F\<rparr> = \<lparr>sy_resources = sy_resources sys, sy_fibers = F\<rparr>"
  by (cases sys) simp

lemma resourcesOk_new:
  assumes "resourcesOk sys" "fiberShape actions" "\<And>p. \<not> insidePermit actions p"
    "leasesOk (tr_nextPermit s') (tr_leases s')" "tr_taken s' = tr_taken (sy_resources sys)"
  shows "resourcesOk \<lparr>sy_resources = s', sy_fibers = (sy_fibers sys)(f := actions)\<rparr>"
  using assms permitsOk_new unfolding resourcesOk_def by simp

lemma target_step_ok:
  assumes "target_step allowed sys sys'" and ok: "resourcesOk sys"
  shows "resourcesOk sys'"
  using assms(1)
proof cases
  case (acquire r result s')
  note st = acquireTarget_state [OF acquire(3)]
  show ?thesis using ok st leasesOk_acquire unfolding resourcesOk_def acquire(1) permitsOk_def by auto
next
  case (release r f actions s')
  note st = releaseTarget_state [OF release(4)]
  show ?thesis unfolding release(1)
    using ok st leasesOk_release plain_not_inside
    by (intro resourcesOk_new) (auto simp: plain_shape resourcesOk_def)
next
  case (publish r f actions)
  show ?thesis unfolding publish(1) sy_fibers_update
    using ok publish_plain [OF publish(4)] plain_not_inside by (intro resourcesOk_new) (auto simp: plain_shape resourcesOk_def)
next
  case (permit r f actions)
  obtain l where "exactLease (tr_leases (sy_resources sys)) r = Some l" "actions = permitActions (identityKeyOf r) (ownershipOf r) (tl_permit l)"
    by (rule withPermit_actions [OF permit(4)])
  then show ?thesis unfolding permit(1) sy_fibers_update
    using ok by (intro resourcesOk_new) (auto simp: permitActions_shape resourcesOk_def)
next
  case (release_all f actions s')
  show ?thesis unfolding release_all(1)
    using ok releaseAll_state [OF release_all(4)] plain_not_inside by (intro resourcesOk_new) (auto simp: plain_shape)
next
  case (perform f action rest s')
  show ?thesis unfolding perform(1)
    using ok performAction_leases [OF perform(3)] permitsOk_perform [OF _ perform(2,3)] by (simp add: resourcesOk_def)
next
  case (interrupt f)
  show ?thesis unfolding interrupt(1) using ok permitsOk_interrupt by (simp add: resourcesOk_def)
qed

lemma target_reachable_ok: "target_reachable allowed sys \<Longrightarrow> resourcesOk sys"
proof (induction rule: target_reachable.induct)
  case initial
  show ?case
    by (simp add: resourcesOk_def permitsOk_def initialTargetSystem_def makeTargetResources_def fiberShape_def insidePermit_def)
qed (blast intro: target_step_ok)

subsection \<open>Callers that release only what no fiber uses\<close>

fun quiescentClient :: "TargetSystem \<Rightarrow> TargetCall \<Rightarrow> bool" where
  "quiescentClient sys (CallRelease r) \<longleftrightarrow>
     (\<forall>l f. exactLease (tr_leases (sy_resources sys)) r = Some l \<longrightarrow> \<not> wantsPermit (sy_fibers sys f) (tl_permit l))"
| "quiescentClient sys CallReleaseAll \<longleftrightarrow> (\<forall>f p. \<not> wantsPermit (sy_fibers sys f) p)"
| "quiescentClient sys _ \<longleftrightarrow> True"

definition worksUnder :: "TargetAction list \<Rightarrow> IntegrationTargetResourceLeases \<Rightarrow> bool" where
  "worksUnder actions ls \<longleftrightarrow>
     (\<forall>p. wantsPermit actions p \<longrightarrow>
        (\<exists>k l. map_of (ls_byTarget ls) k = Some l \<and> tl_permit l = p \<and>
           (\<forall>i. RemoveActive i \<in> set actions \<longrightarrow> i = integrationResponsibilityIdentityKey (tl_identity l))))"

lemma worksUnder_subset: "worksUnder actions ls \<Longrightarrow> set rest \<subseteq> set actions \<Longrightarrow> worksUnder rest ls"
  unfolding worksUnder_def wantsPermit_def by (meson subsetD)

lemma worksUnder_plain: "plainActions actions \<Longrightarrow> worksUnder actions ls"
  by (simp add: worksUnder_def plain_not_inside)

lemma worksUnder_acquire:
  assumes "leasesOk n ls" "acquireTransition r n ls = (conflict, ls')" "worksUnder actions ls"
  shows "worksUnder actions ls'"
  using assms(1,2)
proof (cases rule: acquire_cases)
  case leased
  have "map_of (ls_byTarget ls') k = Some l" if "map_of (ls_byTarget ls) k = Some l" for k l
    using that leased(2,4) by (auto simp: update_conv)
  then show ?thesis using assms(3) unfolding worksUnder_def by blast
qed (use assms(3) in auto)

lemma worksUnder_release:
  assumes "releaseTransition r ls = (released, ls')" "worksUnder actions ls"
    "\<And>l. exactLease ls r = Some l \<Longrightarrow> \<not> wantsPermit actions (tl_permit l)"
  shows "worksUnder actions ls'"
proof (cases "exactLease ls r")
  case None
  with assms show ?thesis by (simp add: releaseTransition_def)
next
  case (Some lease)
  then have "ls_byTarget ls' = withoutKey (targetKeyOf r) (ls_byTarget ls)" using assms(1) by (auto simp: releaseTransition_def)
  with Some have keep: "map_of (ls_byTarget ls') k = Some l" if "map_of (ls_byTarget ls) k = Some l" "tl_permit l \<noteq> tl_permit lease" for k l
    using that by (auto simp: map_of_withoutKey exactLease_iff)
  then show ?thesis using assms(2,3) Some unfolding worksUnder_def by metis
qed

lemma quiescent_works:
  "target_reachable quiescentClient sys \<Longrightarrow> worksUnder (sy_fibers sys f) (tr_leases (sy_resources sys))"
proof (induction arbitrary: f rule: target_reachable.induct)
  case initial
  show ?case by (simp add: initialTargetSystem_def worksUnder_plain)
next
  case (step sys sys')
  have ok: "leasesOk (tr_nextPermit (sy_resources sys)) (tr_leases (sy_resources sys))" "fiberShape (sy_fibers sys g)" for g
    using target_reachable_ok [OF step.hyps(1)] by (auto simp: resourcesOk_def permitsOk_def)
  from step.hyps(2) show ?case
  proof cases
    case (acquire r result s')
    then show ?thesis using acquireTarget_state [OF acquire(3)] worksUnder_acquire [OF ok(1)] step.IH by auto
  next
    case (release r g actions s')
    then show ?thesis using releaseTarget_state [OF release(4)] worksUnder_release step.IH worksUnder_plain by auto
  next
    case (publish r g actions)
    then show ?thesis using publish_plain [OF publish(4)] step.IH worksUnder_plain by auto
  next
    case (permit r g actions)
    obtain l where l: "exactLease (tr_leases (sy_resources sys)) r = Some l" "actions = permitActions (identityKeyOf r) (ownershipOf r) (tl_permit l)"
      by (rule withPermit_actions [OF permit(4)])
    then have "worksUnder actions (tr_leases (sy_resources sys))"
      unfolding worksUnder_def exactLease_iff
      by (auto simp: wantsPermit_def permitActions_def intro!: exI [of _ "targetKeyOf r"] exI [of _ l])
    then show ?thesis using permit(1) step.IH by auto
  next
    case (release_all g actions s')
    then show ?thesis using releaseAll_state [OF release_all(4)] by (cases "f = g") (auto simp: worksUnder_plain worksUnder_def [of "sy_fibers sys f"])
  next
    case (perform g action rest s')
    have "worksUnder rest (tr_leases (sy_resources sys))"
      using worksUnder_subset [OF step.IH [of g]] perform(2) by (simp add: subset_insertI)
    then show ?thesis using perform(1) performAction_leases [OF perform(3)] step.IH by auto
  next
    case (interrupt g)
    then show ?thesis using worksUnder_subset [OF step.IH fiberShape_finalizers(3) [OF ok(2)]] step.IH by auto
  qed
qed

section \<open>Properties\<close>

definition allClients :: "TargetSystem \<Rightarrow> TargetCall \<Rightarrow> bool" where
  "allClients sys call = True"

text \<open>The fiber runs an effect under the current lease of the target.\<close>

definition worksOn :: "TargetSystem \<Rightarrow> nat \<Rightarrow> IntegrationTarget \<Rightarrow> bool" where
  "worksOn sys f target \<longleftrightarrow>
     (\<exists>l. map_of (ls_byTarget (tr_leases (sy_resources sys))) (integrationTargetKey target) = Some l \<and>
        insidePermit (sy_fibers sys f) (tl_permit l))"

lemma held_distinct:
  assumes "leasesOk n ls"
  shows "distinct (concat (map (\<lambda>(key, lease). if P key lease then [tl_identity lease] else []) (ls_byTarget ls)))"
proof -
  have "distinct (concat (map (\<lambda>(key, lease). if P key lease then [tl_identity lease] else []) entries))"
    if "distinct (map fst entries)" "\<And>k l. (k, l) \<in> set entries \<Longrightarrow>
      map_of (ls_targetByResponsibility ls) (integrationResponsibilityIdentityKey (tl_identity l)) = Some k" for entries
    using that
  proof (induction entries)
    case (Cons e entries)
    obtain k l where e: "e = (k, l)" by fastforce
    have "tl_identity l \<noteq> tl_identity l'" if "(k', l') \<in> set entries" for k' l'
    proof
      assume "tl_identity l = tl_identity l'"
      then have "k' = k" using Cons.prems(2) [of k l] Cons.prems(2) [of k' l'] that e by simp
      then show False using Cons.prems(1) that e by (force simp: image_iff)
    qed
    then show ?case using Cons e by (auto split: if_splits)
  qed simp
  then show ?thesis using assms leasesOk_lease(3) [OF assms] by (simp add: leasesOk_def)
qed

text \<open>A concrete run: one responsibility leases a target, one fiber takes its permit.\<close>

definition demoResponsibility :: "nat \<Rightarrow> IntegrationTargetResourceResponsibility" where
  "demoResponsibility queuedAt =
     \<lparr>rr_integrationTarget = \<lparr>it_repository = ''repo'', it_ref = ''refs/heads/main''\<rparr>,
      rr_plannedAttempt = \<lparr>pa_attemptId = ''a'', pa_baseSha = [], pa_branch = [], pa_executor = [], pa_runId = ''run'', pa_taskId = ''t'',
        pa_taskRevision = [], pa_worktree = []\<rparr>,
      rr_queuedAt = queuedAt\<rparr>"

definition demoLeased :: TargetSystem where
  "demoLeased = initialTargetSystem\<lparr>sy_resources := snd (acquireTarget (demoResponsibility 5) makeTargetResources)\<rparr>"

definition demoWorking :: TargetSystem where
  "demoWorking =
     \<lparr>sy_resources = (sy_resources demoLeased)\<lparr>tr_taken := [0]\<rparr>,
      sy_fibers = (\<lambda>_. [])(0 := tl (permitActions (identityKeyOf (demoResponsibility 5)) (ownershipOf (demoResponsibility 5)) 0))\<rparr>"

lemma demoLeased_lease:
  "exactLease (tr_leases (sy_resources demoLeased)) (demoResponsibility 5) =
     Some \<lparr>tl_identity = resourceIdentity (demoResponsibility 5), tl_permit = 0, tl_target = rr_integrationTarget (demoResponsibility 5)\<rparr>"
  by (simp add: demoLeased_def acquireTarget_def acquireTransition_def makeTargetResources_def emptyLeases_def exactLease_def Let_def)

lemma demoLeased_reachable:
  assumes "allowed initialTargetSystem (CallAcquire (demoResponsibility 5))"
  shows "target_reachable allowed demoLeased"
proof (rule target_reachable.step [OF target_reachable.initial])
  show "target_step allowed initialTargetSystem demoLeased"
    unfolding demoLeased_def
    using assms
    by (intro target_step.acquire [where r = "demoResponsibility 5" and
          result = "fst (acquireTarget (demoResponsibility 5) makeTargetResources)"])
      (simp_all add: initialTargetSystem_def)
qed

lemma demoWorking_reachable:
  assumes "allowed initialTargetSystem (CallAcquire (demoResponsibility 5))" "allowed demoLeased (CallWithPermit (demoResponsibility 5))"
  shows "target_reachable allowed demoWorking"
proof -
  let ?actions = "permitActions (identityKeyOf (demoResponsibility 5)) (ownershipOf (demoResponsibility 5)) 0"
  let ?called = "demoLeased\<lparr>sy_fibers := (sy_fibers demoLeased)(0 := ?actions)\<rparr>"
  have idle: "sy_fibers demoLeased = (\<lambda>_. [])" "tr_taken (sy_resources demoLeased) = []"
    by (simp_all add: demoLeased_def initialTargetSystem_def acquireTarget_def acquireTransition_def makeTargetResources_def emptyLeases_def Let_def)
  have "withPermit (demoResponsibility 5) (sy_resources demoLeased) = Inr ?actions"
    by (simp add: withPermit_def demoLeased_lease permitActions_def)
  then have "target_step allowed demoLeased ?called"
    using idle assms(2) by (intro target_step.permit [where r = "demoResponsibility 5"]) auto
  moreover have "target_step allowed ?called \<lparr>sy_resources = (sy_resources ?called)\<lparr>tr_taken := [0]\<rparr>,
      sy_fibers = (sy_fibers ?called)(0 := tl ?actions)\<rparr>"
    by (rule target_step.perform [of _ _ "TakePermit 0"]) (simp_all add: permitActions_def idle)
  moreover have "\<lparr>sy_resources = (sy_resources ?called)\<lparr>tr_taken := [0]\<rparr>, sy_fibers = (sy_fibers ?called)(0 := tl ?actions)\<rparr> = demoWorking"
    by (simp add: demoWorking_def idle)
  ultimately show ?thesis
    using target_reachable.step [OF target_reachable.step [OF demoLeased_reachable]] assms(1) by metis
qed

lemma demoWorking_inside: "insidePermit (sy_fibers demoWorking 0) 0"
  by (simp add: demoWorking_def permitActions_def insidePermit_def)

text \<open>
  C11. Exclusive leases. In every state that any callers can reach, a responsibility holds one target and a target is leased to one
  responsibility, the snapshot lists nobody twice, a semaphore's permit is inside one fiber, and no acquisition ends in a
  defect.
\<close>

theorem target_leases_exclusive:
  assumes "target_reachable allowed sys"
  shows "(\<forall>k k' l l'. map_of (ls_byTarget (tr_leases (sy_resources sys))) k = Some l \<longrightarrow>
       map_of (ls_byTarget (tr_leases (sy_resources sys))) k' = Some l' \<longrightarrow> (tl_identity l = tl_identity l' \<longleftrightarrow> tl_target l = tl_target l')) \<and>
     distinct (sn_heldResponsibilities (snapshotOf (sy_resources sys))) \<and>
     (\<forall>f g p. insidePermit (sy_fibers sys f) p \<longrightarrow> insidePermit (sy_fibers sys g) p \<longrightarrow> f = g) \<and>
     (\<forall>r detail. fst (acquireTarget r (sy_resources sys)) \<noteq> Inl (ResourceDefect detail))"
proof (intro conjI)
  have ok: "leasesOk (tr_nextPermit (sy_resources sys)) (tr_leases (sy_resources sys))" "permitsOk sys"
    using target_reachable_ok [OF assms] by (simp_all add: resourcesOk_def)
  show "\<forall>k k' l l'. map_of (ls_byTarget (tr_leases (sy_resources sys))) k = Some l \<longrightarrow>
       map_of (ls_byTarget (tr_leases (sy_resources sys))) k' = Some l' \<longrightarrow> (tl_identity l = tl_identity l' \<longleftrightarrow> tl_target l = tl_target l')"
    using leasesOk_lease [OF ok(1)] by (metis option.inject)
  show "distinct (sn_heldResponsibilities (snapshotOf (sy_resources sys)))"
    using held_distinct [OF ok(1)] by (simp add: snapshotOf_def)
  show "\<forall>f g p. insidePermit (sy_fibers sys f) p \<longrightarrow> insidePermit (sy_fibers sys g) p \<longrightarrow> f = g"
    using ok(2) by (simp add: permitsOk_def)
  show "\<forall>r detail. fst (acquireTarget r (sy_resources sys)) \<noteq> Inl (ResourceDefect detail)"
  proof (intro allI)
    fix r detail
    obtain conflict ls' where run: "acquireTransition r (tr_nextPermit (sy_resources sys)) (tr_leases (sy_resources sys)) = (conflict, ls')"
      by fastforce
    from ok(1) run have "conflict \<noteq> Some InvalidBinding" by (cases rule: acquire_cases) auto
    with run show "fst (acquireTarget r (sy_resources sys)) \<noteq> Inl (ResourceDefect detail)"
      by (auto simp: acquireTarget_def Let_def split: option.splits IntegrationTargetResourceAcquisitionConflict.splits)
  qed
qed

theorem target_leases_exclusive_witness:
  "target_reachable allClients demoWorking \<and> distinct (sn_heldResponsibilities (snapshotOf (sy_resources demoWorking))) \<and>
   \<not> insidePermit (sy_fibers demoWorking 5) 0"
proof -
  have r: "target_reachable allClients demoWorking" by (intro demoWorking_reachable) (simp_all add: allClients_def)
  have "insidePermit (sy_fibers demoWorking 5) 0 \<Longrightarrow> (0::nat) = 5"
    using target_leases_exclusive [OF r] demoWorking_inside by blast
  then show ?thesis using r target_leases_exclusive [OF r] by auto
qed

text \<open>
  C12. Exclusive work. When callers release a target only while no fiber uses it, every fiber inside a permit works on exactly one
  leased target, for the responsibility that holds it, and no two fibers work on the same target.
\<close>

theorem target_work_exclusive:
  assumes "target_reachable quiescentClient sys"
  shows "(\<forall>f p. insidePermit (sy_fibers sys f) p \<longrightarrow> (\<exists>!target. worksOn sys f target)) \<and>
     (\<forall>f g target. worksOn sys f target \<longrightarrow> worksOn sys g target \<longrightarrow> f = g)"
proof (intro conjI allI impI)
  have ok: "leasesOk (tr_nextPermit (sy_resources sys)) (tr_leases (sy_resources sys))" "permitsOk sys"
    using target_reachable_ok [OF assms] by (simp_all add: resourcesOk_def)
  have one: "p = q" if "insidePermit (sy_fibers sys f) p" "insidePermit (sy_fibers sys f) q" for f p q
  proof -
    have "fiberShape (sy_fibers sys f)" using ok(2) by (simp add: permitsOk_def)
    moreover have "\<not> plainActions (sy_fibers sys f)" using that(1) plain_not_inside by blast
    ultimately show ?thesis using that unfolding fiberShape_def permitActions_suffix by (auto simp: permitActions_def insidePermit_def)
  qed
  show "f = g" if "worksOn sys f target" "worksOn sys g target" for f g target
    using that ok(2) unfolding worksOn_def permitsOk_def by auto
  show "\<exists>!target. worksOn sys f target" if inside: "insidePermit (sy_fibers sys f) p" for f p
  proof -
    obtain k l where l: "map_of (ls_byTarget (tr_leases (sy_resources sys))) k = Some l" "tl_permit l = p"
      using quiescent_works [OF assms, of f] inside_wants [OF inside] unfolding worksUnder_def by blast
    then have k: "integrationTargetKey (tl_target l) = k" using leasesOk_lease(1) [OF ok(1)] by blast
    show ?thesis
    proof (rule ex1I [of _ "tl_target l"])
      show "worksOn sys f (tl_target l)" using l k inside by (auto simp: worksOn_def)
      fix target
      assume "worksOn sys f target"
      then obtain l' where l': "map_of (ls_byTarget (tr_leases (sy_resources sys))) (integrationTargetKey target) = Some l'"
        "tl_permit l' = p"
        using one [OF inside] by (auto simp: worksOn_def)
      then show "target = tl_target l"
        using leasesOk_permit [OF ok(1) l(1) l'(1)] l(2) k by (simp add: integrationTargetKey_inject [symmetric])
    qed
  qed
qed

theorem target_work_exclusive_witness:
  "target_reachable quiescentClient demoWorking \<and> insidePermit (sy_fibers demoWorking 0) 0 \<and> (\<exists>!target. worksOn demoWorking 0 target)"
proof -
  have r: "target_reachable quiescentClient demoWorking" by (intro demoWorking_reachable) simp_all
  then show ?thesis using target_work_exclusive [OF r] demoWorking_inside by blast
qed

text \<open>
  Acquisition is exact. It succeeds exactly when the responsibility already holds the target, or the target is free and the
  responsibility holds no other; then the responsibility holds it, and releasing a new lease restores the leases. A refused
  acquisition changes no lease.
\<close>

theorem target_acquisition_exact:
  assumes "target_reachable allowed sys" "s = sy_resources sys" "acquireTarget r s = (result, s')"
  shows "(result = Inr () \<longleftrightarrow> exactLease (tr_leases s) r \<noteq> None \<or>
       (map_of (ls_byTarget (tr_leases s)) (targetKeyOf r) = None \<and> map_of (ls_targetByResponsibility (tr_leases s)) (identityKeyOf r) = None)) \<and>
     (result = Inr () \<longrightarrow> exactLease (tr_leases s') r \<noteq> None) \<and>
     (result \<noteq> Inr () \<longrightarrow> tr_leases s' = tr_leases s) \<and>
     (result = Inr () \<longrightarrow> exactLease (tr_leases s) r = None \<longrightarrow> tr_leases (snd (releaseTarget r s')) = tr_leases s)"
proof -
  have ok: "leasesOk (tr_nextPermit s) (tr_leases s)"
    using target_reachable_ok [OF assms(1)] assms(2) by (simp add: resourcesOk_def)
  obtain conflict where run: "acquireTransition r (tr_nextPermit s) (tr_leases s) = (conflict, tr_leases s')"
    and result: "result = Inr () \<longleftrightarrow> conflict = None"
    using acquireTarget_state(1) [OF assms(3)] by blast
  have fresh: "withoutKey k (AList.update k v xs) = xs" if "map_of xs k = None" for k v and xs :: "(string \<times> 'z) list"
    using that by (induction xs) (auto simp: withoutKey_def)
  from ok run show ?thesis
  proof (cases rule: acquire_cases)
    case leased
    have lease: "exactLease (tr_leases s') r =
        Some \<lparr>tl_identity = resourceIdentity r, tl_permit = tr_nextPermit s, tl_target = rr_integrationTarget r\<rparr>"
      by (simp add: exactLease_iff leased(4) update_conv)
    have "tr_leases (snd (releaseTarget r s')) = tr_leases s"
      using lease fresh [OF leased(2)] fresh [OF leased(3)] by (simp add: releaseTarget_def releaseTransition_def leased(4))
    with lease result leased(1-3) show ?thesis by simp
  next
    case (mismatch l)
    have "map_of (ls_targetByResponsibility (tr_leases s)) (identityKeyOf r) = Some (integrationTargetKey (tl_target l))"
      using leasesOk_lease(3) [OF ok mismatch(4)] mismatch(3) by simp
    with mismatch result show ?thesis by (simp add: exactLease_def integrationTargetKey_inject split: option.splits)
  next
    case (unavailable l)
    with result show ?thesis by (simp add: exactLease_def split: option.splits)
  qed (use result in auto)
qed

theorem target_acquisition_exact_witness:
  "target_reachable allClients demoWorking \<and>
   fst (acquireTarget (demoResponsibility 7) (sy_resources demoWorking)) =
     Inl (IntegrationTargetResourceUnavailable (resourceIdentity (demoResponsibility 5)) (resourceIdentity (demoResponsibility 7))
       (rr_integrationTarget (demoResponsibility 7))) \<and>
   tr_leases (snd (acquireTarget (demoResponsibility 7) (sy_resources demoWorking))) = tr_leases (sy_resources demoWorking)"
proof -
  have r: "target_reachable allClients demoWorking" by (intro demoWorking_reachable) (simp_all add: allClients_def)
  have "fst (acquireTarget (demoResponsibility 7) (sy_resources demoWorking)) =
     Inl (IntegrationTargetResourceUnavailable (resourceIdentity (demoResponsibility 5)) (resourceIdentity (demoResponsibility 7))
       (rr_integrationTarget (demoResponsibility 7)))"
    by code_simp
  then show ?thesis
    using r target_acquisition_exact [OF r refl, of "demoResponsibility 7"] by (metis sum.distinct(1) prod.collapse)
qed

text \<open>
  The discipline of the callers is needed: a lease released while its permit is used leaves the old semaphore behind, and the next
  lease of the same target brings its own.
\<close>

lemma unquiesced_release_overlaps:
  assumes "\<not> quiescentClient sys (CallRelease r)" "target_reachable allClients sys"
  shows "\<exists>l f. exactLease (tr_leases (sy_resources sys)) r = Some l \<and> wantsPermit (sy_fibers sys f) (tl_permit l) \<and>
    (\<forall>k l'. map_of (ls_byTarget (tr_leases (snd (releaseTarget r (sy_resources sys))))) k = Some l' \<longrightarrow> tl_permit l' \<noteq> tl_permit l)"
proof -
  have ok: "leasesOk (tr_nextPermit (sy_resources sys)) (tr_leases (sy_resources sys))"
    using target_reachable_ok [OF assms(2)] by (simp add: resourcesOk_def)
  obtain l f where l: "exactLease (tr_leases (sy_resources sys)) r = Some l" "wantsPermit (sy_fibers sys f) (tl_permit l)"
    using assms(1) by auto
  moreover have "tl_permit l' \<noteq> tl_permit l"
    if "map_of (ls_byTarget (tr_leases (snd (releaseTarget r (sy_resources sys))))) k = Some l'" for k l'
    using that l(1) leasesOk_permit [OF ok, of _ l' "targetKeyOf r" l]
    by (auto simp: releaseTarget_def releaseTransition_def map_of_withoutKey exactLease_iff split: if_splits)
  ultimately show ?thesis by blast
qed

end
