(* ===== verification/Task_Work_Capacity.thy ===== *)
theory Task_Work_Capacity
  imports Journal_Properties
begin

text \<open>
  The operator's task-work capacity (\<^verbatim>\<open>control/task-work-capacity.ts\<close>, \<^verbatim>\<open>control/policy.ts\<close>): a compare-and-set on the run policy's revision
  that goes through the journal. An application reads the policy, compares the revision and appends the change under the key
  of the next revision. Requests arrive decoded. Concurrent operators interleave between the read and the append
  (\<open>capacity_step\<close>); the journal's keys make the append the deciding step.
\<close>

section \<open>Model\<close>

record RunControlPolicy =
  po_revision :: RunPolicyRevision
  po_taskExecutionCapacity :: TaskWorkCapacity

record SetTaskWorkCapacityRequest =
  sc_capacity :: TaskWorkCapacity
  sc_expectedRevision :: RunPolicyRevision
  sc_runId :: RunId

datatype TaskWorkCapacityError =
    CapacityJournalError JournalError
  | TaskWorkCapacityPolicyRevisionConflict RunControlPolicy RunPolicyRevision RunId

definition initialRunPolicyRevision :: RunPolicyRevision where
  "initialRunPolicyRevision = 1"

fun beganFieldsOf :: "JournalRecord \<Rightarrow> WorkflowRunBeganFields option" where
  "beganFieldsOf r = (case jr_event r of WorkflowRunBegan began \<Rightarrow> Some began | _ \<Rightarrow> None)"

fun capacityChangeOf :: "JournalRecord \<Rightarrow> TaskWorkCapacityChangedFields option" where
  "capacityChangeOf r = (case jr_event r of TaskWorkCapacityChanged changed \<Rightarrow> Some changed | _ \<Rightarrow> None)"

definition capacityChanges :: "JournalRecord list \<Rightarrow> TaskWorkCapacityChangedFields list" where
  "capacityChanges records = List.map_filter capacityChangeOf records"

definition reconstructTaskWorkCapacityPolicy :: "RunId \<Rightarrow> JournalRecord list \<Rightarrow> JournalError + RunControlPolicy" where
  "reconstructTaskWorkCapacityPolicy runId records =
     (case List.map_filter beganFieldsOf records of
        [] \<Rightarrow> Inl (WorkflowRunNotBegan runId)
      | began # _ \<Rightarrow>
          (case latest (capacityChanges records) of
             Some changed \<Rightarrow> Inr \<lparr>po_revision = cc_revision changed, po_taskExecutionCapacity = cc_capacity changed\<rparr>
           | None \<Rightarrow> Inr \<lparr>po_revision = initialRunPolicyRevision, po_taskExecutionCapacity = rb_taskExecutionCapacity began\<rparr>))"

definition readTaskWorkCapacity :: "'j InRunJournalService \<Rightarrow> RunId \<Rightarrow> ('j, TaskWorkCapacityError, RunControlPolicy) effect" where
  "readTaskWorkCapacity journal runId =
     mapError CapacityJournalError
       (andThen (ij_read journal runId) (\<lambda>records.
          case reconstructTaskWorkCapacityPolicy runId records of Inl e \<Rightarrow> fail e | Inr policy \<Rightarrow> succeed policy))"

definition prepareCapacityChange ::
  "'j InRunJournalService \<Rightarrow> SetTaskWorkCapacityRequest \<Rightarrow> ('j, TaskWorkCapacityError, RunControlPolicy) effect" where
  "prepareCapacityChange journal request =
     andThen (readTaskWorkCapacity journal (sc_runId request)) (\<lambda>current.
       if po_revision current \<noteq> sc_expectedRevision request
       then fail (TaskWorkCapacityPolicyRevisionConflict current (sc_expectedRevision request) (sc_runId request))
       else succeed current)"

definition capacityChangeFor :: "SetTaskWorkCapacityRequest \<Rightarrow> RunControlPolicy \<Rightarrow> TaskWorkCapacityChangedFields" where
  "capacityChangeFor request current =
     \<lparr>cc_capacity = sc_capacity request, cc_previousRevision = po_revision current, cc_revision = po_revision current + 1\<rparr>"

definition commitCapacityChange ::
  "'j InRunJournalService \<Rightarrow> SetTaskWorkCapacityRequest \<Rightarrow> RunControlPolicy \<Rightarrow> ('j, TaskWorkCapacityError, RunControlPolicy) effect" where
  "commitCapacityChange journal request current =
     (\<lambda>j. case ij_append journal (sc_runId request) (taskWorkCapacityPolicyRecordKey (po_revision current + 1))
                 (TaskWorkCapacityChanged (capacityChangeFor request current)) j of
        (Inr _, j') \<Rightarrow> (Inr \<lparr>po_revision = po_revision current + 1, po_taskExecutionCapacity = sc_capacity request\<rparr>, j')
      | (Inl (JournalStoreContradiction _ _ _), j') \<Rightarrow>
          andThen (readTaskWorkCapacity journal (sc_runId request)) (\<lambda>newest.
            fail (TaskWorkCapacityPolicyRevisionConflict newest (sc_expectedRevision request) (sc_runId request))) j'
      | (Inl e, j') \<Rightarrow> (Inl (CapacityJournalError e), j'))"

definition applyTaskWorkCapacity ::
  "'j InRunJournalService \<Rightarrow> SetTaskWorkCapacityRequest \<Rightarrow> ('j, TaskWorkCapacityError, RunControlPolicy) effect" where
  "applyTaskWorkCapacity journal request =
     andThen (prepareCapacityChange journal request) (commitCapacityChange journal request)"

section \<open>Concurrent operators\<close>

record CapacitySystem =
  cp_journal :: MemoryJournalState
  cp_pending :: "nat \<Rightarrow> (SetTaskWorkCapacityRequest \<times> RunControlPolicy) option"
  cp_acknowledged :: "(RunId \<times> RunControlPolicy) list"

text \<open>The other writers of the store record no capacity change and delete no history; every recorded beginning is decoded.\<close>

definition writesNoCapacity :: "MemoryJournalState \<Rightarrow> MemoryJournalState \<Rightarrow> bool" where
  "writesNoCapacity j j' \<longleftrightarrow>
     (\<forall>runId. \<exists>added. runRecords j' runId = runRecords j runId @ added \<and>
        (\<forall>r\<in>set added. capacityChangeOf r = None \<and> (\<forall>n. jr_key r \<noteq> taskWorkCapacityPolicyRecordKey n) \<and>
           (\<forall>began. beganFieldsOf r = Some began \<longrightarrow> validTaskWorkCapacity (rb_taskExecutionCapacity began))))"

inductive capacity_step :: "HistoryRules \<Rightarrow> CapacitySystem \<Rightarrow> CapacitySystem \<Rightarrow> bool" for rules where
  prepared: "validTaskWorkCapacity (sc_capacity request) \<Longrightarrow> cp_pending sys f = None \<Longrightarrow>
    prepareCapacityChange (memoryJournal rules) request (cp_journal sys) = (Inr current, j') \<Longrightarrow>
    capacity_step rules sys (sys\<lparr>cp_journal := j', cp_pending := (cp_pending sys)(f := Some (request, current))\<rparr>)"
| committed: "cp_pending sys f = Some (request, current) \<Longrightarrow>
    commitCapacityChange (memoryJournal rules) request current (cp_journal sys) = (result, j') \<Longrightarrow>
    capacity_step rules sys
      \<lparr>cp_journal = j', cp_pending = (cp_pending sys)(f := None),
       cp_acknowledged = (case result of Inl _ \<Rightarrow> [] | Inr policy \<Rightarrow> [(sc_runId request, policy)]) @ cp_acknowledged sys\<rparr>"
| stopped: "capacity_step rules sys (sys\<lparr>cp_pending := (cp_pending sys)(f := None)\<rparr>)"
| other: "store_step rules (cp_journal sys) j' \<Longrightarrow> writesNoCapacity (cp_journal sys) j' \<Longrightarrow>
    capacity_step rules sys (sys\<lparr>cp_journal := j'\<rparr>)"

inductive capacity_reachable :: "HistoryRules \<Rightarrow> CapacitySystem \<Rightarrow> bool" for rules where
  initial: "capacity_reachable rules \<lparr>cp_journal = emptyMemoryJournalState, cp_pending = \<lambda>_. None, cp_acknowledged = []\<rparr>"
| step: "capacity_reachable rules sys \<Longrightarrow> capacity_step rules sys sys' \<Longrightarrow> capacity_reachable rules sys'"

section \<open>Invariant\<close>

definition capacityHistoryOk :: "JournalRecord list \<Rightarrow> bool" where
  "capacityHistoryOk rs \<longleftrightarrow>
     map cc_revision (capacityChanges rs) = [2..<2 + length (capacityChanges rs)] \<and>
     (\<forall>r\<in>set rs. \<forall>changed. capacityChangeOf r = Some changed \<longrightarrow>
        jr_key r = taskWorkCapacityPolicyRecordKey (cc_revision changed) \<and> cc_previousRevision changed = cc_revision changed - 1 \<and>
        validTaskWorkCapacity (cc_capacity changed)) \<and>
     (\<forall>r\<in>set rs. \<forall>began. beganFieldsOf r = Some began \<longrightarrow> validTaskWorkCapacity (rb_taskExecutionCapacity began))"

definition policyRevision :: "JournalRecord list \<Rightarrow> RunPolicyRevision" where
  "policyRevision rs = Suc (length (capacityChanges rs))"

definition capacityRecorded :: "JournalRecord list \<Rightarrow> RunControlPolicy \<Rightarrow> bool" where
  "capacityRecorded rs policy \<longleftrightarrow>
     (\<exists>r\<in>set rs. capacityChangeOf r = Some \<lparr>cc_capacity = po_taskExecutionCapacity policy,
        cc_previousRevision = po_revision policy - 1, cc_revision = po_revision policy\<rparr>)"

lemma capacityChanges_simps [simp]:
  "capacityChanges [] = []"
  "capacityChanges (rs @ ts) = capacityChanges rs @ capacityChanges ts"
  "capacityChanges [r] = (case capacityChangeOf r of None \<Rightarrow> [] | Some c \<Rightarrow> [c])"
  by (simp_all add: capacityChanges_def split: option.split del: capacityChangeOf.simps)

lemma capacityChanges_none: "\<forall>r\<in>set ts. capacityChangeOf r = None \<Longrightarrow> capacityChanges ts = []"
  by (induction ts) (auto simp: capacityChanges_def simp del: capacityChangeOf.simps)

lemma capacityKey_inject: "taskWorkCapacityPolicyRecordKey m = taskWorkCapacityPolicyRecordKey n \<longleftrightarrow> m = n"
  by (simp add: taskWorkCapacityPolicyRecordKey_def)

lemma capacityKey_live: "taskWorkCapacityPolicyRecordKey n \<noteq> workflowRunTerminatedRecordKey"
  by (simp add: taskWorkCapacityPolicyRecordKey_def workflowRunTerminatedRecordKey_def)

lemma reconstruct_policy:
  assumes ok: "capacityHistoryOk rs" and policy: "reconstructTaskWorkCapacityPolicy runId rs = Inr policy"
  shows "po_revision policy = policyRevision rs \<and> validTaskWorkCapacity (po_taskExecutionCapacity policy)"
proof (cases "capacityChanges rs" rule: rev_cases)
  case Nil
  with policy obtain began where b: "began \<in> set (List.map_filter beganFieldsOf rs)"
    "policy = \<lparr>po_revision = 1, po_taskExecutionCapacity = rb_taskExecutionCapacity began\<rparr>"
    by (auto simp: reconstructTaskWorkCapacityPolicy_def initialRunPolicyRevision_def split: list.splits)
  then show ?thesis
    using ok Nil by (auto simp: policyRevision_def capacityHistoryOk_def set_map_filter_conv simp del: beganFieldsOf.simps)
next
  case (snoc cs changed)
  have p: "policy = \<lparr>po_revision = cc_revision changed, po_taskExecutionCapacity = cc_capacity changed\<rparr>"
    using policy snoc by (auto simp: reconstructTaskWorkCapacityPolicy_def split: list.splits)
  have "changed \<in> set (capacityChanges rs)" by (simp add: snoc)
  then obtain r where "r \<in> set rs" "capacityChangeOf r = Some changed"
    by (auto simp: capacityChanges_def set_map_filter_conv simp del: capacityChangeOf.simps)
  then have "validTaskWorkCapacity (cc_capacity changed)" using ok unfolding capacityHistoryOk_def by blast
  moreover have "cc_revision changed = Suc (Suc (length cs))"
    using ok unfolding capacityHistoryOk_def snoc by simp
  ultimately show ?thesis using p snoc by (simp add: policyRevision_def)
qed

lemma capacity_revision_recorded:
  assumes "capacityHistoryOk rs" "2 \<le> n" "n \<le> policyRevision rs"
  shows "\<exists>r\<in>set rs. \<exists>changed. capacityChangeOf r = Some changed \<and> cc_revision changed = n \<and> jr_key r = taskWorkCapacityPolicyRecordKey n"
proof -
  have "n \<in> set (map cc_revision (capacityChanges rs))"
    using assms unfolding capacityHistoryOk_def policyRevision_def by (auto simp del: upt_Suc)
  then obtain r changed where "r \<in> set rs" "capacityChangeOf r = Some changed" "cc_revision changed = n"
    by (auto simp: capacityChanges_def set_map_filter_conv simp del: capacityChangeOf.simps)
  then show ?thesis using assms(1) unfolding capacityHistoryOk_def by blast
qed

lemma capacityHistoryOk_added:
  assumes "capacityHistoryOk rs" "\<forall>r\<in>set ts. capacityChangeOf r = None \<and>
    (\<forall>began. beganFieldsOf r = Some began \<longrightarrow> validTaskWorkCapacity (rb_taskExecutionCapacity began))"
  shows "capacityHistoryOk (rs @ ts)" "policyRevision (rs @ ts) = policyRevision rs"
  using assms capacityChanges_none [of ts]
  by (auto simp: capacityHistoryOk_def policyRevision_def simp del: capacityChangeOf.simps beganFieldsOf.simps)

lemma capacityRecorded_mono: "capacityRecorded rs policy \<Longrightarrow> capacityRecorded (rs @ ts) policy"
  by (auto simp: capacityRecorded_def simp del: capacityChangeOf.simps)

text \<open>The next change extends a sound history exactly when its key is new and it follows a revision that was once current.\<close>

lemma capacityHistoryOk_changed:
  assumes ok: "capacityHistoryOk rs" and change: "jr_event r = TaskWorkCapacityChanged (capacityChangeFor request current)"
    and key: "jr_key r = taskWorkCapacityPolicyRecordKey (po_revision current + 1)" "jr_key r \<notin> jr_key ` set rs"
    and revision: "1 \<le> po_revision current" "po_revision current \<le> policyRevision rs"
    and valid: "validTaskWorkCapacity (sc_capacity request)"
  shows "capacityHistoryOk (rs @ [r])" "policyRevision (rs @ [r]) = Suc (policyRevision rs)"
proof -
  have "po_revision current = policyRevision rs"
    using capacity_revision_recorded [OF ok, of "po_revision current + 1"] key revision by force
  then show "capacityHistoryOk (rs @ [r])" "policyRevision (rs @ [r]) = Suc (policyRevision rs)"
    using ok change key valid by (auto simp: capacityHistoryOk_def policyRevision_def capacityChangeFor_def)
qed

definition capacityInvariant :: "CapacitySystem \<Rightarrow> bool" where
  "capacityInvariant sys \<longleftrightarrow>
     storeInvariant (cp_journal sys) \<and> (\<forall>runId. capacityHistoryOk (runRecords (cp_journal sys) runId)) \<and>
     (\<forall>f request current. cp_pending sys f = Some (request, current) \<longrightarrow>
        validTaskWorkCapacity (sc_capacity request) \<and> 1 \<le> po_revision current \<and>
        po_revision current \<le> policyRevision (runRecords (cp_journal sys) (sc_runId request))) \<and>
     (\<forall>(runId, policy)\<in>set (cp_acknowledged sys). capacityRecorded (runRecords (cp_journal sys) runId) policy)"

lemma capacityInvariant_dests:
  assumes "capacityInvariant sys"
  shows "storeInvariant (cp_journal sys)" "capacityHistoryOk (runRecords (cp_journal sys) runId)"
    "cp_pending sys f = Some (request, current) \<Longrightarrow> validTaskWorkCapacity (sc_capacity request) \<and> 1 \<le> po_revision current \<and>
       po_revision current \<le> policyRevision (runRecords (cp_journal sys) (sc_runId request))"
    "(runId, policy) \<in> set (cp_acknowledged sys) \<Longrightarrow> capacityRecorded (runRecords (cp_journal sys) runId) policy"
  using assms by (auto simp: capacityInvariant_def)

lemma prepare_memory:
  assumes "storeInvariant j" "prepareCapacityChange (memoryJournal rules) request j = (Inr current, j')"
  shows "j' = j" "reconstructTaskWorkCapacityPolicy (sc_runId request) (runRecords j (sc_runId request)) = Inr current"
  using assms(2) memoryRead_Inr [of j] assms(1) [unfolded storeInvariant_def]
  by (auto simp: prepareCapacityChange_def readTaskWorkCapacity_def memoryJournal_def andThen_def mapError_def
      split: prod.splits sum.splits if_splits)

lemma commit_cases:
  assumes "commitCapacityChange (memoryJournal rules) request current j = (result, j')"
  obtains (refused) e where "result = Inl e" "j' = j"
  | (accepted) r where "result = Inr \<lparr>po_revision = po_revision current + 1, po_taskExecutionCapacity = sc_capacity request\<rparr>"
      "memoryAppendTransition rules j (sc_runId request) (taskWorkCapacityPolicyRecordKey (po_revision current + 1))
         (TaskWorkCapacityChanged (capacityChangeFor request current)) = (Inr r, j')"
proof -
  obtain x j'' where app: "memoryAppendTransition rules j (sc_runId request) (taskWorkCapacityPolicyRecordKey (po_revision current + 1))
         (TaskWorkCapacityChanged (capacityChangeFor request current)) = (x, j'')" by fastforce
  show thesis
  proof (cases x)
    case (Inl e)
    with app have j'': "j'' = j" by (auto elim: memoryAppend_cases)
    have "\<exists>e'. result = Inl e' \<and> j' = j"
      using assms app Inl j''
      by (cases e) (auto simp: commitCapacityChange_def memoryJournal_def andThen_def readTaskWorkCapacity_def mapError_def
          split: prod.splits sum.splits)
    with refused show thesis by blast
  next
    case (Inr r)
    with app assms accepted show thesis by (auto simp: commitCapacityChange_def memoryJournal_def)
  qed
qed

text \<open>What one accepted change does to every run's history.\<close>

lemma commit_extends:
  assumes ok: "\<And>runId. capacityHistoryOk (runRecords j runId)"
    and valid: "validTaskWorkCapacity (sc_capacity request)"
    and revision: "1 \<le> po_revision current" "po_revision current \<le> policyRevision (runRecords j (sc_runId request))"
    and app: "memoryAppendTransition rules j (sc_runId request) (taskWorkCapacityPolicyRecordKey (po_revision current + 1))
         (TaskWorkCapacityChanged (capacityChangeFor request current)) = (Inr r, j')"
  shows "\<exists>added. runRecords j' runId = runRecords j runId @ added" "capacityHistoryOk (runRecords j' runId)"
    "policyRevision (runRecords j runId) \<le> policyRevision (runRecords j' runId)"
    "capacityRecorded (runRecords j' (sc_runId request))
       \<lparr>po_revision = po_revision current + 1, po_taskExecutionCapacity = sc_capacity request\<rparr>"
proof -
  from app have "(\<exists>added. runRecords j' runId = runRecords j runId @ added) \<and> capacityHistoryOk (runRecords j' runId) \<and>
    policyRevision (runRecords j runId) \<le> policyRevision (runRecords j' runId) \<and>
    capacityRecorded (runRecords j' (sc_runId request))
      \<lparr>po_revision = po_revision current + 1, po_taskExecutionCapacity = sc_capacity request\<rparr>"
  proof (cases rule: memoryAppend_cases)
    case (existing r')
    have "capacityRecorded (runRecords j (sc_runId request))
        \<lparr>po_revision = po_revision current + 1, po_taskExecutionCapacity = sc_capacity request\<rparr>"
      unfolding capacityRecorded_def using existing(4,6) by (intro bexI [of _ r']) (simp_all add: capacityChangeFor_def)
    then show ?thesis using existing(2) ok by simp
  next
    case extended
    define new where "new = \<lparr>jr_event = TaskWorkCapacityChanged (capacityChangeFor request current),
      jr_key = taskWorkCapacityPolicyRecordKey (po_revision current + 1),
      jr_position = length (runRecords j (sc_runId request)) + 1, jr_runId = sc_runId request\<rparr>"
    have rs: "runRecords j' runId = (if runId = sc_runId request then runRecords j (sc_runId request) @ [new] else runRecords j runId)" for runId
      using extended(2) by (simp add: new_def)
    note changed = capacityHistoryOk_changed [OF ok _ _ _ revision valid, of new]
    have "capacityHistoryOk (runRecords j (sc_runId request) @ [new])"
      "policyRevision (runRecords j (sc_runId request) @ [new]) = Suc (policyRevision (runRecords j (sc_runId request)))"
      using changed extended(4) by (simp_all add: new_def)
    then show ?thesis using ok rs [of runId] rs [of "sc_runId request"]
      by (auto simp: capacityRecorded_def new_def capacityChangeFor_def)
  qed simp
  then show "\<exists>added. runRecords j' runId = runRecords j runId @ added" "capacityHistoryOk (runRecords j' runId)"
    "policyRevision (runRecords j runId) \<le> policyRevision (runRecords j' runId)"
    "capacityRecorded (runRecords j' (sc_runId request))
       \<lparr>po_revision = po_revision current + 1, po_taskExecutionCapacity = sc_capacity request\<rparr>" by blast+
qed

text \<open>Any growth of the histories that keeps them sound keeps what is pending and what was acknowledged.\<close>

lemma capacityInvariant_grown:
  assumes inv: "capacityInvariant sys" and wf: "storeInvariant j'" and ok: "\<And>runId. capacityHistoryOk (runRecords j' runId)"
    and grown: "\<And>runId. \<exists>added. runRecords j' runId = runRecords (cp_journal sys) runId @ added"
    and revisions: "\<And>runId. policyRevision (runRecords (cp_journal sys) runId) \<le> policyRevision (runRecords j' runId)"
    and pending: "\<And>f p. P f = Some p \<Longrightarrow> cp_pending sys f = Some p"
    and acks: "\<And>runId policy. (runId, policy) \<in> set A \<Longrightarrow>
      (runId, policy) \<in> set (cp_acknowledged sys) \<or> capacityRecorded (runRecords j' runId) policy"
  shows "capacityInvariant \<lparr>cp_journal = j', cp_pending = P, cp_acknowledged = A\<rparr>"
proof -
  have "po_revision current \<le> policyRevision (runRecords j' (sc_runId request))"
    if "cp_pending sys f = Some (request, current)" for f request current
    using capacityInvariant_dests(3) [OF inv that] revisions [of "sc_runId request"] by linarith
  moreover have "capacityRecorded (runRecords j' runId) policy" if "(runId, policy) \<in> set (cp_acknowledged sys)" for runId policy
    using capacityInvariant_dests(4) [OF inv that] grown [of runId] capacityRecorded_mono by metis
  ultimately show ?thesis
    using wf ok pending acks capacityInvariant_dests(3) [OF inv] unfolding capacityInvariant_def by fastforce
qed

lemma capacityInvariant_step:
  assumes "capacity_step rules sys sys'" and inv: "capacityInvariant sys"
  shows "capacityInvariant sys'"
  using assms(1)
proof cases
  case (prepared request f current j')
  note p = prepare_memory [OF capacityInvariant_dests(1) [OF inv] prepared(4)]
  have "po_revision current = policyRevision (runRecords (cp_journal sys) (sc_runId request))"
    using reconstruct_policy [OF capacityInvariant_dests(2) [OF inv] p(2)] by simp
  then show ?thesis using inv prepared(1,2) p(1) unfolding capacityInvariant_def by (auto simp: policyRevision_def)
next
  case (committed f request current result j')
  note pending = capacityInvariant_dests(3) [OF inv committed(2)]
  from committed(3) show ?thesis
  proof (cases rule: commit_cases)
    case (refused e)
    then show ?thesis unfolding committed(1)
      using capacityInvariant_dests(1,2) [OF inv] by (intro capacityInvariant_grown [OF inv]) (auto split: if_splits)
  next
    case (accepted r)
    note grown = commit_extends [OF capacityInvariant_dests(2) [OF inv] _ _ _ accepted(2)]
    show ?thesis unfolding committed(1)
      using pending grown storeInvariant_append [OF capacityInvariant_dests(1) [OF inv] accepted(2)] accepted(1)
        capacityKey_live
      by (intro capacityInvariant_grown [OF inv]) (auto split: if_splits)
  qed
next
  case (stopped f)
  then show ?thesis using inv by (auto simp: capacityInvariant_def split: if_splits)
next
  case (other j')
  have added: "\<exists>added. runRecords j' runId = runRecords (cp_journal sys) runId @ added \<and>
      capacityHistoryOk (runRecords j' runId) \<and> policyRevision (runRecords j' runId) = policyRevision (runRecords (cp_journal sys) runId)" for runId
    using other(3) capacityHistoryOk_added [OF capacityInvariant_dests(2) [OF inv]] unfolding writesNoCapacity_def by metis
  then have "capacityInvariant \<lparr>cp_journal = j', cp_pending = cp_pending sys, cp_acknowledged = cp_acknowledged sys\<rparr>"
    using store_step_invariant [OF other(2)] capacityInvariant_dests(1) [OF inv]
    by (intro capacityInvariant_grown [OF inv]) (blast, blast, blast, metis order_refl, simp, simp)
  then show ?thesis unfolding other(1) by (cases sys) simp
qed

lemma capacity_reachable_invariant: "capacity_reachable rules sys \<Longrightarrow> capacityInvariant sys"
proof (induction rule: capacity_reachable.induct)
  case initial
  have "runRecords emptyMemoryJournalState runId = []" for runId
    by (simp add: runRecords_def emptyMemoryJournalState_def orElse_def)
  moreover have "storeInvariant emptyMemoryJournalState" by (rule storeInvariant_empty)
  ultimately show ?case by (simp add: capacityInvariant_def capacityHistoryOk_def)
qed (blast intro: capacityInvariant_step)

lemma capacityRecorded_unique:
  assumes "capacityHistoryOk rs" "capacityRecorded rs p" "capacityRecorded rs q" "po_revision p = po_revision q"
  shows "p = q"
proof -
  have "distinct (map cc_revision (capacityChanges rs))" using assms(1) unfolding capacityHistoryOk_def by (simp del: upt_Suc)
  then have inj: "inj_on cc_revision (set (capacityChanges rs))" by (simp add: distinct_map)
  have "\<lparr>cc_capacity = po_taskExecutionCapacity x, cc_previousRevision = po_revision x - 1, cc_revision = po_revision x\<rparr> \<in> set (capacityChanges rs)"
    if "capacityRecorded rs x" for x
    using that by (auto simp: capacityRecorded_def capacityChanges_def set_map_filter_conv simp del: capacityChangeOf.simps)
  from inj_onD [OF inj _ this [OF assms(2)] this [OF assms(3)]] assms(4) show ?thesis by (cases p; cases q) simp
qed

lemma accepted_policy:
  assumes ok: "capacityHistoryOk (runRecords j (sc_runId request))"
    and current: "po_revision current = policyRevision (runRecords j (sc_runId request))"
    and policy: "reconstructTaskWorkCapacityPolicy (sc_runId request) (runRecords j (sc_runId request)) = Inr current"
    and app: "memoryAppendTransition rules j (sc_runId request) (taskWorkCapacityPolicyRecordKey (po_revision current + 1))
         (TaskWorkCapacityChanged (capacityChangeFor request current)) = (Inr r, j')"
  shows "reconstructTaskWorkCapacityPolicy (sc_runId request) (runRecords j' (sc_runId request)) =
    Inr \<lparr>po_revision = po_revision current + 1, po_taskExecutionCapacity = sc_capacity request\<rparr>"
  using app
proof (cases rule: memoryAppend_cases)
  case (existing r')
  then have "capacityChangeFor request current \<in> set (capacityChanges (runRecords j (sc_runId request)))"
    by (force simp: capacityChanges_def set_map_filter_conv)
  then have "po_revision current + 1 \<in> set (map cc_revision (capacityChanges (runRecords j (sc_runId request))))"
    by (force simp: capacityChangeFor_def)
  then show ?thesis using ok current unfolding capacityHistoryOk_def policyRevision_def by (simp del: upt_Suc)
next
  case extended
  obtain began rest where "List.map_filter beganFieldsOf (runRecords j (sc_runId request)) = began # rest"
    using policy by (auto simp: reconstructTaskWorkCapacityPolicy_def split: list.splits)
  then show ?thesis
    by (simp add: extended(2) reconstructTaskWorkCapacityPolicy_def capacityChangeFor_def)
qed simp

section \<open>Properties\<close>

text \<open>
  C13. Capacity changes are linear. However operators and other writers interleave, every run's changes carry the revisions two,
  three and so on without gaps; an acknowledged change is recorded and no other change is ever acknowledged for its revision; and a
  reconstructed policy names the newest revision and a capacity between one and eight.
\<close>

theorem capacity_changes_linear:
  assumes "capacity_reachable rules sys"
  shows "map cc_revision (capacityChanges (runRecords (cp_journal sys) runId)) =
       [2..<2 + length (capacityChanges (runRecords (cp_journal sys) runId))] \<and>
     (\<forall>p. (runId, p) \<in> set (cp_acknowledged sys) \<longrightarrow> capacityRecorded (runRecords (cp_journal sys) runId) p) \<and>
     (\<forall>p q. (runId, p) \<in> set (cp_acknowledged sys) \<longrightarrow> (runId, q) \<in> set (cp_acknowledged sys) \<longrightarrow>
        po_revision p = po_revision q \<longrightarrow> p = q) \<and>
     (\<forall>p. reconstructTaskWorkCapacityPolicy runId (runRecords (cp_journal sys) runId) = Inr p \<longrightarrow>
        po_revision p = Suc (length (capacityChanges (runRecords (cp_journal sys) runId))) \<and>
        1 \<le> po_taskExecutionCapacity p \<and> po_taskExecutionCapacity p \<le> 8)"
proof -
  note inv = capacity_reachable_invariant [OF assms]
  note ok = capacityInvariant_dests(2) [OF inv] and acks = capacityInvariant_dests(4) [OF inv]
  have "map cc_revision (capacityChanges (runRecords (cp_journal sys) runId)) =
       [2..<2 + length (capacityChanges (runRecords (cp_journal sys) runId))]"
    using ok unfolding capacityHistoryOk_def by blast
  moreover have "p = q" if "(runId, p) \<in> set (cp_acknowledged sys)" "(runId, q) \<in> set (cp_acknowledged sys)"
    "po_revision p = po_revision q" for p q
    using capacityRecorded_unique [OF ok acks [OF that(1)] acks [OF that(2)] that(3)] .
  ultimately show ?thesis
    using acks reconstruct_policy [OF ok, of runId runId]
    by (simp add: policyRevision_def validTaskWorkCapacity_def maximumTaskWorkCapacityValue_def)
qed

definition demoCapacityRequest :: SetTaskWorkCapacityRequest where
  "demoCapacityRequest = \<lparr>sc_capacity = 4, sc_expectedRevision = 1, sc_runId = ''run''\<rparr>"

definition demoCapacityBegun :: CapacitySystem where
  "demoCapacityBegun = \<lparr>cp_journal = demoBegun, cp_pending = \<lambda>_. None, cp_acknowledged = []\<rparr>"

definition demoCapacityChanged :: CapacitySystem where
  "demoCapacityChanged = \<lparr>cp_journal = snd (applyTaskWorkCapacity (memoryJournal openRules) demoCapacityRequest demoBegun),
     cp_pending = \<lambda>_. None, cp_acknowledged = [(''run'', \<lparr>po_revision = 2, po_taskExecutionCapacity = 4\<rparr>)]\<rparr>"

lemma demo_capacity_policy:
  "reconstructTaskWorkCapacityPolicy ''run'' (runRecords demoBegun ''run'') = Inr \<lparr>po_revision = 1, po_taskExecutionCapacity = 2\<rparr>"
  by code_simp

lemma demo_capacity_prepared:
  "prepareCapacityChange (memoryJournal openRules) demoCapacityRequest demoBegun = (Inr \<lparr>po_revision = 1, po_taskExecutionCapacity = 2\<rparr>, demoBegun)"
  by code_simp

lemma demo_capacity_committed:
  "fst (commitCapacityChange (memoryJournal openRules) demoCapacityRequest \<lparr>po_revision = 1, po_taskExecutionCapacity = 2\<rparr> demoBegun) =
     Inr \<lparr>po_revision = 2, po_taskExecutionCapacity = 4\<rparr>"
  by code_simp

lemma demo_begun_records:
  "runRecords demoBegun runId = (if runId = ''run'' then [makeHistoricalWorkflowRunBeganRecord ''run'' demoBeginning] else [])"
proof -
  have "ms_hotRecordsByRun demoBegun = [(''run'', [makeHistoricalWorkflowRunBeganRecord ''run'' demoBeginning])]"
    "ms_coldRecordsByRun demoBegun = []" by code_simp+
  then show ?thesis by (simp add: runRecords_def orElse_def)
qed

lemma demoCapacityBegun_reachable: "capacity_reachable openRules demoCapacityBegun"
proof -
  have "runRecords emptyMemoryJournalState runId = []" for runId
    by (simp add: runRecords_def emptyMemoryJournalState_def orElse_def)
  then have "writesNoCapacity emptyMemoryJournalState demoBegun"
    by (simp add: writesNoCapacity_def demo_begun_records makeHistoricalWorkflowRunBeganRecord_def workflowRunBeganRecordKey_def
        taskWorkCapacityPolicyRecordKey_def demoBeginning_def validTaskWorkCapacity_def maximumTaskWorkCapacityValue_def)
  then show ?thesis
    using capacity_reachable.step [OF capacity_reachable.initial capacity_step.other [of openRules _ demoBegun]] demo_begun_step
    by (simp add: demoCapacityBegun_def)
qed

lemma demoCapacityChanged_reachable: "capacity_reachable openRules demoCapacityChanged"
proof -
  let ?current = "\<lparr>po_revision = 1, po_taskExecutionCapacity = 2\<rparr>"
  let ?sys = "demoCapacityBegun\<lparr>cp_journal := demoBegun, cp_pending := (cp_pending demoCapacityBegun)(0 := Some (demoCapacityRequest, ?current))\<rparr>"
  let ?commit = "commitCapacityChange (memoryJournal openRules) demoCapacityRequest ?current demoBegun"
  have "capacity_step openRules demoCapacityBegun ?sys"
    using demo_capacity_prepared
    by (intro capacity_step.prepared) (simp_all add: demoCapacityBegun_def demoCapacityRequest_def validTaskWorkCapacity_def maximumTaskWorkCapacityValue_def)
  then have "capacity_reachable openRules ?sys" by (rule capacity_reachable.step [OF demoCapacityBegun_reachable])
  moreover have "capacity_step openRules ?sys \<lparr>cp_journal = snd ?commit, cp_pending = (cp_pending ?sys)(0 := None),
      cp_acknowledged = (case fst ?commit of Inl _ \<Rightarrow> [] | Inr policy \<Rightarrow> [(sc_runId demoCapacityRequest, policy)]) @ cp_acknowledged ?sys\<rparr>"
    by (rule capacity_step.committed) simp_all
  ultimately have "capacity_reachable openRules \<lparr>cp_journal = snd ?commit, cp_pending = (cp_pending ?sys)(0 := None),
      cp_acknowledged = (case fst ?commit of Inl _ \<Rightarrow> [] | Inr policy \<Rightarrow> [(sc_runId demoCapacityRequest, policy)]) @ cp_acknowledged ?sys\<rparr>"
    by (rule capacity_reachable.step)
  moreover have "applyTaskWorkCapacity (memoryJournal openRules) demoCapacityRequest demoBegun = ?commit"
    by (simp add: applyTaskWorkCapacity_def andThen_def demo_capacity_prepared)
  ultimately show ?thesis
    unfolding demo_capacity_committed by (simp add: demoCapacityChanged_def demoCapacityBegun_def demoCapacityRequest_def fun_upd_idem)
qed

theorem capacity_changes_linear_witness:
  "capacity_reachable openRules demoCapacityChanged \<and>
   capacityRecorded (runRecords (cp_journal demoCapacityChanged) ''run'') \<lparr>po_revision = 2, po_taskExecutionCapacity = 4\<rparr>"
proof -
  have "(''run'', \<lparr>po_revision = 2, po_taskExecutionCapacity = 4\<rparr>) \<in> set (cp_acknowledged demoCapacityChanged)"
    by (simp add: demoCapacityChanged_def)
  then show ?thesis
    using demoCapacityChanged_reachable capacity_changes_linear [OF demoCapacityChanged_reachable, of "''run''"] by blast
qed

text \<open>
  A capacity application is exact. It succeeds only for the current revision, answers the next one, and the policy read
  afterwards is the answered one; a refused application changes nothing, and one that names another revision is told the current policy.
\<close>

theorem capacity_apply_exact:
  assumes "capacity_reachable rules sys" "validTaskWorkCapacity (sc_capacity request)"
    "reconstructTaskWorkCapacityPolicy (sc_runId request) (runRecords (cp_journal sys) (sc_runId request)) = Inr current"
    "applyTaskWorkCapacity (memoryJournal rules) request (cp_journal sys) = (result, j')"
  shows "(\<forall>e. result = Inl e \<longrightarrow> j' = cp_journal sys) \<and>
     (\<forall>p. result = Inr p \<longrightarrow> po_revision current = sc_expectedRevision request \<and>
        p = \<lparr>po_revision = sc_expectedRevision request + 1, po_taskExecutionCapacity = sc_capacity request\<rparr> \<and>
        reconstructTaskWorkCapacityPolicy (sc_runId request) (runRecords j' (sc_runId request)) = Inr p) \<and>
     (po_revision current \<noteq> sc_expectedRevision request \<longrightarrow> memoryRead rules (cp_journal sys) (sc_runId request) =
          Inr (runRecords (cp_journal sys) (sc_runId request)) \<longrightarrow>
        result = Inl (TaskWorkCapacityPolicyRevisionConflict current (sc_expectedRevision request) (sc_runId request)))"
proof -
  note inv = capacity_reachable_invariant [OF assms(1)]
  let ?rs = "runRecords (cp_journal sys) (sc_runId request)"
  have current: "po_revision current = policyRevision ?rs"
    using reconstruct_policy [OF capacityInvariant_dests(2) [OF inv] assms(3)] by simp
  obtain x j where prepared: "prepareCapacityChange (memoryJournal rules) request (cp_journal sys) = (x, j)" by fastforce
  have j: "j = cp_journal sys"
    using prepared by (auto simp: prepareCapacityChange_def readTaskWorkCapacity_def memoryJournal_def andThen_def mapError_def
        split: prod.splits sum.splits if_splits)
  have conflict: "x = Inl (TaskWorkCapacityPolicyRevisionConflict current (sc_expectedRevision request) (sc_runId request))"
    if "po_revision current \<noteq> sc_expectedRevision request" "memoryRead rules (cp_journal sys) (sc_runId request) = Inr ?rs"
    using prepared that assms(3)
    by (simp add: prepareCapacityChange_def readTaskWorkCapacity_def memoryJournal_def andThen_def mapError_def)
  show ?thesis
  proof (cases x)
    case (Inl e)
    then have "result = Inl e" "j' = cp_journal sys" using assms(4) prepared j by (simp_all add: applyTaskWorkCapacity_def andThen_def)
    with Inl conflict show ?thesis by auto
  next
    case (Inr current')
    note p = prepare_memory [OF capacityInvariant_dests(1) [OF inv] prepared [unfolded Inr]]
    then have current': "current' = current" using assms(3) by simp
    have expected: "po_revision current = sc_expectedRevision request"
      using prepared Inr current' by (auto simp: prepareCapacityChange_def andThen_def split: prod.splits sum.splits if_splits)
    have commit: "commitCapacityChange (memoryJournal rules) request current (cp_journal sys) = (result, j')"
      using assms(4) prepared Inr j current' by (simp add: applyTaskWorkCapacity_def andThen_def)
    then show ?thesis
    proof (cases rule: commit_cases)
      case (accepted r)
      have "reconstructTaskWorkCapacityPolicy (sc_runId request) (runRecords j' (sc_runId request)) =
          Inr \<lparr>po_revision = po_revision current + 1, po_taskExecutionCapacity = sc_capacity request\<rparr>"
        by (rule accepted_policy [OF capacityInvariant_dests(2) [OF inv] current assms(3) accepted(2)])
      with accepted(1) expected show ?thesis by simp
    qed (use expected in simp)
  qed
qed

theorem capacity_apply_exact_witness:
  "reconstructTaskWorkCapacityPolicy ''run'' (runRecords (cp_journal demoCapacityChanged) ''run'') =
     Inr \<lparr>po_revision = 2, po_taskExecutionCapacity = 4\<rparr>"
proof -
  have request: "sc_runId demoCapacityRequest = ''run''" "validTaskWorkCapacity (sc_capacity demoCapacityRequest)"
    by (simp_all add: demoCapacityRequest_def validTaskWorkCapacity_def maximumTaskWorkCapacityValue_def)
  have applied: "applyTaskWorkCapacity (memoryJournal openRules) demoCapacityRequest (cp_journal demoCapacityBegun) =
      (Inr \<lparr>po_revision = 2, po_taskExecutionCapacity = 4\<rparr>, cp_journal demoCapacityChanged)"
    using demo_capacity_committed
    by (simp add: demoCapacityBegun_def demoCapacityChanged_def applyTaskWorkCapacity_def andThen_def demo_capacity_prepared prod_eq_iff)
  have policy: "reconstructTaskWorkCapacityPolicy (sc_runId demoCapacityRequest)
      (runRecords (cp_journal demoCapacityBegun) (sc_runId demoCapacityRequest)) = Inr \<lparr>po_revision = 1, po_taskExecutionCapacity = 2\<rparr>"
    using demo_capacity_policy by (simp add: request demoCapacityBegun_def)
  show ?thesis
    using capacity_apply_exact [OF demoCapacityBegun_reachable request(2) policy applied] unfolding request by blast
qed

end
