(* ===== verification/Claim_Properties.thy ===== *)
theory Claim_Properties
  imports Task_Claims
begin

text \<open>
  What the claim protocols do on any tracker. Their calls are logged; \<open>acquisitionTrace\<close> and \<open>releaseTrace\<close> are the
  traces the protocols promise, with the answer each ends in, and every run is one of them.
\<close>

section \<open>Logged calls\<close>

datatype TrackerCall =
    ReadCall TaskId "TaskClaimError + TaskClaimObservation"
  | AcquireCall TaskClaimAcquisition "TaskClaimError + ActiveTaskClaim"
  | ReleaseCall TaskClaimRelease "TaskClaimError + unit"

definition logged :: "('e + 'a \<Rightarrow> 'c) \<Rightarrow> ('w, 'e, 'a) effect \<Rightarrow> ('w \<times> 'c list, 'e, 'a) effect" where
  "logged entry m = (\<lambda>(w, calls). case m w of (x, w') \<Rightarrow> (x, (w', calls @ [entry x])))"

definition loggedTracker :: "'w TrackerMutationService \<Rightarrow> ('w \<times> TrackerCall list) TrackerMutationService" where
  "loggedTracker tracker =
     \<lparr>tm_acquireTaskClaim = (\<lambda>acquisition. logged (AcquireCall acquisition) (tm_acquireTaskClaim tracker acquisition)),
      tm_readTaskClaim = (\<lambda>taskId. logged (ReadCall taskId) (tm_readTaskClaim tracker taskId)),
      tm_readTaskClaimForAcquisition =
        map_option (\<lambda>read taskId call. logged (ReadCall taskId) (read taskId call)) (tm_readTaskClaimForAcquisition tracker),
      tm_releaseTaskClaim = (\<lambda>release. logged (ReleaseCall release) (tm_releaseTaskClaim tracker release))\<rparr>"

definition loggedBoundary :: "'w TaskClaimReleaseBoundary \<Rightarrow> ('w \<times> TrackerCall list) TaskClaimReleaseBoundary" where
  "loggedBoundary tracker =
     \<lparr>rb_readTaskClaim = (\<lambda>taskId readOrdinal. logged (ReadCall taskId) (rb_readTaskClaim tracker taskId readOrdinal)),
      rb_releaseTaskClaim = (\<lambda>release. logged (ReleaseCall release) (rb_releaseTaskClaim tracker release))\<rparr>"

lemma loggedTracker_fields [simp]:
  "tm_acquireTaskClaim (loggedTracker tracker) a = logged (AcquireCall a) (tm_acquireTaskClaim tracker a)"
  "tm_readTaskClaim (loggedTracker tracker) t = logged (ReadCall t) (tm_readTaskClaim tracker t)"
  by (simp_all add: loggedTracker_def)

lemma loggedBoundary_fields [simp]:
  "rb_readTaskClaim (loggedBoundary tracker) t n = logged (ReadCall t) (rb_readTaskClaim tracker t n)"
  "rb_releaseTaskClaim (loggedBoundary tracker) release = logged (ReleaseCall release) (rb_releaseTaskClaim tracker release)"
  by (simp_all add: loggedBoundary_def)

lemma loggedE:
  assumes "logged entry m (w, calls) = (x, (w', calls'))"
  obtains "m w = (x, w')" "calls' = calls @ [entry x]"
  using assms by (auto simp: logged_def split: prod.splits)

lemma readCurrentClaim_logged:
  "readCurrentClaim (loggedTracker tracker) acquisition n = logged (ReadCall (aq_taskId acquisition)) (readCurrentClaim tracker acquisition n)"
  by (simp add: readCurrentClaim_def loggedTracker_def split: option.split)

lemma isExact_claimFrom: "isExactTaskClaim claim (claimFrom acquisition) \<longleftrightarrow> claim = claimFrom acquisition"
  by (cases claim) (auto simp: isExactTaskClaim_def claimFrom_def)

lemma isExact_iff: "isExactTaskClaim left right \<longleftrightarrow> left = right"
  by (cases left; cases right) (auto simp: isExactTaskClaim_def)

section \<open>Traces\<close>

fun ambiguousRequest :: "TaskClaimError + ActiveTaskClaim \<Rightarrow> bool" where
  "ambiguousRequest (Inr _) = True"
| "ambiguousRequest (Inl (TaskClaimRequestFailure _ _ _)) = True"
| "ambiguousRequest (Inl _) = False"

fun ambiguousRelease :: "TaskClaimError + unit \<Rightarrow> bool" where
  "ambiguousRelease (Inr _) = True"
| "ambiguousRelease (Inl (TaskClaimReleaseFailure _ _)) = True"
| "ambiguousRelease (Inl _) = False"

inductive acquisitionTrace :: "TaskClaimAcquisition \<Rightarrow> nat \<Rightarrow> TrackerCall list \<Rightarrow> TaskClaimError + ActiveTaskClaim \<Rightarrow> bool"
  for a where
  unread: "acquisitionTrace a n [ReadCall (aq_taskId a) (Inl e)] (Inl e)"
| owned: "acquisitionTrace a n [ReadCall (aq_taskId a) (Inr (ObservedClaim (claimFrom a)))] (Inr (claimFrom a))"
| foreign: "claim \<noteq> claimFrom a \<Longrightarrow>
    acquisitionTrace a n [ReadCall (aq_taskId a) (Inr (ObservedClaim claim))] (Inl (TaskClaimConflict a claim))"
| exhausted: "acquisitionTrace a 0 [ReadCall (aq_taskId a) (Inr (UnclaimedTask t))] (Inl (TaskClaimAcquisitionDidNotConverge a 3))"
| refused: "\<not> ambiguousRequest (Inl e) \<Longrightarrow>
    acquisitionTrace a (Suc n) [ReadCall (aq_taskId a) (Inr (UnclaimedTask t)), AcquireCall a (Inl e)] (Inl e)"
| requested: "ambiguousRequest x \<Longrightarrow> acquisitionTrace a n calls result \<Longrightarrow>
    acquisitionTrace a (Suc n) (ReadCall (aq_taskId a) (Inr (UnclaimedTask t)) # AcquireCall a x # calls) result"

inductive releaseTrace :: "TaskClaimRelease \<Rightarrow> nat \<Rightarrow> TrackerCall list \<Rightarrow> TaskClaimError + TaskClaimRelease \<Rightarrow> bool"
  for release where
  unread: "releaseTrace release n [ReadCall (ac_taskId (rl_claim release)) (Inl e)] (Inl e)"
| absent: "releaseTrace release n [ReadCall (ac_taskId (rl_claim release)) (Inr (UnclaimedTask t))] (Inr release)"
| foreign: "claim \<noteq> rl_claim release \<Longrightarrow>
    releaseTrace release n [ReadCall (ac_taskId (rl_claim release)) (Inr (ObservedClaim claim))]
      (Inl (TaskClaimOwnershipConflict (rl_claim release) (ObservedClaim claim)))"
| exhausted: "releaseTrace release 0 [ReadCall (ac_taskId (rl_claim release)) (Inr (ObservedClaim (rl_claim release)))]
    (Inl (TaskClaimReleaseDidNotConverge 3 release))"
| refused: "\<not> ambiguousRelease (Inl e) \<Longrightarrow>
    releaseTrace release (Suc n)
      [ReadCall (ac_taskId (rl_claim release)) (Inr (ObservedClaim (rl_claim release))), ReleaseCall release (Inl e)] (Inl e)"
| requested: "ambiguousRelease x \<Longrightarrow> releaseTrace release n calls result \<Longrightarrow>
    releaseTrace release (Suc n)
      (ReadCall (ac_taskId (rl_claim release)) (Inr (ObservedClaim (rl_claim release))) # ReleaseCall release x # calls) result"

lemma acquisitionPass_logged:
  assumes "acquisitionPass (loggedTracker tracker) a n (w, calls) = (x, (w', calls'))"
  shows "(\<exists>log. calls' = calls @ log \<and> (case x of
      Inl e \<Rightarrow> acquisitionTrace a (Suc m) log (Inl e)
    | Inr (Some claim) \<Rightarrow> acquisitionTrace a (Suc m) log (Inr claim)
    | Inr None \<Rightarrow> \<exists>t y. ambiguousRequest y \<and> log = [ReadCall (aq_taskId a) (Inr (UnclaimedTask t)), AcquireCall a y]))"
proof -
  obtain o' v mid where read: "logged (ReadCall (aq_taskId a)) (readCurrentClaim tracker a n) (w, calls) = (o', (v, mid))"
    by (metis surj_pair)
  then have mid: "mid = calls @ [ReadCall (aq_taskId a) o']" by (elim loggedE)
  show ?thesis
  proof (cases o')
    case (Inl e)
    with assms read mid show ?thesis
      by (auto simp: acquisitionPass_def andThen_def readCurrentClaim_logged intro: acquisitionTrace.unread)
  next
    case (Inr observation)
    show ?thesis
    proof (cases observation)
      case (ObservedClaim claim)
      with assms read mid Inr show ?thesis
        by (auto simp: acquisitionPass_def andThen_def readCurrentClaim_logged acceptObservedActiveClaim_def isExact_claimFrom
            split: if_splits intro: acquisitionTrace.owned acquisitionTrace.foreign)
    next
      case (UnclaimedTask t)
      obtain y u final where request: "logged (AcquireCall a) (tm_acquireTaskClaim tracker a) (v, mid) = (y, (u, final))" by (metis surj_pair)
      then have final: "final = mid @ [AcquireCall a y]" by (elim loggedE)
      have pass: "(x, (w', calls')) = (if ambiguousRequest y then (Inr None, (u, final)) else (Inl (projl y), (u, final)))"
        using assms read Inr UnclaimedTask request
        by (cases y rule: ambiguousRequest.cases) (auto simp: acquisitionPass_def andThen_def readCurrentClaim_logged)
      show ?thesis
      proof (cases "ambiguousRequest y")
        case False
        then obtain e where "y = Inl e" by (cases y) auto
        with False pass final mid Inr UnclaimedTask acquisitionTrace.refused [of e a m t] show ?thesis by auto
      qed (use pass final mid Inr UnclaimedTask in auto)
    qed
  qed
qed

lemma acquisitionPasses_trace:
  assumes "acquisitionPasses (loggedTracker tracker) a n m (w, calls) = (result, (w', calls'))"
  shows "\<exists>log. calls' = calls @ log \<and> acquisitionTrace a m log result"
  using assms
proof (induction m arbitrary: n w calls)
  case 0
  then show ?case
    by (auto simp: andThen_def readCurrentClaim_logged acceptObservedActiveClaim_def isExact_claimFrom maximumTaskClaimRequestCount_def
        elim!: loggedE split: prod.splits sum.splits TaskClaimObservation.splits if_splits
        intro: acquisitionTrace.intros acquisitionTrace.exhausted [unfolded One_nat_def])
next
  case (Suc m)
  obtain x v mid where pass: "acquisitionPass (loggedTracker tracker) a n (w, calls) = (x, (v, mid))" by (metis surj_pair)
  obtain log where log: "mid = calls @ log" "case x of
      Inl e \<Rightarrow> acquisitionTrace a (Suc m) log (Inl e)
    | Inr (Some claim) \<Rightarrow> acquisitionTrace a (Suc m) log (Inr claim)
    | Inr None \<Rightarrow> \<exists>t y. ambiguousRequest y \<and> log = [ReadCall (aq_taskId a) (Inr (UnclaimedTask t)), AcquireCall a y]"
    using acquisitionPass_logged [OF pass, of m] by blast
  show ?case
  proof (cases x)
    case (Inr accepted)
    show ?thesis
    proof (cases accepted)
      case None
      with Suc.prems pass Inr have rest: "acquisitionPasses (loggedTracker tracker) a (n + 1) m (v, mid) = (result, (w', calls'))"
        by (simp add: andThen_def)
      obtain log' where "calls' = mid @ log'" "acquisitionTrace a m log' result" using Suc.IH [OF rest] by blast
      with log None Inr show ?thesis by (auto intro!: acquisitionTrace.requested)
    qed (use Suc.prems pass Inr log in \<open>auto simp: andThen_def\<close>)
  qed (use Suc.prems pass log in \<open>auto simp: andThen_def\<close>)
qed

lemma releaseAttempts_trace:
  assumes "releaseAttempts (loggedBoundary tracker) release n m (w, calls) = (result, (w', calls'))" "n + m = 3"
  shows "\<exists>log. calls' = calls @ log \<and> releaseTrace release m log result"
  using assms
proof (induction m arbitrary: n w calls)
  case (0 n w calls)
  then show ?case
    by (auto simp: releaseAttempts.simps [of _ _ _ 0] andThen_def isExact_iff
        elim!: loggedE split: prod.splits sum.splits TaskClaimObservation.splits if_splits
        intro: releaseTrace.unread releaseTrace.absent releaseTrace.foreign releaseTrace.exhausted)
next
  case (Suc m)
  let ?task = "ac_taskId (rl_claim release)"
  obtain o' v mid where read: "logged (ReadCall ?task) (rb_readTaskClaim tracker ?task (n + 1)) (w, calls) = (o', (v, mid))"
    by (metis surj_pair)
  then have mid: "mid = calls @ [ReadCall ?task o']" by (elim loggedE)
  show ?case
  proof (cases "o' = Inr (ObservedClaim (rl_claim release))")
    case False
    with Suc.prems(1) read mid show ?thesis
      by (cases o') (auto simp: releaseAttempts.simps [of _ _ _ "Suc m"] andThen_def isExact_iff
          split: TaskClaimObservation.splits if_splits
          intro: releaseTrace.unread releaseTrace.absent releaseTrace.foreign)
  next
    case True
    obtain y u final where request: "logged (ReleaseCall release) (rb_releaseTaskClaim tracker release) (v, mid) = (y, (u, final))"
      by (metis surj_pair)
    then have final: "final = mid @ [ReleaseCall release y]" by (elim loggedE)
    have run: "(if ambiguousRelease y then releaseAttempts (loggedBoundary tracker) release (n + 1) m (u, final) else (Inl (projl y), (u, final))) =
        (result, (w', calls'))"
      using Suc.prems(1) read True request
      by (cases y rule: ambiguousRelease.cases)
        (auto simp: releaseAttempts.simps [of _ _ _ "Suc m"] andThen_def isExact_iff simp del: releaseAttempts.simps)
    show ?thesis
    proof (cases "ambiguousRelease y")
      case True
      with run obtain log where "calls' = final @ log" "releaseTrace release m log result"
        using Suc.IH [of "n + 1" u final] Suc.prems(2) by auto
      with True final mid \<open>o' = _\<close> show ?thesis by (auto intro!: releaseTrace.requested)
    next
      case False
      then obtain e where "y = Inl e" by (cases y) auto
      with False run final mid \<open>o' = _\<close> releaseTrace.refused [of e release m] show ?thesis by auto
    qed
  qed
qed

section \<open>What the traces promise\<close>

fun isAcquireCall :: "TrackerCall \<Rightarrow> bool" where
  "isAcquireCall (AcquireCall _ _) = True"
| "isAcquireCall _ = False"

fun isReleaseCall :: "TrackerCall \<Rightarrow> bool" where
  "isReleaseCall (ReleaseCall _ _) = True"
| "isReleaseCall _ = False"

definition directlyAfter :: "(TrackerCall \<Rightarrow> bool) \<Rightarrow> (TrackerCall \<Rightarrow> bool) \<Rightarrow> TrackerCall list \<Rightarrow> bool" where
  "directlyAfter request premise calls \<longleftrightarrow>
     (\<forall>earlier call later. calls = earlier @ call # later \<longrightarrow> request call \<longrightarrow> earlier \<noteq> [] \<and> premise (last earlier))"

lemma directlyAfter_single: "\<not> request c \<Longrightarrow> directlyAfter request premise [c]"
  by (auto simp: directlyAfter_def Cons_eq_append_conv)

lemma directlyAfter_Cons2:
  assumes "\<not> request c" "premise c" "directlyAfter request premise calls"
  shows "directlyAfter request premise (c # d # calls)"
proof (unfold directlyAfter_def, intro allI impI)
  fix earlier call later
  assume eq: "c # d # calls = earlier @ call # later" and req: "request call"
  show "earlier \<noteq> [] \<and> premise (last earlier)"
  proof (cases earlier)
    case Nil
    with eq req assms(1) show ?thesis by simp
  next
    case (Cons e es)
    show ?thesis
    proof (cases es)
      case Nil
      with Cons eq assms(2) show ?thesis by simp
    next
      case (Cons e' es')
      with \<open>earlier = e # es\<close> eq have calls: "calls = es' @ call # later" "e' = d" by simp_all
      then have "es' \<noteq> [] \<and> premise (last es')" using assms(3) req unfolding directlyAfter_def by blast
      then show ?thesis using Cons \<open>earlier = e # es\<close> by simp
    qed
  qed
qed

lemma directlyAfter_pair: "\<not> request c \<Longrightarrow> premise c \<Longrightarrow> directlyAfter request premise [c, d]"
  by (rule directlyAfter_Cons2) (simp_all add: directlyAfter_def)

definition unclaimedRead :: "TaskClaimAcquisition \<Rightarrow> TrackerCall \<Rightarrow> bool" where
  "unclaimedRead a call \<longleftrightarrow> (\<exists>t. call = ReadCall (aq_taskId a) (Inr (UnclaimedTask t)))"

fun callError :: "TrackerCall \<Rightarrow> TaskClaimError option" where
  "callError (ReadCall _ (Inl e)) = Some e"
| "callError (AcquireCall _ (Inl e)) = Some e"
| "callError (ReleaseCall _ (Inl e)) = Some e"
| "callError _ = None"

lemma acquisitionTrace_facts:
  assumes "acquisitionTrace a n calls result"
  shows "calls \<noteq> [] \<and> length (filter isAcquireCall calls) \<le> n \<and> length calls \<le> 2 * n + 1" (is ?bounds)
    "(\<forall>b x. AcquireCall b x \<in> set calls \<longrightarrow> b = a) \<and> \<not> list_ex isReleaseCall calls" (is ?own)
    "directlyAfter isAcquireCall (unclaimedRead a) calls" (is ?after)
    "case result of
       Inr claim \<Rightarrow> claim = claimFrom a \<and> last calls = ReadCall (aq_taskId a) (Inr (ObservedClaim claim))
     | Inl e \<Rightarrow> callError (last calls) = Some e \<or>
         (\<exists>claim. claim \<noteq> claimFrom a \<and> last calls = ReadCall (aq_taskId a) (Inr (ObservedClaim claim)) \<and> e = TaskClaimConflict a claim) \<or>
         (length (filter isAcquireCall calls) = n \<and> unclaimedRead a (last calls) \<and> e = TaskClaimAcquisitionDidNotConverge a 3)" (is ?result)
proof -
  show ?bounds using assms by (induction rule: acquisitionTrace.induct) auto
  show ?own using assms by (induction rule: acquisitionTrace.induct) auto
  show ?after using assms
    by (induction rule: acquisitionTrace.induct)
      (auto intro!: directlyAfter_single directlyAfter_pair directlyAfter_Cons2 simp: unclaimedRead_def)
  have "calls \<noteq> [] \<and> ?result" using assms
    by (induction rule: acquisitionTrace.induct) (auto simp: unclaimedRead_def split: sum.splits)
  then show ?result by simp
qed

definition exactRead :: "TaskClaimRelease \<Rightarrow> TrackerCall \<Rightarrow> bool" where
  "exactRead release call \<longleftrightarrow> call = ReadCall (ac_taskId (rl_claim release)) (Inr (ObservedClaim (rl_claim release)))"

lemma releaseTrace_facts:
  assumes "releaseTrace release n calls result"
  shows "calls \<noteq> [] \<and> length (filter isReleaseCall calls) \<le> n \<and> length calls \<le> 2 * n + 1" (is ?bounds)
    "(\<forall>r x. ReleaseCall r x \<in> set calls \<longrightarrow> r = release) \<and> \<not> list_ex isAcquireCall calls" (is ?own)
    "directlyAfter isReleaseCall (exactRead release) calls" (is ?after)
    "case result of
       Inr answer \<Rightarrow> answer = release \<and> (\<exists>t. last calls = ReadCall (ac_taskId (rl_claim release)) (Inr (UnclaimedTask t)))
     | Inl e \<Rightarrow> callError (last calls) = Some e \<or>
         (\<exists>claim. claim \<noteq> rl_claim release \<and> last calls = ReadCall (ac_taskId (rl_claim release)) (Inr (ObservedClaim claim)) \<and>
            e = TaskClaimOwnershipConflict (rl_claim release) (ObservedClaim claim)) \<or>
         (length (filter isReleaseCall calls) = n \<and> exactRead release (last calls) \<and> e = TaskClaimReleaseDidNotConverge 3 release)" (is ?result)
proof -
  show ?bounds using assms by (induction rule: releaseTrace.induct) auto
  show ?own using assms by (induction rule: releaseTrace.induct) auto
  show ?after using assms
    by (induction rule: releaseTrace.induct)
      (auto intro!: directlyAfter_single directlyAfter_pair directlyAfter_Cons2 simp: exactRead_def)
  have "calls \<noteq> [] \<and> ?result" using assms
    by (induction rule: releaseTrace.induct) (auto simp: exactRead_def split: sum.splits)
  then show ?result by simp
qed

text \<open>Logging changes nothing else.\<close>

lemma logged_apply: "logged entry m (w, calls) = (fst (m w), (snd (m w), calls @ [entry (fst (m w))]))"
  by (simp add: logged_def split: prod.split)

lemma acquisitionPass_unlogged:
  "\<exists>log. acquisitionPass (loggedTracker tracker) a n (w, calls) =
     (fst (acquisitionPass tracker a n w), (snd (acquisitionPass tracker a n w), log))"
proof -
  obtain x v where read: "readCurrentClaim tracker a n w = (x, v)" by fastforce
  obtain y u where request: "tm_acquireTaskClaim tracker a v = (y, u)" by fastforce
  show ?thesis
  proof (cases x)
    case (Inr observation)
    then show ?thesis
      using read request
      by (cases observation; cases y rule: ambiguousRequest.cases)
        (auto simp: acquisitionPass_def andThen_def readCurrentClaim_logged acceptObservedActiveClaim_def logged_apply)
  qed (use read in \<open>simp add: acquisitionPass_def andThen_def readCurrentClaim_logged logged_apply\<close>)
qed

lemma acquisitionPasses_unlogged:
  "\<exists>log. acquisitionPasses (loggedTracker tracker) a n m (w, calls) =
     (fst (acquisitionPasses tracker a n m w), (snd (acquisitionPasses tracker a n m w), log))"
proof (induction m arbitrary: n w calls)
  case 0
  obtain x v where "readCurrentClaim tracker a n w = (x, v)" by fastforce
  then show ?case
    by (cases x) (auto simp: andThen_def readCurrentClaim_logged acceptObservedActiveClaim_def logged_apply
        split: TaskClaimObservation.splits)
next
  case (Suc m)
  obtain x v where pass: "acquisitionPass tracker a n w = (x, v)" by fastforce
  obtain log where "acquisitionPass (loggedTracker tracker) a n (w, calls) = (x, (v, log))"
    using acquisitionPass_unlogged [of tracker a n w calls] pass by auto
  then show ?case using Suc.IH [of "n + 1" v log] pass by (cases x) (auto simp: andThen_def split: option.splits)
qed

lemma releaseAttempts_unlogged:
  "\<exists>log. releaseAttempts (loggedBoundary tracker) release n m (w, calls) =
     (fst (releaseAttempts tracker release n m w), (snd (releaseAttempts tracker release n m w), log))"
proof (induction m arbitrary: n w calls)
  case 0
  obtain x v where "rb_readTaskClaim tracker (ac_taskId (rl_claim release)) (n + 1) w = (x, v)" by fastforce
  then show ?case
    by (cases x) (auto simp: releaseAttempts.simps [of _ _ _ 0] andThen_def logged_apply split: TaskClaimObservation.splits)
next
  case (Suc m)
  obtain x v where read: "rb_readTaskClaim tracker (ac_taskId (rl_claim release)) (n + 1) w = (x, v)" by fastforce
  obtain y u where request: "rb_releaseTaskClaim tracker release v = (y, u)" by fastforce
  show ?case
  proof (cases x)
    case (Inr observation)
    then show ?thesis
      using read request Suc.IH [of "n + 1" u]
      by (cases observation; cases y rule: ambiguousRelease.cases)
        (auto simp: releaseAttempts.simps [of _ _ _ "Suc m"] andThen_def logged_apply simp del: releaseAttempts.simps)
  qed (use read in \<open>simp add: releaseAttempts.simps [of _ _ _ "Suc m"] andThen_def logged_apply del: releaseAttempts.simps\<close>)
qed

section \<open>Properties\<close>

definition demoAcquisition :: TaskClaimAcquisition where
  "demoAcquisition = \<lparr>aq_operationId = ''op'', aq_owner = ''dalph'', aq_taskId = ''task'', aq_token = ''token''\<rparr>"

definition demoRelease :: TaskClaimRelease where
  "demoRelease = \<lparr>rl_claim = claimFrom demoAcquisition, rl_operationId = ''cleanup''\<rparr>"

text \<open>
  C17. Acquiring a claim is safe on any tracker. The protocol requests at most three times and reads at most four times, requests
  only its own acquisition and only directly after a read that found the task unclaimed, and never releases. It answers success only
  when its last read showed its exact claim; otherwise it reports the failed call, the foreign claim it just read, or that three
  requests left the task unclaimed.
\<close>

theorem claim_acquisition_safe:
  assumes "runTaskClaimAcquisitionProtocol (loggedTracker tracker) a (w, []) = (result, (w', calls))"
  shows "runTaskClaimAcquisitionProtocol tracker a w = (result, w') \<and>
     length (filter isAcquireCall calls) \<le> 3 \<and> length calls \<le> 7 \<and>
     (\<forall>b x. AcquireCall b x \<in> set calls \<longrightarrow> b = a) \<and> \<not> list_ex isReleaseCall calls \<and>
     directlyAfter isAcquireCall (unclaimedRead a) calls \<and>
     (case result of
        Inr claim \<Rightarrow> claim = claimFrom a \<and> last calls = ReadCall (aq_taskId a) (Inr (ObservedClaim claim))
      | Inl e \<Rightarrow> callError (last calls) = Some e \<or>
          (\<exists>claim. claim \<noteq> claimFrom a \<and> last calls = ReadCall (aq_taskId a) (Inr (ObservedClaim claim)) \<and> e = TaskClaimConflict a claim) \<or>
          (length (filter isAcquireCall calls) = 3 \<and> unclaimedRead a (last calls) \<and> e = TaskClaimAcquisitionDidNotConverge a 3))"
proof -
  note run = assms [unfolded runTaskClaimAcquisitionProtocol_def maximumTaskClaimRequestCount_def]
  have trace: "acquisitionTrace a 3 calls result" using acquisitionPasses_trace [OF run] by auto
  have "runTaskClaimAcquisitionProtocol tracker a w = (result, w')"
    using run acquisitionPasses_unlogged [of tracker a 1 3 w "[]"]
    by (auto simp: runTaskClaimAcquisitionProtocol_def maximumTaskClaimRequestCount_def simp del: acquisitionPasses.simps)
  then show ?thesis using acquisitionTrace_facts [OF trace] by simp
qed

theorem claim_acquisition_safe_witness:
  "last (snd (snd (runTaskClaimAcquisitionProtocol (loggedTracker controlledTrackerMutation) demoAcquisition (\<lambda>_. None, [])))) =
     ReadCall (aq_taskId demoAcquisition) (Inr (ObservedClaim (claimFrom demoAcquisition)))"
proof -
  let ?run = "runTaskClaimAcquisitionProtocol (loggedTracker controlledTrackerMutation) demoAcquisition (\<lambda>_. None, [])"
  have run: "?run = (fst ?run, (fst (snd ?run), snd (snd ?run)))" by simp
  have "fst ?run = Inr (claimFrom demoAcquisition)" by code_simp
  then show ?thesis using claim_acquisition_safe [OF run] by simp
qed

text \<open>
  C18. Releasing a claim is safe on any tracker. The protocol requests at most three deletions, only of its own claim and only
  directly after a read that showed exactly this claim, so a foreign claim is never deleted. It answers success only when its last
  read found the task unclaimed.
\<close>

theorem claim_release_safe:
  assumes "runTaskClaimReleaseProtocol (loggedBoundary tracker) release (w, []) = (result, (w', calls))"
  shows "runTaskClaimReleaseProtocol tracker release w = (result, w') \<and>
     length (filter isReleaseCall calls) \<le> 3 \<and> length calls \<le> 7 \<and>
     (\<forall>r x. ReleaseCall r x \<in> set calls \<longrightarrow> r = release) \<and> \<not> list_ex isAcquireCall calls \<and>
     directlyAfter isReleaseCall (exactRead release) calls \<and>
     (case result of
        Inr answer \<Rightarrow> answer = release \<and> (\<exists>t. last calls = ReadCall (ac_taskId (rl_claim release)) (Inr (UnclaimedTask t)))
      | Inl e \<Rightarrow> callError (last calls) = Some e \<or>
          (\<exists>claim. claim \<noteq> rl_claim release \<and> last calls = ReadCall (ac_taskId (rl_claim release)) (Inr (ObservedClaim claim)) \<and>
             e = TaskClaimOwnershipConflict (rl_claim release) (ObservedClaim claim)) \<or>
          (length (filter isReleaseCall calls) = 3 \<and> exactRead release (last calls) \<and> e = TaskClaimReleaseDidNotConverge 3 release))"
proof -
  note run = assms [unfolded runTaskClaimReleaseProtocol_def taskClaimReleaseRequestBound_def]
  have trace: "releaseTrace release 3 calls result" using releaseAttempts_trace [OF run] by auto
  have "runTaskClaimReleaseProtocol tracker release w = (result, w')"
    using run releaseAttempts_unlogged [of tracker release 0 3 w "[]"]
    by (auto simp: runTaskClaimReleaseProtocol_def taskClaimReleaseRequestBound_def simp del: releaseAttempts.simps)
  then show ?thesis using releaseTrace_facts [OF trace] by simp
qed

theorem claim_release_safe_witness:
  "\<exists>t. last (snd (snd (runTaskClaimReleaseProtocol (loggedBoundary (releaseBoundaryOf controlledTrackerMutation)) demoRelease
       ((\<lambda>_. Some (claimFrom demoAcquisition)), [])))) = ReadCall (ac_taskId (rl_claim demoRelease)) (Inr (UnclaimedTask t))"
proof -
  let ?run = "runTaskClaimReleaseProtocol (loggedBoundary (releaseBoundaryOf controlledTrackerMutation)) demoRelease
       ((\<lambda>_. Some (claimFrom demoAcquisition)), [])"
  have run: "?run = (fst ?run, (fst (snd ?run), snd (snd ?run)))" by simp
  have "fst ?run = Inr demoRelease" by code_simp
  then show ?thesis using claim_release_safe [OF run] by simp
qed


end
