(* ===== verification/Record_Evidence.thy ===== *)
theory Record_Evidence
  imports Workflow_Events
begin

text \<open>
  Indexed evidence of a journal (\<^verbatim>\<open>workflow-journal/record-evidence.ts\<close>, \<^verbatim>\<open>record-sequence.ts\<close>,
  \<^verbatim>\<open>claim-observation-episodes.ts\<close>): records enter persistent sequences under their key, their kind, their task and kind, their promotion
  request, and the focused claim observations form episodes; a prefix view shares the indexes and hides what comes later. A hash map is a function into
  \<open>option\<close>. Every query has two branches in the source, for a plain array (\<open>list...\<close>) and for indexed evidence
  (\<open>indexed...\<close>). What events of other families name is the argument \<open>other\<close>; it sees the earlier records, on which a
  reconfirmed graph observation depends.
\<close>

section \<open>Record sequences\<close>

record JournalRecordSequence =
  sq_storage :: "nat \<Rightarrow> JournalRecord option"
  sq_length :: nat

definition emptyJournalRecords :: JournalRecordSequence where
  "emptyJournalRecords = \<lparr>sq_storage = \<lambda>_. None, sq_length = 0\<rparr>"

definition appendJournalRecord :: "JournalRecordSequence \<Rightarrow> JournalRecord \<Rightarrow> JournalRecordSequence" where
  "appendJournalRecord prior record' =
     \<lparr>sq_storage = (sq_storage prior)(sq_length prior := Some record'), sq_length = sq_length prior + 1\<rparr>"

definition journalRecordAt :: "JournalRecordSequence \<Rightarrow> int \<Rightarrow> JournalRecord option" where
  "journalRecordAt records offset =
     (let index = (if offset < 0 then int (sq_length records) + offset else offset) in
      if index < 0 \<or> index \<ge> int (sq_length records) then None else sq_storage records (nat index))"

definition journalRecordsBefore :: "JournalRecordSequence \<Rightarrow> int \<Rightarrow> JournalRecordSequence" where
  "journalRecordsBefore records exclusiveEnd =
     records\<lparr>sq_length := nat (max 0 (min (int (sq_length records)) exclusiveEnd))\<rparr>"

text \<open>The export fails on a hole in the storage.\<close>

fun allPresent :: "'a option list \<Rightarrow> 'a list option" where
  "allPresent [] = Some []"
| "allPresent (None # _) = None"
| "allPresent (Some x # rest) = map_option (Cons x) (allPresent rest)"

definition materializeJournalRecords :: "JournalRecordSequence \<Rightarrow> JournalRecord list option" where
  "materializeJournalRecords records = allPresent (map (sq_storage records) [0..<sq_length records])"

text \<open>The binary search for the number of records up to a position.\<close>

function countLoop :: "JournalRecordSequence \<Rightarrow> nat \<Rightarrow> nat \<Rightarrow> nat \<Rightarrow> nat" where
  "countLoop records position low high =
     (if low < high
      then let middle = (low + high) div 2 in
        (case journalRecordAt records (int middle) of
           Some r \<Rightarrow> if jr_position r \<le> position then countLoop records position (middle + 1) high
                     else countLoop records position low middle
         | None \<Rightarrow> countLoop records position low middle)
      else low)"
  by pat_completeness auto
termination by (relation "measure (\<lambda>(_, _, low, high). high - low)") auto

declare countLoop.simps [simp del]

definition recordCountThroughPosition :: "JournalRecordSequence \<Rightarrow> nat \<Rightarrow> nat" where
  "recordCountThroughPosition records position = countLoop records position 0 (sq_length records)"

section \<open>Claim observation episodes\<close>

record EpisodeRoots =
  er_byTask :: "TaskId \<Rightarrow> JournalRecordSequence option"
  er_startedAt :: "JournalPosition \<Rightarrow> JournalPosition option"

definition emptyClaimObservationEpisodes :: EpisodeRoots where
  "emptyClaimObservationEpisodes = \<lparr>er_byTask = \<lambda>_. None, er_startedAt = \<lambda>_. None\<rparr>"

text \<open>A focused claim observation: its task, and what was read unless it was unreadable.\<close>

fun focusedObservation :: "JournalRecord \<Rightarrow> (TaskId \<times> TaskClaimObservation option) option" where
  "focusedObservation r =
     (case jr_event r of
        TaskTrackerFactsObserved _ (FocusedTaskClaimFacts taskId observation) \<Rightarrow> Some (taskId, Some observation)
      | TaskTrackerFactsObserved _ (FocusedTaskClaimFactsUnreadable taskId) \<Rightarrow> Some (taskId, None)
      | _ \<Rightarrow> None)"

definition sameObservation :: "JournalRecord \<Rightarrow> JournalRecord \<Rightarrow> bool" where
  "sameObservation left right =
     (case (focusedObservation left, focusedObservation right) of
        (Some (_, Some (UnclaimedTask _)), Some (_, Some after)) \<Rightarrow> (case after of UnclaimedTask _ \<Rightarrow> True | _ \<Rightarrow> False)
      | (Some (_, Some (ObservedClaim before)), Some (_, Some after)) \<Rightarrow>
          (case after of ObservedClaim claim \<Rightarrow> isExactTaskClaim before claim | _ \<Rightarrow> False)
      | _ \<Rightarrow> False)"

definition sequenceIn :: "('k \<Rightarrow> JournalRecordSequence option) \<Rightarrow> 'k \<Rightarrow> JournalRecordSequence" where
  "sequenceIn index key = (case index key of None \<Rightarrow> emptyJournalRecords | Some records \<Rightarrow> records)"

definition appendClaimObservationEpisode :: "EpisodeRoots \<Rightarrow> JournalRecord \<Rightarrow> EpisodeRoots" where
  "appendClaimObservationEpisode roots record' =
     (case focusedObservation record' of
        None \<Rightarrow> roots
      | Some (taskId, _) \<Rightarrow>
          let prior = sequenceIn (er_byTask roots) taskId;
              startedAt =
                (case journalRecordAt prior (-1) of
                   Some newest \<Rightarrow>
                     if sameObservation newest record'
                     then (case er_startedAt roots (jr_position newest) of None \<Rightarrow> jr_position record' | Some p \<Rightarrow> p)
                     else jr_position record'
                 | None \<Rightarrow> jr_position record')
          in \<lparr>er_byTask = (er_byTask roots)(taskId := Some (appendJournalRecord prior record')),
              er_startedAt = (er_startedAt roots)(jr_position record' := Some startedAt)\<rparr>)"

definition claimObservationEpisodeAt :: "EpisodeRoots \<Rightarrow> TaskId \<Rightarrow> nat \<Rightarrow> (JournalRecord \<times> JournalPosition) option" where
  "claimObservationEpisodeAt roots taskId throughPosition =
     (let records = sequenceIn (er_byTask roots) taskId;
          low = countLoop records throughPosition 0 (sq_length records)
      in case (if low = 0 then None else journalRecordAt records (int low - 1)) of
           None \<Rightarrow> None
         | Some r \<Rightarrow> map_option (Pair r) (er_startedAt roots (jr_position r)))"

section \<open>Kinds and tasks of a record\<close>

fun promotionEventTag :: "TargetPromotionJournalEvent \<Rightarrow> string" where
  "promotionEventTag (TargetPromotionSafetyRefused _ _ _ _ _) = ''TargetPromotionSafetyRefused''"
| "promotionEventTag (TargetPromotionIntended _) = ''TargetPromotionIntended''"
| "promotionEventTag (TargetPromotionAttemptIntended _ _ _) = ''TargetPromotionAttemptIntended''"
| "promotionEventTag (TargetPromotionReconciliationDeferred _ _ _) = ''TargetPromotionReconciliationDeferred''"
| "promotionEventTag (TargetPromotionObservedSuccess _ _ _) = ''TargetPromotionObservedSuccess''"
| "promotionEventTag (TargetPromotionStale _ _ _) = ''TargetPromotionStale''"
| "promotionEventTag (TargetPromotionNonConvergence _ _ _ _) = ''TargetPromotionNonConvergence''"

fun publicationEventTag :: "RemotePublicationJournalEvent \<Rightarrow> string" where
  "publicationEventTag (RemotePublicationAdmissionReadIntended _ _ _) = ''RemotePublicationAdmissionReadIntended''"
| "publicationEventTag (RemotePublicationAdmissionObserved _ _ _ _) = ''RemotePublicationAdmissionObserved''"
| "publicationEventTag (RemotePublicationIntended _) = ''RemotePublicationIntended''"
| "publicationEventTag (RemotePublicationAttemptIntended _ _ _ _) = ''RemotePublicationAttemptIntended''"
| "publicationEventTag (RemotePublicationAttemptRejectedNonFastForward _ _) = ''RemotePublicationAttemptRejectedNonFastForward''"
| "publicationEventTag (RemotePublicationSucceeded _ _) = ''RemotePublicationSucceeded''"
| "publicationEventTag (RemotePublicationRetained _ _ _ _) = ''RemotePublicationRetained''"
| "publicationEventTag (RemotePublicationResumeRequested _ _) = ''RemotePublicationResumeRequested''"
| "publicationEventTag (RemotePublicationBatchGrantApplied _) = ''RemotePublicationBatchGrantApplied''"

fun eventTag :: "WorkflowJournalEvent \<Rightarrow> string" where
  "eventTag (WorkflowRunBegan _) = ''WorkflowRunBegan''"
| "eventTag (TaskWorkCapacityChanged _) = ''TaskWorkCapacityChanged''"
| "eventTag (WorkflowRunTerminated _ _) = ''WorkflowRunTerminated''"
| "eventTag (TargetPromotionEvent e) = promotionEventTag e"
| "eventTag (RemotePublicationEvent e) = publicationEventTag e"
| "eventTag (ControlDirectionApplied _ _ _) = ''ControlDirectionApplied''"
| "eventTag (TaskTrackerReadIntentRecorded _) = ''TaskTrackerReadIntentRecorded''"
| "eventTag (TaskClaimAcquisitionIntended _) = ''TaskClaimAcquisitionIntended''"
| "eventTag (TaskClaimAcquisitionRejected _ _) = ''TaskClaimAcquisitionRejected''"
| "eventTag (TaskClaimAcquired _) = ''TaskClaimAcquired''"
| "eventTag (TaskClaimReleaseIntended _) = ''TaskClaimReleaseIntended''"
| "eventTag (TaskClaimReleased _) = ''TaskClaimReleased''"
| "eventTag (TaskClaimReacquisitionDirected _ _ _) = ''TaskClaimReacquisitionDirected''"
| "eventTag (TaskTrackerFactsObserved _ _) = ''TaskTrackerFactsObserved''"
| "eventTag (OtherWorkflowEvent tag _) = tag"

text \<open>
  The tasks that events of the families outside this library name, in indexed evidence and in a plain array, and their promotion
  request are parameters.
\<close>

record OtherEvents =
  oe_tasks :: "JournalRecord list \<Rightarrow> WorkflowJournalEvent \<Rightarrow> TaskId list"
  oe_tasksListed :: "JournalRecord list \<Rightarrow> WorkflowJournalEvent \<Rightarrow> TaskId list"
  oe_promotionRequest :: "WorkflowJournalEvent \<Rightarrow> TargetPromotionRequestId option"

fun recordTaskIds :: "OtherEvents \<Rightarrow> JournalRecord list \<Rightarrow> WorkflowJournalEvent \<Rightarrow> TaskId list" where
  "recordTaskIds other earlier (WorkflowRunBegan _) = []"
| "recordTaskIds other earlier (TaskWorkCapacityChanged _) = []"
| "recordTaskIds other earlier (WorkflowRunTerminated _ _) = []"
| "recordTaskIds other earlier (TargetPromotionEvent event) =
     (case event of
        TargetPromotionObservedSuccess _ correlation _ \<Rightarrow>
          [pa_taskId (se_plannedAttempt (ir_session (qc_run (tp_qualifiedCandidate correlation))))]
      | _ \<Rightarrow> [])"
| "recordTaskIds other earlier (RemotePublicationEvent _) = []"
| "recordTaskIds other earlier (TaskTrackerReadIntentRecorded (ReadTaskClaim _ _ _ taskId)) = [taskId]"
| "recordTaskIds other earlier (TaskTrackerReadIntentRecorded (OtherTaskTrackerRead tag operationId taskIds payload)) =
     oe_tasks other earlier (TaskTrackerReadIntentRecorded (OtherTaskTrackerRead tag operationId taskIds payload))"
| "recordTaskIds other earlier (TaskClaimAcquisitionIntended operation) = [aq_taskId (ao_acquisition operation)]"
| "recordTaskIds other earlier (TaskClaimAcquisitionRejected _ _) = []"
| "recordTaskIds other earlier (TaskClaimAcquired claim) = [ac_taskId claim]"
| "recordTaskIds other earlier (TaskClaimReleaseIntended operation) = [ac_taskId (rl_claim (ro_release operation))]"
| "recordTaskIds other earlier (TaskClaimReleased release) = [ac_taskId (rl_claim release)]"
| "recordTaskIds other earlier (TaskClaimReacquisitionDirected _ _ taskId) = [taskId]"
| "recordTaskIds other earlier (ControlDirectionApplied _ _ (TaskSubject _ taskId)) = [taskId]"
| "recordTaskIds other earlier (ControlDirectionApplied _ _ (RunSubject _)) = []"
| "recordTaskIds other earlier (TaskTrackerFactsObserved _ (FocusedTaskClaimFacts taskId _)) = [taskId]"
| "recordTaskIds other earlier (TaskTrackerFactsObserved _ (FocusedTaskClaimFactsUnreadable taskId)) = [taskId]"
| "recordTaskIds other earlier (TaskTrackerFactsObserved operationId (OtherTaskTrackerFacts tag taskIds payload)) =
     oe_tasks other earlier (TaskTrackerFactsObserved operationId (OtherTaskTrackerFacts tag taskIds payload))"
| "recordTaskIds other earlier (OtherWorkflowEvent tag payload) = oe_tasks other earlier (OtherWorkflowEvent tag payload)"

fun promotionRequestIdOf :: "OtherEvents \<Rightarrow> WorkflowJournalEvent \<Rightarrow> TargetPromotionRequestId option" where
  "promotionRequestIdOf other (TargetPromotionEvent event) = Some (tp_requestId (pe_correlation event))"
| "promotionRequestIdOf other (OtherWorkflowEvent tag payload) = oe_promotionRequest other (OtherWorkflowEvent tag payload)"
| "promotionRequestIdOf other _ = None"

section \<open>Evidence\<close>

text \<open>
  The indexes by position, key, kind, task and promotion request and the claim observation episodes. Each index is updated on its own;
  those of attempts, operations, integrator sessions, restart reads, completion cycles and graph evidence belong to families
  outside this library.
\<close>

record EvidenceIndexes =
  ix_positionsAreOrdinals :: bool
  ix_byKey :: "JournalRecordKey \<Rightarrow> JournalRecord option"
  ix_byKind :: "string \<Rightarrow> JournalRecordSequence option"
  ix_byTask :: "TaskId \<Rightarrow> JournalRecordSequence option"
  ix_byTaskKind :: "TaskId \<Rightarrow> (string \<Rightarrow> JournalRecordSequence option) option"
  ix_byPromotionRequest :: "TargetPromotionRequestId \<Rightarrow> JournalRecordSequence option"
  ix_claimObservationEpisodes :: EpisodeRoots

record JournalRecordEvidence =
  ev_records :: JournalRecordSequence
  ev_lastPosition :: "JournalPosition option"
  ev_indexes :: EvidenceIndexes

definition emptyJournalEvidence :: JournalRecordEvidence where
  "emptyJournalEvidence =
     \<lparr>ev_records = emptyJournalRecords, ev_lastPosition = None,
      ev_indexes = \<lparr>ix_positionsAreOrdinals = True, ix_byKey = \<lambda>_. None, ix_byKind = \<lambda>_. None, ix_byTask = \<lambda>_. None,
        ix_byTaskKind = \<lambda>_. None, ix_byPromotionRequest = \<lambda>_. None, ix_claimObservationEpisodes = emptyClaimObservationEpisodes\<rparr>\<rparr>"

definition kindsIn :: "(TaskId \<Rightarrow> (string \<Rightarrow> JournalRecordSequence option) option) \<Rightarrow> TaskId \<Rightarrow> string \<Rightarrow> JournalRecordSequence option" where
  "kindsIn index taskId = (case index taskId of None \<Rightarrow> \<lambda>_. None | Some kinds \<Rightarrow> kinds)"

text \<open>The tasks a record names are a set.\<close>

fun appendTaskIndexes :: "TaskId list \<Rightarrow> JournalRecord \<Rightarrow> EvidenceIndexes \<Rightarrow> EvidenceIndexes" where
  "appendTaskIndexes [] record' indexes = indexes"
| "appendTaskIndexes (taskId # taskIds) record' indexes =
     appendTaskIndexes taskIds record'
       (indexes\<lparr>
          ix_byTask := (ix_byTask indexes)(taskId := Some (appendJournalRecord (sequenceIn (ix_byTask indexes) taskId) record')),
          ix_byTaskKind := (ix_byTaskKind indexes)(taskId := Some ((kindsIn (ix_byTaskKind indexes) taskId)
            (eventTag (jr_event record') :=
               Some (appendJournalRecord (sequenceIn (kindsIn (ix_byTaskKind indexes) taskId) (eventTag (jr_event record'))) record'))))\<rparr>)"

definition appendJournalEvidence ::
  "OtherEvents \<Rightarrow> JournalRecord list \<Rightarrow> JournalRecordEvidence \<Rightarrow> JournalRecord \<Rightarrow> JournalRecordEvidence" where
  "appendJournalEvidence other earlier prior record' =
     (let indexes = appendTaskIndexes (remdups (recordTaskIds other earlier (jr_event record'))) record' (ev_indexes prior);
          kind = eventTag (jr_event record')
      in \<lparr>ev_records = appendJournalRecord (ev_records prior) record', ev_lastPosition = Some (jr_position record'),
          ev_indexes = indexes\<lparr>
            ix_positionsAreOrdinals :=
              ix_positionsAreOrdinals indexes \<and> jr_position record' = sq_length (ev_records prior) + 1,
            ix_byKey :=
              (if ix_byKey indexes (jr_key record') \<noteq> None then ix_byKey indexes
               else (ix_byKey indexes)(jr_key record' := Some record')),
            ix_byKind := (ix_byKind indexes)(kind := Some (appendJournalRecord (sequenceIn (ix_byKind indexes) kind) record')),
            ix_byPromotionRequest :=
              (case promotionRequestIdOf other (jr_event record') of
                 None \<Rightarrow> ix_byPromotionRequest indexes
               | Some requestId \<Rightarrow>
                   (ix_byPromotionRequest indexes)
                     (requestId := Some (appendJournalRecord (sequenceIn (ix_byPromotionRequest indexes) requestId) record'))),
            ix_claimObservationEpisodes := appendClaimObservationEpisode (ix_claimObservationEpisodes indexes) record'\<rparr>\<rparr>)"

fun appendAllEvidence ::
  "OtherEvents \<Rightarrow> JournalRecord list \<Rightarrow> JournalRecordEvidence \<Rightarrow> JournalRecord list \<Rightarrow> JournalRecordEvidence" where
  "appendAllEvidence other earlier prior [] = prior"
| "appendAllEvidence other earlier prior (r # rs) =
     appendAllEvidence other (earlier @ [r]) (appendJournalEvidence other earlier prior r) rs"

definition journalEvidenceFrom :: "OtherEvents \<Rightarrow> JournalRecord list \<Rightarrow> JournalRecordEvidence" where
  "journalEvidenceFrom other records = appendAllEvidence other [] emptyJournalEvidence records"

definition journalEvidenceBefore :: "JournalRecordEvidence \<Rightarrow> nat \<Rightarrow> JournalRecordEvidence" where
  "journalEvidenceBefore source exclusivePosition =
     (if (case ev_lastPosition source of None \<Rightarrow> True | Some p \<Rightarrow> p < exclusivePosition) then source
      else let count = (if ix_positionsAreOrdinals (ev_indexes source) then max 0 (int exclusivePosition - 1)
                        else int (recordCountThroughPosition (ev_records source) (exclusivePosition - 1)));
               records = journalRecordsBefore (ev_records source) count
           in \<lparr>ev_records = records, ev_lastPosition = map_option jr_position (journalRecordAt records (-1)),
               ev_indexes = ev_indexes source\<rparr>)"

section \<open>Queries\<close>

definition throughOf :: "JournalRecordEvidence \<Rightarrow> nat" where
  "throughOf source = (case ev_lastPosition source of None \<Rightarrow> 0 | Some p \<Rightarrow> p)"

definition visible :: "JournalRecordEvidence \<Rightarrow> JournalRecord option \<Rightarrow> JournalRecord option" where
  "visible source found = (case found of None \<Rightarrow> None | Some r \<Rightarrow> if jr_position r \<le> throughOf source then Some r else None)"

definition lastVisibleRecord :: "JournalRecordEvidence \<Rightarrow> JournalRecordSequence \<Rightarrow> JournalRecord option" where
  "lastVisibleRecord source records =
     (let newest = journalRecordAt records (int (sq_length records) - 1) in
      if (case newest of None \<Rightarrow> True | Some r \<Rightarrow> jr_position r \<le> throughOf source) then newest
      else let count = recordCountThroughPosition records (throughOf source) in
        if count = 0 then None else journalRecordAt records (int count - 1))"

fun indexedFrom :: "JournalRecordEvidence \<Rightarrow> JournalRecordSequence \<Rightarrow> nat list \<Rightarrow> JournalRecord list" where
  "indexedFrom source records [] = []"
| "indexedFrom source records (index # indices) =
     (case journalRecordAt records (int index) of
        None \<Rightarrow> []
      | Some r \<Rightarrow> if jr_position r > throughOf source then [] else r # indexedFrom source records indices)"

definition indexedRecords :: "JournalRecordEvidence \<Rightarrow> JournalRecordSequence \<Rightarrow> JournalRecord list" where
  "indexedRecords source records = indexedFrom source records [0..<sq_length records]"

definition listRecordByKey :: "JournalRecord list \<Rightarrow> JournalRecordKey \<Rightarrow> JournalRecord option" where
  "listRecordByKey source key = List.find (\<lambda>r. jr_key r = key) source"

definition indexedRecordByKey :: "JournalRecordEvidence \<Rightarrow> JournalRecordKey \<Rightarrow> JournalRecord option" where
  "indexedRecordByKey source key = visible source (ix_byKey (ev_indexes source) key)"

definition indexedRecordByPosition :: "JournalRecordEvidence \<Rightarrow> JournalPosition \<Rightarrow> JournalRecord option" where
  "indexedRecordByPosition source position =
     (if position > throughOf source then None
      else if ix_positionsAreOrdinals (ev_indexes source) then journalRecordAt (ev_records source) (int position - 1)
      else (case journalRecordAt (ev_records source) (int (recordCountThroughPosition (ev_records source) (position - 1))) of
              None \<Rightarrow> None
            | Some r \<Rightarrow> if jr_position r = position then Some r else None))"

definition listRecordsAfter :: "JournalRecord list \<Rightarrow> JournalPosition option \<Rightarrow> JournalRecord list" where
  "listRecordsAfter source after = filter (\<lambda>r. case after of None \<Rightarrow> True | Some p \<Rightarrow> jr_position r > p) source"

definition indexedRecordsAfter :: "JournalRecordEvidence \<Rightarrow> JournalPosition option \<Rightarrow> JournalRecord list" where
  "indexedRecordsAfter source after =
     (let firstOffset =
        (case after of
           None \<Rightarrow> 0
         | Some p \<Rightarrow>
             if ix_positionsAreOrdinals (ev_indexes source) then p else recordCountThroughPosition (ev_records source) p)
      in List.map_filter (\<lambda>offset. journalRecordAt (ev_records source) (int offset)) [firstOffset..<sq_length (ev_records source)])"

definition listRecordsOfKind :: "JournalRecord list \<Rightarrow> string \<Rightarrow> JournalRecord list" where
  "listRecordsOfKind source kind = filter (\<lambda>r. eventTag (jr_event r) = kind) source"

definition indexedRecordsOfKind :: "JournalRecordEvidence \<Rightarrow> string \<Rightarrow> JournalRecord list" where
  "indexedRecordsOfKind source kind = indexedRecords source (sequenceIn (ix_byKind (ev_indexes source)) kind)"

definition listFirstOfKind :: "JournalRecord list \<Rightarrow> string \<Rightarrow> JournalRecord option" where
  "listFirstOfKind source kind = List.find (\<lambda>r. eventTag (jr_event r) = kind) source"

definition indexedFirstOfKind :: "JournalRecordEvidence \<Rightarrow> string \<Rightarrow> JournalRecord option" where
  "indexedFirstOfKind source kind = visible source (journalRecordAt (sequenceIn (ix_byKind (ev_indexes source)) kind) 0)"

definition listLastOfKind :: "JournalRecord list \<Rightarrow> string \<Rightarrow> JournalRecord option" where
  "listLastOfKind source kind = findLast (\<lambda>r. eventTag (jr_event r) = kind) source"

definition indexedLastOfKind :: "JournalRecordEvidence \<Rightarrow> string \<Rightarrow> JournalRecord option" where
  "indexedLastOfKind source kind = lastVisibleRecord source (sequenceIn (ix_byKind (ev_indexes source)) kind)"

definition indexedLastForTaskKind :: "JournalRecordEvidence \<Rightarrow> TaskId \<Rightarrow> string \<Rightarrow> JournalRecord option" where
  "indexedLastForTaskKind source taskId kind =
     lastVisibleRecord source (sequenceIn (kindsIn (ix_byTaskKind (ev_indexes source)) taskId) kind)"

definition indexedRecordsForTask :: "JournalRecordEvidence \<Rightarrow> TaskId \<Rightarrow> JournalRecord list" where
  "indexedRecordsForTask source taskId = indexedRecords source (sequenceIn (ix_byTask (ev_indexes source)) taskId)"

definition listRecordsForTask :: "OtherEvents \<Rightarrow> JournalRecord list \<Rightarrow> TaskId \<Rightarrow> JournalRecord list" where
  "listRecordsForTask other source taskId =
     filter (\<lambda>r. taskId \<in> set (recordTaskIds (other\<lparr>oe_tasks := \<lambda>_. oe_tasksListed other source\<rparr>) [] (jr_event r))) source"

definition indexedRecordsForPromotionRequest :: "JournalRecordEvidence \<Rightarrow> TargetPromotionRequestId \<Rightarrow> JournalRecord list" where
  "indexedRecordsForPromotionRequest source requestId =
     indexedRecords source (sequenceIn (ix_byPromotionRequest (ev_indexes source)) requestId)"

definition journalTaskClaimObservationAt :: "JournalRecordEvidence \<Rightarrow> TaskId \<Rightarrow> (JournalRecord \<times> JournalPosition) option" where
  "journalTaskClaimObservationAt source taskId =
     claimObservationEpisodeAt (ix_claimObservationEpisodes (ev_indexes source)) taskId (throughOf source)"

end
