(* ===== verification/Evidence_Laws.thy ===== *)
theory Evidence_Laws
  imports Record_Evidence
begin

text \<open>
  What indexed evidence means: sequences stand for lists (\<open>seqIs\<close>), the indexes of a history for its filtered lists
  (\<open>indexesFor\<close>), and a prefix view for the records up to its last position (\<open>viewOf\<close>).
\<close>

section \<open>Sequences\<close>

definition seqIs :: "JournalRecordSequence \<Rightarrow> JournalRecord list \<Rightarrow> bool" where
  "seqIs s rs \<longleftrightarrow> sq_length s = length rs \<and> (\<forall>i<length rs. sq_storage s i = Some (rs ! i))"

lemma seqIs_empty [simp]: "seqIs emptyJournalRecords []"
  by (simp add: seqIs_def emptyJournalRecords_def)

lemma seqIs_append: "seqIs s rs \<Longrightarrow> seqIs (appendJournalRecord s r) (rs @ [r])"
  by (auto simp: seqIs_def appendJournalRecord_def nth_append less_Suc_eq)

lemma seqIs_at: "seqIs s rs \<Longrightarrow> journalRecordAt s (int i) = (if i < length rs then Some (rs ! i) else None)"
  by (auto simp: seqIs_def journalRecordAt_def)

lemma seqIs_at_pred: "seqIs s rs \<Longrightarrow> 0 < i \<Longrightarrow> journalRecordAt s (int i - 1) = (if i \<le> length rs then Some (rs ! (i - 1)) else None)"
  using seqIs_at [of s rs "i - 1"] by (auto simp: of_nat_diff)

lemma seqIs_newest: "seqIs s rs \<Longrightarrow> journalRecordAt s (-1) = latest rs"
  by (auto simp: seqIs_def journalRecordAt_def latest_def last_conv_nth nat_diff_distrib')

lemma seqIs_last: "seqIs s rs \<Longrightarrow> journalRecordAt s (int (sq_length s) - 1) = latest rs"
  by (auto simp: seqIs_def journalRecordAt_def latest_def last_conv_nth nat_diff_distrib')

lemma seqIs_before: "seqIs s rs \<Longrightarrow> seqIs (journalRecordsBefore s (int n)) (take n rs)"
  by (auto simp: seqIs_def journalRecordsBefore_def min_def)

lemma seqIs_materialize: "seqIs s rs \<Longrightarrow> materializeJournalRecords s = Some rs"
proof -
  assume s: "seqIs s rs"
  have "allPresent (map Some xs) = Some xs" for xs :: "JournalRecord list" by (induction xs) auto
  moreover have "map (sq_storage s) [0..<sq_length s] = map Some rs"
    using s by (intro nth_equalityI) (auto simp: seqIs_def)
  ultimately show ?thesis by (simp add: materializeJournalRecords_def)
qed

section \<open>Chronological histories\<close>

definition chronological :: "JournalRecord list \<Rightarrow> bool" where
  "chronological rs \<longleftrightarrow> sorted_wrt (<) (map jr_position rs) \<and> (\<forall>r\<in>set rs. 1 \<le> jr_position r)"

lemma chronological_snoc:
  "chronological (rs @ [r]) \<longleftrightarrow> chronological rs \<and> 1 \<le> jr_position r \<and> (\<forall>q\<in>set rs. jr_position q < jr_position r)"
  by (auto simp: chronological_def sorted_wrt_append)

lemma chronological_append:
  "chronological (xs @ ys) \<longleftrightarrow> chronological xs \<and> chronological ys \<and> (\<forall>x\<in>set xs. \<forall>y\<in>set ys. jr_position x < jr_position y)"
  by (auto simp: chronological_def sorted_wrt_append)

lemma chronological_filter: "chronological rs \<Longrightarrow> chronological (filter P rs)"
  by (auto simp: chronological_def sorted_wrt_map sorted_wrt_filter)

lemma chronological_nth: "chronological rs \<Longrightarrow> i < j \<Longrightarrow> j < length rs \<Longrightarrow> jr_position (rs ! i) < jr_position (rs ! j)"
  unfolding chronological_def by (auto simp: sorted_wrt_iff_nth_less)

lemma chronological_inj: "chronological rs \<Longrightarrow> x \<in> set rs \<Longrightarrow> y \<in> set rs \<Longrightarrow> jr_position x = jr_position y \<Longrightarrow> x = y"
  by (induction rs rule: rev_induct) (auto simp: chronological_snoc)

definition upTo :: "nat \<Rightarrow> JournalRecord list \<Rightarrow> JournalRecord list" where
  "upTo p rs = filter (\<lambda>r. jr_position r \<le> p) rs"

lemma upTo_split:
  assumes "chronological rs"
  shows "\<exists>ys. rs = upTo p rs @ ys \<and> (\<forall>y\<in>set ys. p < jr_position y)"
  using assms
proof (induction rs rule: rev_induct)
  case (snoc r rs)
  then obtain ys where ys: "rs = upTo p rs @ ys" "\<forall>y\<in>set ys. p < jr_position y" by (auto simp: chronological_snoc)
  show ?case
  proof (cases "jr_position r \<le> p")
    case True
    have "jr_position y < jr_position r" if "y \<in> set rs" for y using snoc.prems that by (auto simp: chronological_snoc)
    then have "upTo p rs = rs" using True unfolding upTo_def by (intro filter_True) fastforce
    then show ?thesis using True by (auto simp: upTo_def)
  next
    case False
    then have "rs @ [r] = upTo p (rs @ [r]) @ (ys @ [r])" using ys by (simp add: upTo_def)
    then show ?thesis using False ys(2) by (intro exI [of _ "ys @ [r]"]) auto
  qed
qed (simp add: upTo_def)

lemma upTo_length:
  assumes "chronological rs" "i < length rs"
  shows "jr_position (rs ! i) \<le> p \<longleftrightarrow> i < length (upTo p rs)"
proof -
  obtain ys where ys: "rs = upTo p rs @ ys" "\<forall>y\<in>set ys. p < jr_position y" using upTo_split [OF assms(1)] by blast
  have "jr_position (upTo p rs ! i) \<le> p" if "i < length (upTo p rs)"
    using nth_mem [OF that] by (auto simp: upTo_def)
  moreover have "\<not> jr_position (ys ! (i - length (upTo p rs))) \<le> p" if "\<not> i < length (upTo p rs)"
  proof -
    have "length rs = length (upTo p rs) + length ys" using ys(1) by (metis length_append)
    then have "i - length (upTo p rs) < length ys" using assms(2) that by linarith
    then show ?thesis using ys(2) nth_mem by fastforce
  qed
  ultimately show ?thesis using ys(1) by (metis nth_append)
qed

lemma upTo_take: "chronological rs \<Longrightarrow> upTo p rs = take (length (upTo p rs)) rs"
  using upTo_split [of rs p] by (metis append_eq_conv_conj)

lemma chronological_upTo: "chronological rs \<Longrightarrow> chronological (upTo p rs)"
  by (simp add: upTo_def chronological_filter)

section \<open>Binary search\<close>

lemma countLoop_correct:
  assumes s: "seqIs s rs" and chron: "chronological rs"
    and "low \<le> length (upTo p rs)" "length (upTo p rs) \<le> high" "high \<le> length rs"
  shows "countLoop s p low high = length (upTo p rs)"
  using assms(3-5)
proof (induction "high - low" arbitrary: low high rule: less_induct)
  case less
  show ?case
  proof (cases "low < high")
    case True
    define middle where "middle = (low + high) div 2"
    have m: "low \<le> middle" "middle < high" "middle < length rs" using True less.prems(3) by (auto simp: middle_def)
    have at: "journalRecordAt s (int middle) = Some (rs ! middle)" using seqIs_at [OF s, of middle] m by simp
    have le: "jr_position (rs ! middle) \<le> p \<longleftrightarrow> middle < length (upTo p rs)" by (rule upTo_length [OF chron m(3)])
    have step: "countLoop s p low high =
        (if jr_position (rs ! middle) \<le> p then countLoop s p (middle + 1) high else countLoop s p low middle)"
      using True at by (subst countLoop.simps) (simp add: middle_def Let_def)
    show ?thesis
    proof (cases "jr_position (rs ! middle) \<le> p")
      case True
      then show ?thesis using step le m less.prems less.hyps [of high "middle + 1"] by simp
    next
      case False
      then show ?thesis using step le m less.prems less.hyps [of middle low] by simp
    qed
  next
    case False
    then show ?thesis using less.prems by (subst countLoop.simps) simp
  qed
qed

lemma recordCount_correct: "seqIs s rs \<Longrightarrow> chronological rs \<Longrightarrow> recordCountThroughPosition s p = length (upTo p rs)"
  unfolding recordCountThroughPosition_def
  by (intro countLoop_correct) (auto simp: upTo_def seqIs_def)

section \<open>Indexes\<close>

text \<open>The records that name a task, each judged with the records before it.\<close>

fun namedRecords :: "OtherEvents \<Rightarrow> JournalRecord list \<Rightarrow> JournalRecord list \<Rightarrow> TaskId \<Rightarrow> JournalRecord list" where
  "namedRecords other earlier [] taskId = []"
| "namedRecords other earlier (r # rs) taskId =
     (if taskId \<in> set (recordTaskIds other earlier (jr_event r)) then [r] else []) @ namedRecords other (earlier @ [r]) rs taskId"

lemma namedRecords_snoc:
  "namedRecords other earlier (rs @ [r]) t =
     namedRecords other earlier rs t @ (if t \<in> set (recordTaskIds other (earlier @ rs) (jr_event r)) then [r] else [])"
  by (induction rs arbitrary: earlier) auto

definition focusedFor :: "TaskId \<Rightarrow> JournalRecord list \<Rightarrow> JournalRecord list" where
  "focusedFor taskId rs = filter (\<lambda>r. case focusedObservation r of Some (t, _) \<Rightarrow> t = taskId | None \<Rightarrow> False) rs"

text \<open>The position where the uninterrupted equal observations ending in the newest one began (newest first).\<close>

fun episodeStart :: "JournalRecord list \<Rightarrow> JournalPosition" where
  "episodeStart [] = 0"
| "episodeStart [r] = jr_position r"
| "episodeStart (r # q # rest) = (if sameObservation q r then episodeStart (q # rest) else jr_position r)"

definition episodesFor :: "JournalRecord list \<Rightarrow> EpisodeRoots \<Rightarrow> bool" where
  "episodesFor rs roots \<longleftrightarrow>
     (\<forall>t. seqIs (sequenceIn (er_byTask roots) t) (focusedFor t rs)) \<and>
     (\<forall>t xs ys. focusedFor t rs = xs @ ys \<longrightarrow> xs \<noteq> [] \<longrightarrow> er_startedAt roots (jr_position (last xs)) = Some (episodeStart (rev xs)))"

definition requestedRecords :: "OtherEvents \<Rightarrow> JournalRecord list \<Rightarrow> TargetPromotionRequestId \<Rightarrow> JournalRecord list" where
  "requestedRecords other rs requestId = filter (\<lambda>r. promotionRequestIdOf other (jr_event r) = Some requestId) rs"

definition indexesFor :: "OtherEvents \<Rightarrow> JournalRecord list \<Rightarrow> EvidenceIndexes \<Rightarrow> bool" where
  "indexesFor other rs ix \<longleftrightarrow>
     (ix_positionsAreOrdinals ix \<longleftrightarrow> map jr_position rs = [1..<Suc (length rs)]) \<and>
     (\<forall>k. ix_byKey ix k = listRecordByKey rs k) \<and>
     (\<forall>kind. seqIs (sequenceIn (ix_byKind ix) kind) (listRecordsOfKind rs kind)) \<and>
     (\<forall>t. seqIs (sequenceIn (ix_byTask ix) t) (namedRecords other [] rs t)) \<and>
     (\<forall>t kind. seqIs (sequenceIn (kindsIn (ix_byTaskKind ix) t) kind) (listRecordsOfKind (namedRecords other [] rs t) kind)) \<and>
     (\<forall>q. seqIs (sequenceIn (ix_byPromotionRequest ix) q) (requestedRecords other rs q)) \<and>
     episodesFor rs (ix_claimObservationEpisodes ix)"

lemma sequenceIn_update [simp]:
  "sequenceIn (index(k := Some s)) k' = (if k' = k then s else sequenceIn index k')"
  by (simp add: sequenceIn_def)

lemma kindsIn_update [simp]: "kindsIn (index(t := Some kinds)) t' = (if t' = t then kinds else kindsIn index t')"
  by (simp add: kindsIn_def)

lemma appendTaskIndexes_other:
  "ix_positionsAreOrdinals (appendTaskIndexes ts r ix) = ix_positionsAreOrdinals ix"
  "ix_byKey (appendTaskIndexes ts r ix) = ix_byKey ix" "ix_byKind (appendTaskIndexes ts r ix) = ix_byKind ix"
  "ix_byPromotionRequest (appendTaskIndexes ts r ix) = ix_byPromotionRequest ix"
  "ix_claimObservationEpisodes (appendTaskIndexes ts r ix) = ix_claimObservationEpisodes ix"
  by (induction ts arbitrary: ix) auto

lemma appendTaskIndexes_task:
  "distinct ts \<Longrightarrow> sequenceIn (ix_byTask (appendTaskIndexes ts r ix)) t =
     (if t \<in> set ts then appendJournalRecord (sequenceIn (ix_byTask ix) t) r else sequenceIn (ix_byTask ix) t)"
  by (induction ts arbitrary: ix) auto

lemma appendTaskIndexes_kind:
  "distinct ts \<Longrightarrow> sequenceIn (kindsIn (ix_byTaskKind (appendTaskIndexes ts r ix)) t) kind =
     (if t \<in> set ts \<and> kind = eventTag (jr_event r)
      then appendJournalRecord (sequenceIn (kindsIn (ix_byTaskKind ix) t) kind) r else sequenceIn (kindsIn (ix_byTaskKind ix) t) kind)"
  by (induction ts arbitrary: ix) auto

lemma focusedFor_snoc:
  "focusedFor t (rs @ [r]) = focusedFor t rs @ (case focusedObservation r of Some (u, _) \<Rightarrow> (if u = t then [r] else []) | None \<Rightarrow> [])"
  by (auto simp: focusedFor_def split: option.splits)

lemma episodeStart_newest: "q \<noteq> [] \<Longrightarrow> episodeStart (r # q) = (if sameObservation (hd q) r then episodeStart q else jr_position r)"
  by (cases q) auto

lemma episodesFor_append:
  assumes roots: "episodesFor rs roots" and chron: "chronological (rs @ [r])"
  shows "episodesFor (rs @ [r]) (appendClaimObservationEpisode roots r)"
proof (cases "focusedObservation r")
  case None
  then show ?thesis using roots by (simp add: appendClaimObservationEpisode_def episodesFor_def focusedFor_snoc)
next
  case (Some focused)
  obtain u content where f: "focused = (u, content)" by fastforce
  let ?prior = "sequenceIn (er_byTask roots) u"
  have prior: "seqIs ?prior (focusedFor u rs)" using roots by (simp add: episodesFor_def)
  note newest = seqIs_newest [OF prior]
  define started where "started = episodeStart (r # rev (focusedFor u rs))"
  have startedAt: "er_startedAt roots (jr_position (last (focusedFor u rs))) = Some (episodeStart (rev (focusedFor u rs)))"
    if "focusedFor u rs \<noteq> []"
    using roots that unfolding episodesFor_def by (metis append_Nil2)
  have step: "appendClaimObservationEpisode roots r =
      \<lparr>er_byTask = (er_byTask roots)(u := Some (appendJournalRecord ?prior r)), er_startedAt = (er_startedAt roots)(jr_position r := Some started)\<rparr>"
  proof (cases "focusedFor u rs = []")
    case True
    then show ?thesis using Some f newest by (simp add: appendClaimObservationEpisode_def started_def)
  next
    case False
    then have "journalRecordAt ?prior (-1) = Some (last (focusedFor u rs))" using newest by (simp add: latest_def)
    then show ?thesis using Some f False startedAt
      by (simp add: appendClaimObservationEpisode_def started_def episodeStart_newest hd_rev Let_def)
  qed
  have older: "jr_position x \<noteq> jr_position r" if "x \<in> set (focusedFor t rs)" for x t
    using chron that by (auto simp: chronological_snoc focusedFor_def)
  show ?thesis
    unfolding episodesFor_def step
  proof (intro conjI allI impI)
    fix t
    show "seqIs (sequenceIn (er_byTask \<lparr>er_byTask = (er_byTask roots)(u := Some (appendJournalRecord ?prior r)),
        er_startedAt = (er_startedAt roots)(jr_position r := Some started)\<rparr>) t) (focusedFor t (rs @ [r]))"
      using roots prior Some f by (auto simp: focusedFor_snoc episodesFor_def seqIs_append)
  next
    fix t xs ys
    assume split: "focusedFor t (rs @ [r]) = xs @ ys" and xs: "xs \<noteq> []"
    show "er_startedAt \<lparr>er_byTask = (er_byTask roots)(u := Some (appendJournalRecord ?prior r)),
        er_startedAt = (er_startedAt roots)(jr_position r := Some started)\<rparr> (jr_position (last xs)) = Some (episodeStart (rev xs))"
    proof (cases "t = u \<and> ys = []")
      case True
      then have "xs = focusedFor u rs @ [r]" using split Some f by (simp add: focusedFor_snoc)
      then show ?thesis by (simp add: started_def)
    next
      case False
      then obtain zs where zs: "focusedFor t rs = xs @ zs"
        using split Some f by (cases ys rule: rev_cases) (auto simp: focusedFor_snoc split: if_splits)
      then have "last xs \<in> set (focusedFor t rs)" using xs by simp
      then have "jr_position (last xs) \<noteq> jr_position r" by (rule older)
      moreover have "er_startedAt roots (jr_position (last xs)) = Some (episodeStart (rev xs))"
        using roots zs xs unfolding episodesFor_def by blast
      ultimately show ?thesis by simp
    qed
  qed
qed

lemma appendJournalEvidence_indexes:
  fixes other rs prior r
  defines "ix \<equiv> ev_indexes prior" and "ix' \<equiv> ev_indexes (appendJournalEvidence other rs prior r)"
  shows "ix_positionsAreOrdinals ix' \<longleftrightarrow> ix_positionsAreOrdinals ix \<and> jr_position r = sq_length (ev_records prior) + 1"
    "ix_byKey ix' = (if ix_byKey ix (jr_key r) \<noteq> None then ix_byKey ix else (ix_byKey ix)(jr_key r := Some r))"
    "sequenceIn (ix_byKind ix') kind =
       (if kind = eventTag (jr_event r) then appendJournalRecord (sequenceIn (ix_byKind ix) kind) r else sequenceIn (ix_byKind ix) kind)"
    "sequenceIn (ix_byTask ix') t =
       (if t \<in> set (recordTaskIds other rs (jr_event r)) then appendJournalRecord (sequenceIn (ix_byTask ix) t) r else sequenceIn (ix_byTask ix) t)"
    "sequenceIn (kindsIn (ix_byTaskKind ix') t) kind =
       (if t \<in> set (recordTaskIds other rs (jr_event r)) \<and> kind = eventTag (jr_event r)
        then appendJournalRecord (sequenceIn (kindsIn (ix_byTaskKind ix) t) kind) r else sequenceIn (kindsIn (ix_byTaskKind ix) t) kind)"
    "sequenceIn (ix_byPromotionRequest ix') q =
       (if promotionRequestIdOf other (jr_event r) = Some q then appendJournalRecord (sequenceIn (ix_byPromotionRequest ix) q) r
        else sequenceIn (ix_byPromotionRequest ix) q)"
    "ix_claimObservationEpisodes ix' = appendClaimObservationEpisode (ix_claimObservationEpisodes ix) r"
  by (simp_all add: ix_def ix'_def appendJournalEvidence_def Let_def appendTaskIndexes_other appendTaskIndexes_task appendTaskIndexes_kind
      split: option.splits)

lemma indexesFor_append:
  assumes ix: "indexesFor other rs (ev_indexes prior)" and records: "seqIs (ev_records prior) rs" and chron: "chronological (rs @ [r])"
  shows "indexesFor other (rs @ [r]) (ev_indexes (appendJournalEvidence other rs prior r))"
  unfolding indexesFor_def appendJournalEvidence_indexes
proof (intro conjI allI)
  show "ix_positionsAreOrdinals (ev_indexes prior) \<and> jr_position r = sq_length (ev_records prior) + 1 \<longleftrightarrow>
      map jr_position (rs @ [r]) = [1..<Suc (length (rs @ [r]))]"
    using ix records by (simp add: indexesFor_def seqIs_def upt_Suc [of "Suc 0" "Suc (length rs)"] del: upt_Suc)
  show "(if ix_byKey (ev_indexes prior) (jr_key r) \<noteq> None then ix_byKey (ev_indexes prior)
      else (ix_byKey (ev_indexes prior))(jr_key r := Some r)) k = listRecordByKey (rs @ [r]) k" for k
    using ix by (auto simp: indexesFor_def listRecordByKey_def find_append split: option.splits)
  show "episodesFor (rs @ [r]) (appendClaimObservationEpisode (ix_claimObservationEpisodes (ev_indexes prior)) r)"
    using ix by (intro episodesFor_append [OF _ chron]) (simp add: indexesFor_def)
qed (use ix in \<open>auto simp: indexesFor_def listRecordsOfKind_def requestedRecords_def namedRecords_snoc seqIs_append\<close>)

text \<open>A view of a history: the indexes of all of it, the records up to a position.\<close>

definition viewOf :: "OtherEvents \<Rightarrow> JournalRecord list \<Rightarrow> nat \<Rightarrow> JournalRecordEvidence \<Rightarrow> bool" where
  "viewOf other rs p ev \<longleftrightarrow>
     indexesFor other rs (ev_indexes ev) \<and> seqIs (ev_records ev) (upTo p rs) \<and>
     ev_lastPosition ev = map_option jr_position (latest (upTo p rs))"

lemma upTo_all: "\<forall>r\<in>set rs. jr_position r \<le> p \<Longrightarrow> upTo p rs = rs"
  by (simp add: upTo_def)

definition lastPositionOf :: "JournalRecord list \<Rightarrow> nat" where
  "lastPositionOf rs = (case latest rs of None \<Rightarrow> 0 | Some r \<Rightarrow> jr_position r)"

lemma lastPositionOf_max: "chronological rs \<Longrightarrow> r \<in> set rs \<Longrightarrow> jr_position r \<le> lastPositionOf rs"
  by (induction rs rule: rev_induct) (auto simp: lastPositionOf_def chronological_snoc dest: less_imp_le)

lemma appendAllEvidence_view:
  assumes "indexesFor other earlier (ev_indexes prior)" "seqIs (ev_records prior) earlier"
    "ev_lastPosition prior = map_option jr_position (latest earlier)" "chronological (earlier @ rs)"
  shows "indexesFor other (earlier @ rs) (ev_indexes (appendAllEvidence other earlier prior rs)) \<and>
     seqIs (ev_records (appendAllEvidence other earlier prior rs)) (earlier @ rs) \<and>
     ev_lastPosition (appendAllEvidence other earlier prior rs) = map_option jr_position (latest (earlier @ rs))"
  using assms
proof (induction rs arbitrary: earlier prior)
  case (Cons r rs)
  have chron: "chronological (earlier @ [r])" using Cons.prems(4) by (auto simp: chronological_def sorted_wrt_append)
  have "indexesFor other (earlier @ [r]) (ev_indexes (appendJournalEvidence other earlier prior r))"
    by (rule indexesFor_append [OF Cons.prems(1,2) chron])
  then show ?case
    using Cons.IH [of "earlier @ [r]" "appendJournalEvidence other earlier prior r"] Cons.prems
    by (simp add: appendJournalEvidence_def Let_def seqIs_append)
qed simp

lemma journalEvidenceFrom_view:
  assumes "chronological rs"
  shows "viewOf other rs (lastPositionOf rs) (journalEvidenceFrom other rs)"
proof -
  have "indexesFor other [] (ev_indexes emptyJournalEvidence)"
    by (simp add: indexesFor_def emptyJournalEvidence_def listRecordByKey_def listRecordsOfKind_def requestedRecords_def sequenceIn_def kindsIn_def
        episodesFor_def emptyClaimObservationEpisodes_def focusedFor_def)
  then have "indexesFor other rs (ev_indexes (journalEvidenceFrom other rs)) \<and> seqIs (ev_records (journalEvidenceFrom other rs)) rs \<and>
      ev_lastPosition (journalEvidenceFrom other rs) = map_option jr_position (latest rs)"
    using appendAllEvidence_view [of other "[]" emptyJournalEvidence rs] assms
    by (simp add: journalEvidenceFrom_def emptyJournalEvidence_def)
  moreover have "upTo (lastPositionOf rs) rs = rs" using lastPositionOf_max [OF assms] by (intro upTo_all) auto
  ultimately show ?thesis by (simp add: viewOf_def)
qed

lemma viewOf_through:
  assumes "chronological rs" "viewOf other rs p ev"
  shows "throughOf ev = lastPositionOf (upTo p rs)" "upTo (throughOf ev) rs = upTo p rs"
proof -
  show through: "throughOf ev = lastPositionOf (upTo p rs)"
    using assms(2) by (simp add: viewOf_def throughOf_def lastPositionOf_def split: option.splits)
  show "upTo (throughOf ev) rs = upTo p rs"
  proof -
    have "jr_position r \<le> throughOf ev \<longleftrightarrow> jr_position r \<le> p" if "r \<in> set rs" for r
    proof
      assume "jr_position r \<le> p"
      then show "jr_position r \<le> throughOf ev"
        using lastPositionOf_max [OF chronological_upTo [OF assms(1)], of r p] that through by (simp add: upTo_def)
    next
      assume le: "jr_position r \<le> throughOf ev"
      have "1 \<le> jr_position r" using assms(1) that by (simp add: chronological_def)
      then obtain q where "latest (upTo p rs) = Some q" "throughOf ev = jr_position q"
        using le through by (auto simp: lastPositionOf_def split: option.splits)
      then show "jr_position r \<le> p" using le latest_SomeD [of "upTo p rs" q] by (auto simp: upTo_def)
    qed
    then show ?thesis unfolding upTo_def by (intro filter_cong) auto
  qed
qed

lemma upTo_upTo: "upTo p (upTo q rs) = upTo (min p q) rs"
  by (auto simp: upTo_def intro: filter_cong)

lemma ordinals_upTo:
  assumes "map jr_position rs = [1..<Suc (length rs)]"
  shows "length (upTo p rs) = min p (length rs)"
proof -
  have "map jr_position (upTo p rs) = filter (\<lambda>x. x \<le> p) (map jr_position rs)" by (simp add: upTo_def filter_map comp_def)
  also have "\<dots> = [1..<Suc (min p (length rs))]"
    unfolding assms
  proof (induction rs rule: rev_induct)
    case (snoc r rs)
    then show ?case
      by (cases "Suc (length rs) \<le> p") (simp_all add: min_def upt_Suc [of 1 "Suc (length rs)"] upt_Suc [of "Suc 0" "Suc (length rs)"] del: upt_Suc)
  qed simp
  finally have "length (map jr_position (upTo p rs)) = length [1..<Suc (min p (length rs))]" by simp
  then show ?thesis by (simp del: upt_Suc)
qed

section \<open>Queries on a view\<close>

lemma journalEvidenceBefore_view:
  assumes chron: "chronological rs" and view: "viewOf other rs p ev" and n: "1 \<le> n"
  shows "viewOf other rs (min p (n - 1)) (journalEvidenceBefore ev n)"
proof -
  have vis: "seqIs (ev_records ev) (upTo p rs)" and ix: "indexesFor other rs (ev_indexes ev)"
    and newest: "ev_lastPosition ev = map_option jr_position (latest (upTo p rs))"
    using view by (simp_all add: viewOf_def)
  note chron' = chronological_upTo [OF chron, of p]
  have cut: "upTo (n - 1) (upTo p rs) = upTo (min p (n - 1)) rs" by (simp add: upTo_upTo min.commute)
  show ?thesis
  proof (cases "case ev_lastPosition ev of None \<Rightarrow> True | Some q \<Rightarrow> q < n")
    case True
    have "jr_position r \<le> n - 1" if "r \<in> set (upTo p rs)" for r
    proof -
      have "upTo p rs \<noteq> []" using that by auto
      then obtain q where q: "latest (upTo p rs) = Some q" by (cases "latest (upTo p rs)") auto
      then have "jr_position r \<le> jr_position q" using lastPositionOf_max [OF chron' that] by (simp add: lastPositionOf_def)
      moreover have "jr_position q < n" using True newest q by simp
      ultimately show ?thesis by simp
    qed
    then have "upTo (min p (n - 1)) rs = upTo p rs" using cut upTo_all [of "upTo p rs" "n - 1"] by simp
    then show ?thesis using True view by (simp add: journalEvidenceBefore_def viewOf_def)
  next
    case False
    have count: "(if ix_positionsAreOrdinals (ev_indexes ev) then max 0 (int n - 1)
        else int (recordCountThroughPosition (ev_records ev) (n - 1))) \<ge> 0 \<and>
      take (nat (if ix_positionsAreOrdinals (ev_indexes ev) then max 0 (int n - 1)
        else int (recordCountThroughPosition (ev_records ev) (n - 1)))) (upTo p rs) = upTo (min p (n - 1)) rs"
    proof (cases "ix_positionsAreOrdinals (ev_indexes ev)")
      case True
      then have ord: "map jr_position rs = [1..<Suc (length rs)]" using ix by (simp add: indexesFor_def)
      have "upTo (min p (n - 1)) rs = take (min (min p (n - 1)) (length rs)) rs"
        using upTo_take [OF chron, of "min p (n - 1)"] ordinals_upTo [OF ord, of "min p (n - 1)"] by simp
      moreover have "upTo p rs = take (min p (length rs)) rs"
        using upTo_take [OF chron, of p] ordinals_upTo [OF ord, of p] by simp
      moreover have "nat (max 0 (int n - 1)) = n - 1" using n by simp
      ultimately show ?thesis using True by (simp add: min.commute min.left_commute)
    next
      case False
      then show ?thesis
        using recordCount_correct [OF vis chron', of "n - 1"] upTo_take [OF chron', of "n - 1"] cut by simp
    qed
    then have "seqIs (journalRecordsBefore (ev_records ev) (if ix_positionsAreOrdinals (ev_indexes ev) then max 0 (int n - 1)
        else int (recordCountThroughPosition (ev_records ev) (n - 1)))) (upTo (min p (n - 1)) rs)"
      using seqIs_before [OF vis, of "nat (if ix_positionsAreOrdinals (ev_indexes ev) then max 0 (int n - 1)
        else int (recordCountThroughPosition (ev_records ev) (n - 1)))"] by simp
    then show ?thesis
      using False ix seqIs_newest by (simp add: journalEvidenceBefore_def viewOf_def Let_def)
  qed
qed

lemma visible_filter:
  assumes "chronological rs" "viewOf other rs p ev"
  shows "visible ev (List.find P rs) = List.find P (upTo p rs)"
proof -
  obtain ys where ys: "rs = upTo p rs @ ys" "\<forall>y\<in>set ys. p < jr_position y" using upTo_split [OF assms(1)] by blast
  have in_view: "jr_position r \<le> throughOf ev \<longleftrightarrow> r \<in> set (upTo p rs)" if "r \<in> set rs" for r
    using viewOf_through(2) [OF assms] that by (metis (mono_tags, lifting) mem_Collect_eq set_filter upTo_def)
  show ?thesis
  proof (cases "List.find P rs")
    case None
    then have "List.find P (upTo p rs) = None" by (auto simp: find_eq_None_iff upTo_def)
    then show ?thesis using None by (simp add: visible_def)
  next
    case (Some r)
    then have r: "r \<in> set rs" using find_SomeD by fastforce
    show ?thesis
    proof (cases "List.find P (upTo p rs)")
      case None
      then have "r \<notin> set (upTo p rs)" using Some find_SomeD by (fastforce simp: find_eq_None_iff)
      then show ?thesis using Some r in_view None by (simp add: visible_def)
    next
      case (Some q)
      then have "List.find P rs = Some q" using ys(1) by (metis find_append option.simps(5))
      then have "q = r" using \<open>List.find P rs = Some r\<close> by simp
      moreover have "q \<in> set (upTo p rs)" using Some find_SomeD by fastforce
      ultimately show ?thesis using Some \<open>List.find P rs = Some r\<close> r in_view by (simp add: visible_def)
    qed
  qed
qed

lemma upTo_filter: "upTo p (filter P rs) = filter P (upTo p rs)"
  by (simp add: upTo_def conj_commute)

lemma lastVisible_correct:
  assumes "seqIs s xs" "chronological xs"
  shows "lastVisibleRecord ev s = latest (upTo (throughOf ev) xs)"
proof (cases "case latest xs of None \<Rightarrow> True | Some r \<Rightarrow> jr_position r \<le> throughOf ev")
  case True
  have "upTo (throughOf ev) xs = xs"
  proof (rule upTo_all, rule ballI)
    fix r
    assume "r \<in> set xs"
    with True lastPositionOf_max [OF assms(2), of r] show "jr_position r \<le> throughOf ev"
      by (cases "latest xs") (auto simp: lastPositionOf_def)
  qed
  then show ?thesis using True seqIs_last [OF assms(1)] by (simp add: lastVisibleRecord_def)
next
  case False
  let ?n = "length (upTo (throughOf ev) xs)"
  have le: "?n \<le> length xs" by (simp add: upTo_def)
  have "lastVisibleRecord ev s = (if ?n = 0 then None else journalRecordAt s (int ?n - 1))"
    using False seqIs_last [OF assms(1)] recordCount_correct [OF assms] by (simp add: lastVisibleRecord_def Let_def)
  also have "\<dots> = latest (upTo (throughOf ev) xs)"
  proof (cases "?n = 0")
    case False
    then have "latest (upTo (throughOf ev) xs) = Some (upTo (throughOf ev) xs ! (?n - 1))" by (auto simp: latest_def last_conv_nth)
    also have "upTo (throughOf ev) xs ! (?n - 1) = xs ! (?n - 1)"
      using upTo_take [OF assms(2), of "throughOf ev"] False by (metis diff_less gr0I nth_take zero_less_one)
    finally show ?thesis using False le seqIs_at_pred [OF assms(1), of ?n] by simp
  qed (simp add: latest_def)
  finally show ?thesis .
qed

lemma indexedFrom_correct:
  "seqIs s xs \<Longrightarrow> chronological xs \<Longrightarrow> i \<le> length xs \<Longrightarrow> indexedFrom ev s [i..<length xs] = upTo (throughOf ev) (drop i xs)"
proof (induction "length xs - i" arbitrary: i)
  case 0
  then show ?case by (simp add: upTo_def)
next
  case (Suc k)
  then have i: "i < length xs" by simp
  have drop: "drop i xs = xs ! i # drop (Suc i) xs" using i by (simp add: Cons_nth_drop_Suc)
  have later: "jr_position (xs ! i) < jr_position y" if "y \<in> set (drop (Suc i) xs)" for y
    using that chronological_nth [OF Suc.prems(2)] by (auto simp: in_set_conv_nth)
  show ?case
  proof (cases "jr_position (xs ! i) > throughOf ev")
    case True
    then have "upTo (throughOf ev) (drop i xs) = []" using later unfolding drop upTo_def by (fastforce simp: filter_empty_conv)
    then show ?thesis using True i seqIs_at [OF Suc.prems(1), of i] by (simp add: upt_conv_Cons)
  next
    case False
    then show ?thesis
      using Suc i drop seqIs_at [OF Suc.prems(1), of i] by (simp add: upt_conv_Cons upTo_def)
  qed
qed

lemma indexedRecords_correct: "seqIs s xs \<Longrightarrow> chronological xs \<Longrightarrow> indexedRecords ev s = upTo (throughOf ev) xs"
  using indexedFrom_correct [of s xs 0 ev] by (simp add: indexedRecords_def seqIs_def)

end
