(* ===== verification/Evidence_Properties.thy ===== *)
theory Evidence_Properties
  imports Evidence_Laws Promotion_History
begin

text \<open>The indexed queries answer what the scans of the visible records answer.\<close>

lemma namedRecords_append:
  "namedRecords other earlier (xs @ ys) t = namedRecords other earlier xs t @ namedRecords other (earlier @ xs) ys t"
  by (induction xs arbitrary: earlier) auto

lemma set_namedRecords: "set (namedRecords other earlier rs t) \<subseteq> set rs"
  by (induction rs arbitrary: earlier) auto

lemma chronological_Nil [simp]: "chronological []"
  by (simp add: chronological_def)

lemma ordinals_take:
  assumes "map jr_position rs = [1..<Suc (length rs)]" "m \<le> length rs"
  shows "map jr_position (take m rs) = [1..<Suc m]"
proof -
  have "map jr_position (take m rs) = take m [1..<Suc (length rs)]" by (simp add: take_map [symmetric] assms(1) del: upt_Suc)
  also have "\<dots> = [1..<1 + m]" using assms(2) by (intro take_upt) simp
  finally show ?thesis by simp
qed

lemma chronological_named: "chronological rs \<Longrightarrow> chronological (namedRecords other earlier rs t)"
proof (induction rs arbitrary: earlier)
  case (Cons r rs)
  then have "chronological ([r] @ rs)" by simp
  then have "chronological [r]" "chronological rs" "\<forall>y\<in>set rs. jr_position r < jr_position y" by (simp_all only: chronological_append) auto
  then show ?case using Cons.IH set_namedRecords [of other "earlier @ [r]" rs t]
    by (auto simp: chronological_append simp del: append_Cons)
qed simp

lemma namedRecords_upTo:
  assumes "chronological rs"
  shows "namedRecords other [] (upTo p rs) t = upTo p (namedRecords other [] rs t)"
proof -
  obtain ys where ys: "rs = upTo p rs @ ys" "\<forall>y\<in>set ys. p < jr_position y" using upTo_split [OF assms] by blast
  have "upTo p (namedRecords other [] (upTo p rs) t) = namedRecords other [] (upTo p rs) t"
    using set_namedRecords [of other "[]" "upTo p rs" t] by (intro upTo_all) (auto simp: upTo_def)
  moreover have "upTo p (namedRecords other (upTo p rs) ys t) = []"
    using set_namedRecords [of other "upTo p rs" ys t] ys(2) by (fastforce simp: upTo_def filter_empty_conv)
  moreover have "namedRecords other [] rs t = namedRecords other [] (upTo p rs) t @ namedRecords other (upTo p rs) ys t"
    using namedRecords_append [of other "[]" "upTo p rs" ys t] ys(1) by simp
  ultimately show ?thesis by (simp add: upTo_def)
qed

lemma hd_find: "(case filter P xs of [] \<Rightarrow> None | y # _ \<Rightarrow> Some y) = List.find P xs"
  by (induction xs) auto

lemma find_position:
  assumes "chronological rs" "1 \<le> position"
  shows "List.find (\<lambda>r. jr_position r = position) rs =
    (case drop (length (upTo (position - 1) rs)) rs of [] \<Rightarrow> None | r # _ \<Rightarrow> if jr_position r = position then Some r else None)"
proof -
  obtain ys where ys: "rs = upTo (position - 1) rs @ ys" "\<forall>y\<in>set ys. position - 1 < jr_position y"
    using upTo_split [OF assms(1)] by blast
  have "List.find (\<lambda>r. jr_position r = position) (upTo (position - 1) rs) = None"
    using assms(2) by (auto simp: find_eq_None_iff upTo_def)
  then have "List.find (\<lambda>r. jr_position r = position) rs = List.find (\<lambda>r. jr_position r = position) ys"
    using ys(1) by (metis find_append option.simps(4))
  moreover have "drop (length (upTo (position - 1) rs)) rs = ys" using ys(1) by (metis append_eq_conv_conj)
  moreover have "List.find (\<lambda>r. jr_position r = position) zs = None" if "ys = r # zs" for r zs
  proof -
    have "chronological (r # zs)" using assms(1) ys(1) that by (metis chronological_append)
    then have "\<forall>z\<in>set zs. jr_position r < jr_position z" by (simp add: chronological_def)
    then show ?thesis using ys(2) that assms(2) by (fastforce simp: find_eq_None_iff)
  qed
  ultimately show ?thesis by (auto split: list.splits)
qed

lemma by_position_view:
  assumes chron: "chronological rs" and view: "viewOf other rs p ev" and position: "1 \<le> position"
  shows "indexedRecordByPosition ev position = List.find (\<lambda>r. jr_position r = position) (upTo p rs)"
proof -
  have vis: "seqIs (ev_records ev) (upTo p rs)" and ix: "indexesFor other rs (ev_indexes ev)" using view by (simp_all add: viewOf_def)
  note chron' = chronological_upTo [OF chron, of p]
  have through: "throughOf ev = lastPositionOf (upTo p rs)" by (rule viewOf_through [OF chron view])
  show ?thesis
  proof (cases "position > throughOf ev")
    case True
    then have "List.find (\<lambda>r. jr_position r = position) (upTo p rs) = None"
      using lastPositionOf_max [OF chron'] through by (fastforce simp: find_eq_None_iff)
    then show ?thesis using True by (simp add: indexedRecordByPosition_def)
  next
    case False
    note find = find_position [OF chron' position]
    let ?k = "length (upTo (position - 1) (upTo p rs))"
    have at: "journalRecordAt (ev_records ev) (int ?k) = (case drop ?k (upTo p rs) of [] \<Rightarrow> None | r # _ \<Rightarrow> Some r)"
      using seqIs_at [OF vis, of ?k] by (auto simp: drop_eq_Nil not_less hd_drop_conv_nth [symmetric] split: list.splits)
    show ?thesis
    proof (cases "ix_positionsAreOrdinals (ev_indexes ev)")
      case ordinals: True
      then have ord: "map jr_position rs = [1..<Suc (length rs)]" using ix by (simp add: indexesFor_def)
      have m: "upTo p rs = take (length (upTo p rs)) rs" "length (upTo p rs) \<le> length rs"
        using upTo_take [OF chron, of p] by (auto simp: upTo_def)
      then have ord': "map jr_position (upTo p rs) = [1..<Suc (length (upTo p rs))]"
        using ordinals_take [OF ord m(2)] by simp
      have k: "?k = min (position - 1) (length (upTo p rs))" by (rule ordinals_upTo [OF ord'])
      have pred: "journalRecordAt (ev_records ev) (int position - 1) = (if position \<le> length (upTo p rs) then Some (upTo p rs ! (position - 1)) else None)"
        using seqIs_at_pred [OF vis, of position] position by simp
      have "List.find (\<lambda>r. jr_position r = position) (upTo p rs) =
          (if position \<le> length (upTo p rs) then Some (upTo p rs ! (position - 1)) else None)"
      proof (cases "position \<le> length (upTo p rs)")
        case True
        then have i: "position - 1 < length (upTo p rs)" "?k = position - 1" using position k by auto
        have "jr_position (upTo p rs ! (position - 1)) = map jr_position (upTo p rs) ! (position - 1)" using i by simp
        also have "\<dots> = position" unfolding ord' using i position by (simp del: upt_Suc)
        finally show ?thesis using find True i by (simp add: Cons_nth_drop_Suc [symmetric])
      next
        case False
        then have "?k = length (upTo p rs)" using k by simp
        then show ?thesis using find False by simp
      qed
      then show ?thesis using False ordinals pred by (simp add: indexedRecordByPosition_def)
    next
      case False
      then show ?thesis
        using \<open>\<not> position > throughOf ev\<close> at find recordCount_correct [OF vis chron', of "position - 1"]
        by (simp add: indexedRecordByPosition_def split: list.splits)
    qed
  qed
qed

lemma map_filter_at:
  "seqIs s xs \<Longrightarrow> List.map_filter (\<lambda>offset. journalRecordAt s (int offset)) [i..<length xs] = drop i xs"
proof (induction "length xs - i" arbitrary: i)
  case (Suc k)
  then have "i < length xs" by simp
  then show ?case using Suc seqIs_at [OF Suc.prems, of i] by (simp add: upt_conv_Cons Cons_nth_drop_Suc)
qed simp

lemma after_view:
  assumes chron: "chronological rs" and view: "viewOf other rs p ev"
  shows "indexedRecordsAfter ev after = listRecordsAfter (upTo p rs) after"
proof (cases after)
  case None
  have "seqIs (ev_records ev) (upTo p rs)" using view by (simp add: viewOf_def)
  then show ?thesis using map_filter_at [of "ev_records ev" "upTo p rs" 0] None
    by (simp add: indexedRecordsAfter_def listRecordsAfter_def seqIs_def)
next
  case (Some q)
  have vis: "seqIs (ev_records ev) (upTo p rs)" and ix: "indexesFor other rs (ev_indexes ev)" using view by (simp_all add: viewOf_def)
  note chron' = chronological_upTo [OF chron, of p]
  obtain ys where ys: "upTo p rs = upTo q (upTo p rs) @ ys" "\<forall>y\<in>set ys. q < jr_position y" using upTo_split [OF chron'] by blast
  have "filter (\<lambda>r. q < jr_position r) (upTo q (upTo p rs)) = []" by (auto simp: upTo_def filter_empty_conv)
  moreover have "filter (\<lambda>r. q < jr_position r) ys = ys" using ys(2) by simp
  ultimately have list: "listRecordsAfter (upTo p rs) after = drop (length (upTo q (upTo p rs))) (upTo p rs)"
    unfolding Some listRecordsAfter_def option.case using ys(1) by (metis append_Nil append_eq_conv_conj filter_append)
  have "drop (if ix_positionsAreOrdinals (ev_indexes ev) then q else recordCountThroughPosition (ev_records ev) q) (upTo p rs) =
      drop (length (upTo q (upTo p rs))) (upTo p rs)"
  proof (cases "ix_positionsAreOrdinals (ev_indexes ev)")
    case True
    then have ord: "map jr_position rs = [1..<Suc (length rs)]" using ix by (simp add: indexesFor_def)
    have m: "upTo p rs = take (length (upTo p rs)) rs" "length (upTo p rs) \<le> length rs"
      using upTo_take [OF chron, of p] by (auto simp: upTo_def)
    then have "map jr_position (upTo p rs) = [1..<Suc (length (upTo p rs))]" using ordinals_take [OF ord m(2)] by simp
    then have "length (upTo q (upTo p rs)) = min q (length (upTo p rs))" by (rule ordinals_upTo)
    then show ?thesis using True by (auto simp: min_def)
  qed (simp add: recordCount_correct [OF vis chron'])
  then show ?thesis
    using list map_filter_at [OF vis] vis Some by (simp add: indexedRecordsAfter_def seqIs_def Let_def)
qed

lemma kind_view:
  assumes chron: "chronological rs" and view: "viewOf other rs p ev"
  shows "indexedRecordsOfKind ev kind = listRecordsOfKind (upTo p rs) kind"
    "indexedFirstOfKind ev kind = listFirstOfKind (upTo p rs) kind"
    "indexedLastOfKind ev kind = listLastOfKind (upTo p rs) kind"
    "indexedRecordsForTask ev t = namedRecords other [] (upTo p rs) t"
    "indexedLastForTaskKind ev t kind = listLastOfKind (namedRecords other [] (upTo p rs) t) kind"
proof -
  have ix: "seqIs (sequenceIn (ix_byKind (ev_indexes ev)) kind) (listRecordsOfKind rs kind)"
    "seqIs (sequenceIn (ix_byTask (ev_indexes ev)) t) (namedRecords other [] rs t)"
    "seqIs (sequenceIn (kindsIn (ix_byTaskKind (ev_indexes ev)) t) kind) (listRecordsOfKind (namedRecords other [] rs t) kind)"
    using view by (simp_all add: viewOf_def indexesFor_def)
  note through = viewOf_through(2) [OF chron view]
  have chron_kind: "chronological (listRecordsOfKind rs kind)" by (simp add: listRecordsOfKind_def chronological_filter chron)
  have kind: "upTo (throughOf ev) (listRecordsOfKind rs kind) = listRecordsOfKind (upTo p rs) kind"
    by (simp add: listRecordsOfKind_def upTo_filter through)
  note named = chronological_named [OF chron, of other "[]" t]
  have named_through: "upTo (throughOf ev) (namedRecords other [] rs t) = namedRecords other [] (upTo p rs) t"
    using namedRecords_upTo [OF chron, of other "throughOf ev" t] through by simp
  show "indexedRecordsOfKind ev kind = listRecordsOfKind (upTo p rs) kind"
    using indexedRecords_correct [OF ix(1) chron_kind] kind by (simp add: indexedRecordsOfKind_def)
  show "indexedLastOfKind ev kind = listLastOfKind (upTo p rs) kind"
    using lastVisible_correct [OF ix(1) chron_kind] kind
    by (simp add: indexedLastOfKind_def listLastOfKind_def listRecordsOfKind_def latest_filter)
  show "indexedRecordsForTask ev t = namedRecords other [] (upTo p rs) t"
    using indexedRecords_correct [OF ix(2) named] named_through by (simp add: indexedRecordsForTask_def)
  show "indexedLastForTaskKind ev t kind = listLastOfKind (namedRecords other [] (upTo p rs) t) kind"
    using lastVisible_correct [OF ix(3)] named named_through
    by (simp add: indexedLastForTaskKind_def listLastOfKind_def listRecordsOfKind_def latest_filter upTo_filter chronological_filter)
  have "journalRecordAt (sequenceIn (ix_byKind (ev_indexes ev)) kind) 0 = List.find (\<lambda>r. eventTag (jr_event r) = kind) rs"
    using seqIs_at [OF ix(1), of 0] hd_find [of "\<lambda>r. eventTag (jr_event r) = kind" rs]
    by (auto simp: listRecordsOfKind_def split: list.splits)
  then show "indexedFirstOfKind ev kind = listFirstOfKind (upTo p rs) kind"
    using visible_filter [OF chron view] by (simp add: indexedFirstOfKind_def listFirstOfKind_def)
qed

lemma request_view:
  assumes chron: "chronological rs" and view: "viewOf other rs p ev"
  shows "indexedRecordsForPromotionRequest ev q = requestedRecords other (upTo p rs) q"
proof -
  have ix: "seqIs (sequenceIn (ix_byPromotionRequest (ev_indexes ev)) q) (requestedRecords other rs q)"
    using view by (simp add: viewOf_def indexesFor_def)
  have "chronological (requestedRecords other rs q)" by (simp add: requestedRecords_def chronological_filter chron)
  then show ?thesis using indexedRecords_correct [OF ix] viewOf_through(2) [OF chron view]
    by (simp add: indexedRecordsForPromotionRequest_def requestedRecords_def upTo_filter)
qed

text \<open>
  The index of a promotion request also holds records of other families, which the reconstruction does not see.
\<close>

lemma derive_requested: "deriveTargetPromotionState (requestedRecords other rs (tp_requestId c)) c = deriveTargetPromotionState rs c"
proof -
  have "relevantPromotionOccurrences (requestedRecords other rs (tp_requestId c)) c = relevantPromotionOccurrences rs c"
    unfolding relevantPromotionOccurrences_def requestedRecords_def by (subst map_filter_filter) auto
  moreover have "targetPromotionCorrelationConflictFor (requestedRecords other rs (tp_requestId c)) c = None \<longleftrightarrow>
      targetPromotionCorrelationConflictFor rs c = None"
    by (auto simp: conflict_None_iff requestedRecords_def)
  ultimately show ?thesis by (simp add: deriveTargetPromotionState_def)
qed

text \<open>
  C10. Indexed evidence is exact. For a journal whose positions increase, the evidence built record by record and cut before a position
  holds exactly the earlier records, and each indexed query (by key, by position, after a position, by kind, first and last
  of a kind, by task) answers what the scan of those records answers; a promotion reconstructed from the records indexed under its
  request is the promotion reconstructed from all of them.
\<close>

theorem indexed_queries_exact:
  assumes "chronological rs" "1 \<le> n" "1 \<le> position" "ev = journalEvidenceBefore (journalEvidenceFrom other rs) n"
    "vis = filter (\<lambda>r. jr_position r < n) rs"
  shows "materializeJournalRecords (ev_records ev) = Some vis \<and>
     indexedRecordByKey ev key = listRecordByKey vis key \<and>
     indexedRecordByPosition ev position = journalRecordByPosition vis position \<and>
     indexedRecordsAfter ev after = listRecordsAfter vis after \<and>
     indexedRecordsOfKind ev kind = listRecordsOfKind vis kind \<and>
     indexedFirstOfKind ev kind = listFirstOfKind vis kind \<and>
     indexedLastOfKind ev kind = listLastOfKind vis kind \<and>
     indexedRecordsForTask ev t = namedRecords other [] vis t \<and>
     deriveTargetPromotionState (indexedRecordsForPromotionRequest ev (tp_requestId c)) c = deriveTargetPromotionState vis c"
proof -
  let ?p = "min (lastPositionOf rs) (n - 1)"
  have view: "viewOf other rs ?p ev"
    using journalEvidenceBefore_view [OF assms(1) journalEvidenceFrom_view [OF assms(1)] assms(2)] assms(4) by simp
  have vis: "upTo ?p rs = vis"
    unfolding assms(5) upTo_def using lastPositionOf_max [OF assms(1)] assms(2) by (intro filter_cong) auto
  note queries = by_position_view [OF assms(1) view assms(3)] after_view [OF assms(1) view] kind_view [OF assms(1) view]
    request_view [OF assms(1) view] derive_requested [of other vis c]
  have "indexedRecordByKey ev key = listRecordByKey vis key"
    using visible_filter [OF assms(1) view, of "\<lambda>r. jr_key r = key"] view vis
    by (simp add: indexedRecordByKey_def listRecordByKey_def viewOf_def indexesFor_def)
  moreover have "materializeJournalRecords (ev_records ev) = Some vis"
    using view vis by (intro seqIs_materialize) (simp add: viewOf_def)
  ultimately show ?thesis using queries vis by (simp add: journalRecordByPosition_def)
qed

definition noOtherEvents :: OtherEvents where
  "noOtherEvents = \<lparr>oe_tasks = \<lambda>_ _. [], oe_tasksListed = \<lambda>_ _. [], oe_promotionRequest = \<lambda>_. None\<rparr>"

definition demoJournal :: "JournalRecord list" where
  "demoJournal =
     [\<lparr>jr_event = TaskTrackerFactsObserved ''r1'' (FocusedTaskClaimFactsUnreadable ''t''), jr_key = ''k1'', jr_position = 2, jr_runId = ''run''\<rparr>,
      \<lparr>jr_event = ControlDirectionApplied Pause 2 (TaskSubject ''run'' ''u''), jr_key = ''k2'', jr_position = 4, jr_runId = ''run''\<rparr>,
      \<lparr>jr_event = TaskClaimReacquisitionDirected ''q'' ''run'' ''t'', jr_key = ''k3'', jr_position = 7, jr_runId = ''run''\<rparr>]"

theorem indexed_queries_exact_witness:
  "let ev = journalEvidenceBefore (journalEvidenceFrom noOtherEvents demoJournal) 7 in
   materializeJournalRecords (ev_records ev) = Some (take 2 demoJournal) \<and>
   indexedRecordByKey ev ''k2'' = listRecordByKey (take 2 demoJournal) ''k2'' \<and>
   indexedRecordByPosition ev 4 = journalRecordByPosition (take 2 demoJournal) 4 \<and>
   indexedRecordsForTask ev ''t'' = [demoJournal ! 0]"
proof -
  have chron: "chronological demoJournal" by (simp add: chronological_def demoJournal_def)
  have vis: "filter (\<lambda>r. jr_position r < 7) demoJournal = take 2 demoJournal" by code_simp
  have named: "namedRecords noOtherEvents [] (take 2 demoJournal) ''t'' = [demoJournal ! 0]" by code_simp
  have exact: "materializeJournalRecords (ev_records ev) = Some (take 2 demoJournal) \<and>
     indexedRecordByKey ev ''k2'' = listRecordByKey (take 2 demoJournal) ''k2'' \<and>
     indexedRecordByPosition ev 4 = journalRecordByPosition (take 2 demoJournal) 4 \<and>
     indexedRecordsForTask ev ''t'' = [demoJournal ! 0]"
    if "ev = journalEvidenceBefore (journalEvidenceFrom noOtherEvents demoJournal) 7" for ev
    using indexed_queries_exact [OF chron _ _ that vis [symmetric], of 4 "''k2''"] named by simp
  then show ?thesis by (simp add: Let_def)
qed

end
