(* ===== verification/Claim_Reacquisition.thy ===== *)
theory Claim_Reacquisition
  imports Record_Evidence Journal_Laws
begin

text \<open>
  Explicit reacquisition of a lost claim (\<^verbatim>\<open>workflow/protocols/task-claim-reacquisition\<close>): the operator's direction, applied once per
  transport request, and the search for the latest direction whose loss still lasts, by a scan of the task's records and over indexed
  evidence.
\<close>

section \<open>Loss episodes\<close>

definition taskClaimReacquisitionOperationId :: "string \<Rightarrow> OperationId" where
  "taskClaimReacquisitionOperationId requestId = ''task-claim-reacquisition:'' @ requestId"

definition isFocusedClaimObservation :: "JournalRecord \<Rightarrow> TaskId \<Rightarrow> bool" where
  "isFocusedClaimObservation r taskId =
     (case jr_event r of
        TaskTrackerFactsObserved _ (FocusedTaskClaimFactsUnreadable covered) \<Rightarrow> covered = taskId
      | TaskTrackerFactsObserved _ (FocusedTaskClaimFacts covered _) \<Rightarrow> covered = taskId
      | _ \<Rightarrow> False)"

datatype ClaimLossEpisode = MissingClaim | ForeignClaim ActiveTaskClaim

definition claimLossEpisodeAt :: "JournalRecord \<Rightarrow> ActiveTaskClaim \<Rightarrow> ClaimLossEpisode option" where
  "claimLossEpisodeAt r expectedClaim =
     (case jr_event r of
        TaskTrackerFactsObserved _ (FocusedTaskClaimFacts _ observation) \<Rightarrow>
          (case observation of
             UnclaimedTask _ \<Rightarrow> Some MissingClaim
           | ObservedClaim claim \<Rightarrow> if isExactTaskClaim claim expectedClaim then None else Some (ForeignClaim claim))
      | _ \<Rightarrow> None)"

definition observationRemainsInEpisode :: "JournalRecord \<Rightarrow> ClaimLossEpisode \<Rightarrow> ActiveTaskClaim \<Rightarrow> bool" where
  "observationRemainsInEpisode r episode expectedClaim =
     (case jr_event r of
        TaskTrackerFactsObserved _ (FocusedTaskClaimFacts _ observation) \<Rightarrow>
          (case observation of
             UnclaimedTask _ \<Rightarrow> episode = MissingClaim
           | ObservedClaim claim \<Rightarrow>
               \<not> isExactTaskClaim claim expectedClaim \<and>
               (case episode of MissingClaim \<Rightarrow> False | ForeignClaim foreign \<Rightarrow> isExactTaskClaim claim foreign))
      | _ \<Rightarrow> False)"

definition acquiredExactly :: "JournalRecord \<Rightarrow> ActiveTaskClaim \<Rightarrow> bool" where
  "acquiredExactly r expectedClaim =
     (case jr_event r of TaskClaimAcquired claim \<Rightarrow> isExactTaskClaim claim expectedClaim | _ \<Rightarrow> False)"

fun isAcquisition :: "WorkflowJournalEvent \<Rightarrow> bool" where
  "isAcquisition (TaskClaimAcquired _) \<longleftrightarrow> True"
| "isAcquisition _ \<longleftrightarrow> False"

section \<open>The scan\<close>

definition directionFollowsCurrentLossEpisode ::
  "JournalRecord list \<Rightarrow> TaskId \<Rightarrow> ActiveTaskClaim \<Rightarrow> JournalPosition \<Rightarrow> JournalPosition \<Rightarrow> bool" where
  "directionFollowsCurrentLossEpisode records taskId expectedClaim directionPosition throughPosition =
     (let expectedClaimPosition =
            map_option jr_position (findLast (\<lambda>r. jr_position r < directionPosition \<and> acquiredExactly r expectedClaim) records);
          lossRecord =
            findLast (\<lambda>r. jr_position r < directionPosition \<and>
                (case expectedClaimPosition of None \<Rightarrow> True | Some p \<Rightarrow> jr_position r > p) \<and>
                isFocusedClaimObservation r taskId) records
      in case lossRecord of
           None \<Rightarrow> False
         | Some loss \<Rightarrow>
             (case claimLossEpisodeAt loss expectedClaim of
                None \<Rightarrow> False
              | Some episode \<Rightarrow>
                  list_all (\<lambda>r. \<not> isAcquisition (jr_event r) \<and> observationRemainsInEpisode r episode expectedClaim)
                    (filter (\<lambda>r. jr_position r > jr_position loss \<and> jr_position r \<le> throughPosition \<and>
                        (isFocusedClaimObservation r taskId \<or> acquiredExactly r expectedClaim)) records)))"

fun isDirectionOf :: "RunId \<Rightarrow> TaskId \<Rightarrow> WorkflowJournalEvent \<Rightarrow> bool" where
  "isDirectionOf runId taskId (TaskClaimReacquisitionDirected _ subjectRun subjectTask) \<longleftrightarrow> subjectRun = runId \<and> subjectTask = taskId"
| "isDirectionOf runId taskId _ \<longleftrightarrow> False"

definition latestTaskClaimReacquisitionDirection ::
  "OtherEvents \<Rightarrow> JournalRecord list \<Rightarrow> RunId \<Rightarrow> TaskId \<Rightarrow> ActiveTaskClaim \<Rightarrow> JournalPosition \<Rightarrow> WorkflowJournalEvent option" where
  "latestTaskClaimReacquisitionDirection other records runId taskId expectedClaim throughPosition =
     (let taskRecords = listRecordsForTask other records taskId
      in map_option jr_event
           (findLast (\<lambda>r. isDirectionOf runId taskId (jr_event r) \<and> jr_position r \<le> throughPosition \<and>
               directionFollowsCurrentLossEpisode taskRecords taskId expectedClaim (jr_position r) throughPosition) taskRecords))"

section \<open>The index\<close>

definition exactClaimAcquiredAfterLoss :: "JournalRecordEvidence \<Rightarrow> TaskId \<Rightarrow> ActiveTaskClaim \<Rightarrow> JournalPosition \<Rightarrow> bool" where
  "exactClaimAcquiredAfterLoss records taskId expectedClaim lossPosition =
     (case indexedRecordByKey records (outcomeRecordKey (ac_operationId expectedClaim)) of
        None \<Rightarrow> False
      | Some acquired \<Rightarrow>
          (case jr_event acquired of
             TaskClaimAcquired claim \<Rightarrow>
               ac_taskId claim = taskId \<and> isExactTaskClaim claim expectedClaim \<and> jr_position acquired > lossPosition
           | _ \<Rightarrow> False))"

definition unchangedClaimLossBeforeDirection ::
  "JournalRecordEvidence \<Rightarrow> TaskId \<Rightarrow> ActiveTaskClaim \<Rightarrow> JournalPosition \<Rightarrow> JournalRecord option" where
  "unchangedClaimLossBeforeDirection through taskId expectedClaim directionPosition =
     (case (journalTaskClaimObservationAt (journalEvidenceBefore through directionPosition) taskId,
            journalTaskClaimObservationAt through taskId) of
        (Some (loss, lossStartedAt), Some (_, currentStartedAt)) \<Rightarrow>
          if lossStartedAt \<noteq> currentStartedAt then None
          else if claimLossEpisodeAt loss expectedClaim = None then None
          else Some loss
      | _ \<Rightarrow> None)"

fun directionRun :: "WorkflowJournalEvent \<Rightarrow> RunId option" where
  "directionRun (TaskClaimReacquisitionDirected _ runId _) = Some runId"
| "directionRun _ = None"

definition latestIndexedTaskClaimReacquisitionDirection ::
  "JournalRecordEvidence \<Rightarrow> RunId \<Rightarrow> TaskId \<Rightarrow> ActiveTaskClaim \<Rightarrow> JournalPosition \<Rightarrow> WorkflowJournalEvent option" where
  "latestIndexedTaskClaimReacquisitionDirection records runId taskId expectedClaim throughPosition =
     (let through = journalEvidenceBefore records (throughPosition + 1)
      in case indexedLastForTaskKind through taskId ''TaskClaimReacquisitionDirected'' of
           None \<Rightarrow> None
         | Some direction \<Rightarrow>
             if directionRun (jr_event direction) \<noteq> Some runId then None
             else (case unchangedClaimLossBeforeDirection through taskId expectedClaim (jr_position direction) of
                     None \<Rightarrow> None
                   | Some loss \<Rightarrow>
                       if exactClaimAcquiredAfterLoss through taskId expectedClaim (jr_position loss) then None
                       else Some (jr_event direction)))"

section \<open>Applying a direction\<close>

record ApplyTaskClaimReacquisitionRequest =
  cr_requestId :: string
  cr_runId :: RunId
  cr_taskId :: TaskId

datatype TaskClaimReacquisitionError =
    TaskClaimReacquisitionRequestIdentityContradiction JournalPosition string RunId
  | TaskClaimReacquisitionJournal JournalError

text \<open>The request arrives decoded.\<close>

definition applyTaskClaimReacquisition ::
  "'j InRunJournalService \<Rightarrow> ApplyTaskClaimReacquisitionRequest \<Rightarrow> ('j, TaskClaimReacquisitionError, JournalRecord) effect" where
  "applyTaskClaimReacquisition journal request =
     andThen (mapError TaskClaimReacquisitionJournal (ij_read journal (cr_runId request))) (\<lambda>records.
       if List.find (\<lambda>r. isBeganEvent (jr_event r)) records = None
       then fail (TaskClaimReacquisitionJournal (WorkflowRunNotBegan (cr_runId request)))
       else mapError (\<lambda>e. case e of
                JournalStoreContradiction _ _ existingPosition \<Rightarrow>
                  TaskClaimReacquisitionRequestIdentityContradiction existingPosition (cr_requestId request) (cr_runId request)
              | _ \<Rightarrow> TaskClaimReacquisitionJournal e)
              (ij_append journal (cr_runId request) (taskClaimReacquisitionDirectedRecordKey (cr_requestId request))
                (TaskClaimReacquisitionDirected (cr_requestId request) (cr_runId request) (cr_taskId request))))"

fun acquiredOperation :: "TaskId \<Rightarrow> WorkflowJournalEvent \<Rightarrow> OperationId option" where
  "acquiredOperation taskId (TaskClaimAcquired claim) = (if ac_taskId claim = taskId then Some (ac_operationId claim) else None)"
| "acquiredOperation taskId _ = None"

fun observationOperation :: "TaskId \<Rightarrow> WorkflowJournalEvent \<Rightarrow> OperationId option" where
  "observationOperation taskId (TaskTrackerFactsObserved operationId (FocusedTaskClaimFacts covered _)) =
     (if covered = taskId then Some operationId else None)"
| "observationOperation taskId (TaskTrackerFactsObserved operationId (FocusedTaskClaimFactsUnreadable covered)) =
     (if covered = taskId then Some operationId else None)"
| "observationOperation taskId _ = None"

text \<open>The loop keeps the last acquisition and the last observation of the task.\<close>

definition reacquisitionPredecessorOperationIds :: "JournalRecord list \<Rightarrow> TaskId \<Rightarrow> OperationId list" where
  "reacquisitionPredecessorOperationIds taskRecords taskId =
     (case latest (List.map_filter (\<lambda>r. acquiredOperation taskId (jr_event r)) taskRecords) of None \<Rightarrow> [] | Some op \<Rightarrow> [op]) @
     (case latest (List.map_filter (\<lambda>r. observationOperation taskId (jr_event r)) taskRecords) of None \<Rightarrow> [] | Some op \<Rightarrow> [op])"

end
