(* ===== verification/Journaled_Claims.thy ===== *)
theory Journaled_Claims
  imports Claim_Reacquisition Exit_Lifecycle
begin

text \<open>
  The claim operations as the workflow runs them (\<^verbatim>\<open>workflow-journal/journaled-interpreter.ts\<close>,
  \<^verbatim>\<open>workflow/interpretation/interpreter.ts\<close>, \<^verbatim>\<open>workflow/protocols/task-claim-release/journaled.ts\<close>): the intent is appended, the
  protocol runs on the tracker inside an interruptible boundary, the outcome is appended. The state is the journal beside the tracker. The
  callback after an intent only notifies the process and is left out.
\<close>

section \<open>Journal and tracker\<close>

record ('j, 'w) ClaimWorld =
  cw_journal :: 'j
  cw_tracker :: 'w

datatype ClaimOperationError =
    ClaimJournalFailure JournalError
  | ClaimTrackerFailure TaskClaimError
  | ClaimInterrupted

type_synonym ('j, 'w, 'a) claimEffect = "(('j, 'w) ClaimWorld, ClaimOperationError, 'a) effect"

definition onJournal :: "('j, JournalError, 'a) effect \<Rightarrow> ('j, 'w, 'a) claimEffect" where
  "onJournal m = (\<lambda>w. case m (cw_journal w) of
     (Inr x, j) \<Rightarrow> (Inr x, w\<lparr>cw_journal := j\<rparr>)
   | (Inl e, j) \<Rightarrow> (Inl (ClaimJournalFailure e), w\<lparr>cw_journal := j\<rparr>))"

definition onTracker :: "('w, TaskClaimError, 'a) effect \<Rightarrow> ('j, 'w, 'a) claimEffect" where
  "onTracker m = (\<lambda>w. case m (cw_tracker w) of
     (Inr x, t) \<Rightarrow> (Inr x, w\<lparr>cw_tracker := t\<rparr>)
   | (Inl e, t) \<Rightarrow> (Inl (ClaimTrackerFailure e), w\<lparr>cw_tracker := t\<rparr>))"

section \<open>The interruptible boundary\<close>

text \<open>
  An application exit owner around one call: the lifecycle when the call asks for admission, what an interrupted call has left of the
  tracker if the exit request wins the race, and the lifecycle after the result is recorded.
\<close>

record 'w BoundaryExecution =
  bx_lifecycle :: ApplicationExitLifecycleState
  bx_ownerId :: nat
  bx_interruption :: "('w \<Rightarrow> 'w) option"
  bx_after :: ApplicationExitLifecycleState

definition lifecycleBoundary ::
  "'w BoundaryExecution \<Rightarrow> InterruptibleWorkflowBoundaryIntent \<Rightarrow> ('j, 'w, 'a) claimEffect \<Rightarrow> ('a \<Rightarrow> ('j, 'w, 'b) claimEffect) \<Rightarrow>
   ('j, 'w, 'b) claimEffect" where
  "lifecycleBoundary x intent call recordResult =
     (if \<not> fst (admitInterruptibleCall (bx_ownerId x) intent (bx_lifecycle x)) then fail ClaimInterrupted
      else (case bx_interruption x of
              Some left_over \<Rightarrow> (\<lambda>w. (Inl ClaimInterrupted, w\<lparr>cw_tracker := left_over (cw_tracker w)\<rparr>))
            | None \<Rightarrow> andThen call (\<lambda>result. andThen (recordResult result) (\<lambda>recorded.
                if isExiting (al_phase (bx_after x)) then fail ClaimInterrupted else succeed recorded))))"

definition runInterruptibleBoundary ::
  "'w BoundaryExecution option \<Rightarrow> InterruptibleWorkflowBoundaryIntent \<Rightarrow> ('j, 'w, 'a) claimEffect \<Rightarrow> ('a \<Rightarrow> ('j, 'w, 'b) claimEffect) \<Rightarrow>
   ('j, 'w, 'b) claimEffect" where
  "runInterruptibleBoundary execution intent call recordResult =
     (case execution of None \<Rightarrow> andThen call recordResult | Some x \<Rightarrow> lifecycleBoundary x intent call recordResult)"

section \<open>Acquisition\<close>

datatype TaskClaimAcquisitionResult =
    AuthoritativeTaskClaimAcquired ActiveTaskClaim
  | AuthoritativeTaskClaimAcquisitionRejected ActiveTaskClaim

definition acquireTaskClaimThrough ::
  "'w TrackerMutationService \<Rightarrow> TaskClaimAcquisitionOperation \<Rightarrow> ('w, TaskClaimError, TaskClaimAcquisitionResult) effect" where
  "acquireTaskClaimThrough tracker operation =
     andThen (runTaskClaimAcquisitionProtocol tracker (ao_acquisition operation)) (\<lambda>claim. succeed (AuthoritativeTaskClaimAcquired claim))"

text \<open>A conflict is an outcome, not a failure.\<close>

definition rejectConflict :: "('w, TaskClaimError, TaskClaimAcquisitionResult) effect \<Rightarrow> ('w, TaskClaimError, TaskClaimAcquisitionResult) effect" where
  "rejectConflict m = (\<lambda>w. case m w of
     (Inl (TaskClaimConflict _ observed), w') \<Rightarrow> (Inr (AuthoritativeTaskClaimAcquisitionRejected observed), w')
   | other \<Rightarrow> other)"

fun acquisitionOutcomeEvent :: "OperationId \<Rightarrow> TaskClaimAcquisitionResult \<Rightarrow> WorkflowJournalEvent" where
  "acquisitionOutcomeEvent operationId (AuthoritativeTaskClaimAcquired claim) = TaskClaimAcquired claim"
| "acquisitionOutcomeEvent operationId (AuthoritativeTaskClaimAcquisitionRejected observed) = TaskClaimAcquisitionRejected observed operationId"

definition journaledAcquireTaskClaim ::
  "'j InRunJournalService \<Rightarrow> 'w TrackerMutationService \<Rightarrow> RunId \<Rightarrow> 'w BoundaryExecution option \<Rightarrow> TaskClaimAcquisitionOperation \<Rightarrow>
   ('j, 'w, TaskClaimAcquisitionResult) claimEffect" where
  "journaledAcquireTaskClaim journal tracker runId execution operation =
     (let operationId = aq_operationId (ao_acquisition operation) in
      andThen (onJournal (ij_append journal runId (intentRecordKey operationId) (TaskClaimAcquisitionIntended operation))) (\<lambda>_.
        runInterruptibleBoundary execution (AuthorityRequest FamilyTaskTracker operationId)
          (onTracker (rejectConflict (acquireTaskClaimThrough tracker operation)))
          (\<lambda>outcome. andThen (onJournal (ij_append journal runId (outcomeRecordKey operationId) (acquisitionOutcomeEvent operationId outcome)))
             (\<lambda>_. succeed outcome))))"

section \<open>Observation\<close>

datatype TaskClaimObservationResult =
    AuthoritativeTaskClaimObserved TaskClaimObservation
  | TaskClaimObservationUnreadable nat TaskId

definition observeTaskClaimThrough ::
  "'w TrackerMutationService \<Rightarrow> TaskId \<Rightarrow> ('w, TaskClaimError, TaskClaimObservationResult) effect" where
  "observeTaskClaimThrough tracker taskId = (\<lambda>w. case observeTaskClaim tracker taskId w of
     (Inr observation, w') \<Rightarrow> (Inr (AuthoritativeTaskClaimObserved observation), w')
   | (Inl (TaskClaimObservationDidNotConverge attempts _ unread), w') \<Rightarrow> (Inr (TaskClaimObservationUnreadable attempts unread), w')
   | (Inl e, w') \<Rightarrow> (Inl e, w'))"

fun observedFacts :: "TaskId \<Rightarrow> TaskClaimObservationResult \<Rightarrow> TaskTrackerFacts" where
  "observedFacts taskId (AuthoritativeTaskClaimObserved observation) = FocusedTaskClaimFacts taskId observation"
| "observedFacts taskId (TaskClaimObservationUnreadable _ _) = FocusedTaskClaimFactsUnreadable taskId"

fun recordedObservation :: "TaskId \<Rightarrow> WorkflowJournalEvent \<Rightarrow> TaskClaimObservationResult option" where
  "recordedObservation taskId (TaskTrackerFactsObserved _ (FocusedTaskClaimFacts _ observation)) = Some (AuthoritativeTaskClaimObserved observation)"
| "recordedObservation taskId (TaskTrackerFactsObserved _ _) = Some (TaskClaimObservationUnreadable taskClaimObservationAttemptBound taskId)"
| "recordedObservation taskId _ = None"

definition existingOutcome :: "JournalRecord list \<Rightarrow> OperationId \<Rightarrow> WorkflowJournalEvent option" where
  "existingOutcome records operationId = map_option jr_event (listRecordByKey records (outcomeRecordKey operationId))"

definition journaledReadTaskClaim ::
  "'j InRunJournalService \<Rightarrow> 'w TrackerMutationService \<Rightarrow> RunId \<Rightarrow> 'w BoundaryExecution option \<Rightarrow>
   OperationId \<Rightarrow> OperationId list \<Rightarrow> TrackerTarget \<Rightarrow> TaskId \<Rightarrow> ('j, 'w, TaskClaimObservationResult) claimEffect" where
  "journaledReadTaskClaim journal tracker runId execution operationId predecessors target taskId =
     andThen (onJournal (ij_append journal runId (intentRecordKey operationId)
         (TaskTrackerReadIntentRecorded (ReadTaskClaim operationId predecessors target taskId)))) (\<lambda>_.
     andThen (onJournal (ij_read journal runId)) (\<lambda>records.
       case Option.bind (existingOutcome records operationId) (recordedObservation taskId) of
         Some recorded \<Rightarrow> succeed recorded
       | None \<Rightarrow>
           runInterruptibleBoundary execution (AuthorityRequest FamilyTaskTracker operationId)
             (onTracker (observeTaskClaimThrough tracker taskId))
             (\<lambda>result. andThen (onJournal (ij_append journal runId (outcomeRecordKey operationId)
                  (TaskTrackerFactsObserved operationId (observedFacts taskId result)))) (\<lambda>_. succeed result))))"

section \<open>Release\<close>

definition releaseEquals :: "TaskClaimRelease \<Rightarrow> TaskClaimRelease \<Rightarrow> bool" where
  "releaseEquals left right \<longleftrightarrow>
     rl_operationId left = rl_operationId right \<and>
     ac_operationId (rl_claim left) = ac_operationId (rl_claim right) \<and>
     ac_owner (rl_claim left) = ac_owner (rl_claim right) \<and>
     ac_taskId (rl_claim left) = ac_taskId (rl_claim right) \<and>
     ac_token (rl_claim left) = ac_token (rl_claim right)"

fun releasedEvent :: "TaskClaimRelease \<Rightarrow> WorkflowJournalEvent \<Rightarrow> bool" where
  "releasedEvent release (TaskClaimReleased recorded) = releaseEquals recorded release"
| "releasedEvent release _ = False"

definition releaseBoundaryIntent :: "InterruptibleWorkflowBoundaryIntent option \<Rightarrow> OperationId \<Rightarrow> InterruptibleWorkflowBoundaryIntent" where
  "releaseBoundaryIntent boundaryIntent operationId =
     (case boundaryIntent of None \<Rightarrow> TaskClaimCleanup operationId | Some intent \<Rightarrow> intent)"

definition runJournaledTaskClaimRelease ::
  "'j InRunJournalService \<Rightarrow> RunId \<Rightarrow> InterruptibleWorkflowBoundaryIntent option \<Rightarrow> 'w BoundaryExecution option \<Rightarrow>
   TaskClaimReleaseOperation \<Rightarrow> ('w, TaskClaimError, TaskClaimRelease) effect \<Rightarrow> ('j, 'w, TaskClaimRelease) claimEffect" where
  "runJournaledTaskClaimRelease journal runId boundaryIntent execution operation release =
     (let operationId = rl_operationId (ro_release operation) in
      andThen (onJournal (ij_append journal runId (intentRecordKey operationId) (TaskClaimReleaseIntended operation))) (\<lambda>_.
      andThen (onJournal (ij_read journal runId)) (\<lambda>records.
        if (case existingOutcome records operationId of None \<Rightarrow> False | Some event \<Rightarrow> releasedEvent (ro_release operation) event)
        then succeed (ro_release operation)
        else runInterruptibleBoundary execution (releaseBoundaryIntent boundaryIntent operationId) (onTracker release)
          (\<lambda>result. andThen (onJournal (ij_append journal runId (outcomeRecordKey operationId) (TaskClaimReleased (ro_release operation))))
             (\<lambda>_. succeed result)))))"

definition releaseTaskClaimThrough ::
  "'w TrackerMutationService \<Rightarrow> TaskClaimReleaseOperation \<Rightarrow> ('w, TaskClaimError, TaskClaimRelease) effect" where
  "releaseTaskClaimThrough tracker operation = runTaskClaimReleaseProtocol (releaseBoundaryOf tracker) (ro_release operation)"

definition journaledReleaseTaskClaim ::
  "'j InRunJournalService \<Rightarrow> 'w TrackerMutationService \<Rightarrow> RunId \<Rightarrow> 'w BoundaryExecution option \<Rightarrow> TaskClaimReleaseOperation \<Rightarrow>
   ('j, 'w, TaskClaimRelease) claimEffect" where
  "journaledReleaseTaskClaim journal tracker runId execution operation =
     runJournaledTaskClaimRelease journal runId (Some (TaskClaimCleanup (rl_operationId (ro_release operation)))) execution operation
       (releaseTaskClaimThrough tracker operation)"

end
