(* ===== verification/Reacquisition_Properties.thy ===== *)
theory Reacquisition_Properties
  imports Claim_Reacquisition Evidence_Properties Claim_Properties Journal_Properties
begin

text \<open>
  The search for a live reacquisition direction: its meaning on a chronological history, and the agreement of the scan and the index.
\<close>

section \<open>Last records\<close>

lemma findLast_iff:
  assumes "chronological rs"
  shows "findLast P rs = Some r \<longleftrightarrow> r \<in> set rs \<and> P r \<and> (\<forall>y\<in>set rs. P y \<longrightarrow> jr_position y \<le> jr_position r)"
  using assms
proof (induction rs rule: rev_induct)
  case (snoc x rs)
  have new: "jr_position y < jr_position x" if "y \<in> set rs" for y using snoc.prems that by (simp add: chronological_snoc)
  have ih: "findLast P rs = Some r \<longleftrightarrow> r \<in> set rs \<and> P r \<and> (\<forall>y\<in>set rs. P y \<longrightarrow> jr_position y \<le> jr_position r)"
    using snoc by (simp add: chronological_snoc)
  show ?case
  proof (cases "P x")
    case True
    then show ?thesis using new by (auto dest: new intro: less_imp_le)
  next
    case False
    then show ?thesis using ih by auto
  qed
qed simp

lemma wellFormed_chronological: "wellFormedHistory runId rs \<Longrightarrow> chronological rs"
  using wellFormedHistory_strict wellFormedHistory_position_le by (fastforce simp: chronological_def)

section \<open>Episodes\<close>

declare isExact_iff [simp]

lemma focused_iff: "isFocusedClaimObservation r t \<longleftrightarrow> (\<exists>content. focusedObservation r = Some (t, content))"
  by (auto simp: isFocusedClaimObservation_def split: WorkflowJournalEvent.splits TaskTrackerFacts.splits)

lemma focusedFor_mem: "r \<in> set (focusedFor t rs) \<longleftrightarrow> r \<in> set rs \<and> isFocusedClaimObservation r t"
  by (auto simp: focusedFor_def focused_iff split: option.splits)

lemma same_remains:
  assumes "claimLossEpisodeAt loss expected = Some episode"
  shows "observationRemainsInEpisode r episode expected \<longleftrightarrow> sameObservation loss r"
  using assms
  by (auto simp: claimLossEpisodeAt_def observationRemainsInEpisode_def sameObservation_def
      split: WorkflowJournalEvent.splits TaskTrackerFacts.splits TaskClaimObservation.splits if_splits)

lemma focused_exhaust:
  fixes observed :: "(TaskId \<times> TaskClaimObservation option) option"
  obtains (none) "observed = None" | (unreadable) t where "observed = Some (t, None)"
    | (unclaimed) t u where "observed = Some (t, Some (UnclaimedTask u))" | (claimed) t c where "observed = Some (t, Some (ObservedClaim c))"
proof (cases observed)
  case (Some p)
  then show thesis using unreadable unclaimed claimed by (cases p; cases "snd p"; cases "the (snd p)") auto
qed (rule none)

lemma same_trans: "sameObservation x y \<Longrightarrow> sameObservation x z \<longleftrightarrow> sameObservation y z"
  unfolding sameObservation_def
  by (cases "focusedObservation x" rule: focused_exhaust; cases "focusedObservation y" rule: focused_exhaust;
      cases "focusedObservation z" rule: focused_exhaust) (auto simp del: focusedObservation.simps)

lemma same_loses: "sameObservation x y \<Longrightarrow> claimLossEpisodeAt x expected \<noteq> None \<Longrightarrow> claimLossEpisodeAt y expected \<noteq> None"
  by (cases "jr_event x"; cases "jr_event y")
    (auto simp: claimLossEpisodeAt_def sameObservation_def split: TaskTrackerFacts.splits TaskClaimObservation.splits if_splits)

lemma episodeStart_le: "chronological xs \<Longrightarrow> xs \<noteq> [] \<Longrightarrow> episodeStart (rev xs) \<le> jr_position (last xs)"
proof (induction xs rule: rev_induct)
  case (snoc x xs)
  then show ?case
    by (cases "xs = []") (auto simp: episodeStart_newest chronological_snoc intro: order.trans dest!: last_in_set bspec)
qed simp

lemma episodeStart_unbroken:
  assumes "chronological (xs @ ys)" "xs \<noteq> []"
  shows "episodeStart (rev (xs @ ys)) = episodeStart (rev xs) \<longleftrightarrow> (\<forall>y\<in>set ys. sameObservation (last xs) y)"
  using assms
proof (induction ys rule: rev_induct)
  case (snoc y ys)
  have chron: "chronological (xs @ ys)" "chronological xs" using snoc.prems(1) by (auto simp: chronological_append)
  have newest: "episodeStart (rev (xs @ ys @ [y])) =
      (if sameObservation (last (xs @ ys)) y then episodeStart (rev (xs @ ys)) else jr_position y)"
    using snoc.prems(2) by (simp add: episodeStart_newest hd_rev hd_append last_append)
  have "jr_position (last xs) < jr_position y"
    using snoc.prems by (auto simp: chronological_append)
  then have late: "jr_position y \<noteq> episodeStart (rev xs)" using episodeStart_le [OF chron(2) snoc.prems(2)] by simp
  have bound: "episodeStart (rev (xs @ ys)) = episodeStart (rev xs) \<longleftrightarrow> (\<forall>y\<in>set ys. sameObservation (last xs) y)"
    by (rule snoc.IH [OF chron(1) snoc.prems(2)])
  show ?case
  proof (cases "\<forall>y\<in>set ys. sameObservation (last xs) y")
    case True
    have "sameObservation (last (xs @ ys)) y \<longleftrightarrow> sameObservation (last xs) y"
    proof (cases "ys = []")
      case False
      then have "sameObservation (last xs) (last ys)" using True by simp
      then show ?thesis using False same_trans [of "last xs" "last ys" y] by simp
    qed simp
    then show ?thesis using newest bound True late by auto
  next
    case False
    then have "episodeStart (rev (xs @ ys)) \<noteq> episodeStart (rev xs)" using bound by simp
    then show ?thesis using newest False late by auto
  qed
qed simp

section \<open>A lasting loss\<close>

definition lossLasts :: "JournalRecord list \<Rightarrow> TaskId \<Rightarrow> ActiveTaskClaim \<Rightarrow> JournalPosition \<Rightarrow> JournalPosition \<Rightarrow> JournalRecord \<Rightarrow> bool" where
  "lossLasts rs t expected direction through loss \<longleftrightarrow>
     loss \<in> set rs \<and> isFocusedClaimObservation loss t \<and> jr_position loss < direction \<and>
     (\<forall>y\<in>set rs. isFocusedClaimObservation y t \<and> jr_position y < direction \<longrightarrow> jr_position y \<le> jr_position loss) \<and>
     claimLossEpisodeAt loss expected \<noteq> None \<and>
     (\<forall>y\<in>set rs. jr_position loss < jr_position y \<and> jr_position y \<le> through \<longrightarrow>
        (isFocusedClaimObservation y t \<longrightarrow> sameObservation loss y) \<and> \<not> (acquiredExactly y expected \<and> ac_taskId expected = t))"

lemma listed_focused: "isFocusedClaimObservation r t \<Longrightarrow> r \<in> set (listRecordsForTask other rs t) \<longleftrightarrow> r \<in> set rs"
  by (auto simp: listRecordsForTask_def isFocusedClaimObservation_def split: WorkflowJournalEvent.splits TaskTrackerFacts.splits)

lemma listed_acquired: "acquiredExactly r expected \<Longrightarrow> r \<in> set (listRecordsForTask other rs t) \<longleftrightarrow> r \<in> set rs \<and> ac_taskId expected = t"
  by (auto simp: listRecordsForTask_def acquiredExactly_def split: WorkflowJournalEvent.splits)

lemma acquired_not_focused: "acquiredExactly r expected \<Longrightarrow> \<not> isFocusedClaimObservation r t"
  by (auto simp: acquiredExactly_def isFocusedClaimObservation_def split: WorkflowJournalEvent.splits)

lemma acquired_isAcquisition: "acquiredExactly r expected \<Longrightarrow> isAcquisition (jr_event r)"
  by (auto simp: acquiredExactly_def split: WorkflowJournalEvent.splits)

lemma focused_not_acquisition: "isFocusedClaimObservation r t \<Longrightarrow> \<not> isAcquisition (jr_event r)"
  by (auto simp: isFocusedClaimObservation_def split: WorkflowJournalEvent.splits)

lemma follows_lasts:
  assumes chron: "chronological rs" and T: "T = listRecordsForTask other rs t" and d: "d \<le> through"
  shows "directionFollowsCurrentLossEpisode T t expected d through \<longleftrightarrow> (\<exists>loss. lossLasts rs t expected d through loss)"
proof -
  have chronT: "chronological T" by (simp add: T listRecordsForTask_def chronological_filter chron)
  define acquired where "acquired = findLast (\<lambda>r. jr_position r < d \<and> acquiredExactly r expected) T"
  define after where "after r \<longleftrightarrow> (case map_option jr_position acquired of None \<Rightarrow> True | Some p \<Rightarrow> jr_position r > p)" for r :: JournalRecord
  define loss where "loss = findLast (\<lambda>r. jr_position r < d \<and> after r \<and> isFocusedClaimObservation r t) T"
  have follows: "directionFollowsCurrentLossEpisode T t expected d through \<longleftrightarrow>
      (\<exists>l episode. loss = Some l \<and> claimLossEpisodeAt l expected = Some episode \<and>
         (\<forall>y\<in>set T. jr_position l < jr_position y \<and> jr_position y \<le> through \<and> (isFocusedClaimObservation y t \<or> acquiredExactly y expected) \<longrightarrow>
            \<not> isAcquisition (jr_event y) \<and> observationRemainsInEpisode y episode expected))"
    by (simp add: directionFollowsCurrentLossEpisode_def Let_def loss_def after_def acquired_def list_all_iff split: option.splits) blast
  have loss_iff: "loss = Some l \<longleftrightarrow> l \<in> set rs \<and> jr_position l < d \<and> after l \<and> isFocusedClaimObservation l t \<and>
      (\<forall>y\<in>set rs. jr_position y < d \<and> after y \<and> isFocusedClaimObservation y t \<longrightarrow> jr_position y \<le> jr_position l)" for l
    unfolding loss_def findLast_iff [OF chronT] using listed_focused [of _ t other rs] T by blast
  have rest: "(\<forall>y\<in>set T. jr_position l < jr_position y \<and> jr_position y \<le> through \<and> (isFocusedClaimObservation y t \<or> acquiredExactly y expected) \<longrightarrow>
        \<not> isAcquisition (jr_event y) \<and> observationRemainsInEpisode y episode expected) \<longleftrightarrow>
      (\<forall>y\<in>set rs. jr_position l < jr_position y \<and> jr_position y \<le> through \<longrightarrow>
        (isFocusedClaimObservation y t \<longrightarrow> sameObservation l y) \<and> \<not> (acquiredExactly y expected \<and> ac_taskId expected = t))"
    if "claimLossEpisodeAt l expected = Some episode" for l episode
    unfolding T same_remains [OF that]
    using listed_focused listed_acquired focused_not_acquisition acquired_isAcquisition by blast
  have after_mono: "after x \<Longrightarrow> \<not> after y \<Longrightarrow> jr_position y \<le> jr_position x" for x y
    by (auto simp: after_def split: option.splits)
  show ?thesis
  proof
    assume "directionFollowsCurrentLossEpisode T t expected d through"
    then obtain l episode where l: "loss = Some l" "claimLossEpisodeAt l expected = Some episode"
      "\<forall>y\<in>set rs. jr_position l < jr_position y \<and> jr_position y \<le> through \<longrightarrow>
        (isFocusedClaimObservation y t \<longrightarrow> sameObservation l y) \<and> \<not> (acquiredExactly y expected \<and> ac_taskId expected = t)"
      using follows rest by blast
    then have "lossLasts rs t expected d through l"
      unfolding lossLasts_def using loss_iff [of l] after_mono [of l] by blast
    then show "\<exists>loss. lossLasts rs t expected d through loss" by blast
  next
    assume "\<exists>loss. lossLasts rs t expected d through loss"
    then obtain l where l: "lossLasts rs t expected d through l" by blast
    then obtain episode where episode: "claimLossEpisodeAt l expected = Some episode" by (auto simp: lossLasts_def)
    have "after l"
    proof (cases acquired)
      case (Some a)
      then have a: "a \<in> set T" "jr_position a < d" "acquiredExactly a expected"
        by (auto simp: acquired_def dest: findLast_SomeD)
      then have "a \<in> set rs" "ac_taskId expected = t" using listed_acquired T by blast+
      moreover have "jr_position a \<noteq> jr_position l"
        using chronological_inj [OF chron \<open>a \<in> set rs\<close>, of l] l a(3) acquired_not_focused by (auto simp: lossLasts_def)
      ultimately show ?thesis using l a d Some by (force simp: after_def lossLasts_def)
    qed (simp add: after_def)
    then have "loss = Some l" using l unfolding loss_iff lossLasts_def by blast
    then show "directionFollowsCurrentLossEpisode T t expected d through"
      using follows rest [OF episode] episode l unfolding lossLasts_def by blast
  qed
qed

lemma lossLasts_later:
  assumes chron: "chronological rs" and l: "lossLasts rs t expected d through l" and d: "d \<le> d'" "d' \<le> through"
  shows "\<exists>l'. lossLasts rs t expected d' through l'"
proof -
  let ?P = "\<lambda>r. isFocusedClaimObservation r t \<and> jr_position r < d'"
  have "l \<in> set rs" "?P l" using l d by (auto simp: lossLasts_def)
  then have "findLast ?P rs \<noteq> None" unfolding findLast_None_iff by blast
  then obtain l' where l': "findLast ?P rs = Some l'" by blast
  then have facts: "l' \<in> set rs" "isFocusedClaimObservation l' t" "jr_position l' < d'"
    "\<forall>y\<in>set rs. isFocusedClaimObservation y t \<and> jr_position y < d' \<longrightarrow> jr_position y \<le> jr_position l'"
    using findLast_iff [OF chron, of ?P l'] by auto
  have le: "jr_position l \<le> jr_position l'" using facts(4) \<open>l \<in> set rs\<close> \<open>?P l\<close> by blast
  show ?thesis
  proof (cases "jr_position l' = jr_position l")
    case True
    then have "l' = l" using chronological_inj [OF chron] facts(1) \<open>l \<in> set rs\<close> by blast
    then show ?thesis using l facts unfolding lossLasts_def by blast
  next
    case False
    then have "jr_position l < jr_position l'" "jr_position l' \<le> through" using le facts(3) d by auto
    then have same: "sameObservation l l'" using l facts(1,2) unfolding lossLasts_def by blast
    have "claimLossEpisodeAt l expected \<noteq> None" using l by (simp add: lossLasts_def)
    with same have "claimLossEpisodeAt l' expected \<noteq> None" by (rule same_loses)
    moreover have "(isFocusedClaimObservation y t \<longrightarrow> sameObservation l' y) \<and> \<not> (acquiredExactly y expected \<and> ac_taskId expected = t)"
      if "y \<in> set rs" "jr_position l' < jr_position y" "jr_position y \<le> through" for y
    proof -
      have "jr_position l < jr_position y" using le that(2) by simp
      then show ?thesis using l that same_trans [OF same, of y] unfolding lossLasts_def by blast
    qed
    ultimately show ?thesis using facts unfolding lossLasts_def by blast
  qed
qed

section \<open>The index\<close>

lemma observationAt_view:
  assumes chron: "chronological rs" and view: "viewOf other rs p ev"
  shows "journalTaskClaimObservationAt ev t =
    (let xs = focusedFor t (upTo p rs) in if xs = [] then None else Some (last xs, episodeStart (rev xs)))"
proof -
  let ?roots = "ix_claimObservationEpisodes (ev_indexes ev)" and ?all = "focusedFor t rs"
  let ?xs = "focusedFor t (upTo p rs)"
  have episodes: "episodesFor rs ?roots" using view by (simp add: viewOf_def indexesFor_def)
  then have sq: "seqIs (sequenceIn (er_byTask ?roots) t) ?all" by (simp add: episodesFor_def)
  have chron_all: "chronological ?all" by (simp add: focusedFor_def chronological_filter chron)
  have vis: "upTo (throughOf ev) ?all = ?xs"
    using viewOf_through(2) [OF chron view] by (simp add: focusedFor_def upTo_filter)
  have n: "countLoop (sequenceIn (er_byTask ?roots) t) (throughOf ev) 0 (sq_length (sequenceIn (er_byTask ?roots) t)) = length ?xs"
    using recordCount_correct [OF sq chron_all, of "throughOf ev"] vis by (simp add: recordCountThroughPosition_def)
  obtain ys where ys: "?all = ?xs @ ys" using upTo_split [OF chron_all, of "throughOf ev"] vis by auto
  show ?thesis
  proof (cases "?xs = []")
    case True
    then show ?thesis using n by (simp add: journalTaskClaimObservationAt_def claimObservationEpisodeAt_def)
  next
    case False
    have "journalRecordAt (sequenceIn (er_byTask ?roots) t) (int (length ?xs) - 1) = Some (last ?xs)"
      using seqIs_at_pred [OF sq, of "length ?xs"] False ys by (simp add: last_conv_nth nth_append)
    moreover have "er_startedAt ?roots (jr_position (last ?xs)) = Some (episodeStart (rev ?xs))"
      using episodes ys False unfolding episodesFor_def by blast
    ultimately show ?thesis using n False by (simp add: journalTaskClaimObservationAt_def claimObservationEpisodeAt_def Let_def)
  qed
qed

lemma last_chronological:
  assumes "chronological xs" "xs \<noteq> []"
  shows "r = last xs \<longleftrightarrow> r \<in> set xs \<and> (\<forall>y\<in>set xs. jr_position y \<le> jr_position r)"
  using findLast_iff [OF assms(1), of "\<lambda>_. True" r] assms(2)
  by (cases xs rule: rev_cases) auto

text \<open>The prefix of a view that ends before a position, and the rest of it.\<close>

lemma unchanged_loss:
  assumes chron: "chronological rs" and view: "viewOf other rs p through" and d: "1 \<le> d"
  shows "unchangedClaimLossBeforeDirection through t expected d = Some l \<longleftrightarrow>
    l \<in> set (upTo p rs) \<and> isFocusedClaimObservation l t \<and> jr_position l < d \<and>
    (\<forall>y\<in>set (upTo p rs). isFocusedClaimObservation y t \<and> jr_position y < d \<longrightarrow> jr_position y \<le> jr_position l) \<and>
    claimLossEpisodeAt l expected \<noteq> None \<and>
    (\<forall>y\<in>set (upTo p rs). jr_position l < jr_position y \<and> isFocusedClaimObservation y t \<longrightarrow> sameObservation l y)"
proof -
  let ?full = "focusedFor t (upTo p rs)" and ?xs = "focusedFor t (upTo (min p (d - 1)) rs)"
  have before: "journalTaskClaimObservationAt (journalEvidenceBefore through d) t =
      (let xs = ?xs in if xs = [] then None else Some (last xs, episodeStart (rev xs)))"
    by (rule observationAt_view [OF chron journalEvidenceBefore_view [OF chron view d]])
  have now: "journalTaskClaimObservationAt through t =
      (let xs = ?full in if xs = [] then None else Some (last xs, episodeStart (rev xs)))"
    by (rule observationAt_view [OF chron view])
  have chron_full: "chronological ?full" by (simp add: focusedFor_def chronological_filter chronological_upTo chron)
  have cut: "upTo (d - 1) ?full = ?xs" by (simp add: focusedFor_def upTo_filter upTo_upTo min.commute)
  then obtain ys where ys: "?full = ?xs @ ys" "\<forall>y\<in>set ys. d - 1 < jr_position y" using upTo_split [OF chron_full, of "d - 1"] by auto
  have in_xs: "y \<in> set ?xs \<longleftrightarrow> y \<in> set (upTo p rs) \<and> isFocusedClaimObservation y t \<and> jr_position y < d" for y
    using d by (auto simp: focusedFor_mem upTo_def)
  have in_ys: "y \<in> set ys \<longleftrightarrow> y \<in> set (upTo p rs) \<and> isFocusedClaimObservation y t \<and> d \<le> jr_position y" for y
  proof -
    have "y \<in> set ?full \<longleftrightarrow> y \<in> set ?xs \<or> y \<in> set ys" by (subst ys(1)) simp
    then show ?thesis using in_xs [of y] ys(2) d focusedFor_mem [of y t "upTo p rs"] by fastforce
  qed
  have unchanged: "unchangedClaimLossBeforeDirection through t expected d = Some l \<longleftrightarrow>
      ?xs \<noteq> [] \<and> l = last ?xs \<and> claimLossEpisodeAt l expected \<noteq> None \<and> (\<forall>y\<in>set ys. sameObservation l y)"
  proof (cases "?xs = []")
    case False
    then have "?full \<noteq> []" using ys(1) by auto
    moreover have "episodeStart (rev ?xs) = episodeStart (rev ?full) \<longleftrightarrow> (\<forall>y\<in>set ys. sameObservation (last ?xs) y)"
      using episodeStart_unbroken [of ?xs ys] chron_full ys(1) False by auto
    ultimately show ?thesis using False before now by (auto simp: unchangedClaimLossBeforeDirection_def Let_def)
  qed (simp add: unchangedClaimLossBeforeDirection_def before Let_def)
  have chron_xs: "chronological ?xs" by (simp add: focusedFor_def chronological_filter chronological_upTo chron)
  have last_xs: "?xs \<noteq> [] \<and> l = last ?xs \<longleftrightarrow> l \<in> set ?xs \<and> (\<forall>y\<in>set ?xs. jr_position y \<le> jr_position l)"
    using last_chronological [OF chron_xs, of l] by (cases "?xs = []") simp_all
  show ?thesis
  proof
    assume "unchangedClaimLossBeforeDirection through t expected d = Some l"
    then have l: "l \<in> set ?xs" "\<forall>y\<in>set ?xs. jr_position y \<le> jr_position l" "claimLossEpisodeAt l expected \<noteq> None"
      "\<forall>y\<in>set ys. sameObservation l y" using unchanged last_xs by blast+
    have "sameObservation l y" if "y \<in> set (upTo p rs)" "jr_position l < jr_position y" "isFocusedClaimObservation y t" for y
      using l(2,4) in_xs [of y] in_ys [of y] that by (meson leD not_le)
    then show "l \<in> set (upTo p rs) \<and> isFocusedClaimObservation l t \<and> jr_position l < d \<and>
      (\<forall>y\<in>set (upTo p rs). isFocusedClaimObservation y t \<and> jr_position y < d \<longrightarrow> jr_position y \<le> jr_position l) \<and>
      claimLossEpisodeAt l expected \<noteq> None \<and>
      (\<forall>y\<in>set (upTo p rs). jr_position l < jr_position y \<and> isFocusedClaimObservation y t \<longrightarrow> sameObservation l y)"
      using l in_xs by blast
  next
    assume l: "l \<in> set (upTo p rs) \<and> isFocusedClaimObservation l t \<and> jr_position l < d \<and>
      (\<forall>y\<in>set (upTo p rs). isFocusedClaimObservation y t \<and> jr_position y < d \<longrightarrow> jr_position y \<le> jr_position l) \<and>
      claimLossEpisodeAt l expected \<noteq> None \<and>
      (\<forall>y\<in>set (upTo p rs). jr_position l < jr_position y \<and> isFocusedClaimObservation y t \<longrightarrow> sameObservation l y)"
    then have "\<forall>y\<in>set ys. sameObservation l y" using in_ys by (meson less_le_trans)
    then show "unchangedClaimLossBeforeDirection through t expected d = Some l" using unchanged last_xs l in_xs by blast
  qed
qed

text \<open>
  Acquired claims are recorded under the outcome key of their operation, and a record of the direction's kind is a direction
  for its own run.
\<close>

definition claimRecordsDecoded :: "JournalRecord list \<Rightarrow> bool" where
  "claimRecordsDecoded rs \<longleftrightarrow>
     (\<forall>r\<in>set rs. (\<forall>claim. jr_event r = TaskClaimAcquired claim \<longrightarrow> jr_key r = outcomeRecordKey (ac_operationId claim)) \<and>
        (eventTag (jr_event r) = ''TaskClaimReacquisitionDirected'' \<longrightarrow>
           (\<exists>requestId t. jr_event r = TaskClaimReacquisitionDirected requestId (jr_runId r) t)))"

lemma acquired_after_loss:
  assumes wf: "wellFormedHistory runId rs" and decoded: "claimRecordsDecoded rs" and view: "viewOf other rs p ev"
  shows "exactClaimAcquiredAfterLoss ev t expected lossPosition \<longleftrightarrow>
    (\<exists>y\<in>set (upTo p rs). acquiredExactly y expected \<and> ac_taskId expected = t \<and> lossPosition < jr_position y)"
proof -
  let ?key = "outcomeRecordKey (ac_operationId expected)"
  note chron = wellFormed_chronological [OF wf]
  have byKey: "indexedRecordByKey ev ?key = List.find (\<lambda>r. jr_key r = ?key) (upTo p rs)"
    using visible_filter [OF chron view, of "\<lambda>r. jr_key r = ?key"] view
    by (simp add: indexedRecordByKey_def listRecordByKey_def viewOf_def indexesFor_def)
  have keyed: "jr_key y = ?key" if "y \<in> set (upTo p rs)" "acquiredExactly y expected" for y
    using decoded that by (auto simp: claimRecordsDecoded_def upTo_def acquiredExactly_def split: WorkflowJournalEvent.splits)
  have unique: "x = y" if "x \<in> set (upTo p rs)" "y \<in> set (upTo p rs)" "jr_key x = jr_key y" for x y
    using wellFormedHistory_key_unique [OF wf] that by (auto simp: upTo_def)
  have exact: "exactClaimAcquiredAfterLoss ev t expected lossPosition \<longleftrightarrow>
      (\<exists>y. List.find (\<lambda>r. jr_key r = ?key) (upTo p rs) = Some y \<and> acquiredExactly y expected \<and> ac_taskId expected = t \<and> lossPosition < jr_position y)"
    by (auto simp: exactClaimAcquiredAfterLoss_def byKey acquiredExactly_def split: option.splits WorkflowJournalEvent.splits)
  show ?thesis
  proof
    assume "exactClaimAcquiredAfterLoss ev t expected lossPosition"
    then show "\<exists>y\<in>set (upTo p rs). acquiredExactly y expected \<and> ac_taskId expected = t \<and> lossPosition < jr_position y"
      unfolding exact using find_SomeD by fast
  next
    assume "\<exists>y\<in>set (upTo p rs). acquiredExactly y expected \<and> ac_taskId expected = t \<and> lossPosition < jr_position y"
    then obtain y where y: "y \<in> set (upTo p rs)" "acquiredExactly y expected" "ac_taskId expected = t" "lossPosition < jr_position y" by blast
    then obtain x where x: "List.find (\<lambda>r. jr_key r = ?key) (upTo p rs) = Some x"
      using keyed by (cases "List.find (\<lambda>r. jr_key r = ?key) (upTo p rs)") (auto simp: find_eq_None_iff)
    then have "x = y" using unique [of x y] keyed [OF y(1,2)] y(1) find_SomeD [OF x] by simp
    then show "exactClaimAcquiredAfterLoss ev t expected lossPosition" using exact x y by blast
  qed
qed

lemma named_direction:
  "jr_event r = TaskClaimReacquisitionDirected requestId run t' \<Longrightarrow>
     r \<in> set (namedRecords other earlier rs t) \<longleftrightarrow> r \<in> set rs \<and> t' = t"
  by (induction rs arbitrary: earlier) auto

lemma listed_direction:
  "jr_event r = TaskClaimReacquisitionDirected requestId run t' \<Longrightarrow> r \<in> set (listRecordsForTask other rs t) \<longleftrightarrow> r \<in> set rs \<and> t' = t"
  by (simp add: listRecordsForTask_def eq_commute)

text \<open>The latest direction of the task up to a position.\<close>

definition latestDirection :: "JournalRecord list \<Rightarrow> RunId \<Rightarrow> TaskId \<Rightarrow> JournalPosition \<Rightarrow> JournalRecord option" where
  "latestDirection rs runId t through = findLast (\<lambda>r. isDirectionOf runId t (jr_event r) \<and> jr_position r \<le> through) rs"

lemma isDirectionOf_iff: "isDirectionOf runId t event \<longleftrightarrow> (\<exists>requestId. event = TaskClaimReacquisitionDirected requestId runId t)"
  by (cases event) auto

lemma scan_exact:
  assumes chron: "chronological rs"
  shows "latestTaskClaimReacquisitionDirection other rs runId t expected through =
    (case latestDirection rs runId t through of
       None \<Rightarrow> None
     | Some d \<Rightarrow> if \<exists>loss. lossLasts rs t expected (jr_position d) through loss then Some (jr_event d) else None)"
proof -
  let ?T = "listRecordsForTask other rs t"
  let ?dir = "\<lambda>r. isDirectionOf runId t (jr_event r) \<and> jr_position r \<le> through"
  let ?live = "\<lambda>r. \<exists>loss. lossLasts rs t expected (jr_position r) through loss"
  have chronT: "chronological ?T" by (simp add: listRecordsForTask_def chronological_filter chron)
  have inT: "r \<in> set ?T \<longleftrightarrow> r \<in> set rs" if "?dir r" for r using that listed_direction by (auto simp: isDirectionOf_iff)
  have scan: "latestTaskClaimReacquisitionDirection other rs runId t expected through =
      map_option jr_event (findLast (\<lambda>r. ?dir r \<and> ?live r) ?T)"
  proof -
    have "(\<lambda>r. isDirectionOf runId t (jr_event r) \<and> jr_position r \<le> through \<and>
        directionFollowsCurrentLossEpisode ?T t expected (jr_position r) through) = (\<lambda>r. ?dir r \<and> ?live r)"
      using follows_lasts [OF chron refl] by (intro ext) blast
    then show ?thesis unfolding latestTaskClaimReacquisitionDirection_def Let_def
      by (rule arg_cong [where f = "\<lambda>P. map_option jr_event (findLast P ?T)"])
  qed
  show ?thesis
  proof (cases "latestDirection rs runId t through")
    case None
    then have "findLast (\<lambda>r. ?dir r \<and> ?live r) ?T = None"
      using inT by (auto simp: latestDirection_def findLast_None_iff)
    then show ?thesis using None scan by simp
  next
    case (Some d)
    then have d: "d \<in> set rs" "?dir d" "\<forall>y\<in>set rs. ?dir y \<longrightarrow> jr_position y \<le> jr_position d"
      unfolding latestDirection_def using findLast_iff [OF chron, of ?dir d] by auto
    show ?thesis
    proof (cases "?live d")
      case True
      then have "findLast (\<lambda>r. ?dir r \<and> ?live r) ?T = Some d"
        unfolding findLast_iff [OF chronT] using d inT by blast
      then show ?thesis using Some True scan by simp
    next
      case False
      have "\<not> ?live r" if "r \<in> set ?T" "?dir r" for r
        using that inT d lossLasts_later [OF chron, of t expected "jr_position r" through _ "jr_position d"] False by blast
      then have "findLast (\<lambda>r. ?dir r \<and> ?live r) ?T = None" unfolding findLast_None_iff by blast
      then show ?thesis using Some False scan by simp
    qed
  qed
qed

lemma index_exact:
  assumes wf: "wellFormedHistory runId rs" and decoded: "claimRecordsDecoded rs"
  shows "latestIndexedTaskClaimReacquisitionDirection (journalEvidenceFrom other rs) runId t expected through =
    (case latestDirection rs runId t through of
       None \<Rightarrow> None
     | Some d \<Rightarrow> if \<exists>loss. lossLasts rs t expected (jr_position d) through loss then Some (jr_event d) else None)"
proof -
  note chron = wellFormed_chronological [OF wf]
  let ?p = "min (lastPositionOf rs) through" and ?ev = "journalEvidenceBefore (journalEvidenceFrom other rs) (through + 1)"
  let ?kind = "''TaskClaimReacquisitionDirected''"
  have view: "viewOf other rs ?p ?ev"
    using journalEvidenceBefore_view [OF chron journalEvidenceFrom_view [OF chron], of "through + 1"] by simp
  have vis: "y \<in> set (upTo ?p rs) \<longleftrightarrow> y \<in> set rs \<and> jr_position y \<le> through" for y
    using lastPositionOf_max [OF chron] by (auto simp: upTo_def)
  have run: "jr_runId r = runId" if "r \<in> set rs" for r using wf that by (simp add: wellFormedHistory_def list_all_iff)
  have direction: "eventTag (jr_event r) = ?kind \<longleftrightarrow> (\<exists>requestId t. jr_event r = TaskClaimReacquisitionDirected requestId runId t)"
    if "r \<in> set rs" for r
    using decoded that run [OF that] by (auto simp: claimRecordsDecoded_def)
  have chron_named: "chronological (namedRecords other [] (upTo ?p rs) t)"
    by (rule chronological_named [OF chronological_upTo [OF chron]])
  have named: "r \<in> set (namedRecords other [] (upTo ?p rs) t) \<and> eventTag (jr_event r) = ?kind \<longleftrightarrow>
      r \<in> set rs \<and> isDirectionOf runId t (jr_event r) \<and> jr_position r \<le> through" for r
  proof
    assume r: "r \<in> set (namedRecords other [] (upTo ?p rs) t) \<and> eventTag (jr_event r) = ?kind"
    then have "r \<in> set rs" "jr_position r \<le> through" using set_namedRecords [of other "[]" "upTo ?p rs" t] vis by auto
    then show "r \<in> set rs \<and> isDirectionOf runId t (jr_event r) \<and> jr_position r \<le> through"
      using r direction [of r] named_direction by (auto simp: isDirectionOf_iff)
  next
    assume r: "r \<in> set rs \<and> isDirectionOf runId t (jr_event r) \<and> jr_position r \<le> through"
    then show "r \<in> set (namedRecords other [] (upTo ?p rs) t) \<and> eventTag (jr_event r) = ?kind"
      using direction [of r] named_direction vis by (auto simp: isDirectionOf_iff)
  qed
  have newest: "indexedLastForTaskKind ?ev t ?kind = latestDirection rs runId t through"
  proof -
    have "indexedLastForTaskKind ?ev t ?kind = Some d \<longleftrightarrow> latestDirection rs runId t through = Some d" for d
      unfolding kind_view(5) [OF chron view] listLastOfKind_def latestDirection_def findLast_iff [OF chron_named] findLast_iff [OF chron]
      using named by blast
    then show ?thesis by (cases "latestDirection rs runId t through") (metis not_None_eq)+
  qed
  show ?thesis
  proof (cases "latestDirection rs runId t through")
    case (Some d)
    then have d: "d \<in> set rs" "isDirectionOf runId t (jr_event d)" "jr_position d \<le> through"
      by (auto simp: latestDirection_def dest: findLast_SomeD)
    have d1: "1 \<le> jr_position d" using chron d(1) by (simp add: chronological_def)
    have visible: "set (upTo ?p rs) = {y \<in> set rs. jr_position y \<le> through}" using vis by blast
    have early: "jr_position y \<le> through" if "jr_position y < jr_position d" for y :: JournalRecord using that d(3) by simp
    have lasts: "lossLasts rs t expected (jr_position d) through l \<longleftrightarrow>
        unchangedClaimLossBeforeDirection ?ev t expected (jr_position d) = Some l \<and>
        \<not> exactClaimAcquiredAfterLoss ?ev t expected (jr_position l)" for l
      unfolding unchanged_loss [OF chron view d1] acquired_after_loss [OF wf decoded view] lossLasts_def visible
      using early by blast
    have "directionRun (jr_event d) = Some runId" using d(2) by (auto simp: isDirectionOf_iff)
    then show ?thesis using Some newest lasts
      by (auto simp: latestIndexedTaskClaimReacquisitionDirection_def Let_def split: option.splits)
  qed (use newest in \<open>simp add: latestIndexedTaskClaimReacquisitionDirection_def Let_def\<close>)
qed

end
