(* ===== verification/Journaled_Claim_Properties.thy ===== *)
theory Journaled_Claim_Properties
  imports Journaled_Claims Reacquisition_Properties
begin

text \<open>
  The claim operations over journal and tracker: nothing reaches the tracker before its intent is durable, an outcome is recorded only as
  the protocol proved it, and the histories they write are the decoded ones of the reacquisition search.
\<close>

section \<open>Growing histories\<close>

definition historyGrows :: "'j InRunJournalService \<Rightarrow> RunId \<Rightarrow> (JournalRecord \<Rightarrow> bool) \<Rightarrow> 'j \<Rightarrow> 'j \<Rightarrow> bool" where
  "historyGrows journal runId P j j' \<longleftrightarrow> j' = j \<or>
     (\<exists>rs added. ij_read journal runId j = (Inr rs, j) \<and> ij_read journal runId j' = (Inr (rs @ added), j') \<and> list_all P added)"

definition recordedAs :: "'j InRunJournalService \<Rightarrow> RunId \<Rightarrow> JournalRecordKey \<Rightarrow> WorkflowJournalEvent \<Rightarrow> 'j \<Rightarrow> bool" where
  "recordedAs journal runId key event j \<longleftrightarrow>
     (\<exists>rs. ij_read journal runId j = (Inr rs, j) \<and> (\<exists>r\<in>set rs. jr_key r = key \<and> jr_event r = event))"

lemma historyGrows_refl [simp]: "historyGrows journal runId P j j"
  by (simp add: historyGrows_def)

lemma historyGrows_trans:
  "historyGrows journal runId P j k \<Longrightarrow> historyGrows journal runId P k l \<Longrightarrow> historyGrows journal runId P j l"
  by (auto simp: historyGrows_def)

lemma historyGrows_mono: "historyGrows journal runId P j k \<Longrightarrow> (\<And>r. P r \<Longrightarrow> Q r) \<Longrightarrow> historyGrows journal runId Q j k"
  by (auto simp: historyGrows_def list_all_iff)

lemma recordedAs_grows: "recordedAs journal runId key event j \<Longrightarrow> historyGrows journal runId P j k \<Longrightarrow> recordedAs journal runId key event k"
  by (auto simp: recordedAs_def historyGrows_def)

lemma onJournal_cases:
  assumes "onJournal m w = (x, w')"
  obtains (ok) y j where "m (cw_journal w) = (Inr y, j)" "x = Inr y" "w' = w\<lparr>cw_journal := j\<rparr>"
  | (failed) e j where "m (cw_journal w) = (Inl e, j)" "x = Inl (ClaimJournalFailure e)" "w' = w\<lparr>cw_journal := j\<rparr>"
  using assms by (auto simp: onJournal_def split: prod.splits sum.splits)

lemma onTracker_apply:
  "onTracker m w = (case m (cw_tracker w) of (x, t) \<Rightarrow>
     (case x of Inr y \<Rightarrow> Inr y | Inl e \<Rightarrow> Inl (ClaimTrackerFailure e), w\<lparr>cw_tracker := t\<rparr>))"
  by (auto simp: onTracker_def split: prod.splits sum.splits)

text \<open>The boundary ends before a result is recorded, or it runs the call to its result and records it.\<close>

lemma boundary_cases:
  assumes "runInterruptibleBoundary execution intent (onTracker m) recordResult w = (result, w')"
  shows "(\<exists>e t. result = Inl e \<and> w' = w\<lparr>cw_tracker := t\<rparr>) \<or>
    (\<exists>a t r. m (cw_tracker w) = (Inr a, t) \<and> recordResult a (w\<lparr>cw_tracker := t\<rparr>) = (r, w') \<and> (result = r \<or> result = Inl ClaimInterrupted))"
proof -
  have same: "\<exists>t. w' = w'\<lparr>cw_tracker := t\<rparr>" by (rule exI [of _ "cw_tracker w'"]) simp
  obtain y t where run: "m (cw_tracker w) = (y, t)" by fastforce
  show ?thesis
  proof (cases execution)
    case None
    with assms run show ?thesis
      by (cases y) (auto simp: runInterruptibleBoundary_def onTracker_apply andThen_def)
  next
    case (Some x)
    show ?thesis
    proof (cases "fst (admitInterruptibleCall (bx_ownerId x) intent (bx_lifecycle x)) \<and> bx_interruption x = None")
      case True
      then have "andThen (onTracker m) (\<lambda>a. andThen (recordResult a) (\<lambda>recorded.
          if isExiting (al_phase (bx_after x)) then fail ClaimInterrupted else succeed recorded)) w = (result, w')"
        using assms Some by (simp add: runInterruptibleBoundary_def lifecycleBoundary_def)
      then show ?thesis
        using run by (cases y) (auto simp: onTracker_apply andThen_def split: prod.splits sum.splits if_splits)
    next
      case False
      with assms Some same show ?thesis
        by (auto simp: runInterruptibleBoundary_def lifecycleBoundary_def split: if_splits)
    qed
  qed
qed

text \<open>
  What one operation from \<open>w\<close> to \<open>w'\<close> guarantees: the tracker changes only under a durable intent; the history grows only by the
  intent and by the outcome that the call on the tracker proved; an answer is the proved and recorded outcome, or it was found in the history
  and the tracker is untouched.
\<close>

definition operationSafe ::
  "'j InRunJournalService \<Rightarrow> ('j \<Rightarrow> bool) \<Rightarrow> RunId \<Rightarrow> JournalRecordKey \<times> WorkflowJournalEvent \<Rightarrow> JournalRecordKey \<Rightarrow>
   ('w, TaskClaimError, 'a) effect \<Rightarrow> ('a \<Rightarrow> WorkflowJournalEvent) \<Rightarrow> ('a \<Rightarrow> 'j \<Rightarrow> bool) \<Rightarrow>
   ('j, 'w) ClaimWorld \<Rightarrow> ClaimOperationError + 'a \<Rightarrow> ('j, 'w) ClaimWorld \<Rightarrow> bool" where
  "operationSafe journal valid runId intent key call outcome found w result w' \<longleftrightarrow>
     valid (cw_journal w') \<and>
     (cw_tracker w' \<noteq> cw_tracker w \<longrightarrow> recordedAs journal runId (fst intent) (snd intent) (cw_journal w')) \<and>
     historyGrows journal runId
       (\<lambda>r. jr_key r = fst intent \<and> jr_event r = snd intent \<or>
          jr_key r = key \<and> (\<exists>a. call (cw_tracker w) = (Inr a, cw_tracker w') \<and> jr_event r = outcome a))
       (cw_journal w) (cw_journal w') \<and>
     (\<forall>a. result = Inr a \<longrightarrow> cw_tracker w' = cw_tracker w \<and> found a (cw_journal w') \<or>
        call (cw_tracker w) = (Inr a, cw_tracker w') \<and> recordedAs journal runId key (outcome a) (cw_journal w'))"

context in_run_journal
begin

lemma append_grows:
  assumes "valid j" "ij_append journal runId key event j = (x, j')"
  shows "historyGrows journal runId (\<lambda>r. jr_key r = key \<and> jr_event r = event) j j'" "valid j'"
    "x = Inr r \<Longrightarrow> recordedAs journal runId key event j'"
proof -
  show "valid j'" by (rule append_valid [OF assms])
  have refused: "j' = j" if "x = Inl e" for e using assms(2) that append_refused by blast
  show "historyGrows journal runId (\<lambda>r. jr_key r = key \<and> jr_event r = event) j j'"
  proof (cases x)
    case (Inr r)
    then show ?thesis using append_accepted [OF assms(1)] assms(2) by (fastforce simp: historyGrows_def)
  qed (simp add: refused)
  show "recordedAs journal runId key event j'" if "x = Inr r"
    using append_accepted [OF assms(1)] assms(2) that by (fastforce simp: recordedAs_def)
qed

text \<open>The intent is durable before anything else happens.\<close>

lemma intent_first:
  assumes "valid (cw_journal w)"
    and "andThen (onJournal (ij_append journal runId key event)) (\<lambda>_. rest) w = (result, w')"
  shows "(\<exists>e. result = Inl (ClaimJournalFailure e) \<and> w' = w) \<or>
    (\<exists>j. historyGrows journal runId (\<lambda>r. jr_key r = key \<and> jr_event r = event) (cw_journal w) j \<and> valid j \<and>
       recordedAs journal runId key event j \<and> rest (w\<lparr>cw_journal := j\<rparr>) = (result, w'))"
proof (cases "ij_append journal runId key event (cw_journal w)")
  case (Pair x j)
  note grown = append_grows [OF assms(1) Pair]
  show ?thesis
  proof (cases x)
    case (Inl e)
    then have "j = cw_journal w" using Pair append_refused by blast
    then show ?thesis using assms(2) Pair Inl by (auto simp: andThen_def onJournal_def)
  next
    case (Inr r)
    then show ?thesis using assms(2) Pair grown by (auto simp: andThen_def onJournal_def)
  qed
qed

lemma read_then:
  assumes "andThen (onJournal (ij_read journal runId)) rest w = (result, w')"
  shows "(\<exists>e. result = Inl (ClaimJournalFailure e) \<and> w' = w) \<or>
    (\<exists>rs. ij_read journal runId (cw_journal w) = (Inr rs, cw_journal w) \<and> rest rs w = (result, w'))"
proof (cases "ij_read journal runId (cw_journal w)")
  case (Pair x j)
  then have "j = cw_journal w" by (rule read_unchanged)
  then show ?thesis using assms Pair by (cases x) (auto simp: andThen_def onJournal_def)
qed

text \<open>The outcome is recorded only as the call proved it.\<close>

lemma settled:
  assumes "valid (cw_journal w)"
    and "runInterruptibleBoundary execution intent (onTracker m)
        (\<lambda>a. andThen (onJournal (ij_append journal runId key (outcome a))) (\<lambda>_. succeed a)) w = (result, w')"
  shows "valid (cw_journal w')"
    "historyGrows journal runId (\<lambda>r. jr_key r = key \<and> (\<exists>a. m (cw_tracker w) = (Inr a, cw_tracker w') \<and> jr_event r = outcome a))
       (cw_journal w) (cw_journal w')"
    "result = Inr a \<Longrightarrow> m (cw_tracker w) = (Inr a, cw_tracker w') \<and> recordedAs journal runId key (outcome a) (cw_journal w')"
proof -
  let ?finish = "\<lambda>a. andThen (onJournal (ij_append journal runId key (outcome a))) (\<lambda>_. succeed a)"
  consider (early) e t where "result = Inl e" "w' = w\<lparr>cw_tracker := t\<rparr>"
    | (late) b t r where "m (cw_tracker w) = (Inr b, t)" "?finish b (w\<lparr>cw_tracker := t\<rparr>) = (r, w')" "result = r \<or> result = Inl ClaimInterrupted"
    using boundary_cases [OF assms(2)] by blast
  then have all: "valid (cw_journal w') \<and>
     historyGrows journal runId (\<lambda>r. jr_key r = key \<and> (\<exists>a. m (cw_tracker w) = (Inr a, cw_tracker w') \<and> jr_event r = outcome a))
       (cw_journal w) (cw_journal w') \<and>
     (\<forall>a. result = Inr a \<longrightarrow> m (cw_tracker w) = (Inr a, cw_tracker w') \<and> recordedAs journal runId key (outcome a) (cw_journal w'))"
  proof cases
    case early
    then show ?thesis using assms(1) by simp
  next
    case late
    obtain x j where append: "ij_append journal runId key (outcome b) (cw_journal w) = (x, j)" by fastforce
    note grown = append_grows [OF assms(1) append]
    have w': "cw_journal w' = j" "cw_tracker w' = t" "r = Inr a \<Longrightarrow> a = b \<and> (\<exists>y. x = Inr y)" for a
      using late(2) append by (auto simp: andThen_def onJournal_def split: sum.splits)
    have "historyGrows journal runId (\<lambda>r. jr_key r = key \<and> (\<exists>a. m (cw_tracker w) = (Inr a, cw_tracker w') \<and> jr_event r = outcome a))
        (cw_journal w) (cw_journal w')"
      using grown(1) late(1) w'(1,2) by (auto elim: historyGrows_mono)
    moreover have "m (cw_tracker w) = (Inr a, cw_tracker w') \<and> recordedAs journal runId key (outcome a) (cw_journal w')"
      if "result = Inr a" for a
    proof -
      have "r = Inr a" using late(3) that by auto
      then obtain y where "a = b" "x = Inr y" using w'(3) by blast
      then show ?thesis using grown(3) late(1) w'(1,2) by blast
    qed
    ultimately show ?thesis using grown(2) w'(1) by simp
  qed
  show "valid (cw_journal w')" using all by blast
  show "historyGrows journal runId (\<lambda>r. jr_key r = key \<and> (\<exists>a. m (cw_tracker w) = (Inr a, cw_tracker w') \<and> jr_event r = outcome a))
       (cw_journal w) (cw_journal w')" using all by blast
  show "result = Inr a \<Longrightarrow> m (cw_tracker w) = (Inr a, cw_tracker w') \<and> recordedAs journal runId key (outcome a) (cw_journal w')"
    using all by blast
qed

text \<open>An operation that settles its call after the intent, or answers from the history.\<close>

lemma journaled_operation:
  assumes valid: "valid (cw_journal w)"
    and run: "andThen (onJournal (ij_append journal runId (fst intent) (snd intent))) (\<lambda>_. rest) w = (result, w')"
    and rest: "\<And>j. valid j \<Longrightarrow> rest (w\<lparr>cw_journal := j\<rparr>) = (result, w') \<Longrightarrow>
      w' = w\<lparr>cw_journal := j\<rparr> \<and> (\<forall>a. result = Inr a \<longrightarrow> found a j) \<or>
      runInterruptibleBoundary execution boundaryIntent (onTracker call)
        (\<lambda>a. andThen (onJournal (ij_append journal runId key (outcome a))) (\<lambda>_. succeed a)) (w\<lparr>cw_journal := j\<rparr>) = (result, w')"
  shows "operationSafe journal valid runId intent key call outcome found w result w'"
proof -
  let ?I = "\<lambda>r. jr_key r = fst intent \<and> jr_event r = snd intent"
  let ?G = "\<lambda>r. ?I r \<or> jr_key r = key \<and> (\<exists>a. call (cw_tracker w) = (Inr a, cw_tracker w') \<and> jr_event r = outcome a)"
  consider (refused) e where "result = Inl (ClaimJournalFailure e)" "w' = w"
    | (intended) j where "historyGrows journal runId ?I (cw_journal w) j"
      "valid j" "recordedAs journal runId (fst intent) (snd intent) j" "rest (w\<lparr>cw_journal := j\<rparr>) = (result, w')"
    using intent_first [OF valid run] by blast
  then show ?thesis
  proof cases
    case refused
    then show ?thesis using valid by (simp add: operationSafe_def)
  next
    case intended
    have grown: "historyGrows journal runId ?G (cw_journal w) j" using intended(1) by (rule historyGrows_mono) blast
    show ?thesis
    proof (cases "w' = w\<lparr>cw_journal := j\<rparr> \<and> (\<forall>a. result = Inr a \<longrightarrow> found a j)")
      case True
      then show ?thesis using intended grown by (auto simp: operationSafe_def)
    next
      case False
      then have boundary: "runInterruptibleBoundary execution boundaryIntent (onTracker call)
          (\<lambda>a. andThen (onJournal (ij_append journal runId key (outcome a))) (\<lambda>_. succeed a)) (w\<lparr>cw_journal := j\<rparr>) = (result, w')"
        using rest [OF intended(2,4)] by blast
      have j: "valid (cw_journal (w\<lparr>cw_journal := j\<rparr>))" using intended(2) by simp
      note settle = settled [OF j boundary, simplified]
      have "historyGrows journal runId ?G j (cw_journal w')" using settle(2) by (rule historyGrows_mono) blast
      then show ?thesis unfolding operationSafe_def
        using settle(1,3) recordedAs_grows [OF intended(3) settle(2)] historyGrows_trans [OF grown] by blast
    qed
  qed
qed

lemma acquire_safe:
  assumes "valid (cw_journal w)" "opId = aq_operationId (ao_acquisition op)"
    and "journaledAcquireTaskClaim journal tracker runId execution op w = (result, w')"
  shows "operationSafe journal valid runId (intentRecordKey opId, TaskClaimAcquisitionIntended op) (outcomeRecordKey opId)
    (rejectConflict (acquireTaskClaimThrough tracker op)) (acquisitionOutcomeEvent opId) (\<lambda>_ _. False) w result w'"
  by (rule journaled_operation [OF assms(1)], insert assms(3), unfold journaledAcquireTaskClaim_def Let_def assms(2) [symmetric] fst_conv snd_conv)
    (assumption, rule disjI2)

lemma existing_recorded:
  assumes "ij_read journal runId j = (Inr rs, j)" "existingOutcome rs operationId = Some event"
  shows "recordedAs journal runId (outcomeRecordKey operationId) event j"
  using assms find_SomeD by (fastforce simp: recordedAs_def existingOutcome_def listRecordByKey_def)

lemma read_safe:
  assumes "valid (cw_journal w)"
    and "journaledReadTaskClaim journal tracker runId execution opId predecessors target taskId w = (result, w')"
  shows "operationSafe journal valid runId
    (intentRecordKey opId, TaskTrackerReadIntentRecorded (ReadTaskClaim opId predecessors target taskId)) (outcomeRecordKey opId)
    (observeTaskClaimThrough tracker taskId) (\<lambda>a. TaskTrackerFactsObserved opId (observedFacts taskId a))
    (\<lambda>a j. \<exists>event. recordedObservation taskId event = Some a \<and> recordedAs journal runId (outcomeRecordKey opId) event j) w result w'"
  by (rule journaled_operation [OF assms(1)], insert assms(2), unfold journaledReadTaskClaim_def fst_conv snd_conv, assumption)
    (drule read_then, auto dest: existing_recorded split: option.splits bind_splits)

lemma releaseEquals_iff: "releaseEquals left right \<longleftrightarrow> left = right"
  by (auto simp: releaseEquals_def intro: TaskClaimRelease.equality ActiveTaskClaim.equality)

lemma releasedEvent_iff: "releasedEvent release event \<longleftrightarrow> event = TaskClaimReleased release"
  by (cases event) (auto simp: releaseEquals_iff)

lemma release_safe:
  assumes "valid (cw_journal w)" "opId = rl_operationId (ro_release op)"
    and "runJournaledTaskClaimRelease journal runId boundaryIntent execution op release w = (result, w')"
  shows "operationSafe journal valid runId (intentRecordKey opId, TaskClaimReleaseIntended op) (outcomeRecordKey opId)
    release (\<lambda>_. TaskClaimReleased (ro_release op))
    (\<lambda>a j. a = ro_release op \<and> recordedAs journal runId (outcomeRecordKey opId) (TaskClaimReleased a) j) w result w'"
  by (rule journaled_operation [OF assms(1)], insert assms(3), unfold runJournaledTaskClaimRelease_def Let_def assms(2) [symmetric] fst_conv snd_conv, assumption)
    (drule read_then, auto simp: releasedEvent_iff dest: existing_recorded split: option.splits if_splits)

lemma recorded_existing:
  assumes "valid j" "ij_read journal runId j = (Inr rs, j)" "recordedAs journal runId (outcomeRecordKey operationId) event j"
  shows "existingOutcome rs operationId = Some event"
proof -
  obtain r where r: "r \<in> set rs" "jr_key r = outcomeRecordKey operationId" "jr_event r = event" using assms(2,3) by (auto simp: recordedAs_def)
  then obtain r' where r': "List.find (\<lambda>r. jr_key r = outcomeRecordKey operationId) rs = Some r'"
    by (cases "List.find (\<lambda>r. jr_key r = outcomeRecordKey operationId) rs") (auto simp: find_eq_None_iff)
  have "r' = r" using wellFormedHistory_key_unique [OF read_wellFormed [OF assms(1,2)]] r find_SomeD [OF r'] by simp
  then show ?thesis using r r' by (simp add: existingOutcome_def listRecordByKey_def)
qed

lemma append_existing:
  assumes "valid j" "recordedAs journal runId key event j" "ij_append journal runId key event j = (x, j')"
  shows "j' = j"
proof (cases x)
  case (Inl e)
  then show ?thesis using assms(3) append_refused by blast
next
  case (Inr r)
  then show ?thesis using append_accepted [OF assms(1)] assms(2,3) by (fastforce simp: recordedAs_def)
qed

text \<open>Repeating a recorded release finds it.\<close>

lemma release_repeated:
  assumes "valid (cw_journal w)" "opId = rl_operationId (ro_release op)"
    and "recordedAs journal runId (intentRecordKey opId) (TaskClaimReleaseIntended op) (cw_journal w)"
    and "recordedAs journal runId (outcomeRecordKey opId) (TaskClaimReleased (ro_release op)) (cw_journal w)"
    and "runJournaledTaskClaimRelease journal runId boundaryIntent execution op release w = (result, w')"
  shows "w' = w"
proof -
  obtain x j where append: "ij_append journal runId (intentRecordKey opId) (TaskClaimReleaseIntended op) (cw_journal w) = (x, j)" by fastforce
  then have j: "j = cw_journal w" using append_existing [OF assms(1,3)] by blast
  obtain rs where rs: "ij_read journal runId (cw_journal w) = (Inr rs, cw_journal w)" using assms(3) by (auto simp: recordedAs_def)
  have "existingOutcome rs opId = Some (TaskClaimReleased (ro_release op))" by (rule recorded_existing [OF assms(1) rs assms(4)])
  then show ?thesis
    using assms(5) append j rs unfolding runJournaledTaskClaimRelease_def Let_def assms(2) [symmetric]
    by (cases x) (auto simp: andThen_def onJournal_def releasedEvent_iff)
qed

end

section \<open>Proved outcomes\<close>

fun outcomeShown :: "TaskClaimAcquisition \<Rightarrow> TrackerCall list \<Rightarrow> TaskClaimAcquisitionResult \<Rightarrow> bool" where
  "outcomeShown a calls (AuthoritativeTaskClaimAcquired claim) \<longleftrightarrow>
     claim = claimFrom a \<and> last calls = ReadCall (aq_taskId a) (Inr (ObservedClaim claim))"
| "outcomeShown a calls (AuthoritativeTaskClaimAcquisitionRejected claim) \<longleftrightarrow>
     claim \<noteq> claimFrom a \<and> last calls = ReadCall (aq_taskId a) (Inr (ObservedClaim claim)) \<or>
     (\<exists>b. callError (last calls) = Some (TaskClaimConflict b claim))"

lemma acquisition_protocol_result:
  assumes "runTaskClaimAcquisitionProtocol (loggedTracker tracker) a (t, []) = (result, (t', calls))"
  shows "case result of
      Inr claim \<Rightarrow> outcomeShown a calls (AuthoritativeTaskClaimAcquired claim)
    | Inl e \<Rightarrow> (\<forall>b claim. e = TaskClaimConflict b claim \<longrightarrow> outcomeShown a calls (AuthoritativeTaskClaimAcquisitionRejected claim))"
proof -
  have "acquisitionTrace a 3 calls result"
    using acquisitionPasses_trace [OF assms [unfolded runTaskClaimAcquisitionProtocol_def maximumTaskClaimRequestCount_def]] by auto
  from acquisitionTrace_facts(4) [OF this] show ?thesis by (cases result) auto
qed

lemma rejectConflict_cases:
  "rejectConflict (acquireTaskClaimThrough tracker op) w = (Inr outcome, w') \<longleftrightarrow>
     (\<exists>claim. runTaskClaimAcquisitionProtocol tracker (ao_acquisition op) w = (Inr claim, w') \<and> outcome = AuthoritativeTaskClaimAcquired claim) \<or>
     (\<exists>b claim. runTaskClaimAcquisitionProtocol tracker (ao_acquisition op) w = (Inl (TaskClaimConflict b claim), w') \<and>
        outcome = AuthoritativeTaskClaimAcquisitionRejected claim)"
  by (auto simp: rejectConflict_def acquireTaskClaimThrough_def andThen_def split: prod.splits sum.splits TaskClaimError.splits)

lemma acquisition_shown:
  assumes "rejectConflict (acquireTaskClaimThrough (loggedTracker tracker) op) (t, []) = (Inr outcome, (t', calls))"
  shows "outcomeShown (ao_acquisition op) calls outcome"
  using assms acquisition_protocol_result [of tracker "ao_acquisition op" t] unfolding rejectConflict_cases by fastforce

text \<open>
  C14. A journaled acquisition never outruns its journal. Whatever the tracker answers and wherever an application exit interrupts the call, the
  tracker is called only with the acquisition's intent in the history; the history grows by nothing but the intent and the outcome
  that the protocol's last call showed; and an answered outcome is recorded.
\<close>

theorem journaled_acquisition_safe:
  assumes "storeWellFormed j" "opId = aq_operationId (ao_acquisition op)"
    and "journaledAcquireTaskClaim (memoryJournal rules) (loggedTracker tracker) runId execution op
      \<lparr>cw_journal = j, cw_tracker = (t, [])\<rparr> = (result, \<lparr>cw_journal = j', cw_tracker = (t', calls)\<rparr>)"
  shows "(calls \<noteq> [] \<longrightarrow> recordedAs (memoryJournal rules) runId (intentRecordKey opId) (TaskClaimAcquisitionIntended op) j') \<and>
    historyGrows (memoryJournal rules) runId
      (\<lambda>r. jr_key r = intentRecordKey opId \<and> jr_event r = TaskClaimAcquisitionIntended op \<or>
         jr_key r = outcomeRecordKey opId \<and>
         (\<exists>outcome. outcomeShown (ao_acquisition op) calls outcome \<and> jr_event r = acquisitionOutcomeEvent opId outcome)) j j' \<and>
    (\<forall>outcome. result = Inr outcome \<longrightarrow> outcomeShown (ao_acquisition op) calls outcome \<and>
       recordedAs (memoryJournal rules) runId (outcomeRecordKey opId) (acquisitionOutcomeEvent opId outcome) j')"
proof -
  have v: "storeWellFormed (cw_journal \<lparr>cw_journal = j, cw_tracker = (t, [])\<rparr>)" using assms(1) by simp
  note safe = memory.acquire_safe [OF v assms(2,3), unfolded operationSafe_def, simplified]
  have shown: "outcomeShown (ao_acquisition op) calls a"
    if "rejectConflict (acquireTaskClaimThrough (loggedTracker tracker) op) (t, []) = (Inr a, (t', calls))" for a
    by (rule acquisition_shown [OF that])
  have "historyGrows (memoryJournal rules) runId
      (\<lambda>r. jr_key r = intentRecordKey opId \<and> jr_event r = TaskClaimAcquisitionIntended op \<or>
         jr_key r = outcomeRecordKey opId \<and>
         (\<exists>outcome. outcomeShown (ao_acquisition op) calls outcome \<and> jr_event r = acquisitionOutcomeEvent opId outcome)) j j'"
    by (rule historyGrows_mono [OF safe [THEN conjunct2, THEN conjunct2, THEN conjunct1]]) (use shown in blast)
  then show ?thesis using safe shown by blast
qed

text \<open>
  C15. A journaled release never outruns its journal. The tracker is called only with the release's intent in the history; the release
  is recorded as done only when the protocol read the task unclaimed, and answered as done only when it is so recorded. Once it is
  recorded, repeating the operation leaves the tracker and the journal as they are.
\<close>

theorem journaled_release_safe:
  assumes "storeWellFormed j" "release = ro_release op" "opId = rl_operationId release"
    and "runJournaledTaskClaimRelease (memoryJournal rules) runId boundaryIntent execution op
      (runTaskClaimReleaseProtocol (loggedBoundary tracker) release) \<lparr>cw_journal = j, cw_tracker = (t, [])\<rparr> =
        (result, \<lparr>cw_journal = j', cw_tracker = (t', calls)\<rparr>)"
  shows "(calls \<noteq> [] \<longrightarrow> recordedAs (memoryJournal rules) runId (intentRecordKey opId) (TaskClaimReleaseIntended op) j') \<and>
    historyGrows (memoryJournal rules) runId
      (\<lambda>r. jr_key r = intentRecordKey opId \<and> jr_event r = TaskClaimReleaseIntended op \<or>
         jr_key r = outcomeRecordKey opId \<and> jr_event r = TaskClaimReleased release \<and>
         (\<exists>covered. last calls = ReadCall (ac_taskId (rl_claim release)) (Inr (UnclaimedTask covered)))) j j' \<and>
    (\<forall>a. result = Inr a \<longrightarrow> a = release \<and>
       recordedAs (memoryJournal rules) runId (outcomeRecordKey opId) (TaskClaimReleased release) j') \<and>
    (recordedAs (memoryJournal rules) runId (intentRecordKey opId) (TaskClaimReleaseIntended op) j \<longrightarrow>
     recordedAs (memoryJournal rules) runId (outcomeRecordKey opId) (TaskClaimReleased release) j \<longrightarrow> j' = j \<and> t' = t \<and> calls = [])"
proof -
  let ?w = "\<lparr>cw_journal = j, cw_tracker = (t, [])\<rparr>"
  let ?call = "runTaskClaimReleaseProtocol (loggedBoundary tracker) release"
  have v: "storeWellFormed (cw_journal ?w)" using assms(1) by simp
  have op: "opId = rl_operationId (ro_release op)" using assms(2,3) by simp
  note safe = memory.release_safe [OF v op assms(4), unfolded operationSafe_def, simplified]
  have shown: "a = release \<and> (\<exists>covered. last calls = ReadCall (ac_taskId (rl_claim release)) (Inr (UnclaimedTask covered)))"
    if "?call (t, []) = (Inr a, (t', calls))" for a
  proof -
    have "releaseTrace release 3 calls (Inr a)"
      using releaseAttempts_trace [OF that [unfolded runTaskClaimReleaseProtocol_def taskClaimReleaseRequestBound_def]] by auto
    from releaseTrace_facts(4) [OF this] show ?thesis by simp
  qed
  have "historyGrows (memoryJournal rules) runId
      (\<lambda>r. jr_key r = intentRecordKey opId \<and> jr_event r = TaskClaimReleaseIntended op \<or>
         jr_key r = outcomeRecordKey opId \<and> jr_event r = TaskClaimReleased release \<and>
         (\<exists>covered. last calls = ReadCall (ac_taskId (rl_claim release)) (Inr (UnclaimedTask covered)))) j j'"
    by (rule historyGrows_mono [OF safe [THEN conjunct2, THEN conjunct2, THEN conjunct1]]) (use shown assms(2) in blast)
  moreover have "j' = j \<and> t' = t \<and> calls = []"
    if intent: "recordedAs (memoryJournal rules) runId (intentRecordKey opId) (TaskClaimReleaseIntended op) j"
      and outcome: "recordedAs (memoryJournal rules) runId (outcomeRecordKey opId) (TaskClaimReleased release) j"
  proof -
    have "runJournaledTaskClaimRelease (memoryJournal rules) runId boundaryIntent execution op ?call ?w = (result', ?w)"
      if "runJournaledTaskClaimRelease (memoryJournal rules) runId boundaryIntent execution op ?call ?w = (result', w')" for result' w'
      using memory.release_repeated [OF v op _ _ that] intent outcome assms(2) that by simp
    then show ?thesis using assms(4) by fastforce
  qed
  ultimately show ?thesis using safe shown assms(2) by blast
qed

section \<open>Reachable histories\<close>

text \<open>
  One run under any order of claim operations and operator directions, while the tracker changes on its own and other writers of the
  store record no claim and no direction of this run.
\<close>

definition writesNoClaims :: "RunId \<Rightarrow> MemoryJournalState \<Rightarrow> MemoryJournalState \<Rightarrow> bool" where
  "writesNoClaims runId j j' \<longleftrightarrow> storeWellFormed j' \<and>
     (\<exists>added. runRecords j' runId = runRecords j runId @ added \<and>
        list_all (\<lambda>r. \<not> isAcquisition (jr_event r) \<and> eventTag (jr_event r) \<noteq> ''TaskClaimReacquisitionDirected'') added)"

inductive claim_step ::
  "HistoryRules \<Rightarrow> 'w TrackerMutationService \<Rightarrow> RunId \<Rightarrow> (MemoryJournalState, 'w) ClaimWorld \<Rightarrow> (MemoryJournalState, 'w) ClaimWorld \<Rightarrow> bool"
  for rules tracker runId where
  acquire: "journaledAcquireTaskClaim (memoryJournal rules) tracker runId execution op w = (acquired, w') \<Longrightarrow> claim_step rules tracker runId w w'"
| observe: "journaledReadTaskClaim (memoryJournal rules) tracker runId execution opId predecessors target taskId w = (observed, w') \<Longrightarrow>
    claim_step rules tracker runId w w'"
| release: "journaledReleaseTaskClaim (memoryJournal rules) tracker runId execution rop w = (released, w') \<Longrightarrow> claim_step rules tracker runId w w'"
| direct: "cr_runId request = runId \<Longrightarrow> applyTaskClaimReacquisition (memoryJournal rules) request (cw_journal w) = (applied, j) \<Longrightarrow>
    claim_step rules tracker runId w (w\<lparr>cw_journal := j\<rparr>)"
| elsewhere: "claim_step rules tracker runId w (w\<lparr>cw_tracker := t\<rparr>)"
| others: "writesNoClaims runId (cw_journal w) j \<Longrightarrow> claim_step rules tracker runId w (w\<lparr>cw_journal := j\<rparr>)"

inductive claim_reachable ::
  "HistoryRules \<Rightarrow> 'w TrackerMutationService \<Rightarrow> RunId \<Rightarrow> (MemoryJournalState, 'w) ClaimWorld \<Rightarrow> bool" for rules tracker runId where
  start: "storeWellFormed (cw_journal w) \<Longrightarrow> runRecords (cw_journal w) runId = [] \<Longrightarrow> claim_reachable rules tracker runId w"
| step: "claim_reachable rules tracker runId w \<Longrightarrow> claim_step rules tracker runId w w' \<Longrightarrow> claim_reachable rules tracker runId w'"

lemma decoded_append: "claimRecordsDecoded (xs @ ys) \<longleftrightarrow> claimRecordsDecoded xs \<and> claimRecordsDecoded ys"
  by (auto simp: claimRecordsDecoded_def)

lemma grows_records:
  assumes "storeWellFormed j" "storeWellFormed j'" "historyGrows (memoryJournal rules) runId P j j'"
  shows "\<exists>added. runRecords j' runId = runRecords j runId @ added \<and> list_all P added"
  using assms memoryRead_Inr by (fastforce simp: historyGrows_def memoryJournal_def)

lemma grows_decoded:
  assumes "storeWellFormed j" "claimRecordsDecoded (runRecords j runId)" "storeWellFormed j'"
    and "historyGrows (memoryJournal rules) runId P j j'" "\<And>r. P r \<Longrightarrow> jr_runId r = runId \<Longrightarrow> claimRecordsDecoded [r]"
  shows "claimRecordsDecoded (runRecords j' runId)"
proof -
  obtain added where added: "runRecords j' runId = runRecords j runId @ added" "list_all P added"
    using grows_records [OF assms(1,3,4)] by blast
  have "wellFormedHistory runId (runRecords j' runId)" by (rule storeWellFormed_runRecords [OF assms(3)])
  then have "\<forall>r\<in>set added. P r \<and> jr_runId r = runId" using added by (simp add: wellFormedHistory_def list_all_iff)
  then have "claimRecordsDecoded added" using assms(5) by (fastforce simp: claimRecordsDecoded_def)
  then show ?thesis using added assms(2) by (simp add: decoded_append)
qed

lemma acquired_exactly:
  assumes "runTaskClaimAcquisitionProtocol tracker a w = (Inr claim, w')"
  shows "claim = claimFrom a"
proof -
  obtain result w2 calls where run: "acquisitionPasses (loggedTracker tracker) a 1 3 (w, []) = (result, (w2, calls))"
    by (metis prod.exhaust_sel)
  have "acquisitionTrace a 3 calls result" using acquisitionPasses_trace [OF run] by auto
  moreover have "result = Inr claim"
    using run assms acquisitionPasses_unlogged [of tracker a 1 3 w "[]"]
    by (auto simp: runTaskClaimAcquisitionProtocol_def maximumTaskClaimRequestCount_def simp del: acquisitionPasses.simps)
  ultimately show ?thesis using acquisitionTrace_facts(4) by fastforce
qed

lemma apply_grows:
  assumes "storeWellFormed j" "applyTaskClaimReacquisition (memoryJournal rules) request j = (x, j')"
  shows "storeWellFormed j' \<and> historyGrows (memoryJournal rules) (cr_runId request)
    (\<lambda>r. jr_key r = taskClaimReacquisitionDirectedRecordKey (cr_requestId request) \<and>
       jr_event r = TaskClaimReacquisitionDirected (cr_requestId request) (cr_runId request) (cr_taskId request)) j j'"
proof -
  let ?append = "ij_append (memoryJournal rules) (cr_runId request) (taskClaimReacquisitionDirectedRecordKey (cr_requestId request))
      (TaskClaimReacquisitionDirected (cr_requestId request) (cr_runId request) (cr_taskId request))"
  obtain y k where read: "ij_read (memoryJournal rules) (cr_runId request) j = (y, k)" by fastforce
  have k: "k = j" by (rule memory.read_unchanged [OF read])
  obtain z l where append: "?append j = (z, l)" by fastforce
  have "j' = j \<or> j' = l"
    using assms(2) read k append
    by (auto simp: applyTaskClaimReacquisition_def andThen_def mapError_def split: sum.splits if_splits)
  then show ?thesis using assms(1) memory.append_grows(1,2) [OF assms(1) append] by auto
qed

lemma claim_step_decoded:
  assumes "claim_step rules tracker runId w w'" "storeWellFormed (cw_journal w)" "claimRecordsDecoded (runRecords (cw_journal w) runId)"
  shows "storeWellFormed (cw_journal w') \<and> claimRecordsDecoded (runRecords (cw_journal w') runId)"
  using assms(1)
proof cases
  case (acquire execution op acquired)
  note safe = memory.acquire_safe [OF assms(2) refl acquire, unfolded operationSafe_def]
  have "claimRecordsDecoded (runRecords (cw_journal w') runId)"
    by (rule grows_decoded [OF assms(2,3) safe [THEN conjunct1] safe [THEN conjunct2, THEN conjunct2, THEN conjunct1]])
      (auto simp: claimRecordsDecoded_def rejectConflict_cases claimFrom_def dest: acquired_exactly)
  then show ?thesis using safe by blast
next
  case (observe execution opId predecessors target taskId observed)
  note safe = memory.read_safe [OF assms(2) observe, unfolded operationSafe_def]
  have "claimRecordsDecoded (runRecords (cw_journal w') runId)"
    by (rule grows_decoded [OF assms(2,3) safe [THEN conjunct1] safe [THEN conjunct2, THEN conjunct2, THEN conjunct1]])
      (auto simp: claimRecordsDecoded_def)
  then show ?thesis using safe by blast
next
  case (release execution rop released)
  note safe = memory.release_safe [OF assms(2) refl release [unfolded journaledReleaseTaskClaim_def], unfolded operationSafe_def]
  have "claimRecordsDecoded (runRecords (cw_journal w') runId)"
    by (rule grows_decoded [OF assms(2,3) safe [THEN conjunct1] safe [THEN conjunct2, THEN conjunct2, THEN conjunct1]])
      (auto simp: claimRecordsDecoded_def)
  then show ?thesis using safe by blast
next
  case (direct request applied j)
  note safe = apply_grows [OF assms(2) direct(3)]
  have "claimRecordsDecoded (runRecords j (cr_runId request))"
    using assms(2,3) direct(2) by (intro grows_decoded [OF _ _ safe [THEN conjunct1] safe [THEN conjunct2]]) (auto simp: claimRecordsDecoded_def)
  then show ?thesis using safe direct by simp
next
  case (others j)
  then obtain added where "storeWellFormed j" "runRecords j runId = runRecords (cw_journal w) runId @ added"
    "list_all (\<lambda>r. \<not> isAcquisition (jr_event r) \<and> eventTag (jr_event r) \<noteq> ''TaskClaimReacquisitionDirected'') added"
    by (auto simp: writesNoClaims_def)
  then show ?thesis using others assms(3) by (fastforce simp: decoded_append claimRecordsDecoded_def list_all_iff)
qed (use assms in simp)

text \<open>
  C16. The reacquisition search is exact on every history the claim operations can write. Under any order of acquisitions, observations,
  releases and directions of a run, with interruptions and an independently changing tracker, the indexed search and the scan agree,
  and return the latest direction exactly when the loss before it lasts.
\<close>

theorem reachable_reacquisition_exact:
  assumes "claim_reachable rules tracker runId w" "rs = runRecords (cw_journal w) runId"
  shows "wellFormedHistory runId rs \<and>
    latestIndexedTaskClaimReacquisitionDirection (journalEvidenceFrom other rs) runId t expected through =
      latestTaskClaimReacquisitionDirection other rs runId t expected through \<and>
    latestTaskClaimReacquisitionDirection other rs runId t expected through =
      (case latestDirection rs runId t through of
         None \<Rightarrow> None
       | Some d \<Rightarrow> if \<exists>loss. lossLasts rs t expected (jr_position d) through loss then Some (jr_event d) else None)"
proof -
  have "storeWellFormed (cw_journal w) \<and> claimRecordsDecoded (runRecords (cw_journal w) runId)"
    using assms(1) by (induction rule: claim_reachable.induct) (auto simp: claimRecordsDecoded_def dest: claim_step_decoded)
  then have wf: "wellFormedHistory runId rs" and decoded: "claimRecordsDecoded rs"
    using storeWellFormed_runRecords assms(2) by auto
  show ?thesis using wf scan_exact [OF wellFormed_chronological [OF wf]] index_exact [OF wf decoded] by simp
qed

section \<open>Instances\<close>

definition demoAcquire :: TaskClaimAcquisitionOperation where
  "demoAcquire = \<lparr>ao_acquisition = demoAcquisition, ao_authority = ''initial'', ao_predecessorOperationIds = []\<rparr>"

definition demoReleaseOperation :: TaskClaimReleaseOperation where
  "demoReleaseOperation = \<lparr>ro_authority = ''workflow'', ro_predecessorOperationIds = [''op''], ro_release = demoRelease\<rparr>"

lemma split_run:
  "m = (fst m, \<lparr>cw_journal = cw_journal (snd m), cw_tracker = (fst (cw_tracker (snd m)), snd (cw_tracker (snd m)))\<rparr>)"
  by (cases m; cases "snd m") simp

theorem journaled_acquisition_safe_witness:
  "let (result, w) = journaledAcquireTaskClaim (memoryJournal openRules) (loggedTracker controlledTrackerMutation) ''run'' None demoAcquire
     \<lparr>cw_journal = demoBegun, cw_tracker = (\<lambda>_. None, [])\<rparr>
   in result = Inr (AuthoritativeTaskClaimAcquired (claimFrom demoAcquisition)) \<and>
      recordedAs (memoryJournal openRules) ''run'' (outcomeRecordKey ''op'') (TaskClaimAcquired (claimFrom demoAcquisition)) (cw_journal w)"
proof -
  let ?run = "journaledAcquireTaskClaim (memoryJournal openRules) (loggedTracker controlledTrackerMutation) ''run'' None demoAcquire
     \<lparr>cw_journal = demoBegun, cw_tracker = (\<lambda>_. None, [])\<rparr>"
  have run: "?run = (fst ?run, \<lparr>cw_journal = cw_journal (snd ?run), cw_tracker = (fst (cw_tracker (snd ?run)), snd (cw_tracker (snd ?run)))\<rparr>)"
    by (rule split_run)
  have result: "fst ?run = Inr (AuthoritativeTaskClaimAcquired (claimFrom demoAcquisition))" by code_simp
  have "storeWellFormed demoBegun" by (rule reachable_wellFormed [OF demo_begun_reachable])
  from journaled_acquisition_safe [OF this refl run] result show ?thesis
    by (simp add: demoAcquire_def demoAcquisition_def case_prod_unfold)
qed

theorem journaled_release_safe_witness:
  "let (result, w) = runJournaledTaskClaimRelease (memoryJournal openRules) ''run'' None None demoReleaseOperation
     (runTaskClaimReleaseProtocol (loggedBoundary (releaseBoundaryOf controlledTrackerMutation)) demoRelease)
     \<lparr>cw_journal = demoBegun, cw_tracker = (\<lambda>_. Some (claimFrom demoAcquisition), [])\<rparr>
   in result = Inr demoRelease \<and>
      recordedAs (memoryJournal openRules) ''run'' (outcomeRecordKey ''cleanup'') (TaskClaimReleased demoRelease) (cw_journal w)"
proof -
  let ?run = "runJournaledTaskClaimRelease (memoryJournal openRules) ''run'' None None demoReleaseOperation
     (runTaskClaimReleaseProtocol (loggedBoundary (releaseBoundaryOf controlledTrackerMutation)) demoRelease)
     \<lparr>cw_journal = demoBegun, cw_tracker = (\<lambda>_. Some (claimFrom demoAcquisition), [])\<rparr>"
  have run: "?run = (fst ?run, \<lparr>cw_journal = cw_journal (snd ?run), cw_tracker = (fst (cw_tracker (snd ?run)), snd (cw_tracker (snd ?run)))\<rparr>)"
    by (rule split_run)
  have result: "fst ?run = Inr demoRelease" by code_simp
  have "storeWellFormed demoBegun" by (rule reachable_wellFormed [OF demo_begun_reachable])
  moreover have "demoRelease = ro_release demoReleaseOperation" "''cleanup'' = rl_operationId demoRelease"
    by (simp_all add: demoReleaseOperation_def demoRelease_def)
  ultimately show ?thesis using journaled_release_safe [OF _ _ _ run] result by (simp add: case_prod_unfold)
qed

definition demoClaimed :: "(MemoryJournalState, TaskId \<Rightarrow> ActiveTaskClaim option) ClaimWorld" where
  "demoClaimed = snd (journaledAcquireTaskClaim (memoryJournal openRules) controlledTrackerMutation ''run'' None demoAcquire
     \<lparr>cw_journal = demoBegun, cw_tracker = \<lambda>_. None\<rparr>)"

definition demoObserved :: "(MemoryJournalState, TaskId \<Rightarrow> ActiveTaskClaim option) ClaimWorld" where
  "demoObserved = snd (journaledReadTaskClaim (memoryJournal openRules) controlledTrackerMutation ''run'' None
     ''look'' [''op''] (FixtureTarget ''t'') ''task'' (demoClaimed\<lparr>cw_tracker := \<lambda>_. None\<rparr>))"

definition demoDirected :: "(MemoryJournalState, TaskId \<Rightarrow> ActiveTaskClaim option) ClaimWorld" where
  "demoDirected = demoObserved\<lparr>cw_journal := snd (applyTaskClaimReacquisition (memoryJournal openRules)
     \<lparr>cr_requestId = ''again'', cr_runId = ''run'', cr_taskId = ''task''\<rparr> (cw_journal demoObserved))\<rparr>"

lemma demoDirected_reachable: "claim_reachable openRules controlledTrackerMutation ''run'' demoDirected"
proof -
  have none: "storeWellFormed emptyMemoryJournalState" "runRecords emptyMemoryJournalState ''run'' = []"
    by (rule storeWellFormed_empty) (simp add: runRecords_def emptyMemoryJournalState_def orElse_def)
  have empty: "claim_reachable openRules controlledTrackerMutation ''run'' \<lparr>cw_journal = emptyMemoryJournalState, cw_tracker = \<lambda>_. None\<rparr>"
    by (rule claim_reachable.start) (simp_all add: none)
  have "list_all (\<lambda>r. \<not> isAcquisition (jr_event r) \<and> eventTag (jr_event r) \<noteq> ''TaskClaimReacquisitionDirected'') (runRecords demoBegun ''run'')"
    by code_simp
  then have "writesNoClaims ''run'' emptyMemoryJournalState demoBegun"
    using reachable_wellFormed [OF demo_begun_reachable] none(2) by (simp add: writesNoClaims_def)
  then have "claim_reachable openRules controlledTrackerMutation ''run'' \<lparr>cw_journal = demoBegun, cw_tracker = \<lambda>_. None\<rparr>"
    using claim_reachable.step [OF empty claim_step.others] by simp
  then have "claim_reachable openRules controlledTrackerMutation ''run'' demoClaimed"
    by (rule claim_reachable.step) (unfold demoClaimed_def, rule claim_step.acquire, rule prod.collapse [symmetric])
  then have "claim_reachable openRules controlledTrackerMutation ''run'' (demoClaimed\<lparr>cw_tracker := \<lambda>_. None\<rparr>)"
    by (rule claim_reachable.step) (rule claim_step.elsewhere)
  then have "claim_reachable openRules controlledTrackerMutation ''run'' demoObserved"
    by (rule claim_reachable.step) (unfold demoObserved_def, rule claim_step.observe, rule prod.collapse [symmetric])
  then show ?thesis
    by (rule claim_reachable.step) (unfold demoDirected_def, rule claim_step.direct [rotated], rule prod.collapse [symmetric], simp)
qed

theorem reachable_reacquisition_exact_witness:
  "latestIndexedTaskClaimReacquisitionDirection (journalEvidenceFrom noOtherEvents (runRecords (cw_journal demoDirected) ''run'')) ''run''
     ''task'' (claimFrom demoAcquisition) 9 = Some (TaskClaimReacquisitionDirected ''again'' ''run'' ''task'')"
proof -
  have "latestTaskClaimReacquisitionDirection noOtherEvents (runRecords (cw_journal demoDirected) ''run'') ''run''
     ''task'' (claimFrom demoAcquisition) 9 = Some (TaskClaimReacquisitionDirected ''again'' ''run'' ''task'')" by code_simp
  then show ?thesis using reachable_reacquisition_exact [OF demoDirected_reachable refl] by simp
qed

end
