(* ===== verification/Promotion_Git.thy ===== *)
theory Promotion_Git
  imports Promotion_Engine Publication_Git
begin

text \<open>
  The Node Git authority of target promotion (\<^verbatim>\<open>authorities/git/target-promotion.ts\<close>,
  \<^verbatim>\<open>target-promotion-safety.ts\<close>, \<^verbatim>\<open>worktree-registration.ts\<close>) and the coordinator's ownership guard around its
  compare-and-set (\<^verbatim>\<open>target-promotion/runtime.ts\<close>, \<^verbatim>\<open>coordinator-ownership/ownership.ts\<close>). The member \<open>run\<close> of the command
  service is an argument, as are the texts of the schema library's errors.
\<close>

section \<open>Commands and text\<close>

type_synonym 'g gitRun = "string \<Rightarrow> string list \<Rightarrow> ('g, string, GitCommandResult) effect"

record SchemaIssueText =
  si_commit :: "string \<Rightarrow> string"
  si_registration :: "(string \<times> string) list \<Rightarrow> string"

definition trimText :: "string \<Rightarrow> string" where
  "trimText s = rev (dropWhile isBlankChar (rev (dropWhile isBlankChar s)))"

text \<open>JavaScript's \<open>a || b\<close> on strings.\<close>

definition orText :: "string \<Rightarrow> string \<Rightarrow> string" where
  "orText a b = (if a = [] then b else a)"

definition showInt :: "int \<Rightarrow> string" where
  "showInt i = (if i < 0 then CHR ''-'' # showNat (nat (- i)) else showNat (nat i))"

section \<open>The inventory of worktrees\<close>

record WorktreeRegistration =
  wr_worktree :: WorktreeLocator
  wr_HEAD :: "GitCommitSha option"
  wr_branch :: "BranchRef option"
  wr_bare :: bool
  wr_detached :: bool
  wr_locked :: "string option"

text \<open>\<open>split\<close> at two separators in a row.\<close>

fun splitOnDouble :: "char \<Rightarrow> string \<Rightarrow> string list" where
  "splitOnDouble sep [] = [[]]"
| "splitOnDouble sep [c] = [[c]]"
| "splitOnDouble sep (c # d # s) =
     (if c = sep \<and> d = sep then [] # splitOnDouble sep s
      else (case splitOnDouble sep (d # s) of [] \<Rightarrow> [[c]] | t # ts \<Rightarrow> (c # t) # ts))"

text \<open>
  The fields of one record in the order they were assigned. Assigning a string to \<open>__proto__\<close> of a JavaScript object has no effect.
\<close>

fun worktreeFields :: "(string \<times> string) list \<Rightarrow> string list \<Rightarrow> string + (string \<times> string) list" where
  "worktreeFields assigned [] = Inr assigned"
| "worktreeFields assigned (field # rest) =
     (let name = takeWhile (\<lambda>c. c \<noteq> CHR '' '') field;
          value = (if CHR '' '' \<in> set field then tl (dropWhile (\<lambda>c. c \<noteq> CHR '' '') field) else [])
      in if map_of assigned name \<noteq> None then Inl (''duplicate worktree field: '' @ name)
         else worktreeFields (if name = ''__proto__'' then assigned else assigned @ [(name, value)]) rest)"

text \<open>A field that may be absent.\<close>

fun optionally :: "('a \<Rightarrow> bool) \<Rightarrow> 'a option \<Rightarrow> bool" where
  "optionally P None \<longleftrightarrow> True"
| "optionally P (Some x) \<longleftrightarrow> P x"

definition decodeRegistration :: "(string \<times> string) list \<Rightarrow> WorktreeRegistration option" where
  "decodeRegistration assigned =
     (if \<not> list_all (\<lambda>(name, _). name \<in> {''worktree'', ''HEAD'', ''branch'', ''bare'', ''detached'', ''locked''}) assigned then None
      else if map_of assigned ''worktree'' \<in> {None, Some []} then None
      else if \<not> optionally validGitCommitSha (map_of assigned ''HEAD'') then None
      else if \<not> optionally isValidTaskBranchRef (map_of assigned ''branch'') then None
      else if \<not> optionally (\<lambda>v. v = []) (map_of assigned ''bare'') then None
      else if \<not> optionally (\<lambda>v. v = []) (map_of assigned ''detached'') then None
      else Some \<lparr>wr_worktree = the (map_of assigned ''worktree''), wr_HEAD = map_of assigned ''HEAD'', wr_branch = map_of assigned ''branch'',
             wr_bare = (map_of assigned ''bare'' \<noteq> None), wr_detached = (map_of assigned ''detached'' \<noteq> None),
             wr_locked = map_of assigned ''locked''\<rparr>)"

definition registrationModes :: "WorktreeRegistration \<Rightarrow> nat" where
  "registrationModes registration =
     length (filter id [wr_bare registration, wr_detached registration, wr_branch registration \<noteq> None])"

fun decodeRegistrations :: "SchemaIssueText \<Rightarrow> string list \<Rightarrow> string list \<Rightarrow> string + WorktreeRegistration list" where
  "decodeRegistrations issues paths [] = Inr []"
| "decodeRegistrations issues paths (record_text # rest) =
     (case worktreeFields [] (splitOn nulChar record_text) of
        Inl detail \<Rightarrow> Inl detail
      | Inr assigned \<Rightarrow>
          (case decodeRegistration assigned of
             None \<Rightarrow> Inl (''invalid worktree registration: '' @ si_registration issues assigned)
           | Some registration \<Rightarrow>
               if registrationModes registration \<noteq> 1 \<or> \<not> wr_bare registration \<and> wr_HEAD registration = None
               then Inl ''worktree registration does not prove one supported checkout mode''
               else if wr_worktree registration \<in> set paths
               then Inl (''duplicate worktree path: '' @ wr_worktree registration)
               else map_sum id (Cons registration) (decodeRegistrations issues (wr_worktree registration # paths) rest)))"

definition decodeGitWorktreeRegistrations :: "SchemaIssueText \<Rightarrow> string \<Rightarrow> string + WorktreeRegistration list" where
  "decodeGitWorktreeRegistrations issues output =
     (if \<not> endsWith output [nulChar, nulChar] then Inl ''worktree inventory has no complete terminal separator''
      else decodeRegistrations issues [] (splitOnDouble nulChar (take (length output - 2) output)))"

section \<open>Safety of the target\<close>

definition targetRepository :: "TargetPromotionGitRequest \<Rightarrow> string" where
  "targetRepository request = it_repository (gr_integrationTarget request)"

definition targetRef :: "TargetPromotionGitRequest \<Rightarrow> BranchRef" where
  "targetRef request = it_ref (gr_integrationTarget request)"

definition symbolicRefArgs :: "TargetPromotionGitRequest \<Rightarrow> string list" where
  "symbolicRefArgs request = [''symbolic-ref'', ''--quiet'', targetRef request]"

definition provePromotionTargetDirect ::
  "'g gitRun \<Rightarrow> TargetPromotionGitRequest \<Rightarrow> ('g, TargetPromotionSafetyRefusal, unit) effect" where
  "provePromotionTargetDirect run request =
     andThen (mapError TargetIdentityUnreadable (run (targetRepository request) (symbolicRefArgs request))) (\<lambda>result.
       if gr_exitCode result \<noteq> 1 \<or> gr_stdout result \<noteq> []
       then fail (TargetIdentityUnreadable (orText (trimText (gr_stderr result)) ''Git did not prove a direct target ref''))
       else succeed ())"

definition worktreeListArgs :: "string list" where
  "worktreeListArgs = [''worktree'', ''list'', ''--porcelain'', ''-z'']"

definition provePromotionTargetUnoccupied ::
  "SchemaIssueText \<Rightarrow> 'g gitRun \<Rightarrow> TargetPromotionGitRequest \<Rightarrow> ('g, TargetPromotionSafetyRefusal, unit) effect" where
  "provePromotionTargetUnoccupied issues run request =
     andThen (mapError InventoryUnreadable (run (targetRepository request) worktreeListArgs)) (\<lambda>result.
       if gr_exitCode result \<noteq> 0
       then fail (InventoryUnreadable (orText (trimText (gr_stderr result)) (''git worktree list exited '' @ showInt (gr_exitCode result))))
       else (case decodeGitWorktreeRegistrations issues (gr_stdout result) of
               Inl detail \<Rightarrow> fail (InventoryUnreadable detail)
             | Inr registrations \<Rightarrow>
                 (case List.find (\<lambda>registration. wr_branch registration = Some (targetRef request)) registrations of
                    Some occupied \<Rightarrow> fail (OccupiedWorktree (wr_worktree occupied))
                  | None \<Rightarrow> succeed ())))"

section \<open>Read and compare-and-set\<close>

definition revParseArgs :: "TargetPromotionGitRequest \<Rightarrow> string list" where
  "revParseArgs request = [''rev-parse'', ''--verify'', ''--quiet'', targetRef request @ ''^{commit}'']"

definition gitReadFailure :: "TargetPromotionGitRequest \<Rightarrow> string \<Rightarrow> TargetPromotionGitReadFailure" where
  "gitReadFailure request detail =
     \<lparr>rf_candidateCommit = gr_candidateCommit request, rf_detail = detail, rf_target = gr_integrationTarget request\<rparr>"

definition exitDetail :: "GitCommandResult \<Rightarrow> string \<Rightarrow> string" where
  "exitDetail result command = orText (trimText (gr_stderr result)) (command @ '' exited '' @ showInt (gr_exitCode result))"

definition readCurrentHead ::
  "SchemaIssueText \<Rightarrow> 'g gitRun \<Rightarrow> TargetPromotionGitRequest \<Rightarrow> ('g, TargetPromotionGitReadFailure, GitCommitSha) effect" where
  "readCurrentHead issues run request =
     andThen (mapError (gitReadFailure request) (run (targetRepository request) (revParseArgs request))) (\<lambda>result.
       if gr_exitCode result \<noteq> 0 then fail (gitReadFailure request (exitDetail result ''git''))
       else let head = trimText (gr_stdout result) in
            if validGitCommitSha head then succeed head
            else fail (gitReadFailure request (''Git returned an invalid target commit: '' @ si_commit issues head)))"

definition isAncestorArgs :: "TargetPromotionGitRequest \<Rightarrow> GitCommitSha \<Rightarrow> string list" where
  "isAncestorArgs request head = [''merge-base'', ''--is-ancestor'', gr_candidateCommit request, head]"

definition nodePromotionRead ::
  "SchemaIssueText \<Rightarrow> 'g gitRun \<Rightarrow> TargetPromotionGitRequest \<Rightarrow>
   ('g, TargetPromotionReadError, TargetPromotionGitReadObservation) effect" where
  "nodePromotionRead issues run request =
     andThen (mapError ReadSafetyFailure (provePromotionTargetDirect run request)) (\<lambda>_.
     andThen (mapError GitReadFailure (readCurrentHead issues run request)) (\<lambda>head.
       if head = gr_candidateCommit request then succeed (CandidateCurrent head)
       else andThen (mapError (GitReadFailure \<circ> gitReadFailure request) (run (targetRepository request) (isAncestorArgs request head)))
         (\<lambda>ancestry.
           if gr_exitCode ancestry \<noteq> 0 \<and> gr_exitCode ancestry \<noteq> 1
           then fail (GitReadFailure (gitReadFailure request (exitDetail ancestry ''git'')))
           else andThen (if gr_exitCode ancestry = 1 \<and> head = gr_expectedTargetHead request
                         then mapError ReadSafetyFailure (provePromotionTargetUnoccupied issues run request) else succeed ())
             (\<lambda>_. succeed (if gr_exitCode ancestry = 0 then CandidateAncestor head else CandidateNotInAncestry head)))))"

definition updateRefArgs :: "TargetPromotionGitRequest \<Rightarrow> string list" where
  "updateRefArgs request = [''update-ref'', targetRef request, gr_candidateCommit request, gr_expectedTargetHead request]"

definition compareAndSetFailure :: "TargetPromotionGitRequest \<Rightarrow> string \<Rightarrow> TargetPromotionCasError" where
  "compareAndSetFailure request detail =
     CompareAndSetFailure \<lparr>cf_candidateCommit = gr_candidateCommit request, cf_detail = detail,
       cf_expectedHead = gr_expectedTargetHead request, cf_target = gr_integrationTarget request\<rparr>"

definition reconcileRejectedUpdate ::
  "SchemaIssueText \<Rightarrow> 'g gitRun \<Rightarrow> TargetPromotionGitRequest \<Rightarrow> GitCommandResult \<Rightarrow>
   ('g, TargetPromotionCasError, TargetPromotionCompareAndSetResult) effect" where
  "reconcileRejectedUpdate issues run request result =
     andThen (mapError (\<lambda>failure. compareAndSetFailure request
                (exitDetail result ''git update-ref'' @ ''; unable to reconcile current target: '' @ rf_detail failure))
              (readCurrentHead issues run request)) (\<lambda>observedHead.
       if observedHead \<noteq> gr_expectedTargetHead request then succeed (RejectedExpectedHead observedHead)
       else fail (compareAndSetFailure request (orText (trimText (gr_stderr result))
              ''Git rejected compare-and-set while the expected head remained current'')))"

definition nodeCompareAndSet ::
  "SchemaIssueText \<Rightarrow> 'g gitRun \<Rightarrow> TargetPromotionGitRequest \<Rightarrow>
   ('g, TargetPromotionCasError, TargetPromotionCompareAndSetResult) effect" where
  "nodeCompareAndSet issues run request =
     andThen (mapError CasSafetyFailure (provePromotionTargetDirect run request)) (\<lambda>_.
     andThen (mapError CasSafetyFailure (provePromotionTargetUnoccupied issues run request)) (\<lambda>_.
     andThen (mapError (compareAndSetFailure request) (run (targetRepository request) (updateRefArgs request))) (\<lambda>result.
       if gr_exitCode result = 0 then succeed (Applied (gr_candidateCommit request))
       else reconcileRejectedUpdate issues run request result)))"

definition nodeGitTargetPromotion :: "SchemaIssueText \<Rightarrow> 'g gitRun \<Rightarrow> 'g TargetPromotionGitService" where
  "nodeGitTargetPromotion issues run =
     \<lparr>git_compareAndSet = nodeCompareAndSet issues run, git_read = nodePromotionRead issues run\<rparr>"

section \<open>Coordinator ownership\<close>

text \<open>
  The ownership signal around one mutation: the failure it already had, or the failure that wins the race against the mutation,
  with what the interrupted mutation has left of the repository.
\<close>

record 'g MutationGuard =
  mg_failed :: "string option"
  mg_interruption :: "(string \<times> ('g \<Rightarrow> 'g)) option"

definition guardCoordinatorMutation ::
  "'g MutationGuard \<Rightarrow> ('g, TargetPromotionCasError, 'a) effect \<Rightarrow> ('g, TargetPromotionCasError, 'a) effect" where
  "guardCoordinatorMutation guard mutation =
     (case mg_failed guard of
        Some failure \<Rightarrow> fail (CoordinatorOwnershipError failure)
      | None \<Rightarrow>
          (case mg_interruption guard of
             Some (failure, left_over) \<Rightarrow> (\<lambda>g. (Inl (CoordinatorOwnershipError failure), left_over g))
           | None \<Rightarrow> mutation))"

definition coordinatorOwnedTargetPromotionGit ::
  "'g TargetPromotionGitService \<Rightarrow> 'g MutationGuard \<Rightarrow> 'g TargetPromotionGitService" where
  "coordinatorOwnedTargetPromotionGit git guard =
     \<lparr>git_compareAndSet = (\<lambda>request. guardCoordinatorMutation guard (git_compareAndSet git request)), git_read = git_read git\<rparr>"

end
