(* ===== verification/Worktree_Inventory.thy ===== *)
theory Worktree_Inventory
  imports Promotion_Git
begin

text \<open>
  The decoder of \<^verbatim>\<open>git worktree list --porcelain -z\<close> against the documented format: every inventory Git can print is read
  as it is, and nothing is accepted that is not a valid inventory.
\<close>

section \<open>The printed form\<close>

text \<open>One line is the label alone or the label, a space and the value.\<close>

definition printedFields :: "WorktreeRegistration \<Rightarrow> (string \<times> string) list" where
  "printedFields r =
     [(''worktree'', wr_worktree r)] @
     (case wr_HEAD r of None \<Rightarrow> [] | Some sha \<Rightarrow> [(''HEAD'', sha)]) @
     (if wr_bare r then [(''bare'', [])] else []) @
     (if wr_detached r then [(''detached'', [])] else []) @
     (case wr_branch r of None \<Rightarrow> [] | Some ref \<Rightarrow> [(''branch'', ref)]) @
     (case wr_locked r of None \<Rightarrow> [] | Some reason \<Rightarrow> [(''locked'', reason)])"

definition printField :: "string \<times> string \<Rightarrow> string" where
  "printField f = (if snd f = [] then fst f else fst f @ CHR '' '' # snd f)"

definition printInventory :: "WorktreeRegistration list \<Rightarrow> string" where
  "printInventory rs = concat (map (\<lambda>r. concat (map (\<lambda>f. printField f @ [nulChar]) (printedFields r)) @ [nulChar]) rs)"

definition validRegistration :: "WorktreeRegistration \<Rightarrow> bool" where
  "validRegistration r \<longleftrightarrow>
     wr_worktree r \<noteq> [] \<and> nulChar \<notin> set (wr_worktree r) \<and> optionally validGitCommitSha (wr_HEAD r) \<and>
     optionally isValidTaskBranchRef (wr_branch r) \<and> optionally (\<lambda>reason. nulChar \<notin> set reason) (wr_locked r) \<and>
     registrationModes r = 1 \<and> (wr_bare r \<or> wr_HEAD r \<noteq> None)"

definition validInventory :: "WorktreeRegistration list \<Rightarrow> bool" where
  "validInventory rs \<longleftrightarrow> rs \<noteq> [] \<and> list_all validRegistration rs \<and> distinct (map wr_worktree rs)"

section \<open>Splitting\<close>

lemma splitOn_joined: "fs \<noteq> [] \<Longrightarrow> list_all (\<lambda>f. c \<notin> set f) fs \<Longrightarrow> splitOn c (joinOn c fs) = fs"
  by (induction fs rule: induct_list012) (simp_all add: splitOn_absent splitOn_sep)

lemma concat_terminated: "fs \<noteq> [] \<Longrightarrow> concat (map (\<lambda>f. f @ [c]) fs) = joinOn c fs @ [c]"
  by (induction fs rule: induct_list012) simp_all

definition undoubled :: "char \<Rightarrow> string \<Rightarrow> bool" where
  "undoubled c s \<longleftrightarrow> s \<noteq> [] \<and> last s \<noteq> c \<and> successively (\<lambda>a b. \<not> (a = c \<and> b = c)) s"

lemma splitOnDouble_sep: "undoubled c s \<Longrightarrow> splitOnDouble c (s @ c # c # t) = s # splitOnDouble c t"
proof (induction s rule: induct_list012)
  case (3 a b s)
  then have "splitOnDouble c ((b # s) @ c # c # t) = (b # s) # splitOnDouble c t" by (simp add: undoubled_def)
  then show ?case using 3(3) by (simp add: undoubled_def)
qed (simp_all add: undoubled_def)

lemma splitOnDouble_absent: "undoubled c s \<Longrightarrow> splitOnDouble c s = [s]"
proof (induction s rule: induct_list012)
  case (3 a b s)
  then have "splitOnDouble c (b # s) = [b # s]" by (simp add: undoubled_def)
  then show ?case using 3(3) by (simp add: undoubled_def)
qed (simp_all add: undoubled_def)

lemma undoubled_plain: "s \<noteq> [] \<Longrightarrow> c \<notin> set s \<Longrightarrow> undoubled c s"
  by (induction s rule: induct_list012) (auto simp: undoubled_def)

lemma undoubled_join: "fs \<noteq> [] \<Longrightarrow> list_all (\<lambda>f. f \<noteq> [] \<and> c \<notin> set f) fs \<Longrightarrow> undoubled c (joinOn c fs) \<and> hd (joinOn c fs) \<noteq> c"
proof (induction fs rule: induct_list012)
  case (2 f)
  then show ?case using undoubled_plain [of f c] hd_in_set [of f] by auto
next
  case (3 f g fs)
  then have ih: "undoubled c (joinOn c (g # fs))" "hd (joinOn c (g # fs)) \<noteq> c" and f: "f \<noteq> []" "c \<notin> set f" by auto
  have "successively (\<lambda>a b. \<not> (a = c \<and> b = c)) f" "last f \<noteq> c" using undoubled_plain [OF f] by (simp_all add: undoubled_def)
  then have "undoubled c (f @ c # joinOn c (g # fs))"
    using ih f by (simp add: undoubled_def successively_append_iff successively_Cons)
  then show ?case using f hd_in_set [of f] by auto
qed simp

section \<open>Reading back what Git prints\<close>

lemma nulChar_code: "nulChar = CHR 0x00"
  by code_simp

lemma sha_no_nul: "validGitCommitSha s \<Longrightarrow> nulChar \<notin> set s"
  by (auto simp: validGitCommitSha_def list_all_iff isHexLower_def isDigit_def nulChar_def)

lemma ref_no_nul: "isValidTaskBranchRef s \<Longrightarrow> nulChar \<notin> set s"
  using isValidTaskBranchRef_no_forbidden [of s nulChar] by (auto simp: isForbiddenRefChar_def nulChar_def)

lemma printedFields_labels:
  "f \<in> set (printedFields r) \<Longrightarrow> fst f \<in> {''worktree'', ''HEAD'', ''bare'', ''detached'', ''branch'', ''locked''}"
  by (auto simp: printedFields_def split: option.splits if_splits)

lemma printedFields_distinct: "distinct (map fst (printedFields r))"
  by (simp add: printedFields_def split: option.split)

lemma printedFields_values:
  assumes "validRegistration r" "f \<in> set (printedFields r)"
  shows "nulChar \<notin> set (snd f)"
  using assms by (cases "wr_HEAD r"; cases "wr_branch r"; cases "wr_locked r")
    (auto simp: validRegistration_def printedFields_def dest: sha_no_nul ref_no_nul split: if_splits)

lemma label_plain:
  assumes "n \<in> {''worktree'', ''HEAD'', ''bare'', ''detached'', ''branch'', ''locked''}"
  shows "n \<noteq> []" "nulChar \<notin> set n" "CHR '' '' \<notin> set n" "n \<noteq> ''__proto__''"
  using assms by (auto simp: nulChar_code)

lemma printField_plain:
  assumes "validRegistration r" "f \<in> set (printedFields r)"
  shows "printField f \<noteq> [] \<and> nulChar \<notin> set (printField f)"
  using label_plain(1,2) [OF printedFields_labels [OF assms(2)]] printedFields_values [OF assms]
  by (auto simp: printField_def nulChar_code)

lemma printedFields_not_Nil [simp]: "printedFields r \<noteq> []"
  by (simp add: printedFields_def)

lemma field_read:
  assumes "CHR '' '' \<notin> set n"
  shows "takeWhile (\<lambda>c. c \<noteq> CHR '' '') (printField (n, v)) = n"
    "(if CHR '' '' \<in> set (printField (n, v)) then tl (dropWhile (\<lambda>c. c \<noteq> CHR '' '') (printField (n, v))) else []) = v"
proof -
  have "\<forall>c\<in>set n. c \<noteq> CHR '' ''" using assms by blast
  then show "takeWhile (\<lambda>c. c \<noteq> CHR '' '') (printField (n, v)) = n"
    "(if CHR '' '' \<in> set (printField (n, v)) then tl (dropWhile (\<lambda>c. c \<noteq> CHR '' '') (printField (n, v))) else []) = v"
    using assms by (auto simp: printField_def takeWhile_append2 dropWhile_append2 takeWhile_eq_all_conv)
qed

lemma worktreeFields_read:
  assumes "distinct (map fst (assigned @ fs))" "\<And>f. f \<in> set fs \<Longrightarrow> CHR '' '' \<notin> set (fst f) \<and> fst f \<noteq> ''__proto__''"
  shows "worktreeFields assigned (map printField fs) = Inr (assigned @ fs)"
  using assms
proof (induction fs arbitrary: assigned)
  case (Cons f fs)
  obtain n v where f: "f = (n, v)" by fastforce
  have n: "CHR '' '' \<notin> set n" "n \<noteq> ''__proto__''" using Cons.prems(2) [of f] f by simp_all
  have new: "map_of assigned n = None" using Cons.prems(1) f by (auto simp: map_of_eq_None_iff)
  have "worktreeFields (assigned @ [(n, v)]) (map printField fs) = Inr ((assigned @ [(n, v)]) @ fs)"
    using Cons.prems by (intro Cons.IH) (auto simp: f)
  then show ?case using n new by (simp add: f field_read [OF n(1)] Let_def del: takeWhile.simps)
qed simp

lemma decode_printed: "validRegistration r \<Longrightarrow> decodeRegistration (printedFields r) = Some r"
  by (cases "wr_HEAD r"; cases "wr_branch r"; cases "wr_locked r")
    (simp_all add: validRegistration_def printedFields_def decodeRegistration_def)

lemma worktreeFields_printed: "worktreeFields [] (map printField (printedFields r)) = Inr (printedFields r)"
  using worktreeFields_read [of "[]" "printedFields r"] printedFields_distinct label_plain(3,4) [OF printedFields_labels] by auto

definition printedRecord :: "WorktreeRegistration \<Rightarrow> string" where
  "printedRecord r = joinOn nulChar (map printField (printedFields r))"

lemma printInventory_Nil: "printInventory [] = []"
  by (simp add: printInventory_def)

lemma printInventory_Cons: "printInventory (r # rs) = printedRecord r @ nulChar # nulChar # printInventory rs"
  using concat_terminated [of "map printField (printedFields r)" nulChar]
  by (simp add: printInventory_def printedRecord_def comp_def)

lemma printedRecord_undoubled: "validRegistration r \<Longrightarrow> undoubled nulChar (printedRecord r)"
  unfolding printedRecord_def
  by (rule conjunct1 [OF undoubled_join]) (auto simp: list_all_iff dest: printField_plain)

lemma splitOn_printedRecord: "validRegistration r \<Longrightarrow> splitOn nulChar (printedRecord r) = map printField (printedFields r)"
  unfolding printedRecord_def by (rule splitOn_joined) (auto simp: list_all_iff dest: printField_plain)

lemma splitOnDouble_printed:
  assumes "rs \<noteq> []" "list_all validRegistration rs"
  shows "endsWith (printInventory rs) [nulChar, nulChar] \<and>
    splitOnDouble nulChar (take (length (printInventory rs) - 2) (printInventory rs)) = map printedRecord rs"
  using assms
proof (induction rs rule: induct_list012)
  case (2 r)
  then show ?case
    by (simp add: printInventory_Cons printInventory_Nil endsWith_def suffix_def splitOnDouble_absent [OF printedRecord_undoubled])
next
  case (3 r q rs)
  then have ih: "endsWith (printInventory (q # rs)) [nulChar, nulChar]"
    "splitOnDouble nulChar (take (length (printInventory (q # rs)) - 2) (printInventory (q # rs))) = map printedRecord (q # rs)" by auto
  then have long: "2 \<le> length (printInventory (q # rs))" by (auto simp: endsWith_def suffix_def)
  have "take (length (printInventory (r # q # rs)) - 2) (printInventory (r # q # rs)) =
      printedRecord r @ nulChar # nulChar # take (length (printInventory (q # rs)) - 2) (printInventory (q # rs))"
    using long by (auto simp: printInventory_Cons [of r] Suc_diff_le take_Cons' numeral_2_eq_2)
  moreover have "endsWith (printInventory (r # q # rs)) [nulChar, nulChar]"
    using ih(1) unfolding printInventory_Cons [of r] endsWith_def by (auto simp: suffix_def)
  ultimately show ?case using ih(2) 3(4) splitOnDouble_sep [OF printedRecord_undoubled] by simp
qed simp

lemma decodeRegistrations_printed:
  assumes "list_all validRegistration rs" "distinct (map wr_worktree rs @ paths)"
  shows "decodeRegistrations issues paths (map printedRecord rs) = Inr rs"
  using assms
proof (induction rs arbitrary: paths)
  case (Cons r rs)
  then have "decodeRegistrations issues (wr_worktree r # paths) (map printedRecord rs) = Inr rs" by auto
  moreover have r: "validRegistration r" using Cons.prems by simp
  moreover have "registrationModes r = 1" "wr_bare r \<or> wr_HEAD r \<noteq> None" using r by (simp_all add: validRegistration_def)
  ultimately show ?case using Cons.prems
    by (auto simp: splitOn_printedRecord worktreeFields_printed decode_printed)
qed simp

section \<open>Nothing else is accepted\<close>

definition fieldValue :: "string \<Rightarrow> string" where
  "fieldValue f = (if CHR '' '' \<in> set f then tl (dropWhile (\<lambda>c. c \<noteq> CHR '' '') f) else [])"

lemma set_tl_dropWhile: "set (tl (dropWhile P xs)) \<subseteq> set xs"
  by (induction xs) auto

lemma fieldValue_nul: "c \<notin> set f \<Longrightarrow> c \<notin> set (fieldValue f)"
  using set_tl_dropWhile [of "\<lambda>c. c \<noteq> CHR '' ''" f] by (auto simp: fieldValue_def)

lemma worktreeFields_step:
  assumes "worktreeFields assigned (f # fs) = Inr result"
  shows "\<exists>more. worktreeFields (assigned @ more) fs = Inr result \<and> set (map snd more) \<subseteq> {fieldValue f}"
proof (cases "takeWhile (\<lambda>c. c \<noteq> CHR '' '') f = ''__proto__''")
  case True
  then have "worktreeFields (assigned @ []) fs = Inr result"
    using assms by (simp only: worktreeFields.simps Let_def if_True append_Nil2 split: if_split_asm) simp
  then show ?thesis by (intro exI [of _ "[]"]) simp
next
  case False
  then have "worktreeFields (assigned @ [(takeWhile (\<lambda>c. c \<noteq> CHR '' '') f, fieldValue f)]) fs = Inr result"
    using assms unfolding worktreeFields.simps(2) Let_def fieldValue_def [symmetric]
    by (cases "map_of assigned (takeWhile (\<lambda>c. c \<noteq> CHR '' '') f)") simp_all
  then show ?thesis by (intro exI [of _ "[(takeWhile (\<lambda>c. c \<noteq> CHR '' '') f, fieldValue f)]"]) simp
qed

lemma worktreeFields_nul:
  assumes "worktreeFields assigned fs = Inr result" "\<And>f. f \<in> set fs \<Longrightarrow> nulChar \<notin> set f" "\<And>v. v \<in> set (map snd assigned) \<Longrightarrow> nulChar \<notin> set v"
  shows "v \<in> set (map snd result) \<Longrightarrow> nulChar \<notin> set v"
  using assms
proof (induction fs arbitrary: assigned)
  case (Cons f fs)
  from worktreeFields_step [OF Cons.prems(2)] obtain more
    where more: "worktreeFields (assigned @ more) fs = Inr result" "set (map snd more) \<subseteq> {fieldValue f}" by blast
  have "nulChar \<notin> set (fieldValue f)" by (rule fieldValue_nul) (simp add: Cons.prems(3))
  then have plain: "nulChar \<notin> set u" if "u \<in> set (map snd (assigned @ more))" for u
    using that more(2) Cons.prems(4) by auto
  show ?case by (rule Cons.IH [OF Cons.prems(1) more(1) _ plain]) (simp add: Cons.prems(3))
qed simp

lemma decodeRegistrations_sound:
  assumes "decodeRegistrations issues paths texts = Inr rs"
  shows "list_all validRegistration rs \<and> distinct (map wr_worktree rs) \<and> set (map wr_worktree rs) \<inter> set paths = {} \<and> length rs = length texts"
  using assms
proof (induction texts arbitrary: paths rs)
  case (Cons record_text texts)
  from Cons.prems obtain assigned r qs where f: "worktreeFields [] (splitOn nulChar record_text) = Inr assigned"
    and d: "decodeRegistration assigned = Some r" and m: "registrationModes r = 1" "wr_bare r \<or> wr_HEAD r \<noteq> None"
    and p: "wr_worktree r \<notin> set paths" and rest: "decodeRegistrations issues (wr_worktree r # paths) texts = Inr qs" "rs = r # qs"
    by (auto split: sum.splits option.splits if_splits simp: map_sum_def)
  have nul: "nulChar \<notin> set v" if "map_of assigned n = Some v" for n v
  proof (rule worktreeFields_nul [OF f])
    show "v \<in> set (map snd assigned)" using map_of_SomeD [OF that] by force
  qed (auto dest: splitOn_fields)
  have "optionally (\<lambda>reason. nulChar \<notin> set reason) (map_of assigned ''locked'')"
    using nul by (cases "map_of assigned ''locked''") simp_all
  then have "validRegistration r"
    using d m nul by (auto simp: validRegistration_def decodeRegistration_def split: if_splits)
  then show ?case using Cons.IH [OF rest(1)] rest(2) p by auto
qed simp

lemma splitOnDouble_not_Nil [simp]: "splitOnDouble c s \<noteq> []"
  by (induction c s rule: splitOnDouble.induct) (auto split: list.splits)

lemma decode_printInventory:
  assumes "validInventory rs"
  shows "decodeGitWorktreeRegistrations issues (printInventory rs) = Inr rs"
  using assms splitOnDouble_printed [of rs] decodeRegistrations_printed [of rs "[]" issues]
  by (simp add: validInventory_def decodeGitWorktreeRegistrations_def)

text \<open>
  C28. The worktree inventory is read exactly. Every valid inventory, printed as Git documents it, decodes to itself; and whatever text is
  accepted, the registrations read from it form a valid inventory: one checkout mode each, valid commits and refs, no path twice.
\<close>

theorem inventory_roundtrip:
  "(validInventory rs \<longrightarrow> decodeGitWorktreeRegistrations issues (printInventory rs) = Inr rs) \<and>
   (decodeGitWorktreeRegistrations issues output = Inr accepted \<longrightarrow>
      validInventory accepted \<and> decodeGitWorktreeRegistrations issues (printInventory accepted) = Inr accepted)"
proof -
  have "validInventory accepted" if "decodeGitWorktreeRegistrations issues output = Inr accepted"
  proof -
    from that have "decodeRegistrations issues [] (splitOnDouble nulChar (take (length output - 2) output)) = Inr accepted"
      by (simp add: decodeGitWorktreeRegistrations_def split: if_splits)
    from decodeRegistrations_sound [OF this] show ?thesis by (auto simp: validInventory_def)
  qed
  then show ?thesis using decode_printInventory by blast
qed

definition demoInventory :: "WorktreeRegistration list" where
  "demoInventory =
     [\<lparr>wr_worktree = ''/repo'', wr_HEAD = None, wr_branch = None, wr_bare = True, wr_detached = False, wr_locked = None\<rparr>,
      \<lparr>wr_worktree = ''/a tree'', wr_HEAD = Some (replicate 40 CHR ''b''), wr_branch = Some ''refs/heads/t'', wr_bare = False,
       wr_detached = False, wr_locked = Some ''in use''\<rparr>]"

definition demoIssues :: SchemaIssueText where
  "demoIssues = \<lparr>si_commit = (\<lambda>_. ''issue''), si_registration = (\<lambda>_. ''issue'')\<rparr>"

theorem inventory_roundtrip_witness:
  "validInventory demoInventory \<and> decodeGitWorktreeRegistrations demoIssues (printInventory demoInventory) = Inr demoInventory"
proof -
  have "validInventory demoInventory" by code_simp
  then show ?thesis using inventory_roundtrip [of demoInventory demoIssues] by blast
qed

end
