(* ===== verification/Promotion_Calls.thy ===== *)
theory Promotion_Calls
  imports Promotion_Engine
begin

text \<open>
  Which calls of the Git authority one promotion run makes: none, a read, a compare-and-set, or a read and then a compare-and-set, always for
  the request of the candidate; and from which answer a new success comes.
\<close>

section \<open>Steps between the calls\<close>

definition keepsGit :: "(('j, 'g, 'm) World_scheme, 'e, 'a) effect \<Rightarrow> bool" where
  "keepsGit m \<longleftrightarrow> (\<forall>w x w'. m w = (x, w') \<longrightarrow> w_git w' = w_git w \<and> w_sent w' = w_sent w)"

lemma keepsGitD: "keepsGit m \<Longrightarrow> m w = (x, w') \<Longrightarrow> w_git w' = w_git w \<and> w_sent w' = w_sent w"
  by (simp add: keepsGit_def)

named_theorems keeps

lemma keeps_basic [keeps]:
  "keepsGit (succeed x)" "keepsGit (fail e)" "keepsGit (resultContradiction c d)" "keepsGit (liftJournal wrap m)"
  "keepsGit (consumeRead n)" "keepsGit (consumeAttempt n)" "keepsGit (consumeIntended n)" "keepsGit (consumeObserved n)"
  "keepsGit (mintReadAuthorization c p a b)" "keepsGit (mintAttemptAuthorization c n r b)"
  "keepsGit (mintIntendedAttempt i)" "keepsGit (mintObservedAttempt i' r')"
  by (auto simp: keepsGit_def resultContradiction_def liftJournal_def consumeRead_def consumeAttempt_def consumeIntended_def
      consumeObserved_def mintReadAuthorization_def mintAttemptAuthorization_def mintIntendedAttempt_def mintObservedAttempt_def Let_def
      split: prod.splits sum.splits)

lemma keeps_andThen [keeps]: "keepsGit m \<Longrightarrow> (\<And>x. keepsGit (f x)) \<Longrightarrow> keepsGit (andThen m f)"
  by (fastforce simp: keepsGit_def andThen_def split: prod.splits sum.splits)

lemma keeps_cases [keeps]:
  "(b \<Longrightarrow> keepsGit m) \<Longrightarrow> (\<not> b \<Longrightarrow> keepsGit n) \<Longrightarrow> keepsGit (if b then m else n)"
  "keepsGit m \<Longrightarrow> (\<And>y. keepsGit (f y)) \<Longrightarrow> keepsGit (case o' of None \<Rightarrow> m | Some y \<Rightarrow> f y)"
  by (auto split: option.split)

lemma keeps_journal [keeps]:
  "keepsGit (appendTargetPromotionEvent journal c key e)" "keepsGit (readEvidence journal runId)"
  unfolding appendTargetPromotionEvent_def readEvidence_def by (rule keeps)+

lemma keeps_validate [keeps]: "keepsGit (validateTargetPromotionState source c)"
  unfolding validateTargetPromotionState_def Let_def by (intro keeps)

lemma keeps_readValidated [keeps]: "keepsGit (readValidatedTargetPromotionState journal c)"
  unfolding readValidatedTargetPromotionState_def by (intro keeps)

lemma keeps_settlements [keeps]:
  "keepsGit (appendTargetPromotionSuccess journal c b o')" "keepsGit (appendTargetPromotionStale journal c b s)"
  "keepsGit (appendTargetPromotionNonConvergence journal c n v)" "keepsGit (appendTargetPromotionReconciliationDeferral journal c n d)"
  unfolding appendTargetPromotionSuccess_def appendTargetPromotionStale_def appendTargetPromotionNonConvergence_def
    appendTargetPromotionReconciliationDeferral_def by (intro keeps)+

lemma keeps_recordSafety [keeps]: "keepsGit (recordSafety journal records boundary c b r n)"
  unfolding recordSafety_def
  by (rule keeps_andThen, rule keeps) (auto split: option.split TargetPromotionState.split intro: keeps)

lemma keeps_safety [keeps]: "keepsGit (appendTargetPromotionSafetyRefusal journal source boundary c n r)"
  unfolding appendTargetPromotionSafetyRefusal_def Let_def
  by (auto split: option.split TargetPromotionState.split intro: keeps)

lemma keeps_finishReadDecision [keeps]: "keepsGit (finishReadDecision journal a decision)"
  unfolding finishReadDecision_def Let_def by (cases decision) (auto intro!: keeps)

lemma keeps_authorize [keeps]: "keepsGit (authorizeOrRecordTargetPromotionProgress journal candidate)"
  unfolding authorizeOrRecordTargetPromotionProgress_def authorizeExistingState_def authorizePendingProgress_def authorizeDeferredProgress_def Let_def
  by (auto intro!: keeps split: TargetPromotionState.split TargetPromotionPendingRetry.split TargetPromotionReconciliationDeferral.split)

lemma keeps_recordAttempt [keeps]: "keepsGit (recordTargetPromotionAttemptIntent journal a)"
  unfolding recordTargetPromotionAttemptIntent_def Let_def by (intro keeps)

lemma keeps_settle [keeps]: "keepsGit (settleTargetPromotionAttempt journal claim)"
  unfolding settleTargetPromotionAttempt_def Let_def
  by (intro keeps) (auto intro!: keeps split: TargetPromotionSettlementDecision.split)

lemma keeps_finishAttempt [keeps]: "keepsGit (finishAttemptResult journal result)"
  unfolding finishAttemptResult_def by (cases result) (auto intro: keeps)

section \<open>The calls\<close>

definition readShows ::
  "TargetPromotionReadError + TargetPromotionGitReadObservation \<Rightarrow> TargetPromotionSuccessObservation \<Rightarrow> bool" where
  "readShows answer success \<longleftrightarrow> (\<exists>observation. answer = Inr observation \<and> successObservationForRead observation = Some success)"

definition casShows ::
  "TargetPromotionCorrelation \<Rightarrow> TargetPromotionCasError + TargetPromotionCompareAndSetResult \<Rightarrow> TargetPromotionSuccessObservation \<Rightarrow> bool" where
  "casShows c answer success \<longleftrightarrow> (\<exists>result. answer = Inr result \<and> decideTargetPromotionSettlement c result = SettlementSucceeded success)"

inductive promotionCalls ::
  "'g TargetPromotionGitService \<Rightarrow> TargetPromotionCorrelation \<Rightarrow> 'g \<Rightarrow> bool \<Rightarrow> (TargetPromotionSuccessObservation \<Rightarrow> bool) \<Rightarrow> 'g \<Rightarrow> bool"
  for git c where
  no_call: "promotionCalls git c g False (\<lambda>_. False) g"
| read_only: "git_read git (targetPromotionGitRequestFor c) g = (answer, g') \<Longrightarrow> promotionCalls git c g False (readShows answer) g'"
| cas_only: "git_compareAndSet git (targetPromotionGitRequestFor c) g = (result, g') \<Longrightarrow> promotionCalls git c g True (casShows c result) g'"
| read_cas: "git_read git (targetPromotionGitRequestFor c) g = (answer, g1) \<Longrightarrow>
    git_compareAndSet git (targetPromotionGitRequestFor c) g1 = (result, g') \<Longrightarrow> promotionCalls git c g True (casShows c result) g'"

definition newSuccess ::
  "'e + TargetPromotionState \<Rightarrow> (TargetPromotionSuccessObservation \<Rightarrow> bool) \<Rightarrow> bool" where
  "newSuccess x shown \<longleftrightarrow> (\<forall>basis c observation. x = Inr (PromotionSucceeded basis c observation) \<longrightarrow> shown observation)"

lemma newSuccess_Inl [simp]: "newSuccess (Inl e) shown"
  by (simp add: newSuccess_def)

lemma andThen_cases:
  assumes "andThen m f w = (x, w')"
  shows "(\<exists>e. m w = (Inl e, w') \<and> x = Inl e) \<or> (\<exists>y w1. m w = (Inr y, w1) \<and> f y w1 = (x, w'))"
  using assms by (auto simp: andThen_def split: prod.splits sum.splits)

text \<open>The two checks before a call of the authority: a failed one ends the step, otherwise the call starts from the same repository.\<close>

lemma guarded_calls:
  assumes "andThen m (\<lambda>st. if \<not> b st then resultContradiction c d
      else andThen k (\<lambda>available. if \<not> available then resultContradiction c' d' else rest)) w = (x, w')" "keepsGit m" "keepsGit k"
  shows "(\<exists>e. x = Inl e) \<and> w_git w' = w_git w \<and> w_sent w' = w_sent w \<or>
    (\<exists>v. w_git v = w_git w \<and> w_sent v = w_sent w \<and> rest v = (x, w'))"
  using andThen_cases [OF assms(1)]
proof (elim disjE exE conjE)
  fix e assume "m w = (Inl e, w')" "x = Inl e"
  then show ?thesis using keepsGitD [OF assms(2)] by blast
next
  fix st w1
  assume m: "m w = (Inr st, w1)"
    and rest: "(if \<not> b st then resultContradiction c d
      else andThen k (\<lambda>available. if \<not> available then resultContradiction c' d' else rest)) w1 = (x, w')"
  note kept = keepsGitD [OF assms(2) m]
  show ?thesis
  proof (cases "b st")
    case False
    then show ?thesis using rest kept by (auto simp: resultContradiction_def)
  next
    case True
    with rest have "andThen k (\<lambda>available. if \<not> available then resultContradiction c' d' else rest) w1 = (x, w')" by simp
    from andThen_cases [OF this] show ?thesis
    proof (elim disjE exE conjE)
      fix e assume "k w1 = (Inl e, w')" "x = Inl e"
      then show ?thesis using keepsGitD [OF assms(3)] kept by metis
    next
      fix available w2
      assume k: "k w1 = (Inr available, w2)" and r: "(if \<not> available then resultContradiction c' d' else rest) w2 = (x, w')"
      then show ?thesis using keepsGitD [OF assms(3) k] kept by (cases available) (auto simp: resultContradiction_def)
    qed
  qed
qed

lemma recordSafety_state:
  "recordSafety journal records boundary c b r n w = (Inr s, w') \<Longrightarrow> \<exists>b c r f k. s = PromotionSafetyRefused b c r f k"
  by (auto simp: recordSafety_def elim!: andThen_InrE split: option.splits TargetPromotionState.splits)

lemma safety_state:
  "appendTargetPromotionSafetyRefusal journal source boundary c n r w = (Inr s, w') \<Longrightarrow> \<exists>b c r f k. s = PromotionSafetyRefused b c r f k"
  by (auto simp: appendTargetPromotionSafetyRefusal_def Let_def dest: recordSafety_state split: option.splits TargetPromotionState.splits if_splits)

lemma decision_success:
  assumes "finishReadDecision journal a decision w = (Inr (ProgressState (PromotionSucceeded basis c observation)), w')"
  shows "\<exists>b. decision = ReadSucceeded b observation"
  using assms by (cases decision) (auto simp: finishReadDecision_def Let_def appendTargetPromotionSuccess_def appendTargetPromotionStale_def
      appendTargetPromotionNonConvergence_def appendTargetPromotionReconciliationDeferral_def resultContradiction_def elim!: andThen_InrE)

lemma decision_attempt:
  assumes "finishReadDecision journal a decision w = (Inr (ProgressAttempt b), w')"
  shows "aa_correlation b = ra_correlation a"
  using assms by (cases decision) (auto simp: finishReadDecision_def Let_def mintAttemptAuthorization_def resultContradiction_def elim!: andThen_InrE)

lemma read_success: "decideSuccessfulTargetPromotionRead a observation = ReadSucceeded b success \<Longrightarrow> readShows (Inr observation) success"
  by (auto simp: decideSuccessfulTargetPromotionRead_def decideExpectedHeadRead_def readShows_def Let_def split: option.splits if_splits)

lemma failed_read_no_success: "decideFailedTargetPromotionRead a failure \<noteq> ReadSucceeded b success"
  by (auto simp: decideFailedTargetPromotionRead_def split: option.splits)

lemma observeRead_calls:
  assumes "observeTargetPromotionRead journal git a w = (x, w')"
  shows "w_sent w' = w_sent w \<and>
    ((\<exists>e. x = Inl e) \<and> w_git w' = w_git w \<or>
     (\<exists>answer. git_read git (targetPromotionGitRequestFor (ra_correlation a)) (w_git w) = (answer, w_git w') \<and>
        (\<forall>basis c observation. x = Inr (ProgressState (PromotionSucceeded basis c observation)) \<longrightarrow> readShows answer observation) \<and>
        (\<forall>b. x = Inr (ProgressAttempt b) \<longrightarrow> aa_correlation b = ra_correlation a)))"
proof -
  let ?c = "ra_correlation a"
  let ?finish = "\<lambda>answer. case answer of
      Inr observation \<Rightarrow> finishReadDecision journal a (decideSuccessfulTargetPromotionRead a observation)
    | Inl (ReadSafetyFailure refusal) \<Rightarrow>
        andThen (readEvidence journal (targetPromotionRunIdOf ?c)) (\<lambda>source.
          andThen (appendTargetPromotionSafetyRefusal journal source ReconciliationReadBoundary ?c (ra_previousAttemptOrdinal a) refusal)
            (\<lambda>s. succeed (ProgressState s)))
    | Inl (GitReadFailure failure) \<Rightarrow> finishReadDecision journal a (decideFailedTargetPromotionRead a failure)"
  have keeps_finish: "keepsGit (?finish answer)" for answer
    by (auto intro!: keeps split: sum.split TargetPromotionReadError.split)
  have success: "readShows answer observation"
    if "?finish answer v = (Inr (ProgressState (PromotionSucceeded basis c observation)), v')" for answer v basis c observation v'
    using that by (auto split: sum.splits TargetPromotionReadError.splits elim!: andThen_InrE
        dest!: decision_success safety_state read_success simp: failed_read_no_success)
  have attempt: "aa_correlation b = ?c" if "?finish answer v = (Inr (ProgressAttempt b), v')" for answer v b v'
    using that by (auto split: sum.splits TargetPromotionReadError.splits elim!: andThen_InrE dest!: decision_attempt)
  from guarded_calls [OF assms [unfolded observeTargetPromotionRead_def Let_def] keeps_readValidated keeps_basic(5)]
  show ?thesis
  proof (elim disjE exE conjE)
    fix v assume v: "w_git v = w_git w" "w_sent v = w_sent w"
      and rest: "andThen (callGit (git_read git (targetPromotionGitRequestFor ?c))) ?finish v = (x, w')"
    obtain answer g where call: "git_read git (targetPromotionGitRequestFor ?c) (w_git v) = (answer, g)" by fastforce
    have finish: "?finish answer (v\<lparr>w_git := g\<rparr>) = (x, w')"
      using rest by (simp add: andThen_def callGit_def call)
    have "w_git w' = g" "w_sent w' = w_sent w" using keepsGitD [OF keeps_finish finish] v by simp_all
    moreover have "readShows answer observation" if "x = Inr (ProgressState (PromotionSucceeded basis c observation))" for basis c observation
      by (rule success [OF finish [unfolded that]])
    moreover have "aa_correlation b = ?c" if "x = Inr (ProgressAttempt b)" for b by (rule attempt [OF finish [unfolded that]])
    ultimately show ?thesis using call v by auto
  qed blast
qed

lemma send_calls:
  assumes "sendTargetPromotionAttempt journal git attempt w = (x, w')"
  shows "(\<exists>e. x = Inl e) \<and> w_git w' = w_git w \<and> w_sent w' = w_sent w \<or>
    (\<exists>answer. git_compareAndSet git (targetPromotionGitRequestFor (ia_correlation attempt)) (w_git w) = (answer, w_git w') \<and>
       w_sent w' \<noteq> w_sent w \<and>
       (\<forall>claim. x = Inr (ObservedAttempt claim) \<longrightarrow> answer = Inr (oa_result claim) \<and> oa_correlation claim = ia_correlation attempt) \<and>
       (\<forall>s. x = Inr (RefusedAttempt s) \<longrightarrow> (\<exists>b c r f k. s = PromotionSafetyRefused b c r f k)))"
proof -
  let ?c = "ia_correlation attempt"
  let ?request = "targetPromotionGitRequestFor ?c"
  let ?finish = "\<lambda>result. case result of
      Inl (CasSafetyFailure refusal) \<Rightarrow>
        andThen (readEvidence journal (targetPromotionRunIdOf ?c)) (\<lambda>source.
          andThen (appendTargetPromotionSafetyRefusal journal source CompareAndSetBoundary ?c (Some (ia_attemptOrdinal attempt)) refusal)
            (\<lambda>s. succeed (RefusedAttempt s)))
    | Inl _ \<Rightarrow> succeed (AmbiguousAttempt (ia_attemptOrdinal attempt) ?c)
    | Inr success \<Rightarrow> andThen (mintObservedAttempt attempt success) (\<lambda>oa. succeed (ObservedAttempt oa))"
  have keeps_finish: "keepsGit (?finish answer)" for answer
    by (auto intro!: keeps split: sum.split TargetPromotionCasError.split)
  have observed: "answer = Inr (oa_result claim) \<and> oa_correlation claim = ?c"
    if "?finish answer v = (Inr (ObservedAttempt claim), v')" for answer v claim v'
    using that by (auto simp: mintObservedAttempt_def Let_def split: sum.splits TargetPromotionCasError.splits elim!: andThen_InrE)
  have refused: "\<exists>b c r f k. s = PromotionSafetyRefused b c r f k" if "?finish answer v = (Inr (RefusedAttempt s), v')" for answer v s v'
    using that by (auto split: sum.splits TargetPromotionCasError.splits elim!: andThen_InrE dest!: safety_state)
  from guarded_calls [OF assms [unfolded sendTargetPromotionAttempt_def Let_def] keeps_readValidated keeps_basic(7)]
  show ?thesis
  proof (elim disjE exE conjE)
    fix v assume v: "w_git v = w_git w" "w_sent v = w_sent w"
      and rest: "andThen (logSent (SentCompareAndSet ?c ?request)) (\<lambda>_. andThen (callGit (git_compareAndSet git ?request)) ?finish) v = (x, w')"
    obtain answer g where call: "git_compareAndSet git ?request (w_git v) = (answer, g)" by fastforce
    let ?v = "v\<lparr>w_sent := w_sent v @ [(w_journal v, SentCompareAndSet ?c ?request)], w_git := g\<rparr>"
    have finish: "?finish answer ?v = (x, w')" using rest by (simp add: andThen_def callGit_def logSent_def call)
    have "w_git w' = g" "w_sent w' \<noteq> w_sent w" using keepsGitD [OF keeps_finish finish] v by simp_all
    moreover have "answer = Inr (oa_result claim) \<and> oa_correlation claim = ?c" if "x = Inr (ObservedAttempt claim)" for claim
      by (rule observed [OF finish [unfolded that]])
    moreover have "\<exists>b c r f k. s = PromotionSafetyRefused b c r f k" if "x = Inr (RefusedAttempt s)" for s
      by (rule refused [OF finish [unfolded that]])
    ultimately show ?thesis using call v by auto
  qed blast
qed

lemma settle_success:
  assumes "settleTargetPromotionAttempt journal claim w = (Inr (PromotionSucceeded basis c observation), w')"
  shows "decideTargetPromotionSettlement (oa_correlation claim) (oa_result claim) = SettlementSucceeded observation"
  using assms by (auto simp: settleTargetPromotionAttempt_def Let_def resultContradiction_def appendTargetPromotionSuccess_def
      appendTargetPromotionStale_def elim!: andThen_InrE split: if_splits TargetPromotionSettlementDecision.splits)

lemma attempt_success:
  assumes "finishAttemptResult journal result w = (Inr (PromotionSucceeded basis c observation), w')"
    and "\<And>s. result = RefusedAttempt s \<Longrightarrow> \<exists>b c r f k. s = PromotionSafetyRefused b c r f k"
  shows "\<exists>claim. result = ObservedAttempt claim \<and>
    decideTargetPromotionSettlement (oa_correlation claim) (oa_result claim) = SettlementSucceeded observation"
  using assms by (cases result) (auto simp: finishAttemptResult_def dest: settle_success)

lemma mintIntended_correlation: "mintIntendedAttempt a w = (Inr i, w') \<Longrightarrow> ia_correlation i = aa_correlation a"
  by (auto simp: mintIntendedAttempt_def Let_def)

lemma recordAttempt_correlation:
  "recordTargetPromotionAttemptIntent journal a w = (Inr i, w') \<Longrightarrow> ia_correlation i = aa_correlation a"
  by (auto simp: recordTargetPromotionAttemptIntent_def Let_def resultContradiction_def elim!: andThen_InrE dest!: mintIntended_correlation
      split: if_splits)

text \<open>After the read: a state is returned as it is, an attempt is made with at most one call.\<close>

lemma afterAttempt_calls:
  assumes "finishAfterRead journal git (ProgressAttempt a) w = (x, w')"
  shows "w_git w' = w_git w \<and> w_sent w' = w_sent w \<and> (\<exists>e. x = Inl e) \<or>
    (\<exists>answer. git_compareAndSet git (targetPromotionGitRequestFor (aa_correlation a)) (w_git w) = (answer, w_git w') \<and> w_sent w' \<noteq> w_sent w \<and>
       newSuccess x (casShows (aa_correlation a) answer))"
proof -
  have run: "andThen (recordTargetPromotionAttemptIntent journal a) (\<lambda>intended.
      andThen (sendTargetPromotionAttempt journal git intended) (finishAttemptResult journal)) w = (x, w')"
    using assms by (simp add: finishAfterRead_def)
  from andThen_cases [OF run] show ?thesis
  proof (elim disjE exE conjE)
    fix e assume "recordTargetPromotionAttemptIntent journal a w = (Inl e, w')" "x = Inl e"
    then show ?thesis using keepsGitD [OF keeps_recordAttempt] by metis
  next
    fix i w1
    assume intent: "recordTargetPromotionAttemptIntent journal a w = (Inr i, w1)"
      and rest: "andThen (sendTargetPromotionAttempt journal git i) (finishAttemptResult journal) w1 = (x, w')"
    have i: "ia_correlation i = aa_correlation a" by (rule recordAttempt_correlation [OF intent])
    have kept: "w_git w1 = w_git w" "w_sent w1 = w_sent w" using keepsGitD [OF keeps_recordAttempt intent] by simp_all
    from andThen_cases [OF rest] show ?thesis
    proof (elim disjE exE conjE)
      fix e assume "sendTargetPromotionAttempt journal git i w1 = (Inl e, w')" "x = Inl e"
      then show ?thesis using send_calls [of journal git i w1 "Inl e" w'] kept i by auto
    next
      fix result w2
      assume sent: "sendTargetPromotionAttempt journal git i w1 = (Inr result, w2)" and finish: "finishAttemptResult journal result w2 = (x, w')"
      from send_calls [OF sent] obtain answer
        where answer: "git_compareAndSet git (targetPromotionGitRequestFor (aa_correlation a)) (w_git w) = (answer, w_git w2)" "w_sent w2 \<noteq> w_sent w"
          "\<And>claim. result = ObservedAttempt claim \<Longrightarrow> answer = Inr (oa_result claim) \<and> oa_correlation claim = aa_correlation a"
          "\<And>s. result = RefusedAttempt s \<Longrightarrow> \<exists>b c r f k. s = PromotionSafetyRefused b c r f k"
        using kept i by auto
      have "newSuccess x (casShows (aa_correlation a) answer)"
        using attempt_success [OF _ answer(4)] finish answer(3) unfolding newSuccess_def casShows_def by metis
      then show ?thesis using answer keepsGitD [OF keeps_finishAttempt finish] by auto
    qed
  qed
qed

section \<open>The run\<close>

definition progressFor :: "TargetPromotionCorrelation \<Rightarrow> TargetPromotionProgress \<Rightarrow> bool" where
  "progressFor c p =
     (case p of ProgressState s \<Rightarrow> True | ProgressRead a \<Rightarrow> ra_correlation a = c | ProgressAttempt a \<Rightarrow> aa_correlation a = c)"

lemma progressOk_for: "progressOk c es K p \<Longrightarrow> progressFor c p"
  by (cases p) (auto simp: progressFor_def readAuthorizationOk_def attemptAuthorizationOk_def)

text \<open>The run from \<open>w\<close> to \<open>w'\<close> made the calls of some trace, and its answer is a success only as that trace shows.\<close>

definition callsMade ::
  "'g TargetPromotionGitService \<Rightarrow> TargetPromotionCorrelation \<Rightarrow> ('j, 'g, 'm) World_scheme \<Rightarrow> 'e + TargetPromotionState \<Rightarrow> ('j, 'g, 'm) World_scheme \<Rightarrow> bool" where
  "callsMade git c w x w' \<longleftrightarrow>
     (\<exists>shown. promotionCalls git c (w_git w) (w_sent w' \<noteq> w_sent w) shown (w_git w') \<and> newSuccess x shown)"

lemma callsMade_stopped: "w_git w' = w_git w \<Longrightarrow> w_sent w' = w_sent w \<Longrightarrow> callsMade git c w (Inl e) w'"
  using promotionCalls.no_call [of git c "w_git w"] by (auto simp: callsMade_def)

lemma callsMade_read:
  assumes "git_read git (targetPromotionGitRequestFor c) (w_git w) = (answer, w_git w')" "w_sent w' = w_sent w" "newSuccess x (readShows answer)"
  shows "callsMade git c w x w'"
  using promotionCalls.read_only [OF assms(1)] assms(2,3) by (auto simp: callsMade_def)

lemma callsMade_cas:
  assumes "git_compareAndSet git (targetPromotionGitRequestFor c) (w_git w) = (answer, w_git w')" "w_sent w' \<noteq> w_sent w"
    "newSuccess x (casShows c answer)"
  shows "callsMade git c w x w'"
  using promotionCalls.cas_only [OF assms(1)] assms(2,3) by (auto simp: callsMade_def)

lemma callsMade_read_cas:
  assumes "git_read git (targetPromotionGitRequestFor c) (w_git w) = (answer, w_git w1)" "w_sent w1 = w_sent w"
    "git_compareAndSet git (targetPromotionGitRequestFor c) (w_git w1) = (result, w_git w')" "w_sent w' \<noteq> w_sent w1"
    "newSuccess x (casShows c result)"
  shows "callsMade git c w x w'"
  using promotionCalls.read_cas [OF assms(1,3)] assms by (auto simp: callsMade_def)

lemma read_promotionCalls:
  assumes "andThen (observeTargetPromotionRead journal git a) (finishAfterRead journal git) w = (x, w')" "ra_correlation a = c"
  shows "callsMade git c w x w'"
  using andThen_cases [OF assms(1)]
proof (elim disjE exE conjE)
  fix e assume failed: "observeTargetPromotionRead journal git a w = (Inl e, w')" "x = Inl e"
  show ?thesis
    using observeRead_calls [OF failed(1), unfolded assms(2)] unfolding failed(2) by (auto intro: callsMade_stopped callsMade_read)
next
  fix p w1
  assume observed: "observeTargetPromotionRead journal git a w = (Inr p, w1)" and finish: "finishAfterRead journal git p w1 = (x, w')"
  from observeRead_calls [OF observed, unfolded assms(2)] obtain answer
    where read: "git_read git (targetPromotionGitRequestFor c) (w_git w) = (answer, w_git w1)" and sent: "w_sent w1 = w_sent w"
      and success: "\<And>basis d observation. p = ProgressState (PromotionSucceeded basis d observation) \<Longrightarrow> readShows answer observation"
      and attempt: "\<And>b. p = ProgressAttempt b \<Longrightarrow> aa_correlation b = c"
    by auto
  show ?thesis
  proof (cases p)
    case (ProgressState s)
    then have x: "x = Inr s" "w' = w1" using finish by (simp_all add: finishAfterRead_def)
    have "newSuccess x (readShows answer)" using success ProgressState x by (auto simp: newSuccess_def)
    then show ?thesis using callsMade_read [OF read sent] x by simp
  next
    case (ProgressRead b)
    then show ?thesis using callsMade_read [OF read sent newSuccess_Inl] finish by (auto simp: finishAfterRead_def)
  next
    case (ProgressAttempt b)
    from afterAttempt_calls [OF finish [unfolded ProgressAttempt], unfolded attempt [OF ProgressAttempt]] show ?thesis
    proof (elim disjE exE conjE)
      fix e assume "w_git w' = w_git w1" "w_sent w' = w_sent w1" "x = Inl e"
      then show ?thesis using callsMade_read [of git c w answer w' x] read sent by simp
    next
      fix result
      assume "git_compareAndSet git (targetPromotionGitRequestFor c) (w_git w1) = (result, w_git w')" "w_sent w' \<noteq> w_sent w1"
        "newSuccess x (casShows c result)"
      then show ?thesis by (rule callsMade_read_cas [OF read sent])
    qed
  qed
qed

lemma finishProgress_calls:
  assumes "finishProgress journal git p w = (x, w')" "progressFor c p"
  shows "callsMade git c w x w' \<or> (\<exists>s. p = ProgressState s \<and> x = Inr s \<and> w' = w)"
proof (cases p)
  case (ProgressState s)
  then show ?thesis using assms(1) by (simp add: finishProgress_def finishAfterRead_def andThen_succeed)
next
  case (ProgressRead a)
  then show ?thesis using read_promotionCalls [of journal git a w x w' c] assms by (auto simp: finishProgress_def progressFor_def)
next
  case (ProgressAttempt a)
  then have run: "finishAfterRead journal git (ProgressAttempt a) w = (x, w')" and a: "aa_correlation a = c"
    using assms by (simp_all add: finishProgress_def progressFor_def andThen_succeed)
  from afterAttempt_calls [OF run, unfolded a] have "callsMade git c w x w'"
    by (auto intro: callsMade_stopped callsMade_cas)
  then show ?thesis by blast
qed

text \<open>A state that comes without a read is the one in the journal.\<close>

lemma authorize_state:
  assumes "authorizeOrRecordTargetPromotionProgress journal candidate w = (Inr (ProgressState s), w')"
  shows "\<exists>w1. readValidatedTargetPromotionState journal (targetPromotionCorrelationFor candidate) w = (Inr (Some s), w1)"
  using assms
  by (auto simp: authorizeOrRecordTargetPromotionProgress_def authorizeExistingState_def authorizePendingProgress_def
      authorizeDeferredProgress_def Let_def elim!: andThen_InrE
      split: option.splits TargetPromotionState.splits TargetPromotionPendingRetry.splits TargetPromotionReconciliationDeferral.splits)

lemma callsMade_from:
  "callsMade git c w1 x w' \<Longrightarrow> w_git w1 = w_git w \<Longrightarrow> w_sent w1 = w_sent w \<Longrightarrow> callsMade git c w x w'"
  by (simp add: callsMade_def)

lemma callsMade_error:
  "callsMade git c w y w' \<Longrightarrow> callsMade git c w (case y of Inl e \<Rightarrow> Inl (f e) | Inr s \<Rightarrow> Inr s) w'"
  by (auto simp: callsMade_def newSuccess_def split: sum.splits)

context in_run_journal
begin

lemma authorized_calls:
  fixes candidate :: IntegratorRunQualifiedCandidate
  assumes c: "c = targetPromotionCorrelationFor candidate" and at: "promoAt journal valid c es S K w"
    and run: "andThen (authorizeOrRecordTargetPromotionProgress journal candidate) (finishProgress journal git) w = (x, w')"
  shows "callsMade git c w x w' \<or>
    w_git w' = w_git w \<and> w_sent w' = w_sent w \<and> (\<exists>s. x = Inr s \<and> map_option stateOfEvent (latest es) = Some s)"
  using andThen_cases [OF run]
proof (elim disjE exE conjE)
  fix e assume stopped: "authorizeOrRecordTargetPromotionProgress journal candidate w = (Inl e, w')" "x = Inl e"
  then show ?thesis using keepsGitD [OF keeps_authorize stopped(1)] by (auto intro!: callsMade_stopped)
next
  fix p w1
  assume progress: "authorizeOrRecordTargetPromotionProgress journal candidate w = (Inr p, w1)" and finish: "finishProgress journal git p w1 = (x, w')"
  have "progressFor c p"
    using triple_Inr [OF triple_authorizeOrRecord [of candidate, folded c] at progress] progressOk_for by blast
  from finishProgress_calls [OF finish this] show ?thesis
  proof (elim disjE exE conjE)
    assume "callsMade git c w1 x w'"
    then show ?thesis using callsMade_from keepsGitD [OF keeps_authorize progress] by blast
  next
    fix s assume s: "p = ProgressState s" "x = Inr s" "w' = w1"
    obtain w2 where "readValidatedTargetPromotionState journal c w = (Inr (Some s), w2)"
      using authorize_state [OF progress [unfolded s]] c by blast
    then have "map_option stateOfEvent (latest es) = Some s" using triple_Inr [OF triple_readValidated at] by metis
    then show ?thesis using s keepsGitD [OF keeps_authorize progress] by blast
  qed
qed

lemma run_calls:
  fixes published :: PublishedIntegratorRunQualifiedCandidate
  assumes c: "c = targetPromotionCorrelationFor (pub_candidate published)"
    and at: "promoAt journal valid c es S K w" and run: "runTargetPromotion journal git published w = (x, w')"
  shows "callsMade git c w x w' \<or>
    w_git w' = w_git w \<and> w_sent w' = w_sent w \<and> (\<exists>s. x = Inr s \<and> map_option stateOfEvent (latest es) = Some s)"
  using andThen_cases [OF run [unfolded runTargetPromotion_def]]
proof (elim disjE exE conjE)
  fix e assume "authorizePublishedCandidate journal published w = (Inl e, w')" "x = Inl e"
  then show ?thesis using authorizePublished_cases [of published w "Inl e" w'] by (auto intro: callsMade_stopped)
next
  fix candidate w0
  assume authorized: "authorizePublishedCandidate journal published w = (Inr candidate, w0)"
    and rest: "mapError PromotionProtocolError (andThen (authorizeOrRecordTargetPromotionProgress journal candidate) (finishProgress journal git)) w0 = (x, w')"
  have w0: "w0 = w" "candidate = pub_candidate published" using authorizePublished_cases [OF authorized] by auto
  obtain y where y: "andThen (authorizeOrRecordTargetPromotionProgress journal candidate) (finishProgress journal git) w = (y, w')"
    "x = (case y of Inl e \<Rightarrow> Inl (PromotionProtocolError e) | Inr s \<Rightarrow> Inr s)"
    using rest w0 by (auto simp: mapError_def split: prod.splits sum.splits)
  from authorized_calls [OF c [folded w0(2)] at y(1)] show ?thesis using callsMade_error y(2) by fastforce
qed

end

end
