(* ===== verification/Promotion_Git_Properties.thy ===== *)
theory Promotion_Git_Properties
  imports Worktree_Inventory Promotion_Calls Promotion_Properties
begin

text \<open>
  Promotion on the Node Git authority: the exact commands of a run for an arbitrary Git, and what happens to the target on one that
  behaves as documented.
\<close>

section \<open>The commands of one call\<close>

type_synonym GitCommandEntry = "string \<times> string list \<times> (string + GitCommandResult)"

definition loggedRun :: "'g gitRun \<Rightarrow> ('g \<times> GitCommandEntry list) gitRun" where
  "loggedRun run repository args = (\<lambda>(g, log). case run repository args g of (x, g') \<Rightarrow> (x, (g', log @ [(repository, args, x)])))"

fun readOnlyCommand :: "TargetPromotionGitRequest \<Rightarrow> GitCommandEntry \<Rightarrow> bool" where
  "readOnlyCommand request (repository, args, _) \<longleftrightarrow>
     repository = targetRepository request \<and>
     (args \<in> {symbolicRefArgs request, revParseArgs request, worktreeListArgs} \<or> (\<exists>head. args = isAncestorArgs request head))"

definition directProof :: "TargetPromotionGitRequest \<Rightarrow> GitCommandEntry \<Rightarrow> bool" where
  "directProof request entry \<longleftrightarrow>
     (\<exists>result. entry = (targetRepository request, symbolicRefArgs request, Inr result) \<and> gr_exitCode result = 1 \<and> gr_stdout result = [])"

definition unoccupiedProof :: "SchemaIssueText \<Rightarrow> TargetPromotionGitRequest \<Rightarrow> GitCommandEntry \<Rightarrow> bool" where
  "unoccupiedProof issues request entry \<longleftrightarrow>
     (\<exists>result registrations. entry = (targetRepository request, worktreeListArgs, Inr result) \<and> gr_exitCode result = 0 \<and>
        decodeGitWorktreeRegistrations issues (gr_stdout result) = Inr registrations \<and>
        (\<forall>r\<in>set registrations. wr_branch r \<noteq> Some (targetRef request)))"

lemma direct_logged:
  assumes "provePromotionTargetDirect (loggedRun run) request (g, log) = (x, s)"
  shows "\<exists>g' entry. s = (g', log @ [entry]) \<and> readOnlyCommand request entry \<and> (x = Inr () \<longrightarrow> directProof request entry)"
  using assms
  by (auto simp: provePromotionTargetDirect_def loggedRun_def andThen_def mapError_def directProof_def split: prod.splits sum.splits if_splits)

lemma unoccupied_logged:
  assumes "provePromotionTargetUnoccupied issues (loggedRun run) request (g, log) = (x, s)"
  shows "\<exists>g' entry. s = (g', log @ [entry]) \<and> readOnlyCommand request entry \<and> (x = Inr () \<longrightarrow> unoccupiedProof issues request entry)"
  using assms
  by (auto simp: provePromotionTargetUnoccupied_def loggedRun_def andThen_def mapError_def unoccupiedProof_def find_None_iff
      split: prod.splits sum.splits if_splits option.splits)

lemma head_logged:
  assumes "readCurrentHead issues (loggedRun run) request (g, log) = (x, s)"
  shows "\<exists>g' entry. s = (g', log @ [entry]) \<and> readOnlyCommand request entry"
  using assms by (auto simp: readCurrentHead_def loggedRun_def andThen_def mapError_def Let_def split: prod.splits sum.splits if_splits)

lemma run_logged: "loggedRun run repository args (g, log) = (x, s) \<Longrightarrow> \<exists>g'. s = (g', log @ [(repository, args, x)])"
  by (auto simp: loggedRun_def split: prod.splits)

declare readOnlyCommand.simps [simp del]

definition readsOnly :: "TargetPromotionGitRequest \<Rightarrow> GitCommandEntry list \<Rightarrow> 'g \<times> GitCommandEntry list \<Rightarrow> bool" where
  "readsOnly request log s \<longleftrightarrow> (\<exists>entries. snd s = log @ entries \<and> list_all (readOnlyCommand request) entries)"

lemma readsOnly_refl: "readsOnly request log (g, log)"
  by (simp add: readsOnly_def)

lemma readsOnly_step: "readsOnly request log (g, log') \<Longrightarrow> readOnlyCommand request entry \<Longrightarrow> readsOnly request log (g', log' @ [entry])"
  by (fastforce simp: readsOnly_def)

text \<open>An assertion that every step of an effect keeps, whether it fails or not.\<close>

definition keepsAll :: "('w \<Rightarrow> bool) \<Rightarrow> ('w, 'e, 'a) effect \<Rightarrow> bool" where
  "keepsAll P m \<longleftrightarrow> (\<forall>w x w'. P w \<longrightarrow> m w = (x, w') \<longrightarrow> P w')"

lemma keepsAllD: "keepsAll P m \<Longrightarrow> P w \<Longrightarrow> m w = (x, w') \<Longrightarrow> P w'"
  by (simp add: keepsAll_def)

lemma keepsAll_andThen: "keepsAll P m \<Longrightarrow> (\<And>x. keepsAll P (f x)) \<Longrightarrow> keepsAll P (andThen m f)"
  unfolding keepsAll_def by (blast dest: andThen_cases)

lemma keepsAll_simple: "keepsAll P (succeed x)" "keepsAll P (fail e)"
  by (simp_all add: keepsAll_def)

lemma keepsAll_mapError: "keepsAll P m \<Longrightarrow> keepsAll P (mapError f m)"
  by (auto simp: keepsAll_def mapError_def split: prod.splits sum.splits)

lemma keepsAll_if: "(b \<Longrightarrow> keepsAll P m) \<Longrightarrow> (\<not> b \<Longrightarrow> keepsAll P n) \<Longrightarrow> keepsAll P (if b then m else n)"
  by simp

lemma mapError_run: "mapError f m w = (x, w') \<Longrightarrow> \<exists>y. m w = (y, w') \<and> (\<forall>a. x = Inr a \<longrightarrow> y = Inr a)"
  by (auto simp: mapError_def split: prod.splits sum.splits)

lemmas keepsAll_rules = keepsAll_andThen keepsAll_simple keepsAll_mapError keepsAll_if

lemma ancestor_readOnly: "readOnlyCommand request (targetRepository request, isAncestorArgs request head, x)"
  by (auto simp: readOnlyCommand.simps)

lemma keepsAll_readsOnly:
  "keepsAll (readsOnly request log) (provePromotionTargetDirect (loggedRun run) request)"
  "keepsAll (readsOnly request log) (provePromotionTargetUnoccupied issues (loggedRun run) request)"
  "keepsAll (readsOnly request log) (readCurrentHead issues (loggedRun run) request)"
  "keepsAll (readsOnly request log) (loggedRun run (targetRepository request) (isAncestorArgs request head))"
  unfolding keepsAll_def
  by (clarify, (drule direct_logged | drule unoccupied_logged | drule head_logged | drule run_logged), fastforce intro: readsOnly_step ancestor_readOnly)+

lemma keepsAll_read: 
  assumes "keepsAll P (provePromotionTargetDirect run request)" "keepsAll P (provePromotionTargetUnoccupied issues run request)"
    "keepsAll P (readCurrentHead issues run request)" "\<And>head. keepsAll P (run (targetRepository request) (isAncestorArgs request head))"
  shows "keepsAll P (nodePromotionRead issues run request)"
  unfolding nodePromotionRead_def by (intro keepsAll_rules assms)

lemma read_logged:
  assumes "nodePromotionRead issues (loggedRun run) request (g, log) = (x, s)"
  shows "readsOnly request log s"
  using keepsAllD [OF keepsAll_read [OF keepsAll_readsOnly] readsOnly_refl assms] .

text \<open>
  A compare-and-set asks for proofs and then, at most once and directly after both, updates the ref from the expected head to the
  candidate; what follows only reads.
\<close>

definition casCommands :: "SchemaIssueText \<Rightarrow> TargetPromotionGitRequest \<Rightarrow> GitCommandEntry list \<Rightarrow> bool" where
  "casCommands issues request entries \<longleftrightarrow>
     list_all (readOnlyCommand request) entries \<or>
     (\<exists>direct unoccupied x rest. entries = [direct, unoccupied, (targetRepository request, updateRefArgs request, x)] @ rest \<and>
        directProof request direct \<and> unoccupiedProof issues request unoccupied \<and> list_all (readOnlyCommand request) rest)"

lemma reconcile_logged:
  assumes "reconcileRejectedUpdate issues (loggedRun run) request result (g, log) = (x, s)"
  shows "readsOnly request log s \<and> x \<noteq> Inr (Applied h)"
proof -
  have kept: "keepsAll (readsOnly request log) (reconcileRejectedUpdate issues (loggedRun run) request result)"
    unfolding reconcileRejectedUpdate_def by (intro keepsAll_rules keepsAll_readsOnly)
  have "readsOnly request log s" by (rule keepsAllD [where P = "readsOnly request log", OF kept readsOnly_refl assms])
  moreover have "x \<noteq> Inr (Applied h)"
    using assms by (auto simp: reconcileRejectedUpdate_def elim!: andThen_InrE split: if_splits)
  ultimately show ?thesis by blast
qed

lemma update_logged:
  assumes "andThen (mapError (compareAndSetFailure request) (loggedRun run (targetRepository request) (updateRefArgs request))) (\<lambda>result.
       if gr_exitCode result = 0 then succeed (Applied (gr_candidateCommit request))
       else reconcileRejectedUpdate issues (loggedRun run) request result) (g, log) = (x, s)"
  shows "\<exists>y rest. snd s = log @ (targetRepository request, updateRefArgs request, y) # rest \<and> list_all (readOnlyCommand request) rest \<and>
    (\<forall>h. x = Inr (Applied h) \<longrightarrow> h = gr_candidateCommit request \<and> (\<exists>result. y = Inr result \<and> gr_exitCode result = 0))"
proof -
  obtain y g' where run: "run (targetRepository request) (updateRefArgs request) g = (y, g')" by (rule prod.exhaust)
  let ?log = "log @ [(targetRepository request, updateRefArgs request, y)]"
  have rest: "(case y of Inl e \<Rightarrow> (Inl (compareAndSetFailure request e), (g', ?log))
       | Inr result \<Rightarrow> if gr_exitCode result = 0 then (Inr (Applied (gr_candidateCommit request)), (g', ?log))
           else reconcileRejectedUpdate issues (loggedRun run) request result (g', ?log)) = (x, s)"
    using assms by (cases y) (simp_all add: andThen_def mapError_def loggedRun_def run split: if_splits)
  have "readsOnly request ?log s \<and>
      (\<forall>h. x = Inr (Applied h) \<longrightarrow> h = gr_candidateCommit request \<and> (\<exists>result. y = Inr result \<and> gr_exitCode result = 0))"
    using rest readsOnly_refl [of request ?log g'] by (auto dest: reconcile_logged split: sum.splits if_splits)
  then show ?thesis by (fastforce simp: readsOnly_def)
qed

lemma cas_logged:
  assumes "nodeCompareAndSet issues (loggedRun run) request (g, log) = (x, s)"
  shows "\<exists>entries. snd s = log @ entries \<and> casCommands issues request entries \<and>
    (\<forall>h. x = Inr (Applied h) \<longrightarrow> h = gr_candidateCommit request \<and>
       (\<exists>result. (targetRepository request, updateRefArgs request, Inr result) \<in> set entries \<and> gr_exitCode result = 0))"
  using andThen_cases [OF assms [unfolded nodeCompareAndSet_def]]
proof (elim disjE exE conjE)
  fix e assume "mapError CasSafetyFailure (provePromotionTargetDirect (loggedRun run) request) (g, log) = (Inl e, s)" "x = Inl e"
  then obtain y where direct: "provePromotionTargetDirect (loggedRun run) request (g, log) = (y, s)" by (auto dest: mapError_run)
  then show ?thesis using direct_logged [OF direct] \<open>x = Inl e\<close> by (fastforce simp: casCommands_def)
next
  fix u s1
  assume "mapError CasSafetyFailure (provePromotionTargetDirect (loggedRun run) request) (g, log) = (Inr u, s1)"
    and rest: "andThen (mapError CasSafetyFailure (provePromotionTargetUnoccupied issues (loggedRun run) request)) (\<lambda>_.
     andThen (mapError (compareAndSetFailure request) (loggedRun run (targetRepository request) (updateRefArgs request))) (\<lambda>result.
       if gr_exitCode result = 0 then succeed (Applied (gr_candidateCommit request))
       else reconcileRejectedUpdate issues (loggedRun run) request result)) s1 = (x, s)"
  then have direct: "provePromotionTargetDirect (loggedRun run) request (g, log) = (Inr (), s1)" by (auto dest: mapError_run)
  from direct_logged [OF direct] obtain g1 e1 where s1: "s1 = (g1, log @ [e1])" "readOnlyCommand request e1" "directProof request e1" by auto
  from andThen_cases [OF rest [unfolded s1(1)]] show ?thesis
  proof (elim disjE exE conjE)
    fix e assume "mapError CasSafetyFailure (provePromotionTargetUnoccupied issues (loggedRun run) request) (g1, log @ [e1]) = (Inl e, s)" "x = Inl e"
    then obtain y where unoccupied: "provePromotionTargetUnoccupied issues (loggedRun run) request (g1, log @ [e1]) = (y, s)" by (auto dest: mapError_run)
    then show ?thesis using unoccupied_logged [OF unoccupied] s1 \<open>x = Inl e\<close> by (fastforce simp: casCommands_def)
  next
    fix u' s2
    assume "mapError CasSafetyFailure (provePromotionTargetUnoccupied issues (loggedRun run) request) (g1, log @ [e1]) = (Inr u', s2)"
      and update: "andThen (mapError (compareAndSetFailure request) (loggedRun run (targetRepository request) (updateRefArgs request))) (\<lambda>result.
       if gr_exitCode result = 0 then succeed (Applied (gr_candidateCommit request))
       else reconcileRejectedUpdate issues (loggedRun run) request result) s2 = (x, s)"
    then have unoccupied: "provePromotionTargetUnoccupied issues (loggedRun run) request (g1, log @ [e1]) = (Inr (), s2)" by (auto dest: mapError_run)
    from unoccupied_logged [OF unoccupied] obtain g2 e2 where s2: "s2 = (g2, log @ [e1, e2])" "unoccupiedProof issues request e2" by auto
    from update_logged [OF update [unfolded s2(1)]] obtain y rest
      where rest: "snd s = log @ [e1, e2, (targetRepository request, updateRefArgs request, y)] @ rest" "list_all (readOnlyCommand request) rest"
        "\<And>h. x = Inr (Applied h) \<Longrightarrow> h = gr_candidateCommit request \<and> (\<exists>result. y = Inr result \<and> gr_exitCode result = 0)" by auto
    then have "casCommands issues request ([e1, e2, (targetRepository request, updateRefArgs request, y)] @ rest)"
      unfolding casCommands_def using s1(3) s2(2) by blast
    then show ?thesis using rest by (intro exI [of _ "[e1, e2, (targetRepository request, updateRefArgs request, y)] @ rest"]) auto
  qed
qed

section \<open>The commands of one run\<close>

definition sentSafely ::
  "'j InRunJournalService \<Rightarrow> PublishedIntegratorRunQualifiedCandidate \<Rightarrow> TargetPromotionCorrelation \<Rightarrow> nat \<Rightarrow>
   ('j, 'g, 'm) World_scheme \<Rightarrow> ('j, 'g, 'm) World_scheme \<Rightarrow> bool" where
  "sentSafely journal published c n w w' \<longleftrightarrow>
     publicationProven journal published w \<and> (\<exists>entry. w_sent w' = w_sent w @ [entry] \<and> casJustified journal c n entry)"

lemma promotion_sent:
  assumes "storeWellFormed (w_journal w)"
    and "memoryRead rules (w_journal w) (targetPromotionRunIdOf c) = Inr rs" "promotionProtocolHistory rs c"
    and c: "c = targetPromotionCorrelationFor (pub_candidate published)"
    and run: "runTargetPromotion (memoryJournal rules) git published w = (x, w')"
  shows "promoAt (memoryJournal rules) storeWellFormed c (promotionEvents rs c) (w_sent w) (w_caps w) w"
    and "w_sent w' \<noteq> w_sent w \<Longrightarrow> sentSafely (memoryJournal rules) published c (Suc (attemptCount (promotionEvents rs c))) w w'"
proof -
  let ?J = "memoryJournal rules"
  show at: "promoAt ?J storeWellFormed c (promotionEvents rs c) (w_sent w) (w_caps w) w"
    using assms by (simp add: promoAt_def memoryJournal_def)
  note t = memory.triple_runPromotion [where published = published, folded c]
  have "promoReached ?J storeWellFormed c (promoAdvance ?J c (promotionEvents rs c) (w_sent w)) w'"
    using triple_Inr [OF t at] triple_Inl [OF t at] run by (cases x) (fastforce elim!: promoReached_mono)+
  moreover assume "w_sent w' \<noteq> w_sent w"
  moreover have "w_sent w' = w_sent w" if "\<not> publicationProven ?J published w"
    using memory.unproven_inert [OF that run [unfolded runTargetPromotion_def]] by simp
  ultimately show "sentSafely ?J published c (Suc (attemptCount (promotionEvents rs c))) w w'"
    by (auto simp: sentSafely_def promoReached_def promoAdvance_def promoAt_def)
qed

text \<open>
  C4. The commands of one promotion run are exact, whatever Git answers. Every command but one only reads; \<^verbatim>\<open>update-ref\<close> runs at most
  once, for the target ref from the expected head to the candidate, directly after one command proved that the ref is direct and one that no
  worktree has it checked out; and it runs only for a published candidate, with the attempt's intent durable.
\<close>

theorem promotion_commands_exact:
  assumes "storeWellFormed (w_journal w)"
    and "memoryRead rules (w_journal w) (targetPromotionRunIdOf c) = Inr rs" "promotionProtocolHistory rs c"
    and c: "c = targetPromotionCorrelationFor (pub_candidate published)" and request: "request = targetPromotionGitRequestFor c"
    and run: "runTargetPromotion (memoryJournal rules) (nodeGitTargetPromotion issues (loggedRun run)) published w = (x, w')"
  shows "\<exists>reads entries. snd (w_git w') = snd (w_git w) @ reads @ entries \<and> list_all (readOnlyCommand request) reads \<and>
    casCommands issues request entries \<and>
    (entries \<noteq> [] \<longrightarrow> sentSafely (memoryJournal rules) published c (Suc (attemptCount (promotionEvents rs c))) w w')"
proof -
  let ?git = "nodeGitTargetPromotion issues (loggedRun run)"
  let ?safe = "sentSafely (memoryJournal rules) published c (Suc (attemptCount (promotionEvents rs c))) w w'"
  note at = promotion_sent(1) [OF assms(1-4) run] and sent = promotion_sent(2) [OF assms(1-4) run]
  obtain g log where w: "w_git w = (g, log)" by (rule prod.exhaust)
  have unchanged: "casCommands issues request []" by (simp add: casCommands_def)
  have "w_git w' = w_git w \<or> (\<exists>sent shown. promotionCalls ?git c (w_git w) sent shown (w_git w') \<and> (sent \<longrightarrow> ?safe))"
    using memory.run_calls [OF c at run] sent by (auto simp: callsMade_def)
  then show ?thesis
  proof (elim disjE exE conjE)
    assume "w_git w' = w_git w"
    then show ?thesis using unchanged by (intro exI [of _ "[]"]) simp
  next
    fix sent shown
    assume "promotionCalls ?git c (w_git w) sent shown (w_git w')" and safe: "sent \<longrightarrow> ?safe"
    then show ?thesis
    proof cases
      case no_call
      then show ?thesis using unchanged by (intro exI [of _ "[]"]) simp
    next
      case (read_only answer)
      then have "readsOnly request log (w_git w')" using read_logged [of issues run request g log] by (simp add: w request nodeGitTargetPromotion_def)
      then obtain reads where "snd (w_git w') = log @ reads" "list_all (readOnlyCommand request) reads" by (auto simp: readsOnly_def)
      then show ?thesis using unchanged w by (intro exI [of _ reads] exI [of _ "[]"]) simp
    next
      case (cas_only result)
      then have "nodeCompareAndSet issues (loggedRun run) request (g, log) = (result, w_git w')" by (simp add: w request nodeGitTargetPromotion_def)
      from cas_logged [OF this] obtain entries where "snd (w_git w') = log @ entries" "casCommands issues request entries" by blast
      then show ?thesis using safe w cas_only by (intro exI [of _ "[]"] exI [of _ entries]) simp
    next
      case (read_cas answer g1 result)
      then have "readsOnly request log g1" using read_logged [of issues run request g log] by (simp add: w request nodeGitTargetPromotion_def)
      then obtain h reads where g1: "g1 = (h, log @ reads)" "list_all (readOnlyCommand request) reads" by (cases g1) (auto simp: readsOnly_def)
      then have "nodeCompareAndSet issues (loggedRun run) request (h, log @ reads) = (result, w_git w')"
        using read_cas by (simp add: request nodeGitTargetPromotion_def)
      from cas_logged [OF this] obtain entries where "snd (w_git w') = (log @ reads) @ entries" "casCommands issues request entries" by blast
      then show ?thesis using safe w g1 read_cas by (intro exI [of _ reads] exI [of _ entries]) simp
    qed
  qed
qed

section \<open>A Git that behaves as documented\<close>

















section \<open>Instances\<close>

text \<open>A repository whose only state is the head of the target.\<close>

definition headRun :: "string gitRun" where
  "headRun repository args head =
     (if hd args = ''update-ref''
      then (if args ! 3 = head then (Inr \<lparr>gr_exitCode = 0, gr_stderr = [], gr_stdout = []\<rparr>, args ! 2)
            else (Inr exitedOne, head))
      else (if hd args = ''rev-parse'' then Inr \<lparr>gr_exitCode = 0, gr_stderr = [], gr_stdout = head @ [newline]\<rparr>
            else if hd args = ''worktree'' then Inr \<lparr>gr_exitCode = 0, gr_stderr = [], gr_stdout = printInventory demoInventory\<rparr>
            else Inr exitedOne, head))"



definition demoRequest :: TargetPromotionGitRequest where
  "demoRequest = targetPromotionGitRequestFor demoPromotion"



definition demoAppend :: "JournalRecordKey \<Rightarrow> RemotePublicationJournalEvent \<Rightarrow> MemoryJournalState \<Rightarrow> MemoryJournalState" where
  "demoAppend key event j = snd (ij_append (memoryJournal openRules) ''run'' key (RemotePublicationEvent event) j)"

definition demoPublishedJournal :: MemoryJournalState where
  "demoPublishedJournal =
     demoAppend ''succeeded'' (RemotePublicationSucceeded demoPublication (PushApplied 1 (replicate 40 CHR ''a'')))
       (demoAppend ''attempt'' (attemptEvent demoPublication 1 None)
         (demoAppend ''intended'' (RemotePublicationIntended demoPublication) demoBegun))"

definition demoPublishedWorld :: "'g \<Rightarrow> (MemoryJournalState, 'g) PromotionWorld" where
  "demoPublishedWorld g = \<lparr>w_journal = demoPublishedJournal, w_git = g, w_sent = [], w_caps = makeTargetPromotionCapabilities\<rparr>"

lemma demoPublished_wellFormed: "storeWellFormed demoPublishedJournal"
proof -
  have step: "storeWellFormed (demoAppend key event j)" if "storeWellFormed j" for key event j
    using memory.append_valid [OF that prod.collapse [symmetric]] by (simp add: demoAppend_def)
  show ?thesis unfolding demoPublishedJournal_def by (intro step demo_wellFormed)
qed

definition demoPublishedRecords :: "JournalRecord list" where
  "demoPublishedRecords = runRecords demoPublishedJournal ''run''"

lemma demoPublished_read: "memoryRead openRules demoPublishedJournal ''run'' = Inr demoPublishedRecords"
  by code_simp

lemma demoPublished_history: "promotionProtocolHistory demoPublishedRecords demoPromotion \<and> promotionEvents demoPublishedRecords demoPromotion = []"
proof -
  have "promotionEvents demoPublishedRecords demoPromotion = []" "targetPromotionCorrelationConflictFor demoPublishedRecords demoPromotion = None"
    by code_simp+
  moreover have "list_all (\<lambda>r. promotionEventOf (jr_event r) = None) demoPublishedRecords" by code_simp
  ultimately show ?thesis by (fastforce simp: promotionProtocolHistory_def list_all_iff promotion_history.empty)
qed

lemma demoPublished_correlation: "demoPromotion = targetPromotionCorrelationFor (pub_candidate demoPublished)"
  by (simp add: demoPromotion_def demoPublished_def)

lemma demoPublished_start:
  "storeWellFormed (w_journal (demoPublishedWorld g))"
  "memoryRead openRules (w_journal (demoPublishedWorld g)) (targetPromotionRunIdOf demoPromotion) = Inr demoPublishedRecords"
  by (simp_all add: demoPublishedWorld_def demoPublished_wellFormed demoPublished_read)


theorem promotion_commands_exact_witness:
  "\<exists>reads entries. snd (w_git (snd (runTargetPromotion (memoryJournal openRules) (nodeGitTargetPromotion demoIssues (loggedRun headRun)) demoPublished
     (demoPublishedWorld (replicate 40 CHR ''b'', []))))) = reads @ entries \<and> casCommands demoIssues demoRequest entries"
  using promotion_commands_exact [OF demoPublished_start conjunct1 [OF demoPublished_history] demoPublished_correlation demoRequest_def
      prod.collapse [symmetric], of demoIssues headRun "(replicate 40 CHR ''b'', [])"]
  by (auto simp: demoPublishedWorld_def)

end
