(* ===== verification/Spec2Isabelle.thy ===== *)
theory Spec2Isabelle
  imports Promotion_Properties Publication_Properties Resume_Properties Git_Properties Archive_Properties Graph_Properties Request_Circuit
    Target_Properties Task_Work_Capacity Claim_Properties Evidence_Properties Journaled_Claim_Properties Promotion_Git_Properties
begin

text \<open>
  This library models the orchestrator of Dalph, a coordinator that plans task attempts, integrates their results and delivers
  them to a Git target, and proves what makes its durable core correct.

  The program. A run's history is a journal of typed events (\<^verbatim>\<open>workflow-journal\<close>): every decision is recorded before
  the effect it announces, and every state is reconstructed from the journal after a restart. Protocols
  (\<^verbatim>\<open>workflow/protocols\<close>) append numbered intents, call an authority (\<^verbatim>\<open>authorities\<close>), and append what they observed. Direct
  publication pushes a qualified candidate to the pinned remote branch; target promotion then moves the local
  integration target by compare-and-set, only for a candidate whose publication proof is durable. The operator pauses and resumes
  work through the journal. An application exit closes admission and drains the work that is under way.

  The model, one theory per component, in the order of the imports:

  \<^item> \<open>Prelude\<close>: effects as state-passing functions into a sum of error and value, triples with an
    error postcondition, decimal text.
  \<^item> \<open>Contracts\<close>, \<open>Promotion_Events\<close>, \<open>Publication_Events\<close>, \<open>Workflow_Events\<close>: the data of
    \<^verbatim>\<open>packages/contracts/src\<close>, the protocols' \<^verbatim>\<open>events.ts\<close>, \<^verbatim>\<open>workflow/registry/event.ts\<close> and \<^verbatim>\<open>workflow-journal/record-key.ts\<close>. Events
    of protocols outside this library are the constructor \<open>OtherWorkflowEvent\<close>.
  \<^item> \<open>Journal_Store\<close>, \<open>Archive_Retention\<close>: the memory adapter of the journal store with its two partitions, completion receipts
    and archive maintenance (\<^verbatim>\<open>workflow-journal/adapters/memory-*.ts\<close>, \<^verbatim>\<open>run-lifecycle.ts\<close>, \<^verbatim>\<open>archive-retention.ts\<close>). Each
    operation is a function from the state to an answer and a state, as in the source's \<open>Ref.modify\<close>.
  \<^item> \<open>Journal_Laws\<close>: the steps a store can take, its invariant, and the locale \<open>in_run_journal\<close>, the interface of
    \<^verbatim>\<open>in-run-journal.ts\<close> that the protocols rely on, interpreted on the memory adapter as \<open>memory\<close>.
  \<^item> \<open>Promotion_State\<close>, \<open>Promotion_Decisions\<close>, \<open>Promotion_Protocol\<close>, \<open>Promotion_Engine\<close>: target promotion
    (\<^verbatim>\<open>workflow/protocols/target-promotion\<close>), from the reducer to \<open>runTargetPromotion\<close>; \<open>Promotion_History\<close> is the grammar of its histories and
    \<open>Promotion_Correctness\<close> the triple of every transition.
  \<^item> \<open>Publication_State\<close>, \<open>Publication_Protocol\<close>: direct publication (\<^verbatim>\<open>workflow/protocols/direct-publication\<close>);
    \<open>Publication_History\<close> and \<open>Publication_Evidence\<close> are the grammar of its events and the evidence on its batch grants,
    \<open>Publication_Correctness\<close> the locales \<open>publication_git\<close> and \<open>phase_boundary\<close> and the triple of the engine inside them.
  \<^item> \<open>Exit_Lifecycle\<close>: the application exit lifecycle (\<^verbatim>\<open>coordination/application-exit/lifecycle*.ts\<close>), as functions on one state and
    as the step relation of the fibers that share it.
  \<^item> \<open>Control_Direction\<close>: operator directions and the delivery boundary that obeys them, an interpretation of
    \<open>phase_boundary\<close>.
  \<^item> \<open>Git_Text\<close>, \<open>Publication_Git\<close>: the Node Git authority (\<^verbatim>\<open>authorities/git/direct-publication*.ts\<close>), an
    interpretation of \<open>publication_git\<close>; with the memory journal and the delivery boundary it gives \<open>node_engine\<close>, the engine as the
    program composes it.
  \<^item> \<open>Promotion_Git\<close>: the Node Git authority of promotion (\<^verbatim>\<open>authorities/git/target-promotion*.ts\<close>, \<^verbatim>\<open>worktree-registration.ts\<close>) and
    the coordinator's ownership guard around its compare-and-set; \<open>Promotion_Calls\<close> shows which calls of the authority a promotion run
    makes.
  \<^item> \<open>Task_Graph\<close>: the tracker's task graph (\<^verbatim>\<open>authorities/task-tracker/graph.ts\<close>): projection of a snapshot with its issues, the search for
    cycles, the queries, the topological order and the wire form. \<open>Task_Graph_Laws\<close> are the consequences of the container's laws,
    \<open>Cycle_Detection\<close> the invariant of the depth-first search, \<open>Task_Graph_Projection\<close> and \<open>Task_Graph_Queries\<close>
    the meaning of a projected graph and of its queries.
  \<^item> \<open>Run_Finality\<close>: the outcome of a run's graph, the blockage closure and the finality evidence
    (\<^verbatim>\<open>coordination/frontier/run-finality.ts\<close>); \<open>Finality_Keys\<close> shows that its comparison keys are injective.
  \<^item> \<open>Request_Circuit\<close>: the admission circuit before external requests (\<^verbatim>\<open>control/request-circuit.ts\<close>), with its
    property.

  \<^item> \<open>Target_Resource\<close>: the process-local owner of integration targets (\<^verbatim>\<open>coordination/admission/integration-target-resource.ts\<close>). A fiber is
    the list of atomic actions it has still to perform, and the step relation interleaves them.
  \<^item> \<open>Task_Work_Capacity\<close>: the operator's capacity policy over the journal (\<^verbatim>\<open>control/task-work-capacity.ts\<close>), as functions and as a
    step relation in which the read and the append of one change are apart.
  \<^item> \<open>Task_Claims\<close>: the tracker's claim service, its in-memory adapter, and the acquisition, observation and release protocols
    (\<^verbatim>\<open>authorities/task-tracker/claim-mutation.ts\<close>, \<^verbatim>\<open>workflow/protocols/task-claim-*\<close>).
  \<^item> \<open>Record_Evidence\<close>: the indexed evidence of a journal (\<^verbatim>\<open>workflow-journal/record-evidence.ts\<close>, \<^verbatim>\<open>record-sequence.ts\<close>,
    \<^verbatim>\<open>claim-observation-episodes.ts\<close>); \<open>Evidence_Laws\<close> relates the indexes to the list of records they stand for.
  \<^item> \<open>Claim_Reacquisition\<close>: the operator's direction to acquire a lost claim again and the search for the direction whose loss still
    lasts, by scan and by index (\<^verbatim>\<open>workflow/protocols/task-claim-reacquisition\<close>).
  \<^item> \<open>Journaled_Claims\<close>: acquisition, observation and release as the workflow runs them, over the journal and the tracker at once
    (\<^verbatim>\<open>workflow-journal/journaled-interpreter.ts\<close>, \<^verbatim>\<open>task-claim-release/journaled.ts\<close>): intent, call inside the
    interruptible boundary of the exit lifecycle, outcome. An execution of the boundary says whether the exit request wins the race and what the
    interrupted call has left of the tracker.

  The properties, each with an instance on concrete data (\<open>Protocol_Demo\<close>):

  \<^item> \<open>Journal_Properties\<close>, \<open>Archive_Properties\<close>: soundness of every reachable store, append-only histories, durability, closure
    of completed runs, retirement, receipts, recovery, and the bound of an archive pass.
  \<^item> \<open>Promotion_Properties\<close>: reconstruction refines the grammar; a run sends at most one compare-and-set, justified by a durable
    intent and a durable publication proof.
  \<^item> \<open>Publication_Properties\<close>, \<open>Resume_Properties\<close>: the reducer refines the grammar and believes no unjustified success; a
    run sends at most one push, justified by a durable intent; pausing, directions, admission, resumption; a grant that waits for a first
    attempt strands the publication.
  \<^item> \<open>Git_Properties\<close>: the parsers and their round trips, the exact push command, endpoint pinning, the meaning of an observation.
  \<^item> \<open>Worktree_Inventory\<close>, \<open>Promotion_Git_Properties\<close>: the inventory decoder against the documented format; the commands of a promotion
    run for an arbitrary Git; the moves of the target and the truth of a success on a Git that behaves as documented.
  \<^item> \<open>Exit_Properties\<close>: the invariant of the shared state under every interleaving, the finality of the cutoff, the
    drain and its decision, the bound on cleanup calls.
  \<^item> \<open>Graph_Properties\<close>: the cycle search reports exactly the strongly connected sets, the projection accepts exactly the
    well-formed snapshots, the order and the blockage loop end with the right answer, the wire form round trips, finality evidence
    is accepted exactly for its own run.
  \<^item> \<open>Target_Properties\<close>, \<open>Task_Work_Capacity\<close>: exclusion of responsibilities and of work on an integration target under every
    interleaving; concurrent capacity changes are linear.
  \<^item> \<open>Claim_Properties\<close>: what every claim request was preceded by, for an arbitrary tracker; convergence on a truthful one.
  \<^item> \<open>Evidence_Properties\<close>: every indexed query answers what a scan answers.
  \<^item> \<open>Reacquisition_Properties\<close>, \<open>Journaled_Claim_Properties\<close>: the meaning of the two searches for a direction; in the
    context \<open>in_run_journal\<close>, that no claim operation outruns its journal and that a recorded release is not repeated; over the
    step relation of the claim operations of a run, that the searches agree on every history these can write.

  Parameters. The whole-history reducer, the termination precondition and the encoded size of a record are the fields of
  \<open>HistoryRules\<close>; the Git authorities and the command service are records of functions on an arbitrary repository state; the endpoint check
  and the test that finality is settled are functions; the graph container of the \<^verbatim>\<open>effect\<close> package is the record
  \<open>GraphLibrary\<close>; the task tracker is a record of functions on an arbitrary state; what events of other families name is the record
  \<open>OtherEvents\<close>. The theorems hold for all of them; a hypothesis on one of them is named in the statement
  (\<open>ancestryHonest\<close>, \<open>gitHonest\<close>, \<open>guardHonest\<close>, \<open>graphLibraryLaws\<close>), and a concrete instance satisfies it.

  Loops. Every function of the model terminates. The archive pass recurses on the number of runs it may still delete, which the
  pass limit bounds by 32. The loops on a task graph take fuel: one more than the number of nodes for the depth-first \<open>visit\<close>, the number of
  tasks for \<open>topologicalLoop\<close>, one more than the number of tasks for \<open>blockageLoop\<close>. Running out is the value \<open>None\<close>, and the
  properties show that it never happens. The claim protocols recurse on the requests they may still send, at most three; the binary search
  of an index ends because its interval shrinks. The depth of the JavaScript call stack is not modelled.

  Strings are lists of 8-bit characters. Positions and ordinals are natural numbers: the source's are safe integers that it
  only counts up by one. Records of equal content are equal, as the schema equivalences of the source compare content.

  Not modelled: the SQLite adapter and the process spawning (native code), the task tracker adapters over HTTP, the run scheduler and the
  runnable frontier, the integrator, executor and finality protocols with their evidence indexes, the journaled reads of the graph, of
  worktrees and of work specifications, the planner of claim tokens, the trace presentation, and the \<^verbatim>\<open>dalph\<close> application around the
  orchestrator.
\<close>

end
